(* ===== verification/Prelude.thy ===== *)
theory Prelude
  imports Main "HOL-Library.Word" "HOL-Library.Char_ord" "HOL-Library.List_Lexorder"
begin

text \<open>
  Shared vocabulary of the development: the machine types of the Go code, its error
  values, the outcomes of calls that may panic, and the parts of the Go standard library
  the components use (big-endian integers, decimal and hexadecimal text, the
  \<open>strings\<close> functions). A Go string is a byte sequence, which is what a HOL
  \<open>string\<close> (a list of 8-bit characters) is.
\<close>

section \<open>Collections of facts\<close>

named_theorems go_simps \<open>unfolding rules for calls that may fail or panic\<close>
named_theorems inv_intros \<open>preservation of a component's invariant\<close>

section \<open>Machine types\<close>

type_synonym byte = "8 word"
type_synonym u8 = "8 word"
type_synonym u32 = "32 word"
type_synonym u64 = "64 word"
type_synonym bytes = "8 word list"

text \<open>Go's \<open>%\<close> truncates towards zero, unlike HOL's \<open>mod\<close>.\<close>

definition go_rem :: "int \<Rightarrow> int \<Rightarrow> int" where
  "go_rem a b = sgn a * (\<bar>a\<bar> mod \<bar>b\<bar>)"

lemma go_rem_nonneg [simp]: "0 \<le> a \<Longrightarrow> 0 < b \<Longrightarrow> go_rem a b = a mod b"
  by (cases "a = 0") (simp_all add: go_rem_def)

section \<open>Panics\<close>

text \<open>
  A call that may panic has an \<open>option\<close> type: \<open>None\<close> is the panic. Reads and
  writes of slices by a Go \<open>int\<close> index are \<open>go_nth\<close> and \<open>go_upd\<close>: an index
  out of range panics.
\<close>

definition go_nth :: "'a list \<Rightarrow> int \<Rightarrow> 'a option" where
  "go_nth xs i = (if 0 \<le> i \<and> i < int (length xs) then Some (xs ! nat i) else None)"

definition go_upd :: "'a list \<Rightarrow> int \<Rightarrow> 'a \<Rightarrow> 'a list option" where
  "go_upd xs i x = (if 0 \<le> i \<and> i < int (length xs) then Some (xs[nat i := x]) else None)"

text \<open>\<open>xs[lo:hi]\<close>, which panics unless \<open>0 \<le> lo \<le> hi \<le> len(xs)\<close>.\<close>

definition go_slice :: "'a list \<Rightarrow> int \<Rightarrow> int \<Rightarrow> 'a list option" where
  "go_slice xs lo hi =
     (if 0 \<le> lo \<and> lo \<le> hi \<and> hi \<le> int (length xs)
      then Some (take (nat hi - nat lo) (drop (nat lo) xs)) else None)"

lemma go_nth_Some [simp]: "0 \<le> i \<Longrightarrow> i < int (length xs) \<Longrightarrow> go_nth xs i = Some (xs ! nat i)"
  by (simp add: go_nth_def)

lemma go_nth_of_nat [simp]: "i < length xs \<Longrightarrow> go_nth xs (int i) = Some (xs ! i)"
  by (simp add: go_nth_def)

lemma go_upd_Some [simp]:
  "0 \<le> i \<Longrightarrow> i < int (length xs) \<Longrightarrow> go_upd xs i x = Some (xs[nat i := x])"
  by (simp add: go_upd_def)

lemma go_upd_of_nat [simp]: "i < length xs \<Longrightarrow> go_upd xs (int i) x = Some (xs[i := x])"
  by (simp add: go_upd_def)

section \<open>Errors\<close>

text \<open>
  Go errors as trees: the sentinels the code compares with \<open>errors.Is\<close>, messages made
  by \<open>fmt.Errorf\<close> around a wrapped error, joined errors, the struct
  \<open>processConfirmedBlockError\<close>, network errors with their \<open>Timeout()\<close> flag, and
  errors that come from code outside the repository (\<open>ErrMsg\<close> with the text).
\<close>

datatype goerror =
    ErrBlockIndexerFatal
  | ErrRetryTimeout
  | ErrRetryTryAgain
  | ErrContextCanceled
  | ErrContextDeadlineExceeded
  | ErrUTXOsLimitReached
  | ErrUTXOsCouldNotSelect
  | ErrInvalidAddressData
  | ErrInvalidSignature
  | ErrSecretNotFound
  | ErrNet string bool
  | ErrMsg string
  | ErrWrap string goerror string
  | ErrJoin "goerror list"
  | ErrProcessConfirmedBlock goerror

fun join_lines :: "string list \<Rightarrow> string" where
  "join_lines [] = ''''"
| "join_lines [x] = x"
| "join_lines (x # xs) = x @ CHR 0x0A # join_lines xs"

text \<open>\<open>err.Error()\<close>.\<close>

fun err_text :: "goerror \<Rightarrow> string" where
  "err_text ErrBlockIndexerFatal = ''block indexer fatal error''"
| "err_text ErrRetryTimeout = ''timeout''"
| "err_text ErrRetryTryAgain = ''retry try again''"
| "err_text ErrContextCanceled = ''context canceled''"
| "err_text ErrContextDeadlineExceeded = ''context deadline exceeded''"
| "err_text ErrUTXOsLimitReached = ''utxos limit reached, consolidation is required''"
| "err_text ErrUTXOsCouldNotSelect = ''couldn't select UTXOs''"
| "err_text ErrInvalidAddressData = ''invalid address data''"
| "err_text ErrInvalidSignature = ''invalid signature''"
| "err_text ErrSecretNotFound = ''secret not found''"
| "err_text (ErrNet m _) = m"
| "err_text (ErrMsg m) = m"
| "err_text (ErrWrap pre e post) = pre @ err_text e @ post"
| "err_text (ErrJoin es) = join_lines (map err_text es)"
| "err_text (ErrProcessConfirmedBlock e) = ''process confirmed block error: '' @ err_text e"

text \<open>\<open>errors.Is(err, target)\<close>: walks \<open>Unwrap\<close>, comparing with a sentinel.\<close>

fun err_is :: "goerror \<Rightarrow> goerror \<Rightarrow> bool" where
  "err_is (ErrWrap pre e post) t \<longleftrightarrow> ErrWrap pre e post = t \<or> err_is e t"
| "err_is (ErrJoin es) t \<longleftrightarrow> ErrJoin es = t \<or> (\<exists>e \<in> set es. err_is e t)"
| "err_is (ErrProcessConfirmedBlock e) t \<longleftrightarrow> ErrProcessConfirmedBlock e = t \<or> err_is e t"
| "err_is e t \<longleftrightarrow> e = t"

text \<open>\<open>errors.As(err, &processConfirmedBlockErr)\<close>.\<close>

fun err_as_process :: "goerror \<Rightarrow> bool" where
  "err_as_process (ErrWrap pre e post) = err_as_process e"
| "err_as_process (ErrJoin es) = (\<exists>e \<in> set es. err_as_process e)"
| "err_as_process (ErrProcessConfirmedBlock e) = True"
| "err_as_process _ = False"

text \<open>\<open>errors.As(err, &netErr)\<close>: the first network error in the tree.\<close>

fun err_as_net :: "goerror \<Rightarrow> bool option" where
  "err_as_net (ErrNet m t) = Some t"
| "err_as_net (ErrWrap pre e post) = err_as_net e"
| "err_as_net (ErrJoin es) =
     (case filter (\<lambda>r. r \<noteq> None) (map err_as_net es) of [] \<Rightarrow> None | r # _ \<Rightarrow> r)"
| "err_as_net (ErrProcessConfirmedBlock e) = err_as_net e"
| "err_as_net _ = None"

text \<open>Results of calls that return \<open>(value, error)\<close>.\<close>

type_synonym 'a result = "goerror + 'a"

definition rbind :: "'e + 'a \<Rightarrow> ('a \<Rightarrow> 'e + 'b) \<Rightarrow> 'e + 'b" where
  "rbind r f = (case r of Inl e \<Rightarrow> Inl e | Inr x \<Rightarrow> f x)"

lemma rbind_simps [simp, go_simps]:
  "rbind (Inl e) f = Inl e" "rbind (Inr x) f = f x"
  by (simp_all add: rbind_def)

lemma rbind_eq_Inr: "rbind r f = Inr y \<longleftrightarrow> (\<exists>x. r = Inr x \<and> f x = Inr y)"
  by (cases r) simp_all

lemma rbind_eq_Inl: "rbind r f = Inl e \<longleftrightarrow> r = Inl e \<or> (\<exists>x. r = Inr x \<and> f x = Inl e)"
  by (cases r) simp_all

definition is_ok :: "'e + 'a \<Rightarrow> bool" where
  "is_ok r = (case r of Inl _ \<Rightarrow> False | Inr _ \<Rightarrow> True)"

lemma is_ok_simps [simp]: "\<not> is_ok (Inl e)" "is_ok (Inr x)"
  by (simp_all add: is_ok_def)

end
