(* ===== verification/Go_Lib.thy ===== *)
theory Go_Lib
  imports Prelude "HOL-Library.Multiset"
begin

text \<open>
  The parts of the Go standard library the components use on strings and bytes:
  \<open>encoding/binary\<close> (big endian), \<open>encoding/hex\<close>, decimal \<open>strconv\<close>, and functions of
  \<open>strings\<close>, with the facts about them the components share.
\<close>

section \<open>Strings and bytes\<close>

lemma unat_byte_less [simp]: "unat (b :: byte) < 256"
  using unsigned_less [of b] by simp

lemma unat_u32_less: "unat (w :: u32) < 256 ^ 4"
  using unsigned_less [of w] by simp

lemma unat_u64_less: "unat (w :: u64) < 256 ^ 8"
  using unsigned_less [of w] by simp

lemma of_char_less [simp]: "(of_char c :: nat) < 256"
  by (metis mod_less_divisor of_char_mod_256 zero_less_numeral)

definition str_bytes :: "string \<Rightarrow> bytes" where
  "str_bytes s = map (\<lambda>c. word_of_nat (of_char c)) s"

definition bytes_str :: "bytes \<Rightarrow> string" where
  "bytes_str bs = map (\<lambda>b. char_of (unat b)) bs"

lemma bytes_str_bytes [simp]: "bytes_str (str_bytes s) = s"
proof (induction s)
  case (Cons c s)
  show ?case using Cons by (simp add: bytes_str_def str_bytes_def unat_of_nat)
qed (simp add: bytes_str_def str_bytes_def)

lemma str_bytes_str [simp]: "str_bytes (bytes_str bs) = bs"
proof (induction bs)
  case (Cons b bs)
  show ?case using Cons by (simp add: bytes_str_def str_bytes_def)
qed (simp add: bytes_str_def str_bytes_def)

section \<open>Big-endian integers\<close>

fun be_bytes :: "nat \<Rightarrow> nat \<Rightarrow> bytes" where
  "be_bytes 0 v = []"
| "be_bytes (Suc n) v = word_of_nat (v div 256 ^ n) # be_bytes n v"

fun be_val :: "bytes \<Rightarrow> nat" where
  "be_val [] = 0"
| "be_val (b # bs) = unat b * 256 ^ length bs + be_val bs"

definition put_uint64 :: "u64 \<Rightarrow> bytes" where
  "put_uint64 w = be_bytes 8 (unat w)"

definition put_uint32 :: "u32 \<Rightarrow> bytes" where
  "put_uint32 w = be_bytes 4 (unat w)"

definition uint32_at :: "bytes \<Rightarrow> u32" where
  "uint32_at bs = word_of_nat (be_val (take 4 bs))"

lemma length_be_bytes [simp]: "length (be_bytes n v) = n"
  by (induction n) simp_all

lemma be_val_less: "be_val bs < 256 ^ length bs"
proof (induction bs)
  case (Cons b bs)
  have "Suc (unat b) \<le> 256" using unat_byte_less [of b] by linarith
  then have "unat b * 256 ^ length bs + 256 ^ length bs \<le> 256 * 256 ^ length bs"
    by (metis add.commute mult_Suc mult_le_mono1)
  with Cons show ?case unfolding be_val.simps length_Cons power_Suc by linarith
qed simp

lemma be_val_be_bytes: "be_val (be_bytes n v) = v mod 256 ^ n"
proof (induction n)
  case (Suc n)
  have "v mod (256 ^ n * 256) = 256 ^ n * (v div 256 ^ n mod 256) + v mod 256 ^ n"
    by (rule mod_mult2_eq)
  with Suc show ?case by (simp add: unat_of_nat mult.commute)
qed simp

lemma mod_256_Suc: "v mod 256 ^ Suc n = 256 ^ n * (v div 256 ^ n mod 256) + v mod (256 :: nat) ^ n"
  unfolding power_Suc2 by (rule mod_mult2_eq)

lemma be_bytes_cong: "v mod 256 ^ n = w mod 256 ^ n \<Longrightarrow> be_bytes n v = be_bytes n w"
proof (induction n)
  case (Suc n)
  let ?d = "(256 :: nat) ^ n"
  have e: "?d * (v div ?d mod 256) + v mod ?d = ?d * (w div ?d mod 256) + w mod ?d"
    using Suc.prems unfolding mod_256_Suc .
  have "v mod ?d = w mod ?d"
    using arg_cong [OF e, of "\<lambda>x. x mod ?d"] by (simp only: mod_mult_self4 mod_mod_trivial)
  moreover have "v div ?d mod 256 = w div ?d mod 256"
    using e calculation by simp
  ultimately show ?case using Suc.IH by (simp add: word_of_nat_eq_iff take_bit_eq_mod)
qed simp

lemma be_bytes_mod: "be_bytes n (x * 256 ^ n + y) = be_bytes n y"
  by (rule be_bytes_cong) simp

lemma be_val_append: "be_val (xs @ ys) = be_val xs * 256 ^ length ys + be_val ys"
  by (induction xs) (simp_all add: power_add algebra_simps)

lemma be_bytes_be_val: "be_bytes (length bs) (be_val bs) = bs"
proof (induction bs)
  case (Cons b bs)
  have b: "be_val bs < 256 ^ length bs" by (rule be_val_less)
  have "(unat b * 256 ^ length bs + be_val bs) div 256 ^ length bs = unat b"
    using b by simp
  moreover have "be_bytes n (x * 256 ^ n + y) = be_bytes n y" for n x y
    by (rule be_bytes_mod)
  ultimately show ?case using Cons by simp
qed simp

lemma length_put [simp]: "length (put_uint64 w) = 8" "length (put_uint32 i) = 4"
  by (simp_all add: put_uint64_def put_uint32_def)

lemma be_val_put_uint64 [simp]: "be_val (put_uint64 w) = unat w"
  using unat_u64_less [of w] by (simp add: put_uint64_def be_val_be_bytes)

lemma be_val_put_uint32 [simp]: "be_val (put_uint32 w) = unat w"
  using unat_u32_less [of w] by (simp add: put_uint32_def be_val_be_bytes)

lemma uint32_at_put [simp]: "uint32_at (put_uint32 w) = w"
  by (simp add: uint32_at_def)

lemma put_uint64_inject [simp]: "put_uint64 v = put_uint64 w \<longleftrightarrow> v = w"
  by (metis be_val_put_uint64 unsigned_word_eqI)

lemma put_uint32_inject [simp]: "put_uint32 v = put_uint32 w \<longleftrightarrow> v = w"
  by (metis uint32_at_put)

text \<open>On byte strings of one length, the bytewise order is the numeric order.\<close>

lemma be_val_less_iff:
  "length xs = length ys \<Longrightarrow> xs < ys \<longleftrightarrow> be_val xs < be_val ys"
proof (induction xs ys rule: list_induct2)
  case (Cons x xs y ys)
  let ?m = "256 ^ length ys :: nat"
  have vx: "be_val xs < ?m" and vy: "be_val ys < ?m"
    using be_val_less [of xs] be_val_less [of ys] Cons by simp_all
  show ?case
  proof (cases x y rule: linorder_cases)
    case less
    then have "Suc (unat x) \<le> unat y" by (simp add: word_less_nat_alt)
    then have "unat x * ?m + ?m \<le> unat y * ?m"
      by (metis add.commute mult_Suc mult_le_mono1)
    with vx vy less Cons show ?thesis by simp
  next
    case equal
    with Cons show ?thesis by simp
  next
    case greater
    then have "Suc (unat y) \<le> unat x" by (simp add: word_less_nat_alt)
    then have "unat y * ?m + ?m \<le> unat x * ?m"
      by (metis add.commute mult_Suc mult_le_mono1)
    with vx vy greater Cons show ?thesis by auto
  qed
qed simp

lemma put_uint64_less [simp]: "put_uint64 v < put_uint64 w \<longleftrightarrow> v < w"
  by (simp add: be_val_less_iff word_less_nat_alt)

section \<open>Hexadecimal text\<close>

definition hex_digit :: "nat \<Rightarrow> char" where
  "hex_digit n = char_of (if n < 10 then 48 + n else 87 + n)"

definition hex_val :: "char \<Rightarrow> nat option" where
  "hex_val c = (let n = of_char c in
     if 48 \<le> n \<and> n \<le> 57 then Some (n - 48)
     else if 97 \<le> n \<and> n \<le> 102 then Some (n - 87)
     else if 65 \<le> n \<and> n \<le> 70 then Some (n - 55)
     else None)"

definition hex_encode :: "bytes \<Rightarrow> string" where
  "hex_encode bs = concat (map (\<lambda>b. [hex_digit (unat b div 16), hex_digit (unat b mod 16)]) bs)"

text \<open>
  \<open>hex.DecodeString\<close> returns the bytes decoded before the first error, and whether the
  whole input was valid.
\<close>

fun hex_decode :: "string \<Rightarrow> bytes \<times> bool" where
  "hex_decode [] = ([], True)"
| "hex_decode [c] = ([], False)"
| "hex_decode (c # d # s) =
     (case (hex_val c, hex_val d) of
        (Some h, Some l) \<Rightarrow> (let (bs, ok) = hex_decode s in (word_of_nat (16 * h + l) # bs, ok))
      | _ \<Rightarrow> ([], False))"

definition hex_decode_ok :: "string \<Rightarrow> bytes option" where
  "hex_decode_ok s = (if snd (hex_decode s) then Some (fst (hex_decode s)) else None)"

lemma hex_val_digit [simp]: "n < 16 \<Longrightarrow> hex_val (hex_digit n) = Some n"
  by (auto simp: hex_val_def hex_digit_def Let_def)

lemma hex_encode_simps [simp]:
  "hex_encode [] = ''''"
  "hex_encode (b # bs) = hex_digit (unat b div 16) # hex_digit (unat b mod 16) # hex_encode bs"
  by (simp_all add: hex_encode_def)

lemma length_hex_encode [simp]: "length (hex_encode bs) = 2 * length bs"
  by (induction bs) simp_all

lemma hex_decode_encode [simp]: "hex_decode (hex_encode bs) = (bs, True)"
proof (induction bs)
  case (Cons b bs)
  have "unat b div 16 < 16" by (simp add: div_less_iff_less_mult)
  with Cons show ?case by (simp add: Let_def)
qed simp

lemma hex_decode_ok_encode [simp]: "hex_decode_ok (hex_encode bs) = Some bs"
  by (simp add: hex_decode_ok_def)

lemma hex_encode_inject [simp]: "hex_encode xs = hex_encode ys \<longleftrightarrow> xs = ys"
  by (metis hex_decode_encode prod.inject)

lemma hex_digit_not_dot: "n < 16 \<Longrightarrow> hex_digit n \<noteq> CHR ''.''"
  using hex_val_digit [of n] by (auto simp: hex_val_def simp del: hex_val_digit)

lemma hex_encode_chars: "c \<in> set (hex_encode bs) \<Longrightarrow> hex_val c \<noteq> None"
proof (induction bs)
  case (Cons b bs)
  have "unat b div 16 < 16" by (simp add: div_less_iff_less_mult)
  with Cons show ?case by auto
qed simp

lemma hex_encode_no_dot: "CHR ''.'' \<notin> set (hex_encode bs)"
  using hex_encode_chars [of "CHR ''.''" bs] by (auto simp: hex_val_def)

section \<open>Decimal text\<close>

definition dec_digit :: "nat \<Rightarrow> char" where
  "dec_digit n = char_of (48 + n)"

definition dec_val :: "char \<Rightarrow> nat option" where
  "dec_val c = (let n = of_char c in if 48 \<le> n \<and> n \<le> 57 then Some (n - 48) else None)"

text \<open>\<open>strconv.FormatUint(n, 10)\<close> and the \<open>%d\<close> verb.\<close>

fun itoa :: "nat \<Rightarrow> string" where
  "itoa n = (if n < 10 then [dec_digit n] else itoa (n div 10) @ [dec_digit (n mod 10)])"

declare itoa.simps [simp del]

text \<open>\<open>strconv.Itoa\<close> on a Go \<open>int\<close>.\<close>

definition itoa_int :: "int \<Rightarrow> string" where
  "itoa_int i = (if i < 0 then CHR ''-'' # itoa (nat (- i)) else itoa (nat i))"

definition itoa64 :: "u64 \<Rightarrow> string" where
  "itoa64 w = itoa (unat w)"

fun parse_dec :: "nat \<Rightarrow> string \<Rightarrow> nat option" where
  "parse_dec acc [] = Some acc"
| "parse_dec acc (c # s) =
     (case dec_val c of None \<Rightarrow> None | Some d \<Rightarrow> parse_dec (10 * acc + d) s)"

text \<open>\<open>strconv.ParseUint(s, 10, 64)\<close>: a syntax or a range error is \<open>None\<close>.\<close>

definition parse_uint10 :: "string \<Rightarrow> u64 option" where
  "parse_uint10 s =
     (if s = [] then None
      else case parse_dec 0 s of
        None \<Rightarrow> None
      | Some n \<Rightarrow> if n < 2 ^ 64 then Some (word_of_nat n) else None)"

lemma dec_val_digit [simp]: "n < 10 \<Longrightarrow> dec_val (dec_digit n) = Some n"
  by (simp add: dec_val_def dec_digit_def)

lemma parse_dec_append:
  "parse_dec acc (s @ t) = Option.bind (parse_dec acc s) (\<lambda>a. parse_dec a t)"
  by (induction s arbitrary: acc) (auto split: option.splits)

lemma itoa_not_Nil [simp]: "itoa n \<noteq> []"
  by (simp add: itoa.simps [of n])

lemma parse_dec_itoa: "parse_dec 0 (itoa n) = Some n"
proof (induction n rule: itoa.induct)
  case (1 n)
  then show ?case
    by (cases "n < 10") (simp_all add: itoa.simps [of n] parse_dec_append)
qed

lemma itoa_inject [simp]: "itoa m = itoa n \<longleftrightarrow> m = n"
  by (metis option.inject parse_dec_itoa)

lemma parse_uint10_itoa64 [simp]: "parse_uint10 (itoa64 w) = Some w"
  using unsigned_less [of w] by (simp add: parse_uint10_def itoa64_def parse_dec_itoa)

lemma itoa_digits: "c \<in> set (itoa n) \<Longrightarrow> dec_val c \<noteq> None"
proof (induction n rule: itoa.induct)
  case (1 n)
  then show ?case
    by (cases "n < 10") (auto simp: itoa.simps [of n])
qed

section \<open>The strings package\<close>

definition has_prefix :: "string \<Rightarrow> string \<Rightarrow> bool" where
  "has_prefix s p \<longleftrightarrow> take (length p) s = p"

definition trim_prefix :: "string \<Rightarrow> string \<Rightarrow> string" where
  "trim_prefix s p = (if has_prefix s p then drop (length p) s else s)"

fun contains :: "string \<Rightarrow> string \<Rightarrow> bool" where
  "contains [] p \<longleftrightarrow> p = []"
| "contains (c # s) p \<longleftrightarrow> has_prefix (c # s) p \<or> contains s p"

text \<open>\<open>strings.Split\<close> at a single character.\<close>

fun split_on :: "char \<Rightarrow> string \<Rightarrow> string list" where
  "split_on sep [] = [[]]"
| "split_on sep (c # s) =
     (if c = sep then [] # split_on sep s
      else case split_on sep s of [] \<Rightarrow> [[c]] | p # ps \<Rightarrow> (c # p) # ps)"

text \<open>\<open>strings.IndexByte\<close> and \<open>strings.LastIndexByte\<close>: \<open>None\<close> stands for \<open>-1\<close>.\<close>

fun index_byte :: "string \<Rightarrow> char \<Rightarrow> nat option" where
  "index_byte [] c = None"
| "index_byte (x # s) c = (if x = c then Some 0 else map_option Suc (index_byte s c))"

fun last_index_byte :: "string \<Rightarrow> char \<Rightarrow> nat option" where
  "last_index_byte [] c = None"
| "last_index_byte (x # s) c =
     (case last_index_byte s c of
        Some i \<Rightarrow> Some (Suc i)
      | None \<Rightarrow> if x = c then Some 0 else None)"

text \<open>\<open>strings.ToLower\<close> and \<open>strings.ToUpper\<close> on ASCII text.\<close>

definition lower_char :: "char \<Rightarrow> char" where
  "lower_char c = (let n = of_char c :: nat in if 65 \<le> n \<and> n \<le> 90 then char_of (n + 32) else c)"

definition to_lower :: "string \<Rightarrow> string" where
  "to_lower s = map lower_char s"

text \<open>\<open>strings.Trim\<close> and \<open>strings.TrimSpace\<close> with a set of characters.\<close>

definition trim_chars :: "(char \<Rightarrow> bool) \<Rightarrow> string \<Rightarrow> string" where
  "trim_chars p s = rev (dropWhile p (rev (dropWhile p s)))"

lemma contains_self [simp]: "contains s s"
  by (cases s) (simp_all add: has_prefix_def)

lemma contains_append: "contains s p \<Longrightarrow> contains (t @ s) p"
  by (induction t) auto

lemma has_prefix_append [simp]: "has_prefix (p @ s) p"
  by (simp add: has_prefix_def)

lemma has_prefix_append2: "has_prefix s p \<Longrightarrow> has_prefix (s @ t) p"
  unfolding has_prefix_def by (metis append_assoc append_take_drop_id append_eq_conv_conj)

lemma contains_append2: "contains s p \<Longrightarrow> contains (s @ t) p"
proof (induction s)
  case Nil
  then show ?case by (cases t) (simp_all add: has_prefix_def)
next
  case (Cons c s)
  then show ?case using has_prefix_append2 [of "c # s" p t] by auto
qed

lemma split_on_not_Nil [simp]: "split_on sep s \<noteq> []"
  by (cases s) (auto split: list.splits)

lemma split_on_none: "sep \<notin> set s \<Longrightarrow> split_on sep s = [s]"
  by (induction s) auto

lemma split_on_append: "sep \<notin> set s \<Longrightarrow> split_on sep (s @ sep # t) = s # split_on sep t"
  by (induction s) auto

lemma index_byte_Some: "index_byte s c = Some i \<Longrightarrow> i < length s \<and> s ! i = c"
  by (induction s arbitrary: i) (auto split: if_splits)

lemma index_byte_distinct:
  "distinct s \<Longrightarrow> i < length s \<Longrightarrow> index_byte s (s ! i) = Some i"
proof (induction s arbitrary: i)
  case (Cons x s)
  then show ?case by (cases i) (auto simp: in_set_conv_nth)
qed simp

lemma last_index_byte_None: "last_index_byte s c = None \<longleftrightarrow> c \<notin> set s"
  by (induction s) (auto split: option.splits)

lemma last_index_byte_append:
  "c \<notin> set t \<Longrightarrow> last_index_byte (s @ c # t) c = Some (length s)"
  by (induction s) (auto simp: last_index_byte_None [THEN iffD2] split: option.splits)

section \<open>sort.Slice\<close>

text \<open>
  \<open>sort.Slice\<close> puts a slice into some order in which no element is \<open>lt\<close> than an
  earlier one; which order, where \<open>lt\<close> does not separate elements, is unspecified. The
  model sorts by insertion; \<open>sort_slice_unique\<close> says that the choice does not matter when
  \<open>lt\<close> compares distinct keys.
\<close>

fun insert_by :: "('a \<Rightarrow> 'a \<Rightarrow> bool) \<Rightarrow> 'a \<Rightarrow> 'a list \<Rightarrow> 'a list" where
  "insert_by lt x [] = [x]"
| "insert_by lt x (y # ys) = (if lt y x then y # insert_by lt x ys else x # y # ys)"

definition sort_slice :: "('a \<Rightarrow> 'a \<Rightarrow> bool) \<Rightarrow> 'a list \<Rightarrow> 'a list" where
  "sort_slice lt xs = foldr (insert_by lt) xs []"

lemma mset_insert_by: "mset (insert_by lt x ys) = add_mset x (mset ys)"
  by (induction ys) auto

lemma mset_sort_slice [simp]: "mset (sort_slice lt xs) = mset xs"
  by (induction xs) (simp_all add: sort_slice_def mset_insert_by)

lemma set_sort_slice [simp]: "set (sort_slice lt xs) = set xs"
  by (metis mset_sort_slice set_mset_mset)

lemma length_sort_slice [simp]: "length (sort_slice lt xs) = length xs"
  by (metis mset_sort_slice size_mset)

lemma insert_by_key: "insert_by (\<lambda>a b. f a < f b) x ys = insort_key f x ys"
  by (induction ys) auto

lemma sort_slice_key: "sort_slice (\<lambda>a b. f a < f b) xs = sort_key f xs"
  unfolding sort_slice_def by (induction xs) (simp_all add: insert_by_key)

lemma sort_slice_unique:
  assumes lt: "\<And>a b. lt a b \<longleftrightarrow> f a < (f b :: 'k :: linorder)"
    and "mset ys = mset xs" "sorted (map f ys)" "inj_on f (set xs)"
  shows "ys = sort_slice lt xs"
proof -
  have "lt = (\<lambda>a b. f a < f b)" using lt by blast
  then have "sort_slice lt xs = sort_key f xs" by (simp add: sort_slice_key)
  with assms show ?thesis using sort_key_inj_key_eq [of xs ys f] by simp
qed

lemma sorted_sort_slice:
  assumes "\<And>a b. lt a b \<longleftrightarrow> f a < (f b :: 'k :: linorder)"
  shows "sorted (map f (sort_slice lt xs))"
proof -
  have "lt = (\<lambda>a b. f a < f b)" using assms by blast
  then show ?thesis by (simp add: sort_slice_key)
qed

section \<open>Errors of hex.DecodeString\<close>

definition upper_hex :: "nat \<Rightarrow> char" where
  "upper_hex n = char_of (if n < 10 then 48 + n else 55 + n)"

text \<open>\<open>InvalidByteError\<close>, with the \<open>%#U\<close> verb on a byte.\<close>

definition hex_invalid_byte :: "char \<Rightarrow> goerror" where
  "hex_invalid_byte c = (let n = (of_char c :: nat) in
     ErrMsg (''encoding/hex: invalid byte: U+00'' @ [upper_hex (n div 16), upper_hex (n mod 16)] @
       (if 32 \<le> n \<and> n < 127 then '' '' @ [CHR 0x27, c, CHR 0x27]
        else if 161 \<le> n \<and> n \<noteq> 173
        then '' '' @ [CHR 0x27, char_of (0xC0 + n div 64), char_of (0x80 + n mod 64), CHR 0x27]
        else [])))"

fun hex_DecodeString :: "string \<Rightarrow> bytes result" where
  "hex_DecodeString [] = Inr []"
| "hex_DecodeString [c] =
     Inl (if hex_val c = None then hex_invalid_byte c else ErrMsg ''encoding/hex: odd length hex string'')"
| "hex_DecodeString (c # d # s) =
     (case hex_val c of
        None \<Rightarrow> Inl (hex_invalid_byte c)
      | Some h \<Rightarrow> (case hex_val d of
          None \<Rightarrow> Inl (hex_invalid_byte d)
        | Some l \<Rightarrow> rbind (hex_DecodeString s) (\<lambda>bs. Inr (word_of_nat (16 * h + l) # bs))))"

lemma hex_DecodeString_encode [simp]: "hex_DecodeString (hex_encode bs) = Inr bs"
proof (induction bs)
  case (Cons b bs)
  have "unat b div 16 < 16" by (simp add: div_less_iff_less_mult)
  with Cons show ?case by simp
qed simp

lemma hex_DecodeString_invalid: "c \<in> set s \<Longrightarrow> hex_val c = None \<Longrightarrow> \<exists>e. hex_DecodeString s = Inl e"
proof (induction s rule: hex_DecodeString.induct)
  case (3 a b s)
  then show ?case by (cases "hex_val a"; cases "hex_val b"; cases "hex_DecodeString s") auto
qed auto

lemma hex_DecodeString_length: "hex_DecodeString s = Inr bs \<Longrightarrow> length s = 2 * length bs"
  by (induction s arbitrary: bs rule: hex_DecodeString.induct) (auto simp: rbind_eq_Inr split: option.splits)

section \<open>strconv.ParseUint with errors\<close>

definition parse_error :: "string \<Rightarrow> string \<Rightarrow> goerror" where
  "parse_error s why = ErrMsg (''strconv.ParseUint: parsing '' @ [CHR 0x22] @ s @ [CHR 0x22] @ '': '' @ why)"

definition ParseUint10 :: "string \<Rightarrow> u64 result" where
  "ParseUint10 s =
     (case parse_uint10 s of
        Some w \<Rightarrow> Inr w
      | None \<Rightarrow> Inl (parse_error s
          (if s = [] \<or> parse_dec 0 s = None then ''invalid syntax'' else ''value out of range'')))"

text \<open>
  Base 0: the prefixes \<open>0b\<close>, \<open>0o\<close>, \<open>0x\<close> and \<open>0\<close> choose the base, and underscores may stand
  between digits.
\<close>

definition digit_val :: "char \<Rightarrow> nat option" where
  "digit_val c = (let n = of_char (lower_char c) :: nat in
     if 48 \<le> n \<and> n \<le> 57 then Some (n - 48) else if 97 \<le> n \<and> n \<le> 122 then Some (n - 87) else None)"

text \<open>The first character that is no digit of the base is a syntax error; an overflow before it a range error.\<close>

fun parse_base :: "nat \<Rightarrow> nat \<Rightarrow> string \<Rightarrow> string + nat" where
  "parse_base base acc [] = Inr acc"
| "parse_base base acc (c # s) =
     (if c = CHR ''_'' then parse_base base acc s
      else case digit_val c of
        None \<Rightarrow> Inl ''invalid syntax''
      | Some d \<Rightarrow> if d \<ge> base then Inl ''invalid syntax''
          else if base * acc + d \<ge> 2 ^ 64 then Inl ''value out of range''
          else parse_base base (base * acc + d) s)"

text \<open>The state of \<open>underscoreOK\<close>: the kind of the last character seen (\<open>CHR ''^''\<close> at the start).\<close>

fun underscore_loop :: "bool \<Rightarrow> char \<Rightarrow> string \<Rightarrow> bool" where
  "underscore_loop hex i [] = (i \<noteq> CHR ''_'')"
| "underscore_loop hex i (c # s) =
     (if dec_val c \<noteq> None \<or> hex \<and> hex_val c \<noteq> None then underscore_loop hex (CHR ''0'') s
      else if c = CHR ''_'' then i = CHR ''0'' \<and> underscore_loop hex (CHR ''_'') s
      else i \<noteq> CHR ''_'' \<and> underscore_loop hex (CHR ''!'') s)"

definition ParseUint0 :: "string \<Rightarrow> u64 result" where
  "ParseUint0 s0 =
     (if s0 = [] then Inl (parse_error s0 ''invalid syntax'')
      else
        let p = (if length s0 \<ge> 3 \<and> s0 ! 0 = CHR ''0'' then lower_char (s0 ! 1) else CHR ''-'');
            (base, s) = (if s0 ! 0 \<noteq> CHR ''0'' then (10, s0)
              else if p = CHR ''b'' then (2, drop 2 s0) else if p = CHR ''o'' then (8, drop 2 s0)
              else if p = CHR ''x'' then (16, drop 2 s0) else (8, drop 1 s0));
            p2 = (if length s0 \<ge> 2 \<and> s0 ! 0 = CHR ''0'' then lower_char (s0 ! 1) else CHR ''-'');
            underscoreOK = (if p2 \<in> {CHR ''b'', CHR ''o'', CHR ''x''}
              then underscore_loop (p2 = CHR ''x'') (CHR ''0'') (drop 2 s0)
              else underscore_loop False (CHR ''^'') s0)
        in case parse_base base 0 s of
          Inl why \<Rightarrow> Inl (parse_error s0 why)
        | Inr n \<Rightarrow> if CHR ''_'' \<in> set s \<and> \<not> underscoreOK then Inl (parse_error s0 ''invalid syntax'')
            else Inr (word_of_nat n))"

end
