(* ===== verification/Circular_Queue.thy ===== *)
theory Circular_Queue
  imports Go_Lib
begin

text \<open>
  The generic ring buffer of \<open>common/circular_queue.go\<close>: a record with the source's
  four fields, one definition per method, the well-formedness invariant every method
  keeps, the bounded FIFO list it implements, and the interface \<open>bounded_queue\<close> the
  block indexer relies on. The zero value of the element type (\<open>var def T\<close>) is the
  argument \<open>def\<close>. Go \<open>int\<close> fields are \<open>int\<close>: none of them exceeds the length
  of a slice.
\<close>

section \<open>State and methods\<close>

record 'a CircularQueue =
  cq_items :: "'a list"
  cq_count :: int
  cq_size :: int
  cq_pos :: int

text \<open>\<open>make([]T, cq_size)\<close> panics for a negative cq_size.\<close>

definition NewCircularQueue :: "'a \<Rightarrow> int \<Rightarrow> 'a CircularQueue option" where
  "NewCircularQueue def n =
     (if n < 0 then None
      else Some \<lparr>cq_items = replicate (nat n) def, cq_count = 0, cq_size = n, cq_pos = 0\<rparr>)"

text \<open>The cq_slot \<open>(cq.cq_pos + i) % cq.cq_size\<close>; \<open>%\<close> by zero panics.\<close>

definition cq_slot :: "'a CircularQueue \<Rightarrow> int \<Rightarrow> int option" where
  "cq_slot q i = (if cq_size q = 0 then None else Some (go_rem (cq_pos q + i) (cq_size q)))"

definition Push :: "'a CircularQueue \<Rightarrow> 'a \<Rightarrow> ('a CircularQueue \<times> goerror option) option" where
  "Push q item =
     (if cq_count q = cq_size q
      then Some (q, Some (ErrMsg (''queue is already populated with '' @ itoa_int (cq_count q) @ '' items'')))
      else Option.bind (cq_slot q (cq_count q)) (\<lambda>p.
           Option.bind (go_upd (cq_items q) p item) (\<lambda>xs.
           Some (q\<lparr>cq_items := xs, cq_count := cq_count q + 1\<rparr>, None))))"

definition Pop :: "'a \<Rightarrow> 'a CircularQueue \<Rightarrow> ('a CircularQueue \<times> 'a) option" where
  "Pop def q =
     (if cq_count q = 0 then Some (q, def)
      else Option.bind (go_nth (cq_items q) (cq_pos q)) (\<lambda>res.
           Option.bind (go_upd (cq_items q) (cq_pos q) def) (\<lambda>xs.
           Option.bind (cq_slot q 1) (\<lambda>p.
           Some (q\<lparr>cq_items := xs, cq_pos := p, cq_count := cq_count q - 1\<rparr>, res)))))"

definition Peek :: "'a \<Rightarrow> 'a CircularQueue \<Rightarrow> 'a option" where
  "Peek def q = (if cq_count q = 0 then Some def else go_nth (cq_items q) (cq_pos q))"

definition Len :: "'a CircularQueue \<Rightarrow> int" where
  "Len q = cq_count q"

definition IsFull :: "'a CircularQueue \<Rightarrow> bool" where
  "IsFull q \<longleftrightarrow> cq_count q = cq_size q"

definition SetCount :: "'a CircularQueue \<Rightarrow> int \<Rightarrow> 'a CircularQueue" where
  "SetCount q n = q\<lparr>cq_count := min n (cq_size q)\<rparr>"

text \<open>The loop of \<open>ClearFrom\<close> over the indices \<open>max(0, from) .. oldLen - 1\<close>.\<close>

fun clear_loop :: "'a \<Rightarrow> 'a CircularQueue \<Rightarrow> int list \<Rightarrow> 'a CircularQueue option" where
  "clear_loop def q [] = Some q"
| "clear_loop def q (i # is) =
     Option.bind (cq_slot q i) (\<lambda>p.
     Option.bind (go_upd (cq_items q) p def) (\<lambda>xs.
     clear_loop def (q\<lparr>cq_items := xs, cq_count := cq_count q - 1\<rparr>) is))"

definition ClearFrom :: "'a \<Rightarrow> 'a CircularQueue \<Rightarrow> int \<Rightarrow> 'a CircularQueue option" where
  "ClearFrom def q from = clear_loop def q [max 0 from..cq_count q - 1]"

fun find_loop :: "('a \<Rightarrow> bool) \<Rightarrow> 'a CircularQueue \<Rightarrow> int list \<Rightarrow> int option" where
  "find_loop p q [] = Some (-1)"
| "find_loop p q (i # is) =
     Option.bind (cq_slot q i) (\<lambda>k.
     Option.bind (go_nth (cq_items q) k) (\<lambda>x.
     if p x then Some i else find_loop p q is))"

definition Find :: "('a \<Rightarrow> bool) \<Rightarrow> 'a CircularQueue \<Rightarrow> int option" where
  "Find p q = find_loop p q [0..cq_count q - 1]"

text \<open>\<open>make([]T, cq.count)\<close> panics for a negative count.\<close>

definition ToList :: "'a CircularQueue \<Rightarrow> 'a list option" where
  "ToList q =
     (if cq_count q < 0 then None
      else those (map (\<lambda>i. Option.bind (cq_slot q i) (go_nth (cq_items q))) [0..cq_count q - 1]))"

section \<open>Invariant and abstraction\<close>

definition cq_inv :: "'a CircularQueue \<Rightarrow> bool" where
  "cq_inv q \<longleftrightarrow> 0 \<le> cq_count q \<and> cq_count q \<le> cq_size q \<and> int (length (cq_items q)) = cq_size q \<and>
     0 \<le> cq_pos q \<and> (if cq_size q = 0 then cq_pos q = 0 else cq_pos q < cq_size q)"

text \<open>The elements in the order \<open>Pop\<close> returns them.\<close>

definition cq_contents :: "'a CircularQueue \<Rightarrow> 'a list" where
  "cq_contents q =
     map (\<lambda>i. cq_items q ! nat ((cq_pos q + int i) mod cq_size q)) [0..<nat (cq_count q)]"

lemma length_cq_contents [simp]: "length (cq_contents q) = nat (cq_count q)"
  by (simp add: cq_contents_def)

lemma nth_cq_contents:
  "i < nat (cq_count q) \<Longrightarrow> cq_contents q ! i = cq_items q ! nat ((cq_pos q + int i) mod cq_size q)"
  by (simp add: cq_contents_def)

lemma mod_shift_neq:
  fixes p i j s :: int
  assumes "0 \<le> i" "i < j" "j < s + i"
  shows "(p + i) mod s \<noteq> (p + j) mod s"
proof
  assume "(p + i) mod s = (p + j) mod s"
  then have "s dvd (p + j) - (p + i)" by (metis mod_eq_dvd_iff)
  then have "s dvd j - i" by simp
  with assms(2) have "s \<le> j - i" by (intro zdvd_imp_le) auto
  with assms(3) show False by simp
qed

lemma slot_inv: "cq_inv q \<Longrightarrow> 0 < cq_size q \<Longrightarrow> 0 \<le> i \<Longrightarrow> cq_slot q i = Some ((cq_pos q + i) mod cq_size q)"
  by (simp add: cq_slot_def cq_inv_def)

lemma go_nth_slot:
  "cq_inv q \<Longrightarrow> 0 < cq_size q \<Longrightarrow>
   go_nth (cq_items q) ((cq_pos q + i) mod cq_size q) = Some (cq_items q ! nat ((cq_pos q + i) mod cq_size q))"
  by (rule go_nth_Some) (auto simp: cq_inv_def)

lemma go_upd_slot:
  "cq_inv q \<Longrightarrow> 0 < cq_size q \<Longrightarrow>
   go_upd (cq_items q) ((cq_pos q + i) mod cq_size q) x =
     Some ((cq_items q)[nat ((cq_pos q + i) mod cq_size q) := x])"
  by (rule go_upd_Some) (auto simp: cq_inv_def)

lemma nat_slot_less: "cq_inv q \<Longrightarrow> 0 < cq_size q \<Longrightarrow> nat ((cq_pos q + i) mod cq_size q) < length (cq_items q)"
  by (auto simp: cq_inv_def nat_less_iff)

lemma nat_slot_neq:
  assumes "0 < cq_size q" "0 \<le> i" "i < j" "j < cq_size q + i"
  shows "nat ((cq_pos q + i) mod cq_size q) \<noteq> nat ((cq_pos q + j) mod cq_size q)"
  using mod_shift_neq [OF assms(2-4), of "cq_pos q"] assms(1) by (auto simp: nat_eq_iff2)

lemma pos_slot: "cq_inv q \<Longrightarrow> 0 < cq_size q \<Longrightarrow> cq_pos q = (cq_pos q + 0) mod cq_size q"
  by (simp add: cq_inv_def)

section \<open>Behaviour of the methods\<close>

lemma new_inv:
  "0 \<le> n \<Longrightarrow> \<exists>q. NewCircularQueue def n = Some q \<and> cq_inv q \<and> cq_contents q = [] \<and> cq_size q = n"
  by (simp add: NewCircularQueue_def cq_inv_def cq_contents_def)

lemma push_ok:
  assumes inv: "cq_inv q" and room: "cq_count q < cq_size q"
  obtains q' where "Push q x = Some (q', None)" "cq_inv q'"
    "cq_contents q' = cq_contents q @ [x]" "cq_size q' = cq_size q"
proof -
  define k where "k = nat ((cq_pos q + cq_count q) mod cq_size q)"
  define q' where "q' = q\<lparr>cq_items := (cq_items q)[k := x], cq_count := cq_count q + 1\<rparr>"
  have s: "0 < cq_size q" and c: "0 \<le> cq_count q" using inv room by (auto simp: cq_inv_def)
  have "Push q x = Some (q', None)"
    using inv room s c by (simp add: Push_def slot_inv go_upd_slot k_def q'_def)
  moreover have "cq_inv q'" using inv room by (simp add: cq_inv_def q'_def)
  moreover have "cq_contents q' = cq_contents q @ [x]"
  proof (rule nth_equalityI)
    show "length (cq_contents q') = length (cq_contents q @ [x])"
      using c by (simp add: q'_def nat_add_distrib)
    fix i assume "i < length (cq_contents q')"
    then have i: "i < nat (cq_count q + 1)" by (simp add: q'_def)
    show "cq_contents q' ! i = (cq_contents q @ [x]) ! i"
    proof (cases "i = nat (cq_count q)")
      case True
      then show ?thesis using i c nat_slot_less [OF inv s, of "cq_count q"]
        by (simp add: nth_cq_contents q'_def nth_append k_def)
    next
      case False
      with i have "i < nat (cq_count q)" by simp
      moreover from this have "nat ((cq_pos q + int i) mod cq_size q) \<noteq> k"
        unfolding k_def using s c room by (intro nat_slot_neq) auto
      ultimately show ?thesis using i by (simp add: nth_cq_contents q'_def nth_append)
    qed
  qed
  ultimately show thesis using that by (simp add: q'_def)
qed

lemma push_full:
  "cq_count q = cq_size q \<Longrightarrow> Push q x = Some (q, Some (ErrMsg (''queue is already populated with '' @ itoa_int (cq_count q) @ '' items'')))"
  by (simp add: Push_def)

lemma pop_ok:
  assumes inv: "cq_inv q" and ne: "cq_contents q \<noteq> []"
  obtains q' where "Pop def q = Some (q', hd (cq_contents q))" "cq_inv q'"
    "cq_contents q' = tl (cq_contents q)" "cq_size q' = cq_size q"
proof -
  define q' where "q' = q\<lparr>cq_items := (cq_items q)[nat (cq_pos q) := def],
                          cq_pos := (cq_pos q + 1) mod cq_size q, cq_count := cq_count q - 1\<rparr>"
  have c: "0 < cq_count q" using ne length_cq_contents [of q] by (metis length_0_conv nat_0_iff not_le)
  then have s: "0 < cq_size q" using inv by (auto simp: cq_inv_def)
  have p: "0 \<le> cq_pos q" "cq_pos q < int (length (cq_items q))" using inv s by (auto simp: cq_inv_def)
  have "hd (cq_contents q) = cq_items q ! nat (cq_pos q)"
    using c ne inv s by (simp add: hd_conv_nth nth_cq_contents cq_inv_def)
  then have "Pop def q = Some (q', hd (cq_contents q))"
    using c p inv s by (simp add: Pop_def slot_inv q'_def)
  moreover have "cq_inv q'" using inv c s by (simp add: cq_inv_def q'_def)
  moreover have "cq_contents q' = tl (cq_contents q)"
  proof (rule nth_equalityI)
    show len: "length (cq_contents q') = length (tl (cq_contents q))"
      using c by (simp add: q'_def nat_diff_distrib)
    fix i assume i: "i < length (cq_contents q')"
    then have i': "i < nat (cq_count q - 1)" by (simp add: q'_def)
    have ic: "1 + int i < cq_count q" using i' c by linarith
    have "nat ((cq_pos q + 0) mod cq_size q) \<noteq> nat ((cq_pos q + (1 + int i)) mod cq_size q)"
      using s inv ic by (intro nat_slot_neq) (auto simp: cq_inv_def)
    then have ne': "nat ((cq_pos q + (1 + int i)) mod cq_size q) \<noteq> nat (cq_pos q)"
      using pos_slot [OF inv s] by metis
    have "cq_contents q' ! i = cq_items q' ! nat ((cq_pos q' + int i) mod cq_size q')"
      using i' by (intro nth_cq_contents) (simp add: q'_def)
    also have "\<dots> = cq_items q ! nat ((cq_pos q + (1 + int i)) mod cq_size q)"
      using ne' by (simp add: q'_def mod_add_left_eq add.assoc)
    also have "\<dots> = cq_contents q ! Suc i"
      using i' by (simp add: nth_cq_contents)
    finally show "cq_contents q' ! i = tl (cq_contents q) ! i"
      using i len by (simp add: nth_tl)
  qed
  ultimately show thesis using that by (simp add: q'_def)
qed

lemma pop_empty: "cq_contents q = [] \<Longrightarrow> cq_inv q \<Longrightarrow> Pop def q = Some (q, def)"
  by (simp add: Pop_def cq_contents_def cq_inv_def)

lemma peek_ok: "cq_inv q \<Longrightarrow> cq_contents q \<noteq> [] \<Longrightarrow> Peek def q = Some (hd (cq_contents q))"
proof -
  assume inv: "cq_inv q" and ne: "cq_contents q \<noteq> []"
  have c: "0 < cq_count q" using ne length_cq_contents [of q] by (metis length_0_conv nat_0_iff not_le)
  with inv have "0 < cq_size q" by (auto simp: cq_inv_def)
  with c inv ne show "Peek def q = Some (hd (cq_contents q))"
    by (simp add: Peek_def hd_conv_nth nth_cq_contents cq_inv_def)
qed

lemma peek_empty: "cq_inv q \<Longrightarrow> cq_contents q = [] \<Longrightarrow> Peek def q = Some def"
  by (simp add: Peek_def cq_contents_def cq_inv_def)

lemma set_count_ok:
  assumes "cq_inv q" "0 \<le> n" "n \<le> cq_count q"
  shows "cq_inv (SetCount q n)" "cq_contents (SetCount q n) = take (nat n) (cq_contents q)"
    "cq_size (SetCount q n) = cq_size q"
  using assms by (auto simp: SetCount_def cq_inv_def cq_contents_def take_map min_def)


text \<open>\<open>Find\<close> returns the index of the first matching element, or \<open>-1\<close>.\<close>

definition find_index :: "('a \<Rightarrow> bool) \<Rightarrow> 'a list \<Rightarrow> int" where
  "find_index p xs = (if \<exists>x \<in> set xs. p x then int (length (takeWhile (\<lambda>x. \<not> p x) xs)) else -1)"

lemma find_index_simps [simp]:
  "find_index p [] = -1"
  "find_index p (x # xs) =
     (if p x then 0 else if find_index p xs = -1 then -1 else find_index p xs + 1)"
  by (auto simp: find_index_def)

lemma find_index_none: "find_index p xs = -1 \<longleftrightarrow> (\<forall>x \<in> set xs. \<not> p x)"
  by (auto simp: find_index_def)

lemma find_index_bounds: "find_index p xs \<noteq> -1 \<Longrightarrow> 0 \<le> find_index p xs \<and> find_index p xs < int (length xs)"
  by (induction xs) (auto split: if_splits)

lemma find_index_nth: "find_index p xs \<noteq> -1 \<Longrightarrow> p (xs ! nat (find_index p xs))"
  using find_index_bounds [of p xs] nth_length_takeWhile [of "\<lambda>x. \<not> p x" xs]
  by (auto simp: find_index_def split: if_splits)

lemma find_loop_ok:
  assumes inv: "cq_inv q" and s: "0 < cq_size q" and k: "k \<le> nat (cq_count q)"
  shows "find_loop p q [int k..cq_count q - 1] =
    Some (let r = find_index p (drop k (cq_contents q)) in if r = -1 then -1 else r + int k)"
  using k
proof (induction k rule: inc_induct)
  case base
  then show ?case by simp
next
  case (step k)
  have lt: "int k \<le> cq_count q - 1" using step.hyps by linarith
  have dr: "drop k (cq_contents q) = cq_contents q ! k # drop (Suc k) (cq_contents q)"
    using step.hyps by (simp add: Cons_nth_drop_Suc)
  have "find_loop p q [int k..cq_count q - 1] =
      (if p (cq_contents q ! k) then Some (int k)
       else find_loop p q [int (Suc k)..cq_count q - 1])"
    using lt inv s step.hyps
    by (simp add: upto_rec1 slot_inv go_nth_slot add.commute nth_cq_contents)
  then show ?case using step.IH find_index_bounds [of p "drop (Suc k) (cq_contents q)"]
    by (auto simp: dr Let_def)
qed

lemma find_ok: "cq_inv q \<Longrightarrow> Find p q = Some (find_index p (cq_contents q))"
proof (cases "cq_count q = 0")
  case True
  then show ?thesis by (simp add: Find_def cq_contents_def)
next
  case False
  assume inv: "cq_inv q"
  with False have "0 < cq_size q" by (auto simp: cq_inv_def)
  from find_loop_ok [OF inv this, of 0 p] show ?thesis by (simp add: Find_def Let_def)
qed

lemma those_Some: "those (map (\<lambda>i. Some (f i)) xs) = Some (map f xs)"
  by (induction xs) auto

lemma upto_of_nat: "[0..int n - 1] = map int [0..<n]"
  by (induction n) (simp_all add: upto_rec2)

lemma to_list_ok: "cq_inv q \<Longrightarrow> ToList q = Some (cq_contents q)"
proof (cases "cq_count q = 0")
  case True
  then show ?thesis by (simp add: ToList_def cq_contents_def)
next
  case False
  assume inv: "cq_inv q"
  with False have s: "0 < cq_size q" and c: "0 < cq_count q" by (auto simp: cq_inv_def)
  have "map (\<lambda>i. Option.bind (cq_slot q i) (go_nth (cq_items q))) [0..cq_count q - 1] =
        map (\<lambda>i. Some (cq_items q ! nat ((cq_pos q + i) mod cq_size q))) [0..cq_count q - 1]"
    using inv s by (intro map_cong refl) (auto simp: slot_inv go_nth_slot)
  then have "ToList q = Some (map (\<lambda>i. cq_items q ! nat ((cq_pos q + i) mod cq_size q)) [0..cq_count q - 1])"
    using c unfolding ToList_def by (simp only: those_Some) simp
  moreover have "[0..cq_count q - 1] = map int [0..<nat (cq_count q)]"
    using c upto_of_nat [of "nat (cq_count q)"] by simp
  ultimately show ?thesis by (simp add: cq_contents_def o_def)
qed

lemma clear_loop_ok:
  assumes "cq_inv q" "0 < cq_size q" "k \<le> m" "int m \<le> cq_size q"
    "int m - int k \<le> cq_count q"
  shows "\<exists>xs. clear_loop def q [int k..int m - 1] =
      Some (q\<lparr>cq_items := xs, cq_count := cq_count q - (int m - int k)\<rparr>) \<and>
    length xs = length (cq_items q) \<and>
    (\<forall>i<nat (cq_size q). xs ! nat ((cq_pos q + int i) mod cq_size q) =
       (if k \<le> i \<and> i < m then def else cq_items q ! nat ((cq_pos q + int i) mod cq_size q)))"
  using assms(3,1,2,5,4)
proof (induction k arbitrary: q rule: inc_induct)
  case base
  then show ?case by (intro exI [of _ "cq_items q"]) auto
next
  case (step k q)
  let ?p = "\<lambda>i. nat ((cq_pos q + int i) mod cq_size q)"
  let ?q = "q\<lparr>cq_items := (cq_items q)[?p k := def], cq_count := cq_count q - 1\<rparr>"
  have q': "cq_inv ?q" "0 < cq_size ?q" "int m - int (Suc k) \<le> cq_count ?q" "int m \<le> cq_size ?q"
    using step.prems step.hyps by (auto simp: cq_inv_def)
  have unf: "clear_loop def q [int k..int m - 1] = clear_loop def ?q [int (Suc k)..int m - 1]"
    using step by (simp add: upto_rec1 slot_inv go_upd_slot add.commute)
  obtain xs where xs: "clear_loop def ?q [int (Suc k)..int m - 1] =
      Some (?q\<lparr>cq_items := xs, cq_count := cq_count ?q - (int m - int (Suc k))\<rparr>)"
    "length xs = length (cq_items ?q)"
    "\<forall>i<nat (cq_size ?q). xs ! nat ((cq_pos ?q + int i) mod cq_size ?q) =
       (if Suc k \<le> i \<and> i < m then def
        else cq_items ?q ! nat ((cq_pos ?q + int i) mod cq_size ?q))"
    using step.IH [OF q'] by blast
  have upd: "cq_items ?q ! ?p i = (if i = k then def else cq_items q ! ?p i)"
    if "i < nat (cq_size q)" for i
  proof (cases "i = k")
    case True
    then show ?thesis using nat_slot_less [OF step.prems(1,2), of "int k"] by simp
  next
    case False
    have km: "int k < cq_size q" using step.hyps step.prems(4) by linarith
    have "?p i \<noteq> ?p k"
    proof (cases "i < k")
      case True
      then show ?thesis using km step.prems(2) by (intro nat_slot_neq) auto
    next
      case F: False
      have "?p k \<noteq> ?p i" using F False that step.prems(2) by (intro nat_slot_neq) auto
      then show ?thesis by simp
    qed
    then show ?thesis using False by simp
  qed
  have nth: "\<forall>i<nat (cq_size q). xs ! ?p i = (if k \<le> i \<and> i < m then def else cq_items q ! ?p i)"
  proof (intro allI impI)
    fix i assume i: "i < nat (cq_size q)"
    with xs(3) have "xs ! ?p i = (if Suc k \<le> i \<and> i < m then def else cq_items ?q ! ?p i)" by simp
    with upd [OF i] step.hyps show "xs ! ?p i = (if k \<le> i \<and> i < m then def else cq_items q ! ?p i)"
      by (cases "i = k") auto
  qed
  have "clear_loop def q [int k..int m - 1] =
      Some (q\<lparr>cq_items := xs, cq_count := cq_count q - (int m - int k)\<rparr>)"
    using xs(1) unf by (simp add: algebra_simps)
  moreover have "length xs = length (cq_items q)" using xs(2) by simp
  ultimately show ?case using nth by blast
qed

lemma clear_from_ok:
  assumes inv: "cq_inv q" and f: "from \<le> cq_count q"
  shows "\<exists>q'. ClearFrom def q from = Some q' \<and> cq_inv q' \<and> cq_size q' = cq_size q \<and>
    cq_contents q' = take (nat from) (cq_contents q)"
proof (cases "cq_size q = 0")
  case True
  then have "cq_count q = 0" using inv by (auto simp: cq_inv_def)
  then show ?thesis using inv by (auto simp: ClearFrom_def cq_contents_def)
next
  case False
  then have s: "0 < cq_size q" and c: "0 \<le> cq_count q" "cq_count q \<le> cq_size q"
    using inv by (auto simp: cq_inv_def)
  define k where "k = nat (max 0 from)"
  define m where "m = nat (cq_count q)"
  have km: "k \<le> m" "int m \<le> cq_size q" "int m - int k \<le> cq_count q"
    using f c by (auto simp: k_def m_def)
  obtain xs where xs: "clear_loop def q [int k..int m - 1] =
      Some (q\<lparr>cq_items := xs, cq_count := cq_count q - (int m - int k)\<rparr>)"
    and len: "length xs = length (cq_items q)"
    and nth: "\<forall>i<nat (cq_size q). xs ! nat ((cq_pos q + int i) mod cq_size q) =
       (if k \<le> i \<and> i < m then def else cq_items q ! nat ((cq_pos q + int i) mod cq_size q))"
    using clear_loop_ok [OF inv s km(1,2,3)] by blast
  let ?q = "q\<lparr>cq_items := xs, cq_count := cq_count q - (int m - int k)\<rparr>"
  have cnt: "cq_count ?q = int k" using c by (simp add: m_def)
  have "ClearFrom def q from = Some ?q"
    using xs c by (simp add: ClearFrom_def k_def m_def)
  moreover have "cq_inv ?q" using inv len km by (auto simp: cq_inv_def m_def)
  moreover have "cq_contents ?q = take (nat from) (cq_contents q)"
  proof -
    have "nat from = k" by (simp add: k_def)
    moreover have "cq_contents ?q ! i = cq_contents q ! i" if "i < k" for i
      using nth that km cnt c by (simp add: nth_cq_contents m_def)
    ultimately show ?thesis
      using km cnt by (intro nth_equalityI) (auto simp: m_def)
  qed
  ultimately show ?thesis by auto
qed

section \<open>The interface the block indexer relies on\<close>

text \<open>
  A bounded FIFO queue: the calls of the block indexer, and what they promise about the
  list of queued elements. \<open>def\<close> is the zero value returned by an empty queue.
\<close>

locale bounded_queue =
  fixes push :: "'q \<Rightarrow> 'a \<Rightarrow> ('q \<times> goerror option) option"
    and pop :: "'q \<Rightarrow> ('q \<times> 'a) option"
    and peek :: "'q \<Rightarrow> 'a option"
    and full :: "'q \<Rightarrow> bool"
    and set_count :: "'q \<Rightarrow> int \<Rightarrow> 'q"
    and find :: "('a \<Rightarrow> bool) \<Rightarrow> 'q \<Rightarrow> int option"
    and elems :: "'q \<Rightarrow> 'a list"
    and capacity :: "'q \<Rightarrow> nat"
    and inv :: "'q \<Rightarrow> bool"
    and def :: 'a
  assumes full_iff: "inv q \<Longrightarrow> full q \<longleftrightarrow> length (elems q) = capacity q"
    and len_le: "inv q \<Longrightarrow> length (elems q) \<le> capacity q"
    and push_room: "inv q \<Longrightarrow> \<not> full q \<Longrightarrow>
      \<exists>q'. push q x = Some (q', None) \<and> inv q' \<and> elems q' = elems q @ [x] \<and> capacity q' = capacity q"
    and push_no_room: "inv q \<Longrightarrow> full q \<Longrightarrow> \<exists>e. push q x = Some (q, Some e)"
    and pop_some: "inv q \<Longrightarrow> elems q \<noteq> [] \<Longrightarrow>
      \<exists>q'. pop q = Some (q', hd (elems q)) \<and> inv q' \<and> elems q' = tl (elems q) \<and> capacity q' = capacity q"
    and pop_none: "inv q \<Longrightarrow> elems q = [] \<Longrightarrow> pop q = Some (q, def)"
    and peek_some: "inv q \<Longrightarrow> elems q \<noteq> [] \<Longrightarrow> peek q = Some (hd (elems q))"
    and peek_none: "inv q \<Longrightarrow> elems q = [] \<Longrightarrow> peek q = Some def"
    and set_count_le: "inv q \<Longrightarrow> n \<le> length (elems q) \<Longrightarrow>
      inv (set_count q (int n)) \<and> elems (set_count q (int n)) = take n (elems q) \<and>
      capacity (set_count q (int n)) = capacity q"
    and find_first: "inv q \<Longrightarrow> find p q = Some (find_index p (elems q))"
begin

text \<open>On a full queue, pop then push moves the window on by one element.\<close>

lemma slide:
  assumes "inv q" "full q" "0 < capacity q"
  shows "\<exists>q1 q2. pop q = Some (q1, hd (elems q)) \<and> push q1 x = Some (q2, None) \<and> inv q2 \<and>
    elems q2 = tl (elems q) @ [x] \<and> capacity q2 = capacity q"
proof -
  have len: "length (elems q) = capacity q" using assms full_iff by simp
  then have "elems q \<noteq> []" using assms(3) by auto
  then obtain q1 where q1: "pop q = Some (q1, hd (elems q))" "inv q1"
      "elems q1 = tl (elems q)" "capacity q1 = capacity q"
    using pop_some assms(1) by blast
  have "\<not> full q1" using q1 len assms(3) full_iff by simp
  with q1 push_room [of q1 x] show ?thesis by auto
qed

text \<open>Truncating at a found element keeps everything up to it.\<close>

lemma truncate_found:
  assumes "inv q" "find p q = Some i" "i \<noteq> -1"
  shows "inv (set_count q (i + 1))"
    "elems (set_count q (i + 1)) = take (Suc (nat i)) (elems q)"
    "capacity (set_count q (i + 1)) = capacity q"
    "nat i < length (elems q)" "p (elems q ! nat i)"
proof -
  have i: "i = find_index p (elems q)" using assms find_first by simp
  with assms(3) have b: "0 \<le> i" "i < int (length (elems q))"
    using find_index_bounds by metis+
  then have n: "int (Suc (nat i)) = i + 1" "Suc (nat i) \<le> length (elems q)" by auto
  show "inv (set_count q (i + 1))" "elems (set_count q (i + 1)) = take (Suc (nat i)) (elems q)"
    "capacity (set_count q (i + 1)) = capacity q"
    using set_count_le [OF assms(1) n(2)] unfolding n(1) by blast+
  show "nat i < length (elems q)" using b by simp
  show "p (elems q ! nat i)" using find_index_nth i assms(3) by metis
qed

lemma truncate_all:
  "inv q \<Longrightarrow> inv (set_count q 0) \<and> elems (set_count q 0) = [] \<and> capacity (set_count q 0) = capacity q"
  using set_count_le [of q 0] by simp

end

definition cq_capacity :: "'a CircularQueue \<Rightarrow> nat" where
  "cq_capacity q = nat (cq_size q)"

lemma cq_full_iff: "cq_inv q \<Longrightarrow> IsFull q \<longleftrightarrow> length (cq_contents q) = cq_capacity q"
  by (auto simp: IsFull_def cq_capacity_def cq_inv_def)

lemma cq_len_le: "cq_inv q \<Longrightarrow> length (cq_contents q) \<le> cq_capacity q"
  by (simp add: cq_capacity_def cq_inv_def nat_mono)

lemma cq_push_room:
  assumes "cq_inv q" "\<not> IsFull q"
  shows "\<exists>q'. Push q x = Some (q', None) \<and> cq_inv q' \<and> cq_contents q' = cq_contents q @ [x] \<and>
    cq_capacity q' = cq_capacity q"
proof -
  have "cq_count q < cq_size q" using assms by (auto simp: IsFull_def cq_inv_def)
  from push_ok [OF assms(1) this, of x] show ?thesis by (metis cq_capacity_def)
qed

lemma cq_pop_some:
  assumes "cq_inv q" "cq_contents q \<noteq> []"
  shows "\<exists>q'. Pop def q = Some (q', hd (cq_contents q)) \<and> cq_inv q' \<and>
    cq_contents q' = tl (cq_contents q) \<and> cq_capacity q' = cq_capacity q"
  using pop_ok [OF assms, of def] by (metis cq_capacity_def)

lemma cq_set_count_le:
  assumes "cq_inv q" "n \<le> length (cq_contents q)"
  shows "cq_inv (SetCount q (int n)) \<and> cq_contents (SetCount q (int n)) = take n (cq_contents q) \<and>
    cq_capacity (SetCount q (int n)) = cq_capacity q"
proof -
  have "int n \<le> cq_count q" using assms by (auto simp: cq_inv_def)
  with set_count_ok [OF assms(1) _ this] show ?thesis by (simp add: cq_capacity_def)
qed

interpretation cq: bounded_queue Push "Pop def" "Peek def" IsFull SetCount Find cq_contents
  cq_capacity cq_inv def for def :: 'a
  by unfold_locales
    (simp_all add: cq_full_iff cq_len_le [simplified] cq_push_room push_full IsFull_def [symmetric] cq_pop_some
      pop_empty peek_ok peek_empty cq_set_count_le find_ok)

section \<open>The queue as a whole\<close>

text \<open>Calls on a queue, their results, and the same calls on a list of bounded length.\<close>

datatype 'a queue_op = OpPush 'a | OpPop | OpPeek | OpLen | OpIsFull | OpSetCount int | OpClearFrom int
  | OpFind "'a \<Rightarrow> bool" | OpToList

datatype 'a queue_out = OutNone | OutErr | OutVal 'a | OutInt int | OutBool bool | OutList "'a list"

fun queue_exec :: "'a \<Rightarrow> 'a CircularQueue \<Rightarrow> 'a queue_op \<Rightarrow> ('a CircularQueue \<times> 'a queue_out) option"
where
  "queue_exec def q (OpPush x) =
     map_option (\<lambda>(q', e). (q', if e = None then OutNone else OutErr)) (Push q x)"
| "queue_exec def q OpPop = map_option (\<lambda>(q', x). (q', OutVal x)) (Pop def q)"
| "queue_exec def q OpPeek = map_option (\<lambda>x. (q, OutVal x)) (Peek def q)"
| "queue_exec def q OpLen = Some (q, OutInt (Len q))"
| "queue_exec def q OpIsFull = Some (q, OutBool (IsFull q))"
| "queue_exec def q (OpSetCount n) = Some (SetCount q n, OutNone)"
| "queue_exec def q (OpClearFrom n) = map_option (\<lambda>q'. (q', OutNone)) (ClearFrom def q n)"
| "queue_exec def q (OpFind p) = map_option (\<lambda>i. (q, OutInt i)) (Find p q)"
| "queue_exec def q OpToList = map_option (\<lambda>xs. (q, OutList xs)) (ToList q)"

fun queue_spec :: "'a \<Rightarrow> nat \<Rightarrow> 'a list \<Rightarrow> 'a queue_op \<Rightarrow> 'a list \<times> 'a queue_out" where
  "queue_spec def k xs (OpPush x) =
     (if length xs < k then (xs @ [x], OutNone) else (xs, OutErr))"
| "queue_spec def k xs OpPop = (case xs of [] \<Rightarrow> ([], OutVal def) | x # ys \<Rightarrow> (ys, OutVal x))"
| "queue_spec def k xs OpPeek = (xs, OutVal (case xs of [] \<Rightarrow> def | x # _ \<Rightarrow> x))"
| "queue_spec def k xs OpLen = (xs, OutInt (int (length xs)))"
| "queue_spec def k xs OpIsFull = (xs, OutBool (length xs = k))"
| "queue_spec def k xs (OpSetCount n) = (take (nat n) xs, OutNone)"
| "queue_spec def k xs (OpClearFrom n) = (take (nat n) xs, OutNone)"
| "queue_spec def k xs (OpFind p) =
     (xs, OutInt (if \<exists>x \<in> set xs. p x then int (length (takeWhile (\<lambda>x. \<not> p x) xs)) else -1))"
| "queue_spec def k xs OpToList = (xs, OutList xs)"

text \<open>\<open>SetCount\<close> may only shrink: a larger count would bring stale slots back.\<close>

fun op_shrinks :: "'a queue_op \<Rightarrow> 'a list \<Rightarrow> bool" where
  "op_shrinks (OpSetCount n) xs \<longleftrightarrow> 0 \<le> n \<and> n \<le> int (length xs)"
| "op_shrinks (OpClearFrom n) xs \<longleftrightarrow> n \<le> int (length xs)"
| "op_shrinks _ _ \<longleftrightarrow> True"

fun queue_run :: "'a \<Rightarrow> 'a CircularQueue \<Rightarrow> 'a queue_op list \<Rightarrow> ('a CircularQueue \<times> 'a queue_out list) option"
where
  "queue_run def q [] = Some (q, [])"
| "queue_run def q (x # xs) =
     Option.bind (queue_exec def q x) (\<lambda>(q', o1).
     Option.bind (queue_run def q' xs) (\<lambda>(q'', os). Some (q'', o1 # os)))"

fun spec_run :: "'a \<Rightarrow> nat \<Rightarrow> 'a list \<Rightarrow> 'a queue_op list \<Rightarrow> 'a list \<times> 'a queue_out list" where
  "spec_run def k ys [] = (ys, [])"
| "spec_run def k ys (x # xs) =
     (let (ys', o1) = queue_spec def k ys x; (ys'', os) = spec_run def k ys' xs in (ys'', o1 # os))"

fun ops_shrink :: "'a \<Rightarrow> nat \<Rightarrow> 'a list \<Rightarrow> 'a queue_op list \<Rightarrow> bool" where
  "ops_shrink def k ys [] \<longleftrightarrow> True"
| "ops_shrink def k ys (x # xs) \<longleftrightarrow>
     op_shrinks x ys \<and> ops_shrink def k (fst (queue_spec def k ys x)) xs"

lemma queue_exec_refines:
  assumes inv: "cq_inv q" and ok: "op_shrinks x (cq_contents q)"
  shows "\<exists>q'. queue_exec def q x = Some (q', snd (queue_spec def (cq_capacity q) (cq_contents q) x)) \<and>
    cq_inv q' \<and> cq_capacity q' = cq_capacity q \<and>
    cq_contents q' = fst (queue_spec def (cq_capacity q) (cq_contents q) x)"
proof (cases x)
  case (OpPush y)
  show ?thesis
  proof (cases "IsFull q")
    case True
    then show ?thesis using OpPush cq.push_no_room [OF inv True, of y] cq.full_iff [OF inv] inv by auto
  next
    case False
    then have "length (cq_contents q) < cq_capacity q"
      using cq.full_iff [OF inv] cq.len_le [OF inv] by linarith
    with False show ?thesis using OpPush cq.push_room [OF inv False, of y] by auto
  qed
next
  case OpPop
  show ?thesis
  proof (cases "cq_contents q")
    case Nil
    then show ?thesis using OpPop cq.pop_none [OF inv, of def] inv by auto
  next
    case (Cons y ys)
    then show ?thesis using OpPop cq.pop_some [OF inv, of def] by auto
  qed
next
  case OpPeek
  then show ?thesis using cq.peek_none [OF inv, of def] cq.peek_some [OF inv, of def] inv
    by (cases "cq_contents q") auto
next
  case (OpSetCount n)
  then have "n \<le> cq_count q" "0 \<le> n" using ok inv by (auto simp: cq_inv_def)
  with OpSetCount set_count_ok [OF inv, of n] show ?thesis by (simp add: cq_capacity_def)
next
  case (OpClearFrom n)
  then have "n \<le> cq_count q" using ok inv by (auto simp: cq_inv_def)
  with OpClearFrom clear_from_ok [OF inv, of n def] show ?thesis by (auto simp: cq_capacity_def)
next
  case OpLen
  have "Len q = int (length (cq_contents q))" using inv by (simp add: Len_def cq_inv_def)
  then show ?thesis using OpLen inv by simp
next
  case OpIsFull
  then show ?thesis using cq.full_iff [OF inv] inv by simp
next
  case (OpFind p)
  then show ?thesis using cq.find_first [OF inv, of p] inv by (simp add: find_index_def)
next
  case OpToList
  then show ?thesis using to_list_ok [OF inv] inv by simp
qed

text \<open>
  C25. The ring buffer is a bounded FIFO list: every sequence of calls of its nine methods in which
  \<open>SetCount\<close> and \<open>ClearFrom\<close> do not ask for more elements than there are runs without a panic, keeps the
  buffer well formed, and returns what the same calls return on a list of at most \<open>size\<close> elements.
\<close>

theorem circular_queue_refines_list:
  assumes "cq_inv q" "ops_shrink def (cq_capacity q) (cq_contents q) xs"
  shows "\<exists>q'. queue_run def q xs = Some (q', snd (spec_run def (cq_capacity q) (cq_contents q) xs)) \<and>
    cq_inv q' \<and> cq_contents q' = fst (spec_run def (cq_capacity q) (cq_contents q) xs)"
  using assms
proof (induction xs arbitrary: q)
  case (Cons x xs)
  then obtain q1 where q1: "queue_exec def q x = Some (q1, snd (queue_spec def (cq_capacity q) (cq_contents q) x))"
      "cq_inv q1" "cq_capacity q1 = cq_capacity q"
      "cq_contents q1 = fst (queue_spec def (cq_capacity q) (cq_contents q) x)"
    using queue_exec_refines [of q x def] by auto
  from Cons.IH [of q1] Cons.prems(2) q1 show ?case by (auto simp: split_beta Let_def)
qed simp

theorem circular_queue_refines_list_witness:
  "\<exists>q'. queue_run (0::nat) \<lparr>cq_items = [7, 0, 5], cq_count = 2, cq_size = 3, cq_pos = 2\<rparr>
      [OpPush 9, OpPush 8, OpIsFull, OpFind ((=) 7), OpToList, OpPop, OpSetCount 1, OpLen, OpPeek] =
      Some (q', [OutNone, OutErr, OutBool True, OutInt 1, OutList [5, 7, 9], OutVal 5, OutNone, OutInt 1, OutVal 7]) \<and>
    cq_contents q' = [7]"
proof -
  let ?q = "\<lparr>cq_items = [7, 0, 5], cq_count = 2, cq_size = 3, cq_pos = 2\<rparr> :: nat CircularQueue"
  let ?ops = "[OpPush 9, OpPush 8, OpIsFull, OpFind ((=) 7), OpToList, OpPop, OpSetCount 1, OpLen, OpPeek]"
  have c: "cq_contents ?q = [5, 7]" by (simp add: cq_contents_def numeral_eq_Suc)
  have k: "cq_capacity ?q = 3" by (simp add: cq_capacity_def)
  have i: "cq_inv ?q" by (simp add: cq_inv_def)
  have "\<exists>q'. queue_run 0 ?q ?ops = Some (q', snd (spec_run 0 3 [5, 7] ?ops)) \<and>
      cq_inv q' \<and> cq_contents q' = fst (spec_run 0 3 [5, 7] ?ops)"
    using circular_queue_refines_list [OF i, of 0 ?ops] unfolding c k by simp
  moreover have "spec_run 0 3 [5, 7] ?ops =
      ([7::nat], [OutNone, OutErr, OutBool True, OutInt 1, OutList [5, 7, 9], OutVal 5, OutNone, OutInt 1, OutVal 7])" by simp
  ultimately show ?thesis by auto
qed

end
