(* ===== verification/Chain_Data.thy ===== *)
theory Chain_Data
  imports Go_Lib "HOL-Library.Product_Lexorder"
begin

text \<open>
  The data of the block indexer (\<open>indexer/data.go\<close>) and the helpers of
  \<open>indexer/utils.go\<close>: hashes, points, headers, transactions, their keys and texts, and
  the extraction of outputs and inputs from the transactions of a block. A field of a Go
  struct has the struct's initials as prefix (\<open>bp_\<close> for \<open>BlockPoint\<close>, \<open>tx_\<close> for
  \<open>Tx\<close>, ...). A nilable byte slice whose absence the code can observe is an
  \<open>option\<close>; a slice of pointers is the list of what they point to.
\<close>

section \<open>Hashes\<close>

definition HashSize :: nat where
  "HashSize = 32"

text \<open>\<open>type Hash [HashSize]byte\<close>.\<close>

typedef Hash = "{bs :: bytes. length bs = HashSize}" morphisms hash_bytes Abs_Hash
  by (rule exI [of _ "replicate HashSize 0"]) simp

definition zero_hash :: Hash where
  "zero_hash = Abs_Hash (replicate HashSize 0)"

definition NewHashFromBytes :: "bytes \<Rightarrow> Hash" where
  "NewHashFromBytes bs =
     (if length bs \<noteq> HashSize
      then let n = min HashSize (length bs)
           in Abs_Hash (replicate (HashSize - n) 0 @ take n bs)
      else Abs_Hash bs)"

definition NewHashFromHexString :: "string \<Rightarrow> Hash" where
  "NewHashFromHexString s = NewHashFromBytes (fst (hex_decode (trim_prefix s ''0x'')))"

definition hash_String :: "Hash \<Rightarrow> string" where
  "hash_String h = hex_encode (hash_bytes h)"

lemma length_hash_bytes [simp]: "length (hash_bytes h) = HashSize"
  using hash_bytes [of h] by simp

lemma length_hash_bytes32: "length (hash_bytes h) = 32"
  by (simp add: HashSize_def)

lemma hash_bytes_Abs: "length bs = HashSize \<Longrightarrow> hash_bytes (Abs_Hash bs) = bs"
  by (simp add: Abs_Hash_inverse)

lemma Abs_Hash_bytes [simp, code abstype]: "Abs_Hash (hash_bytes h) = h"
  by (rule hash_bytes_inverse)

lemma hash_bytes_zero [simp, code abstract]: "hash_bytes zero_hash = replicate HashSize 0"
  by (simp add: zero_hash_def hash_bytes_Abs)

lemma hash_bytes_New [code abstract]: "hash_bytes (NewHashFromBytes bs) =
    (if length bs \<noteq> HashSize
     then let n = min HashSize (length bs) in replicate (HashSize - n) 0 @ take n bs
     else bs)"
  by (simp add: NewHashFromBytes_def hash_bytes_Abs Let_def)

lemma NewHashFromBytes_hash_bytes [simp]: "NewHashFromBytes (hash_bytes h) = h"
  by (simp add: NewHashFromBytes_def)

lemma hash_bytes_NewHashFromBytes: "length bs = HashSize \<Longrightarrow> hash_bytes (NewHashFromBytes bs) = bs"
  by (simp add: hash_bytes_New)

lemma hex_encode_no_0x: "\<not> has_prefix (hex_encode bs) ''0x''"
proof
  assume "has_prefix (hex_encode bs) ''0x''"
  then have "CHR ''x'' \<in> set (hex_encode bs)"
    unfolding has_prefix_def by (metis in_set_takeD list.set_intros(1,2))
  from hex_encode_chars [OF this] show False by (simp add: hex_val_def)
qed

lemma NewHashFromHexString_String [simp]: "NewHashFromHexString (hash_String h) = h"
  by (simp add: NewHashFromHexString_def hash_String_def trim_prefix_def hex_encode_no_0x)

text \<open>\<open>bytes.Compare\<close> on hashes is the lexicographic order of the bytes.\<close>

instantiation Hash :: linorder
begin

definition less_eq_Hash :: "Hash \<Rightarrow> Hash \<Rightarrow> bool" where
  "less_eq_Hash a b \<longleftrightarrow> hash_bytes a \<le> hash_bytes b"

definition less_Hash :: "Hash \<Rightarrow> Hash \<Rightarrow> bool" where
  "less_Hash a b \<longleftrightarrow> hash_bytes a < hash_bytes b"

instance
  by standard (auto simp: less_eq_Hash_def less_Hash_def hash_bytes_inject order.strict_iff_order)

end

instantiation Hash :: equal
begin

definition equal_Hash :: "Hash \<Rightarrow> Hash \<Rightarrow> bool" where
  "equal_Hash a b \<longleftrightarrow> hash_bytes a = hash_bytes b"

instance
  by standard (simp add: equal_Hash_def hash_bytes_inject)

end

section \<open>Points, headers, transactions\<close>

record BlockPoint =
  bp_BlockSlot :: u64
  bp_BlockHash :: Hash

record BlockHeader =
  bh_Slot :: u64
  bh_Hash :: Hash
  bh_Number :: u64
  bh_EraID :: u8

record TxInput =
  ti_Hash :: Hash
  ti_Index :: u32

record TokenAmount =
  ta_PolicyID :: string
  ta_Name :: string
  ta_Amount :: u64

record TxOutput =
  to_Address :: string
  to_Slot :: u64
  to_Amount :: u64
  to_Datum :: bytes
  to_DatumHash :: Hash
  to_IsUsed :: bool
  to_Tokens :: "TokenAmount list"

record TxInputOutput =
  tio_Input :: TxInput
  tio_Output :: TxOutput

record Tx =
  tx_BlockSlot :: u64
  tx_BlockHash :: Hash
  tx_Indx :: u32
  tx_Hash :: Hash
  tx_Metadata :: "bytes option"
  tx_Inputs :: "TxInputOutput list"
  tx_Outputs :: "TxOutput list"
  tx_Fee :: u64
  tx_Valid :: bool

record CardanoBlock =
  cb_Slot :: u64
  cb_Hash :: Hash
  cb_Number :: u64
  cb_EraID :: u8
  cb_Txs :: "Hash list"

record TxInfo =
  tinf_Hash :: string
  tinf_MetaData :: bytes
  tinf_TTL :: u64
  tinf_Fee :: u64
  tinf_IsValid :: bool
  tinf_Inputs :: "TxInput list"
  tinf_Outputs :: "TxOutput list"

text \<open>Zero values of the structs.\<close>

definition zero_BlockPoint :: BlockPoint where
  "zero_BlockPoint = \<lparr>bp_BlockSlot = 0, bp_BlockHash = zero_hash\<rparr>"

definition zero_BlockHeader :: BlockHeader where
  "zero_BlockHeader = \<lparr>bh_Slot = 0, bh_Hash = zero_hash, bh_Number = 0, bh_EraID = 0\<rparr>"

definition zero_TxOutput :: TxOutput where
  "zero_TxOutput = \<lparr>to_Address = '''', to_Slot = 0, to_Amount = 0, to_Datum = [],
     to_DatumHash = zero_hash, to_IsUsed = False, to_Tokens = []\<rparr>"

section \<open>Keys and texts\<close>

text \<open>\<open>SlotNumberToKey\<close> and the \<open>Key\<close> methods: the database keys.\<close>

definition SlotNumberToKey :: "u64 \<Rightarrow> bytes" where
  "SlotNumberToKey slot = put_uint64 slot"

definition block_Key :: "CardanoBlock \<Rightarrow> bytes" where
  "block_Key cb = SlotNumberToKey (cb_Slot cb)"

definition tx_Key :: "Tx \<Rightarrow> bytes" where
  "tx_Key t = put_uint64 (tx_BlockSlot t) @ put_uint32 (tx_Indx t)"

definition input_Key :: "TxInput \<Rightarrow> bytes" where
  "input_Key i = hash_bytes (ti_Hash i) @ put_uint32 (ti_Index i)"

definition input_Set :: "bytes \<Rightarrow> TxInput result" where
  "input_Set bs =
     (if length bs \<noteq> HashSize + 4
      then Inl (ErrMsg (''invalid bytes size: '' @ itoa (length bs)))
      else Inr \<lparr>ti_Hash = NewHashFromBytes (take HashSize bs), ti_Index = uint32_at (drop HashSize bs)\<rparr>)"

definition output_IsNotUsed :: "TxOutput \<Rightarrow> bool" where
  "output_IsNotUsed t \<longleftrightarrow> to_Address t \<noteq> '''' \<and> \<not> to_IsUsed t"

definition token_TokenName :: "TokenAmount \<Rightarrow> string" where
  "token_TokenName t = ta_PolicyID t @ ''.'' @ hex_encode (str_bytes (ta_Name t))"

definition token_String :: "TokenAmount \<Rightarrow> string" where
  "token_String t =
     itoa64 (ta_Amount t) @ '' '' @ ta_PolicyID t @ ''.'' @ hex_encode (str_bytes (ta_Name t))"

definition output_String :: "TxOutput \<Rightarrow> string" where
  "output_String t =
     to_Address t @ ''+'' @ itoa64 (to_Amount t) @
     concat (map (\<lambda>k. ''+'' @ token_String k) (to_Tokens t))"

definition input_String :: "TxInput \<Rightarrow> string" where
  "input_String i = hash_String (ti_Hash i) @ ''#'' @ itoa (unat (ti_Index i))"

definition inout_String :: "TxInputOutput \<Rightarrow> string" where
  "inout_String t =
     (if to_Address (tio_Output t) = '''' then input_String (tio_Input t)
      else input_String (tio_Input t) @ ''::'' @ output_String (tio_Output t))"

definition point_String :: "BlockPoint \<Rightarrow> string" where
  "point_String p = ''slot = '' @ itoa64 (bp_BlockSlot p) @ '', hash = '' @ hash_String (bp_BlockHash p)"

text \<open>The \<open>strings.Builder\<close> loop of \<open>Tx.String\<close>: bracketed items, a comma before all but the first.\<close>

fun write_items :: "('a \<Rightarrow> string) \<Rightarrow> 'a list \<Rightarrow> string \<Rightarrow> string" where
  "write_items f [] sb = sb"
| "write_items f (x # xs) sb =
     write_items f xs ((if sb \<noteq> [] then sb @ '', '' else sb) @ ''['' @ f x @ '']'')"

definition tx_String :: "Tx \<Rightarrow> string" where
  "tx_String t =
     ''hash = '' @ hash_String (tx_Hash t) @
     CHR 0x0A # ''block hash = '' @ hash_String (tx_BlockHash t) @
     CHR 0x0A # ''block slot = '' @ itoa64 (tx_BlockSlot t) @
     CHR 0x0A # ''fee = '' @ itoa64 (tx_Fee t) @
     (case tx_Metadata t of None \<Rightarrow> '''' | Some m \<Rightarrow> CHR 0x0A # ''meta = '' @ bytes_str m) @
     CHR 0x0A # ''inputs = '' @ write_items inout_String (tx_Inputs t) '''' @
     CHR 0x0A # ''outputs = '' @ write_items output_String (tx_Outputs t) ''''"

definition ToCardanoBlock :: "BlockHeader \<Rightarrow> Hash list \<Rightarrow> CardanoBlock" where
  "ToCardanoBlock h txs = \<lparr>cb_Slot = bh_Slot h, cb_Hash = bh_Hash h, cb_Number = bh_Number h,
     cb_EraID = bh_EraID h, cb_Txs = txs\<rparr>"

section \<open>indexer/utils.go\<close>

text \<open>The comparison of \<open>SortTxInputOutputs\<close>.\<close>

definition tio_less :: "TxInputOutput \<Rightarrow> TxInputOutput \<Rightarrow> bool" where
  "tio_less a b =
     (if to_Slot (tio_Output a) \<noteq> to_Slot (tio_Output b)
      then to_Slot (tio_Output a) < to_Slot (tio_Output b)
      else if ti_Hash (tio_Input a) \<noteq> ti_Hash (tio_Input b)
      then ti_Hash (tio_Input a) < ti_Hash (tio_Input b)
      else ti_Index (tio_Input a) < ti_Index (tio_Input b))"

definition SortTxInputOutputs :: "TxInputOutput list \<Rightarrow> TxInputOutput list" where
  "SortTxInputOutputs xs = sort_slice tio_less xs"

definition getTxHashes :: "Tx list \<Rightarrow> Hash list" where
  "getTxHashes txs = map tx_Hash txs"

text \<open>
  \<open>len(addressesOfInterest) == 0 || addressesOfInterest[addr]\<close>; the Go map only ever
  holds \<open>true\<close>, so it is the set of its keys.
\<close>

definition of_interest :: "string set \<Rightarrow> string \<Rightarrow> bool" where
  "of_interest addrs a \<longleftrightarrow> addrs = {} \<or> a \<in> addrs"

definition tx_outputs_of :: "string set \<Rightarrow> Tx \<Rightarrow> TxInputOutput list" where
  "tx_outputs_of addrs t =
     map (\<lambda>(i, out). \<lparr>tio_Input = \<lparr>ti_Hash = tx_Hash t, ti_Index = word_of_nat i\<rparr>, tio_Output = out\<rparr>)
       (filter (\<lambda>(i, out). of_interest addrs (to_Address out)) (enumerate 0 (tx_Outputs t)))"

definition getTxOutputs :: "Tx list \<Rightarrow> string set \<Rightarrow> TxInputOutput list" where
  "getTxOutputs txs addrs = concat (map (tx_outputs_of addrs) txs)"

definition getTxInputs :: "Tx list \<Rightarrow> string set \<Rightarrow> TxInput list" where
  "getTxInputs txs addrs =
     concat (map (\<lambda>t. map tio_Input
       (filter (\<lambda>i. of_interest addrs (to_Address (tio_Output i))) (tx_Inputs t))) txs)"

section \<open>Facts\<close>

lemma input_Set_Key [simp]: "input_Set (input_Key i) = Inr i"
  by (simp add: input_Set_def input_Key_def)

lemma input_Key_Set: "input_Set bs = Inr i \<Longrightarrow> input_Key i = bs"
proof -
  assume h: "input_Set bs = Inr i"
  then have len: "length bs = HashSize + 4" by (auto simp: input_Set_def split: if_splits)
  have "be_val (drop HashSize bs) < 256 ^ 4"
    using be_val_less [of "drop HashSize bs"] len by simp
  then have "put_uint32 (uint32_at (drop HashSize bs)) = drop HashSize bs"
    using len be_bytes_be_val [of "drop HashSize bs"]
    by (simp add: put_uint32_def uint32_at_def unat_of_nat)
  with h len show ?thesis
    by (auto simp: input_Set_def input_Key_def hash_bytes_NewHashFromBytes)
qed

lemma input_Key_inject [simp]: "input_Key a = input_Key b \<longleftrightarrow> a = b"
  by (metis input_Set_Key sum.inject(2))

lemma tx_Key_inject: "tx_Key a = tx_Key b \<longleftrightarrow> tx_BlockSlot a = tx_BlockSlot b \<and> tx_Indx a = tx_Indx b"
  by (simp add: tx_Key_def)

lemma block_Key_less: "block_Key a < block_Key b \<longleftrightarrow> cb_Slot a < cb_Slot b"
  by (simp add: block_Key_def SlotNumberToKey_def)

lemma tx_Key_less:
  "tx_Key a < tx_Key b \<longleftrightarrow> (tx_BlockSlot a, tx_Indx a) < (tx_BlockSlot b, tx_Indx b)"
proof -
  have val: "be_val (put_uint64 s @ put_uint32 i) = unat s * 256 ^ 4 + unat i" for s i
    by (simp only: be_val_append be_val_put_uint64 be_val_put_uint32 length_put)
  have pair: "x * m + y < x' * m + y' \<longleftrightarrow> x < x' \<or> x = x' \<and> y < y'"
    if "y < m" "y' < m" for x y x' y' m :: nat
  proof (cases x x' rule: linorder_cases)
    case less
    then have "Suc x * m \<le> x' * m" by (intro mult_le_mono1) simp
    with less that show ?thesis by simp
  next
    case greater
    then have "Suc x' * m \<le> x * m" by (intro mult_le_mono1) simp
    with greater that show ?thesis by simp
  qed simp
  have "tx_Key a < tx_Key b \<longleftrightarrow>
      unat (tx_BlockSlot a) * 256 ^ 4 + unat (tx_Indx a) < unat (tx_BlockSlot b) * 256 ^ 4 + unat (tx_Indx b)"
    unfolding tx_Key_def by (subst be_val_less_iff) (simp_all only: val length_append length_put)
  also have "\<dots> \<longleftrightarrow> unat (tx_BlockSlot a) < unat (tx_BlockSlot b) \<or>
      unat (tx_BlockSlot a) = unat (tx_BlockSlot b) \<and> unat (tx_Indx a) < unat (tx_Indx b)"
    by (rule pair) (rule unat_u32_less)+
  finally show ?thesis by (auto simp: less_prod_def' word_less_nat_alt word_unat_eq_iff)
qed

definition tio_key :: "TxInputOutput \<Rightarrow> u64 \<times> Hash \<times> u32" where
  "tio_key t = (to_Slot (tio_Output t), ti_Hash (tio_Input t), ti_Index (tio_Input t))"

lemma tio_less_key: "tio_less a b \<longleftrightarrow> tio_key a < tio_key b"
  by (auto simp: tio_less_def tio_key_def)

text \<open>
  The order of \<open>SortTxInputOutputs\<close> is deterministic: any list with the same elements,
  ordered by slot, hash and index, is its result, when no two elements share all three.
\<close>

lemma SortTxInputOutputs_unique:
  assumes "mset ys = mset xs" "sorted (map tio_key ys)" "inj_on tio_key (set xs)"
  shows "ys = SortTxInputOutputs xs"
  unfolding SortTxInputOutputs_def
  by (rule sort_slice_unique [where f = tio_key, OF tio_less_key assms])

lemma SortTxInputOutputs_sorted:
  "sorted (map tio_key (SortTxInputOutputs xs))" "mset (SortTxInputOutputs xs) = mset xs"
  unfolding SortTxInputOutputs_def by (simp_all add: sorted_sort_slice [OF tio_less_key])

lemma getTxOutputs_empty [simp]: "getTxOutputs [] addrs = []"
  and getTxInputs_empty [simp]: "getTxInputs [] addrs = []"
  by (simp_all add: getTxOutputs_def getTxInputs_def)

lemma getTxOutputs_Cons: "getTxOutputs (t # ts) addrs = tx_outputs_of addrs t @ getTxOutputs ts addrs"
  by (simp add: getTxOutputs_def)

lemma getTxInputs_all: "getTxInputs txs {} = concat (map (\<lambda>t. map tio_Input (tx_Inputs t)) txs)"
  by (simp add: getTxInputs_def of_interest_def)

lemma in_getTxOutputs:
  "io \<in> set (getTxOutputs txs addrs) \<longleftrightarrow>
    (\<exists>t \<in> set txs. \<exists>i < length (tx_Outputs t). of_interest addrs (to_Address (tx_Outputs t ! i)) \<and>
       io = \<lparr>tio_Input = \<lparr>ti_Hash = tx_Hash t, ti_Index = word_of_nat i\<rparr>, tio_Output = tx_Outputs t ! i\<rparr>)"
  by (force simp: getTxOutputs_def tx_outputs_of_def in_set_enumerate_eq)

lemma in_getTxInputs:
  "i \<in> set (getTxInputs txs addrs) \<longleftrightarrow>
    (\<exists>t \<in> set txs. \<exists>io \<in> set (tx_Inputs t). i = tio_Input io \<and> of_interest addrs (to_Address (tio_Output io)))"
  by (auto simp: getTxInputs_def)

end
