(* ===== verification/Json_Doc.thy ===== *)
theory Json_Doc
  imports Go_Lib
begin

text \<open>
  \<open>encoding/json\<close>: texts are modelled as their document trees; a \<open>[]byte\<close> field, whose
  text is a base64 string, is the leaf \<open>JBytes\<close>. \<open>Marshal\<close> replaces every byte of a
  string that does not belong to a UTF-8 sequence by the replacement character
  (\<open>utf8_sanitize\<close>). The locale \<open>json_codec\<close> is the contract of a codec of a struct.
\<close>

section \<open>UTF-8\<close>

definition utf8_cont :: "nat \<Rightarrow> bool" where
  "utf8_cont b \<longleftrightarrow> 0x80 \<le> b \<and> b \<le> 0xBF"

text \<open>The width of the sequence at the head of a byte string, if there is a valid one.\<close>

definition utf8_len :: "nat \<Rightarrow> nat" where
  "utf8_len b0 =
     (if b0 < 0x80 then 1
      else if 0xC2 \<le> b0 \<and> b0 \<le> 0xDF then 2
      else if 0xE0 \<le> b0 \<and> b0 \<le> 0xEF then 3
      else if 0xF0 \<le> b0 \<and> b0 \<le> 0xF4 then 4
      else 0)"

definition utf8_second_ok :: "nat \<Rightarrow> nat \<Rightarrow> bool" where
  "utf8_second_ok b0 b1 \<longleftrightarrow>
     (b0 = 0xE0 \<longrightarrow> 0xA0 \<le> b1) \<and> (b0 = 0xED \<longrightarrow> b1 \<le> 0x9F) \<and>
     (b0 = 0xF0 \<longrightarrow> 0x90 \<le> b1) \<and> (b0 = 0xF4 \<longrightarrow> b1 \<le> 0x8F)"

definition utf8_width :: "nat list \<Rightarrow> nat option" where
  "utf8_width bs = (case bs of [] \<Rightarrow> None | b0 # r \<Rightarrow>
     let n = utf8_len b0; cs = take (n - 1) r
     in if n \<noteq> 0 \<and> length cs = n - 1 \<and> list_all utf8_cont cs \<and> (cs \<noteq> [] \<longrightarrow> utf8_second_ok b0 (hd cs))
        then Some n else None)"

definition str_width :: "string \<Rightarrow> nat option" where
  "str_width s = utf8_width (map of_char (take 4 s))"

lemma utf8_width_bounds:
  "utf8_width bs = Some n \<Longrightarrow> 0 < n \<and> n \<le> length bs"
  by (cases bs) (auto simp: utf8_width_def Let_def split: if_splits)

lemma str_width_bounds: "str_width s = Some n \<Longrightarrow> 0 < n \<and> n \<le> length s"
  using utf8_width_bounds [of "map of_char (take 4 s)" n] by (simp add: str_width_def)

lemma utf8_width_take:
  assumes "utf8_width bs = Some n"
  shows "utf8_width (take n bs @ ys) = Some n"
proof (cases bs)
  case (Cons b r)
  then have n: "n = utf8_len b" "n \<noteq> 0" "length (take (n - 1) r) = n - 1"
    using assms by (auto simp: utf8_width_def Let_def split: if_splits)
  then have "take n bs @ ys = b # take (n - 1) r @ ys" by (simp add: Cons take_Cons')
  moreover have "take (n - 1) (take (n - 1) r @ ys) = take (n - 1) r"
    using n(3) by (simp only: take_append diff_self_eq_0 take_0 append_Nil2 take_take min.idem)
  ultimately show ?thesis
    using assms by (simp only: Cons utf8_width_def list.case Let_def n(1) [symmetric])
qed (use assms in \<open>simp add: utf8_width_def\<close>)

lemma utf8_width_take4: "utf8_width (take 4 bs) = utf8_width bs"
proof (cases bs)
  case (Cons b r)
  have "utf8_len b - 1 \<le> 3" by (simp add: utf8_len_def)
  then have "take (utf8_len b - 1) (take 3 r) = take (utf8_len b - 1) r" by (simp add: min_def)
  moreover have "take 4 bs = b # take 3 r" by (simp add: Cons)
  ultimately show ?thesis by (simp only: Cons utf8_width_def list.case Let_def)
qed simp

lemma str_width_alt: "str_width s = utf8_width (map of_char s)"
  using utf8_width_take4 [of "map of_char s"] by (simp add: str_width_def take_map)

lemma str_width_take: "str_width s = Some n \<Longrightarrow> str_width (take n s @ t) = Some n"
  using utf8_width_take [of "map of_char s" n "map of_char t"] by (simp add: str_width_alt take_map)

function utf8_sanitize :: "string \<Rightarrow> string" where
  "utf8_sanitize s =
     (if s = [] then []
      else case str_width s of
        Some n \<Rightarrow> take n s @ utf8_sanitize (drop n s)
      | None \<Rightarrow> [CHR 0xEF, CHR 0xBF, CHR 0xBD] @ utf8_sanitize (tl s))"
  by pat_completeness auto
termination
  by (relation "measure length") (auto dest: str_width_bounds)

declare utf8_sanitize.simps [simp del]

lemma utf8_sanitize_Nil [simp]: "utf8_sanitize [] = []"
  by (simp add: utf8_sanitize.simps)

lemma utf8_sanitize_Some:
  "str_width s = Some n \<Longrightarrow> utf8_sanitize s = take n s @ utf8_sanitize (drop n s)"
  using str_width_bounds [of s n] by (subst utf8_sanitize.simps) auto

lemma utf8_sanitize_take:
  assumes "str_width s = Some n"
  shows "utf8_sanitize (take n s @ t) = take n s @ utf8_sanitize t"
  using utf8_sanitize_Some [OF str_width_take [OF assms, of t]] str_width_bounds [OF assms] by simp

lemma utf8_sanitize_replacement:
  "utf8_sanitize ([CHR 0xEF, CHR 0xBF, CHR 0xBD] @ t) = [CHR 0xEF, CHR 0xBF, CHR 0xBD] @ utf8_sanitize t"
proof -
  have w: "str_width [CHR 0xEF, CHR 0xBF, CHR 0xBD] = Some 3"
    by (simp add: str_width_def utf8_width_def utf8_cont_def utf8_len_def utf8_second_ok_def)
  show ?thesis using utf8_sanitize_take [OF w, of t] by simp
qed

lemma utf8_sanitize_idem [simp]: "utf8_sanitize (utf8_sanitize s) = utf8_sanitize s"
proof (induction s rule: utf8_sanitize.induct)
  case (1 s)
  show ?case
  proof (cases "str_width s")
    case None
    with 1 show ?thesis
      by (subst (2 3) utf8_sanitize.simps) (auto simp: utf8_sanitize_replacement simp del: append_Cons)
  next
    case (Some n)
    then have "s \<noteq> []" using str_width_bounds [OF Some] by auto
    with 1 Some show ?thesis by (simp add: utf8_sanitize_Some [OF Some] utf8_sanitize_take)
  qed
qed

definition valid_utf8 :: "string \<Rightarrow> bool" where
  "valid_utf8 s \<longleftrightarrow> utf8_sanitize s = s"

lemma utf8_sanitize_ascii: "\<forall>c \<in> set s. (of_char c :: nat) < 0x80 \<Longrightarrow> utf8_sanitize s = s"
proof (induction s)
  case (Cons c s)
  then have "str_width (c # s) = Some 1" by (simp add: str_width_def utf8_width_def utf8_len_def)
  with Cons show ?case using utf8_sanitize_Some [of "c # s" 1] by simp
qed simp

section \<open>Documents\<close>

text \<open>A number is an integer, or it has a fraction or an exponent and is kept as its text.\<close>

datatype json =
    JNull
  | JBool bool
  | JNum int
  | JReal string
  | JStr string
  | JBytes bytes
  | JArr "json list"
  | JObj "(string \<times> json) list"

definition json_syntax_error :: goerror where
  "json_syntax_error = ErrMsg ''invalid character looking for beginning of value''"

definition json_type_error :: goerror where
  "json_type_error = ErrMsg ''json: cannot unmarshal value into Go value''"

text \<open>
  Reading: a missing member and \<open>null\<close> leave the field at its zero value, a value of
  the wrong shape or out of range is an error, and of two equal members the last counts.
\<close>

definition json_member :: "(string \<times> json) list \<Rightarrow> string \<Rightarrow> json" where
  "json_member fs n = (case map_of (rev fs) n of None \<Rightarrow> JNull | Some j \<Rightarrow> j)"

fun dec_obj :: "json \<Rightarrow> (string \<times> json) list result" where
  "dec_obj JNull = Inr []"
| "dec_obj (JObj fs) = Inr fs"
| "dec_obj _ = Inl json_type_error"

fun dec_word :: "json \<Rightarrow> ('a::len word) result" where
  "dec_word JNull = Inr 0"
| "dec_word (JNum n) =
     (if 0 \<le> n \<and> n < 2 ^ LENGTH('a) then Inr (word_of_int n) else Inl json_type_error)"
| "dec_word _ = Inl json_type_error"

fun dec_bool :: "json \<Rightarrow> bool result" where
  "dec_bool JNull = Inr False"
| "dec_bool (JBool b) = Inr b"
| "dec_bool _ = Inl json_type_error"

fun dec_str :: "json \<Rightarrow> string result" where
  "dec_str JNull = Inr []"
| "dec_str (JStr s) = Inr s"
| "dec_str _ = Inl json_type_error"

fun dec_bytes :: "json \<Rightarrow> bytes option result" where
  "dec_bytes JNull = Inr None"
| "dec_bytes (JBytes bs) = Inr (Some bs)"
| "dec_bytes _ = Inl json_type_error"

fun result_map :: "('a \<Rightarrow> 'b result) \<Rightarrow> 'a list \<Rightarrow> 'b list result" where
  "result_map f [] = Inr []"
| "result_map f (x # xs) = rbind (f x) (\<lambda>y. rbind (result_map f xs) (\<lambda>ys. Inr (y # ys)))"

fun dec_list :: "(json \<Rightarrow> 'a result) \<Rightarrow> json \<Rightarrow> 'a list result" where
  "dec_list f JNull = Inr []"
| "dec_list f (JArr js) = result_map f js"
| "dec_list f _ = Inl json_type_error"

definition enc_word :: "'a::len word \<Rightarrow> json" where
  "enc_word w = JNum (uint w)"

definition enc_str :: "string \<Rightarrow> json" where
  "enc_str s = JStr (utf8_sanitize s)"

text \<open>A nil slice is \<open>null\<close>; the slices stored here are nil when they are empty.\<close>

definition enc_list :: "('a \<Rightarrow> json) \<Rightarrow> 'a list \<Rightarrow> json" where
  "enc_list f xs = (if xs = [] then JNull else JArr (map f xs))"

text \<open>\<open>omitempty\<close> on a slice.\<close>

definition omit_empty :: "string \<Rightarrow> 'a list \<Rightarrow> json \<Rightarrow> (string \<times> json) list" where
  "omit_empty n xs j = (if xs = [] then [] else [(n, j)])"

section \<open>Round trips\<close>

lemma dec_enc_word [simp]: "dec_word (enc_word w) = Inr w"
  by (simp add: enc_word_def uint_lt2p)

lemma dec_enc_str [simp]: "dec_str (enc_str s) = Inr (utf8_sanitize s)"
  by (simp add: enc_str_def)

text \<open>
  The contract of a codec: reading what was written gives the normal form, which is a fixed
  point; it lifts to lists.
\<close>

locale json_codec =
  fixes enc :: "'a \<Rightarrow> json"
    and dec :: "json \<Rightarrow> 'a result"
    and norm :: "'a \<Rightarrow> 'a"
  assumes dec_enc: "dec (enc x) = Inr (norm x)"
    and norm_idem: "norm (norm x) = norm x"
begin

lemma result_map_enc: "result_map dec (map enc xs) = Inr (map norm xs)"
  by (induction xs) (simp_all add: dec_enc)

lemma dec_list_enc: "dec_list dec (enc_list enc xs) = Inr (map norm xs)"
  by (simp add: enc_list_def result_map_enc)

lemma map_norm_idem: "map norm (map norm xs) = map norm xs"
  by (simp add: norm_idem)

lemma enc_clean: "norm x = x \<Longrightarrow> dec (enc x) = Inr x"
  by (simp add: dec_enc)

end

interpretation word_codec: json_codec "enc_word :: 'a::len word \<Rightarrow> json" dec_word id
  by unfold_locales simp_all

end
