(* ===== verification/Json_Codec.thy ===== *)
theory Json_Codec
  imports Chain_Data Json_Doc
begin

text \<open>
  The \<open>encoding/json\<close> documents the indexer stores: the tree that \<open>json.Marshal\<close> writes
  for each struct under its \<open>json\<close> tags, and what \<open>json.Unmarshal\<close> reads back. The
  round trip of a struct is its \<open>norm\<close>, which is the struct itself when its strings are
  valid UTF-8.
\<close>

section \<open>Hashes\<close>

text \<open>A \<open>[32]byte\<close> is an array of numbers; surplus elements are dropped, missing ones are zero.\<close>

definition dec_hash :: "json \<Rightarrow> Hash result" where
  "dec_hash j = rbind (dec_list dec_word j)
     (\<lambda>bs. Inr (NewHashFromBytes (take HashSize (bs @ replicate HashSize 0))))"

definition enc_hash :: "Hash \<Rightarrow> json" where
  "enc_hash h = JArr (map enc_word (hash_bytes h))"

section \<open>The codecs of the stored structs\<close>

definition enc_point :: "BlockPoint \<Rightarrow> json" where
  "enc_point p = JObj [(''slot'', enc_word (bp_BlockSlot p)), (''hash'', enc_hash (bp_BlockHash p))]"

definition dec_point :: "json \<Rightarrow> BlockPoint result" where
  "dec_point j =
     rbind (dec_obj j) (\<lambda>fs.
     rbind (dec_word (json_member fs ''slot'')) (\<lambda>s.
     rbind (dec_hash (json_member fs ''hash'')) (\<lambda>h.
     Inr \<lparr>bp_BlockSlot = s, bp_BlockHash = h\<rparr>)))"

definition enc_token :: "TokenAmount \<Rightarrow> json" where
  "enc_token t = JObj [(''polid'', enc_str (ta_PolicyID t)), (''name'', enc_str (ta_Name t)),
     (''amnt'', enc_word (ta_Amount t))]"

definition dec_token :: "json \<Rightarrow> TokenAmount result" where
  "dec_token j =
     rbind (dec_obj j) (\<lambda>fs.
     rbind (dec_str (json_member fs ''polid'')) (\<lambda>p.
     rbind (dec_str (json_member fs ''name'')) (\<lambda>n.
     rbind (dec_word (json_member fs ''amnt'')) (\<lambda>a.
     Inr \<lparr>ta_PolicyID = p, ta_Name = n, ta_Amount = a\<rparr>))))"

definition norm_token :: "TokenAmount \<Rightarrow> TokenAmount" where
  "norm_token t = t\<lparr>ta_PolicyID := utf8_sanitize (ta_PolicyID t), ta_Name := utf8_sanitize (ta_Name t)\<rparr>"

definition enc_output :: "TxOutput \<Rightarrow> json" where
  "enc_output t = JObj
     ([(''addr'', enc_str (to_Address t)), (''slot'', enc_word (to_Slot t)),
       (''amnt'', enc_word (to_Amount t))] @
      omit_empty ''datum'' (to_Datum t) (JBytes (to_Datum t)) @
      [(''datumHash'', enc_hash (to_DatumHash t)), (''used'', JBool (to_IsUsed t))] @
      omit_empty ''assets'' (to_Tokens t) (enc_list enc_token (to_Tokens t)))"

definition dec_output :: "json \<Rightarrow> TxOutput result" where
  "dec_output j =
     rbind (dec_obj j) (\<lambda>fs.
     rbind (dec_str (json_member fs ''addr'')) (\<lambda>a.
     rbind (dec_word (json_member fs ''slot'')) (\<lambda>s.
     rbind (dec_word (json_member fs ''amnt'')) (\<lambda>n.
     rbind (dec_bytes (json_member fs ''datum'')) (\<lambda>d.
     rbind (dec_hash (json_member fs ''datumHash'')) (\<lambda>h.
     rbind (dec_bool (json_member fs ''used'')) (\<lambda>u.
     rbind (dec_list dec_token (json_member fs ''assets'')) (\<lambda>ts.
     Inr \<lparr>to_Address = a, to_Slot = s, to_Amount = n, to_Datum = (case d of None \<Rightarrow> [] | Some bs \<Rightarrow> bs),
          to_DatumHash = h, to_IsUsed = u, to_Tokens = ts\<rparr>))))))))"

definition norm_output :: "TxOutput \<Rightarrow> TxOutput" where
  "norm_output t = t\<lparr>to_Address := utf8_sanitize (to_Address t), to_Tokens := map norm_token (to_Tokens t)\<rparr>"

definition enc_input :: "TxInput \<Rightarrow> json" where
  "enc_input i = JObj [(''id'', enc_hash (ti_Hash i)), (''ind'', enc_word (ti_Index i))]"

definition dec_input :: "json \<Rightarrow> TxInput result" where
  "dec_input j =
     rbind (dec_obj j) (\<lambda>fs.
     rbind (dec_hash (json_member fs ''id'')) (\<lambda>h.
     rbind (dec_word (json_member fs ''ind'')) (\<lambda>i.
     Inr \<lparr>ti_Hash = h, ti_Index = i\<rparr>)))"

definition enc_inout :: "TxInputOutput \<Rightarrow> json" where
  "enc_inout t = JObj [(''inp'', enc_input (tio_Input t)), (''out'', enc_output (tio_Output t))]"

definition dec_inout :: "json \<Rightarrow> TxInputOutput result" where
  "dec_inout j =
     rbind (dec_obj j) (\<lambda>fs.
     rbind (dec_input (json_member fs ''inp'')) (\<lambda>i.
     rbind (dec_output (json_member fs ''out'')) (\<lambda>out.
     Inr \<lparr>tio_Input = i, tio_Output = out\<rparr>)))"

definition norm_inout :: "TxInputOutput \<Rightarrow> TxInputOutput" where
  "norm_inout t = t\<lparr>tio_Output := norm_output (tio_Output t)\<rparr>"

definition enc_tx :: "Tx \<Rightarrow> json" where
  "enc_tx t = JObj
     ([(''slot'', enc_word (tx_BlockSlot t)), (''bhash'', enc_hash (tx_BlockHash t)),
       (''ind'', enc_word (tx_Indx t)), (''hash'', enc_hash (tx_Hash t))] @
      (case tx_Metadata t of None \<Rightarrow> [] | Some m \<Rightarrow> omit_empty ''metadata'' m (JBytes m)) @
      [(''inp'', enc_list enc_inout (tx_Inputs t)), (''out'', enc_list enc_output (tx_Outputs t)),
       (''fee'', enc_word (tx_Fee t)), (''valid'', JBool (tx_Valid t))])"

definition dec_tx :: "json \<Rightarrow> Tx result" where
  "dec_tx j =
     rbind (dec_obj j) (\<lambda>fs.
     rbind (dec_word (json_member fs ''slot'')) (\<lambda>s.
     rbind (dec_hash (json_member fs ''bhash'')) (\<lambda>bh.
     rbind (dec_word (json_member fs ''ind'')) (\<lambda>i.
     rbind (dec_hash (json_member fs ''hash'')) (\<lambda>h.
     rbind (dec_bytes (json_member fs ''metadata'')) (\<lambda>m.
     rbind (dec_list dec_inout (json_member fs ''inp'')) (\<lambda>inp.
     rbind (dec_list dec_output (json_member fs ''out'')) (\<lambda>out.
     rbind (dec_word (json_member fs ''fee'')) (\<lambda>fee.
     rbind (dec_bool (json_member fs ''valid'')) (\<lambda>v.
     Inr \<lparr>tx_BlockSlot = s, tx_BlockHash = bh, tx_Indx = i, tx_Hash = h, tx_Metadata = m,
          tx_Inputs = inp, tx_Outputs = out, tx_Fee = fee, tx_Valid = v\<rparr>))))))))))"

definition norm_tx :: "Tx \<Rightarrow> Tx" where
  "norm_tx t = t\<lparr>tx_Metadata := (if tx_Metadata t = Some [] then None else tx_Metadata t),
     tx_Inputs := map norm_inout (tx_Inputs t), tx_Outputs := map norm_output (tx_Outputs t)\<rparr>"

definition enc_block :: "CardanoBlock \<Rightarrow> json" where
  "enc_block b = JObj [(''slot'', enc_word (cb_Slot b)), (''hash'', enc_hash (cb_Hash b)),
     (''num'', enc_word (cb_Number b)), (''era'', enc_word (cb_EraID b)),
     (''txs'', enc_list enc_hash (cb_Txs b))]"

definition dec_block :: "json \<Rightarrow> CardanoBlock result" where
  "dec_block j =
     rbind (dec_obj j) (\<lambda>fs.
     rbind (dec_word (json_member fs ''slot'')) (\<lambda>s.
     rbind (dec_hash (json_member fs ''hash'')) (\<lambda>h.
     rbind (dec_word (json_member fs ''num'')) (\<lambda>n.
     rbind (dec_word (json_member fs ''era'')) (\<lambda>e.
     rbind (dec_list dec_hash (json_member fs ''txs'')) (\<lambda>ts.
     Inr \<lparr>cb_Slot = s, cb_Hash = h, cb_Number = n, cb_EraID = e, cb_Txs = ts\<rparr>))))))"

section \<open>Round trips\<close>

lemma dec_enc_hash [simp]: "dec_hash (enc_hash h) = Inr h"
  using word_codec.result_map_enc [of "hash_bytes h"]
  by (simp add: dec_hash_def enc_hash_def NewHashFromBytes_def HashSize_def)

interpretation hash_codec: json_codec enc_hash dec_hash id
  by unfold_locales simp_all

interpretation point_codec: json_codec enc_point dec_point id
  by unfold_locales (simp_all add: enc_point_def dec_point_def json_member_def)

interpretation token_codec: json_codec enc_token dec_token norm_token
  by unfold_locales (simp_all add: enc_token_def dec_token_def norm_token_def json_member_def)

interpretation output_codec: json_codec enc_output dec_output norm_output
proof unfold_locales
  fix x
  show "dec_output (enc_output x) = Inr (norm_output x)"
    by (cases "to_Datum x = []"; cases "to_Tokens x = []")
       (simp_all add: enc_output_def dec_output_def norm_output_def omit_empty_def json_member_def
         token_codec.dec_list_enc)
  show "norm_output (norm_output x) = norm_output x"
    using token_codec.map_norm_idem by (simp add: norm_output_def)
qed

interpretation input_codec: json_codec enc_input dec_input id
  by unfold_locales (simp_all add: enc_input_def dec_input_def json_member_def)

interpretation inout_codec: json_codec enc_inout dec_inout norm_inout
  by unfold_locales (simp_all add: enc_inout_def dec_inout_def norm_inout_def json_member_def
    input_codec.dec_enc output_codec.dec_enc output_codec.norm_idem)

interpretation tx_codec: json_codec enc_tx dec_tx norm_tx
proof unfold_locales
  fix x
  show "dec_tx (enc_tx x) = Inr (norm_tx x)"
    by (cases "tx_Metadata x"; cases "tx_Metadata x = Some []")
       (simp_all add: enc_tx_def dec_tx_def norm_tx_def omit_empty_def json_member_def
         inout_codec.dec_list_enc output_codec.dec_list_enc)
  show "norm_tx (norm_tx x) = norm_tx x"
    using inout_codec.map_norm_idem output_codec.map_norm_idem by (simp add: norm_tx_def)
qed

interpretation block_codec: json_codec enc_block dec_block id
  by unfold_locales (simp_all add: enc_block_def dec_block_def json_member_def hash_codec.dec_list_enc)

lemma norm_output_simps [simp]:
  "to_IsUsed (norm_output t) = to_IsUsed t" "to_Slot (norm_output t) = to_Slot t"
  "to_Amount (norm_output t) = to_Amount t" "to_Address (norm_output t) = utf8_sanitize (to_Address t)"
  "norm_output (t\<lparr>to_IsUsed := b\<rparr>) = (norm_output t)\<lparr>to_IsUsed := b\<rparr>"
  by (simp_all add: norm_output_def)

lemma norm_tx_simps [simp]:
  "tx_BlockSlot (norm_tx t) = tx_BlockSlot t" "tx_Indx (norm_tx t) = tx_Indx t"
  "tx_Hash (norm_tx t) = tx_Hash t" "tx_Key (norm_tx t) = tx_Key t"
  by (simp_all add: norm_tx_def tx_Key_def)

end
