(* ===== verification/Indexer_DB.thy ===== *)
theory Indexer_DB
  imports Json_Codec
begin

text \<open>
  The database interface of the block indexer (\<open>indexer/database.go\<close>): the queued
  operations of a \<open>DBTransactionWriter\<close>, the methods a \<open>BlockIndexer\<close> calls as a record
  of functions, the abstract store an implementation keeps, and the contract between the
  two as the locale \<open>indexer_db\<close>.
\<close>

section \<open>The transaction writer\<close>

text \<open>The closures a writer queues, named by the method that queues them.\<close>

datatype writer_op =
    OpSetLatestBlockPoint BlockPoint
  | OpAddTxOutputs "TxInputOutput list"
  | OpAddConfirmedBlock CardanoBlock
  | OpAddConfirmedTxs "Tx list"
  | OpRemoveTxOutputs "TxInput list" bool
  | OpDeleteAllTxOutputsPhysically

type_synonym DBTransactionWriter = "writer_op list"

definition OpenTx :: DBTransactionWriter where
  "OpenTx = []"

definition SetLatestBlockPoint :: "DBTransactionWriter \<Rightarrow> BlockPoint \<Rightarrow> DBTransactionWriter" where
  "SetLatestBlockPoint tw p = tw @ [OpSetLatestBlockPoint p]"

definition AddTxOutputs :: "DBTransactionWriter \<Rightarrow> TxInputOutput list \<Rightarrow> DBTransactionWriter" where
  "AddTxOutputs tw ios = (if length ios = 0 then tw else tw @ [OpAddTxOutputs ios])"

definition AddConfirmedBlock :: "DBTransactionWriter \<Rightarrow> CardanoBlock \<Rightarrow> DBTransactionWriter" where
  "AddConfirmedBlock tw b = tw @ [OpAddConfirmedBlock b]"

definition AddConfirmedTxs :: "DBTransactionWriter \<Rightarrow> Tx list \<Rightarrow> DBTransactionWriter" where
  "AddConfirmedTxs tw txs = (if length txs = 0 then tw else tw @ [OpAddConfirmedTxs txs])"

definition RemoveTxOutputs :: "DBTransactionWriter \<Rightarrow> TxInput list \<Rightarrow> bool \<Rightarrow> DBTransactionWriter" where
  "RemoveTxOutputs tw is soft = (if length is = 0 then tw else tw @ [OpRemoveTxOutputs is soft])"

definition DeleteAllTxOutputsPhysically :: "DBTransactionWriter \<Rightarrow> DBTransactionWriter" where
  "DeleteAllTxOutputsPhysically tw = tw @ [OpDeleteAllTxOutputsPhysically]"

section \<open>The interface\<close>

text \<open>
  \<open>BlockIndexerDB\<close>. \<open>Execute\<close> runs the queued operations of a writer on the database
  and returns the new database and the error, if there is one.
\<close>

record 'db BlockIndexerDB =
  db_GetTxOutput :: "'db \<Rightarrow> TxInput \<Rightarrow> TxOutput result"
  db_GetLatestBlockPoint :: "'db \<Rightarrow> BlockPoint option result"
  db_Execute :: "'db \<Rightarrow> DBTransactionWriter \<Rightarrow> 'db \<times> goerror option"

section \<open>The abstract store\<close>

text \<open>What a database holds, as maps: the specification the implementations refine.\<close>

record chain_store =
  cs_point :: "BlockPoint option"
  cs_outputs :: "TxInput \<Rightarrow> TxOutput option"
  cs_blocks :: "u64 \<Rightarrow> CardanoBlock option"
  cs_unprocessed :: "u64 \<times> u32 \<Rightarrow> Tx option"
  cs_processed :: "u64 \<times> u32 \<Rightarrow> Tx option"

definition tx_id :: "Tx \<Rightarrow> u64 \<times> u32" where
  "tx_id t = (tx_BlockSlot t, tx_Indx t)"

definition put_outputs :: "(TxInput \<Rightarrow> TxOutput option) \<Rightarrow> TxInputOutput list \<Rightarrow> TxInput \<Rightarrow> TxOutput option" where
  "put_outputs m ios = foldl (\<lambda>m io. m(tio_Input io \<mapsto> norm_output (tio_Output io))) m ios"

definition put_txs :: "(u64 \<times> u32 \<Rightarrow> Tx option) \<Rightarrow> Tx list \<Rightarrow> u64 \<times> u32 \<Rightarrow> Tx option" where
  "put_txs m txs = foldl (\<lambda>m t. m(tx_id t \<mapsto> norm_tx t)) m txs"

definition spend_output :: "bool \<Rightarrow> (TxInput \<Rightarrow> TxOutput option) \<Rightarrow> TxInput \<Rightarrow> TxInput \<Rightarrow> TxOutput option" where
  "spend_output soft m i =
     m(i := (if soft then map_option (to_IsUsed_update (\<lambda>_. True)) (m i) else None))"

definition spend_outputs :: "bool \<Rightarrow> (TxInput \<Rightarrow> TxOutput option) \<Rightarrow> TxInput list \<Rightarrow> TxInput \<Rightarrow> TxOutput option" where
  "spend_outputs soft m is = foldl (spend_output soft) m is"

fun store_op :: "chain_store \<Rightarrow> writer_op \<Rightarrow> chain_store" where
  "store_op s (OpSetLatestBlockPoint p) = s\<lparr>cs_point := Some p\<rparr>"
| "store_op s (OpAddTxOutputs ios) = s\<lparr>cs_outputs := put_outputs (cs_outputs s) ios\<rparr>"
| "store_op s (OpAddConfirmedBlock b) = s\<lparr>cs_blocks := (cs_blocks s)(cb_Slot b \<mapsto> b)\<rparr>"
| "store_op s (OpAddConfirmedTxs txs) = s\<lparr>cs_unprocessed := put_txs (cs_unprocessed s) txs\<rparr>"
| "store_op s (OpRemoveTxOutputs is soft) = s\<lparr>cs_outputs := spend_outputs soft (cs_outputs s) is\<rparr>"
| "store_op s OpDeleteAllTxOutputsPhysically = s\<lparr>cs_outputs := Map.empty\<rparr>"

definition store_ops :: "chain_store \<Rightarrow> DBTransactionWriter \<Rightarrow> chain_store" where
  "store_ops s ops = foldl store_op s ops"

definition store_output :: "chain_store \<Rightarrow> TxInput \<Rightarrow> TxOutput" where
  "store_output s i = (case cs_outputs s i of None \<Rightarrow> zero_TxOutput | Some t \<Rightarrow> t)"

section \<open>Facts about the store\<close>

lemma put_outputs_simps [simp]:
  "put_outputs m [] = m"
  "put_outputs m (io # ios) = put_outputs (m(tio_Input io \<mapsto> norm_output (tio_Output io))) ios"
  by (simp_all add: put_outputs_def)

lemma spend_outputs_simps [simp]:
  "spend_outputs soft m [] = m"
  "spend_outputs soft m (i # is) = spend_outputs soft (spend_output soft m i) is"
  by (simp_all add: spend_outputs_def)

lemma put_txs_simps [simp]:
  "put_txs m [] = m" "put_txs m (t # ts) = put_txs (m(tx_id t \<mapsto> norm_tx t)) ts"
  by (simp_all add: put_txs_def)

lemma store_ops_simps [simp]:
  "store_ops s [] = s" "store_ops s (op # ops) = store_ops (store_op s op) ops"
  "store_ops s (xs @ ys) = store_ops (store_ops s xs) ys"
  by (simp_all add: store_ops_def)

lemma put_outputs_other: "i \<notin> tio_Input ` set ios \<Longrightarrow> put_outputs m ios i = m i"
  by (induction ios arbitrary: m) auto

lemma put_outputs_in:
  "distinct (map tio_Input ios) \<Longrightarrow> io \<in> set ios \<Longrightarrow>
     put_outputs m ios (tio_Input io) = Some (norm_output (tio_Output io))"
proof (induction ios arbitrary: m)
  case (Cons x ios)
  then show ?case by (cases "io = x") (auto simp: put_outputs_other)
qed simp

lemma spend_outputs_hard: "spend_outputs False m is i = (if i \<in> set is then None else m i)"
  by (induction "is" arbitrary: m) (auto simp: spend_output_def)

lemma spend_outputs_soft:
  "spend_outputs True m is i =
     (if i \<in> set is then map_option (to_IsUsed_update (\<lambda>_. True)) (m i) else m i)"
  by (induction "is" arbitrary: m)
     (auto simp: spend_output_def option.map_comp comp_def)

lemma put_txs_other: "k \<notin> tx_id ` set txs \<Longrightarrow> put_txs m txs k = m k"
  by (induction txs arbitrary: m) auto

lemma put_txs_in:
  "distinct (map tx_id txs) \<Longrightarrow> t \<in> set txs \<Longrightarrow> put_txs m txs (tx_id t) = Some (norm_tx t)"
proof (induction txs arbitrary: m)
  case (Cons x txs)
  then show ?case by (cases "t = x") (auto simp: put_txs_other)
qed simp

lemma store_AddTxOutputs [simp]:
  "store_ops s (AddTxOutputs tw ios) =
     (store_ops s tw)\<lparr>cs_outputs := put_outputs (cs_outputs (store_ops s tw)) ios\<rparr>"
  by (simp add: AddTxOutputs_def)

lemma store_RemoveTxOutputs [simp]:
  "store_ops s (RemoveTxOutputs tw is soft) =
     (store_ops s tw)\<lparr>cs_outputs := spend_outputs soft (cs_outputs (store_ops s tw)) is\<rparr>"
  by (simp add: RemoveTxOutputs_def)

lemma store_AddConfirmedTxs [simp]:
  "store_ops s (AddConfirmedTxs tw txs) =
     (store_ops s tw)\<lparr>cs_unprocessed := put_txs (cs_unprocessed (store_ops s tw)) txs\<rparr>"
  by (simp add: AddConfirmedTxs_def)

lemma store_AddConfirmedBlock [simp]:
  "store_ops s (AddConfirmedBlock tw b) =
     (store_ops s tw)\<lparr>cs_blocks := (cs_blocks (store_ops s tw))(cb_Slot b \<mapsto> b)\<rparr>"
  by (simp add: AddConfirmedBlock_def)

lemma store_SetLatestBlockPoint [simp]:
  "store_ops s (SetLatestBlockPoint tw p) = (store_ops s tw)\<lparr>cs_point := Some p\<rparr>"
  by (simp add: SetLatestBlockPoint_def)

lemma store_DeleteAll [simp]:
  "store_ops s (DeleteAllTxOutputsPhysically tw) = (store_ops s tw)\<lparr>cs_outputs := Map.empty\<rparr>"
  by (simp add: DeleteAllTxOutputsPhysically_def)

lemma store_OpenTx [simp]: "store_ops s OpenTx = s"
  by (simp add: OpenTx_def)

section \<open>The contract\<close>

text \<open>
  A database \<open>d\<close> in a good state (\<open>inv d\<close>) reads and writes the store \<open>store d\<close>; a
  failing \<open>Execute\<close> leaves it as it was.
\<close>

locale indexer_db =
  fixes I :: "'db BlockIndexerDB"
    and inv :: "'db \<Rightarrow> bool"
    and store :: "'db \<Rightarrow> chain_store"
  assumes GetLatestBlockPoint_ok:
      "inv d \<Longrightarrow> db_GetLatestBlockPoint I d = Inr p \<Longrightarrow> p = cs_point (store d)"
    and GetTxOutput_ok:
      "inv d \<Longrightarrow> db_GetTxOutput I d i = Inr t \<Longrightarrow> t = store_output (store d) i"
    and Execute_ok:
      "inv d \<Longrightarrow> db_Execute I d ops = (d', None) \<Longrightarrow> inv d' \<and> store d' = store_ops (store d) ops"
    and Execute_err:
      "db_Execute I d ops = (d', Some e) \<Longrightarrow> d' = d"
begin

lemma Execute_cases:
  assumes "inv d" "db_Execute I d ops = (d', r)"
  obtains (ok) "r = None" "inv d'" "store d' = store_ops (store d) ops"
    | (err) e where "r = Some e" "d' = d"
  using assms Execute_ok Execute_err by (cases r) blast+

lemma Execute_inv: "inv d \<Longrightarrow> db_Execute I d ops = (d', r) \<Longrightarrow> inv d'"
  by (metis Execute_cases)

end

end
