(* ===== verification/Block_Indexer.thy ===== *)
theory Block_Indexer
  imports Circular_Queue Indexer_DB
begin

text \<open>
  The block indexer (\<open>indexer/block_indexer.go\<close>): the window of unconfirmed headers, the
  promotion of the oldest one when a child arrives at a full window, the extraction and
  storage of its transactions, and rollbacks. The database is used through the record of
  \<open>Indexer_DB\<close> (\<open>I\<close>); the retriever of block transactions and the handler of confirmed
  blocks are functions the caller supplies. The mutex makes the methods atomic.
\<close>

unbundle bit_operations_syntax

section \<open>Configuration and state\<close>

definition AddressCheckInputs :: int where
  "AddressCheckInputs = 1"

definition AddressCheckOutputs :: int where
  "AddressCheckOutputs = 2"

definition AddressCheckAll :: int where
  "AddressCheckAll = AddressCheckInputs OR AddressCheckOutputs"

record BlockIndexerConfig =
  cfg_StartingBlockPoint :: "BlockPoint option"
  cfg_ConfirmationBlockCount :: u64
  cfg_AddressesOfInterest :: "string list"
  cfg_KeepAllTxOutputsInDB :: bool
  cfg_AddressCheck :: int
  cfg_SoftDeleteUtxo :: bool
  cfg_KeepAllTxsHashesInBlock :: bool

type_synonym BlockTxsRetriever = "BlockHeader \<Rightarrow> Tx list result"
type_synonym 'db NewConfirmedBlockHandler = "'db \<Rightarrow> CardanoBlock \<Rightarrow> Tx list \<Rightarrow> 'db \<times> goerror option"

record 'db BlockIndexer =
  bi_config :: BlockIndexerConfig
  bi_latestBlockPoint :: "BlockPoint option"
  bi_unconfirmedBlocks :: "BlockHeader CircularQueue"
  bi_confirmedBlockHandler :: "'db NewConfirmedBlockHandler"
  bi_addressesOfInterest :: "string set"
  bi_db :: 'db

text \<open>\<open>int(config.ConfirmationBlockCount)\<close> is the signed reading of the same 64 bits.\<close>

definition NewBlockIndexer ::
  "BlockIndexerConfig \<Rightarrow> 'db NewConfirmedBlockHandler \<Rightarrow> 'db \<Rightarrow> 'db BlockIndexer option" where
  "NewBlockIndexer config handler db =
     (if cfg_AddressCheck config AND AddressCheckAll = 0 then None
      else Option.bind (NewCircularQueue zero_BlockHeader (sint (cfg_ConfirmationBlockCount config))) (\<lambda>q.
        Some \<lparr>bi_config = config, bi_latestBlockPoint = None, bi_unconfirmedBlocks = q,
          bi_confirmedBlockHandler = handler, bi_addressesOfInterest = set (cfg_AddressesOfInterest config), bi_db = db\<rparr>))"

definition AddNewAddressesOfInterest :: "'db BlockIndexer \<Rightarrow> string list \<Rightarrow> 'db BlockIndexer" where
  "AddNewAddressesOfInterest bi addresses =
     bi\<lparr>bi_addressesOfInterest := bi_addressesOfInterest bi \<union> set addresses\<rparr>"

section \<open>Rollback\<close>

definition header_at :: "BlockPoint \<Rightarrow> BlockHeader \<Rightarrow> bool" where
  "header_at p h \<longleftrightarrow> bh_Slot h = bp_BlockSlot p \<and> bh_Hash h = bp_BlockHash p"

definition point_text :: "BlockPoint \<Rightarrow> string" where
  "point_text p = ''('' @ itoa64 (bp_BlockSlot p) @ '', '' @ hash_String (bp_BlockHash p) @ '')''"

text \<open>A nil \<open>latestBlockPoint\<close> is dereferenced: the call panics.\<close>

definition RollBackward :: "'db BlockIndexer \<Rightarrow> BlockPoint \<Rightarrow> ('db BlockIndexer \<times> goerror option) option" where
  "RollBackward bi point =
     Option.bind (Find (header_at point) (bi_unconfirmedBlocks bi)) (\<lambda>indx.
     if indx \<noteq> -1
     then Some (bi\<lparr>bi_unconfirmedBlocks := SetCount (bi_unconfirmedBlocks bi) (indx + 1)\<rparr>, None)
     else
       (case bi_latestBlockPoint bi of
          None \<Rightarrow> None
        | Some latest \<Rightarrow>
            if bp_BlockSlot latest = bp_BlockSlot point \<and> bp_BlockHash latest = bp_BlockHash point
            then Some (bi\<lparr>bi_unconfirmedBlocks := SetCount (bi_unconfirmedBlocks bi) 0\<rparr>, None)
            else Some (bi, Some (ErrJoin [ErrBlockIndexerFatal,
              ErrMsg (''roll backward block not found. new = '' @ point_text point @
                '' vs latest = '' @ point_text latest)]))))"

section \<open>Transactions of interest\<close>

definition isTxOutputOfInterest :: "int \<Rightarrow> string set \<Rightarrow> Tx \<Rightarrow> bool" where
  "isTxOutputOfInterest check addrs t =
     (if check AND AddressCheckOutputs = 0 then False
      else \<exists>out \<in> set (tx_Outputs t). to_Address out \<in> addrs)"

definition isTxInputOfInterest :: "int \<Rightarrow> string set \<Rightarrow> Tx \<Rightarrow> bool" where
  "isTxInputOfInterest check addrs t =
     (if check AND AddressCheckInputs = 0 then False
      else \<exists>inp \<in> set (tx_Inputs t). to_Address (tio_Output inp) \<in> addrs)"

definition filterTxsOfInterest :: "int \<Rightarrow> string set \<Rightarrow> Tx list \<Rightarrow> Tx list" where
  "filterTxsOfInterest check addrs txs =
     (if addrs = {} then txs
      else filter (\<lambda>t. isTxInputOfInterest check addrs t \<or> isTxOutputOfInterest check addrs t) txs)"

text \<open>
  \<open>populateOutputsForEachInput\<close> fills in the output an input refers to, in place; here the
  filled transactions are returned. \<open>look\<close> is the lookup of an output.
\<close>

definition populate_input :: "(TxInput \<Rightarrow> TxOutput result) \<Rightarrow> TxInputOutput \<Rightarrow> TxInputOutput result" where
  "populate_input look inp =
     (if to_Address (tio_Output inp) \<noteq> '''' then Inr inp
      else rbind (look (tio_Input inp)) (\<lambda>out. Inr (inp\<lparr>tio_Output := out\<rparr>)))"

definition populateOutputsForEachInput :: "(TxInput \<Rightarrow> TxOutput result) \<Rightarrow> Tx list \<Rightarrow> Tx list result" where
  "populateOutputsForEachInput look txs =
     result_map (\<lambda>t. rbind (result_map (populate_input look) (tx_Inputs t))
       (\<lambda>is. Inr (t\<lparr>tx_Inputs := is\<rparr>))) txs"

section \<open>Confirming a block\<close>

text \<open>What is written for a block whose transactions are populated.\<close>

definition confirmed_block :: "BlockIndexerConfig \<Rightarrow> string set \<Rightarrow> BlockHeader \<Rightarrow> Tx list \<Rightarrow> CardanoBlock" where
  "confirmed_block cfg addrs h txs =
     ToCardanoBlock h (getTxHashes (if cfg_KeepAllTxsHashesInBlock cfg then txs
       else filterTxsOfInterest (cfg_AddressCheck cfg) addrs txs))"

definition header_point :: "BlockHeader \<Rightarrow> BlockPoint" where
  "header_point h = \<lparr>bp_BlockSlot = bh_Slot h, bp_BlockHash = bh_Hash h\<rparr>"

definition outputs_to_save :: "BlockIndexerConfig \<Rightarrow> string set \<Rightarrow> Tx list \<Rightarrow> TxInputOutput list" where
  "outputs_to_save cfg addrs txs =
     (if cfg_KeepAllTxOutputsInDB cfg then getTxOutputs txs {}
      else getTxOutputs (filterTxsOfInterest (cfg_AddressCheck cfg) addrs txs) addrs)"

definition outputs_to_remove :: "BlockIndexerConfig \<Rightarrow> string set \<Rightarrow> Tx list \<Rightarrow> TxInput list" where
  "outputs_to_remove cfg addrs txs =
     (if cfg_KeepAllTxOutputsInDB cfg then getTxInputs txs {}
      else getTxInputs (filterTxsOfInterest (cfg_AddressCheck cfg) addrs txs) addrs)"

definition block_writer :: "BlockIndexerConfig \<Rightarrow> string set \<Rightarrow> BlockHeader \<Rightarrow> Tx list \<Rightarrow> DBTransactionWriter" where
  "block_writer cfg addrs h txs =
     (let relevantTxs = filterTxsOfInterest (cfg_AddressCheck cfg) addrs txs;
          dbTx = AddConfirmedTxs OpenTx relevantTxs;
          dbTx = AddConfirmedBlock dbTx (confirmed_block cfg addrs h txs);
          dbTx = SetLatestBlockPoint dbTx (header_point h)
      in RemoveTxOutputs (AddTxOutputs dbTx (outputs_to_save cfg addrs txs))
           (outputs_to_remove cfg addrs txs) (cfg_SoftDeleteUtxo cfg))"

definition processConfirmedBlock ::
  "'db BlockIndexerDB \<Rightarrow> 'db BlockIndexer \<Rightarrow> BlockHeader \<Rightarrow> Tx list \<Rightarrow>
     'db \<times> (CardanoBlock \<times> Tx list \<times> BlockPoint) result"
where
  "processConfirmedBlock I bi h allTxs =
     (let cfg = bi_config bi; addrs = bi_addressesOfInterest bi; db = bi_db bi in
      case populateOutputsForEachInput (db_GetTxOutput I db) allTxs of
        Inl e \<Rightarrow> (db, Inl e)
      | Inr txs \<Rightarrow>
          (case db_Execute I db (block_writer cfg addrs h txs) of
             (db', Some e) \<Rightarrow> (db', Inl e)
           | (db', None) \<Rightarrow> (db', Inr (confirmed_block cfg addrs h txs,
               filterTxsOfInterest (cfg_AddressCheck cfg) addrs txs, header_point h))))"

definition RollForward ::
  "'db BlockIndexerDB \<Rightarrow> 'db BlockIndexer \<Rightarrow> BlockHeader \<Rightarrow>
     BlockTxsRetriever \<Rightarrow> ('db BlockIndexer \<times> goerror option) option"
where
  "RollForward I bi h getTxs =
     (let q = bi_unconfirmedBlocks bi in
      if \<not> IsFull q
      then Option.bind (Push q h) (\<lambda>(q', _). Some (bi\<lparr>bi_unconfirmedBlocks := q'\<rparr>, None))
      else Option.bind (Peek zero_BlockHeader q) (\<lambda>first.
        case getTxs first of
          Inl e \<Rightarrow> Some (bi, Some (ErrProcessConfirmedBlock e))
        | Inr txs \<Rightarrow>
            (case processConfirmedBlock I bi first txs of
               (db', Inl e) \<Rightarrow> Some (bi\<lparr>bi_db := db'\<rparr>, Some (ErrProcessConfirmedBlock e))
             | (db', Inr (blk, relevantTxs, point)) \<Rightarrow>
                 Option.bind (Pop zero_BlockHeader q) (\<lambda>(q1, _).
                 Option.bind (Push q1 h) (\<lambda>(q2, _).
                   (case bi_confirmedBlockHandler bi db' blk relevantTxs of
                      (db'', r) \<Rightarrow>
                        Some (bi\<lparr>bi_latestBlockPoint := Some point, bi_unconfirmedBlocks := q2,
                                 bi_db := db''\<rparr>, r)))))))"

definition Reset :: "'db BlockIndexerDB \<Rightarrow> 'db BlockIndexer \<Rightarrow> 'db BlockIndexer \<times> BlockPoint result" where
  "Reset I bi =
     (case db_GetLatestBlockPoint I (bi_db bi) of
        Inl e \<Rightarrow> (bi, Inl e)
      | Inr p \<Rightarrow>
          (let latestPoint = (case p of Some x \<Rightarrow> x
              | None \<Rightarrow> (case cfg_StartingBlockPoint (bi_config bi) of Some x \<Rightarrow> x
              | None \<Rightarrow> zero_BlockPoint))
           in (bi\<lparr>bi_latestBlockPoint := Some latestPoint,
                  bi_unconfirmedBlocks := SetCount (bi_unconfirmedBlocks bi) 0\<rparr>, Inr latestPoint)))"

end
