(* ===== verification/Bbolt_DB.thy ===== *)
theory Bbolt_DB
  imports Indexer_DB
begin

text \<open>
  The bbolt database (\<open>indexer/db/bbolt/bbolt.go\<close>, \<open>bbolt_txwriter.go\<close>). The library
  bbolt itself is a parameter: a record of the bucket operations the code calls, on a
  bucket type of the library's own, with its documented behaviour as the predicate
  \<open>kv_laws\<close>. The model holds the five buckets, the writer's operations as the code
  performs them on the buckets, and the read transactions with their cursors.
\<close>

section \<open>The library's operations\<close>

text \<open>
  \<open>kv_first\<close> is what a cursor visits from \<open>First\<close> with \<open>Next\<close>, \<open>kv_last\<close> from \<open>Last\<close>
  with \<open>Prev\<close>, \<open>kv_seek\<close> from \<open>Seek\<close> with \<open>Next\<close>; \<open>kv_commit\<close> is the error of the
  commit that ends an \<open>Update\<close>, if there is one.
\<close>

record 'b kv_ops =
  kv_get :: "'b \<Rightarrow> bytes \<Rightarrow> json option"
  kv_put :: "'b \<Rightarrow> bytes \<Rightarrow> json \<Rightarrow> 'b result"
  kv_delete :: "'b \<Rightarrow> bytes \<Rightarrow> 'b result"
  kv_first :: "'b \<Rightarrow> (bytes \<times> json) list"
  kv_last :: "'b \<Rightarrow> (bytes \<times> json) list"
  kv_seek :: "'b \<Rightarrow> bytes \<Rightarrow> (bytes \<times> json) list"
  kv_delete_bucket :: "'b \<Rightarrow> goerror option"
  kv_create_bucket :: "'b result"
  kv_commit :: "'b list \<Rightarrow> goerror option"

text \<open>The errors of the library are its own: none is one of the indexer's.\<close>

definition foreign_error :: "goerror \<Rightarrow> bool" where
  "foreign_error e \<longleftrightarrow> \<not> err_is e ErrBlockIndexerFatal \<and> \<not> err_as_process e"

definition kv_laws :: "'b kv_ops \<Rightarrow> bool" where
  "kv_laws K \<longleftrightarrow>
     (\<forall>b k v b'. kv_put K b k v = Inr b' \<longrightarrow> kv_get K b' = (kv_get K b)(k \<mapsto> v)) \<and>
     (\<forall>b k b'. kv_delete K b k = Inr b' \<longrightarrow> kv_get K b' = (kv_get K b)(k := None)) \<and>
     (\<forall>b. sorted_wrt (<) (map fst (kv_first K b)) \<and> map_of (kv_first K b) = kv_get K b) \<and>
     (\<forall>b. kv_last K b = rev (kv_first K b)) \<and>
     (\<forall>b k. kv_seek K b k = dropWhile (\<lambda>e. fst e < k) (kv_first K b)) \<and>
     (\<forall>b. kv_create_bucket K = Inr b \<longrightarrow> kv_get K b = Map.empty) \<and>
     (\<forall>b k v e. kv_put K b k v = Inl e \<or> kv_delete K b k = Inl e \<longrightarrow> foreign_error e) \<and>
     (\<forall>bs e. kv_commit K bs = Some e \<longrightarrow> foreign_error e)"

section \<open>The database\<close>

record 'b bolt_buckets =
  txOutputsBucket :: 'b
  latestBlockPointBucket :: 'b
  processedTxsBucket :: 'b
  unprocessedTxsBucket :: 'b
  confirmedBlocks :: 'b

record 'b BBoltDatabase =
  bd_ops :: "'b kv_ops"
  bd_open :: bool
  bd_buckets :: "'b bolt_buckets"

definition defaultKey :: bytes where
  "defaultKey = str_bytes ''default''"

definition ErrDatabaseNotOpen :: goerror where
  "ErrDatabaseNotOpen = ErrMsg ''database not open''"

text \<open>\<open>db.View\<close> and \<open>db.Update\<close>: the latter keeps the old buckets unless it commits.\<close>

definition bolt_View :: "'b BBoltDatabase \<Rightarrow> ('b bolt_buckets \<Rightarrow> 'a result) \<Rightarrow> 'a result" where
  "bolt_View bd f = (if bd_open bd then f (bd_buckets bd) else Inl ErrDatabaseNotOpen)"

definition bolt_Update ::
  "'b BBoltDatabase \<Rightarrow> ('b bolt_buckets \<Rightarrow> 'b bolt_buckets result) \<Rightarrow> 'b BBoltDatabase \<times> goerror option"
where
  "bolt_Update bd f =
     (if \<not> bd_open bd then (bd, Some ErrDatabaseNotOpen)
      else case f (bd_buckets bd) of
        Inl e \<Rightarrow> (bd, Some e)
      | Inr b \<Rightarrow>
          (case kv_commit (bd_ops bd) [txOutputsBucket b, latestBlockPointBucket b,
                 processedTxsBucket b, unprocessedTxsBucket b, confirmedBlocks b] of
             Some e \<Rightarrow> (bd, Some e)
           | None \<Rightarrow> (bd\<lparr>bd_buckets := b\<rparr>, None)))"

text \<open>\<open>Init\<close>: opens the file (\<open>opened\<close>: its buckets by name) and creates what is missing.\<close>

definition bucket_names :: "string list" where
  "bucket_names = [''TXOuts'', ''LatestBlockPoint'', ''ProcessedTxs'', ''UnprocessedTxs'', ''confirmedBlocks'']"

fun init_buckets :: "'b kv_ops \<Rightarrow> string list \<Rightarrow> (string \<Rightarrow> 'b option) \<Rightarrow> (string \<Rightarrow> 'b option) result" where
  "init_buckets K [] m = Inr m"
| "init_buckets K (bn # bns) m =
     (case m bn of
        Some _ \<Rightarrow> init_buckets K bns m
      | None \<Rightarrow>
          (case kv_create_bucket K of
             Inl e \<Rightarrow> Inl (ErrWrap (''could not create bucket '' @ bn @ '': '') e '''')
           | Inr b \<Rightarrow> init_buckets K bns (m(bn \<mapsto> b))))"

definition bolt_Init ::
  "'b kv_ops \<Rightarrow> (string \<Rightarrow> 'b option) result \<Rightarrow> 'b BBoltDatabase result"
where
  "bolt_Init K opened =
     (case opened of
        Inl e \<Rightarrow> Inl (ErrWrap ''could not open db: '' e '''')
      | Inr m \<Rightarrow> rbind (init_buckets K bucket_names m) (\<lambda>m.
          case map m bucket_names of
            [Some o1, Some o2, Some o3, Some o4, Some o5] \<Rightarrow>
              (case kv_commit K [o1, o2, o3, o4, o5] of
                 Some e \<Rightarrow> Inl e
               | None \<Rightarrow> Inr \<lparr>bd_ops = K, bd_open = True, bd_buckets =
                   \<lparr>txOutputsBucket = o1, latestBlockPointBucket = o2, processedTxsBucket = o3,
                    unprocessedTxsBucket = o4, confirmedBlocks = o5\<rparr>\<rparr>)
          | _ \<Rightarrow> Inl (ErrMsg ''bucket not found'')))"

definition bolt_Close :: "'b BBoltDatabase \<Rightarrow> 'b BBoltDatabase" where
  "bolt_Close bd = bd\<lparr>bd_open := False\<rparr>"

section \<open>Reading\<close>

text \<open>\<open>json.Unmarshal\<close> into a nil pointer: \<open>null\<close> leaves it nil.\<close>

definition dec_point_ptr :: "json \<Rightarrow> BlockPoint option result" where
  "dec_point_ptr j = (if j = JNull then Inr None else rbind (dec_point j) (\<lambda>p. Inr (Some p)))"

definition bolt_GetLatestBlockPoint :: "'b BBoltDatabase \<Rightarrow> BlockPoint option result" where
  "bolt_GetLatestBlockPoint bd = bolt_View bd (\<lambda>tx.
     case kv_get (bd_ops bd) (latestBlockPointBucket tx) defaultKey of
       Some data \<Rightarrow> dec_point_ptr data
     | None \<Rightarrow> Inr None)"

definition bolt_GetTxOutput :: "'b BBoltDatabase \<Rightarrow> TxInput \<Rightarrow> TxOutput result" where
  "bolt_GetTxOutput bd i = bolt_View bd (\<lambda>tx.
     case kv_get (bd_ops bd) (txOutputsBucket tx) (input_Key i) of
       Some data \<Rightarrow> dec_output data
     | None \<Rightarrow> Inr zero_TxOutput)"

text \<open>
  Into \<open>*core.Tx\<close> and \<open>*core.CardanoBlock\<close>; a \<open>null\<close>, which no writer stores, counts
  as unreadable in the model.
\<close>

definition non_null :: "(json \<Rightarrow> 'a result) \<Rightarrow> json \<Rightarrow> 'a result" where
  "non_null dec j = (if j = JNull then Inl json_type_error else dec j)"

text \<open>The cursor loops that collect at most \<open>maxCnt\<close> values, or all when it is not positive.\<close>

fun cursor_loop :: "(json \<Rightarrow> 'a result) \<Rightarrow> int \<Rightarrow> (bytes \<times> json) list \<Rightarrow> 'a list \<Rightarrow> 'a list result" where
  "cursor_loop dec maxCnt [] result = Inr result"
| "cursor_loop dec maxCnt ((k, v) # rest) result =
     (case dec v of
        Inl e \<Rightarrow> Inl e
      | Inr x \<Rightarrow>
          (let result = result @ [x] in
           if 0 < maxCnt \<and> int (length result) = maxCnt then Inr result
           else cursor_loop dec maxCnt rest result))"

definition bolt_GetUnprocessedConfirmedTxs :: "'b BBoltDatabase \<Rightarrow> int \<Rightarrow> Tx list result" where
  "bolt_GetUnprocessedConfirmedTxs bd maxCnt = bolt_View bd (\<lambda>tx.
     cursor_loop (non_null dec_tx) maxCnt (kv_first (bd_ops bd) (unprocessedTxsBucket tx)) [])"

definition bolt_GetLatestConfirmedBlocks :: "'b BBoltDatabase \<Rightarrow> int \<Rightarrow> CardanoBlock list result" where
  "bolt_GetLatestConfirmedBlocks bd maxCnt = bolt_View bd (\<lambda>tx.
     cursor_loop (non_null dec_block) maxCnt (kv_last (bd_ops bd) (confirmedBlocks tx)) [])"

definition bolt_GetConfirmedBlocksFrom ::
  "'b BBoltDatabase \<Rightarrow> u64 \<Rightarrow> int \<Rightarrow> CardanoBlock list result" where
  "bolt_GetConfirmedBlocksFrom bd slot maxCnt = bolt_View bd (\<lambda>tx.
     cursor_loop (non_null dec_block) maxCnt
       (kv_seek (bd_ops bd) (confirmedBlocks tx) (SlotNumberToKey slot)) [])"

fun outputs_loop ::
  "string \<Rightarrow> bool \<Rightarrow> (bytes \<times> json) list \<Rightarrow> TxInputOutput list \<Rightarrow> TxInputOutput list result"
where
  "outputs_loop address onlyNotUsed [] result = Inr result"
| "outputs_loop address onlyNotUsed ((k, v) # rest) result =
     (case dec_output v of
        Inl e \<Rightarrow> Inl e
      | Inr out \<Rightarrow>
          if to_Address out \<noteq> address \<or> (onlyNotUsed \<and> to_IsUsed out)
          then outputs_loop address onlyNotUsed rest result
          else
            (case input_Set k of
               Inl e \<Rightarrow> Inl e
             | Inr i \<Rightarrow> outputs_loop address onlyNotUsed rest
                 (result @ [\<lparr>tio_Input = i, tio_Output = out\<rparr>])))"

definition bolt_GetAllTxOutputs :: "'b BBoltDatabase \<Rightarrow> string \<Rightarrow> bool \<Rightarrow> TxInputOutput list result" where
  "bolt_GetAllTxOutputs bd address onlyNotUsed =
     rbind (bolt_View bd (\<lambda>tx.
        outputs_loop address onlyNotUsed (kv_first (bd_ops bd) (txOutputsBucket tx)) []))
       (\<lambda>result. Inr (SortTxInputOutputs result))"

section \<open>Writing\<close>

text \<open>A write loop over the elements of a list, on one bucket, stopping at the first error.\<close>

fun bucket_fold :: "('a \<Rightarrow> 'b \<Rightarrow> 'b result) \<Rightarrow> 'a list \<Rightarrow> 'b \<Rightarrow> 'b result" where
  "bucket_fold f [] b = Inr b"
| "bucket_fold f (x # xs) b = rbind (f x b) (bucket_fold f xs)"

definition wrap_err :: "string \<Rightarrow> 'a result \<Rightarrow> 'a result" where
  "wrap_err m r = (case r of Inl e \<Rightarrow> Inl (ErrWrap (m @ '': '') e '''') | Inr x \<Rightarrow> Inr x)"

definition write_point :: "'b kv_ops \<Rightarrow> BlockPoint \<Rightarrow> 'b \<Rightarrow> 'b result" where
  "write_point K p b = wrap_err ''latest block point write error'' (kv_put K b defaultKey (enc_point p))"

definition write_output :: "'b kv_ops \<Rightarrow> TxInputOutput \<Rightarrow> 'b \<Rightarrow> 'b result" where
  "write_output K io b = wrap_err ''tx output write error''
     (kv_put K b (input_Key (tio_Input io)) (enc_output (tio_Output io)))"

definition write_block :: "'b kv_ops \<Rightarrow> CardanoBlock \<Rightarrow> 'b \<Rightarrow> 'b result" where
  "write_block K blk b = wrap_err ''confirmed block write error'' (kv_put K b (block_Key blk) (enc_block blk))"

definition write_tx :: "'b kv_ops \<Rightarrow> Tx \<Rightarrow> 'b \<Rightarrow> 'b result" where
  "write_tx K t b = wrap_err ''confirmed tx write error'' (kv_put K b (tx_Key t) (enc_tx t))"

definition remove_output :: "'b kv_ops \<Rightarrow> bool \<Rightarrow> TxInput \<Rightarrow> 'b \<Rightarrow> 'b result" where
  "remove_output K soft i b =
     (let key = input_Key i in
      if \<not> soft then wrap_err ''delete utxo error'' (kv_delete K b key)
      else case kv_get K b key of
        None \<Rightarrow> Inr b
      | Some data \<Rightarrow>
          rbind (wrap_err ''soft delete unmarshal utxo error'' (dec_output data)) (\<lambda>out.
            wrap_err ''soft delete put utxo error'' (kv_put K b key (enc_output (out\<lparr>to_IsUsed := True\<rparr>)))))"

definition recreate_bucket :: "'b kv_ops \<Rightarrow> 'b \<Rightarrow> 'b result" where
  "recreate_bucket K b = (case kv_delete_bucket K b of Some e \<Rightarrow> Inl e | None \<Rightarrow> kv_create_bucket K)"

fun bolt_op :: "'b kv_ops \<Rightarrow> writer_op \<Rightarrow> 'b bolt_buckets \<Rightarrow> 'b bolt_buckets result" where
  "bolt_op K (OpSetLatestBlockPoint p) tx =
     rbind (write_point K p (latestBlockPointBucket tx)) (\<lambda>b. Inr (tx\<lparr>latestBlockPointBucket := b\<rparr>))"
| "bolt_op K (OpAddTxOutputs ios) tx =
     rbind (bucket_fold (write_output K) ios (txOutputsBucket tx)) (\<lambda>b. Inr (tx\<lparr>txOutputsBucket := b\<rparr>))"
| "bolt_op K (OpAddConfirmedBlock blk) tx =
     rbind (write_block K blk (confirmedBlocks tx)) (\<lambda>b. Inr (tx\<lparr>confirmedBlocks := b\<rparr>))"
| "bolt_op K (OpAddConfirmedTxs txs) tx =
     rbind (bucket_fold (write_tx K) txs (unprocessedTxsBucket tx)) (\<lambda>b. Inr (tx\<lparr>unprocessedTxsBucket := b\<rparr>))"
| "bolt_op K (OpRemoveTxOutputs is soft) tx =
     rbind (bucket_fold (remove_output K soft) is (txOutputsBucket tx)) (\<lambda>b. Inr (tx\<lparr>txOutputsBucket := b\<rparr>))"
| "bolt_op K OpDeleteAllTxOutputsPhysically tx =
     rbind (recreate_bucket K (txOutputsBucket tx)) (\<lambda>b. Inr (tx\<lparr>txOutputsBucket := b\<rparr>))"

fun bolt_op_loop :: "'b kv_ops \<Rightarrow> writer_op list \<Rightarrow> 'b bolt_buckets \<Rightarrow> 'b bolt_buckets result" where
  "bolt_op_loop K [] tx = Inr tx"
| "bolt_op_loop K (op # ops) tx = rbind (bolt_op K op tx) (bolt_op_loop K ops)"

definition bolt_Execute :: "'b BBoltDatabase \<Rightarrow> DBTransactionWriter \<Rightarrow> 'b BBoltDatabase \<times> goerror option" where
  "bolt_Execute bd ops = bolt_Update bd (bolt_op_loop (bd_ops bd) ops)"

text \<open>\<open>MarkConfirmedTxsProcessed\<close>: moves each transaction from one bucket to the other.\<close>

fun mark_loop :: "'b kv_ops \<Rightarrow> Tx list \<Rightarrow> 'b bolt_buckets \<Rightarrow> 'b bolt_buckets result" where
  "mark_loop K [] tx = Inr tx"
| "mark_loop K (t # ts) tx =
     rbind (wrap_err ''could not remove from unprocessed blocks''
       (kv_delete K (unprocessedTxsBucket tx) (tx_Key t))) (\<lambda>u.
     rbind (wrap_err ''could not move to processed blocks''
       (kv_put K (processedTxsBucket tx) (tx_Key t) (enc_tx t))) (\<lambda>p.
     mark_loop K ts (tx\<lparr>unprocessedTxsBucket := u, processedTxsBucket := p\<rparr>)))"

definition bolt_MarkConfirmedTxsProcessed ::
  "'b BBoltDatabase \<Rightarrow> Tx list \<Rightarrow> 'b BBoltDatabase \<times> goerror option" where
  "bolt_MarkConfirmedTxsProcessed bd txs = bolt_Update bd (mark_loop (bd_ops bd) txs)"

definition bolt_dict :: "'b BBoltDatabase BlockIndexerDB" where
  "bolt_dict = \<lparr>db_GetTxOutput = bolt_GetTxOutput, db_GetLatestBlockPoint = bolt_GetLatestBlockPoint,
     db_Execute = bolt_Execute\<rparr>"

section \<open>Buckets as maps\<close>

text \<open>
  A bucket whose keys are those of an index type and whose values are documents of a codec
  is a map from indices to values in normal form. \<open>fits i x\<close> is what the index says of
  the value stored under it.
\<close>

definition stored :: "(json \<Rightarrow> 'a result) \<Rightarrow> json option \<Rightarrow> 'a option" where
  "stored dec v = (case v of None \<Rightarrow> None | Some j \<Rightarrow> (case dec j of Inl _ \<Rightarrow> None | Inr x \<Rightarrow> Some x))"

locale bucket_codec = json_codec enc dec norm
  for enc :: "'a \<Rightarrow> json" and dec :: "json \<Rightarrow> 'a result" and norm :: "'a \<Rightarrow> 'a" +
  fixes key :: "'i \<Rightarrow> bytes" and fits :: "'i \<Rightarrow> 'a \<Rightarrow> bool"
  assumes key_inj: "key i = key j \<longleftrightarrow> i = j"
begin

definition bucket_ok :: "(bytes \<Rightarrow> json option) \<Rightarrow> bool" where
  "bucket_ok m \<longleftrightarrow>
     (\<forall>k j. m k = Some j \<longrightarrow> (\<exists>i x. k = key i \<and> dec j = Inr x \<and> norm x = x \<and> fits i x))"

definition bucket_map :: "(bytes \<Rightarrow> json option) \<Rightarrow> 'i \<Rightarrow> 'a option" where
  "bucket_map m i = stored dec (m (key i))"

lemma bucket_empty [simp]: "bucket_ok Map.empty" "bucket_map Map.empty = Map.empty"
  by (auto simp: bucket_ok_def bucket_map_def stored_def)

lemma bucket_get:
  assumes "bucket_ok m" "m (key i) = Some j"
  shows "\<exists>x. dec j = Inr x \<and> bucket_map m i = Some x \<and> norm x = x \<and> fits i x"
  using assms by (fastforce simp: bucket_ok_def bucket_map_def stored_def key_inj)

lemma bucket_put:
  assumes "bucket_ok m" "fits i (norm x)"
  shows "bucket_ok (m(key i \<mapsto> enc x))" "bucket_map (m(key i \<mapsto> enc x)) = (bucket_map m)(i \<mapsto> norm x)"
  using assms by (auto simp: bucket_ok_def bucket_map_def stored_def key_inj dec_enc norm_idem)

lemma bucket_del:
  assumes "bucket_ok m"
  shows "bucket_ok (m(key i := None))" "bucket_map (m(key i := None)) = (bucket_map m)(i := None)"
  using assms by (auto simp: bucket_ok_def bucket_map_def stored_def key_inj)

lemma bucket_map_None: "bucket_ok m \<Longrightarrow> m (key i) = None \<longleftrightarrow> bucket_map m i = None"
  by (cases "m (key i)") (auto simp: bucket_map_def stored_def dest: bucket_get)

text \<open>What a cursor visits, decoded: the pairs of the map, each once, in the order of the keys.\<close>

lemma bucket_listing:
  assumes ok: "bucket_ok m" and E: "map_of E = m" "distinct (map fst E)"
  obtains ps where "map fst E = map (key \<circ> fst) ps"
    "list_all2 (\<lambda>e p. dec (snd e) = Inr (snd p)) E ps"
    "\<forall>i x. bucket_map m i = Some x \<longleftrightarrow> (i, x) \<in> set ps" "\<forall>p \<in> set ps. fits (fst p) (snd p)"
proof -
  have el: "\<exists>p. fst e = key (fst p) \<and> dec (snd e) = Inr (snd p) \<and> fits (fst p) (snd p)" if "e \<in> set E" for e
  proof -
    have "m (fst e) = Some (snd e)" using that E by (metis map_of_is_SomeI prod.collapse)
    with ok show ?thesis unfolding bucket_ok_def by fastforce
  qed
  then obtain g where g: "\<And>e. e \<in> set E \<Longrightarrow>
      fst e = key (fst (g e)) \<and> dec (snd e) = Inr (snd (g e)) \<and> fits (fst (g e)) (snd (g e))"
    by metis
  show thesis
  proof (rule that [of "map g E"])
    show "map fst E = map (key \<circ> fst) (map g E)" using g by simp
    show "list_all2 (\<lambda>e p. dec (snd e) = Inr (snd p)) E (map g E)"
      using g by (simp add: list_all2_conv_all_nth)
    show "\<forall>p \<in> set (map g E). fits (fst p) (snd p)" using g by simp
    show "\<forall>i x. bucket_map m i = Some x \<longleftrightarrow> (i, x) \<in> set (map g E)"
    proof (intro allI iffI)
      fix i x assume a: "bucket_map m i = Some x"
      then obtain j where j: "m (key i) = Some j" "dec j = Inr x"
        by (auto simp: bucket_map_def stored_def split: option.splits sum.splits)
      then have "(key i, j) \<in> set E" using E by (metis map_of_SomeD)
      with g [OF this] j show "(i, x) \<in> set (map g E)"
        by (metis (no_types, lifting) Inr_inject fst_conv image_eqI key_inj list.set_map prod.collapse snd_conv)
    next
      fix i x assume "(i, x) \<in> set (map g E)"
      then obtain e where e: "e \<in> set E" "g e = (i, x)" by auto
      then have "m (key i) = Some (snd e)" using g [OF e(1)] E by (metis fst_conv map_of_is_SomeI prod.collapse)
      with g [OF e(1)] e(2) show "bucket_map m i = Some x" by (simp add: bucket_map_def stored_def)
    qed
  qed
qed

end

definition tx_id_key :: "u64 \<times> u32 \<Rightarrow> bytes" where
  "tx_id_key k = put_uint64 (fst k) @ put_uint32 (snd k)"

lemma tx_Key_id: "tx_Key t = tx_id_key (tx_id t)"
  by (simp add: tx_Key_def tx_id_key_def tx_id_def)

lemma tx_id_norm [simp]: "tx_id (norm_tx t) = tx_id t"
  by (simp add: tx_id_def)

lemma block_Key_slot: "block_Key b = SlotNumberToKey (cb_Slot b)"
  by (simp add: block_Key_def)

lemma enc_not_null: "enc_point p \<noteq> JNull" "enc_block b \<noteq> JNull" "enc_tx t \<noteq> JNull"
  by (simp_all add: enc_point_def enc_block_def enc_tx_def)

interpretation outputs: bucket_codec enc_output dec_output norm_output input_Key "\<lambda>i t. True"
  by unfold_locales simp

interpretation points: bucket_codec enc_point "non_null dec_point" id "\<lambda>u :: unit. defaultKey" "\<lambda>i p. True"
  by unfold_locales (simp_all add: non_null_def enc_not_null point_codec.dec_enc)

interpretation blocks: bucket_codec enc_block "non_null dec_block" id SlotNumberToKey "\<lambda>s b. cb_Slot b = s"
  by unfold_locales (simp_all add: SlotNumberToKey_def non_null_def enc_not_null block_codec.dec_enc)

interpretation txs: bucket_codec enc_tx "non_null dec_tx" norm_tx tx_id_key "\<lambda>k t. tx_id t = k"
  by unfold_locales
     (auto simp: tx_id_key_def prod_eq_iff non_null_def enc_not_null tx_codec.dec_enc tx_codec.norm_idem)

section \<open>The store and the invariant\<close>

definition bolt_store :: "'b BBoltDatabase \<Rightarrow> chain_store" where
  "bolt_store bd = (let get = kv_get (bd_ops bd); b = bd_buckets bd in
     \<lparr>cs_point = points.bucket_map (get (latestBlockPointBucket b)) (),
      cs_outputs = outputs.bucket_map (get (txOutputsBucket b)),
      cs_blocks = blocks.bucket_map (get (confirmedBlocks b)),
      cs_unprocessed = txs.bucket_map (get (unprocessedTxsBucket b)),
      cs_processed = txs.bucket_map (get (processedTxsBucket b))\<rparr>)"

definition buckets_ok :: "'b kv_ops \<Rightarrow> 'b bolt_buckets \<Rightarrow> bool" where
  "buckets_ok K b \<longleftrightarrow>
     points.bucket_ok (kv_get K (latestBlockPointBucket b)) \<and>
     outputs.bucket_ok (kv_get K (txOutputsBucket b)) \<and>
     blocks.bucket_ok (kv_get K (confirmedBlocks b)) \<and>
     txs.bucket_ok (kv_get K (unprocessedTxsBucket b)) \<and>
     txs.bucket_ok (kv_get K (processedTxsBucket b))"

definition bolt_inv :: "'b BBoltDatabase \<Rightarrow> bool" where
  "bolt_inv bd \<longleftrightarrow> kv_laws (bd_ops bd) \<and> buckets_ok (bd_ops bd) (bd_buckets bd)"

definition buckets_store :: "'b kv_ops \<Rightarrow> 'b bolt_buckets \<Rightarrow> chain_store" where
  "buckets_store K b = bolt_store \<lparr>bd_ops = K, bd_open = True, bd_buckets = b\<rparr>"

lemma bolt_store_buckets: "bolt_store bd = buckets_store (bd_ops bd) (bd_buckets bd)"
  by (simp add: buckets_store_def bolt_store_def)

lemmas bolt_views = buckets_ok_def buckets_store_def bolt_store_def Let_def

lemma kv_put_law: "kv_laws K \<Longrightarrow> kv_put K b k v = Inr b' \<Longrightarrow> kv_get K b' = (kv_get K b)(k \<mapsto> v)"
  and kv_delete_law: "kv_laws K \<Longrightarrow> kv_delete K b k = Inr b' \<Longrightarrow> kv_get K b' = (kv_get K b)(k := None)"
  and kv_first_law: "kv_laws K \<Longrightarrow> sorted_wrt (<) (map fst (kv_first K b)) \<and> map_of (kv_first K b) = kv_get K b"
  and kv_last_law: "kv_laws K \<Longrightarrow> kv_last K b = rev (kv_first K b)"
  and kv_seek_law: "kv_laws K \<Longrightarrow> kv_seek K b k = dropWhile (\<lambda>e. fst e < k) (kv_first K b)"
  and kv_create_law: "kv_laws K \<Longrightarrow> kv_create_bucket K = Inr b \<Longrightarrow> kv_get K b = Map.empty"
  and kv_error_laws: "kv_laws K \<Longrightarrow> kv_put K b k v = Inl e \<Longrightarrow> foreign_error e"
    "kv_laws K \<Longrightarrow> kv_delete K b k = Inl e \<Longrightarrow> foreign_error e" "kv_laws K \<Longrightarrow> kv_commit K bs = Some e \<Longrightarrow> foreign_error e"
  unfolding kv_laws_def by blast+

lemma wrap_err_Inr [simp]: "wrap_err m r = Inr x \<longleftrightarrow> r = Inr x"
  by (auto simp: wrap_err_def split: sum.splits)

subsection \<open>The writes\<close>

text \<open>One write loop, from the effect of one step on the bucket's map.\<close>

lemma bucket_fold_ok:
  assumes step: "\<And>x b b'. ok b \<Longrightarrow> f x b = Inr b' \<Longrightarrow> ok b' \<and> view b' = g (view b) x"
    and "ok b" "bucket_fold f xs b = Inr b'"
  shows "ok b' \<and> view b' = foldl g (view b) xs"
  using assms(2,3)
proof (induction xs arbitrary: b)
  case (Cons x xs)
  then obtain b1 where b1: "f x b = Inr b1" "bucket_fold f xs b1 = Inr b'" by (auto simp: rbind_eq_Inr)
  from step [OF Cons.prems(1) b1(1)] Cons.IH [OF _ b1(2)] show ?case by simp
qed simp

lemma write_output_ok:
  assumes "kv_laws K" "outputs.bucket_ok (kv_get K b)" "write_output K io b = Inr b'"
  shows "outputs.bucket_ok (kv_get K b') \<and>
    outputs.bucket_map (kv_get K b') = (outputs.bucket_map (kv_get K b))(tio_Input io \<mapsto> norm_output (tio_Output io))"
  using assms kv_put_law [of K b] by (simp add: write_output_def outputs.bucket_put)

lemma write_tx_ok:
  assumes "kv_laws K" "txs.bucket_ok (kv_get K b)" "kv_put K b (tx_Key t) (enc_tx t) = Inr b'"
  shows "txs.bucket_ok (kv_get K b') \<and>
    txs.bucket_map (kv_get K b') = (txs.bucket_map (kv_get K b))(tx_id t \<mapsto> norm_tx t)"
  using assms kv_put_law [of K b]
  by (simp add: tx_Key_id txs.bucket_put)

lemma remove_output_ok:
  assumes K: "kv_laws K" and ok: "outputs.bucket_ok (kv_get K b)" and r: "remove_output K soft i b = Inr b'"
  shows "outputs.bucket_ok (kv_get K b') \<and>
    outputs.bucket_map (kv_get K b') = spend_output soft (outputs.bucket_map (kv_get K b)) i"
proof (cases soft)
  case False
  with r kv_delete_law [OF K] outputs.bucket_del [OF ok] show ?thesis
    by (simp add: remove_output_def spend_output_def)
next
  case True
  show ?thesis
  proof (cases "kv_get K b (input_Key i)")
    case None
    with True r ok show ?thesis
      using outputs.bucket_map_None [OF ok, of i]
      by (auto simp: remove_output_def spend_output_def)
  next
    case (Some j)
    from outputs.bucket_get [OF ok Some] obtain t where t: "dec_output j = Inr t"
      "outputs.bucket_map (kv_get K b) i = Some t" "norm_output t = t" by blast
    from True Some t r have "kv_put K b (input_Key i) (enc_output (t\<lparr>to_IsUsed := True\<rparr>)) = Inr b'"
      by (simp add: remove_output_def wrap_err_def split: sum.splits)
    from kv_put_law [OF K this] outputs.bucket_put [OF ok, of i "t\<lparr>to_IsUsed := True\<rparr>"] t True
    show ?thesis by (simp add: spend_output_def)
  qed
qed

lemma write_outputs_ok:
  assumes K: "kv_laws K" and "outputs.bucket_ok (kv_get K b)" "bucket_fold (write_output K) ios b = Inr b'"
  shows "outputs.bucket_ok (kv_get K b') \<and>
    outputs.bucket_map (kv_get K b') = put_outputs (outputs.bucket_map (kv_get K b)) ios"
  unfolding put_outputs_def using write_output_ok [OF K] assms(2,3) by (rule bucket_fold_ok)

lemma write_txs_ok:
  assumes K: "kv_laws K" and "txs.bucket_ok (kv_get K b)" "bucket_fold (write_tx K) ts b = Inr b'"
  shows "txs.bucket_ok (kv_get K b') \<and>
    txs.bucket_map (kv_get K b') = put_txs (txs.bucket_map (kv_get K b)) ts"
  unfolding put_txs_def using _ assms(2,3)
  by (rule bucket_fold_ok) (simp add: write_tx_def write_tx_ok [OF K])

lemma remove_outputs_ok:
  assumes K: "kv_laws K" and "outputs.bucket_ok (kv_get K b)" "bucket_fold (remove_output K soft) iss b = Inr b'"
  shows "outputs.bucket_ok (kv_get K b') \<and>
    outputs.bucket_map (kv_get K b') = spend_outputs soft (outputs.bucket_map (kv_get K b)) iss"
  unfolding spend_outputs_def using remove_output_ok [OF K] assms(2,3) by (rule bucket_fold_ok)

lemma bolt_op_ok:
  assumes K: "kv_laws K" and ok: "buckets_ok K tx" and r: "bolt_op K op tx = Inr tx'"
  shows "buckets_ok K tx' \<and> buckets_store K tx' = store_op (buckets_store K tx) op"
proof (cases op)
  case (OpSetLatestBlockPoint p)
  then obtain b where b: "write_point K p (latestBlockPointBucket tx) = Inr b" "tx' = tx\<lparr>latestBlockPointBucket := b\<rparr>"
    using r by (auto simp: rbind_eq_Inr)
  have "kv_get K b = (kv_get K (latestBlockPointBucket tx))(defaultKey \<mapsto> enc_point p)"
    using b(1) kv_put_law [OF K] by (simp add: write_point_def)
  with OpSetLatestBlockPoint b(2) ok show ?thesis
    using points.bucket_put [where m = "kv_get K (latestBlockPointBucket tx)" and x = p]
    by (simp add: bolt_views)
next
  case (OpAddTxOutputs ios)
  then obtain b where b: "bucket_fold (write_output K) ios (txOutputsBucket tx) = Inr b" "tx' = tx\<lparr>txOutputsBucket := b\<rparr>"
    using r by (auto simp: rbind_eq_Inr)
  with OpAddTxOutputs ok show ?thesis
    using write_outputs_ok [OF K _ b(1)]
    by (simp add: bolt_views)
next
  case (OpAddConfirmedBlock blk)
  then obtain b where b: "write_block K blk (confirmedBlocks tx) = Inr b" "tx' = tx\<lparr>confirmedBlocks := b\<rparr>"
    using r by (auto simp: rbind_eq_Inr)
  have "kv_get K b = (kv_get K (confirmedBlocks tx))(SlotNumberToKey (cb_Slot blk) \<mapsto> enc_block blk)"
    using b(1) kv_put_law [OF K] by (simp add: write_block_def block_Key_slot)
  with OpAddConfirmedBlock b(2) ok show ?thesis
    using blocks.bucket_put [where m = "kv_get K (confirmedBlocks tx)" and i = "cb_Slot blk" and x = blk]
    by (simp add: bolt_views)
next
  case (OpAddConfirmedTxs ts)
  then obtain b where b: "bucket_fold (write_tx K) ts (unprocessedTxsBucket tx) = Inr b" "tx' = tx\<lparr>unprocessedTxsBucket := b\<rparr>"
    using r by (auto simp: rbind_eq_Inr)
  with OpAddConfirmedTxs ok show ?thesis
    using write_txs_ok [OF K _ b(1)]
    by (simp add: bolt_views)
next
  case (OpRemoveTxOutputs iss soft)
  then obtain b where b: "bucket_fold (remove_output K soft) iss (txOutputsBucket tx) = Inr b" "tx' = tx\<lparr>txOutputsBucket := b\<rparr>"
    using r by (auto simp: rbind_eq_Inr)
  with OpRemoveTxOutputs ok show ?thesis
    using remove_outputs_ok [OF K _ b(1)]
    by (simp add: bolt_views)
next
  case OpDeleteAllTxOutputsPhysically
  then obtain b where b: "recreate_bucket K (txOutputsBucket tx) = Inr b" "tx' = tx\<lparr>txOutputsBucket := b\<rparr>"
    using r by (auto simp: rbind_eq_Inr)
  then have "kv_get K b = Map.empty"
    using kv_create_law [OF K] by (auto simp: recreate_bucket_def split: option.splits)
  with OpDeleteAllTxOutputsPhysically b(2) ok show ?thesis
    by (simp add: bolt_views)
qed

lemma bolt_op_loop_ok:
  assumes K: "kv_laws K" and "buckets_ok K tx" "bolt_op_loop K ops tx = Inr tx'"
  shows "buckets_ok K tx' \<and> buckets_store K tx' = store_ops (buckets_store K tx) ops"
  using assms(2,3)
proof (induction ops arbitrary: tx)
  case (Cons op ops)
  then obtain t1 where t1: "bolt_op K op tx = Inr t1" "bolt_op_loop K ops t1 = Inr tx'"
    by (auto simp: rbind_eq_Inr)
  from bolt_op_ok [OF K Cons.prems(1) t1(1)] Cons.IH [OF _ t1(2)] show ?case by simp
qed simp

text \<open>A write transaction either commits, with the effect of its body, or changes nothing.\<close>

lemma bolt_Update_cases:
  assumes "bolt_Update bd f = (bd', r)"
  shows "(\<exists>e. r = Some e \<and> bd' = bd) \<or>
    (r = None \<and> (\<exists>b. f (bd_buckets bd) = Inr b \<and> bd' = bd\<lparr>bd_buckets := b\<rparr>))"
proof (cases "bd_open bd")
  case True
  show ?thesis
  proof (cases "f (bd_buckets bd)")
    case (Inr b)
    with True assms show ?thesis
      by (cases "kv_commit (bd_ops bd) [txOutputsBucket b, latestBlockPointBucket b,
            processedTxsBucket b, unprocessedTxsBucket b, confirmedBlocks b]")
         (auto simp: bolt_Update_def)
  qed (use True assms in \<open>auto simp: bolt_Update_def\<close>)
qed (use assms in \<open>auto simp: bolt_Update_def\<close>)

lemma bolt_Execute_ok:
  assumes "bolt_inv bd" "bolt_Execute bd ops = (bd', None)"
  shows "bolt_inv bd' \<and> bolt_store bd' = store_ops (bolt_store bd) ops"
proof -
  obtain b where b: "bolt_op_loop (bd_ops bd) ops (bd_buckets bd) = Inr b" "bd' = bd\<lparr>bd_buckets := b\<rparr>"
    using bolt_Update_cases [OF assms(2) [unfolded bolt_Execute_def]] by auto
  with bolt_op_loop_ok [OF _ _ b(1)] assms(1) show ?thesis
    by (simp add: bolt_inv_def bolt_store_buckets)
qed

lemma bolt_Execute_err: "bolt_Execute bd ops = (bd', Some e) \<Longrightarrow> bd' = bd"
  unfolding bolt_Execute_def by (drule bolt_Update_cases) simp

lemma bolt_GetLatestBlockPoint_eq:
  assumes "bolt_inv bd"
  shows "bolt_GetLatestBlockPoint bd =
    (if bd_open bd then Inr (cs_point (bolt_store bd)) else Inl ErrDatabaseNotOpen)"
proof (cases "kv_get (bd_ops bd) (latestBlockPointBucket (bd_buckets bd)) defaultKey")
  case None
  then show ?thesis
    by (simp add: bolt_GetLatestBlockPoint_def bolt_View_def bolt_views points.bucket_map_def stored_def)
next
  case (Some j)
  have "points.bucket_ok (kv_get (bd_ops bd) (latestBlockPointBucket (bd_buckets bd)))"
    using assms by (simp add: bolt_inv_def buckets_ok_def)
  from points.bucket_get [OF this Some] obtain p where p: "non_null dec_point j = Inr p" by blast
  then have "dec_point_ptr j = Inr (Some p)" by (auto simp: non_null_def dec_point_ptr_def split: if_splits)
  with Some p show ?thesis
    by (simp add: bolt_GetLatestBlockPoint_def bolt_View_def bolt_views points.bucket_map_def stored_def)
qed

lemma bolt_GetTxOutput_eq:
  assumes "bolt_inv bd"
  shows "bolt_GetTxOutput bd i =
    (if bd_open bd then Inr (store_output (bolt_store bd) i) else Inl ErrDatabaseNotOpen)"
proof (cases "kv_get (bd_ops bd) (txOutputsBucket (bd_buckets bd)) (input_Key i)")
  case None
  then show ?thesis
    by (simp add: bolt_GetTxOutput_def bolt_View_def bolt_views store_output_def outputs.bucket_map_def stored_def)
next
  case (Some j)
  have "outputs.bucket_ok (kv_get (bd_ops bd) (txOutputsBucket (bd_buckets bd)))"
    using assms by (simp add: bolt_inv_def buckets_ok_def)
  from outputs.bucket_get [OF this Some] Some show ?thesis
    by (auto simp: bolt_GetTxOutput_def bolt_View_def bolt_views store_output_def)
qed

interpretation bolt: indexer_db bolt_dict bolt_inv bolt_store
  by unfold_locales
     (simp_all add: bolt_dict_def bolt_Execute_ok bolt_GetLatestBlockPoint_eq bolt_GetTxOutput_eq
        split: if_splits, erule bolt_Execute_err)

end
