(* ===== verification/Bbolt_Props.thy ===== *)
theory Bbolt_Props
  imports Bbolt_DB
begin

text \<open>
  What the bbolt database promises its callers: atomic write transactions, listings of
  blocks and transactions in the order of the chain, the unspent outputs of an address, and
  the move of processed transactions. The laws of the library are satisfiable: a sorted
  association list has them (\<open>alist_kv\<close>), and the witnesses run on it.
\<close>

section \<open>Listings\<close>

definition limit :: "int \<Rightarrow> 'a list \<Rightarrow> 'a list" where
  "limit n xs = (if 0 < n then take (nat n) xs else xs)"

lemma cursor_loop_ok:
  assumes "list_all2 (\<lambda>e x. dec (snd e) = Inr x) E xs" "0 < n \<longrightarrow> int (length acc) < n"
  shows "cursor_loop dec n E acc = Inr (limit n (acc @ xs))"
  using assms
proof (induction E xs arbitrary: acc rule: list_all2_induct)
  case Nil
  then show ?case by (auto simp: limit_def)
next
  case (Cons e E x xs)
  obtain k v where [simp]: "e = (k, v)" by (cases e)
  from Cons have d: "dec v = Inr x" by simp
  show ?case
  proof (cases "0 < n \<and> int (length (acc @ [x])) = n")
    case True
    then have "nat n = length (acc @ [x])" by linarith
    with True d show ?thesis by (simp add: limit_def Let_def)
  next
    case False
    then have "cursor_loop dec n (e # E) acc = cursor_loop dec n E (acc @ [x])"
      using d by (auto simp: Let_def)
    with False Cons.IH [of "acc @ [x]"] Cons.prems show ?thesis by fastforce
  qed
qed

text \<open>The blocks of a store, each once, by increasing slot.\<close>

definition block_list :: "chain_store \<Rightarrow> CardanoBlock list \<Rightarrow> bool" where
  "block_list s bs \<longleftrightarrow> sorted_wrt (\<lambda>a b. cb_Slot a < cb_Slot b) bs \<and>
     (\<forall>b. b \<in> set bs \<longleftrightarrow> cs_blocks s (cb_Slot b) = Some b)"

text \<open>The transactions of a map from (slot, index), each once, in the order of the chain.\<close>

definition tx_list :: "(u64 \<times> u32 \<Rightarrow> Tx option) \<Rightarrow> Tx list \<Rightarrow> bool" where
  "tx_list m ts \<longleftrightarrow> sorted_wrt (\<lambda>a b. tx_id a < tx_id b) ts \<and> (\<forall>t. t \<in> set ts \<longleftrightarrow> m (tx_id t) = Some t)"

lemma key_sorted:
  assumes "sorted_wrt (<) (map fst E)" "map fst E = map key xs" "\<And>a b. key a < key b \<longleftrightarrow> lt a b"
  shows "sorted_wrt lt xs"
  using assms by (simp add: sorted_wrt_map)

lemma snd_of_indexed:
  assumes "\<forall>p \<in> set ps. f (snd p) = fst p"
  shows "x \<in> set (map snd ps) \<longleftrightarrow> (f x, x) \<in> set ps"
proof
  assume "x \<in> set (map snd ps)"
  then obtain p where "p \<in> set ps" "x = snd p" by auto
  with assms show "(f x, x) \<in> set ps" by (metis prod.collapse)
next
  assume "(f x, x) \<in> set ps"
  then have "snd (f x, x) \<in> snd ` set ps" by (rule imageI)
  then show "x \<in> set (map snd ps)" by simp
qed

lemma block_listing:
  assumes K: "kv_laws K" and ok: "blocks.bucket_ok (kv_get K b)"
  obtains bs where "map fst (kv_first K b) = map block_Key bs"
    "list_all2 (\<lambda>e x. non_null dec_block (snd e) = Inr x) (kv_first K b) bs"
    "sorted_wrt (\<lambda>a b. cb_Slot a < cb_Slot b) bs"
    "\<forall>x. x \<in> set bs \<longleftrightarrow> blocks.bucket_map (kv_get K b) (cb_Slot x) = Some x"
proof -
  have E: "sorted_wrt (<) (map fst (kv_first K b))" "map_of (kv_first K b) = kv_get K b"
    using kv_first_law [OF K] by auto
  then have "distinct (map fst (kv_first K b))" by (simp add: strict_sorted_iff)
  from blocks.bucket_listing [OF ok E(2) this] obtain ps where ps:
    "map fst (kv_first K b) = map (SlotNumberToKey \<circ> fst) ps"
    "list_all2 (\<lambda>e p. non_null dec_block (snd e) = Inr (snd p)) (kv_first K b) ps"
    "\<forall>i x. blocks.bucket_map (kv_get K b) i = Some x \<longleftrightarrow> (i, x) \<in> set ps"
    "\<forall>p \<in> set ps. cb_Slot (snd p) = fst p" by blast
  have keys: "map fst (kv_first K b) = map block_Key (map snd ps)"
    using ps(1,4) by (simp add: block_Key_slot)
  show thesis
  proof (rule that [OF keys])
    show "list_all2 (\<lambda>e x. non_null dec_block (snd e) = Inr x) (kv_first K b) (map snd ps)"
      using ps(2) by (simp add: list_all2_map2)
    show "sorted_wrt (\<lambda>a b. cb_Slot a < cb_Slot b) (map snd ps)"
      using key_sorted [OF E(1) keys block_Key_less] .
    show "\<forall>x. x \<in> set (map snd ps) \<longleftrightarrow> blocks.bucket_map (kv_get K b) (cb_Slot x) = Some x"
      using ps(3) snd_of_indexed [OF ps(4)] by blast
  qed
qed

lemma tx_listing:
  assumes K: "kv_laws K" and ok: "txs.bucket_ok (kv_get K b)"
  obtains ts where "list_all2 (\<lambda>e x. non_null dec_tx (snd e) = Inr x) (kv_first K b) ts"
    "tx_list (txs.bucket_map (kv_get K b)) ts"
proof -
  have E: "sorted_wrt (<) (map fst (kv_first K b))" "map_of (kv_first K b) = kv_get K b"
    using kv_first_law [OF K] by auto
  then have "distinct (map fst (kv_first K b))" by (simp add: strict_sorted_iff)
  from txs.bucket_listing [OF ok E(2) this] obtain ps where ps:
    "map fst (kv_first K b) = map (tx_id_key \<circ> fst) ps"
    "list_all2 (\<lambda>e p. non_null dec_tx (snd e) = Inr (snd p)) (kv_first K b) ps"
    "\<forall>i x. txs.bucket_map (kv_get K b) i = Some x \<longleftrightarrow> (i, x) \<in> set ps"
    "\<forall>p \<in> set ps. tx_id (snd p) = fst p" by blast
  have keys: "map fst (kv_first K b) = map tx_Key (map snd ps)"
    using ps(1,4) by (simp add: tx_Key_id)
  have "\<And>a b. tx_Key a < tx_Key b \<longleftrightarrow> tx_id a < tx_id b" by (simp add: tx_Key_less tx_id_def)
  from key_sorted [OF E(1) keys this] have "sorted_wrt (\<lambda>a b. tx_id a < tx_id b) (map snd ps)" .
  moreover have "\<forall>t. t \<in> set (map snd ps) \<longleftrightarrow> txs.bucket_map (kv_get K b) (tx_id t) = Some t"
    using ps(3) snd_of_indexed [OF ps(4)] by blast
  ultimately have "tx_list (txs.bucket_map (kv_get K b)) (map snd ps)"
    unfolding tx_list_def by (rule conjI)
  moreover have "list_all2 (\<lambda>e x. non_null dec_tx (snd e) = Inr x) (kv_first K b) (map snd ps)"
    using ps(2) by (simp add: list_all2_map2)
  ultimately show thesis by (intro that)
qed

lemma drop_blocks:
  assumes "list_all2 P E bs" "map fst E = map block_Key bs" "sorted_wrt (\<lambda>a b. cb_Slot a < cb_Slot b) bs"
  shows "list_all2 P (dropWhile (\<lambda>e. fst e < SlotNumberToKey slot) E) (filter (\<lambda>b. slot \<le> cb_Slot b) bs)"
  using assms
proof (induction E bs rule: list_all2_induct)
  case (Cons e E b bs)
  then have k: "fst e < SlotNumberToKey slot \<longleftrightarrow> cb_Slot b < slot"
    by (simp add: block_Key_slot SlotNumberToKey_def)
  show ?case
  proof (cases "cb_Slot b < slot")
    case True
    then have "\<not> slot \<le> cb_Slot b" by simp
    with True Cons k show ?thesis by simp
  next
    case False
    then have "slot \<le> cb_Slot b" by simp
    moreover have "filter (\<lambda>b. slot \<le> cb_Slot b) bs = bs"
      using Cons.prems(2) False by (intro filter_True) force
    ultimately show ?thesis using Cons k False by simp
  qed
qed simp

section \<open>The laws are satisfiable\<close>

text \<open>An association list as a bucket; its cursor sorts the keys.\<close>

fun alist_put :: "bytes \<times> json \<Rightarrow> (bytes \<times> json) list \<Rightarrow> (bytes \<times> json) list" where
  "alist_put e [] = [e]"
| "alist_put e (e' # es) =
     (if fst e < fst e' then e # e' # es else if fst e = fst e' then e # es else e' # alist_put e es)"

definition alist_kv :: "(bytes \<times> json) list kv_ops" where
  "alist_kv = \<lparr>kv_get = map_of, kv_put = \<lambda>b k v. Inr ((k, v) # b),
     kv_delete = \<lambda>b k. Inr (filter (\<lambda>e. fst e \<noteq> k) b),
     kv_first = \<lambda>b. foldr alist_put b [], kv_last = \<lambda>b. rev (foldr alist_put b []),
     kv_seek = \<lambda>b k. dropWhile (\<lambda>e. fst e < k) (foldr alist_put b []),
     kv_delete_bucket = \<lambda>b. None, kv_create_bucket = Inr [], kv_commit = \<lambda>bs. None\<rparr>"

lemma map_of_alist_put: "map_of (alist_put e es) = (map_of es)(fst e \<mapsto> snd e)"
  by (induction es) (auto simp: fun_eq_iff)

lemma alist_put_keys: "fst ` set (alist_put e es) = insert (fst e) (fst ` set es)"
  by (induction es) auto

lemma alist_put_sorted:
  "sorted_wrt (<) (map fst es) \<Longrightarrow> sorted_wrt (<) (map fst (alist_put e es))"
proof (induction es)
  case (Cons x es)
  have "\<forall>k \<in> fst ` set (alist_put e es). fst x < k"
    if "fst x < fst e" using that Cons.prems by (simp add: alist_put_keys)
  with Cons show ?case by force
qed simp

lemma map_of_filter_other: "map_of (filter (\<lambda>e. fst e \<noteq> k) b) = (map_of b)(k := None)"
  by (induction b) (auto simp: fun_eq_iff)

lemma alist_kv_laws: "kv_laws alist_kv"
proof -
  have "sorted_wrt (<) (map fst (foldr alist_put b []))" for b
    by (induction b) (simp_all add: alist_put_sorted)
  moreover have "map_of (foldr alist_put b []) = map_of b" for b
    by (induction b) (auto simp: map_of_alist_put fun_eq_iff)
  ultimately show ?thesis by (auto simp: kv_laws_def alist_kv_def map_of_filter_other)
qed

lemma alist_kv_get [simp]: "kv_get alist_kv = map_of"
  by (simp add: alist_kv_def)

definition empty_bolt :: "(bytes \<times> json) list BBoltDatabase" where
  "empty_bolt = \<lparr>bd_ops = alist_kv, bd_open = True, bd_buckets =
     \<lparr>txOutputsBucket = [], latestBlockPointBucket = [], processedTxsBucket = [],
      unprocessedTxsBucket = [], confirmedBlocks = []\<rparr>\<rparr>"

lemma empty_bolt_inv: "bolt_inv empty_bolt" and empty_bolt_open: "bd_open empty_bolt"
  by (simp_all add: empty_bolt_def bolt_inv_def alist_kv_laws buckets_ok_def)

lemma empty_bolt_store: "bolt_store empty_bolt =
    \<lparr>cs_point = None, cs_outputs = Map.empty, cs_blocks = Map.empty,
     cs_unprocessed = Map.empty, cs_processed = Map.empty\<rparr>"
  by (simp add: empty_bolt_def bolt_views)

lemma empty_bolt_Init: "bolt_Init alist_kv (Inr Map.empty) = Inr empty_bolt"
  by (simp add: bolt_Init_def bucket_names_def alist_kv_def empty_bolt_def)

definition demo_block :: "u64 \<Rightarrow> CardanoBlock" where
  "demo_block s = \<lparr>cb_Slot = s, cb_Hash = zero_hash, cb_Number = s, cb_EraID = 6, cb_Txs = []\<rparr>"

definition demo_bolt :: "(bytes \<times> json) list BBoltDatabase" where
  "demo_bolt = fst (bolt_Execute empty_bolt [OpAddConfirmedBlock (demo_block 7),
     OpAddTxOutputs [\<lparr>tio_Input = \<lparr>ti_Hash = zero_hash, ti_Index = 1\<rparr>,
       tio_Output = zero_TxOutput\<lparr>to_Address := ''a'', to_Amount := 5\<rparr>\<rparr>],
     OpAddConfirmedBlock (demo_block 3)])"

definition demo_tx :: Tx where
  "demo_tx = \<lparr>tx_BlockSlot = 4, tx_BlockHash = zero_hash, tx_Indx = 1, tx_Hash = zero_hash,
     tx_Metadata = None, tx_Inputs = [], tx_Outputs = [], tx_Fee = 3, tx_Valid = True\<rparr>"

lemma Execute_alist_ok:
  "bd_ops bd = alist_kv \<Longrightarrow> bd_open bd \<Longrightarrow> bolt_op_loop alist_kv ops (bd_buckets bd) = Inr b \<Longrightarrow>
     bolt_Execute bd ops = (bd\<lparr>bd_buckets := b\<rparr>, None)"
  by (simp add: bolt_Execute_def bolt_Update_def alist_kv_def)

lemma demo_bolt_Execute:
  "bolt_Execute empty_bolt [OpAddConfirmedBlock (demo_block 7),
     OpAddTxOutputs [\<lparr>tio_Input = \<lparr>ti_Hash = zero_hash, ti_Index = 1\<rparr>,
       tio_Output = zero_TxOutput\<lparr>to_Address := ''a'', to_Amount := 5\<rparr>\<rparr>],
     OpAddConfirmedBlock (demo_block 3)] = (demo_bolt, None)"
  unfolding demo_bolt_def
  by (simp add: bolt_Execute_def bolt_Update_def empty_bolt_def alist_kv_def write_block_def
    write_output_def wrap_err_def)

lemma demo_bolt_inv: "bolt_inv demo_bolt" and demo_bolt_store:
  "cs_blocks (bolt_store demo_bolt) = [7 \<mapsto> demo_block 7, 3 \<mapsto> demo_block 3]"
  "cs_outputs (bolt_store demo_bolt) = [\<lparr>ti_Hash = zero_hash, ti_Index = 1\<rparr> \<mapsto>
     zero_TxOutput\<lparr>to_Address := ''a'', to_Amount := 5\<rparr>]"
proof -
  have "utf8_sanitize ''a'' = ''a''" by (rule utf8_sanitize_ascii) simp
  then have n: "norm_output (zero_TxOutput\<lparr>to_Address := ''a'', to_Amount := 5\<rparr>) =
      zero_TxOutput\<lparr>to_Address := ''a'', to_Amount := 5\<rparr>"
    by (simp add: norm_output_def zero_TxOutput_def)
  from bolt_Execute_ok [OF empty_bolt_inv demo_bolt_Execute]
  show "bolt_inv demo_bolt"
    "cs_blocks (bolt_store demo_bolt) = [7 \<mapsto> demo_block 7, 3 \<mapsto> demo_block 3]"
    "cs_outputs (bolt_store demo_bolt) = [\<lparr>ti_Hash = zero_hash, ti_Index = 1\<rparr> \<mapsto>
       zero_TxOutput\<lparr>to_Address := ''a'', to_Amount := 5\<rparr>]"
    by (simp_all add: empty_bolt_store n demo_block_def)
qed

lemma demo_bolt_open: "bd_open demo_bolt" and demo_bolt_ops: "bd_ops demo_bolt = alist_kv"
proof -
  obtain b where b: "demo_bolt = empty_bolt\<lparr>bd_buckets := b\<rparr>"
    using bolt_Update_cases [OF demo_bolt_Execute [unfolded bolt_Execute_def]] by auto
  show "bd_open demo_bolt" "bd_ops demo_bolt = alist_kv"
    unfolding b by (simp_all add: empty_bolt_def)
qed

section \<open>Queries\<close>

text \<open>
  C39. The block and transaction queries return the chain in order: the newest blocks first,
  the blocks from a slot on in increasing order, and the unprocessed transactions by block
  slot and position, each complete up to the limit given, and all of them when it is not
  positive.
\<close>

theorem bolt_listings_in_chain_order:
  assumes "bolt_inv bd" "bd_open bd"
  shows "\<exists>bs ts. block_list (bolt_store bd) bs \<and> tx_list (cs_unprocessed (bolt_store bd)) ts \<and>
    (\<forall>n. bolt_GetLatestConfirmedBlocks bd n = Inr (limit n (rev bs))) \<and>
    (\<forall>slot n. bolt_GetConfirmedBlocksFrom bd slot n = Inr (limit n (filter (\<lambda>b. slot \<le> cb_Slot b) bs))) \<and>
    (\<forall>n. bolt_GetUnprocessedConfirmedTxs bd n = Inr (limit n ts))"
proof -
  let ?K = "bd_ops bd" and ?b = "bd_buckets bd"
  have K: "kv_laws ?K" and ok: "blocks.bucket_ok (kv_get ?K (confirmedBlocks ?b))"
      "txs.bucket_ok (kv_get ?K (unprocessedTxsBucket ?b))"
    using assms(1) by (simp_all add: bolt_inv_def buckets_ok_def)
  obtain bs where bs: "map fst (kv_first ?K (confirmedBlocks ?b)) = map block_Key bs"
    "list_all2 (\<lambda>e x. non_null dec_block (snd e) = Inr x) (kv_first ?K (confirmedBlocks ?b)) bs"
    "sorted_wrt (\<lambda>a b. cb_Slot a < cb_Slot b) bs"
    "\<forall>x. x \<in> set bs \<longleftrightarrow> blocks.bucket_map (kv_get ?K (confirmedBlocks ?b)) (cb_Slot x) = Some x"
    using block_listing [OF K ok(1)] by blast
  obtain ts where ts: "list_all2 (\<lambda>e x. non_null dec_tx (snd e) = Inr x) (kv_first ?K (unprocessedTxsBucket ?b)) ts"
    "tx_list (txs.bucket_map (kv_get ?K (unprocessedTxsBucket ?b))) ts"
    using tx_listing [OF K ok(2)] by blast
  have "block_list (bolt_store bd) bs" "tx_list (cs_unprocessed (bolt_store bd)) ts"
    using bs(3,4) ts(2) by (simp_all add: block_list_def bolt_views)
  moreover have "bolt_GetLatestConfirmedBlocks bd n = Inr (limit n (rev bs))" for n
    using assms(2) cursor_loop_ok [of "non_null dec_block" "rev (kv_first ?K (confirmedBlocks ?b))" "rev bs" n "[]"] bs(2)
    by (simp add: bolt_GetLatestConfirmedBlocks_def bolt_View_def kv_last_law [OF K] list_all2_rev)
  moreover have "bolt_GetConfirmedBlocksFrom bd slot n = Inr (limit n (filter (\<lambda>b. slot \<le> cb_Slot b) bs))" for slot n
    using assms(2) cursor_loop_ok [OF drop_blocks [OF bs(2,1,3), of slot], of n "[]"]
    by (simp add: bolt_GetConfirmedBlocksFrom_def bolt_View_def kv_seek_law [OF K])
  moreover have "bolt_GetUnprocessedConfirmedTxs bd n = Inr (limit n ts)" for n
    using assms(2) cursor_loop_ok [OF ts(1), of n "[]"]
    by (simp add: bolt_GetUnprocessedConfirmedTxs_def bolt_View_def)
  ultimately show ?thesis by blast
qed

theorem bolt_listings_in_chain_order_witness:
  "bolt_GetLatestConfirmedBlocks demo_bolt 1 = Inr [demo_block 7] \<and>
   bolt_GetConfirmedBlocksFrom demo_bolt 4 0 = Inr [demo_block 7]"
proof -
  obtain bs where bs: "block_list (bolt_store demo_bolt) bs"
    "\<And>n. bolt_GetLatestConfirmedBlocks demo_bolt n = Inr (limit n (rev bs))"
    "\<And>slot n. bolt_GetConfirmedBlocksFrom demo_bolt slot n =
       Inr (limit n (filter (\<lambda>b. slot \<le> cb_Slot b) bs))"
    using bolt_listings_in_chain_order [OF demo_bolt_inv demo_bolt_open] by blast
  have slot: "cb_Slot (demo_block s) = s" for s by (simp add: demo_block_def)
  have srt: "sorted_wrt (\<lambda>a b. cb_Slot a < cb_Slot b) bs"
    and mem: "\<And>b. b \<in> set bs \<longleftrightarrow> (if cb_Slot b = 3 then demo_block 3 = b
        else cb_Slot b = 7 \<and> demo_block 7 = b)"
    using bs(1) by (simp_all add: block_list_def demo_bolt_store)
  have mem: "b \<in> set bs \<longleftrightarrow> b = demo_block 7 \<or> b = demo_block 3" for b
    unfolding mem by (auto simp: slot)
  have "sorted_wrt (<) (map cb_Slot bs)" using srt by (simp add: sorted_wrt_map)
  then have "sorted (map cb_Slot bs)" "distinct (map cb_Slot bs)" by (simp_all only: strict_sorted_iff)
  moreover have "set (map cb_Slot bs) = {3, 7}" using mem by (simp add: set_eq_iff image_iff) (metis slot)
  ultimately have "map cb_Slot bs = sorted_list_of_set {3, 7}"
    by (metis sorted_list_of_set.idem_if_sorted_distinct)
  then have "map cb_Slot bs = [3, 7]" by simp
  then obtain x y where "bs = [x, y]" "cb_Slot x = 3" "cb_Slot y = 7" by auto
  moreover have "x = demo_block 3 \<and> y = demo_block 7" if "bs = [x, y]" "cb_Slot x = 3" "cb_Slot y = 7" for x y
    using mem [of x] mem [of y] that slot [of 3] slot [of 7] by auto
  ultimately have "bs = [demo_block 3, demo_block 7]" by blast
  then show ?thesis by (simp add: bs(2,3) limit_def slot)
qed

section \<open>Outputs of an address\<close>

definition inout_of :: "TxInput \<times> TxOutput \<Rightarrow> TxInputOutput" where
  "inout_of p = \<lparr>tio_Input = fst p, tio_Output = snd p\<rparr>"

definition kept_output :: "string \<Rightarrow> bool \<Rightarrow> TxInput \<times> TxOutput \<Rightarrow> bool" where
  "kept_output a u p \<longleftrightarrow> to_Address (snd p) = a \<and> \<not> (u \<and> to_IsUsed (snd p))"

lemma inj_inout_of: "inj_on inout_of A"
  by (rule inj_onI) (simp add: inout_of_def prod_eq_iff)

lemma in_inouts: "io \<in> set (map inout_of ps) \<longleftrightarrow> (tio_Input io, tio_Output io) \<in> set ps"
proof -
  have "inout_of (tio_Input io, tio_Output io) = io" by (simp add: inout_of_def)
  moreover have "(tio_Input (inout_of p), tio_Output (inout_of p)) = p" for p by (simp add: inout_of_def)
  ultimately show ?thesis unfolding set_map by (metis image_iff)
qed

lemma outputs_loop_ok:
  assumes "list_all2 (\<lambda>e p. dec_output (snd e) = Inr (snd p)) E ps" "map fst E = map (input_Key \<circ> fst) ps"
  shows "outputs_loop a u E acc = Inr (acc @ map inout_of (filter (kept_output a u) ps))"
  using assms
proof (induction E ps arbitrary: acc rule: list_all2_induct)
  case (Cons e E p ps)
  obtain k v i t where [simp]: "e = (k, v)" "p = (i, t)" by (cases e, cases p)
  from Cons.hyps Cons.prems have "dec_output v = Inr t" "k = input_Key i" by simp_all
  with Cons show ?case by (simp add: kept_output_def inout_of_def)
qed simp

text \<open>
  \<open>GetAllTxOutputs\<close> returns exactly the stored outputs of the address, without the
  used ones when asked, each once, ordered by slot, hash and index.
\<close>

theorem bolt_GetAllTxOutputs_exact:
  assumes "bolt_inv bd" "bd_open bd"
  shows "\<exists>ios. bolt_GetAllTxOutputs bd a u = Inr ios \<and> sorted (map tio_key ios) \<and> distinct ios \<and>
    (\<forall>io. io \<in> set ios \<longleftrightarrow> cs_outputs (bolt_store bd) (tio_Input io) = Some (tio_Output io) \<and>
       to_Address (tio_Output io) = a \<and> (u \<longrightarrow> \<not> to_IsUsed (tio_Output io)))"
proof -
  let ?K = "bd_ops bd" and ?b = "txOutputsBucket (bd_buckets bd)"
  have K: "kv_laws ?K" and ok: "outputs.bucket_ok (kv_get ?K ?b)"
    using assms(1) by (simp_all add: bolt_inv_def buckets_ok_def)
  have E: "sorted_wrt (<) (map fst (kv_first ?K ?b))" "map_of (kv_first ?K ?b) = kv_get ?K ?b"
    using kv_first_law [OF K] by auto
  then have d: "distinct (map fst (kv_first ?K ?b))" by (simp add: strict_sorted_iff)
  obtain ps where ps:
    "map fst (kv_first ?K ?b) = map (input_Key \<circ> fst) ps"
    "list_all2 (\<lambda>e p. dec_output (snd e) = Inr (snd p)) (kv_first ?K ?b) ps"
    "\<forall>i x. outputs.bucket_map (kv_get ?K ?b) i = Some x \<longleftrightarrow> (i, x) \<in> set ps"
    by (rule outputs.bucket_listing [OF ok E(2) d])
  let ?L = "map inout_of (filter (kept_output a u) ps)"
  have r: "bolt_GetAllTxOutputs bd a u = Inr (SortTxInputOutputs ?L)"
    using assms(2) outputs_loop_ok [OF ps(2,1), of a u "[]"]
    by (simp add: bolt_GetAllTxOutputs_def bolt_View_def)
  have "distinct (map (input_Key \<circ> fst) ps)" using d unfolding ps(1) .
  then have "distinct ps" by (simp add: distinct_map)
  then have dL: "distinct ?L" by (simp add: distinct_map inj_inout_of)
  have S: "sorted (map tio_key (SortTxInputOutputs ?L))" "mset (SortTxInputOutputs ?L) = mset ?L"
    by (rule SortTxInputOutputs_sorted)+
  have dS: "distinct (SortTxInputOutputs ?L)" using dL mset_eq_imp_distinct_iff [OF S(2)] by blast
  have mem: "io \<in> set (SortTxInputOutputs ?L) \<longleftrightarrow> cs_outputs (bolt_store bd) (tio_Input io) = Some (tio_Output io) \<and>
      to_Address (tio_Output io) = a \<and> (u \<longrightarrow> \<not> to_IsUsed (tio_Output io))" for io
    unfolding mset_eq_setD [OF S(2)] in_inouts using ps(3) by (simp add: bolt_views kept_output_def)
  show ?thesis
    by (rule exI [of _ "SortTxInputOutputs ?L"], intro conjI allI r S(1) dS mem)
qed

theorem bolt_GetAllTxOutputs_exact_witness:
  "\<exists>ios. bolt_GetAllTxOutputs demo_bolt ''a'' True = Inr ios \<and> set ios =
     {\<lparr>tio_Input = \<lparr>ti_Hash = zero_hash, ti_Index = 1\<rparr>,
       tio_Output = zero_TxOutput\<lparr>to_Address := ''a'', to_Amount := 5\<rparr>\<rparr>}"
  using bolt_GetAllTxOutputs_exact [OF demo_bolt_inv demo_bolt_open, of "''a''" True]
proof (elim exE conjE)
  fix ios
  let ?i = "\<lparr>ti_Hash = zero_hash, ti_Index = 1\<rparr>"
    and ?t = "zero_TxOutput\<lparr>to_Address := ''a'', to_Amount := 5\<rparr>"
  assume ios: "bolt_GetAllTxOutputs demo_bolt ''a'' True = Inr ios"
    and mem: "\<forall>io. io \<in> set ios \<longleftrightarrow> cs_outputs (bolt_store demo_bolt) (tio_Input io) = Some (tio_Output io) \<and>
       to_Address (tio_Output io) = ''a'' \<and> (True \<longrightarrow> \<not> to_IsUsed (tio_Output io))"
  have t: "to_Address ?t = ''a''" "\<not> to_IsUsed ?t" by (simp_all add: zero_TxOutput_def)
  have "io \<in> set ios \<longleftrightarrow> io = \<lparr>tio_Input = ?i, tio_Output = ?t\<rparr>" for io
  proof (cases "tio_Input io = ?i")
    case True
    then have "io \<in> set ios \<longleftrightarrow> tio_Output io = ?t"
      using t by (auto simp only: mem [rule_format] demo_bolt_store fun_upd_same option.inject)
    with True show ?thesis by (cases io) simp
  next
    case False
    then have "io \<notin> set ios"
      by (simp only: mem [rule_format] demo_bolt_store fun_upd_other option.distinct simp_thms)
    with False show ?thesis by auto
  qed
  then have "set ios = {\<lparr>tio_Input = ?i, tio_Output = ?t\<rparr>}" by (intro set_eqI) simp
  with ios show ?thesis by (intro exI conjI)
qed

section \<open>Write transactions\<close>

text \<open>
  C5. A write transaction is atomic: \<open>Execute\<close> either performs every queued operation, in
  order, on the store, or reports an error and leaves the database as it was.
\<close>

theorem bolt_Execute_atomic:
  assumes "bolt_inv bd" "bolt_Execute bd ops = (bd', r)"
  shows "bolt_inv bd' \<and>
    (case r of None \<Rightarrow> bolt_store bd' = store_ops (bolt_store bd) ops | Some e \<Rightarrow> bd' = bd)"
proof -
  have e: "db_Execute bolt_dict bd ops = (bd', r)" using assms(2) by (simp add: bolt_dict_def)
  show ?thesis using bolt.Execute_inv [OF assms(1) e] bolt.Execute_ok [OF assms(1)] bolt.Execute_err e
    by (cases r) auto
qed

theorem bolt_Execute_atomic_witness:
  "\<exists>bd'. bolt_Execute demo_bolt [OpDeleteAllTxOutputsPhysically] = (bd', None) \<and>
     cs_outputs (bolt_store bd') = Map.empty \<and> bolt_inv bd'"
proof -
  obtain bd' r where e: "bolt_Execute demo_bolt [OpDeleteAllTxOutputsPhysically] = (bd', r)"
    by (metis surj_pair)
  moreover have "r = None"
    using e demo_bolt_open demo_bolt_ops
    by (auto simp: bolt_Execute_def bolt_Update_def recreate_bucket_def alist_kv_def)
  ultimately show ?thesis using bolt_Execute_atomic [OF demo_bolt_inv e] by simp
qed

definition mark_store :: "chain_store \<Rightarrow> Tx \<Rightarrow> chain_store" where
  "mark_store s t = s\<lparr>cs_unprocessed := (cs_unprocessed s)(tx_id t := None),
     cs_processed := (cs_processed s)(tx_id t \<mapsto> norm_tx t)\<rparr>"

lemma mark_loop_ok:
  assumes K: "kv_laws K" and "buckets_ok K tx" "mark_loop K ts tx = Inr tx'"
  shows "buckets_ok K tx' \<and> buckets_store K tx' = foldl mark_store (buckets_store K tx) ts"
  using assms(2,3)
proof (induction ts arbitrary: tx)
  case (Cons t ts)
  then obtain u p where up: "kv_delete K (unprocessedTxsBucket tx) (tx_Key t) = Inr u"
    "kv_put K (processedTxsBucket tx) (tx_Key t) (enc_tx t) = Inr p"
    "mark_loop K ts (tx\<lparr>unprocessedTxsBucket := u, processedTxsBucket := p\<rparr>) = Inr tx'"
    by (auto simp: rbind_eq_Inr)
  have "txs.bucket_ok (kv_get K u) \<and>
      txs.bucket_map (kv_get K u) = (txs.bucket_map (kv_get K (unprocessedTxsBucket tx)))(tx_id t := None)"
    using kv_delete_law [OF K up(1)] Cons.prems(1) by (simp add: tx_Key_id buckets_ok_def txs.bucket_del)
  moreover note write_tx_ok [OF K _ up(2)]
  ultimately have "buckets_ok K (tx\<lparr>unprocessedTxsBucket := u, processedTxsBucket := p\<rparr>) \<and>
      buckets_store K (tx\<lparr>unprocessedTxsBucket := u, processedTxsBucket := p\<rparr>) = mark_store (buckets_store K tx) t"
    using Cons.prems(1) by (simp add: bolt_views mark_store_def)
  with Cons.IH [OF _ up(3)] show ?case by simp
qed simp

lemma mark_store_effect:
  "cs_unprocessed (foldl mark_store s ts) k = (if k \<in> tx_id ` set ts then None else cs_unprocessed s k)"
  "cs_point (foldl mark_store s ts) = cs_point s" "cs_outputs (foldl mark_store s ts) = cs_outputs s"
  "cs_blocks (foldl mark_store s ts) = cs_blocks s"
  "cs_processed (foldl mark_store s ts) = put_txs (cs_processed s) ts"
  by (induction ts arbitrary: s) (auto simp: mark_store_def)

text \<open>
  \<open>MarkConfirmedTxsProcessed\<close> moves transactions: on success each one is gone from the
  unprocessed bucket and stored as processed, and nothing else changes; on an error nothing
  changes at all.
\<close>

theorem bolt_MarkConfirmedTxsProcessed_moves:
  assumes "bolt_inv bd" "bolt_MarkConfirmedTxsProcessed bd ts = (bd', r)"
  shows "bolt_inv bd' \<and> (case r of Some e \<Rightarrow> bd' = bd | None \<Rightarrow>
    (let s = bolt_store bd; s' = bolt_store bd' in
     (\<forall>k. cs_unprocessed s' k = (if k \<in> tx_id ` set ts then None else cs_unprocessed s k)) \<and>
     (\<forall>k. k \<notin> tx_id ` set ts \<longrightarrow> cs_processed s' k = cs_processed s k) \<and>
     (distinct (map tx_id ts) \<longrightarrow> (\<forall>t \<in> set ts. cs_processed s' (tx_id t) = Some (norm_tx t))) \<and>
     cs_point s' = cs_point s \<and> cs_outputs s' = cs_outputs s \<and> cs_blocks s' = cs_blocks s))"
proof (cases r)
  case None
  then obtain b where b: "mark_loop (bd_ops bd) ts (bd_buckets bd) = Inr b" "bd' = bd\<lparr>bd_buckets := b\<rparr>"
    using bolt_Update_cases [OF assms(2) [unfolded bolt_MarkConfirmedTxsProcessed_def]] by auto
  have "buckets_ok (bd_ops bd) b" "bolt_store bd' = foldl mark_store (bolt_store bd) ts"
    using mark_loop_ok [OF _ _ b(1)] assms(1) b(2) by (simp_all add: bolt_inv_def bolt_store_buckets)
  with None b(2) assms(1) show ?thesis
    by (simp add: bolt_inv_def mark_store_effect put_txs_other put_txs_in)
next
  case (Some e)
  then have "bd' = bd" using bolt_Update_cases [OF assms(2) [unfolded bolt_MarkConfirmedTxsProcessed_def]] by auto
  with Some assms(1) show ?thesis by simp
qed

theorem bolt_MarkConfirmedTxsProcessed_moves_witness:
  "\<exists>bd'. bolt_MarkConfirmedTxsProcessed demo_bolt [demo_tx] = (bd', None) \<and>
     cs_processed (bolt_store bd') (4, 1) = Some demo_tx"
proof -
  obtain bd' r where e: "bolt_MarkConfirmedTxsProcessed demo_bolt [demo_tx] = (bd', r)"
    by (metis surj_pair)
  moreover have "r = None"
    using e demo_bolt_open demo_bolt_ops
    by (auto simp: bolt_MarkConfirmedTxsProcessed_def bolt_Update_def alist_kv_def wrap_err_def)
  moreover have "norm_tx demo_tx = demo_tx" "tx_id demo_tx = (4, 1)"
    by (simp_all add: demo_tx_def norm_tx_def tx_id_def)
  ultimately show ?thesis
    using bolt_MarkConfirmedTxsProcessed_moves [OF demo_bolt_inv e] by (simp add: Let_def)
qed

end
