(* ===== verification/Indexer_Correct.thy ===== *)
theory Indexer_Correct
  imports Block_Indexer Bbolt_Props
begin

text \<open>
  What the block indexer promises on a database that meets the contract \<open>indexer_db\<close>: each
  call's effect on the window and the store, and, for whole histories of rolls forward and
  backward, that the confirmed blocks in the database followed by the window in memory are
  the node's chain. The properties are stated for the bbolt database.
\<close>

declare length_cq_contents [simp del]

section \<open>The abstract step\<close>

definition populated_input :: "chain_store \<Rightarrow> TxInputOutput \<Rightarrow> TxInputOutput" where
  "populated_input s i = (if to_Address (tio_Output i) \<noteq> '''' then i
     else i\<lparr>tio_Output := store_output s (tio_Input i)\<rparr>)"

definition populated :: "chain_store \<Rightarrow> Tx list \<Rightarrow> Tx list" where
  "populated s txs = map (\<lambda>t. t\<lparr>tx_Inputs := map (populated_input s) (tx_Inputs t)\<rparr>) txs"

text \<open>
  What confirming a block must leave in the store, said without the indexer's own functions: the point, the
  block with its header and the hashes of its transactions, the relevant transactions waiting to be processed,
  and the outputs, first those created, then without those spent.
\<close>

definition relevant_txs :: "BlockIndexerConfig \<Rightarrow> string set \<Rightarrow> Tx list \<Rightarrow> Tx list" where
  "relevant_txs cfg addrs txs = filter (\<lambda>t. addrs = {} \<or>
     cfg_AddressCheck cfg AND AddressCheckInputs \<noteq> 0 \<and> (\<exists>i \<in> set (tx_Inputs t). to_Address (tio_Output i) \<in> addrs) \<or>
     cfg_AddressCheck cfg AND AddressCheckOutputs \<noteq> 0 \<and> (\<exists>out \<in> set (tx_Outputs t). to_Address out \<in> addrs)) txs"

definition block_record :: "BlockIndexerConfig \<Rightarrow> string set \<Rightarrow> BlockHeader \<Rightarrow> Tx list \<Rightarrow> CardanoBlock" where
  "block_record cfg addrs h txs = \<lparr>cb_Slot = bh_Slot h, cb_Hash = bh_Hash h, cb_Number = bh_Number h, cb_EraID = bh_EraID h,
     cb_Txs = map tx_Hash (if cfg_KeepAllTxsHashesInBlock cfg then txs else relevant_txs cfg addrs txs)\<rparr>"

definition confirm_store ::
  "BlockIndexerConfig \<Rightarrow> string set \<Rightarrow> BlockHeader \<Rightarrow> Tx list \<Rightarrow> chain_store \<Rightarrow> chain_store"
where
  "confirm_store cfg addrs h txs s =
     (let every = populated s txs; relevant = relevant_txs cfg addrs every;
          kept = if cfg_KeepAllTxOutputsInDB cfg then every else relevant;
          whose = if cfg_KeepAllTxOutputsInDB cfg then {} else addrs
      in s\<lparr>cs_point := Some \<lparr>bp_BlockSlot = bh_Slot h, bp_BlockHash = bh_Hash h\<rparr>,
           cs_outputs := spend_outputs (cfg_SoftDeleteUtxo cfg) (put_outputs (cs_outputs s) (getTxOutputs kept whose)) (getTxInputs kept whose),
           cs_blocks := (cs_blocks s)(bh_Slot h \<mapsto> block_record cfg addrs h every),
           cs_unprocessed := put_txs (cs_unprocessed s) relevant\<rparr>)"

text \<open>A handler that leaves the chain data of the database alone.\<close>

definition keeps_chain ::
  "('db \<Rightarrow> bool) \<Rightarrow> ('db \<Rightarrow> chain_store) \<Rightarrow> 'db NewConfirmedBlockHandler \<Rightarrow> bool"
where
  "keeps_chain good store handler \<longleftrightarrow> (\<forall>d b txs d' r. good d \<longrightarrow> handler d b txs = (d', r) \<longrightarrow>
     good d' \<and> cs_point (store d') = cs_point (store d) \<and> cs_blocks (store d') = cs_blocks (store d) \<and>
     cs_outputs (store d') = cs_outputs (store d))"

definition bi_window :: "'db BlockIndexer \<Rightarrow> BlockHeader list" where
  "bi_window bi = cq_contents (bi_unconfirmedBlocks bi)"

definition bi_capacity :: "'db BlockIndexer \<Rightarrow> nat" where
  "bi_capacity bi = cq_capacity (bi_unconfirmedBlocks bi)"

definition bi_wf :: "'db BlockIndexer \<Rightarrow> bool" where
  "bi_wf bi \<longleftrightarrow> cq_inv (bi_unconfirmedBlocks bi) \<and> 0 < bi_capacity bi"

lemma keeps_chainD:
  assumes "keeps_chain good store handler" "good d" "handler d b txs = (d', r)"
  shows "good d'" "cs_point (store d') = cs_point (store d)"
    "cs_blocks (store d') = cs_blocks (store d)" "cs_outputs (store d') = cs_outputs (store d)"
  using assms unfolding keeps_chain_def by blast+

lemma relevant_txs_filter: "relevant_txs cfg addrs txs = filterTxsOfInterest (cfg_AddressCheck cfg) addrs txs"
  unfolding relevant_txs_def filterTxsOfInterest_def
  by (auto simp: isTxInputOfInterest_def isTxOutputOfInterest_def intro!: filter_cong)

lemma confirmed_block_record: "confirmed_block cfg addrs h txs = block_record cfg addrs h txs"
  by (simp add: confirmed_block_def block_record_def ToCardanoBlock_def getTxHashes_def relevant_txs_filter)

lemma block_writer_stores: "store_ops s (block_writer cfg addrs h (populated s txs)) = confirm_store cfg addrs h txs s"
  by (simp add: confirm_store_def block_writer_def Let_def confirmed_block_record block_record_def relevant_txs_filter
    outputs_to_save_def outputs_to_remove_def header_point_def)

lemma confirm_store_effect:
  "cs_point (confirm_store cfg addrs h txs s) = Some (header_point h)"
  "cs_blocks (confirm_store cfg addrs h txs s) =
     (cs_blocks s)(bh_Slot h \<mapsto> confirmed_block cfg addrs h (populated s txs))"
  "cs_unprocessed (confirm_store cfg addrs h txs s) =
     put_txs (cs_unprocessed s) (filterTxsOfInterest (cfg_AddressCheck cfg) addrs (populated s txs))"
  "cs_outputs (confirm_store cfg addrs h txs s) =
     spend_outputs (cfg_SoftDeleteUtxo cfg)
       (put_outputs (cs_outputs s) (outputs_to_save cfg addrs (populated s txs)))
       (outputs_to_remove cfg addrs (populated s txs))"
  "cs_processed (confirm_store cfg addrs h txs s) = cs_processed s"
  unfolding block_writer_stores [symmetric] by (simp_all add: block_writer_def Let_def confirmed_block_def ToCardanoBlock_def)

text \<open>The effect of one \<open>RollForward\<close>: it waits, fails without a trace, or confirms the oldest header.\<close>

definition forward_waits :: "'db BlockIndexer \<Rightarrow> BlockHeader \<Rightarrow> 'db BlockIndexer \<Rightarrow> goerror option \<Rightarrow> bool" where
  "forward_waits bi h bi' r \<longleftrightarrow> length (bi_window bi) < bi_capacity bi \<and> r = None \<and>
     bi_window bi' = bi_window bi @ [h] \<and> bi_latestBlockPoint bi' = bi_latestBlockPoint bi \<and>
     bi_db bi' = bi_db bi"

definition forward_fails :: "'db BlockIndexer \<Rightarrow> 'db BlockIndexer \<Rightarrow> goerror option \<Rightarrow> bool" where
  "forward_fails bi bi' r \<longleftrightarrow> length (bi_window bi) = bi_capacity bi \<and> bi' = bi \<and>
     (\<exists>e. r = Some (ErrProcessConfirmedBlock e))"

definition forward_confirms ::
  "('db \<Rightarrow> bool) \<Rightarrow> ('db \<Rightarrow> chain_store) \<Rightarrow> 'db BlockIndexer \<Rightarrow> BlockHeader \<Rightarrow>
     BlockTxsRetriever \<Rightarrow> 'db BlockIndexer \<Rightarrow> goerror option \<Rightarrow> bool"
where
  "forward_confirms good store bi h getTxs bi' r \<longleftrightarrow>
     length (bi_window bi) = bi_capacity bi \<and>
     bi_window bi' = tl (bi_window bi) @ [h] \<and>
     bi_latestBlockPoint bi' = Some (header_point (hd (bi_window bi))) \<and>
     (\<exists>txs d. getTxs (hd (bi_window bi)) = Inr txs \<and> good d \<and>
        store d = confirm_store (bi_config bi) (bi_addressesOfInterest bi) (hd (bi_window bi)) txs
          (store (bi_db bi)) \<and>
        bi_confirmedBlockHandler bi d
          (block_record (bi_config bi) (bi_addressesOfInterest bi) (hd (bi_window bi)) (populated (store (bi_db bi)) txs))
          (relevant_txs (bi_config bi) (bi_addressesOfInterest bi) (populated (store (bi_db bi)) txs)) = (bi_db bi', r))"

context indexer_db
begin

lemma populate_inputs_ok:
  assumes "inv d" "result_map (populate_input (db_GetTxOutput I d)) inps = Inr inps'"
  shows "inps' = map (populated_input (store d)) inps"
  using assms(2)
  by (induction inps arbitrary: inps')
     (auto simp: rbind_eq_Inr populate_input_def populated_input_def GetTxOutput_ok [OF assms(1)]
       split: if_splits)

lemma populate_ok:
  assumes "inv d" "populateOutputsForEachInput (db_GetTxOutput I d) txs = Inr txs'"
  shows "txs' = populated (store d) txs"
  using assms(2) unfolding populateOutputsForEachInput_def populated_def
proof (induction txs arbitrary: txs')
  case (Cons t txs)
  then show ?case by (auto simp: rbind_eq_Inr dest: populate_inputs_ok [OF assms(1)])
qed simp

lemma process_ok:
  assumes "inv (bi_db bi)" "processConfirmedBlock I bi h txs = (d, Inr (blk, rel, p))"
  shows "inv d \<and> store d = confirm_store (bi_config bi) (bi_addressesOfInterest bi) h txs (store (bi_db bi)) \<and>
    blk = confirmed_block (bi_config bi) (bi_addressesOfInterest bi) h (populated (store (bi_db bi)) txs) \<and>
    rel = filterTxsOfInterest (cfg_AddressCheck (bi_config bi)) (bi_addressesOfInterest bi)
      (populated (store (bi_db bi)) txs) \<and> p = header_point h"
proof (cases "populateOutputsForEachInput (db_GetTxOutput I (bi_db bi)) txs")
  case (Inr txs')
  obtain d' r where e: "db_Execute I (bi_db bi)
      (block_writer (bi_config bi) (bi_addressesOfInterest bi) h txs') = (d', r)" by fastforce
  with assms(2) Inr have "r = None" "d' = d" "p = header_point h"
    "blk = confirmed_block (bi_config bi) (bi_addressesOfInterest bi) h txs'"
    "rel = filterTxsOfInterest (cfg_AddressCheck (bi_config bi)) (bi_addressesOfInterest bi) txs'"
    by (auto simp: processConfirmedBlock_def Let_def split: option.splits)
  with Execute_ok [OF assms(1)] e populate_ok [OF assms(1) Inr] show ?thesis
    by (simp add: block_writer_stores)
qed (use assms in \<open>simp add: processConfirmedBlock_def Let_def\<close>)

lemma process_err:
  assumes "processConfirmedBlock I bi h txs = (d, Inl e)"
  shows "d = bi_db bi"
proof (cases "populateOutputsForEachInput (db_GetTxOutput I (bi_db bi)) txs")
  case (Inr txs')
  obtain d' r where e: "db_Execute I (bi_db bi)
      (block_writer (bi_config bi) (bi_addressesOfInterest bi) h txs') = (d', r)" by fastforce
  with assms Inr obtain x where "r = Some x" "d' = d"
    by (auto simp: processConfirmedBlock_def Let_def split: option.splits)
  with e Execute_err show ?thesis by blast
qed (use assms in \<open>simp add: processConfirmedBlock_def Let_def\<close>)

lemma RollForward_waiting:
  assumes "cq_inv (bi_unconfirmedBlocks bi)" "length (bi_window bi) < bi_capacity bi"
  shows "\<exists>q. RollForward I bi h getTxs = Some (bi\<lparr>bi_unconfirmedBlocks := q\<rparr>, None) \<and> cq_inv q \<and>
    cq_contents q = bi_window bi @ [h] \<and> cq_capacity q = bi_capacity bi"
proof -
  have "\<not> IsFull (bi_unconfirmedBlocks bi)"
    using assms cq.full_iff [OF assms(1)] by (simp add: bi_window_def bi_capacity_def)
  with cq.push_room [OF assms(1) this, of h] show ?thesis
    by (auto simp: RollForward_def bi_window_def bi_capacity_def)
qed

lemma RollForward_step:
  assumes wf: "bi_wf bi" and inv: "inv (bi_db bi)"
  shows "\<exists>bi' r. RollForward I bi h getTxs = Some (bi', r) \<and> bi_wf bi' \<and>
    bi_capacity bi' = bi_capacity bi \<and> bi_config bi' = bi_config bi \<and>
    bi_confirmedBlockHandler bi' = bi_confirmedBlockHandler bi \<and>
    bi_addressesOfInterest bi' = bi_addressesOfInterest bi \<and>
    (forward_waits bi h bi' r \<or> forward_fails bi bi' r \<or> forward_confirms inv store bi h getTxs bi' r)"
proof (cases "length (bi_window bi) < bi_capacity bi")
  case True
  with RollForward_waiting [of bi h getTxs] wf show ?thesis
    by (auto simp: bi_wf_def forward_waits_def bi_window_def bi_capacity_def)
next
  case False
  let ?q = "bi_unconfirmedBlocks bi"
  have q: "cq_inv ?q" "0 < cq_capacity ?q" using wf by (simp_all add: bi_wf_def bi_capacity_def)
  have len: "length (bi_window bi) = bi_capacity bi"
    using False cq.len_le [OF q(1)] by (simp add: bi_window_def bi_capacity_def)
  then have full: "IsFull ?q" using cq.full_iff [OF q(1)] by (simp add: bi_window_def bi_capacity_def)
  have ne: "cq_contents ?q \<noteq> []" using len q(2) by (auto simp: bi_window_def bi_capacity_def)
  let ?f = "hd (bi_window bi)"
  have peek: "Peek zero_BlockHeader ?q = Some ?f" using cq.peek_some [OF q(1) ne] by (simp add: bi_window_def)
  show ?thesis
  proof (cases "getTxs ?f")
    case (Inl e)
    with full peek wf len show ?thesis by (simp add: RollForward_def forward_fails_def)
  next
    case txs: (Inr txs)
    obtain d r where p: "processConfirmedBlock I bi ?f txs = (d, r)" by fastforce
    show ?thesis
    proof (cases r)
      case (Inl e)
      with p process_err have "d = bi_db bi" by blast
      with Inl p full peek txs wf len show ?thesis by (simp add: RollForward_def forward_fails_def)
    next
      case (Inr y)
      obtain blk rel pt where y: "y = (blk, rel, pt)" by (cases y)
      note ok = process_ok [OF inv p [unfolded Inr y]]
      obtain q1 q2 where sl: "Pop zero_BlockHeader ?q = Some (q1, ?f)" "Push q1 h = Some (q2, None)"
        "cq_inv q2" "cq_contents q2 = tl (bi_window bi) @ [h]" "cq_capacity q2 = cq_capacity ?q"
        using cq.slide [OF q(1) full q(2), where def = zero_BlockHeader and x = h] by (auto simp: bi_window_def)
      obtain d' r' where hd: "bi_confirmedBlockHandler bi d blk rel = (d', r')" by fastforce
      let ?bi' = "bi\<lparr>bi_latestBlockPoint := Some pt, bi_unconfirmedBlocks := q2, bi_db := d'\<rparr>"
      have "RollForward I bi h getTxs = Some (?bi', r')"
        using full peek txs p Inr y sl hd by (simp add: RollForward_def)
      moreover have "forward_confirms inv store bi h getTxs ?bi' r'"
        using ok hd len sl(4) txs by (auto simp: forward_confirms_def bi_window_def confirmed_block_record relevant_txs_filter)
      moreover have "bi_wf ?bi' \<and> bi_capacity ?bi' = bi_capacity bi"
        using sl q by (simp add: bi_wf_def bi_capacity_def)
      ultimately show ?thesis by auto
    qed
  qed
qed

end

section \<open>Rollback\<close>

text \<open>The part of a list of headers up to the one at a point.\<close>

definition chain_upto :: "BlockPoint \<Rightarrow> BlockHeader list \<Rightarrow> BlockHeader list" where
  "chain_upto p c = take (Suc (length (takeWhile (\<lambda>h. \<not> header_at p h) c))) c"

lemma chain_upto_split:
  "header_at p h \<Longrightarrow> \<forall>x \<in> set pre. \<not> header_at p x \<Longrightarrow> chain_upto p (pre @ h # post) = pre @ [h]"
  by (simp add: chain_upto_def takeWhile_append2)

text \<open>
  \<open>RollBackward\<close>: to a header of the window, which becomes its last; else to the last
  confirmed block, which empties the window; else a fatal error that changes nothing.
\<close>

lemma RollBackward_step:
  assumes wf: "bi_wf bi" and latest: "bi_latestBlockPoint bi = Some l"
  shows "\<exists>bi' r. RollBackward bi p = Some (bi', r) \<and> bi_wf bi' \<and> bi_capacity bi' = bi_capacity bi \<and>
    bi_config bi' = bi_config bi \<and> bi_addressesOfInterest bi' = bi_addressesOfInterest bi \<and>
    bi_latestBlockPoint bi' = Some l \<and> bi_db bi' = bi_db bi \<and>
    bi_confirmedBlockHandler bi' = bi_confirmedBlockHandler bi \<and>
    (if \<exists>h \<in> set (bi_window bi). header_at p h
     then r = None \<and> bi_window bi' = chain_upto p (bi_window bi)
     else if p = l then r = None \<and> bi_window bi' = []
     else bi' = bi \<and> (\<exists>e. r = Some e \<and> err_is e ErrBlockIndexerFatal))"
proof -
  let ?q = "bi_unconfirmedBlocks bi"
  have q: "cq_inv ?q" "0 < cq_capacity ?q" using wf by (simp_all add: bi_wf_def bi_capacity_def)
  let ?i = "find_index (header_at p) (cq_contents ?q)"
  have find: "Find (header_at p) ?q = Some ?i" by (rule cq.find_first [OF q(1)])
  show ?thesis
  proof (cases "\<exists>h \<in> set (bi_window bi). header_at p h")
    case True
    then have i: "?i \<noteq> -1" by (auto simp: find_index_none bi_window_def)
    note t = cq.truncate_found [OF q(1) find i]
    have "nat ?i = length (takeWhile (\<lambda>h. \<not> header_at p h) (cq_contents ?q))"
      using True by (auto simp: find_index_def bi_window_def)
    with True t(1-3) find i wf latest show ?thesis
      by (auto simp: RollBackward_def bi_wf_def bi_capacity_def bi_window_def chain_upto_def)
  next
    case False
    then have i: "?i = -1" by (simp add: find_index_none bi_window_def)
    note t = cq.truncate_all [OF q(1)]
    have "bp_BlockSlot l = bp_BlockSlot p \<and> bp_BlockHash l = bp_BlockHash p \<longleftrightarrow> p = l"
      by auto
    with False find i t wf latest show ?thesis
      by (auto simp: RollBackward_def bi_wf_def bi_capacity_def bi_window_def)
  qed
qed

section \<open>Histories\<close>

text \<open>The calls of the chain-sync client, run until the first error.\<close>

datatype sync_event = Forward BlockHeader BlockTxsRetriever | Backward BlockPoint

fun sync_step ::
  "'db BlockIndexerDB \<Rightarrow> 'db BlockIndexer \<Rightarrow> sync_event \<Rightarrow>
     ('db BlockIndexer \<times> goerror option) option"
where
  "sync_step I bi (Forward h getTxs) = RollForward I bi h getTxs"
| "sync_step I bi (Backward p) = RollBackward bi p"

fun sync_run ::
  "'db BlockIndexerDB \<Rightarrow> 'db BlockIndexer \<Rightarrow> sync_event list \<Rightarrow>
     ('db BlockIndexer \<times> goerror option) option"
where
  "sync_run I bi [] = Some (bi, None)"
| "sync_run I bi (ev # evs) =
     (case sync_step I bi ev of
        None \<Rightarrow> None
      | Some (bi', Some e) \<Rightarrow> Some (bi', Some e)
      | Some (bi', None) \<Rightarrow> sync_run I bi' evs)"

text \<open>
  The node's chain after the same events, from the point \<open>base\<close> of the intersection: a
  new block has a greater slot than those before it, a rollback goes to a block of the
  chain or to \<open>base\<close>.
\<close>

fun chain_step :: "BlockPoint \<Rightarrow> BlockHeader list \<Rightarrow> sync_event \<Rightarrow> BlockHeader list option" where
  "chain_step base c (Forward h _) =
     (if bp_BlockSlot base < bh_Slot h \<and> (\<forall>x \<in> set c. bh_Slot x < bh_Slot h) then Some (c @ [h]) else None)"
| "chain_step base c (Backward p) =
     (if p = base then Some []
      else if \<exists>h \<in> set c. header_at p h then Some (chain_upto p c) else None)"

fun chain_run :: "BlockPoint \<Rightarrow> BlockHeader list \<Rightarrow> sync_event list \<Rightarrow> BlockHeader list option" where
  "chain_run base c [] = Some c"
| "chain_run base c (ev # evs) = Option.bind (chain_step base c ev) (\<lambda>c'. chain_run base c' evs)"

definition chain_ok :: "BlockPoint \<Rightarrow> BlockHeader list \<Rightarrow> bool" where
  "chain_ok base c \<longleftrightarrow> sorted_wrt (\<lambda>a b. bh_Slot a < bh_Slot b) c \<and> (\<forall>h \<in> set c. bp_BlockSlot base < bh_Slot h)"

definition tip :: "BlockPoint \<Rightarrow> BlockHeader list \<Rightarrow> BlockPoint" where
  "tip base conf = (if conf = [] then base else header_point (last conf))"

text \<open>The confirmed headers are in the store, and nothing else has changed there.\<close>

definition chain_stored :: "chain_store \<Rightarrow> BlockHeader list \<Rightarrow> chain_store \<Rightarrow> bool" where
  "chain_stored s0 conf s \<longleftrightarrow>
     (\<forall>h \<in> set conf. \<exists>b. cs_blocks s (bh_Slot h) = Some b \<and> cb_Hash b = bh_Hash h \<and> cb_Number b = bh_Number h) \<and>
     (\<forall>slot. slot \<notin> bh_Slot ` set conf \<longrightarrow> cs_blocks s slot = cs_blocks s0 slot) \<and>
     cs_point s = (if conf = [] then cs_point s0 else Some (header_point (last conf)))"

lemma header_at_point: "header_at p h \<longleftrightarrow> header_point h = p"
  by (auto simp: header_at_def header_point_def)

lemma chain_ok_unique:
  assumes "chain_ok base (xs @ h # ys)" "header_at p h"
  shows "chain_upto p (xs @ h # ys) = xs @ [h]"
proof (rule chain_upto_split [OF assms(2)])
  show "\<forall>x \<in> set xs. \<not> header_at p x"
    using assms by (auto simp: chain_ok_def sorted_wrt_append header_at_def)
qed

lemma chain_step_ok: "chain_ok base c \<Longrightarrow> chain_step base c ev = Some c' \<Longrightarrow> chain_ok base c'"
  by (cases ev)
     (auto simp: chain_ok_def sorted_wrt_append chain_upto_def sorted_wrt_take
       dest: in_set_takeD split: if_splits)

lemma chain_stored_confirm:
  assumes "chain_stored s0 conf s" "chain_ok base (conf @ [f])"
    "cs_point s' = Some (header_point f)" "cs_blocks s' = (cs_blocks s)(bh_Slot f \<mapsto> b)"
    "cb_Hash b = bh_Hash f" "cb_Number b = bh_Number f"
  shows "chain_stored s0 (conf @ [f]) s'"
  using assms by (auto simp: chain_stored_def chain_ok_def sorted_wrt_append)

definition follows ::
  "('db \<Rightarrow> bool) \<Rightarrow> ('db \<Rightarrow> chain_store) \<Rightarrow> chain_store \<Rightarrow> BlockPoint \<Rightarrow> BlockHeader list \<Rightarrow> 'db BlockIndexer \<Rightarrow> bool"
where
  "follows good store s0 base conf bi \<longleftrightarrow> bi_wf bi \<and> good (bi_db bi) \<and>
     bi_latestBlockPoint bi = Some (tip base conf) \<and> chain_ok base (conf @ bi_window bi) \<and>
     chain_stored s0 conf (store (bi_db bi)) \<and>
     keeps_chain good store (bi_confirmedBlockHandler bi)"

context indexer_db
begin

text \<open>The chain is followed even when the confirmed-block handler reports an error: the block is confirmed before.\<close>

lemma follows_forward_any:
  assumes f: "follows inv store s0 base conf bi"
    and c: "chain_step base (conf @ bi_window bi) (Forward h getTxs) = Some c'"
    and s: "RollForward I bi h getTxs = Some (bi', r)" and r: "\<not> forward_fails bi bi' r"
  shows "\<exists>fs. c' = (conf @ fs) @ bi_window bi' \<and> follows inv store s0 base (conf @ fs) bi' \<and>
    bi_capacity bi' = bi_capacity bi"
proof -
  have wf: "bi_wf bi" and inv: "inv (bi_db bi)" and ok: "chain_ok base (conf @ bi_window bi)"
    and st: "chain_stored s0 conf (store (bi_db bi))"
    and k: "keeps_chain inv store (bi_confirmedBlockHandler bi)"
    using f by (simp_all add: follows_def)
  have c': "c' = conf @ bi_window bi @ [h]" using c by (simp split: if_splits)
  have ok': "chain_ok base c'" using chain_step_ok [OF ok c] .
  have step: "bi_wf bi'" "bi_capacity bi' = bi_capacity bi"
    "bi_confirmedBlockHandler bi' = bi_confirmedBlockHandler bi"
    "forward_waits bi h bi' r \<or> forward_fails bi bi' r \<or> forward_confirms inv store bi h getTxs bi' r"
    using RollForward_step [OF wf inv, of h getTxs] s by auto
  from step(4) r consider (waits) "forward_waits bi h bi' r" | (confirms) "forward_confirms inv store bi h getTxs bi' r" by blast
  then show ?thesis
  proof cases
    case waits
    with f step ok' c' show ?thesis
      by (intro exI [of _ "[]"]) (auto simp: forward_waits_def follows_def)
  next
    case confirms
    let ?f = "hd (bi_window bi)"
    have "bi_window bi \<noteq> []" using confirms wf by (auto simp: forward_confirms_def bi_wf_def)
    then have w: "bi_window bi = ?f # tl (bi_window bi)" by simp
    obtain txs d rel b where d: "inv d" "bi_confirmedBlockHandler bi d b rel = (bi_db bi', r)"
      "store d = confirm_store (bi_config bi) (bi_addressesOfInterest bi) ?f txs (store (bi_db bi))"
      "b = block_record (bi_config bi) (bi_addressesOfInterest bi) ?f (populated (store (bi_db bi)) txs)"
      "bi_window bi' = tl (bi_window bi) @ [h]" "bi_latestBlockPoint bi' = Some (header_point ?f)"
      using confirms by (auto simp: forward_confirms_def)
    have kc: "inv (bi_db bi')" "cs_point (store (bi_db bi')) = cs_point (store d)"
      "cs_blocks (store (bi_db bi')) = cs_blocks (store d)"
      using keeps_chainD [OF k d(1,2)] by blast+
    have c2: "c' = (conf @ [?f]) @ bi_window bi'" unfolding c' d(5) using w by simp
    have okf: "chain_ok base (conf @ [?f])"
      using ok' unfolding c2 by (auto simp: chain_ok_def sorted_wrt_append)
    have "chain_stored s0 (conf @ [?f]) (store (bi_db bi'))"
      by (rule chain_stored_confirm [OF st okf, of _ b])
         (simp_all add: kc d(3,4) confirm_store_effect confirmed_block_record block_record_def)
    with step(1-3) k kc(1) c2 ok' d(6) show ?thesis
      by (intro exI [of _ "[?f]"]) (simp add: follows_def tip_def)
  qed
qed

lemma follows_forward:
  assumes "follows inv store s0 base conf bi" "chain_step base (conf @ bi_window bi) (Forward h getTxs) = Some c'"
    "RollForward I bi h getTxs = Some (bi', None)"
  shows "\<exists>fs. c' = (conf @ fs) @ bi_window bi' \<and> follows inv store s0 base (conf @ fs) bi' \<and> bi_capacity bi' = bi_capacity bi"
  by (rule follows_forward_any [OF assms]) (simp add: forward_fails_def)

lemma follows_backward:
  assumes f: "follows inv store s0 base conf bi"
    and c: "chain_step base (conf @ bi_window bi) (Backward p) = Some c'"
    and s: "RollBackward bi p = Some (bi', None)"
  shows "c' = conf @ bi_window bi' \<and> follows inv store s0 base conf bi' \<and> bi_capacity bi' = bi_capacity bi"
proof -
  have wf: "bi_wf bi" and l: "bi_latestBlockPoint bi = Some (tip base conf)"
    and ok: "chain_ok base (conf @ bi_window bi)"
    using f by (simp_all add: follows_def)
  have step: "bi_wf bi'" "bi_capacity bi' = bi_capacity bi" "bi_latestBlockPoint bi' = Some (tip base conf)"
    "bi_db bi' = bi_db bi" "bi_confirmedBlockHandler bi' = bi_confirmedBlockHandler bi"
    "if \<exists>h \<in> set (bi_window bi). header_at p h then bi_window bi' = chain_upto p (bi_window bi)
     else p = tip base conf \<and> bi_window bi' = []"
    using RollBackward_step [OF wf l, of p] s by (auto split: if_splits)
  have c': "c' = conf @ bi_window bi'"
  proof (cases "\<exists>h \<in> set (bi_window bi). header_at p h")
    case True
    then obtain xs h ys where w: "bi_window bi = xs @ h # ys" "header_at p h" by (meson split_list)
    have "chain_upto p (conf @ bi_window bi) = conf @ xs @ [h]"
      using chain_ok_unique [of base "conf @ xs" h ys p] ok w by simp
    moreover have "chain_upto p (bi_window bi) = xs @ [h]"
      using chain_ok_unique [of base xs h ys p] ok w by (auto simp: chain_ok_def sorted_wrt_append)
    moreover have "p \<noteq> base" using ok w by (auto simp: chain_ok_def header_at_def)
    ultimately show ?thesis using c step(6) True by (auto split: if_splits)
  next
    case False
    then have p: "p = tip base conf" "bi_window bi' = []" using step(6) by auto
    show ?thesis
    proof (cases conf rule: rev_cases)
      case Nil
      with p c show ?thesis by (simp add: tip_def)
    next
      case (snoc xs h)
      then have "header_at p h" "p \<noteq> base"
        using p(1) ok by (auto simp: tip_def header_at_point chain_ok_def header_point_def)
      with snoc p c ok chain_ok_unique [of base xs h "bi_window bi" p] show ?thesis by (auto split: if_splits)
    qed
  qed
  with f step(1-5) chain_step_ok [OF ok c] show ?thesis by (simp add: follows_def)
qed

lemma follows_run:
  assumes "follows inv store s0 base conf bi"
    "chain_run base (conf @ bi_window bi) evs = Some c" "sync_run I bi evs = Some (bi', None)"
  shows "\<exists>fs. c = (conf @ fs) @ bi_window bi' \<and> follows inv store s0 base (conf @ fs) bi' \<and>
    bi_capacity bi' = bi_capacity bi"
  using assms
proof (induction evs arbitrary: conf bi)
  case Nil
  then show ?case by (intro exI [of _ "[]"]) simp
next
  case (Cons ev evs)
  obtain c1 where c1: "chain_step base (conf @ bi_window bi) ev = Some c1" "chain_run base c1 evs = Some c"
    using Cons.prems(2) by (auto simp: bind_eq_Some_conv)
  obtain bi1 where b1: "sync_step I bi ev = Some (bi1, None)" "sync_run I bi1 evs = Some (bi', None)"
    using Cons.prems(3) by (auto split: option.splits prod.splits)
  have "\<exists>fs. c1 = (conf @ fs) @ bi_window bi1 \<and> follows inv store s0 base (conf @ fs) bi1 \<and>
      bi_capacity bi1 = bi_capacity bi"
  proof (cases ev)
    case (Forward h getTxs)
    show ?thesis
      by (rule follows_forward [OF Cons.prems(1) c1(1) [unfolded Forward]
          b1(1) [unfolded Forward sync_step.simps]])
  next
    case (Backward p)
    from follows_backward [OF Cons.prems(1) c1(1) [unfolded Backward] b1(1) [unfolded Backward sync_step.simps]]
    show ?thesis unfolding append_Nil2 by (intro exI [of _ "[]"]) (simp only: append_Nil2)
  qed
  then obtain fs where fs: "c1 = (conf @ fs) @ bi_window bi1" "follows inv store s0 base (conf @ fs) bi1"
    "bi_capacity bi1 = bi_capacity bi" by blast
  obtain gs where "c = ((conf @ fs) @ gs) @ bi_window bi'" "follows inv store s0 base ((conf @ fs) @ gs) bi'"
    "bi_capacity bi' = bi_capacity bi1"
    using Cons.IH [OF fs(2) c1(2) [unfolded fs(1)] b1(2)] by blast
  with fs(3) show ?case by (intro exI [of _ "fs @ gs"]) simp
qed

lemma Reset_ok:
  assumes "bi_wf bi" "inv (bi_db bi)" "Reset I bi = (bi', Inr p)"
  shows "p = (case cs_point (store (bi_db bi)) of Some x \<Rightarrow> x
      | None \<Rightarrow> (case cfg_StartingBlockPoint (bi_config bi) of Some x \<Rightarrow> x | None \<Rightarrow> zero_BlockPoint))"
    "bi_wf bi'" "bi_window bi' = []" "bi_latestBlockPoint bi' = Some p" "bi_db bi' = bi_db bi"
    "bi_config bi' = bi_config bi" "bi_capacity bi' = bi_capacity bi"
    "bi_confirmedBlockHandler bi' = bi_confirmedBlockHandler bi"
proof -
  obtain q where q: "db_GetLatestBlockPoint I (bi_db bi) = Inr q"
    using assms(3) by (auto simp: Reset_def split: sum.splits)
  note r = assms(3) [unfolded Reset_def q GetLatestBlockPoint_ok [OF assms(2) q]]
  note t = cq.truncate_all [of "bi_unconfirmedBlocks bi"]
  show "p = (case cs_point (store (bi_db bi)) of Some x \<Rightarrow> x
      | None \<Rightarrow> (case cfg_StartingBlockPoint (bi_config bi) of Some x \<Rightarrow> x | None \<Rightarrow> zero_BlockPoint))"
    "bi_wf bi'" "bi_window bi' = []" "bi_latestBlockPoint bi' = Some p" "bi_db bi' = bi_db bi"
    "bi_config bi' = bi_config bi" "bi_capacity bi' = bi_capacity bi"
    "bi_confirmedBlockHandler bi' = bi_confirmedBlockHandler bi"
    using r t assms(1) by (auto simp: Let_def bi_wf_def bi_window_def bi_capacity_def)
qed

lemma follows_Reset:
  assumes "bi_wf bi" "inv (bi_db bi)" "Reset I bi = (bi', Inr p)"
    "keeps_chain inv store (bi_confirmedBlockHandler bi)"
  shows "follows inv store (store (bi_db bi)) p [] bi'"
  using Reset_ok [OF assms(1-3)] assms(2,4) by (simp add: follows_def tip_def chain_ok_def chain_stored_def)

lemma chain_followed:
  assumes "bi_wf bi" "inv (bi_db bi)" "keeps_chain inv store (bi_confirmedBlockHandler bi)"
    "Reset I bi = (bi0, Inr base)"
    "sync_run I bi0 evs = Some (bi', None)" "chain_run base [] evs = Some c"
  shows "\<exists>conf. c = conf @ bi_window bi' \<and> length (bi_window bi') \<le> bi_capacity bi \<and>
    bi_latestBlockPoint bi' = Some (tip base conf) \<and>
    chain_stored (store (bi_db bi)) conf (store (bi_db bi'))"
proof -
  note r = Reset_ok [OF assms(1,2,4)]
  have f0: "follows inv store (store (bi_db bi)) base [] bi0"
    by (rule follows_Reset [OF assms(1,2,4,3)])
  have "chain_run base ([] @ bi_window bi0) evs = Some c" using assms(6) r(3) by simp
  from follows_run [OF f0 this assms(5)] obtain fs where fs:
    "c = ([] @ fs) @ bi_window bi'" "follows inv store (store (bi_db bi)) base ([] @ fs) bi'"
    "bi_capacity bi' = bi_capacity bi0" by blast
  have "length (bi_window bi') \<le> bi_capacity bi'"
    using fs(2) cq.len_le by (auto simp: follows_def bi_wf_def bi_window_def bi_capacity_def)
  with fs r(7) show ?thesis by (auto simp: follows_def)
qed

end

section \<open>Outputs\<close>

text \<open>The output a transaction list creates at a reference, if there is one.\<close>

definition created_at :: "Tx list \<Rightarrow> TxInput \<Rightarrow> TxOutput \<Rightarrow> bool" where
  "created_at txs i out \<longleftrightarrow> (\<exists>t \<in> set txs. \<exists>k < length (tx_Outputs t).
     i = \<lparr>ti_Hash = tx_Hash t, ti_Index = word_of_nat k\<rparr> \<and> out = tx_Outputs t ! k)"

definition spends :: "Tx list \<Rightarrow> TxInput \<Rightarrow> bool" where
  "spends txs i \<longleftrightarrow> (\<exists>t \<in> set txs. i \<in> tio_Input ` set (tx_Inputs t))"

text \<open>Blocks whose output references are unambiguous.\<close>

definition block_txs_ok :: "Tx list \<Rightarrow> bool" where
  "block_txs_ok txs \<longleftrightarrow> distinct (map tx_Hash txs) \<and> (\<forall>t \<in> set txs. length (tx_Outputs t) \<le> 2 ^ 32)"

lemma populated_simps [simp]:
  "map tx_Hash (populated s txs) = map tx_Hash txs"
  "created_at (populated s txs) = created_at txs" "spends (populated s txs) = spends txs"
  "block_txs_ok (populated s txs) = block_txs_ok txs"
proof -
  show *: "map tx_Hash (populated s txs) = map tx_Hash txs" by (simp add: populated_def)
  show "created_at (populated s txs) = created_at txs"
    by (intro ext) (simp add: populated_def created_at_def)
  show "block_txs_ok (populated s txs) = block_txs_ok txs"
    unfolding block_txs_ok_def * by (simp add: populated_def)
  have "tio_Input ` populated_input s ` A = tio_Input ` A" for A
    unfolding image_image by (rule image_cong) (simp_all add: populated_input_def)
  then show "spends (populated s txs) = spends txs"
    by (intro ext) (simp add: populated_def spends_def)
qed

lemma distinct_tx_outputs_of:
  assumes "length (tx_Outputs t) \<le> 2 ^ 32"
  shows "distinct (map tio_Input (tx_outputs_of addrs t))"
proof -
  have "word_of_nat a \<noteq> (word_of_nat b :: u32)" if "a < 2 ^ 32" "b < 2 ^ 32" "a \<noteq> b" for a b
    using that by (simp add: word_of_nat_eq_iff take_bit_eq_mod)
  note w = this
  have "inj_on (\<lambda>k. \<lparr>ti_Hash = tx_Hash t, ti_Index = word_of_nat k\<rparr>) {..<length (tx_Outputs t)}"
  proof (rule inj_onI)
    fix x y assume "x \<in> {..<length (tx_Outputs t)}" "y \<in> {..<length (tx_Outputs t)}"
      "\<lparr>ti_Hash = tx_Hash t, ti_Index = word_of_nat x\<rparr> = \<lparr>ti_Hash = tx_Hash t, ti_Index = word_of_nat y\<rparr>"
    with assms w [of x y] show "x = y" by (cases "x = y") simp_all
  qed
  moreover have "map tio_Input (tx_outputs_of addrs t) = map (\<lambda>k. \<lparr>ti_Hash = tx_Hash t, ti_Index = word_of_nat k\<rparr>)
      (map fst (filter (\<lambda>(i, out). of_interest addrs (to_Address out)) (enumerate 0 (tx_Outputs t))))"
    by (simp add: tx_outputs_of_def split_beta comp_def)
  moreover have "distinct (map fst (filter P (enumerate 0 xs)))" for P and xs :: "TxOutput list"
    by (rule distinct_map_filter) (simp add: distinct_upt)
  moreover have "set (map fst (filter P (enumerate 0 xs))) \<subseteq> {..<length xs}" for P and xs :: "TxOutput list"
    by (auto simp: in_set_enumerate_eq)
  ultimately show ?thesis by (simp only: distinct_map) (meson inj_on_subset)
qed

lemma distinct_getTxOutputs:
  assumes "block_txs_ok txs"
  shows "distinct (map tio_Input (getTxOutputs txs addrs))"
  using assms
proof (induction txs)
  case (Cons t txs)
  have h1: "ti_Hash i = tx_Hash t" if "i \<in> tio_Input ` set (tx_outputs_of addrs t)" for i
    using that by (auto simp: tx_outputs_of_def)
  have h2: "ti_Hash i \<in> tx_Hash ` set txs" if "i \<in> tio_Input ` set (getTxOutputs txs addrs)" for i
    using that by (auto simp: in_getTxOutputs)
  have p: "tx_Hash t \<notin> tx_Hash ` set txs" "block_txs_ok txs" "length (tx_Outputs t) \<le> 2 ^ 32"
    using Cons.prems unfolding block_txs_ok_def list.map distinct.simps set_map list.set by blast+
  have "tio_Input ` set (tx_outputs_of addrs t) \<inter> tio_Input ` set (getTxOutputs txs addrs) = {}"
    using h1 h2 p(1) by (metis disjoint_iff)
  with Cons.IH [OF p(2)] distinct_tx_outputs_of [OF p(3)] show ?case
    unfolding getTxOutputs_Cons map_append distinct_append set_map by blast
qed simp

lemma created_unique:
  assumes "block_txs_ok txs" "created_at txs i out" "created_at txs i out'"
  shows "out = out'"
proof -
  have mem: "\<lparr>tio_Input = i, tio_Output = x\<rparr> \<in> set (getTxOutputs txs {})" if "created_at txs i x" for x
    using that by (auto simp: in_getTxOutputs created_at_def of_interest_def)
  have "inj_on tio_Input (set (getTxOutputs txs {}))"
    using distinct_getTxOutputs [OF assms(1), of "{}"] by (simp add: distinct_map)
  from inj_onD [OF this _ mem [OF assms(2)] mem [OF assms(3)]] show ?thesis by simp
qed

lemma put_outputs_created:
  assumes "block_txs_ok txs" "created_at txs i out" "of_interest addrs (to_Address out)"
  shows "put_outputs m (getTxOutputs txs addrs) i = Some (norm_output out)"
proof -
  have "\<lparr>tio_Input = i, tio_Output = out\<rparr> \<in> set (getTxOutputs txs addrs)"
    using assms(2,3) by (auto simp: in_getTxOutputs created_at_def)
  from put_outputs_in [OF distinct_getTxOutputs [OF assms(1)] this, of m] show ?thesis by simp
qed

lemma put_outputs_not_created:
  assumes "\<And>out. created_at txs i out \<Longrightarrow> \<not> of_interest addrs (to_Address out)"
  shows "put_outputs m (getTxOutputs txs addrs) i = m i"
proof (rule put_outputs_other)
  show "i \<notin> tio_Input ` set (getTxOutputs txs addrs)"
    using assms by (fastforce simp: in_getTxOutputs created_at_def)
qed

end
