(* ===== verification/Indexer_Props.thy ===== *)
theory Indexer_Props
  imports Indexer_Correct
begin

text \<open>
  The properties of the block indexer on the bbolt database, and the demonstration run their
  witnesses use.
\<close>

section \<open>The set of unspent outputs\<close>

text \<open>
  One block's effect on the stored outputs: what it creates is added, then what it spends is
  removed, or marked as used.
\<close>

definition spend_mark :: "bool \<Rightarrow> bool \<Rightarrow> TxOutput option \<Rightarrow> TxOutput option" where
  "spend_mark soft spent x =
     (if \<not> spent then x else if soft then map_option (to_IsUsed_update (\<lambda>_. True)) x else None)"

definition utxo_step ::
  "bool \<Rightarrow> (TxInput \<Rightarrow> bool) \<Rightarrow> (TxInput \<Rightarrow> TxOutput \<Rightarrow> bool) \<Rightarrow> (TxInput \<Rightarrow> TxOutput option) \<Rightarrow>
     (TxInput \<Rightarrow> TxOutput option) \<Rightarrow> bool"
where
  "utxo_step soft spent created m m' \<longleftrightarrow> (\<forall>i.
     (\<forall>out. created i out \<longrightarrow> m' i = spend_mark soft (spent i) (Some (norm_output out))) \<and>
     ((\<forall>out. \<not> created i out) \<longrightarrow> m' i = spend_mark soft (spent i) (m i)))"

lemma spend_outputs_mark: "spend_outputs soft m is i = spend_mark soft (i \<in> set is) (m i)"
  by (cases soft) (simp_all add: spend_mark_def spend_outputs_soft spend_outputs_hard)

lemma utxo_stepI:
  assumes "block_txs_ok txs" "\<And>i out. created i out \<longleftrightarrow> created_at txs i out \<and> of_interest addrs (to_Address out)"
    "\<And>i. i \<in> set is \<longleftrightarrow> spent i"
  shows "utxo_step soft spent created m (spend_outputs soft (put_outputs m (getTxOutputs txs addrs)) is)"
  using assms put_outputs_created [OF assms(1)] put_outputs_not_created
  by (auto simp: utxo_step_def spend_outputs_mark)

lemma in_getTxInputs_all: "i \<in> set (getTxInputs txs {}) \<longleftrightarrow> spends txs i"
  by (auto simp: in_getTxInputs of_interest_def spends_def)

text \<open>The inputs that are known, from the store, to spend an output of one of the addresses.\<close>

definition spends_known :: "chain_store \<Rightarrow> string set \<Rightarrow> Tx list \<Rightarrow> TxInput \<Rightarrow> bool" where
  "spends_known s addrs txs i \<longleftrightarrow> (\<exists>t \<in> set txs. \<exists>io \<in> set (tx_Inputs t).
     tio_Input io = i \<and> to_Address (tio_Output (populated_input s io)) \<in> addrs)"

lemma tio_Input_populated [simp]: "tio_Input (populated_input s io) = tio_Input io"
  by (simp add: populated_input_def)

lemma block_txs_ok_filter: "block_txs_ok txs \<Longrightarrow> block_txs_ok (filter P txs)"
  by (simp add: block_txs_ok_def distinct_map_filter)

lemma created_at_filter:
  assumes "addrs \<noteq> {}" "check AND AddressCheckOutputs \<noteq> 0"
  shows "created_at (filterTxsOfInterest check addrs txs) i out \<and> of_interest addrs (to_Address out) \<longleftrightarrow>
    created_at txs i out \<and> to_Address out \<in> addrs"
proof -
  have "isTxOutputOfInterest check addrs t" if "out \<in> set (tx_Outputs t)" "to_Address out \<in> addrs" for t
    using assms that by (auto simp: isTxOutputOfInterest_def)
  note o = this
  have m: "t \<in> set (filterTxsOfInterest check addrs txs) \<longleftrightarrow>
      t \<in> set txs \<and> (isTxInputOfInterest check addrs t \<or> isTxOutputOfInterest check addrs t)" for t
    using assms(1) by (simp add: filterTxsOfInterest_def)
  show ?thesis
  proof (cases "to_Address out \<in> addrs")
    case True
    have "created_at (filterTxsOfInterest check addrs txs) i out" if "created_at txs i out"
    proof -
      from that obtain t k where t: "t \<in> set txs" "k < length (tx_Outputs t)"
        "i = \<lparr>ti_Hash = tx_Hash t, ti_Index = word_of_nat k\<rparr>" "out = tx_Outputs t ! k"
        unfolding created_at_def by blast
      then have "out \<in> set (tx_Outputs t)" by simp
      with t(1) True have "t \<in> set (filterTxsOfInterest check addrs txs)" using m o by blast
      with t(2-4) show ?thesis unfolding created_at_def by blast
    qed
    moreover have "created_at (filterTxsOfInterest check addrs txs) i out \<Longrightarrow> created_at txs i out"
    proof -
      have "set (filterTxsOfInterest check addrs txs) \<subseteq> set txs" using m by blast
      then show "created_at (filterTxsOfInterest check addrs txs) i out \<Longrightarrow> created_at txs i out"
        unfolding created_at_def by blast
    qed
    ultimately show ?thesis using True by (auto simp: of_interest_def)
  qed (use assms(1) in \<open>simp add: of_interest_def\<close>)
qed

lemma getTxInputs_known:
  assumes "addrs \<noteq> {}" "check AND AddressCheckInputs \<noteq> 0"
  shows "i \<in> set (getTxInputs (filterTxsOfInterest check addrs (populated s txs)) addrs) \<longleftrightarrow>
    spends_known s addrs txs i"
proof
  assume "i \<in> set (getTxInputs (filterTxsOfInterest check addrs (populated s txs)) addrs)"
  then show "spends_known s addrs txs i"
    using assms(1)
    by (auto simp: in_getTxInputs filterTxsOfInterest_def populated_def spends_known_def of_interest_def)
next
  assume "spends_known s addrs txs i"
  then obtain t io where t: "t \<in> set txs" "io \<in> set (tx_Inputs t)" "tio_Input io = i"
    "to_Address (tio_Output (populated_input s io)) \<in> addrs" by (auto simp: spends_known_def)
  let ?t = "t\<lparr>tx_Inputs := map (populated_input s) (tx_Inputs t)\<rparr>"
  have "?t \<in> set (populated s txs)" using t(1) by (simp add: populated_def)
  moreover have io: "populated_input s io \<in> set (tx_Inputs ?t)" using t(2) by simp
  moreover have "isTxInputOfInterest check addrs ?t"
    using assms(2) io t(4) by (auto simp: isTxInputOfInterest_def)
  ultimately have "?t \<in> set (filterTxsOfInterest check addrs (populated s txs))"
    using assms(1) by (simp add: filterTxsOfInterest_def)
  then show "i \<in> set (getTxInputs (filterTxsOfInterest check addrs (populated s txs)) addrs)"
    unfolding in_getTxInputs
    by (rule bexI [rotated]) (rule bexI [OF _ io], simp add: of_interest_def t(3,4))
qed

lemma keep_all_step:
  assumes "bolt_inv (bi_db bi)" "cfg_KeepAllTxOutputsInDB (bi_config bi)" "block_txs_ok txs"
    "processConfirmedBlock bolt_dict bi h txs = (d, Inr res)"
  shows "utxo_step (cfg_SoftDeleteUtxo (bi_config bi)) (spends txs) (created_at txs)
    (cs_outputs (bolt_store (bi_db bi))) (cs_outputs (bolt_store d))"
proof -
  obtain blk rel p where "res = (blk, rel, p)" by (cases res)
  with bolt.process_ok [OF assms(1), of h txs d] assms(4)
  have "bolt_store d = confirm_store (bi_config bi) (bi_addressesOfInterest bi) h txs (bolt_store (bi_db bi))"
    by blast
  then show ?thesis
    unfolding confirm_store_effect outputs_to_save_def outputs_to_remove_def if_P [OF assms(2)]
    by (simp only: confirm_store_effect outputs_to_save_def outputs_to_remove_def assms(2) if_True)
       (rule utxo_stepI, simp_all add: assms(3) of_interest_def in_getTxInputs_all)
qed

text \<open>
  C9. With \<open>KeepAllTxOutputsInDB\<close>, the stored outputs are the ledger's: confirming a block
  adds every output the block creates and takes out (or marks) every output it spends, those
  created in the same block included.
\<close>

theorem keep_all_tracks_utxo_set:
  assumes "bolt_inv (bi_db bi)" "cfg_KeepAllTxOutputsInDB (bi_config bi)" "block_txs_ok txs"
    "processConfirmedBlock bolt_dict bi h txs = (d, Inr res)"
  shows "utxo_step (cfg_SoftDeleteUtxo (bi_config bi)) (spends txs) (created_at txs)
    (cs_outputs (bolt_store (bi_db bi))) (cs_outputs (bolt_store d))"
  by (rule keep_all_step [OF assms])

text \<open>
  C33. Without it, and with addresses of interest whose inputs and outputs are both checked,
  confirming a block stores exactly the created outputs of those addresses, and takes out
  exactly the spent outputs that the store, before the block, holds for those addresses.
\<close>

theorem address_mode_tracks_known_outputs:
  assumes "bolt_inv (bi_db bi)" "\<not> cfg_KeepAllTxOutputsInDB (bi_config bi)" "block_txs_ok txs"
    "bi_addressesOfInterest bi \<noteq> {}"
    "cfg_AddressCheck (bi_config bi) AND AddressCheckInputs \<noteq> 0"
    "cfg_AddressCheck (bi_config bi) AND AddressCheckOutputs \<noteq> 0"
    "processConfirmedBlock bolt_dict bi h txs = (d, Inr res)"
  shows "utxo_step (cfg_SoftDeleteUtxo (bi_config bi))
    (spends_known (bolt_store (bi_db bi)) (bi_addressesOfInterest bi) txs)
    (\<lambda>i out. created_at txs i out \<and> to_Address out \<in> bi_addressesOfInterest bi)
    (cs_outputs (bolt_store (bi_db bi))) (cs_outputs (bolt_store d))"
proof -
  let ?s = "bolt_store (bi_db bi)" and ?a = "bi_addressesOfInterest bi" and ?c = "cfg_AddressCheck (bi_config bi)"
  obtain blk rel p where "res = (blk, rel, p)" by (cases res)
  with bolt.process_ok [OF assms(1), of h txs d] assms(7)
  have s: "bolt_store d = confirm_store (bi_config bi) ?a h txs ?s" by blast
  have ok: "block_txs_ok (filterTxsOfInterest ?c ?a (populated ?s txs))"
    using assms(3,4) by (simp add: filterTxsOfInterest_def block_txs_ok_filter)
  show ?thesis
    unfolding s confirm_store_effect outputs_to_save_def outputs_to_remove_def if_not_P [OF assms(2)]
    by (rule utxo_stepI [OF ok])
       (simp_all add: created_at_filter [OF assms(4,6)] getTxInputs_known [OF assms(4,5)])
qed

section \<open>Calls\<close>

text \<open>
  C18. \<open>RollForward\<close> never panics on a well-formed window of positive size. While the window
  has room the header only joins it. On a full window, either fetching or saving the oldest
  block fails and nothing at all changes, or the oldest header leaves the window, its block
  is in the database in one transaction before the handler sees it, and the point in memory
  is that block's.
\<close>

theorem RollForward_on_bolt:
  assumes "bi_wf bi" "bolt_inv (bi_db bi)"
  shows "\<exists>bi' r. RollForward bolt_dict bi h getTxs = Some (bi', r) \<and> bi_wf bi' \<and>
    bi_capacity bi' = bi_capacity bi \<and>
    (forward_waits bi h bi' r \<or> forward_fails bi bi' r \<or>
     forward_confirms bolt_inv bolt_store bi h getTxs bi' r)"
  using bolt.RollForward_step [OF assms, of h getTxs] by blast

text \<open>
  C34. \<open>RollBackward\<close> to a header of the window keeps the window up to it, to the last
  confirmed block empties the window, and to anything else is the fatal error and changes
  nothing; the database and the point in memory never change.
\<close>

theorem RollBackward_effect:
  assumes "bi_wf bi" "bi_latestBlockPoint bi = Some l"
  shows "\<exists>bi' r. RollBackward bi p = Some (bi', r) \<and> bi_wf bi' \<and>
    bi_latestBlockPoint bi' = Some l \<and> bi_db bi' = bi_db bi \<and>
    (if \<exists>h \<in> set (bi_window bi). header_at p h
     then r = None \<and> bi_window bi' = chain_upto p (bi_window bi)
     else if p = l then r = None \<and> bi_window bi' = []
     else bi' = bi \<and> (\<exists>e. r = Some e \<and> err_is e ErrBlockIndexerFatal))"
  using RollBackward_step [OF assms, of p] by blast

text \<open>
  C1. For any history of rolls forward and back that succeeds after a \<open>Reset\<close>, on a node
  whose slots increase: the confirmed headers followed by the window are exactly the node's
  chain from the point \<open>Reset\<close> returned, at most \<open>ConfirmationBlockCount\<close> headers wait,
  every confirmed block is in the database and nothing else of its blocks has changed, and
  the points in memory and in the database are those of the last confirmed block.
\<close>

theorem indexer_follows_chain:
  assumes "bi_wf bi" "bolt_inv (bi_db bi)" "keeps_chain bolt_inv bolt_store (bi_confirmedBlockHandler bi)"
    "Reset bolt_dict bi = (bi0, Inr base)"
    "sync_run bolt_dict bi0 evs = Some (bi', None)" "chain_run base [] evs = Some c"
  shows "\<exists>conf. c = conf @ bi_window bi' \<and> length (bi_window bi') \<le> bi_capacity bi \<and>
    bi_latestBlockPoint bi' = Some (tip base conf) \<and>
    chain_stored (bolt_store (bi_db bi)) conf (bolt_store (bi_db bi'))"
  by (rule bolt.chain_followed [OF assms])

text \<open>
  \<open>Reset\<close> resumes from the database's point if there is one, else from the configured
  starting point, else from the genesis point, and drops the unconfirmed headers.
\<close>

theorem Reset_resumes:
  assumes "bi_wf bi" "bolt_inv (bi_db bi)" "bd_open (bi_db bi)"
  shows "\<exists>bi' p. Reset bolt_dict bi = (bi', Inr p) \<and>
    p = (case cs_point (bolt_store (bi_db bi)) of Some x \<Rightarrow> x
      | None \<Rightarrow> (case cfg_StartingBlockPoint (bi_config bi) of Some x \<Rightarrow> x | None \<Rightarrow> zero_BlockPoint)) \<and>
    bi_wf bi' \<and> bi_window bi' = [] \<and> bi_latestBlockPoint bi' = Some p \<and> bi_db bi' = bi_db bi"
proof -
  have "db_GetLatestBlockPoint bolt_dict (bi_db bi) = Inr (cs_point (bolt_store (bi_db bi)))"
    using assms(2,3) by (simp add: bolt_dict_def bolt_GetLatestBlockPoint_eq)
  then obtain bi' p where r: "Reset bolt_dict bi = (bi', Inr p)" by (simp add: Reset_def Let_def)
  show ?thesis using r bolt.Reset_ok [OF assms(1,2) r] by blast
qed

section \<open>A database on which the calls succeed\<close>

text \<open>On the association-list buckets no write fails.\<close>

definition alist_db :: "(bytes \<times> json) list BBoltDatabase \<Rightarrow> bool" where
  "alist_db bd \<longleftrightarrow> bd_ops bd = alist_kv \<and> bd_open bd \<and> bolt_inv bd"

lemma bucket_fold_total:
  assumes "\<And>x b. ok b \<Longrightarrow> \<exists>b'. f x b = Inr b' \<and> ok b'" "ok b"
  shows "\<exists>b'. bucket_fold f xs b = Inr b'"
  using assms(2)
proof (induction xs arbitrary: b)
  case (Cons x xs)
  from assms(1) [OF Cons.prems, of x] Cons.IH show ?case by auto
qed simp

lemma alist_op_total:
  assumes "buckets_ok alist_kv tx"
  shows "\<exists>tx'. bolt_op alist_kv op tx = Inr tx'"
proof (cases op)
  case (OpAddTxOutputs ios)
  have "\<exists>b'. bucket_fold (write_output alist_kv) ios (txOutputsBucket tx) = Inr b'"
    by (rule bucket_fold_total [of "\<lambda>_. True"]) (simp_all add: write_output_def wrap_err_def alist_kv_def)
  with OpAddTxOutputs show ?thesis by auto
next
  case (OpAddConfirmedTxs ts)
  have "\<exists>b'. bucket_fold (write_tx alist_kv) ts (unprocessedTxsBucket tx) = Inr b'"
    by (rule bucket_fold_total [of "\<lambda>_. True"]) (simp_all add: write_tx_def wrap_err_def alist_kv_def)
  with OpAddConfirmedTxs show ?thesis by auto
next
  case (OpRemoveTxOutputs iss soft)
  have "\<exists>b'. bucket_fold (remove_output alist_kv soft) iss (txOutputsBucket tx) = Inr b'"
  proof (rule bucket_fold_total [of "\<lambda>b. outputs.bucket_ok (map_of b)"])
    show "outputs.bucket_ok (map_of (txOutputsBucket tx))" using assms by (simp add: buckets_ok_def)
    fix i and b assume ok: "outputs.bucket_ok (map_of b)"
    have "\<exists>b'. remove_output alist_kv soft i b = Inr b'"
    proof (cases "soft \<and> map_of b (input_Key i) \<noteq> None")
      case True
      then obtain j where j: "map_of b (input_Key i) = Some j" by auto
      from outputs.bucket_get [OF ok j] obtain t where "dec_output j = Inr t" by blast
      with True j show ?thesis by (simp add: remove_output_def wrap_err_def alist_kv_def)
    next
      case False
      then show ?thesis by (cases soft) (simp_all add: remove_output_def wrap_err_def alist_kv_def Let_def)
    qed
    then obtain b' where b': "remove_output alist_kv soft i b = Inr b'" ..
    with remove_output_ok [OF alist_kv_laws _ b'] ok
    show "\<exists>b'. remove_output alist_kv soft i b = Inr b' \<and> outputs.bucket_ok (map_of b')" by auto
  qed
  with OpRemoveTxOutputs show ?thesis by auto
qed (simp_all add: write_point_def write_block_def recreate_bucket_def wrap_err_def alist_kv_def)

lemma alist_loop_total: "buckets_ok alist_kv tx \<Longrightarrow> \<exists>tx'. bolt_op_loop alist_kv ops tx = Inr tx'"
proof (induction ops arbitrary: tx)
  case (Cons op ops)
  from alist_op_total [OF Cons.prems, of op] obtain tx1 where t: "bolt_op alist_kv op tx = Inr tx1" ..
  with Cons.IH bolt_op_ok [OF alist_kv_laws Cons.prems t] show ?case by simp
qed simp

lemma alist_Execute_total:
  assumes "alist_db bd"
  shows "\<exists>bd'. bolt_Execute bd ops = (bd', None) \<and> alist_db bd'"
proof -
  obtain b where b: "bolt_op_loop alist_kv ops (bd_buckets bd) = Inr b"
    using alist_loop_total [of "bd_buckets bd" ops] assms by (auto simp: alist_db_def bolt_inv_def)
  have e: "bolt_Execute bd ops = (bd\<lparr>bd_buckets := b\<rparr>, None)"
    using assms b by (intro Execute_alist_ok) (simp_all add: alist_db_def)
  with bolt_Execute_ok [OF _ e] assms show ?thesis by (simp add: alist_db_def)
qed

lemma alist_populate_total:
  assumes "alist_db bd"
  shows "\<exists>txs'. populateOutputsForEachInput (bolt_GetTxOutput bd) txs = Inr txs'"
proof -
  have look: "bolt_GetTxOutput bd i = Inr (store_output (bolt_store bd) i)" for i
    using assms by (simp add: alist_db_def bolt_GetTxOutput_eq)
  have "\<exists>xs. result_map (populate_input (bolt_GetTxOutput bd)) inps = Inr xs" for inps
    by (induction inps) (auto simp: populate_input_def look)
  then show ?thesis unfolding populateOutputsForEachInput_def
  proof (induction txs)
    case (Cons t txs)
    then show ?case by (metis (no_types, lifting) rbind_simps(2) result_map.simps(2))
  qed simp
qed

lemma alist_process_total:
  assumes "alist_db (bi_db bi)"
  shows "\<exists>d res. processConfirmedBlock bolt_dict bi h txs = (d, Inr res) \<and> alist_db d"
proof -
  obtain txs' where p: "populateOutputsForEachInput (bolt_GetTxOutput (bi_db bi)) txs = Inr txs'"
    using alist_populate_total [OF assms] by blast
  obtain d where "bolt_Execute (bi_db bi)
      (block_writer (bi_config bi) (bi_addressesOfInterest bi) h txs') = (d, None)" "alist_db d"
    using alist_Execute_total [OF assms] by blast
  with p show ?thesis by (simp add: processConfirmedBlock_def bolt_dict_def Let_def)
qed

definition idle_handler :: "'db NewConfirmedBlockHandler" where
  "idle_handler d b txs = (d, None)"

lemma idle_keeps_chain: "keeps_chain good store idle_handler"
  by (simp add: keeps_chain_def idle_handler_def)

text \<open>A handler of confirmed blocks that succeeds there too.\<close>

definition alist_total :: "(bytes \<times> json) list BBoltDatabase NewConfirmedBlockHandler \<Rightarrow> bool" where
  "alist_total handler \<longleftrightarrow> (\<forall>d b txs. alist_db d \<longrightarrow> (\<exists>d'. handler d b txs = (d', None) \<and> alist_db d'))"

lemma idle_total: "alist_total idle_handler"
  by (simp add: alist_total_def idle_handler_def)

lemma alist_RollForward_ok:
  assumes wf: "bi_wf bi" and db: "alist_db (bi_db bi)" and g: "\<And>f. \<exists>txs. getTxs f = Inr txs"
    and total: "alist_total (bi_confirmedBlockHandler bi)"
  shows "\<exists>bi'. RollForward bolt_dict bi h getTxs = Some (bi', None) \<and> bi_wf bi' \<and>
    alist_db (bi_db bi') \<and> bi_confirmedBlockHandler bi' = bi_confirmedBlockHandler bi"
proof -
  obtain bi' r where s: "RollForward bolt_dict bi h getTxs = Some (bi', r)" "bi_wf bi'"
    "bi_confirmedBlockHandler bi' = bi_confirmedBlockHandler bi"
    "forward_waits bi h bi' r \<or> forward_fails bi bi' r \<or>
      forward_confirms bolt_inv bolt_store bi h getTxs bi' r"
    using bolt.RollForward_step [OF wf, of h getTxs] db by (auto simp: alist_db_def)
  show ?thesis
  proof (cases "IsFull (bi_unconfirmedBlocks bi)")
    case False
    with s(1) have "r = None \<and> bi_db bi' = bi_db bi"
      by (auto simp: RollForward_def bind_eq_Some_conv Let_def)
    with s db show ?thesis by simp
  next
    case True
    then obtain f where pk: "Peek zero_BlockHeader (bi_unconfirmedBlocks bi) = Some f"
      using s(1) by (auto simp: RollForward_def bind_eq_Some_conv Let_def)
    obtain txs where f: "Peek zero_BlockHeader (bi_unconfirmedBlocks bi) = Some f" "getTxs f = Inr txs"
      using pk g by blast
    obtain d res where p: "processConfirmedBlock bolt_dict bi f txs = (d, Inr res)" "alist_db d"
      using alist_process_total [OF db] by blast
    obtain blk rel pt where res: "res = (blk, rel, pt)" by (cases res)
    obtain d' where d': "bi_confirmedBlockHandler bi d blk rel = (d', None)" "alist_db d'"
      using total p(2) unfolding alist_total_def by blast
    have "r = None \<and> bi_db bi' = d'"
      using s(1) True f p(1) d'(1) by (auto simp: RollForward_def bind_eq_Some_conv Let_def res)
    with s d'(2) show ?thesis by simp
  qed
qed

lemma alist_forward_run:
  assumes "bi_wf bi" "alist_db (bi_db bi)" "alist_total (bi_confirmedBlockHandler bi)"
  shows "\<exists>bi'. sync_run bolt_dict bi (map (\<lambda>h. Forward h (\<lambda>_. Inr txs)) hs) = Some (bi', None)"
  using assms
proof (induction hs arbitrary: bi)
  case (Cons h hs)
  from alist_RollForward_ok [OF Cons.prems(1,2) _ Cons.prems(3), of "\<lambda>_. Inr txs" h] Cons.IH Cons.prems(3) show ?case by auto
qed simp

section \<open>Runs at concrete inputs\<close>

definition demo_indexer :: "bool \<Rightarrow> (bytes \<times> json) list BBoltDatabase BlockIndexer" where
  "demo_indexer keep = \<lparr>bi_config = \<lparr>cfg_StartingBlockPoint = None, cfg_ConfirmationBlockCount = 1,
       cfg_AddressesOfInterest = [''a''], cfg_KeepAllTxOutputsInDB = keep, cfg_AddressCheck = AddressCheckAll,
       cfg_SoftDeleteUtxo = False, cfg_KeepAllTxsHashesInBlock = False\<rparr>,
     bi_latestBlockPoint = None,
     bi_unconfirmedBlocks = \<lparr>cq_items = [zero_BlockHeader], cq_count = 0, cq_size = 1, cq_pos = 0\<rparr>,
     bi_confirmedBlockHandler = idle_handler, bi_addressesOfInterest = {''a''}, bi_db = demo_bolt\<rparr>"

definition demo_ref :: TxInput where
  "demo_ref = \<lparr>ti_Hash = zero_hash, ti_Index = 1\<rparr>"

definition demo_spend :: Tx where
  "demo_spend = \<lparr>tx_BlockSlot = 9, tx_BlockHash = zero_hash, tx_Indx = 0, tx_Hash = zero_hash,
     tx_Metadata = None, tx_Inputs = [\<lparr>tio_Input = demo_ref, tio_Output = zero_TxOutput\<rparr>],
     tx_Outputs = [zero_TxOutput\<lparr>to_Address := ''b''\<rparr>], tx_Fee = 3, tx_Valid = True\<rparr>"

definition demo_header :: "u64 \<Rightarrow> BlockHeader" where
  "demo_header s = \<lparr>bh_Slot = s, bh_Hash = zero_hash, bh_Number = s, bh_EraID = 6\<rparr>"

lemma demo_indexer_wf: "bi_wf (demo_indexer keep)" and demo_indexer_db: "alist_db (bi_db (demo_indexer keep))"
  and demo_indexer_inv: "bolt_inv (bi_db (demo_indexer keep))"
  by (simp_all add: demo_indexer_def bi_wf_def bi_capacity_def cq_capacity_def cq_inv_def alist_db_def
    demo_bolt_ops demo_bolt_open demo_bolt_inv)

lemma demo_spend_facts:
  "block_txs_ok [demo_spend]" "spends [demo_spend] demo_ref" "\<not> created_at [demo_spend] demo_ref out"
  by (simp_all add: block_txs_ok_def demo_spend_def spends_def created_at_def demo_ref_def)

theorem keep_all_tracks_utxo_set_witness:
  "\<exists>d res. processConfirmedBlock bolt_dict (demo_indexer True) (demo_header 9) [demo_spend] = (d, Inr res) \<and>
     cs_outputs (bolt_store d) demo_ref = None"
proof -
  obtain d res where p: "processConfirmedBlock bolt_dict (demo_indexer True) (demo_header 9) [demo_spend] = (d, Inr res)"
    using alist_process_total [OF demo_indexer_db] by blast
  have "cfg_KeepAllTxOutputsInDB (bi_config (demo_indexer True))" by (simp add: demo_indexer_def)
  from keep_all_tracks_utxo_set [OF demo_indexer_inv this demo_spend_facts(1) p]
  have "cs_outputs (bolt_store d) demo_ref = None"
    by (simp add: utxo_step_def demo_spend_facts spend_mark_def demo_indexer_def)
  with p show ?thesis by blast
qed

theorem address_mode_tracks_known_outputs_witness:
  "\<exists>d res. processConfirmedBlock bolt_dict (demo_indexer False) (demo_header 9) [demo_spend] = (d, Inr res) \<and>
     cs_outputs (bolt_store d) demo_ref = None"
proof -
  let ?b = "demo_indexer False"
  obtain d res where p: "processConfirmedBlock bolt_dict ?b (demo_header 9) [demo_spend] = (d, Inr res)"
    using alist_process_total [OF demo_indexer_db] by blast
  have h: "\<not> cfg_KeepAllTxOutputsInDB (bi_config ?b)" "bi_addressesOfInterest ?b \<noteq> {}"
    "cfg_AddressCheck (bi_config ?b) AND AddressCheckInputs \<noteq> 0"
    "cfg_AddressCheck (bi_config ?b) AND AddressCheckOutputs \<noteq> 0"
    by (simp_all add: demo_indexer_def AddressCheckAll_def AddressCheckInputs_def AddressCheckOutputs_def)
  have "store_output (bolt_store demo_bolt) demo_ref = zero_TxOutput\<lparr>to_Address := ''a'', to_Amount := 5\<rparr>"
    by (simp add: store_output_def demo_bolt_store demo_ref_def)
  then have k: "spends_known (bolt_store (bi_db ?b)) (bi_addressesOfInterest ?b) [demo_spend] demo_ref"
    by (simp add: spends_known_def demo_spend_def populated_input_def zero_TxOutput_def demo_indexer_def)
  from address_mode_tracks_known_outputs [OF demo_indexer_inv h(1) demo_spend_facts(1) h(2-4) p] k
  have "cs_outputs (bolt_store d) demo_ref = None"
    by (simp add: utxo_step_def demo_spend_facts spend_mark_def) (simp add: demo_indexer_def)
  with p show ?thesis by blast
qed

theorem RollForward_on_bolt_witness:
  "\<exists>bi'. RollForward bolt_dict (demo_indexer True) (demo_header 9) (\<lambda>_. Inr []) = Some (bi', None) \<and>
     bi_window bi' = [demo_header 9]"
proof -
  let ?b = "demo_indexer True"
  have w: "bi_window ?b = []" "bi_capacity ?b = 1"
    by (simp_all add: bi_window_def demo_indexer_def cq_contents_def bi_capacity_def cq_capacity_def)
  from RollForward_on_bolt [OF demo_indexer_wf [of True] demo_indexer_inv, where h = "demo_header 9" and getTxs = "\<lambda>_. Inr []"]
  show ?thesis using w by (auto simp: forward_waits_def forward_fails_def forward_confirms_def)
qed

theorem RollBackward_effect_witness:
  "\<exists>bi'. RollBackward ((demo_indexer True)\<lparr>bi_latestBlockPoint := Some zero_BlockPoint\<rparr>) zero_BlockPoint =
     Some (bi', None) \<and> bi_window bi' = []"
proof -
  let ?b = "(demo_indexer True)\<lparr>bi_latestBlockPoint := Some zero_BlockPoint\<rparr>"
  have "bi_wf ?b" using demo_indexer_wf [of True] by (simp add: bi_wf_def bi_capacity_def)
  moreover have "bi_window ?b = []" by (simp add: bi_window_def demo_indexer_def cq_contents_def)
  ultimately show ?thesis using RollBackward_effect [of ?b zero_BlockPoint zero_BlockPoint] by auto
qed

theorem indexer_follows_chain_witness:
  "\<exists>bi0 bi' base. Reset bolt_dict (demo_indexer True) = (bi0, Inr base) \<and>
     sync_run bolt_dict bi0
       (map (\<lambda>h. Forward h (\<lambda>_. Inr [demo_spend])) [demo_header 5, demo_header 9]) = Some (bi', None) \<and>
     length (bi_window bi') \<le> 1 \<and> (\<exists>b. cs_blocks (bolt_store (bi_db bi')) 5 = Some b \<and> cb_Hash b = zero_hash)"
proof -
  let ?b = "demo_indexer True" and ?evs = "map (\<lambda>h. Forward h (\<lambda>_. Inr [demo_spend])) [demo_header 5, demo_header 9]"
  have "cs_point (bolt_store demo_bolt) = None"
    using bolt_Execute_ok [OF empty_bolt_inv demo_bolt_Execute] by (simp add: empty_bolt_store)
  then have gp: "db_GetLatestBlockPoint bolt_dict (bi_db ?b) = Inr None"
    by (simp add: bolt_dict_def bolt_GetLatestBlockPoint_eq demo_indexer_inv)
      (simp add: demo_indexer_def demo_bolt_open)
  then obtain bi0 where r: "Reset bolt_dict ?b = (bi0, Inr zero_BlockPoint)"
    by (simp add: Reset_def Let_def demo_indexer_def)
  note rok = bolt.Reset_ok [OF demo_indexer_wf demo_indexer_inv r]
  have "alist_db (bi_db bi0)" using rok(5) demo_indexer_db by simp
  moreover have "alist_total (bi_confirmedBlockHandler bi0)" using rok(8) idle_total by (simp add: demo_indexer_def)
  ultimately obtain bi' where
    run: "sync_run bolt_dict bi0 ?evs = Some (bi', None)"
    using alist_forward_run [OF rok(2)] by blast
  have "keeps_chain bolt_inv bolt_store (bi_confirmedBlockHandler ?b)"
    using idle_keeps_chain by (simp add: demo_indexer_def)
  note kc = this
  have ch: "chain_run zero_BlockPoint [] ?evs = Some [demo_header 5, demo_header 9]"
    by (simp add: demo_header_def zero_BlockPoint_def)
  have "bi_capacity ?b = 1" by (simp add: demo_indexer_def bi_capacity_def cq_capacity_def)
  with indexer_follows_chain [OF demo_indexer_wf demo_indexer_inv kc r run ch]
  obtain conf where conf: "[demo_header 5, demo_header 9] = conf @ bi_window bi'" "length (bi_window bi') \<le> 1"
    "chain_stored (bolt_store (bi_db ?b)) conf (bolt_store (bi_db bi'))" by auto
  have "length conf + length (bi_window bi') = 2" using arg_cong [OF conf(1), of length] by simp
  with conf(2) have "conf \<noteq> []" by auto
  with conf(1) have "demo_header 5 \<in> set conf" by (cases conf) auto
  with conf(3) obtain b where "cs_blocks (bolt_store (bi_db bi')) 5 = Some b" "cb_Hash b = zero_hash"
    unfolding chain_stored_def by (fastforce simp: demo_header_def)
  with r run conf(2) show ?thesis by blast
qed

theorem Reset_resumes_witness:
  "\<exists>bi'. Reset bolt_dict ((demo_indexer True)\<lparr>bi_db := empty_bolt\<rparr>) = (bi', Inr zero_BlockPoint) \<and> bi_window bi' = []"
proof -
  let ?b = "(demo_indexer True)\<lparr>bi_db := empty_bolt\<rparr>"
  have "bi_wf ?b" using demo_indexer_wf [of True] by (simp add: bi_wf_def bi_capacity_def)
  then show ?thesis
    using Reset_resumes [of ?b] by (simp add: empty_bolt_inv empty_bolt_open empty_bolt_store) (auto simp: demo_indexer_def)
qed

end
