(* ===== verification/Runner.thy ===== *)
theory Runner
  imports Indexer_Props
begin

text \<open>
  The block indexer runner (\<open>indexer/block_indexer_runner.go\<close>): a queue between the
  chain-sync client and a \<open>BlockSyncerHandler\<close>, drained by one goroutine that repeats an
  item until it succeeds or fails for good. The goroutine, the callers of \<open>RollForward\<close>,
  \<open>RollBackward\<close>, \<open>Reset\<close> and \<open>Close\<close>, and the reader of the error channel interleave
  as the labelled steps of \<open>runner_step\<close>. A channel that is only ever closed is the flag
  that it is closed.
\<close>

section \<open>The handler interface\<close>

text \<open>\<open>BlockSyncerHandler\<close>; \<open>None\<close> is a panic.\<close>

record 'h BlockSyncerHandler =
  sh_RollBackward :: "'h \<Rightarrow> BlockPoint \<Rightarrow> ('h \<times> goerror option) option"
  sh_RollForward :: "'h \<Rightarrow> BlockHeader \<Rightarrow> BlockTxsRetriever \<Rightarrow> ('h \<times> goerror option) option"
  sh_Reset :: "'h \<Rightarrow> 'h \<times> BlockPoint result"

text \<open>A \<open>blockIndexerRunnerQueueItem\<close> holds a point, or a header with its retriever.\<close>

type_synonym blockIndexerRunnerQueueItem = sync_event

definition item_String :: "blockIndexerRunnerQueueItem \<Rightarrow> string" where
  "item_String item = (case item of
     Backward p \<Rightarrow> ''backward '' @ point_text p
   | Forward h _ \<Rightarrow> ''forward '' @ point_text (header_point h))"

text \<open>One round of the loop of \<open>execute\<close>: the call and how its error is classified.\<close>

datatype attempt = Processed | Fatal goerror | Skipped goerror | Retried goerror

definition handler_call :: "'h BlockSyncerHandler \<Rightarrow> 'h \<Rightarrow> blockIndexerRunnerQueueItem \<Rightarrow> ('h \<times> goerror option) option" where
  "handler_call H h item = (case item of
     Backward p \<Rightarrow> sh_RollBackward H h p
   | Forward header getTxs \<Rightarrow> sh_RollForward H h header getTxs)"

definition classify :: "goerror option \<Rightarrow> attempt" where
  "classify err = (case err of
     None \<Rightarrow> Processed
   | Some e \<Rightarrow>
       if err_is e ErrBlockIndexerFatal then Fatal e
       else if \<not> err_as_process e then Skipped e
       else Retried e)"

section \<open>State and steps\<close>

text \<open>
  Where the goroutine is: waiting in the main loop's \<open>select\<close>, about to call the handler,
  waiting for the retry delay, sending a fatal error, or returned.
\<close>

datatype phase = Idle | Executing blockIndexerRunnerQueueItem | Delaying blockIndexerRunnerQueueItem
  | Sending goerror | Finished

record 'h BlockIndexerRunner =
  ru_handler :: 'h
  ru_queueCh :: "blockIndexerRunnerQueueItem list"
  ru_queueSize :: nat
  ru_closeCh :: bool
  ru_stopLoopCh :: bool
  ru_loopFinishedCh :: bool
  ru_errorCh :: "goerror list"
  ru_phase :: phase
  ru_resetting :: bool

definition NewBlockIndexerRunner :: "'h \<Rightarrow> nat \<Rightarrow> 'h BlockIndexerRunner" where
  "NewBlockIndexerRunner h n = \<lparr>ru_handler = h, ru_queueCh = [], ru_queueSize = n, ru_closeCh = False,
     ru_stopLoopCh = False, ru_loopFinishedCh = True, ru_errorCh = [], ru_phase = Finished,
     ru_resetting = False\<rparr>"

datatype runner_label =
    Accepted blockIndexerRunnerQueueItem
  | Dropped blockIndexerRunnerQueueItem
  | Took blockIndexerRunnerQueueItem
  | Ran blockIndexerRunnerQueueItem attempt
  | DelayOver
  | LoopStopped
  | SentError goerror
  | ReadError goerror
  | ClosedRunner
  | ResetStopsLoop
  | ResetDone BlockPoint
  | ResetFailed goerror
  | ResetAborted

definition after_attempt :: "blockIndexerRunnerQueueItem \<Rightarrow> attempt \<Rightarrow> phase" where
  "after_attempt item a = (case a of
     Processed \<Rightarrow> Idle | Fatal e \<Rightarrow> Sending e | Skipped e \<Rightarrow> Idle | Retried e \<Rightarrow> Delaying item)"

text \<open>
  \<open>RollForward\<close> and \<open>RollBackward\<close> put an item in the queue if there is room (or hand it
  to the waiting loop), or give up when the loop is stopped or the runner closed. \<open>Reset\<close> is
  three steps: it closes \<open>stopLoopCh\<close>, waits for the loop to end, and after a successful
  inner \<open>Reset\<close> makes new channels and starts the loop again.
\<close>

inductive runner_step ::
  "'h BlockSyncerHandler \<Rightarrow> 'h BlockIndexerRunner \<Rightarrow> runner_label \<Rightarrow> 'h BlockIndexerRunner \<Rightarrow> bool"
  for H
where
  enqueue: "length (ru_queueCh r) < ru_queueSize r \<Longrightarrow>
    runner_step H r (Accepted it) (r\<lparr>ru_queueCh := ru_queueCh r @ [it]\<rparr>)"
| hand_over: "ru_queueCh r = [] \<Longrightarrow> ru_phase r = Idle \<Longrightarrow>
    runner_step H r (Accepted it) (r\<lparr>ru_phase := Executing it\<rparr>)"
| give_up: "ru_stopLoopCh r \<or> ru_closeCh r \<Longrightarrow> runner_step H r (Dropped it) r"
| take_item: "ru_phase r = Idle \<Longrightarrow> ru_queueCh r = it # q \<Longrightarrow>
    runner_step H r (Took it) (r\<lparr>ru_queueCh := q, ru_phase := Executing it\<rparr>)"
| run: "ru_phase r = Executing it \<Longrightarrow> handler_call H (ru_handler r) it = Some (h', e) \<Longrightarrow>
    runner_step H r (Ran it (classify e)) (r\<lparr>ru_handler := h', ru_phase := after_attempt it (classify e)\<rparr>)"
| retry: "ru_phase r = Delaying it \<Longrightarrow> runner_step H r DelayOver (r\<lparr>ru_phase := Executing it\<rparr>)"
| stop_idle: "ru_phase r = Idle \<Longrightarrow> ru_stopLoopCh r \<or> ru_closeCh r \<Longrightarrow>
    runner_step H r LoopStopped (r\<lparr>ru_phase := Finished, ru_loopFinishedCh := True\<rparr>)"
| stop_delay: "ru_phase r = Delaying it \<Longrightarrow> ru_stopLoopCh r \<or> ru_closeCh r \<Longrightarrow>
    runner_step H r LoopStopped (r\<lparr>ru_phase := Finished, ru_loopFinishedCh := True\<rparr>)"
| send: "ru_phase r = Sending e \<Longrightarrow> ru_errorCh r = [] \<Longrightarrow>
    runner_step H r (SentError e) (r\<lparr>ru_errorCh := [e], ru_phase := Finished, ru_loopFinishedCh := True\<rparr>)"
| read: "ru_errorCh r = [e] \<Longrightarrow> runner_step H r (ReadError e) (r\<lparr>ru_errorCh := []\<rparr>)"
| close: "runner_step H r ClosedRunner (r\<lparr>ru_closeCh := True\<rparr>)"
| reset_stop: "\<not> ru_resetting r \<Longrightarrow> \<not> ru_stopLoopCh r \<Longrightarrow>
    runner_step H r ResetStopsLoop (r\<lparr>ru_stopLoopCh := True, ru_resetting := True\<rparr>)"
| reset_abort: "ru_resetting r \<Longrightarrow> ru_closeCh r \<Longrightarrow>
    runner_step H r ResetAborted (r\<lparr>ru_resetting := False\<rparr>)"
| reset_fail: "ru_resetting r \<Longrightarrow> ru_loopFinishedCh r \<Longrightarrow> sh_Reset H (ru_handler r) = (h', Inl e) \<Longrightarrow>
    runner_step H r (ResetFailed e) (r\<lparr>ru_handler := h', ru_resetting := False\<rparr>)"
| reset_done: "ru_resetting r \<Longrightarrow> ru_loopFinishedCh r \<Longrightarrow> sh_Reset H (ru_handler r) = (h', Inr p) \<Longrightarrow>
    runner_step H r (ResetDone p) (r\<lparr>ru_handler := h', ru_resetting := False, ru_queueCh := [],
      ru_loopFinishedCh := False, ru_stopLoopCh := False, ru_phase := Idle\<rparr>)"

text \<open>A \<open>Reset\<close> that finds \<open>stopLoopCh\<close> closed closes it again: the call panics.\<close>

definition reset_panics :: "'h BlockIndexerRunner \<Rightarrow> bool" where
  "reset_panics r \<longleftrightarrow> ru_stopLoopCh r"

inductive_cases step_acceptedE: "runner_step H r (Accepted it) r'"
inductive_cases step_ranE: "runner_step H r (Ran it a) r'"

section \<open>Runs of one loop\<close>

text \<open>
  The steps after a \<open>Reset\<close>, up to the next one: the items accepted so far, and the
  attempts made, in order.
\<close>

definition is_reset :: "runner_label \<Rightarrow> bool" where
  "is_reset l = (case l of ResetDone _ \<Rightarrow> True | ResetFailed _ \<Rightarrow> True | _ \<Rightarrow> False)"

definition accepted_by :: "runner_label \<Rightarrow> blockIndexerRunnerQueueItem list" where
  "accepted_by l = (case l of Accepted it \<Rightarrow> [it] | _ \<Rightarrow> [])"

definition tried_by :: "runner_label \<Rightarrow> (blockIndexerRunnerQueueItem \<times> attempt) list" where
  "tried_by l = (case l of Ran it a \<Rightarrow> [(it, a)] | _ \<Rightarrow> [])"

inductive runner_run ::
  "'h BlockSyncerHandler \<Rightarrow> 'h BlockIndexerRunner \<Rightarrow> blockIndexerRunnerQueueItem list \<Rightarrow>
     (blockIndexerRunnerQueueItem \<times> attempt) list \<Rightarrow> 'h BlockIndexerRunner \<Rightarrow> bool"
  for H r0
where
  start: "runner_run H r0 [] [] r0"
| step: "runner_run H r0 acc tried r \<Longrightarrow> runner_step H r l r' \<Longrightarrow> \<not> is_reset l \<Longrightarrow>
    runner_run H r0 (acc @ accepted_by l) (tried @ tried_by l) r'"

text \<open>The items whose attempt ended the work on them.\<close>

definition settled :: "attempt \<Rightarrow> bool" where
  "settled a = (case a of Processed \<Rightarrow> True | Skipped _ \<Rightarrow> True | _ \<Rightarrow> False)"

definition done_items :: "(blockIndexerRunnerQueueItem \<times> attempt) list \<Rightarrow> blockIndexerRunnerQueueItem list" where
  "done_items tried = map fst (filter (\<lambda>x. settled (snd x)) tried)"

text \<open>The handler after one call per item.\<close>

fun replay :: "'h BlockSyncerHandler \<Rightarrow> 'h \<Rightarrow> blockIndexerRunnerQueueItem list \<Rightarrow> 'h option" where
  "replay H h [] = Some h"
| "replay H h (it # its) =
     (case handler_call H h it of None \<Rightarrow> None | Some (h', e) \<Rightarrow> replay H h' its)"

definition in_hand :: "phase \<Rightarrow> blockIndexerRunnerQueueItem list" where
  "in_hand ph = (case ph of Executing it \<Rightarrow> [it] | Delaying it \<Rightarrow> [it] | _ \<Rightarrow> [])"

definition alive :: "phase \<Rightarrow> bool" where
  "alive ph = (case ph of Sending _ \<Rightarrow> False | Finished \<Rightarrow> False | _ \<Rightarrow> True)"

lemma replay_append: "replay H h (xs @ ys) = Option.bind (replay H h xs) (\<lambda>h'. replay H h' ys)"
  by (induction xs arbitrary: h) (auto split: option.splits)

lemma done_items_append [simp]: "done_items (xs @ ys) = done_items xs @ done_items ys"
  by (simp add: done_items_def)

section \<open>The contract of the handler\<close>

text \<open>
  What the runner needs of its handler: in a good state no call panics, and a call that is
  repeated, or that ends the loop, has left the state as it was.
\<close>

locale sync_handler =
  fixes H :: "'h BlockSyncerHandler"
    and ready :: "'h \<Rightarrow> bool"
    and good :: "'h \<Rightarrow> bool"
  assumes call_ok: "good h \<Longrightarrow> \<exists>h' e. handler_call H h it = Some (h', e) \<and> good h' \<and>
      (\<not> settled (classify e) \<longrightarrow> h' = h)"
    and reset_ok: "ready h \<Longrightarrow> sh_Reset H h = (h', Inr p) \<Longrightarrow> good h'"
    and good_ready: "good h \<Longrightarrow> ready h"
begin

lemma run_invariant:
  assumes "runner_run H r0 acc tried r" "good (ru_handler r0)" "ru_queueCh r0 = []" "ru_phase r0 = Idle"
    "\<not> ru_loopFinishedCh r0"
  shows "good (ru_handler r) \<and> replay H (ru_handler r0) (done_items tried) = Some (ru_handler r) \<and>
    (ru_loopFinishedCh r \<longleftrightarrow> ru_phase r = Finished) \<and>
    (\<exists>lost. acc = done_items tried @ in_hand (ru_phase r) @ lost @ ru_queueCh r \<and>
       (alive (ru_phase r) \<longrightarrow> lost = []))"
  using assms
proof (induction rule: runner_run.induct)
  case start
  then show ?case by (simp add: done_items_def in_hand_def)
next
  case (step acc tried r l r')
  then have IH: "good (ru_handler r)" "replay H (ru_handler r0) (done_items tried) = Some (ru_handler r)"
    "ru_loopFinishedCh r \<longleftrightarrow> ru_phase r = Finished" by auto
  obtain lost where lost: "acc = done_items tried @ in_hand (ru_phase r) @ lost @ ru_queueCh r"
    "alive (ru_phase r) \<longrightarrow> lost = []" using step by blast
  note defs = accepted_by_def tried_by_def done_items_def in_hand_def alive_def is_reset_def
  from step.hyps(2) show ?case
  proof cases
    case (run it h' e)
    obtain h2 e2 where c: "handler_call H (ru_handler r) it = Some (h2, e2)" "good h2"
      "\<not> settled (classify e2) \<longrightarrow> h2 = ru_handler r" using call_ok [OF IH(1), of it] by blast
    have same: "h2 = h'" "e2 = e" using c(1) run(4) by auto
    have lost0: "lost = []" "in_hand (ru_phase r) = [it]" using lost(2) run(3) by (simp_all add: alive_def in_hand_def)
    show ?thesis
    proof (cases "settled (classify e)")
      case True
      have "replay H (ru_handler r0) (done_items (tried @ [(it, classify e)])) = Some h'"
        using IH(2) run(4) True by (simp add: done_items_def replay_append)
      moreover have "in_hand (after_attempt it (classify e)) = []" "alive (after_attempt it (classify e))"
        "after_attempt it (classify e) \<noteq> Finished"
        using True by (auto simp: settled_def after_attempt_def in_hand_def alive_def split: attempt.splits)
      ultimately show ?thesis
        using c same lost(1) lost0 run True IH(3)
        by (simp add: accepted_by_def tried_by_def done_items_def)
    next
      case False
      then have h': "h' = ru_handler r" using c(3) same by simp
      have "in_hand (after_attempt it (classify e)) = [it] \<and> alive (after_attempt it (classify e)) \<or>
          in_hand (after_attempt it (classify e)) = [] \<and> \<not> alive (after_attempt it (classify e))"
        "after_attempt it (classify e) \<noteq> Finished"
        using False by (auto simp: settled_def after_attempt_def in_hand_def alive_def split: attempt.splits)
      then show ?thesis
        using lost(1) lost0 run False IH h'
        by (auto simp: accepted_by_def tried_by_def done_items_def)
    qed
  qed (use IH lost step.hyps(3) in \<open>auto simp: defs split: phase.splits\<close>)
qed

end

end
