(* ===== verification/Ledger_Txs.thy ===== *)
theory Ledger_Txs
  imports Chain_Data
begin

text \<open>
  From ledger transactions to indexer transactions (\<open>indexer/gouroboros/utils.go\<close>,
  \<open>tx_info_parser.go\<close>, \<open>txs_retriever.go\<close>). A transaction, an output or the assets of the gouroboros
  library are what their methods return; parsing a transaction of an era and fetching a block are
  parameters.
\<close>

section \<open>What the library returns\<close>

record MultiAsset =
  ma_Policies :: "bytes list"
  ma_PolicyString :: "bytes \<Rightarrow> string"
  ma_Assets :: "bytes \<Rightarrow> bytes list"
  ma_Asset :: "bytes \<Rightarrow> bytes \<Rightarrow> u64"

text \<open>Transaction ids and datum hashes are arrays of \<open>HashSize\<close> bytes in the library.\<close>

record LedgerInput =
  li_Id :: Hash
  li_Index :: u32

record LedgerOutput =
  lo_Address :: string
  lo_Amount :: u64
  lo_Assets :: "MultiAsset option"
  lo_Datum :: "bytes option"
  lo_DatumHash :: "Hash option"

text \<open>\<open>lt_Metadata\<close>: no metadata, or its CBOR, which may be nil.\<close>

record LedgerTx =
  lt_Hash :: string
  lt_Fee :: u64
  lt_TTL :: u64
  lt_IsValid :: bool
  lt_Metadata :: "bytes option option"
  lt_Inputs :: "LedgerInput list"
  lt_Outputs :: "LedgerOutput list"

section \<open>Conversion\<close>

definition ledger_tokens :: "MultiAsset option \<Rightarrow> TokenAmount list" where
  "ledger_tokens assets =
     (case assets of
        None \<Rightarrow> []
      | Some assets \<Rightarrow> concat (map (\<lambda>policyIDRaw.
          map (\<lambda>asset. \<lparr>ta_PolicyID = ma_PolicyString assets policyIDRaw, ta_Name = bytes_str asset,
            ta_Amount = ma_Asset assets policyIDRaw asset\<rparr>) (ma_Assets assets policyIDRaw)) (ma_Policies assets)))"

definition createTxOutput :: "u64 \<Rightarrow> LedgerOutput \<Rightarrow> TxOutput" where
  "createTxOutput slot txOut =
     \<lparr>to_Address = lo_Address txOut, to_Slot = slot, to_Amount = lo_Amount txOut,
       to_Datum = (case lo_Datum txOut of None \<Rightarrow> [] | Some d \<Rightarrow> d),
       to_DatumHash = (case lo_DatumHash txOut of None \<Rightarrow> zero_hash | Some tmp \<Rightarrow> tmp), to_IsUsed = False,
       to_Tokens = ledger_tokens (lo_Assets txOut)\<rparr>"

text \<open>The output of an input is set later by the indexer.\<close>

definition createTx :: "BlockHeader \<Rightarrow> LedgerTx \<Rightarrow> u32 \<Rightarrow> Tx result" where
  "createTx blockHeader ledgerTx indx =
     Inr \<lparr>tx_BlockSlot = bh_Slot blockHeader, tx_BlockHash = bh_Hash blockHeader, tx_Indx = indx,
       tx_Hash = NewHashFromHexString (lt_Hash ledgerTx),
       tx_Metadata = (case lt_Metadata ledgerTx of None \<Rightarrow> None | Some cbor \<Rightarrow> cbor),
       tx_Inputs = map (\<lambda>inp. \<lparr>tio_Input = \<lparr>ti_Hash = li_Id inp, ti_Index = li_Index inp\<rparr>, tio_Output = zero_TxOutput\<rparr>)
         (lt_Inputs ledgerTx),
       tx_Outputs = map (createTxOutput (bh_Slot blockHeader)) (lt_Outputs ledgerTx),
       tx_Fee = lt_Fee ledgerTx, tx_Valid = lt_IsValid ledgerTx\<rparr>"

section \<open>Transactions of a block\<close>

fun create_txs :: "BlockHeader \<Rightarrow> nat \<Rightarrow> LedgerTx list \<Rightarrow> Tx list result" where
  "create_txs blockHeader i [] = Inr []"
| "create_txs blockHeader i (ledgerTx # txs) =
     (case createTx blockHeader ledgerTx (word_of_nat i) of
        Inl err \<Rightarrow> Inl err
      | Inr tx \<Rightarrow>
          (case create_txs blockHeader (i + 1) txs of Inl err \<Rightarrow> Inl err | Inr rest \<Rightarrow> Inr (tx # rest)))"

text \<open>\<open>GetBlock\<close> answers for a slot and the bytes of a hash.\<close>

definition GetBlockTransactions :: "(u64 \<Rightarrow> bytes \<Rightarrow> LedgerTx list result) \<Rightarrow> BlockHeader \<Rightarrow> Tx list result" where
  "GetBlockTransactions GetBlock blockHeader =
     (case GetBlock (bh_Slot blockHeader) (hash_bytes (bh_Hash blockHeader)) of
        Inl err \<Rightarrow> Inl err
      | Inr ledgerTxs \<Rightarrow> create_txs blockHeader 0 ledgerTxs)"

section \<open>Raw transactions\<close>

fun first_parse :: "(bytes \<Rightarrow> LedgerTx result) list \<Rightarrow> bytes \<Rightarrow> LedgerTx result" where
  "first_parse [] data = Inl (ErrMsg ''unknown transaction type'')"
| "first_parse (p # ps) data = (case p data of Inr tx \<Rightarrow> Inr tx | Inl _ \<Rightarrow> first_parse ps data)"

record era_parsers =
  ep_Conway :: "bytes \<Rightarrow> LedgerTx result"
  ep_Babbage :: "bytes \<Rightarrow> LedgerTx result"
  ep_Alonzo :: "bytes \<Rightarrow> LedgerTx result"
  ep_Mary :: "bytes \<Rightarrow> LedgerTx result"
  ep_Allegra :: "bytes \<Rightarrow> LedgerTx result"
  ep_Shelley :: "bytes \<Rightarrow> LedgerTx result"

definition tryParseTxRaw :: "era_parsers \<Rightarrow> bytes \<Rightarrow> LedgerTx result" where
  "tryParseTxRaw E data = first_parse [ep_Conway E, ep_Babbage E, ep_Alonzo E, ep_Mary E, ep_Allegra E, ep_Shelley E] data"

definition ParseTxInfo :: "era_parsers \<Rightarrow> bytes \<Rightarrow> bool \<Rightarrow> TxInfo result" where
  "ParseTxInfo E rawTx full =
     (case tryParseTxRaw E rawTx of
        Inl err \<Rightarrow> Inl (ErrWrap ''failed to parse tx: '' err '''')
      | Inr gtx \<Rightarrow> Inr \<lparr>tinf_Hash = lt_Hash gtx,
          tinf_MetaData = (case lt_Metadata gtx of Some (Some cbor) \<Rightarrow> cbor | _ \<Rightarrow> []),
          tinf_TTL = lt_TTL gtx, tinf_Fee = lt_Fee gtx, tinf_IsValid = lt_IsValid gtx,
          tinf_Inputs = (if full then map (\<lambda>inp. \<lparr>ti_Hash = li_Id inp, ti_Index = li_Index inp\<rparr>) (lt_Inputs gtx) else []),
          tinf_Outputs = (if full then map (createTxOutput 0) (lt_Outputs gtx) else [])\<rparr>)"

section \<open>Properties\<close>

lemma create_txs_nth:
  "create_txs h i ltxs = Inr txs \<Longrightarrow> length txs = length ltxs \<and>
     (\<forall>k < length ltxs. createTx h (ltxs ! k) (word_of_nat (i + k)) = Inr (txs ! k))"
proof (induction ltxs arbitrary: i txs)
  case (Cons l ls)
  then obtain t ts where t: "createTx h l (word_of_nat i) = Inr t" "create_txs h (i + 1) ls = Inr ts" "txs = t # ts"
    by (auto split: sum.splits)
  show ?case
  proof (intro conjI allI impI)
    show "length txs = length (l # ls)" using Cons.IH [OF t(2)] t(3) by simp
    fix k assume k: "k < length (l # ls)"
    show "createTx h ((l # ls) ! k) (word_of_nat (i + k)) = Inr (txs ! k)"
    proof (cases k)
      case (Suc j)
      then show ?thesis using Cons.IH [OF t(2)] t(3) k by (simp add: add.assoc)
    qed (use t in simp)
  qed
qed simp

text \<open>
  The two ways to read a transaction agree: the transaction number \<open>k\<close> of a block is stored under the
  slot and hash of the block and the index \<open>k\<close>, with its inputs in order and not yet resolved; and when the
  same transaction is parsed from its bytes, whatever era it is found to be of, the parsed inputs are those
  inputs, the parsed outputs are those outputs up to the slot, and fee, validity and hash are the same.
\<close>

theorem parsed_and_indexed_agree:
  assumes "GetBlockTransactions GetBlock h = Inr txs" "GetBlock (bh_Slot h) (hash_bytes (bh_Hash h)) = Inr ltxs"
    "k < length ltxs" "tryParseTxRaw E raw = Inr (ltxs ! k)"
  shows "length txs = length ltxs \<and> (\<exists>info. ParseTxInfo E raw True = Inr info \<and>
    tx_BlockSlot (txs ! k) = bh_Slot h \<and> tx_BlockHash (txs ! k) = bh_Hash h \<and> tx_Indx (txs ! k) = word_of_nat k \<and>
    (\<forall>io \<in> set (tx_Inputs (txs ! k)). to_Address (tio_Output io) = []) \<and>
    tinf_Inputs info = map tio_Input (tx_Inputs (txs ! k)) \<and>
    tinf_Outputs info = map (\<lambda>out. out\<lparr>to_Slot := 0\<rparr>) (tx_Outputs (txs ! k)) \<and>
    tinf_Fee info = tx_Fee (txs ! k) \<and> tinf_IsValid info = tx_Valid (txs ! k) \<and>
    NewHashFromHexString (tinf_Hash info) = tx_Hash (txs ! k))"
proof -
  have "create_txs h 0 ltxs = Inr txs" using assms(1,2) by (auto simp: GetBlockTransactions_def)
  from create_txs_nth [OF this] assms(3) have len: "length txs = length ltxs" and k: "createTx h (ltxs ! k) (word_of_nat k) = Inr (txs ! k)"
    by simp_all
  from k have t: "txs ! k = projr (createTx h (ltxs ! k) (word_of_nat k))" by simp
  show ?thesis unfolding t using len assms(4)
    by (simp add: ParseTxInfo_def createTx_def createTxOutput_def zero_TxOutput_def comp_def)
qed

definition demo_ltx :: LedgerTx where
  "demo_ltx = \<lparr>lt_Hash = ''ab'', lt_Fee = 5, lt_TTL = 9, lt_IsValid = True, lt_Metadata = Some None,
     lt_Inputs = [\<lparr>li_Id = zero_hash, li_Index = 3\<rparr>],
     lt_Outputs = [\<lparr>lo_Address = ''addr'', lo_Amount = 7, lo_Assets = None, lo_Datum = None, lo_DatumHash = None\<rparr>]\<rparr>"

definition demo_parsers :: era_parsers where
  "demo_parsers = \<lparr>ep_Conway = (\<lambda>_. Inl (ErrMsg ''no'')), ep_Babbage = (\<lambda>_. Inr demo_ltx), ep_Alonzo = (\<lambda>_. Inl (ErrMsg ''no'')),
     ep_Mary = (\<lambda>_. Inl (ErrMsg ''no'')), ep_Allegra = (\<lambda>_. Inl (ErrMsg ''no'')), ep_Shelley = (\<lambda>_. Inl (ErrMsg ''no''))\<rparr>"

theorem parsed_and_indexed_agree_witness:
  "\<exists>txs info. GetBlockTransactions (\<lambda>_ _. Inr [demo_ltx]) zero_BlockHeader = Inr txs \<and>
     ParseTxInfo demo_parsers [1] True = Inr info \<and> tinf_Inputs info = map tio_Input (tx_Inputs (txs ! 0)) \<and>
     tinf_Outputs info = map (\<lambda>out. out\<lparr>to_Slot := 0\<rparr>) (tx_Outputs (txs ! 0))"
proof -
  obtain txs where txs: "GetBlockTransactions (\<lambda>_ _. Inr [demo_ltx]) zero_BlockHeader = Inr txs"
    by (auto simp: GetBlockTransactions_def createTx_def)
  have "tryParseTxRaw demo_parsers [1] = Inr ([demo_ltx] ! 0)" by (simp add: tryParseTxRaw_def demo_parsers_def)
  from parsed_and_indexed_agree [OF txs refl _ this] txs show ?thesis by auto
qed

end
