(* ===== verification/Block_Syncer.thy ===== *)
theory Block_Syncer
  imports Runner Ledger_Txs
begin

text \<open>
  The block syncer (\<open>indexer/gouroboros/block_syncer.go\<close>): it connects to a node, resumes at the point
  its handler gives, hands the callbacks of the chain-sync client to the handler, and starts again after
  an error. The goroutines that wait, sleep or hold the lock are the \<open>threads\<close> of a state; the steps
  interleave them with \<open>Close\<close> and the callbacks. The part of \<open>syncExecute\<close> under the lock is one step.
  What a connection does is the parameter \<open>attempt_outcome\<close>.
\<close>

section \<open>Configuration\<close>

record BlockSyncerConfig =
  sc_NetworkMagic :: u32
  sc_NodeAddress :: string
  sc_RestartOnError :: bool
  sc_RestartDelay :: int
  sc_SyncStartTries :: int
  sc_KeepAlive :: bool

definition ProtocolTCP :: string where "ProtocolTCP = ''tcp''"
definition ProtocolUnix :: string where "ProtocolUnix = ''unix''"
definition syncStartTriesDefault :: int where "syncStartTriesDefault = 4"

definition Protocol :: "BlockSyncerConfig \<Rightarrow> string" where
  "Protocol bsc = (if has_prefix (sc_NodeAddress bsc) ''/'' then ProtocolUnix else ProtocolTCP)"

definition start_tries :: "BlockSyncerConfig \<Rightarrow> int" where
  "start_tries config = (let cntTries = sc_SyncStartTries config in
     if cntTries \<le> 0 then syncStartTriesDefault else cntTries)"

section \<open>Callbacks\<close>

text \<open>A point of the protocol has a slot and any bytes as its hash; the origin has neither.\<close>

record LedgerPoint =
  lp_Slot :: u64
  lp_Hash :: bytes

definition ledger_point :: "BlockPoint \<Rightarrow> LedgerPoint" where
  "ledger_point p = (if bp_BlockSlot p \<noteq> 0 then \<lparr>lp_Slot = bp_BlockSlot p, lp_Hash = hash_bytes (bp_BlockHash p)\<rparr>
     else \<lparr>lp_Slot = 0, lp_Hash = []\<rparr>)"

definition block_point :: "LedgerPoint \<Rightarrow> BlockPoint" where
  "block_point p = \<lparr>bp_BlockSlot = lp_Slot p,
     bp_BlockHash = (if length (lp_Hash p) = HashSize then NewHashFromBytes (lp_Hash p) else zero_hash)\<rparr>"

definition rollBackwardCallback :: "'h BlockSyncerHandler \<Rightarrow> 'h \<Rightarrow> LedgerPoint \<Rightarrow> ('h \<times> goerror option) option" where
  "rollBackwardCallback H h point = sh_RollBackward H h (block_point point)"

record LedgerHeader =
  lh_Slot :: u64
  lh_Hash :: string
  lh_Number :: u64
  lh_Era :: u8

definition block_header :: "LedgerHeader \<Rightarrow> BlockHeader" where
  "block_header b = \<lparr>bh_Slot = lh_Slot b, bh_Hash = NewHashFromHexString (lh_Hash b), bh_Number = lh_Number b, bh_EraID = lh_Era b\<rparr>"

text \<open>
  \<open>blockInfo\<close> is a header or something else; the blocks of the connection are fetched when the handler
  asks for them.
\<close>

definition rollForwardCallback ::
  "'h BlockSyncerHandler \<Rightarrow> 'h \<Rightarrow> (u64 \<Rightarrow> bytes \<Rightarrow> LedgerTx list result) option \<Rightarrow> LedgerHeader option \<Rightarrow> ('h \<times> goerror option) option" where
  "rollForwardCallback H h conn blockInfo =
     (case blockInfo of
        None \<Rightarrow> Some (h, Some (ErrMsg ''failed to get block header with gouroboros''))
      | Some blockHeader \<Rightarrow>
          (case conn of
             None \<Rightarrow> Some (h, Some (ErrMsg ''failed to get block transactions: no connection''))
           | Some GetBlock \<Rightarrow> sh_RollForward H h (block_header blockHeader) (GetBlockTransactions GetBlock)))"

section \<open>State\<close>

text \<open>\<open>User\<close> is a call of \<open>Sync\<close> from outside, \<open>Restart\<close> the one in an error handler.\<close>

datatype sync_caller = User | Restart

text \<open>
  Inside \<open>Sync\<close>: before the check of \<open>closeCh\<close> in attempt \<open>i\<close>, before the lock, and in the wait after
  attempt \<open>i\<close> failed. Inside an error handler: waiting for an error of its connection, sleeping before a
  restart, and sending on \<open>errorCh\<close>.
\<close>

datatype thread =
    SyncCheck sync_caller nat
  | SyncLock sync_caller nat
  | SyncWait sync_caller nat goerror
  | HandlerWait nat
  | HandlerDelay
  | HandlerSend goerror

record 'h BlockSyncerImpl =
  bs_connection :: "nat option"
  bs_blockHandler :: 'h
  bs_errorCh :: "goerror list"
  bs_isClosed :: bool
  bs_threads :: "thread multiset"
  bs_open :: "nat set"
  bs_dialed :: nat
  bs_started :: "(nat \<times> LedgerPoint) list"

definition NewBlockSyncer :: "'h \<Rightarrow> 'h BlockSyncerImpl" where
  "NewBlockSyncer blockHandler = \<lparr>bs_connection = None, bs_blockHandler = blockHandler, bs_errorCh = [], bs_isClosed = False,
     bs_threads = {#}, bs_open = {}, bs_dialed = 0, bs_started = []\<rparr>"

text \<open>How the node and the library behave in one attempt: the errors of the calls on connections.\<close>

record attempt_outcome =
  ao_close :: "goerror option"
  ao_new :: "goerror option"
  ao_dial :: "goerror option"
  ao_sync :: "goerror option"

definition closeConnectionNoLock :: "goerror option \<Rightarrow> 'h BlockSyncerImpl \<Rightarrow> 'h BlockSyncerImpl" where
  "closeConnectionNoLock closeErr bs =
     (case bs_connection bs of
        None \<Rightarrow> bs
      | Some oldConn \<Rightarrow> if closeErr \<noteq> None then bs else bs\<lparr>bs_open := bs_open bs - {oldConn}\<rparr>)"

text \<open>\<open>syncExecute\<close> from the lock on; a successful start has its error handler.\<close>

definition syncExecute_locked ::
  "'h BlockSyncerHandler \<Rightarrow> attempt_outcome \<Rightarrow> 'h BlockSyncerImpl \<Rightarrow> 'h BlockSyncerImpl \<times> goerror option" where
  "syncExecute_locked H ao bs =
     (let bs = closeConnectionNoLock (ao_close ao) bs in
      case ao_new ao of
        Some err \<Rightarrow> (bs, Some err)
      | None \<Rightarrow>
          (case ao_dial ao of
             Some err \<Rightarrow> (bs, Some err)
           | None \<Rightarrow>
               let connection = bs_dialed bs;
                   bs = bs\<lparr>bs_connection := Some connection, bs_open := insert connection (bs_open bs), bs_dialed := connection + 1\<rparr> in
               (case sh_Reset H (bs_blockHandler bs) of
                  (h', Inl err) \<Rightarrow> (bs\<lparr>bs_blockHandler := h'\<rparr>, Some err)
                | (h', Inr blockPoint) \<Rightarrow>
                    let bs = bs\<lparr>bs_blockHandler := h'\<rparr> in
                    (case ao_sync ao of
                       Some err \<Rightarrow> (bs, Some err)
                     | None \<Rightarrow> (bs\<lparr>bs_threads := add_mset (HandlerWait connection) (bs_threads bs),
                         bs_started := bs_started bs @ [(connection, ledger_point blockPoint)]\<rparr>, None)))))"

text \<open>How \<open>Sync\<close> returns to its caller.\<close>

definition sync_returns :: "sync_caller \<Rightarrow> goerror option \<Rightarrow> thread multiset" where
  "sync_returns caller err =
     (case (caller, err) of (Restart, Some e) \<Rightarrow> {#HandlerSend e#} | _ \<Rightarrow> {#})"

text \<open>\<open>errors.Is\<close> cannot be used on the errors of the library, so the texts are compared.\<close>

definition restarts :: "BlockSyncerConfig \<Rightarrow> goerror \<Rightarrow> bool" where
  "restarts config err \<longleftrightarrow> \<not> contains (err_text err) (err_text ErrBlockIndexerFatal) \<and> sc_RestartOnError config"

text \<open>
  How an error handler goes on: nothing is left of it when the syncer or the error channel is closed; with an
  error it sleeps before the restart, or sends the error. Its inner \<open>Sync\<close> ends in \<open>sync_returns Restart\<close>.
\<close>

definition errorHandler :: "BlockSyncerConfig \<Rightarrow> goerror option \<Rightarrow> thread multiset" where
  "errorHandler config received =
     (case received of
        None \<Rightarrow> {#}
      | Some err \<Rightarrow> if restarts config err then {#HandlerDelay#} else {#HandlerSend err#})"

section \<open>Steps\<close>

definition replace :: "thread \<Rightarrow> thread multiset \<Rightarrow> 'h BlockSyncerImpl \<Rightarrow> 'h BlockSyncerImpl" where
  "replace t new bs = bs\<lparr>bs_threads := bs_threads bs - {#t#} + new\<rparr>"

datatype syncer_label =
    CallSync
  | Silent
  | Attempt nat attempt_outcome "goerror option"
  | Returned sync_caller "goerror option"
  | Closed "goerror option"
  | ConnError nat goerror
  | Reported goerror
  | Received goerror
  | Called nat "goerror option"

inductive syncer_step ::
  "'h BlockSyncerHandler \<Rightarrow> BlockSyncerConfig \<Rightarrow> 'h BlockSyncerImpl \<Rightarrow> syncer_label \<Rightarrow> 'h BlockSyncerImpl \<Rightarrow> bool"
  for H config
where
  call_sync: "syncer_step H config bs CallSync (bs\<lparr>bs_threads := add_mset (SyncCheck User 1) (bs_threads bs)\<rparr>)"
| check_closed: "SyncCheck c i \<in># bs_threads bs \<Longrightarrow> bs_isClosed bs \<Longrightarrow>
    syncer_step H config bs (Returned c None) (replace (SyncCheck c i) (sync_returns c None) bs)"
| check_open: "SyncCheck c i \<in># bs_threads bs \<Longrightarrow> \<not> bs_isClosed bs \<Longrightarrow>
    syncer_step H config bs Silent (replace (SyncCheck c i) {#SyncLock c i#} bs)"
| attempt_ok: "SyncLock c i \<in># bs_threads bs \<Longrightarrow> syncExecute_locked H ao bs = (bs', None) \<Longrightarrow>
    syncer_step H config bs (Attempt i ao None) (replace (SyncLock c i) (sync_returns c None) bs')"
| attempt_failed: "SyncLock c i \<in># bs_threads bs \<Longrightarrow> syncExecute_locked H ao bs = (bs', Some e) \<Longrightarrow>
    syncer_step H config bs (Attempt i ao (Some e)) (replace (SyncLock c i) {#SyncWait c i e#} bs')"
| wait_closed: "SyncWait c i e \<in># bs_threads bs \<Longrightarrow> bs_isClosed bs \<Longrightarrow>
    syncer_step H config bs (Returned c (Some e)) (replace (SyncWait c i e) (sync_returns c (Some e)) bs)"
| wait_again: "SyncWait c i e \<in># bs_threads bs \<Longrightarrow> int i < start_tries config \<Longrightarrow>
    syncer_step H config bs Silent (replace (SyncWait c i e) {#SyncCheck c (i + 1)#} bs)"
| wait_last: "SyncWait c i e \<in># bs_threads bs \<Longrightarrow> \<not> int i < start_tries config \<Longrightarrow>
    syncer_step H config bs (Returned c (Some e)) (replace (SyncWait c i e) (sync_returns c (Some e)) bs)"
| handler_gone: "HandlerWait conn \<in># bs_threads bs \<Longrightarrow> bs_isClosed bs \<or> conn \<notin> bs_open bs \<Longrightarrow>
    syncer_step H config bs Silent (replace (HandlerWait conn) (errorHandler config None) bs)"
| handler_error: "HandlerWait conn \<in># bs_threads bs \<Longrightarrow>
    syncer_step H config bs (ConnError conn err)
      (replace (HandlerWait conn) (errorHandler config (Some err)) bs)"
| delay_closed: "HandlerDelay \<in># bs_threads bs \<Longrightarrow> bs_isClosed bs \<Longrightarrow>
    syncer_step H config bs Silent (replace HandlerDelay {#} bs)"
| delay_over: "HandlerDelay \<in># bs_threads bs \<Longrightarrow>
    syncer_step H config bs Silent (replace HandlerDelay {#SyncCheck Restart 1#} bs)"
| send: "HandlerSend err \<in># bs_threads bs \<Longrightarrow> bs_errorCh bs = [] \<Longrightarrow>
    syncer_step H config bs (Reported err) (replace (HandlerSend err) {#} (bs\<lparr>bs_errorCh := [err]\<rparr>))"
| receive: "bs_errorCh bs = [err] \<Longrightarrow> syncer_step H config bs (Received err) (bs\<lparr>bs_errorCh := []\<rparr>)"
| close: "\<not> bs_isClosed bs \<Longrightarrow>
    syncer_step H config bs (Closed closeErr) (closeConnectionNoLock closeErr (bs\<lparr>bs_isClosed := True\<rparr>))"
| backward: "conn \<in> fst ` set (bs_started bs) \<Longrightarrow>
    rollBackwardCallback H (bs_blockHandler bs) point = Some (h', e) \<Longrightarrow>
    syncer_step H config bs (Called conn e) (bs\<lparr>bs_blockHandler := h'\<rparr>)"
| forward: "conn \<in> fst ` set (bs_started bs) \<Longrightarrow>
    rollForwardCallback H (bs_blockHandler bs) (map_option (\<lambda>c. GetBlock c) (bs_connection bs)) blockInfo = Some (h', e) \<Longrightarrow>
    syncer_step H config bs (Called conn e) (bs\<lparr>bs_blockHandler := h'\<rparr>)"

inductive_cases syncer_stepE: "syncer_step H config bs l bs'"

text \<open>The labels of the steps from one state to another.\<close>

inductive syncer_run ::
  "'h BlockSyncerHandler \<Rightarrow> BlockSyncerConfig \<Rightarrow> 'h BlockSyncerImpl \<Rightarrow> syncer_label list \<Rightarrow> 'h BlockSyncerImpl \<Rightarrow> bool"
  for H config bs0
where
  start: "syncer_run H config bs0 [] bs0"
| step: "syncer_run H config bs0 ls bs \<Longrightarrow> syncer_step H config bs l bs' \<Longrightarrow> syncer_run H config bs0 (ls @ [l]) bs'"

section \<open>The contract of the handler\<close>

text \<open>A handler that the syncer may reset again and again: beside the runner's contract, a failed reset changes nothing.\<close>

locale restartable_handler = sync_handler +
  assumes reset_failed: "ready h \<Longrightarrow> sh_Reset H h = (h', Inl e) \<Longrightarrow> h' = h"
begin

lemma locked_handler:
  assumes "syncExecute_locked H ao bs = (bs', r)" "ready (bs_blockHandler bs)"
    "bs_started bs \<noteq> [] \<Longrightarrow> good (bs_blockHandler bs)"
  shows "ready (bs_blockHandler bs') \<and> (bs_started bs' \<noteq> [] \<longrightarrow> good (bs_blockHandler bs'))"
proof -
  have close: "bs_blockHandler (closeConnectionNoLock e b) = bs_blockHandler b"
    "bs_started (closeConnectionNoLock e b) = bs_started b" for e and b :: "'a BlockSyncerImpl"
    by (simp_all add: closeConnectionNoLock_def split: option.splits)
  obtain h' q where h': "sh_Reset H (bs_blockHandler bs) = (h', q)" by force
  have "case q of Inl e \<Rightarrow> h' = bs_blockHandler bs | Inr p \<Rightarrow> good h'"
    using h' reset_ok [OF assms(2)] reset_failed [OF assms(2)] by (auto split: sum.split)
  with assms h' show ?thesis
    by (auto simp: syncExecute_locked_def Let_def close split: option.splits sum.splits intro: good_ready)
qed

lemma step_handler:
  assumes "syncer_step H config bs l bs'" "ready (bs_blockHandler bs)" "bs_started bs \<noteq> [] \<Longrightarrow> good (bs_blockHandler bs)"
  shows "ready (bs_blockHandler bs') \<and> (bs_started bs' \<noteq> [] \<longrightarrow> good (bs_blockHandler bs'))"
  using assms
proof cases
  case (backward conn point h' e)
  then have "bs_started bs \<noteq> []" by (cases "bs_started bs") auto
  then have "good (bs_blockHandler bs)" by (rule assms(3))
  from call_ok [OF this, of "Backward (block_point point)"] backward good_ready show ?thesis
    by (auto simp: handler_call_def rollBackwardCallback_def)
next
  case (forward conn GetBlock blockInfo h' e)
  then have "bs_started bs \<noteq> []" by (cases "bs_started bs") auto
  then have g: "good (bs_blockHandler bs)" by (rule assms(3))
  have "good h2" if "sh_RollForward H (bs_blockHandler bs) header getTxs = Some (h2, e)" for header getTxs h2
    using call_ok [OF g, of "Forward header getTxs"] that by (auto simp: handler_call_def)
  with forward g good_ready show ?thesis
    by (auto simp: rollForwardCallback_def split: option.splits)
qed (use assms(2,3) locked_handler in \<open>auto simp: replace_def closeConnectionNoLock_def split: option.splits\<close>)

lemma run_handler:
  assumes "syncer_run H config (NewBlockSyncer h) ls bs" "ready h"
  shows "ready (bs_blockHandler bs) \<and> (bs_started bs \<noteq> [] \<longrightarrow> good (bs_blockHandler bs))"
  using assms
proof (induction rule: syncer_run.induct)
  case start
  then show ?case by (simp add: NewBlockSyncer_def)
next
  case (step ls bs l bs')
  then show ?case using step_handler by blast
qed

end

end
