(* ===== verification/Runner_Props.thy ===== *)
theory Runner_Props
  imports Runner
begin

text \<open>
  The runner around the block indexer on bbolt: the indexer meets the runner's contract, the
  items are worked off one by one in the order they came, and what a run leaves behind is
  the node's chain. Then the ends of a run: fatal errors, and \<open>Reset\<close>.
\<close>

section \<open>The block indexer as a handler\<close>

definition indexer_dict :: "'db BlockIndexerDB \<Rightarrow> 'db BlockIndexer BlockSyncerHandler" where
  "indexer_dict I = \<lparr>sh_RollBackward = RollBackward, sh_RollForward = RollForward I, sh_Reset = Reset I\<rparr>"

text \<open>
  A confirmed-block handler whose errors are its own: neither the indexer's fatal error nor
  its \<open>processConfirmedBlockError\<close>, which is not exported.
\<close>

definition plain_handler :: "('db \<Rightarrow> bool) \<Rightarrow> 'db NewConfirmedBlockHandler \<Rightarrow> bool" where
  "plain_handler ok handler \<longleftrightarrow> (\<forall>d b txs d' r. ok d \<longrightarrow> handler d b txs = (d', r) \<longrightarrow>
     ok d' \<and> (\<forall>e. r = Some e \<longrightarrow> \<not> err_is e ErrBlockIndexerFatal \<and> \<not> err_as_process e))"

definition indexer_ready :: "'b BBoltDatabase BlockIndexer \<Rightarrow> bool" where
  "indexer_ready bi \<longleftrightarrow> bi_wf bi \<and> bolt_inv (bi_db bi) \<and> plain_handler bolt_inv (bi_confirmedBlockHandler bi)"

definition indexer_good :: "'b BBoltDatabase BlockIndexer \<Rightarrow> bool" where
  "indexer_good bi \<longleftrightarrow> indexer_ready bi \<and> bi_latestBlockPoint bi \<noteq> None"

lemma handler_call_indexer: "handler_call (indexer_dict I) bi it = sync_step I bi it"
  by (cases it) (simp_all add: handler_call_def indexer_dict_def)

lemma forward_good:
  assumes g: "indexer_good bi"
  shows "\<exists>bi' e. RollForward bolt_dict bi h getTxs = Some (bi', e) \<and> indexer_good bi' \<and>
    (\<not> settled (classify e) \<longrightarrow> bi' = bi)"
proof -
  have wf: "bi_wf bi" "bolt_inv (bi_db bi)" and pl: "plain_handler bolt_inv (bi_confirmedBlockHandler bi)"
    and lt: "bi_latestBlockPoint bi \<noteq> None"
    using g by (simp_all add: indexer_good_def indexer_ready_def)
  obtain bi' r where s: "RollForward bolt_dict bi h getTxs = Some (bi', r)" "bi_wf bi'"
    "bi_confirmedBlockHandler bi' = bi_confirmedBlockHandler bi"
    "forward_waits bi h bi' r \<or> forward_fails bi bi' r \<or> forward_confirms bolt_inv bolt_store bi h getTxs bi' r"
    using bolt.RollForward_step [OF wf, of h getTxs] by blast
  from s(4) have "indexer_good bi' \<and> (\<not> settled (classify r) \<longrightarrow> bi' = bi)"
  proof (elim disjE)
    assume "forward_waits bi h bi' r"
    with s(2,3) wf pl lt show ?thesis
      by (simp add: forward_waits_def indexer_good_def indexer_ready_def classify_def settled_def)
  next
    assume "forward_fails bi bi' r"
    with g show ?thesis by (simp add: forward_fails_def)
  next
    assume "forward_confirms bolt_inv bolt_store bi h getTxs bi' r"
    then obtain d blk rel where d: "bolt_inv d" "bi_confirmedBlockHandler bi d blk rel = (bi_db bi', r)"
      "bi_latestBlockPoint bi' \<noteq> None" by (auto simp: forward_confirms_def)
    from pl d(1,2) have p: "bolt_inv (bi_db bi')" "\<And>e. r = Some e \<Longrightarrow> \<not> err_is e ErrBlockIndexerFatal \<and> \<not> err_as_process e"
      unfolding plain_handler_def by blast+
    then have "settled (classify r)" by (cases r) (simp_all add: classify_def settled_def)
    with s(2,3) p(1) d(3) pl show ?thesis by (simp add: indexer_good_def indexer_ready_def)
  qed
  with s(1) show ?thesis by blast
qed

lemma backward_good:
  assumes g: "indexer_good bi"
  shows "\<exists>bi' e. RollBackward bi p = Some (bi', e) \<and> indexer_good bi' \<and>
    (\<not> settled (classify e) \<longrightarrow> bi' = bi)"
proof -
  obtain l where l: "bi_latestBlockPoint bi = Some l" and wf: "bi_wf bi"
    using g by (auto simp: indexer_good_def indexer_ready_def)
  from RollBackward_step [OF wf l, of p] obtain bi' r where s: "RollBackward bi p = Some (bi', r)" "bi_wf bi'"
    "bi_latestBlockPoint bi' = Some l" "bi_db bi' = bi_db bi"
    "bi_confirmedBlockHandler bi' = bi_confirmedBlockHandler bi" "r = None \<or> bi' = bi"
    by (auto split: if_splits)
  with g show ?thesis
    by (auto simp: indexer_good_def indexer_ready_def classify_def settled_def)
qed

interpretation indexer_runner: sync_handler "indexer_dict bolt_dict" indexer_ready indexer_good
proof unfold_locales
  fix bi :: "'a BBoltDatabase BlockIndexer" and it
  assume "indexer_good bi"
  then show "\<exists>h' e. handler_call (indexer_dict bolt_dict) bi it = Some (h', e) \<and> indexer_good h' \<and>
      (\<not> settled (classify e) \<longrightarrow> h' = bi)"
    by (cases it) (simp_all add: handler_call_indexer forward_good backward_good)
next
  fix bi bi' :: "'a BBoltDatabase BlockIndexer" and p
  assume r: "indexer_ready bi" "sh_Reset (indexer_dict bolt_dict) bi = (bi', Inr p)"
  then have "Reset bolt_dict bi = (bi', Inr p)" "bi_wf bi" "bolt_inv (bi_db bi)"
    by (simp_all add: indexer_dict_def indexer_ready_def)
  from bolt.Reset_ok [OF this(2,3,1)] r(1) show "indexer_good bi'"
    by (simp add: indexer_good_def indexer_ready_def)
qed (simp add: indexer_good_def)

section \<open>Order\<close>

definition fresh_runner :: "'h BlockIndexerRunner \<Rightarrow> bool" where
  "fresh_runner r \<longleftrightarrow> ru_queueCh r = [] \<and> ru_phase r = Idle \<and> \<not> ru_loopFinishedCh r"

lemma reset_done_fresh: "runner_step H r (ResetDone p) r' \<Longrightarrow> fresh_runner r'"
  by (cases rule: runner_step.cases) (auto simp: fresh_runner_def)

text \<open>
  C26. The runner works items off strictly in the order they were accepted, each until it is
  settled before the next is taken; nothing is lost while the loop is alive, and the
  indexer is in the state that calling it once per settled item, in that order, produces,
  however often attempts were repeated.
\<close>

theorem runner_settles_in_order:
  assumes "runner_run (indexer_dict bolt_dict) r0 acc tried r" "fresh_runner r0" "indexer_good (ru_handler r0)"
  shows "replay (indexer_dict bolt_dict) (ru_handler r0) (done_items tried) = Some (ru_handler r) \<and>
    (\<exists>lost. acc = done_items tried @ in_hand (ru_phase r) @ lost @ ru_queueCh r \<and>
       (alive (ru_phase r) \<longrightarrow> lost = []))"
  using indexer_runner.run_invariant [OF assms(1,3)] assms(2) by (simp add: fresh_runner_def)

section \<open>The end of a run\<close>

lemma dead_loop_step:
  assumes "runner_step H r l r'" "\<not> is_reset l" "\<not> alive (ru_phase r)"
  shows "tried_by l = [] \<and> ru_handler r' = ru_handler r \<and> \<not> alive (ru_phase r')"
  using assms by cases (auto simp: tried_by_def alive_def is_reset_def)

text \<open>
  After a fatal error, or once the loop has stopped, the handler is not called again
  before the next successful \<open>Reset\<close>.
\<close>

theorem no_call_after_loop_end:
  assumes "runner_run H r0 acc tried r" "\<not> alive (ru_phase r0)"
  shows "tried = [] \<and> ru_handler r = ru_handler r0 \<and> \<not> alive (ru_phase r)"
  using assms
proof (induction rule: runner_run.induct)
  case (step acc tried r l r')
  with dead_loop_step [OF step.hyps(2,3)] show ?case by auto
qed simp

inductive runner_reachable :: "'h BlockSyncerHandler \<Rightarrow> 'h \<Rightarrow> nat \<Rightarrow> 'h BlockIndexerRunner \<Rightarrow> bool"
  for H h n
where
  init: "runner_reachable H h n (NewBlockIndexerRunner h n)"
| onward: "runner_reachable H h n r \<Longrightarrow> runner_step H r l r' \<Longrightarrow> runner_reachable H h n r'"

lemma reachable_channels:
  assumes "runner_reachable H h n r"
  shows "(ru_resetting r \<longrightarrow> ru_stopLoopCh r) \<and> (ru_loopFinishedCh r \<longleftrightarrow> ru_phase r = Finished) \<and>
    length (ru_errorCh r) \<le> 1 \<and> length (ru_queueCh r) \<le> ru_queueSize r"
  using assms
proof (induction rule: runner_reachable.induct)
  case init
  then show ?case by (simp add: NewBlockIndexerRunner_def)
next
  case (onward r l r')
  from onward.hyps(2) onward.IH show ?case
    by cases (auto simp: after_attempt_def split: attempt.splits)
qed

text \<open>
  While a \<open>Reset\<close> waits on a handler that does not panic, something can always happen
  that brings the loop to its end: the loop can stop, the attempt at hand can run, the fatal
  error can be sent or the one before it read; and once the loop has ended, the \<open>Reset\<close>
  can go on.
\<close>

theorem reset_is_never_stuck:
  assumes "runner_reachable H h n r" "ru_resetting r" "\<And>x it. handler_call H x it \<noteq> None"
  shows "\<exists>l r'. runner_step H r l r' \<and> (ru_loopFinishedCh r \<and> l \<in> range ResetDone \<union> range ResetFailed \<or>
    (\<not> ru_loopFinishedCh r \<and> l \<in> {LoopStopped} \<union> range SentError \<union> range ReadError \<union> range (\<lambda>(i, a). Ran i a)))"
proof -
  note inv = reachable_channels [OF assms(1)]
  have st: "ru_stopLoopCh r" using inv assms(2) by blast
  show ?thesis
  proof (cases "ru_phase r")
    case Idle
    with inv runner_step.stop_idle [OF Idle, of H] st show ?thesis by fastforce
  next
    case (Executing it)
    obtain h' e where "handler_call H (ru_handler r) it = Some (h', e)" using assms(3) by fastforce
    from runner_step.run [OF Executing this] inv Executing show ?thesis by fastforce
  next
    case (Delaying it)
    with inv runner_step.stop_delay [OF Delaying, of H] st show ?thesis by fastforce
  next
    case (Sending e)
    show ?thesis
    proof (cases "ru_errorCh r")
      case Nil
      from runner_step.send [OF Sending Nil, of H] inv Sending show ?thesis by fastforce
    next
      case (Cons e' es)
      with inv have "ru_errorCh r = [e']" by simp
      from runner_step.read [OF this, of H] inv Sending show ?thesis by fastforce
    qed
  next
    case Finished
    then have f: "ru_loopFinishedCh r" using inv by blast
    obtain h' x where "sh_Reset H (ru_handler r) = (h', x)" by fastforce
    with f assms(2) show ?thesis
      by (cases x) (fastforce intro: runner_step.reset_fail runner_step.reset_done)+
  qed
qed

text \<open>
  When the inner \<open>Reset\<close> fails, the channel \<open>stopLoopCh\<close> stays closed: whatever
  happens next, another call of \<open>Reset\<close> closes it a second time and panics.
\<close>

theorem reset_after_failed_reset_panics:
  assumes "runner_reachable H h n r" "runner_step H r (ResetFailed e) r1" "runner_run H r1 acc tried r2"
  shows "reset_panics r2"
proof -
  have "ru_stopLoopCh r1"
    using assms(2) reachable_channels [OF assms(1)] by cases auto
  with assms(3) show ?thesis
  proof (induction rule: runner_run.induct)
    case (step acc tried r l r')
    then have "ru_stopLoopCh r" by (simp add: reset_panics_def)
    with step.hyps(2,3) show ?case by cases (auto simp: reset_panics_def is_reset_def)
  qed (simp add: reset_panics_def)
qed

section \<open>Runner and indexer together\<close>

lemma sync_run_snoc:
  "sync_run I bi xs = Some (b, None) \<Longrightarrow> sync_run I bi (xs @ [x]) = sync_step I b x"
proof (induction xs arbitrary: bi)
  case Nil
  then show ?case by (auto split: option.splits prod.splits)
qed (auto split: option.splits prod.splits)

lemma runner_run_sync:
  assumes "runner_run (indexer_dict bolt_dict) r0 acc tried r" "fresh_runner r0" "indexer_good (ru_handler r0)"
    "\<forall>x \<in> set tried. \<forall>e. snd x \<noteq> Skipped e"
  shows "sync_run bolt_dict (ru_handler r0) (done_items tried) = Some (ru_handler r, None)"
  using assms
proof (induction rule: runner_run.induct)
  case start
  then show ?case by (simp add: done_items_def)
next
  case (step acc tried r l r')
  have IH: "sync_run bolt_dict (ru_handler r0) (done_items tried) = Some (ru_handler r, None)"
    using step by auto
  have g: "indexer_good (ru_handler r)"
    using indexer_runner.run_invariant [OF step.hyps(1)] step.prems by (simp add: fresh_runner_def)
  from step.hyps(2) show ?case
  proof cases
    case (run it h' e)
    have c: "sync_step bolt_dict (ru_handler r) it = Some (h', e)"
      using run(4) by (simp add: handler_call_indexer)
    show ?thesis
    proof (cases "settled (classify e)")
      case True
      then have "e = None"
        using step.prems(3) run by (cases e) (auto simp: classify_def settled_def tried_by_def split: if_splits)
      with True c run sync_run_snoc [OF IH, of it] show ?thesis
        by (simp add: done_items_def tried_by_def)
    next
      case False
      then have "h' = ru_handler r" using indexer_runner.call_ok [OF g, of it] run(4) by auto
      with False IH run show ?thesis by (simp add: done_items_def tried_by_def)
    qed
  qed (use IH step.hyps(3) in \<open>auto simp: done_items_def tried_by_def is_reset_def\<close>)
qed

text \<open>
  C3. End to end: after a \<open>Reset\<close>, whatever the interleaving of the client with the loop
  and however often attempts are repeated, as long as the confirmed-block handler reports no
  error, the confirmed headers followed by the indexer's window are the node's chain after
  the settled items, and the database holds exactly the confirmed blocks on top of what it
  held.
\<close>

theorem runner_builds_the_chain:
  assumes "indexer_ready bi" "keeps_chain bolt_inv bolt_store (bi_confirmedBlockHandler bi)"
    "Reset bolt_dict bi = (bi0, Inr base)" "fresh_runner r0" "ru_handler r0 = bi0"
    "runner_run (indexer_dict bolt_dict) r0 acc tried r" "\<forall>x \<in> set tried. \<forall>e. snd x \<noteq> Skipped e"
    "chain_run base [] (done_items tried) = Some c"
  shows "\<exists>conf. c = conf @ bi_window (ru_handler r) \<and>
    bi_latestBlockPoint (ru_handler r) = Some (tip base conf) \<and>
    chain_stored (bolt_store (bi_db bi)) conf (bolt_store (bi_db (ru_handler r)))"
proof -
  have w: "bi_wf bi" "bolt_inv (bi_db bi)" using assms(1) by (simp_all add: indexer_ready_def)
  have "sh_Reset (indexer_dict bolt_dict) bi = (bi0, Inr base)" using assms(3) by (simp add: indexer_dict_def)
  from indexer_runner.reset_ok [OF assms(1) this] have "indexer_good (ru_handler r0)" by (simp add: assms(5))
  from runner_run_sync [OF assms(6,4) this assms(7)]
  have "sync_run bolt_dict bi0 (done_items tried) = Some (ru_handler r, None)" by (simp add: assms(5))
  from bolt.chain_followed [OF w assms(2,3) this assms(8)] show ?thesis by blast
qed

text \<open>One way to work: each item is handed over and processed at once.\<close>

lemma runner_works_off:
  assumes "runner_run (indexer_dict bolt_dict) r0 acc tried r" "ru_queueCh r = []" "ru_phase r = Idle"
    "sync_run bolt_dict (ru_handler r) evs = Some (b, None)"
  shows "runner_run (indexer_dict bolt_dict) r0 (acc @ evs) (tried @ map (\<lambda>ev. (ev, Processed)) evs) (r\<lparr>ru_handler := b\<rparr>)"
  using assms
proof (induction evs arbitrary: acc tried r)
  case Nil
  then have "r\<lparr>ru_handler := b\<rparr> = r" by (cases r) simp
  then show ?case using Nil(1) by (simp only: append_Nil2 list.map)
next
  case (Cons ev evs)
  let ?H = "indexer_dict bolt_dict"
  obtain h where h: "sync_step bolt_dict (ru_handler r) ev = Some (h, None)" "sync_run bolt_dict h evs = Some (b, None)"
    using Cons.prems(4) by (auto split: option.splits prod.splits)
  let ?r1 = "r\<lparr>ru_phase := Executing ev\<rparr>"
  have s1: "runner_step ?H r (Accepted ev) ?r1" by (rule runner_step.hand_over [OF Cons.prems(2,3)])
  have "runner_step ?H ?r1 (Ran ev (classify None)) (?r1\<lparr>ru_handler := h, ru_phase := after_attempt ev (classify None)\<rparr>)"
    using h(1) by (intro runner_step.run) (simp_all add: handler_call_indexer)
  moreover have "?r1\<lparr>ru_handler := h, ru_phase := after_attempt ev (classify None)\<rparr> = r\<lparr>ru_handler := h\<rparr>"
    using Cons.prems(3) by (cases r) (simp add: classify_def after_attempt_def)
  ultimately have s2: "runner_step ?H ?r1 (Ran ev Processed) (r\<lparr>ru_handler := h\<rparr>)" by (simp add: classify_def)
  have "runner_run ?H r0 (acc @ [ev]) (tried @ [(ev, Processed)]) (r\<lparr>ru_handler := h\<rparr>)"
    using runner_run.step [OF runner_run.step [OF Cons.prems(1) s1] s2] by (simp add: is_reset_def accepted_by_def tried_by_def)
  from Cons.IH [OF this] Cons.prems(2,3) h(2) show ?case by simp
qed

lemma done_items_processed [simp]: "done_items (map (\<lambda>ev. (ev, Processed)) evs) = evs"
  by (induction evs) (simp_all add: done_items_def settled_def)

section \<open>A run\<close>

definition demo_ready_indexer :: "(bytes \<times> json) list BBoltDatabase BlockIndexer" where
  "demo_ready_indexer = (demo_indexer True)\<lparr>bi_latestBlockPoint := Some zero_BlockPoint\<rparr>"

definition demo_runner :: "(bytes \<times> json) list BBoltDatabase BlockIndexer BlockIndexerRunner" where
  "demo_runner = \<lparr>ru_handler = demo_ready_indexer, ru_queueCh = [], ru_queueSize = 1, ru_closeCh = False,
     ru_stopLoopCh = False, ru_loopFinishedCh = False, ru_errorCh = [], ru_phase = Idle, ru_resetting = False\<rparr>"

lemma idle_plain: "plain_handler ok idle_handler"
  by (simp add: plain_handler_def idle_handler_def)

lemma demo_ready: "indexer_ready (demo_indexer True)" "indexer_good demo_ready_indexer" "fresh_runner demo_runner"
proof -
  show r: "indexer_ready (demo_indexer True)"
    using demo_indexer_wf [of True] demo_indexer_inv [of True] idle_plain
    by (simp add: indexer_ready_def) (simp add: demo_indexer_def)
  then show "indexer_good demo_ready_indexer"
    by (simp add: demo_ready_indexer_def indexer_good_def indexer_ready_def bi_wf_def bi_capacity_def)
  show "fresh_runner demo_runner" by (simp add: fresh_runner_def demo_runner_def)
qed

text \<open>Two blocks; the window holds one header, so the second confirms the first.\<close>

definition demo_events :: "sync_event list" where
  "demo_events = map (\<lambda>h. Forward h (\<lambda>_. Inr [demo_spend])) [demo_header 5, demo_header 9]"

lemma demo_run:
  "\<exists>r. runner_run (indexer_dict bolt_dict) demo_runner demo_events (map (\<lambda>ev. (ev, Processed)) demo_events) r"
proof -
  have w: "bi_wf demo_ready_indexer" "alist_db (bi_db demo_ready_indexer)"
    using demo_ready(2) demo_indexer_db [of True] by (simp_all add: indexer_good_def indexer_ready_def demo_ready_indexer_def)
  have "alist_total (bi_confirmedBlockHandler demo_ready_indexer)" using idle_total by (simp add: demo_ready_indexer_def demo_indexer_def)
  from alist_forward_run [OF w this, of "[demo_spend]" "[demo_header 5, demo_header 9]"]
  obtain b where "sync_run bolt_dict (ru_handler demo_runner) demo_events = Some (b, None)"
    by (auto simp: demo_runner_def demo_events_def)
  moreover have "ru_queueCh demo_runner = []" "ru_phase demo_runner = Idle" by (simp_all add: demo_runner_def)
  ultimately show ?thesis using runner_works_off [OF runner_run.start] by fastforce
qed

theorem runner_settles_in_order_witness:
  "\<exists>r. runner_run (indexer_dict bolt_dict) demo_runner demo_events (map (\<lambda>ev. (ev, Processed)) demo_events) r \<and>
     replay (indexer_dict bolt_dict) demo_ready_indexer demo_events = Some (ru_handler r)"
proof -
  obtain r where r: "runner_run (indexer_dict bolt_dict) demo_runner demo_events (map (\<lambda>ev. (ev, Processed)) demo_events) r"
    using demo_run by blast
  have h: "ru_handler demo_runner = demo_ready_indexer" by (simp add: demo_runner_def)
  from runner_settles_in_order [OF r demo_ready(3)] r show ?thesis by (auto simp: h demo_ready(2))
qed

lemma demo_Reset: "Reset bolt_dict (demo_indexer True) = (demo_ready_indexer, Inr zero_BlockPoint)"
proof -
  have "cs_point (bolt_store demo_bolt) = None"
    using bolt_Execute_ok [OF empty_bolt_inv demo_bolt_Execute] by (simp add: empty_bolt_store)
  then have "bolt_GetLatestBlockPoint demo_bolt = Inr None"
    by (simp add: bolt_GetLatestBlockPoint_eq demo_bolt_inv demo_bolt_open)
  then show ?thesis
    by (simp add: Reset_def bolt_dict_def demo_ready_indexer_def demo_indexer_def SetCount_def Let_def)
qed

theorem runner_builds_the_chain_witness:
  "\<exists>r. runner_run (indexer_dict bolt_dict) demo_runner demo_events (map (\<lambda>ev. (ev, Processed)) demo_events) r \<and>
     (\<exists>conf. [demo_header 5, demo_header 9] = conf @ bi_window (ru_handler r) \<and>
        chain_stored (bolt_store demo_bolt) conf (bolt_store (bi_db (ru_handler r))))"
proof -
  obtain r where r: "runner_run (indexer_dict bolt_dict) demo_runner demo_events (map (\<lambda>ev. (ev, Processed)) demo_events) r"
    using demo_run by blast
  have k: "keeps_chain bolt_inv bolt_store (bi_confirmedBlockHandler (demo_indexer True))"
    using idle_keeps_chain by (simp add: demo_indexer_def)
  have h: "ru_handler demo_runner = demo_ready_indexer" by (simp add: demo_runner_def)
  have c: "chain_run zero_BlockPoint [] (done_items (map (\<lambda>ev. (ev, Processed)) demo_events)) = Some [demo_header 5, demo_header 9]"
    by (simp only: done_items_processed) (simp add: demo_events_def demo_header_def zero_BlockPoint_def)
  have "bi_db (demo_indexer True) = demo_bolt" by (simp add: demo_indexer_def)
  moreover have "\<forall>x \<in> set (map (\<lambda>ev. (ev, Processed)) demo_events). \<forall>e. snd x \<noteq> Skipped e" by simp
  ultimately show ?thesis
    using runner_builds_the_chain [OF demo_ready(1) k demo_Reset demo_ready(3) h r _ c] r by auto
qed

text \<open>A handler whose \<open>Reset\<close> fails, as the indexer's does when the database is closed.\<close>

definition refusing_handler :: "unit BlockSyncerHandler" where
  "refusing_handler = \<lparr>sh_RollBackward = \<lambda>h p. Some (h, None), sh_RollForward = \<lambda>h b g. Some (h, None),
     sh_Reset = \<lambda>h. (h, Inl ErrDatabaseNotOpen)\<rparr>"

lemma refusing_calls: "handler_call refusing_handler x it \<noteq> None"
  by (cases it) (simp_all add: handler_call_def refusing_handler_def)

definition demo_resetting :: "unit BlockIndexerRunner" where
  "demo_resetting = (NewBlockIndexerRunner () 1)\<lparr>ru_stopLoopCh := True, ru_resetting := True\<rparr>"

lemma demo_resetting_reachable: "runner_reachable refusing_handler () 1 demo_resetting"
  unfolding demo_resetting_def
  by (rule runner_reachable.onward [OF runner_reachable.init], rule runner_step.reset_stop)
     (simp_all add: NewBlockIndexerRunner_def)

lemma demo_reset_fails:
  "runner_step refusing_handler demo_resetting (ResetFailed ErrDatabaseNotOpen)
     (demo_resetting\<lparr>ru_resetting := False\<rparr>)"
  using runner_step.reset_fail [of demo_resetting refusing_handler "()" ErrDatabaseNotOpen]
  by (simp add: demo_resetting_def NewBlockIndexerRunner_def refusing_handler_def)

theorem no_call_after_loop_end_witness:
  "\<exists>r. runner_run refusing_handler (NewBlockIndexerRunner () 1) [Backward zero_BlockPoint] [] r \<and>
     \<not> alive (ru_phase r)"
proof -
  let ?r0 = "NewBlockIndexerRunner () 1" and ?it = "Backward zero_BlockPoint"
  have "runner_step refusing_handler ?r0 (Accepted ?it) (?r0\<lparr>ru_queueCh := ru_queueCh ?r0 @ [?it]\<rparr>)"
    by (rule runner_step.enqueue) (simp add: NewBlockIndexerRunner_def)
  from runner_run.step [OF runner_run.start this]
  have run: "runner_run refusing_handler ?r0 [?it] [] (?r0\<lparr>ru_queueCh := ru_queueCh ?r0 @ [?it]\<rparr>)"
    by (simp add: is_reset_def accepted_by_def tried_by_def)
  have "\<not> alive (ru_phase ?r0)" by (simp add: NewBlockIndexerRunner_def alive_def)
  with no_call_after_loop_end [OF run] run show ?thesis by blast
qed

theorem reset_is_never_stuck_witness:
  "\<exists>l r'. runner_step refusing_handler demo_resetting l r'"
proof -
  have "ru_resetting demo_resetting" by (simp add: demo_resetting_def)
  from reset_is_never_stuck [OF demo_resetting_reachable this refusing_calls] show ?thesis by blast
qed

theorem reset_after_failed_reset_panics_witness:
  "reset_panics (demo_resetting\<lparr>ru_resetting := False\<rparr>)"
  using reset_after_failed_reset_panics [OF demo_resetting_reachable demo_reset_fails runner_run.start] .

end
