(* ===== verification/Block_Syncer_Props.thy ===== *)
theory Block_Syncer_Props
  imports Block_Syncer Runner_Props
begin

text \<open>
  The block syncer: which connections are open, what a call of \<open>Sync\<close> does, that it always comes to rest,
  and that the handler under it stays sound. The interleaving of \<open>Close\<close> with a starting attempt that
  leaves a connection open is a run of its own.
\<close>

lemma errorHandler_simps [simp]:
  "errorHandler config None = {#}"
  "errorHandler config (Some err) = {#if restarts config err then HandlerDelay else HandlerSend err#}"
  by (simp_all add: errorHandler_def)

section \<open>Connections\<close>

text \<open>No call of \<open>Close\<close> on a connection failed; and how many did.\<close>

definition closes_well :: "syncer_label \<Rightarrow> bool" where
  "closes_well l = (case l of Attempt _ ao _ \<Rightarrow> ao_close ao = None | Closed e \<Rightarrow> e = None | _ \<Rightarrow> True)"

definition failed_closes :: "syncer_label list \<Rightarrow> nat" where
  "failed_closes ls = length (filter (\<lambda>l. \<not> closes_well l) ls)"

lemma failed_closes_simps [simp]:
  "failed_closes [] = 0" "failed_closes (ls @ [l]) = failed_closes ls + (if closes_well l then 0 else 1)"
  by (simp_all add: failed_closes_def)

text \<open>Beside the current connection at most \<open>n\<close> are open.\<close>

definition connections_ok :: "nat \<Rightarrow> 'h BlockSyncerImpl \<Rightarrow> bool" where
  "connections_ok n bs \<longleftrightarrow>
     bs_connection bs = (if bs_dialed bs = 0 then None else Some (bs_dialed bs - 1)) \<and>
     bs_open bs \<subseteq> {..<bs_dialed bs} \<and> card (bs_open bs - set_option (bs_connection bs)) \<le> n \<and>
     (\<forall>c. HandlerWait c \<in># bs_threads bs \<longrightarrow> c < bs_dialed bs) \<and>
     (\<forall>c p. (c, p) \<in> set (bs_started bs) \<longrightarrow> c < bs_dialed bs)"

lemma connections_ok_others [simp]:
  "connections_ok n (bs\<lparr>bs_isClosed := x\<rparr>) = connections_ok n bs"
  "connections_ok n (bs\<lparr>bs_errorCh := y\<rparr>) = connections_ok n bs"
  "connections_ok n (bs\<lparr>bs_blockHandler := h\<rparr>) = connections_ok n bs"
  "connections_ok n (bs\<lparr>bs_threads := add_mset (SyncCheck c i) (bs_threads bs)\<rparr>) = connections_ok n bs"
  by (simp_all add: connections_ok_def)

lemma closed_open:
  "bs_open (closeConnectionNoLock e bs) = bs_open bs - (if e = None then set_option (bs_connection bs) else {})"
  by (auto simp: closeConnectionNoLock_def split: option.splits)

lemma close_keeps [simp]:
  "bs_connection (closeConnectionNoLock e bs) = bs_connection bs"
  "bs_threads (closeConnectionNoLock e bs) = bs_threads bs"
  "bs_started (closeConnectionNoLock e bs) = bs_started bs"
  "bs_dialed (closeConnectionNoLock e bs) = bs_dialed bs"
  "bs_errorCh (closeConnectionNoLock e bs) = bs_errorCh bs"
  "bs_isClosed (closeConnectionNoLock e bs) = bs_isClosed bs"
  "bs_blockHandler (closeConnectionNoLock e bs) = bs_blockHandler bs"
  by (simp_all add: closeConnectionNoLock_def split: option.splits)

lemma closed_connections: "connections_ok n bs \<Longrightarrow> connections_ok n (closeConnectionNoLock e bs)"
  by (auto simp: connections_ok_def closed_open)

lemma connections_ok_le: "connections_ok n bs \<Longrightarrow> n \<le> m \<Longrightarrow> connections_ok m bs"
  unfolding connections_ok_def using order_trans by blast

text \<open>A new connection becomes the current one.\<close>

definition dialed_next :: "'h BlockSyncerImpl \<Rightarrow> 'h \<Rightarrow> 'h BlockSyncerImpl" where
  "dialed_next b h = b\<lparr>bs_connection := Some (bs_dialed b), bs_open := insert (bs_dialed b) (bs_open b),
     bs_dialed := bs_dialed b + 1, bs_blockHandler := h\<rparr>"

lemma locked_cases:
  assumes "syncExecute_locked H ao bs = (bs', r)"
  obtains (refused) e where "r = Some e" "bs' = closeConnectionNoLock (ao_close ao) bs"
  | (failed) e h where "r = Some e" "bs' = dialed_next (closeConnectionNoLock (ao_close ao) bs) h"
  | (started) h p where "r = None" "sh_Reset H (bs_blockHandler bs) = (h, Inr p)"
      "bs' = (dialed_next (closeConnectionNoLock (ao_close ao) bs) h)
         \<lparr>bs_threads := add_mset (HandlerWait (bs_dialed bs)) (bs_threads bs),
          bs_started := bs_started bs @ [(bs_dialed bs, ledger_point p)]\<rparr>"
proof -
  note D = assms [unfolded syncExecute_locked_def Let_def, simplified]
  obtain h q where h: "sh_Reset H (bs_blockHandler bs) = (h, q)" by force
  show ?thesis
  proof (cases "ao_new ao = None \<and> ao_dial ao = None")
    case False
    then have "r \<noteq> None \<and> bs' = closeConnectionNoLock (ao_close ao) bs"
      using D by (auto split: option.splits) metis+
    then show ?thesis using refused by blast
  next
    case True
    show ?thesis
    proof (cases "ao_sync ao = None \<and> (\<exists>p. q = Inr p)")
      case True
      then obtain p where "q = Inr p" by blast
      then show ?thesis
        using started [of h p] D h True \<open>ao_new ao = None \<and> ao_dial ao = None\<close> by (simp add: dialed_next_def)
    next
      case False
      then have "r \<noteq> None \<and> bs' = dialed_next (closeConnectionNoLock (ao_close ao) bs) h"
        using D h True by (auto simp: dialed_next_def split: option.splits sum.splits) metis
      then show ?thesis using failed by blast
    qed
  qed
qed

lemma dialed_connections:
  assumes "connections_ok n bs"
  shows "connections_ok (n + (if e = None then 0 else 1)) (dialed_next (closeConnectionNoLock e bs) h)"
proof -
  let ?o = "bs_open (closeConnectionNoLock e bs)"
  have f: "finite (bs_open bs)" "?o \<subseteq> {..<bs_dialed bs}" "card (bs_open bs - set_option (bs_connection bs)) \<le> n"
    using assms finite_subset by (auto simp: connections_ok_def closed_open)
  have "card ?o \<le> n + (if e = None then 0 else 1)"
  proof (cases e)
    case (Some x)
    have "card (bs_open bs) \<le> card (bs_open bs - set_option (bs_connection bs)) + card (set_option (bs_connection bs))"
      by (rule order_trans [OF card_mono card_Un_le]) (use f(1) in auto)
    moreover have "card (set_option (bs_connection bs)) \<le> 1" by (cases "bs_connection bs") auto
    ultimately show ?thesis using f(3) Some by (simp add: closed_open)
  qed (use f(3) in \<open>simp add: closed_open\<close>)
  moreover have "insert (bs_dialed bs) ?o - {bs_dialed bs} = ?o" using f(2) by auto
  ultimately show ?thesis using assms f(2) by (auto simp: connections_ok_def dialed_next_def less_SucI)
qed

lemma locked_connections:
  assumes "syncExecute_locked H ao bs = (bs', r)" "connections_ok n bs"
  shows "connections_ok (n + (if ao_close ao = None then 0 else 1)) bs'"
  using assms(1)
proof (cases rule: locked_cases)
  case (refused e)
  then show ?thesis using closed_connections [OF assms(2)] connections_ok_le le_add1 by metis
next
  case (failed e h)
  then show ?thesis using dialed_connections [OF assms(2)] by simp
next
  case (started h p)
  with dialed_connections [OF assms(2), of "ao_close ao" h] show ?thesis by (auto simp: connections_ok_def dialed_next_def)
qed

lemma replace_connections:
  "connections_ok n bs \<Longrightarrow> (\<And>c. HandlerWait c \<in># new \<Longrightarrow> c < bs_dialed bs) \<Longrightarrow> connections_ok n (replace t new bs)"
  by (auto simp: connections_ok_def replace_def dest: in_diffD)

lemma sync_returns_send: "t \<in># sync_returns c e \<Longrightarrow> \<exists>err. t = HandlerSend err"
  by (auto simp: sync_returns_def split: sync_caller.splits option.splits)

lemma step_connections:
  assumes "syncer_step H config bs l bs'" "connections_ok n bs"
  shows "connections_ok (n + (if closes_well l then 0 else 1)) bs'"
  using assms
proof cases
  case (attempt_ok c i ao b)
  then show ?thesis using locked_connections [OF attempt_ok(4) assms(2)]
    by (auto simp: closes_well_def intro!: replace_connections dest: sync_returns_send)
next
  case (attempt_failed c i ao b e)
  then show ?thesis using locked_connections [OF attempt_failed(4) assms(2)]
    by (auto simp: closes_well_def intro!: replace_connections dest: sync_returns_send)
next
  case (close closeErr)
  from closed_connections [of n "bs\<lparr>bs_isClosed := True\<rparr>" closeErr] close assms(2) show ?thesis
    using connections_ok_le le_add1 connections_ok_others(1) by metis
next
  case call_sync
  with assms(2) show ?thesis by (simp add: closes_well_def)
qed (use assms(2) in \<open>auto simp: closes_well_def intro!: replace_connections dest: sync_returns_send split: if_splits\<close>)

lemma run_connections: "syncer_run H config (NewBlockSyncer h) ls bs \<Longrightarrow> connections_ok (failed_closes ls) bs"
proof (induction rule: syncer_run.induct)
  case (step ls bs l bs')
  then show ?case using step_connections [OF step.hyps(2) step.IH] by simp
qed (simp add: NewBlockSyncer_def connections_ok_def)

lemma connection_count:
  assumes "syncer_run H config (NewBlockSyncer h) ls bs"
  shows "finite (bs_open bs) \<and> card (bs_open bs - set_option (bs_connection bs)) \<le> failed_closes ls \<and>
    card (bs_open bs) \<le> 1 + failed_closes ls \<and>
    ((\<forall>l \<in> set ls. closes_well l) \<longrightarrow> bs_open bs \<subseteq> set_option (bs_connection bs)) \<and>
    (\<forall>c. HandlerWait c \<in># bs_threads bs \<longrightarrow> c < bs_dialed bs)"
proof -
  have c: "finite (bs_open bs)" "card (bs_open bs - set_option (bs_connection bs)) \<le> failed_closes ls"
    "\<forall>c. HandlerWait c \<in># bs_threads bs \<longrightarrow> c < bs_dialed bs"
    using run_connections [OF assms] finite_subset [of "bs_open bs" "{..<bs_dialed bs}"] by (auto simp: connections_ok_def)
  have "card (bs_open bs) \<le> card (bs_open bs - set_option (bs_connection bs)) + card (set_option (bs_connection bs))"
    by (rule order_trans [OF card_mono card_Un_le]) (use c(1) in auto)
  moreover have "card (set_option (bs_connection bs)) \<le> 1" by (cases "bs_connection bs") auto
  moreover have "bs_open bs \<subseteq> set_option (bs_connection bs)" if "\<forall>l \<in> set ls. closes_well l"
    using c(1,2) that by (simp add: failed_closes_def)
  ultimately show ?thesis using c by auto
qed

text \<open>
  C10. Whatever calls of \<open>Sync\<close>, restarts, callbacks and \<open>Close\<close> interleave, an older connection is closed before
  the next is made: beside the connection that the syncer holds, no more are open than calls that close a
  connection have failed. So if none has failed, at most one is open and it is the one the syncer holds.
\<close>

theorem one_connection_open:
  assumes "syncer_run H config (NewBlockSyncer h) ls bs"
  shows "finite (bs_open bs) \<and> card (bs_open bs - set_option (bs_connection bs)) \<le> failed_closes ls \<and>
    card (bs_open bs) \<le> 1 + failed_closes ls \<and>
    ((\<forall>l \<in> set ls. closes_well l) \<longrightarrow> bs_open bs \<subseteq> set_option (bs_connection bs)) \<and>
    (\<forall>c. HandlerWait c \<in># bs_threads bs \<longrightarrow> c < bs_dialed bs)"
  by (rule connection_count [OF assms])

section \<open>After \<open>Close\<close>\<close>

fun past_check :: "thread \<Rightarrow> bool" where
  "past_check (SyncLock _ _) = True"
| "past_check _ = False"

definition attempts_in :: "syncer_label list \<Rightarrow> (nat \<times> goerror option) list" where
  "attempts_in ls = concat (map (\<lambda>l. case l of Attempt i _ r \<Rightarrow> [(i, r)] | _ \<Rightarrow> []) ls)"

lemma attempts_in_simps [simp]:
  "attempts_in [] = []" "attempts_in (ls @ [l]) = attempts_in ls @ (case l of Attempt i _ r \<Rightarrow> [(i, r)] | _ \<Rightarrow> [])"
  by (simp_all add: attempts_in_def)

lemma syncer_run_append:
  "syncer_run H config bs1 ls2 bs2 \<Longrightarrow> syncer_run H config bs0 ls1 bs1 \<Longrightarrow> syncer_run H config bs0 (ls1 @ ls2) bs2"
  by (induction rule: syncer_run.induct) (auto simp flip: append_assoc intro: syncer_run.intros)

definition checked :: "'h BlockSyncerImpl \<Rightarrow> bool" where
  "checked bs \<longleftrightarrow> (\<forall>t. t \<in># bs_threads bs \<longrightarrow> \<not> past_check t)"

lemma checked_replace: "checked bs \<Longrightarrow> (\<And>t. t \<in># new \<Longrightarrow> \<not> past_check t) \<Longrightarrow> checked (replace t new bs)"
  by (auto simp: checked_def replace_def dest: in_diffD)

lemma sync_returns_checked: "t \<in># sync_returns c e \<Longrightarrow> \<not> past_check t"
  by (auto dest!: sync_returns_send)

lemma step_after_close:
  assumes "syncer_step H config bs l bs'" "bs_isClosed bs" "checked bs"
  shows "bs_isClosed bs' \<and> checked bs' \<and> bs_open bs' = bs_open bs \<and> bs_started bs' = bs_started bs \<and>
    bs_dialed bs' = bs_dialed bs \<and> attempts_in [l] = []"
proof -
  have none: "\<And>c i. SyncLock c i \<notin># bs_threads bs" using assms(3) by (force simp: checked_def)
  with assms(1,2) have "bs_isClosed bs' \<and> bs_open bs' = bs_open bs \<and> bs_started bs' = bs_started bs \<and>
      bs_dialed bs' = bs_dialed bs \<and> attempts_in [l] = []"
    by cases (simp_all add: replace_def attempts_in_def split: if_splits)
  moreover have "checked bs'"
    using assms(1)
  proof cases
    case send
    show ?thesis unfolding send by (rule checked_replace) (use assms(3) in \<open>simp_all add: checked_def\<close>)
  next
    case call_sync
    with assms(3) show ?thesis by (auto simp: checked_def)
  next
    case attempt_ok
    with none show ?thesis by blast
  next
    case attempt_failed
    with none show ?thesis by blast
  qed (use assms(2,3) in \<open>auto intro!: checked_replace dest: sync_returns_checked split: if_splits\<close>,
      simp_all add: checked_def)
  ultimately show ?thesis by blast
qed

lemma run_after_close:
  assumes "syncer_run H config bs ls bs'" "bs_isClosed bs" "checked bs"
  shows "bs_isClosed bs' \<and> checked bs' \<and> bs_open bs' = bs_open bs \<and> bs_started bs' = bs_started bs \<and>
    bs_dialed bs' = bs_dialed bs \<and> attempts_in ls = []"
  using assms
proof (induction rule: syncer_run.induct)
  case (step ls bs1 l bs')
  then show ?case using step_after_close [OF step.hyps(2)] by (auto simp: attempts_in_def)
qed simp

inductive_cases closed_stepE: "syncer_step H config bs (Closed e) bs'"

lemma close_step: "syncer_step H config bs (Closed e) bs' \<Longrightarrow> bs' = closeConnectionNoLock e (bs\<lparr>bs_isClosed := True\<rparr>)"
  by (erule closed_stepE) simp

text \<open>
  C29. A closed syncer stays closed: if no attempt was past its check of the close channel when \<open>Close\<close> took
  the lock, then whoever calls \<open>Sync\<close> again and whatever errors still arrive, no attempt is made any more and
  nothing is dialed or started. The connection the syncer held is closed, unless closing it failed; no other
  is open than those which earlier calls failed to close, so without such failures none is.
\<close>

theorem closed_stays_closed:
  assumes "syncer_run H config (NewBlockSyncer h) ls bs" "\<forall>t. t \<in># bs_threads bs \<longrightarrow> \<not> past_check t"
    "syncer_step H config bs (Closed err) bs1" "syncer_run H config bs1 ls2 bs2"
  shows "bs_isClosed bs2 \<and> bs_started bs2 = bs_started bs \<and> bs_dialed bs2 = bs_dialed bs \<and> attempts_in ls2 = [] \<and>
    bs_open bs2 = bs_open bs - (if err = None then set_option (bs_connection bs) else {}) \<and>
    card (bs_open bs2) \<le> failed_closes (ls @ [Closed err]) \<and>
    (err = None \<and> (\<forall>l \<in> set ls. closes_well l) \<longrightarrow> bs_open bs2 = {})"
proof -
  from assms(3) have b1: "bs1 = closeConnectionNoLock err (bs\<lparr>bs_isClosed := True\<rparr>)" by (rule close_step)
  have c1: "bs_isClosed bs1 \<and> checked bs1 \<and> bs_started bs1 = bs_started bs \<and> bs_dialed bs1 = bs_dialed bs"
    "bs_open bs1 = bs_open bs - (if err = None then set_option (bs_connection bs) else {})"
    using assms(2) by (simp_all add: b1 checked_def closed_open)
  note one = connection_count [OF assms(1)]
  have "card (bs_open bs1) \<le> failed_closes ls + (if err = None then 0 else 1)" using one by (simp add: c1(2))
  then have "card (bs_open bs1) \<le> failed_closes (ls @ [Closed err])" by (simp add: closes_well_def)
  moreover have "bs_open bs1 = {}" if "err = None" "\<forall>l \<in> set ls. closes_well l" using one that by (auto simp: c1(2))
  ultimately show ?thesis using run_after_close [OF assms(4)] c1 by auto
qed

text \<open>
  The check of the close channel is outside the lock, so \<open>Close\<close> can run between the check and the
  attempt: then the attempt dials all the same, and the connection it opens stays open for ever. No
  goroutine is left, a second \<open>Close\<close> and every later \<open>Sync\<close> do nothing, and callbacks still reach the handler.
\<close>

theorem close_race_leaks_connection:
  assumes "sh_Reset H h = (h', Inr p)"
  shows "\<exists>ls bs. syncer_run H config (NewBlockSyncer h) ls bs \<and> (\<forall>l \<in> set ls. closes_well l) \<and>
    bs_isClosed bs \<and> bs_threads bs = {#} \<and>
    (\<forall>ls2 bs2. syncer_run H config bs ls2 bs2 \<longrightarrow> bs_isClosed bs2 \<and> bs_open bs2 = {0} \<and> attempts_in ls2 = [])"
proof -
  define ao where "ao = \<lparr>ao_close = None, ao_new = None, ao_dial = None, ao_sync = None\<rparr>"
  define b0 where "b0 = (NewBlockSyncer h)\<lparr>bs_threads := {#SyncCheck User 1#}\<rparr>"
  define b1 where "b1 = b0\<lparr>bs_threads := {#SyncLock User 1#}\<rparr>"
  define b2 where "b2 = b1\<lparr>bs_isClosed := True\<rparr>"
  define b3 where "b3 = b2\<lparr>bs_connection := Some 0, bs_open := {0}, bs_dialed := 1, bs_blockHandler := h',
    bs_threads := {#HandlerWait 0#}, bs_started := [(0, ledger_point p)]\<rparr>"
  note D = b0_def b1_def b2_def b3_def NewBlockSyncer_def
  have s0: "syncer_step H config (NewBlockSyncer h) CallSync b0"
    using syncer_step.call_sync [of H config "NewBlockSyncer h"] by (simp add: D)
  have s1: "syncer_step H config b0 Silent b1"
    using syncer_step.check_open [of User 1 b0 H config] by (simp add: D replace_def)
  have s2: "syncer_step H config b1 (Closed None) b2"
    using syncer_step.close [of b1 H config None] by (simp add: D closeConnectionNoLock_def)
  have "syncExecute_locked H ao b2 = (b3\<lparr>bs_threads := add_mset (HandlerWait 0) {#SyncLock User 1#}\<rparr>, None)"
    using assms by (simp add: D ao_def syncExecute_locked_def closeConnectionNoLock_def Let_def)
  then have s3: "syncer_step H config b2 (Attempt 1 ao None) b3"
    using syncer_step.attempt_ok [of User 1 b2 H ao _ config] by (simp add: D replace_def sync_returns_def)
  have s4: "syncer_step H config b3 Silent (b3\<lparr>bs_threads := {#}\<rparr>)"
    using syncer_step.handler_gone [of 0 b3 H config] by (simp add: D replace_def)
  have "syncer_run H config (NewBlockSyncer h) ([] @ [CallSync] @ [Silent] @ [Closed None] @ [Attempt 1 ao None] @ [Silent]) (b3\<lparr>bs_threads := {#}\<rparr>)"
    using syncer_run.step [OF syncer_run.step [OF syncer_run.step [OF syncer_run.step [OF syncer_run.step [OF syncer_run.start s0] s1] s2] s3] s4]
    by simp
  moreover have "\<forall>l \<in> set ([] @ [CallSync] @ [Silent] @ [Closed None] @ [Attempt 1 ao None] @ [Silent]). closes_well l"
    by (simp add: closes_well_def ao_def)
  moreover have "bs_isClosed bs2 \<and> bs_open bs2 = {0} \<and> attempts_in ls2 = []"
    if "syncer_run H config (b3\<lparr>bs_threads := {#}\<rparr>) ls2 bs2" for ls2 bs2
    using run_after_close [OF that] by (simp add: D checked_def)
  ultimately show ?thesis by (intro exI [of _ "b3\<lparr>bs_threads := {#}\<rparr>"] exI) (auto simp: D)
qed

section \<open>One call of \<open>Sync\<close>\<close>

text \<open>Nobody else calls \<open>Sync\<close>, no connection fails and nothing is closed in the meantime.\<close>

definition undisturbed :: "syncer_label \<Rightarrow> bool" where
  "undisturbed l = (case l of CallSync \<Rightarrow> False | ConnError _ _ \<Rightarrow> False | Closed _ \<Rightarrow> False | _ \<Rightarrow> True)"

definition returns_in :: "syncer_label list \<Rightarrow> goerror option list" where
  "returns_in ls = concat (map (\<lambda>l. case l of Returned _ r \<Rightarrow> [r] | _ \<Rightarrow> []) ls)"

lemma returns_in_simps [simp]:
  "returns_in [] = []" "returns_in (ls @ [l]) = returns_in ls @ (case l of Returned _ r \<Rightarrow> [r] | _ \<Rightarrow> [])"
  by (simp_all add: returns_in_def)

text \<open>Attempts \<open>1, ..., k\<close>, all of them with an error.\<close>

definition failures :: "goerror list \<Rightarrow> (nat \<times> goerror option) list" where
  "failures es = zip [1..<length es + 1] (map Some es)"

lemma failures_snoc [simp]: "failures (es @ [e]) = failures es @ [(length es + 1, Some e)]"
proof -
  have "[1..<length (es @ [e]) + 1] = [1..<length es + 1] @ [length es + 1]" by simp
  then show ?thesis unfolding failures_def by (simp del: upt_Suc)
qed

text \<open>Where such a call is after the errors \<open>es\<close>.\<close>

fun sync_at :: "BlockSyncerConfig \<Rightarrow> syncer_label list \<Rightarrow> goerror list \<Rightarrow> thread \<Rightarrow> bool" where
  "sync_at config ls es (SyncCheck c i) \<longleftrightarrow> c = User \<and> i = length es + 1 \<and> attempts_in ls = failures es \<and> returns_in ls = [] \<and>
     int (length es) < start_tries config"
| "sync_at config ls es (SyncLock c i) \<longleftrightarrow> c = User \<and> i = length es + 1 \<and> attempts_in ls = failures es \<and> returns_in ls = [] \<and>
     int (length es) < start_tries config"
| "sync_at config ls es (SyncWait c i e) \<longleftrightarrow> c = User \<and> i = length es \<and> es \<noteq> [] \<and> e = last es \<and> attempts_in ls = failures es \<and>
     returns_in ls = [] \<and> int (length es) \<le> start_tries config"
| "sync_at config ls es (HandlerWait c) \<longleftrightarrow> attempts_in ls = failures es @ [(length es + 1, None)] \<and> returns_in ls = [] \<and>
     int (length es) < start_tries config"
| "sync_at config ls es _ \<longleftrightarrow> False"

definition sync_over :: "BlockSyncerConfig \<Rightarrow> syncer_label list \<Rightarrow> goerror list \<Rightarrow> bool" where
  "sync_over config ls es \<longleftrightarrow>
     attempts_in ls = failures es @ [(length es + 1, None)] \<and> returns_in ls = [] \<and> int (length es) < start_tries config \<or>
     attempts_in ls = failures es \<and> es \<noteq> [] \<and> int (length es) = start_tries config \<and> returns_in ls = [Some (last es)]"

definition sync_progress :: "BlockSyncerConfig \<Rightarrow> syncer_label list \<Rightarrow> 'h BlockSyncerImpl \<Rightarrow> goerror list \<Rightarrow> bool" where
  "sync_progress config ls bs es \<longleftrightarrow> \<not> bs_isClosed bs \<and>
     ((\<exists>t. bs_threads bs = {#t#} \<and> sync_at config ls es t) \<or> bs_threads bs = {#} \<and> sync_over config ls es)"

lemma progress_thread:
  "sync_progress config ls bs es \<Longrightarrow> t \<in># bs_threads bs \<Longrightarrow> \<not> bs_isClosed bs \<and> bs_threads bs = {#t#} \<and> sync_at config ls es t"
  by (auto simp: sync_progress_def)

lemma progress_keep:
  assumes "sync_progress config ls bs es" "bs_threads bs' = bs_threads bs" "bs_isClosed bs' = bs_isClosed bs"
    "attempts_in [l] = []" "returns_in [l] = []"
  shows "sync_progress config (ls @ [l]) bs' es"
proof -
  have keep: "attempts_in (ls @ [l]) = attempts_in ls" "returns_in (ls @ [l]) = returns_in ls"
    using assms(4,5) by (simp_all add: attempts_in_def returns_in_def)
  have "sync_at config (ls @ [l]) es t = sync_at config ls es t" for t
    by (cases t) (simp_all only: sync_at.simps keep)
  moreover have "sync_over config (ls @ [l]) es = sync_over config ls es" by (simp only: sync_over_def keep)
  ultimately show ?thesis using assms(1-3) by (simp add: sync_progress_def)
qed

lemma start_tries_pos: "start_tries config > 0"
  by (simp add: start_tries_def Let_def syncStartTriesDefault_def)

lemma locked_parts:
  assumes "syncExecute_locked H ao bs = (bs', r)"
  shows "bs_isClosed bs' = bs_isClosed bs \<and> bs_errorCh bs' = bs_errorCh bs \<and>
    bs_threads bs' = (if r = None then add_mset (HandlerWait (bs_dialed bs' - 1)) (bs_threads bs) else bs_threads bs)"
  using assms by (cases rule: locked_cases) (simp_all add: dialed_next_def)

lemma progress_step:
  assumes "syncer_step H config bs l bs'" "undisturbed l" "sync_progress config ls bs es"
  shows "\<exists>es'. sync_progress config (ls @ [l]) bs' es'"
proof -
  note T = progress_thread [OF assms(3)]
  note D = sync_progress_def replace_def sync_returns_def sync_over_def
  have none: "sync_returns c None = {#}" for c by (simp add: sync_returns_def split: sync_caller.split)
  show ?thesis using assms(1)
  proof cases
    case (attempt_ok c i ao b)
    then have "sync_progress config (ls @ [l]) bs' es"
      using T [OF attempt_ok(3)] locked_parts [OF attempt_ok(4)] by (simp add: sync_progress_def replace_def none)
    then show ?thesis ..
  next
    case (attempt_failed c i ao b e)
    then have "sync_progress config (ls @ [l]) bs' (es @ [e])"
      using T [OF attempt_failed(3)] locked_parts [OF attempt_failed(4)] by (simp add: D)
    then show ?thesis ..
  next
    case (wait_last c i e)
    then have "sync_progress config (ls @ [l]) bs' es" using T [OF wait_last(3)] by (simp add: D)
    then show ?thesis ..
  next
    case (check_open c i)
    then have "sync_progress config (ls @ [l]) bs' es" using T [OF check_open(3)] by (simp add: D)
    then show ?thesis ..
  next
    case (wait_again c i e)
    then have "sync_progress config (ls @ [l]) bs' es" using T [OF wait_again(3)] by (simp add: D)
    then show ?thesis ..
  next
    case (handler_gone conn)
    then have "sync_progress config (ls @ [l]) bs' es" using T [OF handler_gone(3)] by (simp add: D)
    then show ?thesis ..
  next
    case (receive err)
    have "sync_progress config (ls @ [l]) bs' es"
      by (rule progress_keep [OF assms(3)]) (simp_all add: receive attempts_in_def returns_in_def)
    then show ?thesis ..
  next
    case (backward conn point h' e)
    have "sync_progress config (ls @ [l]) bs' es"
      by (rule progress_keep [OF assms(3)]) (simp_all add: backward attempts_in_def returns_in_def)
    then show ?thesis ..
  next
    case (forward conn GetBlock blockInfo h' e)
    have "sync_progress config (ls @ [l]) bs' es"
      by (rule progress_keep [OF assms(3)]) (simp_all add: forward attempts_in_def returns_in_def)
    then show ?thesis ..
  qed (use assms(2) T in \<open>fastforce simp: undisturbed_def\<close>)+
qed

text \<open>
  A call of \<open>Sync\<close> that is not disturbed makes attempts \<open>1, 2, ...\<close>: it goes on exactly while they fail
  and there are tries left, stops after the first one that succeeds, and returns an error only after
  \<open>SyncStartTries\<close> attempts (four when that is not positive), all of them failed, and then the last error.
\<close>

theorem Sync_tries:
  assumes "syncer_run H config ((NewBlockSyncer h)\<lparr>bs_threads := {#SyncCheck User 1#}\<rparr>) ls bs" "\<forall>l \<in> set ls. undisturbed l"
  shows "\<exists>es. int (length es) \<le> start_tries config \<and>
    (attempts_in ls = failures es \<or>
     attempts_in ls = failures es @ [(length es + 1, None)] \<and> int (length es) < start_tries config) \<and>
    (returns_in ls = [] \<or> int (length es) = start_tries config \<and> attempts_in ls = failures es \<and> returns_in ls = [Some (last es)])"
proof -
  from assms have "\<exists>es. sync_progress config ls bs es"
  proof (induction rule: syncer_run.induct)
    case start
    show ?case
      by (rule exI [of _ "[]"]) (simp add: sync_progress_def NewBlockSyncer_def failures_def start_tries_pos)
  next
    case (step ls bs l bs')
    then show ?case using progress_step [OF step.hyps(2)] by fastforce
  qed
  then obtain es where "sync_progress config ls bs es" ..
  then show ?thesis
    by (intro exI [of _ es]) (auto simp: sync_progress_def sync_over_def elim!: sync_at.elims)
qed

section \<open>Coming to rest\<close>

text \<open>
  The steps that come from outside: calls of \<open>Sync\<close> and \<open>Close\<close>, errors of connections, callbacks, and whoever
  reads the error channel.
\<close>

definition external :: "syncer_label \<Rightarrow> bool" where
  "external l = (case l of CallSync \<Rightarrow> True | ConnError _ _ \<Rightarrow> True | Called _ _ \<Rightarrow> True |
     Closed _ \<Rightarrow> True | Received _ \<Rightarrow> True | _ \<Rightarrow> False)"

fun thread_rank :: "BlockSyncerConfig \<Rightarrow> thread \<Rightarrow> nat" where
  "thread_rank config (SyncCheck c i) = 3 * (nat (start_tries config) - i) + 5"
| "thread_rank config (SyncLock c i) = 3 * (nat (start_tries config) - i) + 4"
| "thread_rank config (SyncWait c i e) = 3 * (nat (start_tries config) - i) + 3"
| "thread_rank config (HandlerWait c) = 1"
| "thread_rank config HandlerDelay = 3 * nat (start_tries config) + 6"
| "thread_rank config (HandlerSend e) = 2"

definition syncer_rank :: "BlockSyncerConfig \<Rightarrow> 'h BlockSyncerImpl \<Rightarrow> nat" where
  "syncer_rank config bs = (\<Sum>t\<in>#bs_threads bs. thread_rank config t)"

lemma replace_rank:
  assumes "t \<in># bs_threads bs"
  shows "syncer_rank config (replace t new bs) + thread_rank config t = syncer_rank config bs + (\<Sum>t\<in>#new. thread_rank config t)"
proof -
  obtain T where T: "bs_threads bs = add_mset t T" using assms by (rule mset_add)
  show ?thesis by (simp add: syncer_rank_def replace_def T)
qed

lemma sync_returns_rank: "(\<Sum>t\<in>#sync_returns c e. thread_rank config t) \<le> 2"
  by (simp add: sync_returns_def split: sync_caller.splits option.splits)

lemma step_rank:
  assumes "syncer_step H config bs l bs'" "\<not> external l"
  shows "syncer_rank config bs' < syncer_rank config bs"
  using assms
proof cases
  case (check_closed c i)
  then show ?thesis using replace_rank [OF check_closed(3), of config "sync_returns c None"] sync_returns_rank [of config c None] by simp
next
  case (check_open c i)
  then show ?thesis using replace_rank [OF check_open(3), of config "{#SyncLock c i#}"] by simp
next
  case (attempt_ok c i ao b)
  have t: "SyncLock c i \<in># bs_threads b" "syncer_rank config b = syncer_rank config bs + 1"
    using locked_parts [OF attempt_ok(4)] attempt_ok(3) by (simp_all add: syncer_rank_def)
  have "sync_returns c None = {#}" by (simp add: sync_returns_def split: sync_caller.split)
  with replace_rank [OF t(1), of config "sync_returns c None"] t(2) attempt_ok(2) show ?thesis by simp
next
  case (attempt_failed c i ao b e)
  have t: "SyncLock c i \<in># bs_threads b" "syncer_rank config b = syncer_rank config bs"
    using locked_parts [OF attempt_failed(4)] attempt_failed(3) by (simp_all add: syncer_rank_def)
  with replace_rank [OF t(1), of config "{#SyncWait c i e#}"] attempt_failed(2) show ?thesis by simp
next
  case (wait_closed c i e)
  then show ?thesis using replace_rank [OF wait_closed(3), of config "sync_returns c (Some e)"] sync_returns_rank [of config c "Some e"] by simp
next
  case (wait_again c i e)
  then show ?thesis using replace_rank [OF wait_again(3), of config "{#SyncCheck c (i + 1)#}"] by simp
next
  case (wait_last c i e)
  then show ?thesis using replace_rank [OF wait_last(3), of config "sync_returns c (Some e)"] sync_returns_rank [of config c "Some e"] by simp
next
  case (handler_gone conn)
  then show ?thesis using replace_rank [OF handler_gone(3), of config "{#}"] by simp
next
  case delay_closed
  then show ?thesis using replace_rank [OF delay_closed(3), of config "{#}"] by simp
next
  case delay_over
  then show ?thesis using replace_rank [OF delay_over(3), of config "{#SyncCheck Restart 1#}"] by simp
next
  case (send err)
  have t: "HandlerSend err \<in># bs_threads (bs\<lparr>bs_errorCh := [err]\<rparr>)" "syncer_rank config (bs\<lparr>bs_errorCh := [err]\<rparr>) = syncer_rank config bs"
    using send by (simp_all add: syncer_rank_def)
  with replace_rank [OF t(1), of config "{#}"] send(2) show ?thesis by simp
qed (use assms(2) in \<open>simp_all add: external_def\<close>)

lemma run_rank:
  "syncer_run H config bs ls bs' \<Longrightarrow> \<forall>l \<in> set ls. \<not> external l \<Longrightarrow> length ls + syncer_rank config bs' \<le> syncer_rank config bs"
proof (induction rule: syncer_run.induct)
  case (step ls b l b')
  then show ?case using step_rank [OF step.hyps(2)] by fastforce
qed simp

text \<open>
  The threads that cannot go on by themselves: an error handler waits for an error of its open connection, or
  for somebody to read the error channel, which is full.
\<close>

definition waits :: "'h BlockSyncerImpl \<Rightarrow> thread \<Rightarrow> bool" where
  "waits bs t = (case t of HandlerWait c \<Rightarrow> \<not> bs_isClosed bs \<and> c \<in> bs_open bs | HandlerSend e \<Rightarrow> bs_errorCh bs \<noteq> [] | _ \<Rightarrow> False)"

lemma thread_goes_on:
  assumes "t \<in># bs_threads bs" "\<not> waits bs t"
  shows "\<exists>l bs'. syncer_step H config bs l bs' \<and> \<not> external l"
proof (cases t)
  case (SyncCheck c i)
  then show ?thesis using assms(1) syncer_step.check_closed [of c i bs H config] syncer_step.check_open [of c i bs H config]
    by (cases "bs_isClosed bs") (auto simp: external_def)
next
  case (SyncLock c i)
  define ao where "ao = \<lparr>ao_close = None, ao_new = None, ao_dial = None, ao_sync = None\<rparr>"
  obtain b r where "syncExecute_locked H ao bs = (b, r)" by force
  then show ?thesis using assms(1) SyncLock syncer_step.attempt_ok [of c i bs H ao b config] syncer_step.attempt_failed [of c i bs H ao b _ config]
    by (cases r) (fastforce simp: external_def)+
next
  case (SyncWait c i e)
  then show ?thesis using assms(1) syncer_step.wait_again [of c i e bs config H] syncer_step.wait_last [of c i e bs config H]
    by (cases "int i < start_tries config") (auto simp: external_def)
next
  case (HandlerWait c)
  then show ?thesis using assms(1,2) syncer_step.handler_gone [of c bs H config] by (fastforce simp: external_def waits_def)
next
  case HandlerDelay
  then show ?thesis using assms(1) syncer_step.delay_over [of bs H config] by (fastforce simp: external_def)
next
  case (HandlerSend e)
  then show ?thesis using assms syncer_step.send [of e bs H config] by (fastforce simp: external_def waits_def)
qed

lemma waiting_stays:
  assumes "\<forall>t. t \<in># bs_threads bs \<longrightarrow> waits bs t" "syncer_step H config bs l bs'"
  shows "external l"
  using assms(2)
proof cases
  case (handler_gone c)
  then show ?thesis using assms(1) by (force simp: waits_def)
next
  case (send err)
  then show ?thesis using assms(1) by (force simp: waits_def)
qed (use assms(1) in \<open>force simp: waits_def external_def\<close>)+

text \<open>
  C31. Left alone, the syncer comes to rest, as long as the calls made under the lock return: without new calls,
  connection errors, callbacks and reads of the error channel it makes at most \<open>syncer_rank\<close> more steps. It rests
  just when each goroutine left waits, either for an error of its own connection, which is open and the syncer not
  closed, or to send an error while the error channel is full; until then some step is possible.
\<close>

theorem syncer_comes_to_rest:
  assumes "syncer_run H config bs ls bs'" "\<forall>l \<in> set ls. \<not> external l"
  shows "length ls + syncer_rank config bs' \<le> syncer_rank config bs \<and>
    ((\<exists>l bs2. syncer_step H config bs' l bs2 \<and> \<not> external l) \<longleftrightarrow>
     (\<exists>t. t \<in># bs_threads bs' \<and> \<not> (\<exists>c \<in> bs_open bs'. t = HandlerWait c \<and> \<not> bs_isClosed bs') \<and>
       \<not> (\<exists>err. t = HandlerSend err \<and> bs_errorCh bs' \<noteq> [])))"
proof
  show "length ls + syncer_rank config bs' \<le> syncer_rank config bs" by (rule run_rank [OF assms])
  have w: "waits bs' t \<longleftrightarrow> (\<exists>c \<in> bs_open bs'. t = HandlerWait c \<and> \<not> bs_isClosed bs') \<or>
      (\<exists>err. t = HandlerSend err \<and> bs_errorCh bs' \<noteq> [])" for t
    by (auto simp: waits_def split: thread.splits)
  show "(\<exists>l bs2. syncer_step H config bs' l bs2 \<and> \<not> external l) \<longleftrightarrow>
     (\<exists>t. t \<in># bs_threads bs' \<and> \<not> (\<exists>c \<in> bs_open bs'. t = HandlerWait c \<and> \<not> bs_isClosed bs') \<and>
       \<not> (\<exists>err. t = HandlerSend err \<and> bs_errorCh bs' \<noteq> []))"
    using thread_goes_on [of _ bs' H config] waiting_stays [of bs' H config] unfolding de_Morgan_disj [symmetric] w [symmetric]
    by blast
qed

section \<open>The handler\<close>

interpretation syncer_indexer: restartable_handler "indexer_dict bolt_dict" indexer_ready indexer_good
proof unfold_locales
  fix bi bi' :: "'a BBoltDatabase BlockIndexer" and e
  assume "sh_Reset (indexer_dict bolt_dict) bi = (bi', Inl e)"
  then show "bi' = bi" by (auto simp: indexer_dict_def Reset_def Let_def split: sum.splits)
qed

lemma ledger_point_back: "bp_BlockSlot p \<noteq> 0 \<Longrightarrow> block_point (ledger_point p) = p"
  by (simp add: block_point_def ledger_point_def)

text \<open>
  C23. The syncer never breaks the indexer under it, and never makes it panic: once a connection has been
  started, every rollback and every block header the node sends is answered, in every state any
  interleaving of starts, restarts, callbacks and \<open>Close\<close> can reach. When the node rolls back to the point that a
  start resumed from, the indexer is called with just that point if its slot is not 0; the point of slot 0 is sent
  as the origin, so its hash, if it has one, is lost and the indexer is called with the zero point.
\<close>

theorem callbacks_never_panic:
  assumes "syncer_run (indexer_dict bolt_dict) config (NewBlockSyncer bi) ls bs" "indexer_ready bi"
  shows "indexer_ready (bs_blockHandler bs) \<and> (bs_started bs \<noteq> [] \<longrightarrow> indexer_good (bs_blockHandler bs) \<and>
    (\<forall>point. rollBackwardCallback (indexer_dict bolt_dict) (bs_blockHandler bs) point \<noteq> None) \<and>
    (\<forall>conn blockInfo. rollForwardCallback (indexer_dict bolt_dict) (bs_blockHandler bs) conn blockInfo \<noteq> None) \<and>
    (\<forall>p. rollBackwardCallback (indexer_dict bolt_dict) (bs_blockHandler bs) (ledger_point p) =
       RollBackward (bs_blockHandler bs) (if bp_BlockSlot p \<noteq> 0 then p else zero_BlockPoint)))"
proof -
  have r: "indexer_ready (bs_blockHandler bs)" "bs_started bs \<noteq> [] \<Longrightarrow> indexer_good (bs_blockHandler bs)"
    using syncer_indexer.run_handler [OF assms] by auto
  have call: "\<exists>h' e. handler_call (indexer_dict bolt_dict) b it = Some (h', e)" if "indexer_good b" for b :: "'a BBoltDatabase BlockIndexer" and it
    using indexer_runner.call_ok [OF that] by blast
  have "rollBackwardCallback (indexer_dict bolt_dict) (bs_blockHandler bs) point \<noteq> None"
    "rollForwardCallback (indexer_dict bolt_dict) (bs_blockHandler bs) conn blockInfo \<noteq> None"
    if "bs_started bs \<noteq> []" for point conn blockInfo
    using call [OF r(2) [OF that], of "Backward (block_point point)"] call [OF r(2) [OF that], of "Forward _ _"]
    by (auto simp: rollBackwardCallback_def rollForwardCallback_def handler_call_def split: option.splits)
  moreover have "block_point (ledger_point p) = (if bp_BlockSlot p \<noteq> 0 then p else zero_BlockPoint)" for p
    using ledger_point_back [of p] by (auto simp: block_point_def ledger_point_def zero_BlockPoint_def HashSize_def)
  ultimately show ?thesis using r by (simp add: rollBackwardCallback_def indexer_dict_def)
qed

section \<open>Witnesses\<close>

definition demo_config :: BlockSyncerConfig where
  "demo_config = \<lparr>sc_NetworkMagic = 1, sc_NodeAddress = ''/node'', sc_RestartOnError = True, sc_RestartDelay = 1,
     sc_SyncStartTries = 2, sc_KeepAlive = True\<rparr>"

definition good_attempt :: attempt_outcome where
  "good_attempt = \<lparr>ao_close = None, ao_new = None, ao_dial = None, ao_sync = None\<rparr>"

definition resuming_handler :: "unit BlockSyncerHandler" where
  "resuming_handler = \<lparr>sh_RollBackward = (\<lambda>h p. Some (h, None)), sh_RollForward = (\<lambda>h b g. Some (h, None)),
     sh_Reset = (\<lambda>h. (h, Inr zero_BlockPoint))\<rparr>"

definition started_syncer :: "'h \<Rightarrow> BlockPoint \<Rightarrow> 'h BlockSyncerImpl" where
  "started_syncer h p = (NewBlockSyncer h)\<lparr>bs_connection := Some 0, bs_open := {0}, bs_dialed := 1,
     bs_threads := {#HandlerWait 0#}, bs_started := [(0, ledger_point p)]\<rparr>"

lemma first_check:
  "syncer_run H config (NewBlockSyncer h) [CallSync, Silent] ((NewBlockSyncer h)\<lparr>bs_threads := {#SyncLock User 1#}\<rparr>)"
  "syncer_run H config ((NewBlockSyncer h)\<lparr>bs_threads := {#SyncCheck User 1#}\<rparr>) [Silent] ((NewBlockSyncer h)\<lparr>bs_threads := {#SyncLock User 1#}\<rparr>)"
proof -
  have s0: "syncer_step H config (NewBlockSyncer h) CallSync ((NewBlockSyncer h)\<lparr>bs_threads := {#SyncCheck User 1#}\<rparr>)"
    using syncer_step.call_sync [of H config "NewBlockSyncer h"] by (simp add: NewBlockSyncer_def)
  have s1: "syncer_step H config ((NewBlockSyncer h)\<lparr>bs_threads := {#SyncCheck User 1#}\<rparr>) Silent ((NewBlockSyncer h)\<lparr>bs_threads := {#SyncLock User 1#}\<rparr>)"
    using syncer_step.check_open [of User 1 "(NewBlockSyncer h)\<lparr>bs_threads := {#SyncCheck User 1#}\<rparr>" H config]
    by (simp add: NewBlockSyncer_def replace_def)
  show "syncer_run H config (NewBlockSyncer h) [CallSync, Silent] ((NewBlockSyncer h)\<lparr>bs_threads := {#SyncLock User 1#}\<rparr>)"
    using syncer_run.step [OF syncer_run.step [OF syncer_run.start s0] s1] by simp
  show "syncer_run H config ((NewBlockSyncer h)\<lparr>bs_threads := {#SyncCheck User 1#}\<rparr>) [Silent] ((NewBlockSyncer h)\<lparr>bs_threads := {#SyncLock User 1#}\<rparr>)"
    using syncer_run.step [OF syncer_run.start s1] by simp
qed

lemma first_start:
  assumes "sh_Reset H h = (h', Inr p)"
  shows "syncer_step H config ((NewBlockSyncer h)\<lparr>bs_threads := {#SyncLock User 1#}\<rparr>) (Attempt 1 good_attempt None) (started_syncer h' p)"
    "syncer_run H config (NewBlockSyncer h) [CallSync, Silent, Attempt 1 good_attempt None] (started_syncer h' p)"
proof -
  have "syncExecute_locked H good_attempt ((NewBlockSyncer h)\<lparr>bs_threads := {#SyncLock User 1#}\<rparr>) =
      ((started_syncer h' p)\<lparr>bs_threads := add_mset (HandlerWait 0) {#SyncLock User 1#}\<rparr>, None)"
    using assms by (simp add: started_syncer_def NewBlockSyncer_def good_attempt_def syncExecute_locked_def closeConnectionNoLock_def Let_def)
  then show s: "syncer_step H config ((NewBlockSyncer h)\<lparr>bs_threads := {#SyncLock User 1#}\<rparr>) (Attempt 1 good_attempt None) (started_syncer h' p)"
    using syncer_step.attempt_ok [of User 1 "(NewBlockSyncer h)\<lparr>bs_threads := {#SyncLock User 1#}\<rparr>" H good_attempt _ config]
    by (simp add: started_syncer_def NewBlockSyncer_def replace_def sync_returns_def)
  show "syncer_run H config (NewBlockSyncer h) [CallSync, Silent, Attempt 1 good_attempt None] (started_syncer h' p)"
    using syncer_run.step [OF first_check(1) s] by simp
qed

lemma resuming: "sh_Reset resuming_handler () = ((), Inr zero_BlockPoint)"
  by (simp add: resuming_handler_def)

theorem one_connection_open_witness:
  "bs_open (started_syncer () zero_BlockPoint) = {0} \<and> bs_open (started_syncer () zero_BlockPoint) \<subseteq> set_option (Some 0)"
proof -
  have "\<forall>l \<in> set [CallSync, Silent, Attempt 1 good_attempt None]. closes_well l" by (simp add: closes_well_def good_attempt_def)
  with one_connection_open [OF first_start(2) [OF resuming, of demo_config]] show ?thesis by (simp add: started_syncer_def)
qed

theorem closed_stays_closed_witness:
  "\<exists>bs1. syncer_step resuming_handler demo_config (started_syncer () zero_BlockPoint) (Closed None) bs1 \<and> bs_open bs1 = {}"
proof -
  have w: "\<forall>l \<in> set [CallSync, Silent, Attempt 1 good_attempt None]. closes_well l" by (simp add: closes_well_def good_attempt_def)
  have c: "syncer_step resuming_handler demo_config (started_syncer () zero_BlockPoint) (Closed None)
      (closeConnectionNoLock None ((started_syncer () zero_BlockPoint)\<lparr>bs_isClosed := True\<rparr>))"
    by (rule syncer_step.close) (simp add: started_syncer_def NewBlockSyncer_def)
  from closed_stays_closed [OF first_start(2) [OF resuming] _ c syncer_run.start] c w show ?thesis
    by (fastforce simp: started_syncer_def)
qed

theorem close_race_leaks_connection_witness:
  "\<exists>ls bs. syncer_run resuming_handler demo_config (NewBlockSyncer ()) ls bs \<and> bs_isClosed bs \<and> bs_open bs = {0}"
  using close_race_leaks_connection [OF resuming, of demo_config] syncer_run.start by meson

theorem Sync_tries_witness:
  "attempts_in [Silent, Attempt 1 good_attempt None] = failures [] @ [(1, None)] \<and> start_tries demo_config = 2"
proof -
  have "syncer_run resuming_handler demo_config ((NewBlockSyncer ())\<lparr>bs_threads := {#SyncCheck User 1#}\<rparr>)
      [Silent, Attempt 1 good_attempt None] (started_syncer () zero_BlockPoint)"
    using syncer_run.step [OF first_check(2) first_start(1) [OF resuming]] by simp
  from Sync_tries [OF this] show ?thesis
    by (auto simp: undisturbed_def attempts_in_def failures_def start_tries_def demo_config_def)
qed

theorem syncer_comes_to_rest_witness:
  "\<exists>bs'. syncer_run resuming_handler demo_config ((NewBlockSyncer ())\<lparr>bs_threads := {#SyncLock User 1#}\<rparr>) [Attempt 1 good_attempt None] bs' \<and>
     bs_threads bs' = {#HandlerWait 0#} \<and> (\<nexists>l bs2. syncer_step resuming_handler demo_config bs' l bs2 \<and> \<not> external l)"
proof -
  let ?b = "(NewBlockSyncer ())\<lparr>bs_threads := {#SyncLock User 1#}\<rparr>" and ?b' = "started_syncer () zero_BlockPoint"
  have run: "syncer_run resuming_handler demo_config ?b ([] @ [Attempt 1 good_attempt None]) ?b'"
    by (rule syncer_run.step [OF syncer_run.start first_start(1) [OF resuming]])
  moreover have t: "bs_threads ?b' = {#HandlerWait 0#}" "bs_open ?b' = {0}" "\<not> bs_isClosed ?b'"
    by (simp_all add: started_syncer_def NewBlockSyncer_def)
  ultimately have "\<nexists>l bs2. syncer_step resuming_handler demo_config ?b' l bs2 \<and> \<not> external l"
    using syncer_comes_to_rest [OF run] by (simp add: external_def)
  with run t(1) show ?thesis by auto
qed

theorem callbacks_never_panic_witness:
  "rollBackwardCallback (indexer_dict bolt_dict) demo_ready_indexer \<lparr>lp_Slot = 5, lp_Hash = [1]\<rparr> \<noteq> None"
proof -
  have "sh_Reset (indexer_dict bolt_dict) (demo_indexer True) = (demo_ready_indexer, Inr zero_BlockPoint)"
    using demo_Reset by (simp add: indexer_dict_def)
  from callbacks_never_panic [OF first_start(2) [OF this, of demo_config] demo_ready(1)]
  show ?thesis by (simp add: started_syncer_def NewBlockSyncer_def)
qed

end
