(* ===== verification/Bech32.thy ===== *)
theory Bech32
  imports Go_Lib
begin

text \<open>
  The bech32 codec (\<open>wallet/bech32/bech32.go\<close>, \<open>error.go\<close>): the checksum polynomial, the
  encoder and decoder, and the regrouping of bits. The checksum is a Go \<open>int\<close>, which never
  reaches bit 31, so it is a 64-bit word here. The errors are the error types of the package.
\<close>

unbundle bit_operations_syntax

section \<open>Errors\<close>

datatype bech32_error =
    MixedCaseError
  | InvalidBitGroupsError
  | InvalidIncompleteGroupError
  | InvalidLengthError int
  | InvalidCharacterError char
  | InvalidSeparatorIndexError int
  | NonCharsetCharError char
  | InvalidChecksumError string string
  | InvalidDataByteError byte

text \<open>\<open>%c\<close> of a byte read as a rune: its UTF-8 encoding.\<close>

definition rune_text :: "char \<Rightarrow> string" where
  "rune_text c = (let n = (of_char c :: nat) in
     if n < 0x80 then [c] else [char_of (0xC0 + n div 64), char_of (0x80 + n mod 64)])"

fun bech32_err_text :: "bech32_error \<Rightarrow> string" where
  "bech32_err_text MixedCaseError = ''string not all lowercase or all uppercase''"
| "bech32_err_text InvalidBitGroupsError = ''only bit groups between 1 and 8 allowed''"
| "bech32_err_text InvalidIncompleteGroupError = ''invalid incomplete group''"
| "bech32_err_text (InvalidLengthError n) = ''invalid bech32 string length '' @ itoa_int n"
| "bech32_err_text (InvalidCharacterError c) = ''invalid character in string: '' @ [CHR 0x27] @ rune_text c @ [CHR 0x27]"
| "bech32_err_text (InvalidSeparatorIndexError n) = ''invalid separator index '' @ itoa_int n"
| "bech32_err_text (NonCharsetCharError c) = ''invalid character not part of charset: '' @ rune_text c"
| "bech32_err_text (InvalidChecksumError expected actual) =
     ''invalid checksum (expected '' @ expected @ '' got '' @ actual @ '')''"
| "bech32_err_text (InvalidDataByteError b) = ''invalid data byte: '' @ itoa (unat b)"

section \<open>Checksum\<close>

definition charset :: string where
  "charset = ''qpzry9x8gf2tvdw0s3jn54khce6mua7l''"

definition maxBechStrLength :: nat where
  "maxBechStrLength = 256"

definition gen :: "u64 list" where
  "gen = [0x3b6a57b2, 0x26508e6d, 0x1ea119fa, 0x3d4233dd, 0x2a1462b3]"

text \<open>The inner loop: for each of the five bits of \<open>b\<close>, xor the generator.\<close>

fun gen_loop :: "u64 \<Rightarrow> u64 \<Rightarrow> nat list \<Rightarrow> u64" where
  "gen_loop b chk [] = chk"
| "gen_loop b chk (i # is) =
     gen_loop b (if drop_bit i b AND 1 = 1 then chk XOR gen ! i else chk) is"

definition polymod_round :: "u64 \<Rightarrow> u64 \<Rightarrow> u64" where
  "polymod_round chk v =
     (let b = drop_bit 25 chk; chk = push_bit 5 (chk AND 0x1ffffff) XOR v in gen_loop b chk [0..<5])"

text \<open>The round for the separator and for an absent checksum, without the redundant xor.\<close>

definition polymod_round0 :: "u64 \<Rightarrow> u64" where
  "polymod_round0 chk =
     (let b = drop_bit 25 chk; chk = push_bit 5 (chk AND 0x1ffffff) in gen_loop b chk [0..<5])"

definition char_u64 :: "char \<Rightarrow> u64" where
  "char_u64 c = word_of_nat (of_char c)"

definition byte_u64 :: "byte \<Rightarrow> u64" where
  "byte_u64 b = ucast b"

definition bech32Polymod :: "string \<Rightarrow> bytes \<Rightarrow> bytes option \<Rightarrow> u64" where
  "bech32Polymod hrp values checksum =
     (let chk = 1;
          chk = foldl (\<lambda>chk c. polymod_round chk (drop_bit 5 (char_u64 c))) chk hrp;
          chk = polymod_round0 chk;
          chk = foldl (\<lambda>chk c. polymod_round chk (char_u64 c AND 31)) chk hrp;
          chk = foldl (\<lambda>chk v. polymod_round chk (byte_u64 v)) chk values
      in case checksum of
           None \<Rightarrow> foldl (\<lambda>chk _. polymod_round0 chk) chk [0..<6]
         | Some cs \<Rightarrow> foldl (\<lambda>chk v. polymod_round chk (byte_u64 v)) chk cs)"

definition checksum_bytes :: "string \<Rightarrow> bytes \<Rightarrow> bytes" where
  "checksum_bytes hrp data =
     (let polymod = bech32Polymod hrp data None XOR 1
      in map (\<lambda>i. ucast (drop_bit (5 * (5 - i)) polymod AND 31)) [0..<6])"

definition writeBech32Checksum :: "string \<Rightarrow> bytes \<Rightarrow> string" where
  "writeBech32Checksum hrp data = map (\<lambda>b. charset ! unat b) (checksum_bytes hrp data)"

definition bech32VerifyChecksum :: "string \<Rightarrow> bytes \<Rightarrow> bool" where
  "bech32VerifyChecksum hrp data =
     (let checksum = drop (length data - 6) data; values = take (length data - 6) data
      in bech32Polymod hrp values (Some checksum) = 1)"

section \<open>Encoding and decoding\<close>

fun toBytes :: "string \<Rightarrow> bech32_error + bytes" where
  "toBytes [] = Inr []"
| "toBytes (c # cs) =
     (case index_byte charset c of
        None \<Rightarrow> Inl (NonCharsetCharError c)
      | Some i \<Rightarrow> rbind (toBytes cs) (\<lambda>bs. Inr (word_of_nat i # bs)))"

text \<open>The check of the characters: printable, and not of both cases.\<close>

fun case_loop :: "string \<Rightarrow> bool \<Rightarrow> bool \<Rightarrow> bech32_error + bool" where
  "case_loop [] hasLower hasUpper = Inr hasUpper"
| "case_loop (c # cs) hasLower hasUpper =
     (let n = (of_char c :: nat) in
      if n < 33 \<or> n > 126 then Inl (InvalidCharacterError c)
      else
        let hasLower = (hasLower \<or> (97 \<le> n \<and> n \<le> 122));
            hasUpper = (hasUpper \<or> (65 \<le> n \<and> n \<le> 90))
        in if hasLower \<and> hasUpper then Inl MixedCaseError else case_loop cs hasLower hasUpper)"

definition DecodeNoLimit :: "string \<Rightarrow> bech32_error + (string \<times> bytes)" where
  "DecodeNoLimit bech =
     (if length bech < 8 then Inl (InvalidLengthError (int (length bech)))
      else rbind (case_loop bech False False) (\<lambda>hasUpper.
        let bech = (if hasUpper then to_lower bech else bech);
            one = (case last_index_byte bech (CHR ''1'') of None \<Rightarrow> -1 | Some i \<Rightarrow> int i)
        in if one < 1 \<or> one + 7 > int (length bech) then Inl (InvalidSeparatorIndexError one)
           else
             let hrp = take (nat one) bech; data = drop (nat one + 1) bech
             in rbind (toBytes data) (\<lambda>decoded.
                if \<not> bech32VerifyChecksum hrp decoded
                then Inl (InvalidChecksumError
                  (writeBech32Checksum hrp (take (length decoded - 6) decoded))
                  (drop (length bech - 6) bech))
                else Inr (hrp, take (length decoded - 6) decoded))))"

definition Decode :: "string \<Rightarrow> bech32_error + (string \<times> bytes)" where
  "Decode bech =
     (if length bech > maxBechStrLength then Inl (InvalidLengthError (int (length bech)))
      else DecodeNoLimit bech)"

fun charset_loop :: "bytes \<Rightarrow> bech32_error + string" where
  "charset_loop [] = Inr []"
| "charset_loop (b # bs) =
     (if unat b \<ge> length charset then Inl (InvalidDataByteError b)
      else rbind (charset_loop bs) (\<lambda>s. Inr (charset ! unat b # s)))"

definition Encode :: "string \<Rightarrow> bytes \<Rightarrow> bech32_error + string" where
  "Encode hrp data =
     (let hrp = to_lower hrp in
      rbind (charset_loop data) (\<lambda>s. Inr (hrp @ ''1'' @ s @ writeBech32Checksum hrp data)))"

section \<open>Regrouping of bits\<close>

text \<open>
  The inner loop of \<open>ConvertBits\<close> on the state (\<open>regrouped\<close>, \<open>nextByte\<close>, \<open>filledBits\<close>).
  An iteration that extracts no bit would repeat forever: the result is then \<open>None\<close>.
\<close>

type_synonym regroup_state = "bytes \<times> byte \<times> nat"

function extract_loop :: "nat \<Rightarrow> byte \<Rightarrow> nat \<Rightarrow> regroup_state \<Rightarrow> regroup_state option" where
  "extract_loop toBits b remFromBits (regrouped, nextByte, filledBits) =
     (if remFromBits = 0 then Some (regrouped, nextByte, filledBits)
      else
        let remToBits = toBits - filledBits;
            toExtract = (if remToBits < remFromBits then remToBits else remFromBits);
            nextByte = push_bit toExtract nextByte OR drop_bit (8 - toExtract) b;
            filledBits = filledBits + toExtract;
            st = (if filledBits = toBits then (regrouped @ [nextByte], 0, 0) else (regrouped, nextByte, filledBits))
        in if toExtract = 0 then None
           else extract_loop toBits (push_bit toExtract b) (remFromBits - toExtract) st)"
  by pat_completeness auto
termination
  by (relation "measure (\<lambda>(toBits, b, r, st). r)") auto

declare extract_loop.simps [simp del]

fun convert_loop :: "nat \<Rightarrow> nat \<Rightarrow> bytes \<Rightarrow> regroup_state \<Rightarrow> regroup_state option" where
  "convert_loop fromBits toBits [] st = Some st"
| "convert_loop fromBits toBits (b # bs) st =
     Option.bind (extract_loop toBits (push_bit (8 - fromBits) b) fromBits st)
       (convert_loop fromBits toBits bs)"

text \<open>\<open>None\<close>: the call does not return (it always does, \<open>ConvertBits_returns\<close>).\<close>

definition ConvertBits :: "bytes \<Rightarrow> nat \<Rightarrow> nat \<Rightarrow> bool \<Rightarrow> (bech32_error + bytes) option" where
  "ConvertBits data fromBits toBits pad =
     (if fromBits < 1 \<or> fromBits > 8 \<or> toBits < 1 \<or> toBits > 8 then Some (Inl InvalidBitGroupsError)
      else Option.bind (convert_loop fromBits toBits data ([], 0, 0)) (\<lambda>(regrouped, nextByte, filledBits).
        if pad \<and> 0 < filledBits
        then Some (Inr (regrouped @ [push_bit (toBits - filledBits) nextByte]))
        else if 0 < filledBits \<and> (filledBits > 4 \<or> nextByte \<noteq> 0)
        then Some (Inl InvalidIncompleteGroupError)
        else Some (Inr regrouped)))"

definition EncodeFromBase256 :: "string \<Rightarrow> bytes \<Rightarrow> (bech32_error + string) option" where
  "EncodeFromBase256 hrp data =
     Option.bind (ConvertBits data 8 5 True) (\<lambda>r. Some (rbind r (Encode hrp)))"

definition DecodeToBase256 :: "string \<Rightarrow> (bech32_error + (string \<times> bytes)) option" where
  "DecodeToBase256 bech =
     (case Decode bech of
        Inl e \<Rightarrow> Some (Inl e)
      | Inr (hrp, data) \<Rightarrow>
          Option.bind (ConvertBits data 5 8 False) (\<lambda>r. Some (rbind r (\<lambda>converted. Inr (hrp, converted)))))"

end
