(* ===== verification/Wallet_Keys.thy ===== *)
theory Wallet_Keys
  imports Bech32 Json_Doc
begin

text \<open>
  Keys, signatures and transaction envelopes of the wallet package
  (\<open>wallet/wallet.go\<close>, \<open>wallet/wallet_utils.go\<close>, \<open>wallet/txwitness.go\<close>). Parameters are the
  cryptographic primitives (\<open>ed25519_prims\<close> on inputs of the right size; the size checks of
  \<open>crypto/ed25519\<close>, which panic, are modelled), \<open>blake2b\<close> and the \<open>cbor\<close> package.
\<close>

section \<open>Primitives\<close>

definition KeyHashSize :: nat where "KeyHashSize = 28"
definition KeySize :: nat where "KeySize = 32"
definition KeyExtendedSize :: nat where "KeyExtendedSize = 128"

record ed25519_prims =
  ed_public :: "bytes \<Rightarrow> bytes"
  ed_sign :: "bytes \<Rightarrow> bytes \<Rightarrow> bytes"
  ed_verify :: "bytes \<Rightarrow> bytes \<Rightarrow> bytes \<Rightarrow> bool"

text \<open>
  \<open>ed25519.NewKeyFromSeed(seed).Public()\<close>, \<open>Sign\<close> and \<open>Verify\<close>: an \<open>Inl\<close> is a panic with
  that message.
\<close>

definition ed25519_public :: "ed25519_prims \<Rightarrow> bytes \<Rightarrow> string + bytes" where
  "ed25519_public ed seed =
     (if length seed \<noteq> 32 then Inl (''ed25519: bad seed length: '' @ itoa (length seed))
      else Inr (ed_public ed seed))"

definition ed25519_Sign :: "ed25519_prims \<Rightarrow> bytes \<Rightarrow> bytes \<Rightarrow> string + bytes" where
  "ed25519_Sign ed priv msg =
     (if length priv \<noteq> 64 then Inl (''ed25519: bad private key length: '' @ itoa (length priv))
      else Inr (ed_sign ed priv msg))"

definition ed25519_Verify :: "ed25519_prims \<Rightarrow> bytes \<Rightarrow> bytes \<Rightarrow> bytes \<Rightarrow> string + bool" where
  "ed25519_Verify ed pub msg sig =
     (if length pub \<noteq> 32 then Inl (''ed25519: bad public key length: '' @ itoa (length pub))
      else Inr (length sig = 64 \<and> ed_verify ed pub msg sig))"

text \<open>What the primitives promise.\<close>

definition ed25519_laws :: "ed25519_prims \<Rightarrow> bool" where
  "ed25519_laws ed \<longleftrightarrow>
     (\<forall>seed. length seed = 32 \<longrightarrow> length (ed_public ed seed) = 32) \<and>
     (\<forall>priv msg. length priv = 64 \<longrightarrow> length (ed_sign ed priv msg) = 64) \<and>
     (\<forall>seed msg. length seed = 32 \<longrightarrow>
        ed_verify ed (ed_public ed seed) msg (ed_sign ed (seed @ ed_public ed seed) msg))"

record cbor_prims =
  cbor_bytes :: "bytes \<Rightarrow> bytes result"
  cbor_bytes_list :: "bytes list \<Rightarrow> bytes result"
  uncbor_bytes :: "bytes \<Rightarrow> bytes result"
  uncbor_pair :: "bytes \<Rightarrow> (bytes \<times> bytes) result"

text \<open>
  Byte strings are encoded without failure and read back; the encoding of a pair is an array
  header followed by the header of a byte string, which is not zero (RFC 8949).
\<close>

definition cbor_laws :: "cbor_prims \<Rightarrow> bool" where
  "cbor_laws cb \<longleftrightarrow>
     (\<forall>bs. \<exists>enc. cbor_bytes cb bs = Inr enc \<and> uncbor_bytes cb enc = Inr bs) \<and>
     (\<forall>a b. \<exists>enc. cbor_bytes_list cb [a, b] = Inr enc \<and> uncbor_pair cb enc = Inr (a, b) \<and>
        length enc \<ge> 2 \<and> enc ! 1 \<noteq> 0)"

section \<open>Key sizes and hashes\<close>

definition PadKeyToSize :: "bytes \<Rightarrow> bytes" where
  "PadKeyToSize key =
     (let size = (if length key > KeyExtendedSize div 2 then KeyExtendedSize else KeySize)
      in if length key = size then key
         else if length key < size then replicate (size - length key) 0 @ key
         else take size key)"

text \<open>
  The hash of \<open>blake2b\<close>: \<open>blake2b n\<close> is \<open>New(n, nil)\<close> followed by \<open>Write\<close> and \<open>Sum\<close>, either
  of the first two may fail.
\<close>

definition GetKeyHashBytes :: "(nat \<Rightarrow> bytes \<Rightarrow> bytes result) \<Rightarrow> bytes \<Rightarrow> bytes result" where
  "GetKeyHashBytes blake2b bs = blake2b KeyHashSize bs"

definition GetKeyHash :: "(nat \<Rightarrow> bytes \<Rightarrow> bytes result) \<Rightarrow> bytes \<Rightarrow> string result" where
  "GetKeyHash blake2b bs = rbind (GetKeyHashBytes blake2b bs) (\<lambda>h. Inr (hex_encode h))"

definition bech32_result :: "(bech32_error + 'a) \<Rightarrow> 'a result" where
  "bech32_result r = (case r of Inl e \<Rightarrow> Inl (ErrMsg (bech32_err_text e)) | Inr x \<Rightarrow> Inr x)"

text \<open>\<open>None\<close> as in \<open>ConvertBits\<close>.\<close>

definition GetKeyBytes :: "cbor_prims \<Rightarrow> string \<Rightarrow> bytes result option" where
  "GetKeyBytes cb key =
     (case hex_DecodeString key of
        Inr bs \<Rightarrow> Some (rbind (uncbor_bytes cb bs) (\<lambda>result. Inr (PadKeyToSize result)))
      | Inl _ \<Rightarrow> Option.bind (DecodeToBase256 key)
          (\<lambda>r. Some (rbind (bech32_result r) (\<lambda>(_, result). Inr (PadKeyToSize result)))))"

section \<open>Signatures\<close>

text \<open>The deferred \<open>recover\<close> turns a panic into the error result.\<close>

definition recovered :: "string + 'a result \<Rightarrow> 'a result" where
  "recovered r = (case r of Inl m \<Rightarrow> Inl (ErrMsg (''error: '' @ m)) | Inr x \<Rightarrow> x)"

definition SignMessage :: "ed25519_prims \<Rightarrow> bytes \<Rightarrow> bytes \<Rightarrow> bytes \<Rightarrow> bytes result" where
  "SignMessage ed signingKey verificationKey message =
     recovered (rbind (ed25519_Sign ed (signingKey @ verificationKey) message) (\<lambda>s. Inr (Inr s)))"

definition VerifyMessage :: "ed25519_prims \<Rightarrow> bytes \<Rightarrow> bytes \<Rightarrow> bytes \<Rightarrow> unit result" where
  "VerifyMessage ed message verificationKey signature =
     recovered (rbind (ed25519_Verify ed verificationKey message signature)
       (\<lambda>ok. Inr (if \<not> ok then Inl ErrInvalidSignature else Inr ())))"

definition GetSignatureAndVKey :: "cbor_prims \<Rightarrow> bytes \<Rightarrow> (bytes \<times> bytes) result" where
  "GetSignatureAndVKey cb w =
     (let bs = (if length w \<ge> 2 \<and> w ! 0 = 0x82 \<and> w ! 1 = 0 then drop 2 w else w)
      in rbind (uncbor_pair cb bs) (\<lambda>(vkey, sig). Inr (sig, vkey)))"

definition VerifyWitness :: "ed25519_prims \<Rightarrow> cbor_prims \<Rightarrow> string \<Rightarrow> bytes \<Rightarrow> unit result" where
  "VerifyWitness ed cb txHash witness =
     rbind (hex_DecodeString txHash) (\<lambda>txHashBytes.
     rbind (GetSignatureAndVKey cb witness) (\<lambda>(signature, vKey).
     VerifyMessage ed txHashBytes vKey signature))"

section \<open>Wallets\<close>

record Wallet =
  w_VerificationKey :: bytes
  w_SigningKey :: bytes
  w_StakeVerificationKey :: bytes
  w_StakeSigningKey :: bytes

text \<open>
  The closure \<open>getVerificationKey\<close>; \<open>GetVerificationKeyFromSigningKey\<close> panics unless the
  signing key is a seed.
\<close>

definition GetVerificationKeyFromSigningKey :: "ed25519_prims \<Rightarrow> bytes \<Rightarrow> bytes option" where
  "GetVerificationKeyFromSigningKey ed signingKey =
     (case ed25519_public ed signingKey of Inl _ \<Rightarrow> None | Inr k \<Rightarrow> Some k)"

definition getVerificationKey :: "ed25519_prims \<Rightarrow> bytes \<Rightarrow> bytes option" where
  "getVerificationKey ed signingKey =
     (if length signingKey \<ge> 96 then Some (take 32 (drop 64 signingKey))
      else GetVerificationKeyFromSigningKey ed signingKey)"

definition NewWallet :: "ed25519_prims \<Rightarrow> bytes \<Rightarrow> bytes \<Rightarrow> Wallet option" where
  "NewWallet ed signingKey stakeSigningKey =
     (let signingKey = PadKeyToSize signingKey
      in Option.bind
        (if length stakeSigningKey > 0
         then let stakeSigningKey = PadKeyToSize stakeSigningKey
              in Option.bind (getVerificationKey ed stakeSigningKey) (\<lambda>vk. Some (stakeSigningKey, vk))
         else Some ([], []))
        (\<lambda>(stakeSigningKey, stakeVerificationKey).
      Option.bind (getVerificationKey ed signingKey) (\<lambda>vk.
        Some \<lparr>w_VerificationKey = vk, w_SigningKey = signingKey,
          w_StakeVerificationKey = stakeVerificationKey, w_StakeSigningKey = stakeSigningKey\<rparr>)))"

text \<open>\<open>read\<close> is what \<open>io.ReadFull(rand.Reader, seed)\<close> delivers: an error, or 32 bytes.\<close>

definition GenerateKeyPair :: "ed25519_prims \<Rightarrow> bytes result \<Rightarrow> (bytes \<times> bytes) result option" where
  "GenerateKeyPair ed read =
     (case read of
        Inl e \<Rightarrow> Some (Inl e)
      | Inr seed \<Rightarrow> Option.bind (GetVerificationKeyFromSigningKey ed seed) (\<lambda>vk. Some (Inr (seed, vk))))"

definition GenerateWallet :: "ed25519_prims \<Rightarrow> bytes result \<Rightarrow> bytes result \<Rightarrow> bool \<Rightarrow> Wallet result option" where
  "GenerateWallet ed read1 read2 isStake =
     Option.bind (GenerateKeyPair ed read1) (\<lambda>r1. case r1 of
        Inl e \<Rightarrow> Some (Inl e)
      | Inr (signingKey, verificationKey) \<Rightarrow>
          Option.bind
            (if isStake then Option.bind (GenerateKeyPair ed read2)
               (\<lambda>r2. Some (rbind r2 (\<lambda>(sk, vk). Inr (PadKeyToSize sk, PadKeyToSize vk))))
             else Some (Inr ([], [])))
            (\<lambda>r2. Some (rbind r2 (\<lambda>(stakeSigningKey, stakeVerificationKey).
               Inr \<lparr>w_VerificationKey = PadKeyToSize verificationKey, w_SigningKey = PadKeyToSize signingKey,
                 w_StakeVerificationKey = stakeVerificationKey, w_StakeSigningKey = stakeSigningKey\<rparr>))))"

definition wallet_CreateTxWitness :: "ed25519_prims \<Rightarrow> cbor_prims \<Rightarrow> Wallet \<Rightarrow> bytes \<Rightarrow> bytes result" where
  "wallet_CreateTxWitness ed cb w txHash =
     rbind (SignMessage ed (w_SigningKey w) (w_VerificationKey w) txHash)
       (\<lambda>signature. cbor_bytes_list cb [w_VerificationKey w, signature])"

definition wallet_GetPaymentKeys :: "Wallet \<Rightarrow> bytes \<times> bytes" where
  "wallet_GetPaymentKeys w = (w_SigningKey w, w_VerificationKey w)"

section \<open>Key files\<close>

text \<open>The content of a file: a JSON text, as its document, or other bytes.\<close>

datatype file_content = FileJson json | FileBytes bytes

definition json_of_file :: "file_content \<Rightarrow> json result" where
  "json_of_file f = (case f of FileJson j \<Rightarrow> Inr j | FileBytes _ \<Rightarrow> Inl json_syntax_error)"

record Key =
  key_Type :: string
  key_Description :: string
  key_Hex :: string

definition NewKeyFromBytes :: "cbor_prims \<Rightarrow> string \<Rightarrow> string \<Rightarrow> bytes \<Rightarrow> Key result" where
  "NewKeyFromBytes cb keyType desc bs =
     rbind (cbor_bytes cb (PadKeyToSize bs)) (\<lambda>cborBytes.
       Inr \<lparr>key_Type = keyType, key_Description = desc, key_Hex = hex_encode cborBytes\<rparr>)"

definition key_GetKeyBytes :: "cbor_prims \<Rightarrow> Key \<Rightarrow> bytes result option" where
  "key_GetKeyBytes cb k = GetKeyBytes cb (key_Hex k)"

definition enc_key :: "Key \<Rightarrow> json" where
  "enc_key k = JObj [(''type'', enc_str (key_Type k)), (''description'', enc_str (key_Description k)),
     (''cborHex'', enc_str (key_Hex k))]"

definition dec_key :: "json \<Rightarrow> Key result" where
  "dec_key j =
     rbind (dec_obj j) (\<lambda>fs.
     rbind (dec_str (json_member fs ''type'')) (\<lambda>t.
     rbind (dec_str (json_member fs ''description'')) (\<lambda>d.
     rbind (dec_str (json_member fs ''cborHex'')) (\<lambda>h.
     Inr \<lparr>key_Type = t, key_Description = d, key_Hex = h\<rparr>))))"

text \<open>\<open>WriteToFile\<close> writes the document, \<open>NewKey\<close> reads one from what \<open>os.ReadFile\<close> gives.\<close>

definition key_file :: "Key \<Rightarrow> file_content" where
  "key_file k = FileJson (enc_key k)"

definition NewKey :: "file_content result \<Rightarrow> Key result" where
  "NewKey file = rbind file (\<lambda>f. rbind (json_of_file f) dec_key)"

section \<open>Transaction envelopes\<close>

text \<open>A Go map is written with its keys in order.\<close>

definition envelope :: "string \<Rightarrow> string \<Rightarrow> bytes \<Rightarrow> json" where
  "envelope ty desc bs = JObj [(''cborHex'', enc_str (hex_encode bs)),
     (''description'', enc_str desc), (''type'', enc_str ty)]"

definition witness_ToJSON :: "bytes \<Rightarrow> string \<Rightarrow> json" where
  "witness_ToJSON w era = envelope (''TxWitness '' @ era @ ''Era'') ''Key Witness ShelleyEra'' w"

definition unwitnessed_ToJSON :: "bytes \<Rightarrow> string \<Rightarrow> json" where
  "unwitnessed_ToJSON tx era = envelope (''Unwitnessed Tx '' @ era @ ''Era'') ''Ledger Cddl Format'' tx"

definition witnessed_ToJSON :: "bytes \<Rightarrow> string \<Rightarrow> json" where
  "witnessed_ToJSON tx era = envelope (''Witnessed Tx '' @ era @ ''Era'') ''Ledger Cddl Format'' tx"

text \<open>
  \<open>newTransaction...RawFromJSON\<close>: the type assertion on the \<open>cborHex\<close> member panics when it
  is missing or not a string.
\<close>

definition raw_from_json :: "file_content \<Rightarrow> bytes result option" where
  "raw_from_json f =
     (case rbind (json_of_file f) dec_obj of
        Inl e \<Rightarrow> Some (Inl e)
      | Inr data \<Rightarrow> (case json_member data ''cborHex'' of
          JStr s \<Rightarrow> Some (hex_DecodeString s)
        | _ \<Rightarrow> None))"

definition newTransactionUnwitnessedRawFromJSON :: "file_content \<Rightarrow> bytes result option" where
  "newTransactionUnwitnessedRawFromJSON = raw_from_json"

definition newTransactionWitnessedRawFromJSON :: "file_content \<Rightarrow> bytes result option" where
  "newTransactionWitnessedRawFromJSON = raw_from_json"

end
