(* ===== verification/Address.thy ===== *)
theory Address
  imports Wallet_Keys
begin

text \<open>
  Cardano addresses (\<open>wallet/address.go\<close>, \<open>wallet/address_types.go\<close>,
  \<open>wallet/network_type.go\<close>): the header byte, the five address parsers, the conversions between
  bytes, text and \<open>CardanoAddressInfo\<close>, and the constructors. Parameters are \<open>cbor.Unmarshal\<close> on
  the two Byron structures and \<open>base58\<close>.
\<close>

section \<open>Networks\<close>

type_synonym CardanoNetworkType = byte

abbreviation (input) MainNetNetwork :: CardanoNetworkType where "MainNetNetwork \<equiv> 1"
abbreviation (input) TestNetNetwork :: CardanoNetworkType where "TestNetNetwork \<equiv> 0"

definition TestNetProtocolMagic :: nat where "TestNetProtocolMagic = 1097911063"
definition MainNetProtocolMagic :: nat where "MainNetProtocolMagic = 764824073"

definition GetPrefix :: "CardanoNetworkType \<Rightarrow> string" where
  "GetPrefix n = (if n = MainNetNetwork then ''addr'' else if n = TestNetNetwork then ''addr_test'' else '''')"

definition GetStakePrefix :: "CardanoNetworkType \<Rightarrow> string" where
  "GetStakePrefix n = (if n = MainNetNetwork then ''stake'' else if n = TestNetNetwork then ''stake_test'' else '''')"

definition IsMainNet :: "CardanoNetworkType \<Rightarrow> bool" where
  "IsMainNet n \<longleftrightarrow> n = MainNetNetwork"

definition IsAddressWithValidPrefix :: "string \<Rightarrow> bool" where
  "IsAddressWithValidPrefix addr \<longleftrightarrow> has_prefix addr ''addr'' \<or> has_prefix addr ''stake''"

section \<open>Data\<close>

type_synonym CardanoAddressType = byte

abbreviation (input) UnsupportedAddress :: CardanoAddressType where "UnsupportedAddress \<equiv> 0"
abbreviation (input) ByronAddress :: CardanoAddressType where "ByronAddress \<equiv> 8"
abbreviation (input) BaseAddress :: CardanoAddressType where "BaseAddress \<equiv> 1"
abbreviation (input) PointerAddress :: CardanoAddressType where "PointerAddress \<equiv> 2"
abbreviation (input) EnterpriseAddress :: CardanoAddressType where "EnterpriseAddress \<equiv> 3"
abbreviation (input) RewardAddress :: CardanoAddressType where "RewardAddress \<equiv> 4"

definition header_nibble :: "byte \<Rightarrow> byte" where
  "header_nibble b = drop_bit 4 (b AND 0xF0)"

definition GetAddressTypeFromHeader :: "byte \<Rightarrow> CardanoAddressType" where
  "GetAddressTypeFromHeader header =
     (let h = header_nibble header in
      if h = ByronAddress then ByronAddress
      else if h \<in> {0, 1, 2, 3} then BaseAddress
      else if h \<in> {4, 5} then PointerAddress
      else if h \<in> {6, 7} then EnterpriseAddress
      else if h \<in> {14, 15} then RewardAddress
      else UnsupportedAddress)"

text \<open>\<open>Payload\<close> is a Go array of \<open>KeyHashSize\<close> bytes (\<open>payload_ok\<close>).\<close>

record CardanoAddressPayload =
  cap_Payload :: bytes
  cap_IsScript :: bool

definition payload_ok :: "CardanoAddressPayload \<Rightarrow> bool" where
  "payload_ok p \<longleftrightarrow> length (cap_Payload p) = KeyHashSize"

definition payload_String :: "CardanoAddressPayload \<Rightarrow> string" where
  "payload_String p = hex_encode (cap_Payload p)"

record StakePointer =
  sp_Slot :: u64
  sp_TxIndex :: u64
  sp_CertIndex :: u64

record CardanoAddressInfo =
  cai_AddressType :: CardanoAddressType
  cai_Network :: CardanoNetworkType
  cai_Payment :: "CardanoAddressPayload option"
  cai_Stake :: "CardanoAddressPayload option"
  cai_StakePointer :: "StakePointer option"
  cai_Extra :: bytes

definition empty_info :: CardanoAddressInfo where
  "empty_info = \<lparr>cai_AddressType = UnsupportedAddress, cai_Network = 0, cai_Payment = None,
     cai_Stake = None, cai_StakePointer = None, cai_Extra = []\<rparr>"

text \<open>
  What the parsers use of other packages: \<open>cbor.Unmarshal\<close> into the outer Byron structure (its
  error and the structure as filled: the tag content if it is a byte string, the tag number,
  the checksum) and into the inner one (the hash and the network attribute), and base58.
\<close>

record byron_prims =
  uncbor_outer :: "bytes \<Rightarrow> goerror option \<times> bytes option \<times> nat \<times> u32"
  uncbor_byron :: "bytes \<Rightarrow> (bytes \<times> bytes) result"
  base58_Encode :: "bytes \<Rightarrow> string"
  base58_Decode :: "string \<Rightarrow> bytes"

text \<open>\<open>crc32.ChecksumIEEE\<close>: the reflected polynomial, one byte at a time.\<close>

definition crc32_bit :: "u32 \<Rightarrow> u32" where
  "crc32_bit c = (if c AND 1 = 1 then drop_bit 1 c XOR 0xEDB88320 else drop_bit 1 c)"

definition crc32_byte :: "u32 \<Rightarrow> byte \<Rightarrow> u32" where
  "crc32_byte c b = (crc32_bit ^^ 8) (c XOR ucast b)"

definition ChecksumIEEE :: "bytes \<Rightarrow> u32" where
  "ChecksumIEEE bs = NOT (foldl crc32_byte (NOT 0) bs)"

section \<open>Common parts of the parsers\<close>

definition toByte :: "bool \<Rightarrow> byte" where
  "toByte b = (if \<not> b then 0 else 1)"

definition invalid_length :: "string \<Rightarrow> nat \<Rightarrow> nat \<Rightarrow> goerror" where
  "invalid_length expect n got =
     ErrWrap '''' ErrInvalidAddressData ('': '' @ expect @ itoa n @ '' got '' @ itoa got)"

text \<open>\<open>str, _ := bech32.EncodeFromBase256(...)\<close>: the empty text on error.\<close>

definition encode_or_empty :: "string \<Rightarrow> bytes \<Rightarrow> string option" where
  "encode_or_empty prefix bs = map_option (\<lambda>r. case r of Inl _ \<Rightarrow> '''' | Inr s \<Rightarrow> s) (EncodeFromBase256 prefix bs)"

text \<open>\<open>[KeyHashSize]byte(data[lo:lo+KeyHashSize])\<close>, which panics when the data is too short.\<close>

definition key_hash_at :: "bytes \<Rightarrow> nat \<Rightarrow> bytes option" where
  "key_hash_at data lo = go_slice data (int lo) (int (lo + KeyHashSize))"

text \<open>\<open>copy\<close> into the zeroed buffer of \<open>n\<close> bytes.\<close>

definition fill :: "nat \<Rightarrow> bytes \<Rightarrow> bytes" where
  "fill n bs = take n (bs @ replicate n 0)"

section \<open>Base addresses\<close>

definition base_IsValid :: "bytes \<Rightarrow> unit result" where
  "base_IsValid bs =
     (if length bs < 1 + KeyHashSize * 2
      then Inl (invalid_length ''expect '' (1 + KeyHashSize * 2) (length bs)) else Inr ())"

definition base_ToCardanoAddressInfo :: "bytes \<Rightarrow> CardanoAddressInfo option" where
  "base_ToCardanoAddressInfo bs =
     Option.bind (go_nth bs 0) (\<lambda>b0.
     let header = header_nibble b0; data = tl bs in
     Option.bind (key_hash_at data 0) (\<lambda>pay.
     Option.bind (key_hash_at data KeyHashSize) (\<lambda>stake.
     Some (empty_info\<lparr>cai_AddressType := BaseAddress, cai_Network := b0 AND 0x0F,
       cai_Payment := Some \<lparr>cap_Payload = pay, cap_IsScript = header AND 1 > 0\<rparr>,
       cai_Stake := Some \<lparr>cap_Payload = stake, cap_IsScript = header AND 2 > 0\<rparr>,
       cai_Extra := drop (2 * KeyHashSize) data\<rparr>))))"

definition base_FromCardanoAddressInfo :: "CardanoAddressInfo \<Rightarrow> bytes option" where
  "base_FromCardanoAddressInfo a =
     Option.bind (cai_Payment a) (\<lambda>pay.
     Option.bind (cai_Stake a) (\<lambda>stake.
     Some ((push_bit 4 (toByte (cap_IsScript pay)) OR push_bit 5 (toByte (cap_IsScript stake)) OR (cai_Network a AND 0xf)) #
       fill KeyHashSize (cap_Payload pay) @ fill KeyHashSize (cap_Payload stake) @ cai_Extra a)))"

section \<open>Pointer addresses\<close>

text \<open>
  \<open>variableEncode\<close>: the digits of base 128, lowest first with the continuation bit on all but
  the lowest, then reversed.
\<close>

function variable_digits :: "nat \<Rightarrow> bytes" where
  "variable_digits num =
     (if num > 0 then ((word_of_nat num AND 0x7F) OR 0x80) # variable_digits (num div 128) else [])"
  by pat_completeness auto
termination
  by (relation "measure id") auto

declare variable_digits.simps [simp del]

definition variableEncode :: "u64 \<Rightarrow> bytes" where
  "variableEncode num =
     rev ((word_of_nat (unat num) AND 0x7F) # variable_digits (unat num div 128))"

fun readOne_loop :: "u64 \<Rightarrow> nat \<Rightarrow> bytes \<Rightarrow> (u64 \<times> nat) result" where
  "readOne_loop result bytesReadCnt [] = Inl ErrInvalidAddressData"
| "readOne_loop result bytesReadCnt (rbyte # raw) =
     (let result = push_bit 7 result OR ucast (rbyte AND 0x7F); bytesReadCnt = bytesReadCnt + 1
      in if rbyte AND 0x80 = 0 then Inr (result, bytesReadCnt) else readOne_loop result bytesReadCnt raw)"

definition readOne :: "bytes \<Rightarrow> (u64 \<times> nat) result" where
  "readOne raw = readOne_loop 0 0 raw"

definition getStakePointer :: "bytes \<Rightarrow> StakePointer result" where
  "getStakePointer raw =
     rbind (readOne raw) (\<lambda>(slot, n1).
     rbind (readOne (drop n1 raw)) (\<lambda>(txIndex, n2).
     rbind (readOne (drop (n1 + n2) raw)) (\<lambda>(certIndex, n3).
     if n1 + n2 + n3 \<noteq> length raw then Inl ErrInvalidAddressData
     else Inr \<lparr>sp_Slot = slot, sp_TxIndex = txIndex, sp_CertIndex = certIndex\<rparr>)))"

definition pointer_IsValid :: "bytes \<Rightarrow> unit result" where
  "pointer_IsValid bs =
     (if length bs < 1 + KeyHashSize + 1 + 1 + 1
      then Inl (invalid_length ''expect at least '' (1 + KeyHashSize + 1 + 1 + 1) (length bs))
      else rbind (getStakePointer (drop (1 + KeyHashSize) bs)) (\<lambda>_. Inr ()))"

definition pointer_ToCardanoAddressInfo :: "bytes \<Rightarrow> CardanoAddressInfo option" where
  "pointer_ToCardanoAddressInfo bs =
     Option.bind (go_nth bs 0) (\<lambda>b0.
     let header = header_nibble b0; data = tl bs in
     Option.bind (key_hash_at data 0) (\<lambda>pay.
     let pointer = (case getStakePointer (drop KeyHashSize data) of Inl _ \<Rightarrow> None | Inr p \<Rightarrow> Some p) in
     Some (empty_info\<lparr>cai_AddressType := PointerAddress, cai_Network := b0 AND 0x0F,
       cai_Payment := Some \<lparr>cap_Payload = pay, cap_IsScript = header AND 1 > 0\<rparr>,
       cai_StakePointer := pointer\<rparr>)))"

definition pointer_FromCardanoAddressInfo :: "CardanoAddressInfo \<Rightarrow> bytes option" where
  "pointer_FromCardanoAddressInfo a =
     Option.bind (cai_Payment a) (\<lambda>pay.
     Option.bind (cai_StakePointer a) (\<lambda>p.
     Some ((0x40 OR push_bit 4 (toByte (cap_IsScript pay)) OR (cai_Network a AND 0xf)) # cap_Payload pay @
       variableEncode (sp_Slot p) @ variableEncode (sp_TxIndex p) @ variableEncode (sp_CertIndex p) @ cai_Extra a)))"

section \<open>Enterprise and reward addresses\<close>

definition enterprise_IsValid :: "bytes \<Rightarrow> unit result" where
  "enterprise_IsValid bs =
     (if length bs \<noteq> KeyHashSize + 1
      then Inl (invalid_length ''expect '' (1 + KeyHashSize) (length bs)) else Inr ())"

definition enterprise_ToCardanoAddressInfo :: "bytes \<Rightarrow> CardanoAddressInfo option" where
  "enterprise_ToCardanoAddressInfo bs =
     Option.bind (go_nth bs 0) (\<lambda>b0.
     let header = header_nibble b0; data = tl bs in
     Option.bind (key_hash_at data 0) (\<lambda>pay.
     Some (empty_info\<lparr>cai_AddressType := EnterpriseAddress, cai_Network := b0 AND 0x0F,
       cai_Payment := Some \<lparr>cap_Payload = pay, cap_IsScript = header AND 1 > 0\<rparr>,
       cai_Extra := drop KeyHashSize data\<rparr>)))"

definition enterprise_FromCardanoAddressInfo :: "CardanoAddressInfo \<Rightarrow> bytes option" where
  "enterprise_FromCardanoAddressInfo a =
     Option.bind (cai_Payment a) (\<lambda>pay.
     Some ((0x60 OR push_bit 4 (toByte (cap_IsScript pay)) OR (cai_Network a AND 0xf)) #
       fill KeyHashSize (cap_Payload pay) @ cai_Extra a))"

definition reward_IsValid :: "bytes \<Rightarrow> unit result" where
  "reward_IsValid bs =
     (if length bs \<noteq> KeyHashSize + 1
      then Inl (invalid_length ''expect '' (1 + KeyHashSize) (length bs)) else Inr ())"

definition reward_ToCardanoAddressInfo :: "bytes \<Rightarrow> CardanoAddressInfo option" where
  "reward_ToCardanoAddressInfo bs =
     Option.bind (go_nth bs 0) (\<lambda>b0.
     let header = header_nibble b0; data = tl bs in
     Option.bind (key_hash_at data 0) (\<lambda>stake.
     Some (empty_info\<lparr>cai_AddressType := RewardAddress, cai_Network := b0 AND 0x0F,
       cai_Stake := Some \<lparr>cap_Payload = stake, cap_IsScript = header AND 1 > 0\<rparr>,
       cai_Extra := drop KeyHashSize data\<rparr>)))"

definition reward_FromCardanoAddressInfo :: "CardanoAddressInfo \<Rightarrow> bytes option" where
  "reward_FromCardanoAddressInfo a =
     Option.bind (cai_Stake a) (\<lambda>stake.
     Some ((0xE0 OR push_bit 4 (toByte (cap_IsScript stake)) OR (cai_Network a AND 0xf)) #
       fill KeyHashSize (cap_Payload stake) @ cai_Extra a))"

section \<open>Byron addresses\<close>

definition byron_IsValid :: "byron_prims \<Rightarrow> bytes \<Rightarrow> unit result" where
  "byron_IsValid bp bs =
     (case uncbor_outer bp bs of
        (Some e, _) \<Rightarrow> Inl (ErrJoin [ErrInvalidAddressData, e])
      | (None, content, number, checksum) \<Rightarrow>
          (case content of
             None \<Rightarrow> Inl ErrInvalidAddressData
           | Some rawTag \<Rightarrow>
               if number \<noteq> 24 then Inl ErrInvalidAddressData
               else if checksum \<noteq> ChecksumIEEE rawTag then Inl ErrInvalidAddressData
               else Inr ()))"

text \<open>\<open>[28]byte(byron.Hashed)\<close> panics when the hash has fewer than 28 bytes.\<close>

definition byron_ToCardanoAddressInfo :: "byron_prims \<Rightarrow> bytes \<Rightarrow> CardanoAddressInfo option" where
  "byron_ToCardanoAddressInfo bp bs =
     (let (_, content, _) = uncbor_outer bp bs;
          rawTag = (case content of None \<Rightarrow> [] | Some t \<Rightarrow> t)
      in case uncbor_byron bp rawTag of
        Inl _ \<Rightarrow> Some empty_info
      | Inr (hashed, network) \<Rightarrow>
          let net = (if length network = 1 \<and> network ! 0 = 1 \<or>
                        length network = 5 \<and> unat (uint32_at (tl network)) = TestNetProtocolMagic
                     then TestNetNetwork else MainNetNetwork)
          in if length hashed < 28 then None
             else Some (empty_info\<lparr>cai_AddressType := ByronAddress, cai_Network := net,
               cai_Payment := Some \<lparr>cap_Payload = take 28 hashed, cap_IsScript = False\<rparr>,
               cai_Extra := bs\<rparr>))"

section \<open>The parser interface\<close>

datatype address_parser = BaseParser | PointerParser | EnterpriseParser | RewardParser | ByronParser

fun parser_GetAddressType :: "address_parser \<Rightarrow> CardanoAddressType" where
  "parser_GetAddressType BaseParser = BaseAddress"
| "parser_GetAddressType PointerParser = PointerAddress"
| "parser_GetAddressType EnterpriseParser = EnterpriseAddress"
| "parser_GetAddressType RewardParser = RewardAddress"
| "parser_GetAddressType ByronParser = ByronAddress"

fun parser_IsValid :: "byron_prims \<Rightarrow> address_parser \<Rightarrow> bytes \<Rightarrow> unit result" where
  "parser_IsValid bp BaseParser bs = base_IsValid bs"
| "parser_IsValid bp PointerParser bs = pointer_IsValid bs"
| "parser_IsValid bp EnterpriseParser bs = enterprise_IsValid bs"
| "parser_IsValid bp RewardParser bs = reward_IsValid bs"
| "parser_IsValid bp ByronParser bs = byron_IsValid bp bs"

text \<open>\<open>None\<close>: a panic on the empty slice.\<close>

fun parser_ToString :: "byron_prims \<Rightarrow> address_parser \<Rightarrow> bytes \<Rightarrow> string option" where
  "parser_ToString bp ByronParser bs = Some (base58_Encode bp bs)"
| "parser_ToString bp RewardParser bs =
     Option.bind (go_nth bs 0) (\<lambda>b0. encode_or_empty (GetStakePrefix (b0 AND 0x0F)) bs)"
| "parser_ToString bp _ bs =
     Option.bind (go_nth bs 0) (\<lambda>b0. encode_or_empty (GetPrefix (b0 AND 0x0F)) bs)"

fun parser_ToCardanoAddressInfo :: "byron_prims \<Rightarrow> address_parser \<Rightarrow> bytes \<Rightarrow> CardanoAddressInfo option" where
  "parser_ToCardanoAddressInfo bp BaseParser bs = base_ToCardanoAddressInfo bs"
| "parser_ToCardanoAddressInfo bp PointerParser bs = pointer_ToCardanoAddressInfo bs"
| "parser_ToCardanoAddressInfo bp EnterpriseParser bs = enterprise_ToCardanoAddressInfo bs"
| "parser_ToCardanoAddressInfo bp RewardParser bs = reward_ToCardanoAddressInfo bs"
| "parser_ToCardanoAddressInfo bp ByronParser bs = byron_ToCardanoAddressInfo bp bs"

fun parser_FromCardanoAddressInfo :: "address_parser \<Rightarrow> CardanoAddressInfo \<Rightarrow> bytes option" where
  "parser_FromCardanoAddressInfo BaseParser a = base_FromCardanoAddressInfo a"
| "parser_FromCardanoAddressInfo PointerParser a = pointer_FromCardanoAddressInfo a"
| "parser_FromCardanoAddressInfo EnterpriseParser a = enterprise_FromCardanoAddressInfo a"
| "parser_FromCardanoAddressInfo RewardParser a = reward_FromCardanoAddressInfo a"
| "parser_FromCardanoAddressInfo ByronParser a = Some (cai_Extra a)"

definition addressParsers :: "address_parser list" where
  "addressParsers = [BaseParser, PointerParser, EnterpriseParser, RewardParser, ByronParser]"

definition getAddressParser :: "CardanoAddressType \<Rightarrow> address_parser result" where
  "getAddressParser addressType =
     (case find (\<lambda>p. parser_GetAddressType p = addressType) addressParsers of
        Some p \<Rightarrow> Inr p
      | None \<Rightarrow> Inl ErrInvalidAddressData)"

section \<open>Addresses\<close>

record CardanoAddress =
  ca_raw :: bytes
  ca_addressParser :: address_parser
  ca_cachedAddressInfo :: CardanoAddressInfo
  ca_cachedStr :: string

definition NewCardanoAddress :: "byron_prims \<Rightarrow> bytes \<Rightarrow> CardanoAddress result" where
  "NewCardanoAddress bp raw =
     (case raw of
        [] \<Rightarrow> Inl ErrInvalidAddressData
      | b0 # _ \<Rightarrow>
          rbind (getAddressParser (GetAddressTypeFromHeader b0)) (\<lambda>parser.
          rbind (parser_IsValid bp parser raw) (\<lambda>_.
          Inr \<lparr>ca_raw = raw, ca_addressParser = parser, ca_cachedAddressInfo = empty_info, ca_cachedStr = ''''\<rparr>)))"

text \<open>\<open>None\<close> as in \<open>ConvertBits\<close>.\<close>

definition NewCardanoAddressFromString :: "byron_prims \<Rightarrow> string \<Rightarrow> CardanoAddress result option" where
  "NewCardanoAddressFromString bp raw =
     (if \<not> IsAddressWithValidPrefix raw then
        (case base58_Decode bp raw of
           [] \<Rightarrow> Some (Inl ErrInvalidAddressData)
         | b0 # bs \<Rightarrow>
             if GetAddressTypeFromHeader b0 \<noteq> ByronAddress then Some (Inl ErrInvalidAddressData)
             else Some (NewCardanoAddress bp (b0 # bs)))
      else Option.bind (DecodeToBase256 raw) (\<lambda>r.
        Some (rbind (bech32_result r) (\<lambda>(_, data).
          rbind (NewCardanoAddress bp data) (\<lambda>addr. Inr (addr\<lparr>ca_cachedStr := raw\<rparr>))))))"

text \<open>\<open>GetInfo\<close> and \<open>String\<close> fill the caches of the address: they return it updated.\<close>

definition GetInfo :: "byron_prims \<Rightarrow> CardanoAddress \<Rightarrow> (CardanoAddressInfo \<times> CardanoAddress) option" where
  "GetInfo bp a =
     (if cai_AddressType (ca_cachedAddressInfo a) = UnsupportedAddress
      then Option.bind (parser_ToCardanoAddressInfo bp (ca_addressParser a) (ca_raw a))
        (\<lambda>i. Some (i, a\<lparr>ca_cachedAddressInfo := i\<rparr>))
      else Some (ca_cachedAddressInfo a, a))"

definition GetBytes :: "CardanoAddress \<Rightarrow> bytes" where
  "GetBytes a = ca_raw a"

definition address_String :: "byron_prims \<Rightarrow> CardanoAddress \<Rightarrow> (string \<times> CardanoAddress) option" where
  "address_String bp a =
     (if ca_cachedStr a = ''''
      then Option.bind (parser_ToString bp (ca_addressParser a) (ca_raw a))
        (\<lambda>s. Some (s, a\<lparr>ca_cachedStr := s\<rparr>))
      else Some (ca_cachedStr a, a))"

text \<open>The outer \<open>option\<close> is the panic on a part that the address type needs and is nil.\<close>

definition ToCardanoAddress :: "byron_prims \<Rightarrow> CardanoAddressInfo \<Rightarrow> CardanoAddress result option" where
  "ToCardanoAddress bp cai =
     (case getAddressParser (cai_AddressType cai) of
        Inl e \<Rightarrow> Some (Inl e)
      | Inr parser \<Rightarrow> Option.bind (parser_FromCardanoAddressInfo parser cai) (\<lambda>bs. Some (NewCardanoAddress bp bs)))"

text \<open>\<open>[KeyHashSize]byte(hash)\<close> of a slice: a panic when it is shorter.\<close>

definition key_payload :: "bytes \<Rightarrow> bool \<Rightarrow> CardanoAddressPayload option" where
  "key_payload hash script =
     (if length hash < KeyHashSize then None
      else Some \<lparr>cap_Payload = take KeyHashSize hash, cap_IsScript = script\<rparr>)"

definition NewBaseAddress ::
  "byron_prims \<Rightarrow> (nat \<Rightarrow> bytes \<Rightarrow> bytes result) \<Rightarrow> CardanoNetworkType \<Rightarrow> bytes \<Rightarrow> bytes \<Rightarrow> CardanoAddress result option" where
  "NewBaseAddress bp blake2b network paymentVerificationKey stakeVerificationKey =
     (case rbind (GetKeyHashBytes blake2b paymentVerificationKey)
        (\<lambda>p. rbind (GetKeyHashBytes blake2b stakeVerificationKey) (\<lambda>s. Inr (p, s))) of
        Inl e \<Rightarrow> Some (Inl e)
      | Inr (paymentHash, stakeHash) \<Rightarrow>
          Option.bind (key_payload paymentHash False) (\<lambda>p.
          Option.bind (key_payload stakeHash False) (\<lambda>s.
          ToCardanoAddress bp (empty_info\<lparr>cai_AddressType := BaseAddress, cai_Network := network,
            cai_Payment := Some p, cai_Stake := Some s\<rparr>))))"

definition NewEnterpriseAddress ::
  "byron_prims \<Rightarrow> (nat \<Rightarrow> bytes \<Rightarrow> bytes result) \<Rightarrow> CardanoNetworkType \<Rightarrow> bytes \<Rightarrow> CardanoAddress result option" where
  "NewEnterpriseAddress bp blake2b network verificationKey =
     (case GetKeyHashBytes blake2b verificationKey of
        Inl e \<Rightarrow> Some (Inl e)
      | Inr paymentHash \<Rightarrow>
          Option.bind (key_payload paymentHash False) (\<lambda>p.
          ToCardanoAddress bp (empty_info\<lparr>cai_AddressType := EnterpriseAddress, cai_Network := network,
            cai_Payment := Some p\<rparr>)))"

definition NewRewardAddress ::
  "byron_prims \<Rightarrow> (nat \<Rightarrow> bytes \<Rightarrow> bytes result) \<Rightarrow> CardanoNetworkType \<Rightarrow> bytes \<Rightarrow> CardanoAddress result option" where
  "NewRewardAddress bp blake2b network verificationKey =
     (case GetKeyHashBytes blake2b verificationKey of
        Inl e \<Rightarrow> Some (Inl e)
      | Inr stakeHash \<Rightarrow>
          Option.bind (key_payload stakeHash False) (\<lambda>s.
          ToCardanoAddress bp (empty_info\<lparr>cai_AddressType := RewardAddress, cai_Network := network,
            cai_Stake := Some s\<rparr>)))"

end
