(* ===== verification/Bech32_Props.thy ===== *)
theory Bech32_Props
  imports Bech32
begin

text \<open>
  The bech32 codec is correct: the checksum polynomial is linear over xor, so what the
  encoder appends verifies, and no single wrong symbol does; decoding inverts encoding; the
  regrouping of bits keeps the bits, always returns, and going from bytes to 5-bit groups and
  back is the identity.
\<close>

section \<open>Linearity of the checksum\<close>

lemma and_1_eq: "drop_bit i (b :: u64) AND 1 = 1 \<longleftrightarrow> bit b i"
  by (simp add: and_one_eq bit_iff_odd_drop_bit mod_2_eq_odd)

lemma mask25: "(x :: u64) AND 0x1ffffff = take_bit 25 x" and mask5: "(x :: u64) AND 31 = take_bit 5 x"
  by (simp_all add: take_bit_eq_mask mask_eq_exp_minus_1)

lemma gen_loop_Cons:
  "gen_loop b chk (i # is) = gen_loop b (if bit b i then chk XOR gen ! i else chk) is"
  by (simp only: gen_loop.simps and_1_eq)

declare gen_loop.simps(2) [simp del]

lemma gen_loop_xor: "gen_loop b (c XOR d) is = c XOR gen_loop b d is"
  by (induction "is" arbitrary: d) (simp_all add: gen_loop_Cons xor.assoc)

lemma gen_loop_0: "gen_loop b c is = c XOR gen_loop b 0 is"
  using gen_loop_xor [of b c 0 "is"] by simp

lemma gen_loop_lin: "gen_loop (a XOR b) 0 is = gen_loop a 0 is XOR gen_loop b 0 is"
proof (induction "is")
  case (Cons i "is")
  show ?case
    unfolding gen_loop_Cons gen_loop_0 [of _ "if _ then _ else _"] Cons bit_xor_iff
    by (auto simp: xor.assoc xor.left_commute)
qed simp

lemma round0_alt:
  "polymod_round0 c = push_bit 5 (take_bit 25 c) XOR gen_loop (drop_bit 25 c) 0 [0..<5]"
  unfolding polymod_round0_def Let_def mask25 by (rule gen_loop_0)

lemma round0_lin: "polymod_round0 (a XOR b) = polymod_round0 a XOR polymod_round0 b"
  unfolding round0_alt take_bit_xor drop_bit_xor push_bit_xor gen_loop_lin
  by (simp only: xor.assoc xor.left_commute)

lemma round_eq: "polymod_round c v = polymod_round0 c XOR v"
proof -
  have "polymod_round c v = gen_loop (drop_bit 25 c) (v XOR push_bit 5 (take_bit 25 c)) [0..<5]"
    unfolding polymod_round_def Let_def mask25 by (simp only: xor.commute)
  also have "\<dots> = v XOR polymod_round0 c"
    unfolding gen_loop_xor unfolding round0_alt gen_loop_0 [of _ "push_bit 5 (take_bit 25 c)"] ..
  finally show ?thesis by (simp only: xor.commute)
qed

lemma upt5: "[0..<5] = [0, 1, 2, 3, 4 :: nat]" and upt6: "[0..<6] = [0, 1, 2, 3, 4, 5 :: nat]"
  by (simp_all add: upt_rec)

lemma gen_loop_zero: "gen_loop 0 c is = c"
  by (induction "is") (simp_all add: gen_loop_Cons)

lemma round0_low: "polymod_round0 0 = 0"
  by (simp add: round0_alt gen_loop_zero)

lemma drop_take: "take_bit n x = x \<Longrightarrow> drop_bit n (x :: u64) = 0"
  by (metis drop_bit_take_bit diff_self_eq_0 take_bit_0)

lemma round0_shift: "take_bit 25 x = x \<Longrightarrow> polymod_round0 x = push_bit 5 x"
  by (simp add: round0_alt drop_take gen_loop_zero)

lemma gen_bound: "\<forall>g \<in> set gen. take_bit 30 g = g"
  by (simp add: gen_def take_bit_eq_mod)

lemma take_bit_gen_loop:
  "set is \<subseteq> {..<5} \<Longrightarrow> take_bit 30 c = c \<Longrightarrow> take_bit 30 (gen_loop b c is) = gen_loop b c is"
proof (induction "is" arbitrary: c)
  case (Cons i "is")
  have "i < length gen" using Cons.prems(1) by (simp add: gen_def)
  then have "take_bit 30 (gen ! i) = gen ! i" using gen_bound by (metis nth_mem)
  with Cons show ?case by (simp add: gen_loop_Cons take_bit_xor)
qed simp

lemma round0_bound: "take_bit 30 (polymod_round0 x) = polymod_round0 x"
proof -
  have "take_bit 30 (push_bit 5 (take_bit 25 x)) = push_bit 5 (take_bit 25 x)"
    by (rule bit_eqI) (auto simp: bit_simps)
  then show ?thesis unfolding polymod_round0_def Let_def mask25 by (intro take_bit_gen_loop) auto
qed

text \<open>The checksum of a sequence of symbols from a state.\<close>

definition run :: "u64 \<Rightarrow> u64 list \<Rightarrow> u64" where
  "run s vs = foldl (\<lambda>c v. polymod_round0 c XOR v) s vs"

lemma run_simps [simp]: "run s [] = s" "run s (v # vs) = run (polymod_round0 s XOR v) vs"
  "run s (vs @ ws) = run (run s vs) ws"
  by (simp_all add: run_def)

lemma run_xor: "run (s XOR t) vs = (polymod_round0 ^^ length vs) s XOR run t vs"
proof (induction vs arbitrary: s t)
  case (Cons v vs)
  have "run (s XOR t) (v # vs) = run (polymod_round0 s XOR (polymod_round0 t XOR v)) vs"
    by (simp add: round0_lin xor.assoc)
  also have "\<dots> = (polymod_round0 ^^ length vs) (polymod_round0 s) XOR run (polymod_round0 t XOR v) vs"
    by (rule Cons)
  finally show ?case by (simp add: funpow_swap1)
qed simp

definition hrp_state :: "string \<Rightarrow> u64" where
  "hrp_state hrp =
     foldl (\<lambda>chk c. polymod_round chk (char_u64 c AND 31))
       (polymod_round0 (foldl (\<lambda>chk c. polymod_round chk (drop_bit 5 (char_u64 c))) 1 hrp)) hrp"

lemma funpow6: "(f ^^ 6) x = f (f (f (f (f (f x)))))"
  by (simp add: eval_nat_numeral)

lemma foldl_run: "foldl (\<lambda>chk v. polymod_round chk (byte_u64 v)) s vs = run s (map byte_u64 vs)"
  by (simp add: run_def foldl_map round_eq)

lemma polymod_run:
  "bech32Polymod hrp values (Some cs) = run (hrp_state hrp) (map byte_u64 (values @ cs))"
  "bech32Polymod hrp values None = (polymod_round0 ^^ 6) (run (hrp_state hrp) (map byte_u64 values))"
  by (simp_all only: bech32Polymod_def Let_def hrp_state_def [symmetric] option.case foldl_run map_append
      run_simps upt6 foldl.simps funpow6)

lemma polymod_bound: "take_bit 30 (bech32Polymod hrp values None) = bech32Polymod hrp values None"
  unfolding polymod_run funpow6 by (rule round0_bound)

text \<open>The six symbols of a 30-bit number, run from 0, give the number back.\<close>

lemma run_six:
  assumes p: "take_bit 30 p = p"
  shows "run 0 (map (\<lambda>i. take_bit 5 (drop_bit (5 * (5 - i)) p)) [0..<6]) = p"
proof -
  have r: "polymod_round0 (drop_bit (n + 5) p) XOR take_bit 5 (drop_bit n p) = drop_bit n p" if "n \<le> 25" "5 \<le> n \<or> n = 0" for n
  proof -
    have "take_bit 25 (drop_bit (n + 5) p) = drop_bit (n + 5) (take_bit (n + 30) p)"
      by (simp add: drop_bit_take_bit)
    also have "take_bit (n + 30) p = p"
      by (metis p take_bit_take_bit min.absorb_iff2 le_add2)
    finally have d: "take_bit 25 (drop_bit (n + 5) p) = drop_bit (n + 5) p" .
    show ?thesis unfolding round0_shift [OF d] by (intro bit_eqI) (auto simp: bit_simps ac_simps)
  qed
  have "drop_bit 30 p = 0" by (rule drop_take [OF p])
  then show ?thesis
    using r [of 25] r [of 20] r [of 15] r [of 10] r [of 5] r [of 0]
    by (simp add: upt6 round0_low)
qed

lemma byte_u64_symbol: "byte_u64 (ucast (take_bit 5 (x :: u64))) = take_bit 5 x"
  by (rule bit_eqI) (auto simp: byte_u64_def bit_simps)

text \<open>What the encoder appends verifies.\<close>

lemma length_checksum [simp]: "length (checksum_bytes hrp data) = 6"
  by (simp add: checksum_bytes_def Let_def)

lemma checksum_verifies: "bech32VerifyChecksum hrp (data @ checksum_bytes hrp data)"
proof -
  let ?p = "bech32Polymod hrp data None" and ?s = "run (hrp_state hrp) (map byte_u64 data)"
  have p: "take_bit 30 (?p XOR 1) = ?p XOR 1" using polymod_bound [of hrp data] by (simp add: take_bit_xor)
  have cs: "map byte_u64 (checksum_bytes hrp data) = map (\<lambda>i. take_bit 5 (drop_bit (5 * (5 - i)) (?p XOR 1))) [0..<6]"
    unfolding checksum_bytes_def Let_def mask5 map_map comp_def byte_u64_symbol ..
  have "bech32Polymod hrp data (Some (checksum_bytes hrp data)) = run (?s XOR 0) (map byte_u64 (checksum_bytes hrp data))"
    unfolding polymod_run by simp
  also have "\<dots> = ?p XOR (?p XOR 1)"
    unfolding run_xor length_map length_checksum unfolding cs run_six [OF p] by (simp only: polymod_run)
  also have "\<dots> = 1" by (simp flip: xor.assoc)
  finally show ?thesis unfolding bech32VerifyChecksum_def Let_def by simp
qed

section \<open>Single errors\<close>

text \<open>The generators are linearly independent in their low five bits, so a round loses nothing.\<close>

definition gen_mix :: "nat \<Rightarrow> u64" where
  "gen_mix n = gen_loop (word_of_nat n) 0 [0..<5]"

lemma gen_mix_low: "\<forall>n < 32. take_bit 5 (gen_mix n) = 0 \<longrightarrow> n = 0"
proof -
  have "list_all (\<lambda>n. gen_mix n AND 31 = 0 \<longrightarrow> n = 0) [0..<32]"
    unfolding gen_mix_def gen_def upt5 by code_simp
  then show ?thesis by (simp only: list_all_iff set_upt atLeastLessThan_iff mask5 le0 simp_thms Ball_def)
qed

lemma round0_inj0:
  assumes x: "take_bit 30 x = x" and z: "polymod_round0 x = 0"
  shows "x = 0"
proof -
  let ?b = "drop_bit 25 x"
  have "take_bit 5 (push_bit 5 (take_bit 25 x)) = (0 :: u64)"
    by (rule bit_eqI) (auto simp: bit_simps)
  then have low: "take_bit 5 (gen_loop ?b 0 [0..<5]) = 0"
    using arg_cong [OF z, of "take_bit 5"] unfolding round0_alt take_bit_xor by simp
  have b: "?b = word_of_nat (unat ?b)" by simp
  have "take_bit 5 ?b = ?b"
  proof -
    have "take_bit 5 (drop_bit 25 x) = drop_bit 25 (take_bit 30 x)" by (simp add: drop_bit_take_bit)
    then show ?thesis using x by simp
  qed
  then have "unat ?b = take_bit 5 (unat ?b)" by (metis unsigned_take_bit_eq)
  then have "unat ?b < 32" using take_bit_nat_less_exp [of 5 "unat ?b"] by simp
  then have b0: "?b = 0" using gen_mix_low low b unfolding gen_mix_def by (metis unat_eq_0)
  with z have "push_bit 5 (take_bit 25 x) = 0" by (simp add: round0_alt gen_loop_zero)
  then have "take_bit 25 x = 0"
  proof -
    assume p: "push_bit 5 (take_bit 25 x) = 0"
    show ?thesis
    proof (rule bit_eqI)
      fix n
      have "\<not> bit (push_bit 5 (take_bit 25 x)) (n + 5)" using p by simp
      then show "bit (take_bit 25 x) n \<longleftrightarrow> bit 0 n" by (auto simp: bit_simps)
    qed
  qed
  moreover have "x = push_bit 25 ?b OR take_bit 25 x"
    by (rule bit_eqI) (auto simp: bit_simps)
  ultimately show ?thesis using b0 by simp
qed

lemma rounds_inj0:
  "take_bit 30 x = x \<Longrightarrow> (polymod_round0 ^^ n) x = 0 \<Longrightarrow> x = 0"
proof (induction n arbitrary: x)
  case (Suc n)
  have "(polymod_round0 ^^ n) (polymod_round0 x) = 0" using Suc.prems(2) by (simp add: funpow_swap1)
  from Suc.IH [OF round0_bound this] show ?case by (rule round0_inj0 [OF Suc.prems(1)])
qed simp

lemma xor_cancel: "p XOR q = r XOR q \<longleftrightarrow> p = (r :: u64)"
proof
  assume "p XOR q = r XOR q"
  then have "(p XOR q) XOR q = (r XOR q) XOR q" by simp
  then show "p = r" by (simp add: xor.assoc)
qed simp

lemma xor_eq_0: "p XOR r = 0 \<longleftrightarrow> p = (r :: u64)"
  using xor_cancel [of p r r] by simp

lemma ucast_byte_u64: "ucast (byte_u64 b) = b"
  by (rule bit_eqI) (auto simp: byte_u64_def bit_simps dest: bit_imp_le_length)

lemma run_substitute:
  assumes "i < length vs" "take_bit 30 (vs ! i XOR w) = vs ! i XOR w" "run s vs = run s (vs[i := w])"
  shows "vs ! i = w"
proof -
  let ?a = "polymod_round0 (run s (take i vs))" and ?t = "drop (Suc i) vs"
  have lin: "(polymod_round0 ^^ n) (x XOR y) = (polymod_round0 ^^ n) x XOR (polymod_round0 ^^ n) y" for n x y
    by (induction n) (simp_all add: round0_lin)
  note cancel = xor_cancel xor_eq_0
  have "run s vs = run s (take i vs @ vs ! i # ?t)" using id_take_nth_drop [OF assms(1)] by simp
  then have 1: "run s vs = run (?a XOR vs ! i) ?t" by (simp only: run_simps)
  have "run s (vs[i := w]) = run s (take i vs @ w # ?t)" using upd_conv_take_nth_drop [OF assms(1), of w] by simp
  then have 2: "run s (vs[i := w]) = run (?a XOR w) ?t" by (simp only: run_simps)
  have t0: "run z ?t = (polymod_round0 ^^ length ?t) z XOR run 0 ?t" for z
    using run_xor [of z 0 ?t] by (simp only: xor.right_neutral)
  have "(polymod_round0 ^^ length ?t) (?a XOR vs ! i) = (polymod_round0 ^^ length ?t) (?a XOR w)"
    using assms(3) unfolding 1 2 unfolding t0 [of "?a XOR vs ! i"] t0 [of "?a XOR w"] cancel(1) .
  then have "(polymod_round0 ^^ length ?t) (vs ! i) = (polymod_round0 ^^ length ?t) w"
    unfolding lin by (simp only: xor.commute [of "(polymod_round0 ^^ length ?t) ?a"] cancel(1))
  then have "(polymod_round0 ^^ length ?t) (vs ! i XOR w) = 0" unfolding lin cancel(2) .
  from rounds_inj0 [OF assms(2) this] show ?thesis unfolding cancel(2) .
qed

text \<open>
  C15. The checksum detects every single substitution: if the symbols of a string verify,
  they no longer do after any one of them, of the payload or of the checksum, is replaced by
  another.
\<close>

theorem bech32_detects_substitution:
  assumes "bech32VerifyChecksum hrp data" "i < length data" "w \<noteq> data ! i"
  shows "\<not> bech32VerifyChecksum hrp (data[i := w])"
proof
  assume v: "bech32VerifyChecksum hrp (data[i := w])"
  have r: "bech32VerifyChecksum hrp d \<longleftrightarrow> run (hrp_state hrp) (map byte_u64 d) = 1" for d
    unfolding bech32VerifyChecksum_def Let_def polymod_run append_take_drop_id ..
  have b: "take_bit 30 (byte_u64 x) = byte_u64 x" for x
    unfolding byte_u64_def by (rule bit_eqI) (auto simp: bit_simps dest: bit_imp_le_length)
  have "run (hrp_state hrp) (map byte_u64 data) = run (hrp_state hrp) ((map byte_u64 data)[i := byte_u64 w])"
    using v assms(1) by (simp add: r map_update)
  from run_substitute [OF _ _ this] assms(2) have "byte_u64 (data ! i) = byte_u64 w"
    by (simp add: take_bit_xor b)
  then show False using assms(3) ucast_byte_u64 by metis
qed

section \<open>Encoding and decoding\<close>

lemma length_charset: "length charset = 32"
  by (simp add: charset_def)

lemma charset_distinct: "distinct charset"
  by (simp add: charset_def)

lemma charset_chars:
  "c \<in> set charset \<Longrightarrow> 33 \<le> (of_char c :: nat) \<and> of_char c \<le> (126 :: nat) \<and>
     \<not> (65 \<le> (of_char c :: nat) \<and> of_char c \<le> (90 :: nat)) \<and> c \<noteq> CHR ''1''"
proof -
  have "list_all (\<lambda>c. 33 \<le> (of_char c :: nat) \<and> of_char c \<le> (126 :: nat) \<and>
     \<not> (65 \<le> (of_char c :: nat) \<and> of_char c \<le> (90 :: nat)) \<and> c \<noteq> CHR ''1'') charset"
    by (simp add: charset_def)
  then show "c \<in> set charset \<Longrightarrow> ?thesis" unfolding list_all_iff by blast
qed

lemma index_byte_nth: "distinct s \<Longrightarrow> i < length s \<Longrightarrow> index_byte s (s ! i) = Some i"
proof (induction s arbitrary: i)
  case (Cons x s)
  then show ?case by (cases i) (auto simp: nth_Cons')
qed simp

lemma toBytes_charset:
  "\<forall>b \<in> set data. unat b < 32 \<Longrightarrow> toBytes (map (\<lambda>b. charset ! unat b) data) = Inr data"
proof (induction data)
  case (Cons b data)
  then have "index_byte charset (charset ! unat b) = Some (unat b)"
    by (intro index_byte_nth) (simp_all add: charset_distinct length_charset)
  with Cons show ?case by simp
qed simp

lemma charset_loop_ok:
  "\<forall>b \<in> set data. unat b < 32 \<Longrightarrow> charset_loop data = Inr (map (\<lambda>b. charset ! unat b) data)"
  by (induction data) (simp_all add: length_charset)

lemma charset_loop_err:
  "\<exists>b \<in> set data. unat b \<ge> 32 \<Longrightarrow> \<exists>b. charset_loop data = Inl (InvalidDataByteError b)"
proof (induction data)
  case (Cons a data)
  show ?case
  proof (cases "unat a \<ge> 32")
    case False
    with Cons obtain b where "charset_loop data = Inl (InvalidDataByteError b)" by auto
    with False show ?thesis by (simp add: length_charset)
  qed (simp add: length_charset)
qed simp

text \<open>Printable characters without capitals pass the character check.\<close>

definition plain_char :: "char \<Rightarrow> bool" where
  "plain_char c \<longleftrightarrow> 33 \<le> (of_char c :: nat) \<and> of_char c \<le> (126 :: nat) \<and>
     \<not> (65 \<le> (of_char c :: nat) \<and> of_char c \<le> (90 :: nat))"

lemma case_loop_plain: "\<forall>c \<in> set s. plain_char c \<Longrightarrow> case_loop s l False = Inr False"
  by (induction s arbitrary: l) (auto simp: plain_char_def Let_def)

lemma lower_plain:
  assumes "33 \<le> (of_char c :: nat)" "of_char c \<le> (126 :: nat)"
  shows "plain_char (lower_char c)"
proof (cases "65 \<le> (of_char c :: nat) \<and> of_char c \<le> (90 :: nat)")
  case True
  then have "(of_char (char_of (of_char c + 32 :: nat)) :: nat) = of_char c + 32"
    by (simp add: of_char_of)
  with True assms show ?thesis by (simp add: plain_char_def lower_char_def Let_def)
qed (use assms in \<open>auto simp: plain_char_def lower_char_def Let_def\<close>)

lemma checksum_symbols: "\<forall>b \<in> set (checksum_bytes hrp data). unat b < 32"
proof -
  have "unat (ucast (take_bit 5 (x :: u64)) :: byte) < 32" for x
  proof -
    have "(ucast (take_bit 5 x) :: byte) = take_bit 5 (ucast x)"
      by (rule bit_eqI) (auto simp: bit_simps)
    then have "unat (ucast (take_bit 5 x) :: byte) = take_bit 5 (unat (ucast x :: byte))"
      by (simp add: unsigned_take_bit_eq)
    then show ?thesis using take_bit_nat_less_exp [of 5 "unat (ucast x :: byte)"] by simp
  qed
  then show ?thesis unfolding checksum_bytes_def Let_def mask5 set_map by blast
qed

lemma bech32_decode_encode_lemma:
  assumes "hrp \<noteq> []" "\<forall>c \<in> set hrp. 33 \<le> (of_char c :: nat) \<and> of_char c \<le> (126 :: nat)"
    "\<forall>b \<in> set data. unat b < 32" "length hrp + length data + 7 \<le> maxBechStrLength"
  shows "\<exists>s. Encode hrp data = Inr s \<and> Decode s = Inr (to_lower hrp, data)"
proof -
  let ?h = "to_lower hrp" and ?f = "map (\<lambda>b. charset ! unat b)"
  let ?d = "data @ checksum_bytes ?h data"
  let ?s = "?h @ CHR ''1'' # ?f ?d"
  have sym: "\<forall>b \<in> set ?d. unat b < 32" using assms(3) checksum_symbols by auto
  have e: "Encode hrp data = Inr ?s"
    by (simp add: Encode_def Let_def charset_loop_ok [OF assms(3)] writeBech32Checksum_def)
  have cs: "c \<in> set charset" if "c \<in> set (?f ?d)" for c
    using that sym length_charset by (metis (no_types, lifting) imageE list.set_map nth_mem)
  have len: "length ?s = length hrp + length data + 7" by (simp add: to_lower_def)
  have plain: "\<forall>c \<in> set ?s. plain_char c"
  proof
    fix c assume "c \<in> set ?s"
    then consider "c \<in> set ?h" | "c = CHR ''1''" | "c \<in> set (?f ?d)" by auto
    then show "plain_char c"
    proof cases
      case 1
      then show ?thesis using assms(2) lower_plain by (auto simp: to_lower_def)
    next
      case 2
      then show ?thesis by (simp add: plain_char_def)
    next
      case 3
      then show ?thesis using charset_chars [OF cs] by (simp add: plain_char_def)
    qed
  qed
  have one: "last_index_byte ?s (CHR ''1'') = Some (length ?h)"
    using cs charset_chars by (intro last_index_byte_append) blast
  have h0: "0 < length ?h" using assms(1) by (simp add: to_lower_def)
  have l6: "length ?d - 6 = length data" by simp
  have parts: "take (nat (int (length ?h))) ?s = ?h" "drop (nat (int (length ?h)) + 1) ?s = ?f ?d" by simp_all
  have idx: "\<not> (int (length ?h) < 1 \<or> int (length ?h) + 7 > int (length ?s))" using h0 by simp
  have "DecodeNoLimit ?s = Inr (?h, take (length ?d - 6) ?d)"
    unfolding DecodeNoLimit_def case_loop_plain [OF plain] rbind_simps if_False Let_def one option.case
      if_not_P [OF idx] parts toBytes_charset [OF sym]
    using len h0 checksum_verifies [of ?h data] by (simp add: to_lower_def)
  moreover have "Decode ?s = DecodeNoLimit ?s"
    using len assms(4) by (simp add: Decode_def)
  ultimately show ?thesis using e l6 by simp
qed

text \<open>
  C16. Decoding inverts encoding: a non-empty human-readable part of printable characters
  and a payload of 5-bit symbols, within the length limit, encode to a string that decodes
  to the payload and the human-readable part in lower case.
\<close>

theorem bech32_decode_encode:
  assumes "hrp \<noteq> []" "\<forall>c \<in> set hrp. 33 \<le> (of_char c :: nat) \<and> of_char c \<le> (126 :: nat)"
    "\<forall>b \<in> set data. unat b < 32" "length hrp + length data + 7 \<le> maxBechStrLength"
  shows "\<exists>s. Encode hrp data = Inr s \<and> Decode s = Inr (to_lower hrp, data)"
  using assms by (rule bech32_decode_encode_lemma)

theorem bech32_decode_encode_witness:
  "\<exists>s. Encode ''Addr'' [1, 31, 0] = Inr s \<and> Decode s = Inr (''addr'', [1, 31, 0])"
proof -
  have "to_lower ''Addr'' = ''addr''" by code_simp
  then show ?thesis using bech32_decode_encode [of "''Addr''" "[1, 31, 0]"] by (simp add: maxBechStrLength_def)
qed

theorem bech32_detects_substitution_witness:
  "\<not> bech32VerifyChecksum ''a'' ((3 # checksum_bytes ''a'' [3])[0 := 4])"
  using bech32_detects_substitution [OF checksum_verifies [of "''a''" "[3]"], of 0 4] by simp

section \<open>Regrouping of bits\<close>

text \<open>The low \<open>n\<close> bits of a byte, and its top \<open>n\<close> bits, the highest first.\<close>

definition low_bits :: "nat \<Rightarrow> byte \<Rightarrow> bool list" where
  "low_bits n b = map (\<lambda>i. bit b (n - 1 - i)) [0..<n]"

definition top_bits :: "nat \<Rightarrow> byte \<Rightarrow> bool list" where
  "top_bits n b = map (\<lambda>i. bit b (7 - i)) [0..<n]"

lemma length_bits [simp]: "length (low_bits n b) = n" "length (top_bits n b) = n"
  by (simp_all add: low_bits_def top_bits_def)

lemma low_bits_0 [simp]: "low_bits 0 b = []" "top_bits 0 b = []"
  by (simp_all add: low_bits_def top_bits_def)

lemma top_bits_shift: "n \<le> 8 \<Longrightarrow> top_bits n (push_bit (8 - n) b) = low_bits n b"
  by (auto simp: top_bits_def low_bits_def bit_simps)

lemma top_bits_drop:
  "k \<le> n \<Longrightarrow> n \<le> 8 \<Longrightarrow> top_bits (n - k) (push_bit k b) = drop k (top_bits n b)"
  by (rule nth_equalityI) (auto simp: top_bits_def bit_simps ac_simps)

lemma top_bits_take: "k \<le> n \<Longrightarrow> take k (top_bits n b) = top_bits k b"
  by (rule nth_equalityI) (auto simp: top_bits_def)

lemma low_bits_append:
  assumes "k + f \<le> 8"
  shows "low_bits (f + k) (push_bit k x OR drop_bit (8 - k) b) = low_bits f x @ top_bits k b"
proof (rule nth_equalityI)
  fix i assume i: "i < length (low_bits (f + k) (push_bit k x OR drop_bit (8 - k) b))"
  show "low_bits (f + k) (push_bit k x OR drop_bit (8 - k) b) ! i = (low_bits f x @ top_bits k b) ! i"
  proof (cases "i < f")
    case True
    have "\<not> bit b (8 - k + (f + k - 1 - i))"
      using True assms by (auto dest: bit_imp_le_length)
    moreover have "k \<le> f + k - 1 - i" "f + k - 1 - i < 8" "f + k - 1 - i - k = f - 1 - i"
      using True assms by auto
    ultimately show ?thesis using True by (simp add: low_bits_def nth_append bit_simps)
  next
    case False
    with i assms have "8 - k + (f + k - 1 - i) = 7 - (i - f)" "\<not> k \<le> f + k - 1 - i" by auto
    with False i assms show ?thesis by (simp add: low_bits_def top_bits_def nth_append bit_simps)
  qed
qed simp

lemma low_bits_inj: "low_bits 8 a = low_bits 8 b \<Longrightarrow> a = b"
proof (rule bit_eqI)
  fix n assume eq: "low_bits 8 a = low_bits 8 b" and n: "possible_bit TYPE(byte) n"
  then have "n < 8" by simp
  have "low_bits 8 a ! (7 - n) = low_bits 8 b ! (7 - n)" using eq by simp
  moreover have "[0..<8] ! (7 - n) = 7 - n" using nth_upt [of 0 "7 - n" 8] \<open>n < 8\<close> by simp
  ultimately show "bit a n \<longleftrightarrow> bit b n" using \<open>n < 8\<close> by (simp add: low_bits_def)
qed

text \<open>The bits a state holds: the finished groups, then the unfinished one.\<close>

definition state_bits :: "nat \<Rightarrow> regroup_state \<Rightarrow> bool list" where
  "state_bits toBits st = (case st of (rs, nb, f) \<Rightarrow> concat (map (low_bits toBits) rs) @ low_bits f nb)"

definition state_ok :: "nat \<Rightarrow> regroup_state \<Rightarrow> bool" where
  "state_ok toBits st = (case st of (rs, nb, f) \<Rightarrow>
     f < toBits \<and> take_bit f nb = nb \<and> (\<forall>g \<in> set rs. take_bit toBits g = g))"

lemma extract_loop_ok:
  assumes "1 \<le> toBits" "toBits \<le> 8" "r \<le> 8" "state_ok toBits st"
  shows "\<exists>st'. extract_loop toBits b r st = Some st' \<and> state_ok toBits st' \<and>
    state_bits toBits st' = state_bits toBits st @ top_bits r b"
  using assms
proof (induction r arbitrary: b st rule: less_induct)
  case (less r)
  obtain rs nb f where st: "st = (rs, nb, f)" by (cases st)
  note 1 = less.prems [unfolded st]
  show ?case unfolding st
  proof (cases "r = 0")
    case True
    with 1 show "\<exists>st'. extract_loop toBits b r (rs, nb, f) = Some st' \<and> state_ok toBits st' \<and>
      state_bits toBits st' = state_bits toBits (rs, nb, f) @ top_bits r b"
      by (simp add: extract_loop.simps)
  next
    case False
    define k where "k = (if toBits - f < r then toBits - f else r)"
    define nb' where "nb' = push_bit k nb OR drop_bit (8 - k) b"
    define st1 where "st1 = (if f + k = toBits then (rs @ [nb'], 0, 0) else (rs, nb', f + k))"
    have f: "f < toBits" "take_bit f nb = nb" "\<forall>g \<in> set rs. take_bit toBits g = g" using 1(4) by (simp_all add: state_ok_def)
    have k: "k \<noteq> 0" "k \<le> r" "f + k \<le> toBits" using f False by (auto simp: k_def)
    have eq: "extract_loop toBits b r (rs, nb, f) = extract_loop toBits (push_bit k b) (r - k) st1"
      using False k(1) unfolding st1_def nb'_def k_def by (subst extract_loop.simps) (simp add: Let_def)
    have bits: "low_bits (f + k) nb' = low_bits f nb @ top_bits k b"
      unfolding nb'_def using k f 1(2) by (intro low_bits_append) simp
    have nb': "take_bit (f + k) nb' = nb'"
    proof (rule bit_eqI)
      fix n
      have "\<not> bit nb n" if "f \<le> n" for n using f(2) that by (metis bit_take_bit_iff linorder_not_less)
      then have "n < f + k" if "bit nb' n"
        using that k 1(2) unfolding nb'_def by (auto simp: bit_simps dest: bit_imp_le_length)
          (metis add.commute less_diff_conv2 linorder_not_less)
      then show "bit (take_bit (f + k) nb') n \<longleftrightarrow> bit nb' n" by (auto simp: bit_take_bit_iff)
    qed
    have st1: "state_ok toBits st1" "state_bits toBits st1 = state_bits toBits (rs, nb, f) @ top_bits k b"
      using f k nb' bits 1(1) unfolding st1_def by (auto simp: state_ok_def state_bits_def)
    have r': "r - k < r" "r - k \<le> 8" using k False 1(3) by auto
    obtain st' where st': "extract_loop toBits (push_bit k b) (r - k) st1 = Some st'" "state_ok toBits st'"
      "state_bits toBits st' = state_bits toBits st1 @ top_bits (r - k) (push_bit k b)"
      using less.IH [OF r'(1) 1(1,2) r'(2) st1(1)] by blast
    have "top_bits k b @ top_bits (r - k) (push_bit k b) = top_bits r b"
      using k 1(3) by (metis append_take_drop_id top_bits_drop top_bits_take)
    with eq st' st1(2) show "\<exists>st'. extract_loop toBits b r (rs, nb, f) = Some st' \<and> state_ok toBits st' \<and>
      state_bits toBits st' = state_bits toBits (rs, nb, f) @ top_bits r b" by simp
  qed
qed

lemma convert_loop_ok:
  assumes "1 \<le> toBits" "toBits \<le> 8" "fromBits \<le> 8" "state_ok toBits st"
  shows "\<exists>st'. convert_loop fromBits toBits data st = Some st' \<and> state_ok toBits st' \<and>
    state_bits toBits st' = state_bits toBits st @ concat (map (low_bits fromBits) data)"
  using assms(4)
proof (induction data arbitrary: st)
  case (Cons b data)
  obtain st1 where st1: "extract_loop toBits (push_bit (8 - fromBits) b) fromBits st = Some st1" "state_ok toBits st1"
    "state_bits toBits st1 = state_bits toBits st @ low_bits fromBits b"
    using extract_loop_ok [OF assms(1-3) Cons.prems] top_bits_shift [OF assms(3)] by metis
  from Cons.IH [OF st1(2)] st1(1,3) show ?case by auto
qed simp

lemma start_state: "1 \<le> toBits \<Longrightarrow> state_ok toBits ([], 0, 0)" "state_bits toBits ([], 0, 0) = []"
  by (simp_all add: state_ok_def state_bits_def)

lemma concat_low_bits_length: "length (concat (map (low_bits n) xs)) = n * length xs"
  by (induction xs) simp_all

lemma low_bits_pad:
  assumes "f \<le> n" "n \<le> 8" "take_bit f nb = nb"
  shows "low_bits n (push_bit (n - f) nb) = low_bits f nb @ replicate (n - f) False"
proof -
  have "low_bits (f + (n - f)) (push_bit (n - f) nb OR drop_bit (8 - (n - f)) 0) = low_bits f nb @ top_bits (n - f) 0"
    using assms(1,2) by (intro low_bits_append) simp
  moreover have "top_bits k 0 = replicate k False" for k
    by (rule nth_equalityI) (simp_all add: top_bits_def)
  ultimately show ?thesis using assms(1) by simp
qed

lemma concat_low_bits_inj:
  "length xs = length ys \<Longrightarrow> concat (map (low_bits 8) xs) = concat (map (low_bits 8) ys) \<Longrightarrow> xs = ys"
proof (induction xs ys rule: list_induct2)
  case (Cons x xs y ys)
  then have "low_bits 8 x = low_bits 8 y \<and> concat (map (low_bits 8) xs) = concat (map (low_bits 8) ys)" by simp
  with Cons.IH low_bits_inj show ?case by blast
qed simp

lemma low_bits_zero:
  assumes "low_bits f nb = replicate f False" "take_bit f nb = nb"
  shows "nb = 0"
proof (rule bit_eqI)
  fix n
  have "\<not> bit nb n"
  proof (cases "n < f")
    case True
    then have "low_bits f nb ! (f - 1 - n) = False" using assms(1) by simp
    with True show ?thesis by (simp add: low_bits_def)
  next
    case False
    with assms(2) show ?thesis by (metis bit_take_bit_iff)
  qed
  then show "bit nb n \<longleftrightarrow> bit 0 n" by simp
qed

text \<open>Padding conversion from bytes to 5-bit groups keeps the bits and adds fewer than five zeros.\<close>

lemma ConvertBits_8_5:
  obtains d p where "ConvertBits data 8 5 True = Some (Inr d)" "p < 5"
    "concat (map (low_bits 5) d) = concat (map (low_bits 8) data) @ replicate p False"
    "\<forall>g \<in> set d. take_bit 5 g = g"
proof -
  obtain rs nb f where c: "convert_loop 8 5 data ([], 0, 0) = Some (rs, nb, f)" "state_ok 5 (rs, nb, f)"
    "state_bits 5 (rs, nb, f) = concat (map (low_bits 8) data)"
    using convert_loop_ok [of 5 8 "([], 0, 0)" data] by (auto simp: start_state)
  show thesis
  proof (cases "0 < f")
    case True
    have ok: "f < 5" "take_bit f nb = nb" "\<forall>g \<in> set rs. take_bit 5 g = g" using c(2) by (simp_all add: state_ok_def)
    have t: "take_bit 5 (push_bit (5 - f) nb) = push_bit (5 - f) nb"
    proof -
      have "take_bit 5 (push_bit (5 - f) nb) = push_bit (5 - f) (take_bit (5 - (5 - f)) nb)"
        by (rule bit_eqI) (auto simp: bit_simps)
      then show ?thesis using ok(1,2) by simp
    qed
    show ?thesis
    proof (rule that [of "rs @ [push_bit (5 - f) nb]" "5 - f"])
      show "ConvertBits data 8 5 True = Some (Inr (rs @ [push_bit (5 - f) nb]))"
        using c(1) True by (simp add: ConvertBits_def)
      show "concat (map (low_bits 5) (rs @ [push_bit (5 - f) nb])) =
          concat (map (low_bits 8) data) @ replicate (5 - f) False"
        using c(3) low_bits_pad [of f 5 nb] ok by (simp add: state_bits_def)
    qed (use True ok t in auto)
  next
    case False
    with c that [of rs 0] show ?thesis by (simp add: ConvertBits_def state_bits_def state_ok_def)
  qed
qed

lemma ConvertBits_5_8:
  assumes "concat (map (low_bits 5) d) = concat (map (low_bits 8) data) @ replicate p False" "p < 5"
  shows "ConvertBits d 5 8 False = Some (Inr data)"
proof -
  obtain rs nb f where c: "convert_loop 5 8 d ([], 0, 0) = Some (rs, nb, f)" "state_ok 8 (rs, nb, f)"
    "state_bits 8 (rs, nb, f) = concat (map (low_bits 5) d)"
    using convert_loop_ok [of 8 5 "([], 0, 0)" d] by (auto simp: start_state)
  have ok: "f < 8" "take_bit f nb = nb" using c(2) by (simp_all add: state_ok_def)
  have eq: "concat (map (low_bits 8) rs) @ low_bits f nb = concat (map (low_bits 8) data) @ replicate p False"
    using c(3) assms(1) by (simp add: state_bits_def)
  have "8 * length rs + f = 8 * length data + p"
    using arg_cong [OF eq, of length] by (simp only: length_append concat_low_bits_length length_bits length_replicate)
  then have len: "length rs = length data" "f = p" using ok(1) assms(2) by presburger+
  then have parts: "concat (map (low_bits 8) rs) = concat (map (low_bits 8) data)" "low_bits f nb = replicate p False"
    using eq by (simp_all add: append_eq_append_conv concat_low_bits_length)
  have "rs = data" by (rule concat_low_bits_inj [OF len(1) parts(1)])
  moreover have "nb = 0" using low_bits_zero parts(2) ok(2) len(2) by blast
  ultimately show ?thesis using c(1) len(2) assms(2) by (simp add: ConvertBits_def)
qed

text \<open>\<open>ConvertBits\<close> always returns: its inner loop extracts at least one bit each time.\<close>

theorem ConvertBits_returns: "\<exists>r. ConvertBits data fromBits toBits pad = Some r"
proof (cases "fromBits < 1 \<or> fromBits > 8 \<or> toBits < 1 \<or> toBits > 8")
  case False
  then obtain st where "convert_loop fromBits toBits data ([], 0, 0) = Some st"
    using convert_loop_ok [of toBits fromBits "([], 0, 0)" data] by (auto simp: start_state)
  with False show ?thesis by (cases st) (auto simp: ConvertBits_def)
qed (auto simp: ConvertBits_def)

lemma base256_roundtrip_lemma:
  assumes "hrp \<noteq> []" "\<forall>c \<in> set hrp. 33 \<le> (of_char c :: nat) \<and> of_char c \<le> (126 :: nat)"
    "5 * length hrp + 8 * length data + 39 \<le> 5 * maxBechStrLength"
  shows "\<exists>t. EncodeFromBase256 hrp data = Some (Inr (to_lower hrp @ ''1'' @ t)) \<and>
    DecodeToBase256 (to_lower hrp @ ''1'' @ t) = Some (Inr (to_lower hrp, data))"
proof -
  obtain d p where d: "ConvertBits data 8 5 True = Some (Inr d)" "p < 5"
    "concat (map (low_bits 5) d) = concat (map (low_bits 8) data) @ replicate p False"
    "\<forall>g \<in> set d. take_bit 5 g = g"
    by (rule ConvertBits_8_5)
  have "5 * length d = 8 * length data + p"
    using arg_cong [OF d(3), of length] by (simp add: concat_low_bits_length)
  then have len: "length hrp + length d + 7 \<le> maxBechStrLength" using assms(3) d(2) by linarith
  have "\<forall>b \<in> set d. unat b < 32"
  proof
    fix b assume "b \<in> set d"
    then have "unat b = take_bit 5 (unat b)" using d(4) by (metis unsigned_take_bit_eq)
    then show "unat b < 32" using take_bit_nat_less_exp [of 5 "unat b"] by simp
  qed
  from bech32_decode_encode_lemma [OF assms(1,2) this len] obtain s where
    s: "Encode hrp d = Inr s" "Decode s = Inr (to_lower hrp, d)" by blast
  moreover obtain t where "s = to_lower hrp @ ''1'' @ t"
    using s(1) by (auto simp: Encode_def Let_def rbind_eq_Inr)
  ultimately show ?thesis using d(1) ConvertBits_5_8 [OF d(3,2)]
    by (auto simp add: EncodeFromBase256_def DecodeToBase256_def)
qed

text \<open>
  Bytes survive the way to a bech32 string and back: regrouping into 5-bit symbols,
  encoding, decoding and regrouping returns the bytes and the lower-case human-readable part.
\<close>

theorem bech32_base256_roundtrip:
  assumes "hrp \<noteq> []" "\<forall>c \<in> set hrp. 33 \<le> (of_char c :: nat) \<and> of_char c \<le> (126 :: nat)"
    "5 * length hrp + 8 * length data + 39 \<le> 5 * maxBechStrLength"
  shows "\<exists>s. EncodeFromBase256 hrp data = Some (Inr s) \<and> DecodeToBase256 s = Some (Inr (to_lower hrp, data))"
  using base256_roundtrip_lemma [OF assms] by blast

theorem bech32_base256_roundtrip_witness:
  "\<exists>s. EncodeFromBase256 ''addr'' [0x61, 0xff] = Some (Inr s) \<and>
     DecodeToBase256 s = Some (Inr (''addr'', [0x61, 0xff]))"
proof -
  have "to_lower ''addr'' = ''addr''" by code_simp
  then show ?thesis using bech32_base256_roundtrip [of "''addr''" "[0x61, 0xff]"] by (simp add: maxBechStrLength_def)
qed

end
