(* ===== verification/Wallet_Keys_Props.thy ===== *)
theory Wallet_Keys_Props
  imports Wallet_Keys Bech32_Props
begin

text \<open>
  Keys and witnesses: padded sizes, round trips of the two key formats, totality of
  \<open>NewWallet\<close>, and signing followed by verification.
\<close>

section \<open>Sizes\<close>

lemma length_PadKeyToSize: "length (PadKeyToSize key) = (if length key > 64 then 128 else 32)"
  by (simp add: PadKeyToSize_def Let_def KeyExtendedSize_def KeySize_def)

lemma PadKeyToSize_idem [simp]: "PadKeyToSize (PadKeyToSize key) = PadKeyToSize key"
  using length_PadKeyToSize [of key] unfolding PadKeyToSize_def [of "PadKeyToSize key"]
  by (simp add: Let_def KeyExtendedSize_def KeySize_def split: if_splits)

lemma PadKeyToSize_32: "length key = 32 \<Longrightarrow> PadKeyToSize key = key"
  by (simp add: PadKeyToSize_def KeyExtendedSize_def KeySize_def)

lemma getVerificationKey_padded:
  assumes "ed25519_laws ed"
  shows "\<exists>vk. getVerificationKey ed (PadKeyToSize key) = Some vk \<and> length vk = 32 \<and>
    (length key \<le> 64 \<longrightarrow> vk = ed_public ed (PadKeyToSize key))"
proof (cases "length key > 64")
  case True
  then show ?thesis using length_PadKeyToSize [of key] by (simp add: getVerificationKey_def)
next
  case False
  then have "length (PadKeyToSize key) = 32" by (simp add: length_PadKeyToSize)
  then show ?thesis
    using assms by (simp add: getVerificationKey_def GetVerificationKeyFromSigningKey_def ed25519_public_def ed25519_laws_def)
qed

lemma NewWallet_keys:
  assumes "ed25519_laws ed"
  shows "\<exists>w. NewWallet ed sk ssk = Some w \<and> w_SigningKey w = PadKeyToSize sk \<and>
    length (w_VerificationKey w) = 32 \<and>
    (length sk \<le> 64 \<longrightarrow> w_VerificationKey w = ed_public ed (PadKeyToSize sk)) \<and>
    w_StakeSigningKey w = (if ssk = [] then [] else PadKeyToSize ssk) \<and>
    length (w_StakeVerificationKey w) = (if ssk = [] then 0 else 32)"
  using getVerificationKey_padded [OF assms, of sk] getVerificationKey_padded [OF assms, of ssk]
  by (auto simp: NewWallet_def Let_def)

text \<open>Concrete primitives that keep the laws, for the instances below.\<close>

definition demo_ed :: ed25519_prims where
  "demo_ed = \<lparr>ed_public = (\<lambda>seed. map (\<lambda>b. b + 1) seed),
     ed_sign = (\<lambda>priv msg. take 64 (take 32 (drop 32 priv) @ take 32 msg @ replicate 64 0)),
     ed_verify = (\<lambda>pub msg sig. sig = take 64 (pub @ take 32 msg @ replicate 64 0))\<rparr>"

lemma demo_ed_laws: "ed25519_laws demo_ed"
  by (auto simp: ed25519_laws_def demo_ed_def)

definition demo_cbor :: cbor_prims where
  "demo_cbor = \<lparr>cbor_bytes = Inr,
     cbor_bytes_list = (\<lambda>bss. Inr (0x82 # 1 # replicate (length (bss ! 0)) 1 @ 0 # concat bss)),
     uncbor_bytes = Inr,
     uncbor_pair = (\<lambda>bs. let n = length (takeWhile (\<lambda>b. b = 1) (drop 2 bs)); d = drop (Suc n) (drop 2 bs)
       in Inr (take n d, drop n d))\<rparr>"

lemma demo_cbor_laws: "cbor_laws demo_cbor"
  by (simp add: cbor_laws_def demo_cbor_def takeWhile_append Let_def)

section \<open>Keys\<close>

lemma key_clean [simp]: "utf8_sanitize (hex_encode bs) = hex_encode bs"
proof (rule utf8_sanitize_ascii, rule ballI)
  fix c assume "c \<in> set (hex_encode bs)"
  then have "hex_val c \<noteq> None" by (rule hex_encode_chars)
  then show "(of_char c :: nat) < 0x80" by (auto simp: hex_val_def Let_def split: if_splits)
qed

lemma NewKey_file:
  "NewKey (Inr (key_file k)) = Inr \<lparr>key_Type = utf8_sanitize (key_Type k),
     key_Description = utf8_sanitize (key_Description k), key_Hex = utf8_sanitize (key_Hex k)\<rparr>"
  by (simp add: NewKey_def key_file_def json_of_file_def dec_key_def enc_key_def json_member_def)

text \<open>
  A key built from bytes, written to a file and read back gives the bytes, padded to the
  size of a key.
\<close>

theorem key_file_roundtrip:
  assumes "cbor_laws cb"
  shows "\<exists>k k'. NewKeyFromBytes cb keyType desc bs = Inr k \<and> NewKey (Inr (key_file k)) = Inr k' \<and>
    key_GetKeyBytes cb k' = Some (Inr (PadKeyToSize bs))"
proof -
  obtain enc where "cbor_bytes cb (PadKeyToSize bs) = Inr enc" "uncbor_bytes cb enc = Inr (PadKeyToSize bs)"
    using assms unfolding cbor_laws_def by meson
  then show ?thesis
    by (simp add: NewKeyFromBytes_def NewKey_file key_GetKeyBytes_def GetKeyBytes_def)
qed

theorem key_file_roundtrip_witness:
  "\<exists>k k'. NewKeyFromBytes demo_cbor ''t'' ''d'' [7, 0xff] = Inr k \<and> NewKey (Inr (key_file k)) = Inr k' \<and>
    key_GetKeyBytes demo_cbor k' = Some (Inr (PadKeyToSize [7, 0xff]))"
  by (rule key_file_roundtrip [OF demo_cbor_laws])

text \<open>
  A key in bech32 text, whose human-readable part cannot be taken for hexadecimal, is read
  back, padded to the size of a key.
\<close>

theorem bech32_key_roundtrip:
  assumes "c \<in> set hrp" "hex_val c = None" "to_lower hrp = hrp"
    "\<forall>c \<in> set hrp. 33 \<le> (of_char c :: nat) \<and> of_char c \<le> (126 :: nat)"
    "5 * length hrp + 8 * length bs + 39 \<le> 5 * maxBechStrLength"
  shows "\<exists>s. EncodeFromBase256 hrp bs = Some (Inr s) \<and> GetKeyBytes cb s = Some (Inr (PadKeyToSize bs))"
proof -
  have "hrp \<noteq> []" using assms(1) by auto
  then obtain t where t: "EncodeFromBase256 hrp bs = Some (Inr (hrp @ ''1'' @ t))"
    "DecodeToBase256 (hrp @ ''1'' @ t) = Some (Inr (hrp, bs))"
    using base256_roundtrip_lemma [OF _ assms(4,5)] assms(3) by auto
  moreover obtain e where "hex_DecodeString (hrp @ ''1'' @ t) = Inl e"
    using hex_DecodeString_invalid [of c "hrp @ ''1'' @ t"] assms(1,2) by auto
  ultimately show ?thesis by (simp add: GetKeyBytes_def bech32_result_def)
qed

theorem bech32_key_roundtrip_witness:
  "\<exists>s. EncodeFromBase256 ''addr_vk'' [1, 2, 3] = Some (Inr s) \<and>
     GetKeyBytes demo_cbor s = Some (Inr (PadKeyToSize [1, 2, 3]))"
proof (rule bech32_key_roundtrip [of "CHR ''r''"])
  show "to_lower ''addr_vk'' = ''addr_vk''" by code_simp
qed (simp_all add: hex_val_def maxBechStrLength_def)

section \<open>Wallets and witnesses\<close>

text \<open>
  \<open>NewWallet\<close> never panics, whatever the sizes of the two signing keys, and its
  verification keys have 32 bytes; without a stake key the stake part is empty.
\<close>

theorem NewWallet_total:
  assumes "ed25519_laws ed"
  shows "\<exists>w. NewWallet ed sk ssk = Some w \<and> length (w_VerificationKey w) = 32 \<and>
    length (w_SigningKey w) \<in> {32, 128} \<and>
    length (w_StakeVerificationKey w) = (if ssk = [] then 0 else 32) \<and>
    (w_StakeSigningKey w = [] \<longleftrightarrow> ssk = [])"
proof -
  obtain w where w: "NewWallet ed sk ssk = Some w" "w_SigningKey w = PadKeyToSize sk"
    "length (w_VerificationKey w) = 32" "w_StakeSigningKey w = (if ssk = [] then [] else PadKeyToSize ssk)"
    "length (w_StakeVerificationKey w) = (if ssk = [] then 0 else 32)"
    using NewWallet_keys [OF assms] by blast
  moreover have "PadKeyToSize ssk \<noteq> []" using length_PadKeyToSize [of ssk] by (auto split: if_splits)
  ultimately show ?thesis by (auto simp: length_PadKeyToSize)
qed

theorem NewWallet_total_witness:
  "\<exists>w. NewWallet demo_ed (replicate 96 3) [] = Some w \<and> length (w_VerificationKey w) = 32 \<and>
    length (w_SigningKey w) \<in> {32, 128} \<and> length (w_StakeVerificationKey w) = 0 \<and> w_StakeSigningKey w = []"
  using NewWallet_total [OF demo_ed_laws, of "replicate 96 3" "[]"] by simp

text \<open>
  C22. A wallet made from a key of at most 64 bytes signs a transaction hash with a witness that
  \<open>VerifyWitness\<close> accepts, in the form the wallet gives it and with the two bytes that
  \<open>cardano-cli\<close> puts in front. A wallet made from a longer key cannot sign: the call reports
  the size of the joined key.
\<close>

theorem wallet_witness_verifies:
  assumes "ed25519_laws ed" "cbor_laws cb" "NewWallet ed sk ssk = Some w"
  shows "if length sk \<le> 64
    then \<exists>wit. wallet_CreateTxWitness ed cb w txHash = Inr wit \<and>
      VerifyWitness ed cb (hex_encode txHash) wit = Inr () \<and>
      VerifyWitness ed cb (hex_encode txHash) (0x82 # 0 # wit) = Inr ()
    else wallet_CreateTxWitness ed cb w txHash = Inl (ErrMsg ''error: ed25519: bad private key length: 160'')"
proof -
  have w: "w_SigningKey w = PadKeyToSize sk" "length (w_VerificationKey w) = 32"
    "length sk \<le> 64 \<longrightarrow> w_VerificationKey w = ed_public ed (PadKeyToSize sk)"
    using NewWallet_keys [OF assms(1), of sk ssk] assms(3) by auto
  show ?thesis
  proof (cases "length sk \<le> 64")
    case True
    define seed vk where "seed = PadKeyToSize sk" and "vk = ed_public ed seed"
    define sig where "sig = ed_sign ed (seed @ vk) txHash"
    have len: "length seed = 32" "length vk = 32" "length sig = 64" and ok: "ed_verify ed vk txHash sig"
      using True assms(1) by (auto simp: seed_def vk_def sig_def length_PadKeyToSize ed25519_laws_def)
    obtain wit where wit: "cbor_bytes_list cb [vk, sig] = Inr wit" "uncbor_pair cb wit = Inr (vk, sig)"
      "length wit \<ge> 2" "wit ! 1 \<noteq> 0"
      using assms(2) unfolding cbor_laws_def by blast
    have "SignMessage ed (w_SigningKey w) (w_VerificationKey w) txHash = Inr sig"
      using w True len by (simp add: SignMessage_def ed25519_Sign_def recovered_def seed_def vk_def sig_def)
    then show ?thesis
      using True wit w len ok
      by (simp add: wallet_CreateTxWitness_def VerifyWitness_def GetSignatureAndVKey_def VerifyMessage_def
          ed25519_Verify_def recovered_def seed_def [symmetric] vk_def [symmetric])
  next
    case False
    have "itoa 160 = ''160''" by code_simp
    with w False show ?thesis
      by (simp add: wallet_CreateTxWitness_def SignMessage_def ed25519_Sign_def recovered_def length_PadKeyToSize)
  qed
qed

theorem wallet_witness_verifies_witness:
  "\<exists>w wit. NewWallet demo_ed (replicate 32 5) [] = Some w \<and>
     wallet_CreateTxWitness demo_ed demo_cbor w [0xab, 0xcd] = Inr wit \<and>
     VerifyWitness demo_ed demo_cbor (hex_encode [0xab, 0xcd]) wit = Inr ()"
proof -
  obtain w where w: "NewWallet demo_ed (replicate 32 5) [] = Some w" using NewWallet_keys [OF demo_ed_laws] by blast
  from wallet_witness_verifies [OF demo_ed_laws demo_cbor_laws this, of "[0xab, 0xcd]"] w
  show ?thesis by auto
qed

section \<open>Transaction envelopes\<close>

text \<open>The three envelopes carry any bytes under any era.\<close>

lemma envelope_back [simp]:
  "newTransactionUnwitnessedRawFromJSON (FileJson (unwitnessed_ToJSON bs era)) = Some (Inr bs)"
  "newTransactionWitnessedRawFromJSON (FileJson (witnessed_ToJSON bs era)) = Some (Inr bs)"
  "newTransactionWitnessedRawFromJSON (FileJson (witness_ToJSON bs era)) = Some (Inr bs)"
  by (simp_all add: newTransactionUnwitnessedRawFromJSON_def newTransactionWitnessedRawFromJSON_def raw_from_json_def
      unwitnessed_ToJSON_def witnessed_ToJSON_def witness_ToJSON_def envelope_def json_of_file_def json_member_def enc_str_def)

end
