(* ===== verification/Address_Props.thy ===== *)
theory Address_Props
  imports Address Wallet_Keys_Props
begin

text \<open>
  Addresses: the header byte, the variable-length integers of pointer addresses, the round
  trips between information, bytes and text, and the calls that may panic.
\<close>

unbundle bit_operations_syntax

section \<open>The header byte\<close>

lemma header_low:
  assumes "c AND 0x0F = (0 :: byte)"
  shows "header_nibble (c OR (n AND 0xF)) = header_nibble c" "(c OR (n AND 0xF)) AND 0x0F = n AND 0xF"
proof -
  have "(c OR (n AND 0xF)) AND 0xF0 = c AND 0xF0"
    by (simp add: bit.conj_disj_distrib2 and.assoc)
  then show "header_nibble (c OR (n AND 0xF)) = header_nibble c" by (simp add: header_nibble_def)
  show "(c OR (n AND 0xF)) AND 0x0F = n AND 0xF"
    using assms by (simp add: bit.conj_disj_distrib2 and.assoc)
qed

lemma header_split: "push_bit 4 (header_nibble b) OR (b AND 0x0F) = b"
proof -
  have "push_bit 4 (header_nibble b) = b AND 0xF0"
  proof (rule bit_eqI)
    have m: "0xF0 = (push_bit 4 (mask 4) :: byte)" by (simp add: mask_eq_exp_minus_1)
    fix i
    show "bit (push_bit 4 (header_nibble b)) i \<longleftrightarrow> bit (b AND 0xF0) i"
      unfolding header_nibble_def m by (auto simp: bit_simps dest: bit_imp_le_length)
  qed
  moreover have "(b AND 0xF0) OR (b AND 0x0F) = b AND (0xF0 OR 0x0F)" by (simp only: bit.conj_disj_distrib)
  moreover have "(0xF0 OR 0x0F :: byte) = - 1" by simp
  ultimately show ?thesis by (simp only: and.right_neutral)
qed

lemma header_cases: "header_nibble b \<in> {0, 1, 2, 3, 4, 5, 6, 7, 8, 9, 10, 11, 12, 13, 14, 15}"
proof -
  have "unat (header_nibble b) < 16"
  proof -
    have "header_nibble b = take_bit 4 (header_nibble b)"
      unfolding header_nibble_def by (rule bit_eqI) (auto simp: bit_simps dest: bit_imp_le_length)
    then have "unat (header_nibble b) = take_bit 4 (unat (header_nibble b))" by (metis unsigned_take_bit_eq)
    then show ?thesis using take_bit_nat_less_exp [of 4 "unat (header_nibble b)"] by simp
  qed
  then show ?thesis
    unfolding insert_iff empty_iff word_unat_eq_iff by simp presburger
qed

section \<open>Variable-length integers\<close>

lemma digit_bits:
  "((word_of_nat m AND 0x7F) OR 0x80) AND 0x80 \<noteq> (0 :: byte)"
  "(word_of_nat m AND 0x7F) AND 0x80 = (0 :: byte)"
  "ucast (((word_of_nat m AND 0x7F) OR 0x80) AND 0x7F :: byte) = (word_of_nat (m mod 128) :: u64)"
  "ucast ((word_of_nat m AND 0x7F) AND 0x7F :: byte) = (word_of_nat (m mod 128) :: u64)"
proof -
  show "((word_of_nat m AND 0x7F) OR 0x80) AND 0x80 \<noteq> (0 :: byte)"
    by (simp add: bit.conj_disj_distrib2 and.assoc)
  show "(word_of_nat m AND 0x7F) AND 0x80 = (0 :: byte)" by (simp add: and.assoc)
  have m: "(0x7F :: byte) = mask 7" by (simp add: mask_eq_exp_minus_1)
  have u: "ucast (word_of_nat m AND 0x7F :: byte) = (word_of_nat (m mod 128) :: u64)"
  proof (rule bit_eqI)
    fix i
    have "(128 :: nat) = 2 ^ 7" by simp
    then have "m mod 128 = take_bit 7 m" by (simp only: take_bit_eq_mod)
    then show "bit (ucast (word_of_nat m AND 0x7F :: byte) :: u64) i \<longleftrightarrow> bit (word_of_nat (m mod 128) :: u64) i"
      unfolding m by (auto simp: bit_simps)
  qed
  show "ucast (((word_of_nat m AND 0x7F) OR 0x80) AND 0x7F :: byte) = (word_of_nat (m mod 128) :: u64)"
    using u by (simp add: bit.conj_disj_distrib2 and.assoc)
  show "ucast ((word_of_nat m AND 0x7F) AND 0x7F :: byte) = (word_of_nat (m mod 128) :: u64)"
    using u by (simp add: and.assoc)
qed

lemma digits_join: "push_bit 7 (word_of_nat (m div 128)) OR word_of_nat (m mod 128) = (word_of_nat m :: u64)"
proof (rule bit_eqI)
  fix i
  have "(128 :: nat) = 2 ^ 7" by simp
  then have "m div 128 = drop_bit 7 m" "m mod 128 = take_bit 7 m" by (simp_all only: drop_bit_eq_div take_bit_eq_mod)
  then show "bit (push_bit 7 (word_of_nat (m div 128)) OR word_of_nat (m mod 128) :: u64) i \<longleftrightarrow> bit (word_of_nat m :: u64) i"
    by (cases "i < 7") (auto simp: bit_simps)
qed

lemma readOne_digits:
  "readOne_loop 0 k (rev (variable_digits m) @ xs) = readOne_loop (word_of_nat m) (k + length (variable_digits m)) xs"
proof (induction m arbitrary: xs rule: variable_digits.induct)
  case (1 m)
  show ?case
  proof (cases "m > 0")
    case True
    then show ?thesis
      by (simp add: variable_digits.simps [of m] 1 digit_bits digits_join Let_def)
  qed (simp add: variable_digits.simps [of 0])
qed

lemma readOne_variableEncode: "readOne (variableEncode n @ xs) = Inr (n, length (variableEncode n))"
  using digit_bits [of "unat n"] digits_join [of "unat n"]
  by (simp add: readOne_def variableEncode_def readOne_digits Let_def)

lemma variableEncode_not_Nil: "variableEncode n \<noteq> []"
  by (simp add: variableEncode_def)

lemma getStakePointer_encode:
  "getStakePointer (variableEncode (sp_Slot p) @ variableEncode (sp_TxIndex p) @ variableEncode (sp_CertIndex p)) = Inr p"
  using readOne_variableEncode [of "sp_CertIndex p" "[]"]
  by (simp add: getStakePointer_def readOne_variableEncode)

section \<open>Information and bytes\<close>

text \<open>
  Well-formed information of the four Shelley types: the parts of the type and no others,
  hashes of 28 bytes, a network of four bits. A pointer address has no extra bytes.
\<close>

definition info_ok :: "CardanoAddressInfo \<Rightarrow> bool" where
  "info_ok i \<longleftrightarrow> cai_Network i AND 0xF = cai_Network i \<and> pred_option payload_ok (cai_Payment i) \<and>
     pred_option payload_ok (cai_Stake i) \<and>
     (if cai_AddressType i = BaseAddress then cai_Payment i \<noteq> None \<and> cai_Stake i \<noteq> None \<and> cai_StakePointer i = None
      else if cai_AddressType i = PointerAddress
      then cai_Payment i \<noteq> None \<and> cai_Stake i = None \<and> cai_StakePointer i \<noteq> None \<and> cai_Extra i = []
      else if cai_AddressType i = EnterpriseAddress
      then cai_Payment i \<noteq> None \<and> cai_Stake i = None \<and> cai_StakePointer i = None \<and> cai_Extra i = []
      else cai_AddressType i = RewardAddress \<and> cai_Payment i = None \<and> cai_Stake i \<noteq> None \<and>
        cai_StakePointer i = None \<and> cai_Extra i = [])"

lemma getAddressParser_simps [simp]:
  "getAddressParser BaseAddress = Inr BaseParser" "getAddressParser PointerAddress = Inr PointerParser"
  "getAddressParser EnterpriseAddress = Inr EnterpriseParser" "getAddressParser RewardAddress = Inr RewardParser"
  "getAddressParser ByronAddress = Inr ByronParser"
  by (simp_all add: getAddressParser_def addressParsers_def)

text \<open>Header bytes the parsers write, and what the parsers read in them.\<close>

lemma base_header:
  fixes s t n
  defines "b \<equiv> push_bit 4 (toByte s) OR push_bit 5 (toByte t) OR (n AND 0xf)"
  shows "GetAddressTypeFromHeader b = BaseAddress" "header_nibble b AND 1 > 0 \<longleftrightarrow> s"
    "header_nibble b AND 2 > 0 \<longleftrightarrow> t" "b AND 0xF = n AND 0xF"
proof -
  have z: "(push_bit 4 (toByte s) OR push_bit 5 (toByte t)) AND 0x0F = 0"
    by (cases s; cases t) (simp_all add: toByte_def)
  have b: "b = (push_bit 4 (toByte s) OR push_bit 5 (toByte t)) OR (n AND 0xF)" by (simp add: b_def or.assoc)
  have h: "header_nibble b = header_nibble (push_bit 4 (toByte s) OR push_bit 5 (toByte t))"
    unfolding b by (rule header_low [OF z])
  show "GetAddressTypeFromHeader b = BaseAddress" "header_nibble b AND 1 > 0 \<longleftrightarrow> s" "header_nibble b AND 2 > 0 \<longleftrightarrow> t"
    unfolding GetAddressTypeFromHeader_def h by (cases s; cases t; simp add: toByte_def header_nibble_def)+
  show "b AND 0xF = n AND 0xF" unfolding b by (rule header_low [OF z])
qed

lemma other_header:
  fixes s n ty
  assumes ty: "ty \<in> {0x40, 0x60, 0xE0}"
  defines "b \<equiv> ty OR push_bit 4 (toByte s) OR (n AND 0xf)"
  shows "GetAddressTypeFromHeader b = (if ty = 0x40 then PointerAddress else if ty = 0x60 then EnterpriseAddress else RewardAddress)"
    "header_nibble b AND 1 > 0 \<longleftrightarrow> s" "b AND 0xF = n AND 0xF"
proof -
  have z: "(ty OR push_bit 4 (toByte s)) AND 0x0F = 0" using ty by (cases s) (auto simp: toByte_def)
  have b: "b = (ty OR push_bit 4 (toByte s)) OR (n AND 0xF)" by (simp add: b_def or.assoc)
  have h: "header_nibble b = header_nibble (ty OR push_bit 4 (toByte s))"
    unfolding b by (rule header_low [OF z])
  show "GetAddressTypeFromHeader b = (if ty = 0x40 then PointerAddress else if ty = 0x60 then EnterpriseAddress else RewardAddress)"
    "header_nibble b AND 1 > 0 \<longleftrightarrow> s"
    unfolding GetAddressTypeFromHeader_def h using ty by (cases s; auto simp: toByte_def header_nibble_def)+
  show "b AND 0xF = n AND 0xF" unfolding b by (rule header_low [OF z])
qed

lemma fill_exact: "length bs = n \<Longrightarrow> fill n bs = bs"
  by (simp add: fill_def)

lemma key_hash_at_0: "length p = KeyHashSize \<Longrightarrow> key_hash_at (p @ xs) 0 = Some p"
  by (simp add: key_hash_at_def go_slice_def)

lemma key_hash_at_28: "length p = KeyHashSize \<Longrightarrow> length q = KeyHashSize \<Longrightarrow> key_hash_at (p @ q @ xs) KeyHashSize = Some q"
  by (simp add: key_hash_at_def go_slice_def)

lemma go_nth_0: "go_nth (x # xs) 0 = Some x"
  by (simp add: go_nth_def)

lemma KeyHashSize_pos: "0 < KeyHashSize" and KeyHashSize_28: "KeyHashSize = 28"
  by (simp_all add: KeyHashSize_def)

lemma length_variableEncode: "1 \<le> length (variableEncode n)"
  by (simp add: variableEncode_def)

text \<open>The address built from information, and the information read from it.\<close>

definition info_addr :: "CardanoAddressInfo \<Rightarrow> bytes \<Rightarrow> CardanoAddress \<Rightarrow> bool" where
  "info_addr i raw a \<longleftrightarrow> ca_raw a = raw \<and> ca_cachedAddressInfo a = empty_info \<and> ca_cachedStr a = '''' \<and>
     getAddressParser (cai_AddressType i) = Inr (ca_addressParser a)"

lemma base_roundtrip:
  assumes "info_ok i" "cai_AddressType i = BaseAddress"
  shows "\<exists>raw a. base_FromCardanoAddressInfo i = Some raw \<and> NewCardanoAddress bp raw = Inr a \<and> info_addr i raw a \<and>
    base_ToCardanoAddressInfo raw = Some i"
proof -
  obtain p s where p: "cai_Payment i = Some p" "cai_Stake i = Some s" "payload_ok p" "payload_ok s"
    "cai_StakePointer i = None" and net: "cai_Network i AND 0xF = cai_Network i"
    using assms by (auto simp: info_ok_def)
  let ?b = "push_bit 4 (toByte (cap_IsScript p)) OR push_bit 5 (toByte (cap_IsScript s)) OR (cai_Network i AND 0xf)"
  let ?raw = "?b # cap_Payload p @ cap_Payload s @ cai_Extra i"
  have len: "length (cap_Payload p) = KeyHashSize" "length (cap_Payload s) = KeyHashSize"
    using p by (simp_all add: payload_ok_def)
  have "base_FromCardanoAddressInfo i = Some ?raw"
    using p len by (simp add: base_FromCardanoAddressInfo_def fill_exact)
  moreover have "NewCardanoAddress bp ?raw =
      Inr \<lparr>ca_raw = ?raw, ca_addressParser = BaseParser, ca_cachedAddressInfo = empty_info, ca_cachedStr = ''''\<rparr>"
    using len by (simp add: NewCardanoAddress_def base_header(1) base_IsValid_def)
  moreover have "base_ToCardanoAddressInfo ?raw = Some i"
    using p len net assms(2) base_header [of "cap_IsScript p" "cap_IsScript s" "cai_Network i"]
    by (cases i) (simp add: base_ToCardanoAddressInfo_def go_nth_0 key_hash_at_0 key_hash_at_28 empty_info_def Let_def)
  ultimately show ?thesis using assms(2) by (simp add: info_addr_def)
qed

lemma pointer_roundtrip:
  assumes "info_ok i" "cai_AddressType i = PointerAddress"
  shows "\<exists>raw a. pointer_FromCardanoAddressInfo i = Some raw \<and> NewCardanoAddress bp raw = Inr a \<and> info_addr i raw a \<and>
    pointer_ToCardanoAddressInfo raw = Some i"
proof -
  obtain p q where p: "cai_Payment i = Some p" "cai_StakePointer i = Some q" "payload_ok p"
    "cai_Stake i = None" "cai_Extra i = []" and net: "cai_Network i AND 0xF = cai_Network i"
    using assms by (auto simp: info_ok_def)
  let ?b = "0x40 OR push_bit 4 (toByte (cap_IsScript p)) OR (cai_Network i AND 0xf)"
  let ?v = "variableEncode (sp_Slot q) @ variableEncode (sp_TxIndex q) @ variableEncode (sp_CertIndex q)"
  let ?raw = "?b # cap_Payload p @ ?v"
  note hdr = other_header [of "0x40" "cap_IsScript p" "cai_Network i"]
  have len: "length (cap_Payload p) = KeyHashSize" using p by (simp add: payload_ok_def)
  have "3 \<le> length ?v"
    using length_variableEncode [of "sp_Slot q"] length_variableEncode [of "sp_TxIndex q"] length_variableEncode [of "sp_CertIndex q"]
    by simp
  then have "pointer_IsValid ?raw = Inr ()"
    using len getStakePointer_encode [of q] by (simp add: pointer_IsValid_def)
  then have "NewCardanoAddress bp ?raw =
      Inr \<lparr>ca_raw = ?raw, ca_addressParser = PointerParser, ca_cachedAddressInfo = empty_info, ca_cachedStr = ''''\<rparr>"
    using hdr(1) by (simp add: NewCardanoAddress_def)
  moreover have "pointer_FromCardanoAddressInfo i = Some ?raw"
    using p by (simp add: pointer_FromCardanoAddressInfo_def)
  moreover have "pointer_ToCardanoAddressInfo ?raw = Some i"
    using p len net assms(2) hdr getStakePointer_encode [of q]
    by (cases i) (simp add: pointer_ToCardanoAddressInfo_def go_nth_0 key_hash_at_0 empty_info_def Let_def)
  ultimately show ?thesis using assms(2) by (simp add: info_addr_def)
qed

lemma enterprise_roundtrip:
  assumes "info_ok i" "cai_AddressType i = EnterpriseAddress"
  shows "\<exists>raw a. enterprise_FromCardanoAddressInfo i = Some raw \<and> NewCardanoAddress bp raw = Inr a \<and> info_addr i raw a \<and>
    enterprise_ToCardanoAddressInfo raw = Some i"
proof -
  obtain p where p: "cai_Payment i = Some p" "payload_ok p" "cai_Stake i = None" "cai_StakePointer i = None"
    "cai_Extra i = []" and net: "cai_Network i AND 0xF = cai_Network i"
    using assms by (auto simp: info_ok_def)
  let ?raw = "(0x60 OR push_bit 4 (toByte (cap_IsScript p)) OR (cai_Network i AND 0xf)) # cap_Payload p"
  note hdr = other_header [of "0x60" "cap_IsScript p" "cai_Network i"]
  have len: "length (cap_Payload p) = KeyHashSize" using p by (simp add: payload_ok_def)
  have "NewCardanoAddress bp ?raw =
      Inr \<lparr>ca_raw = ?raw, ca_addressParser = EnterpriseParser, ca_cachedAddressInfo = empty_info, ca_cachedStr = ''''\<rparr>"
    using hdr(1) len by (simp add: NewCardanoAddress_def enterprise_IsValid_def)
  moreover have "enterprise_FromCardanoAddressInfo i = Some ?raw"
    using p len by (simp add: enterprise_FromCardanoAddressInfo_def fill_exact)
  moreover have "enterprise_ToCardanoAddressInfo ?raw = Some i"
    using p len net assms(2) hdr key_hash_at_0 [of "cap_Payload p" "[]"]
    by (cases i) (simp add: enterprise_ToCardanoAddressInfo_def go_nth_0 empty_info_def Let_def)
  ultimately show ?thesis using assms(2) by (simp add: info_addr_def)
qed

lemma reward_roundtrip:
  assumes "info_ok i" "cai_AddressType i = RewardAddress"
  shows "\<exists>raw a. reward_FromCardanoAddressInfo i = Some raw \<and> NewCardanoAddress bp raw = Inr a \<and> info_addr i raw a \<and>
    reward_ToCardanoAddressInfo raw = Some i"
proof -
  obtain p where p: "cai_Stake i = Some p" "payload_ok p" "cai_Payment i = None" "cai_StakePointer i = None"
    "cai_Extra i = []" and net: "cai_Network i AND 0xF = cai_Network i"
    using assms by (auto simp: info_ok_def)
  let ?raw = "(0xE0 OR push_bit 4 (toByte (cap_IsScript p)) OR (cai_Network i AND 0xf)) # cap_Payload p"
  note hdr = other_header [of "0xE0" "cap_IsScript p" "cai_Network i"]
  have len: "length (cap_Payload p) = KeyHashSize" using p by (simp add: payload_ok_def)
  have "NewCardanoAddress bp ?raw =
      Inr \<lparr>ca_raw = ?raw, ca_addressParser = RewardParser, ca_cachedAddressInfo = empty_info, ca_cachedStr = ''''\<rparr>"
    using hdr(1) len by (simp add: NewCardanoAddress_def reward_IsValid_def)
  moreover have "reward_FromCardanoAddressInfo i = Some ?raw"
    using p len by (simp add: reward_FromCardanoAddressInfo_def fill_exact)
  moreover have "reward_ToCardanoAddressInfo ?raw = Some i"
    using p len net assms(2) hdr key_hash_at_0 [of "cap_Payload p" "[]"]
    by (cases i) (simp add: reward_ToCardanoAddressInfo_def go_nth_0 empty_info_def Let_def)
  ultimately show ?thesis using assms(2) by (simp add: info_addr_def)
qed

lemma info_ok_type:
  "info_ok i \<Longrightarrow> cai_AddressType i \<in> {BaseAddress, PointerAddress, EnterpriseAddress, RewardAddress}"
  by (simp add: info_ok_def split: if_splits)

lemma empty_info_type [simp]: "cai_AddressType empty_info = UnsupportedAddress"
  by (simp add: empty_info_def)

lemma info_parser_roundtrip:
  assumes "info_ok i"
  shows "\<exists>p raw a. getAddressParser (cai_AddressType i) = Inr p \<and> parser_FromCardanoAddressInfo p i = Some raw \<and>
    NewCardanoAddress bp raw = Inr a \<and> info_addr i raw a \<and> parser_ToCardanoAddressInfo bp p raw = Some i"
  using info_ok_type [OF assms] base_roundtrip [OF assms, of bp] pointer_roundtrip [OF assms, of bp]
    enterprise_roundtrip [OF assms, of bp] reward_roundtrip [OF assms, of bp]
  by auto

lemma info_ToCardanoAddress:
  assumes "info_ok i"
  shows "\<exists>a a'. ToCardanoAddress bp i = Some (Inr a) \<and> GetInfo bp a = Some (i, a')"
proof -
  obtain p raw a where "getAddressParser (cai_AddressType i) = Inr p" "parser_FromCardanoAddressInfo p i = Some raw"
    "NewCardanoAddress bp raw = Inr a" "info_addr i raw a" "parser_ToCardanoAddressInfo bp p raw = Some i"
    using info_parser_roundtrip [OF assms] by blast
  then show ?thesis by (simp add: ToCardanoAddress_def GetInfo_def info_addr_def)
qed

text \<open>From bytes to information and back.\<close>

lemma address_type_iff:
  "GetAddressTypeFromHeader b = BaseAddress \<longleftrightarrow> header_nibble b \<in> {0, 1, 2, 3}"
  "GetAddressTypeFromHeader b = PointerAddress \<longleftrightarrow> header_nibble b \<in> {4, 5}"
  "GetAddressTypeFromHeader b = EnterpriseAddress \<longleftrightarrow> header_nibble b \<in> {6, 7}"
  "GetAddressTypeFromHeader b = RewardAddress \<longleftrightarrow> header_nibble b \<in> {14, 15}"
  "GetAddressTypeFromHeader b = ByronAddress \<longleftrightarrow> header_nibble b = 8"
  using header_cases [of b] by (auto simp: GetAddressTypeFromHeader_def Let_def)

lemma getAddressParser_type: "getAddressParser t = Inr p \<longleftrightarrow> t = parser_GetAddressType p"
  by (cases p) (auto simp: getAddressParser_def addressParsers_def split: if_splits)

lemma NewCardanoAddress_iff:
  "NewCardanoAddress bp raw = Inr a \<longleftrightarrow> (\<exists>b0 data p. raw = b0 # data \<and>
     GetAddressTypeFromHeader b0 = parser_GetAddressType p \<and> parser_IsValid bp p raw = Inr () \<and>
     a = \<lparr>ca_raw = raw, ca_addressParser = p, ca_cachedAddressInfo = empty_info, ca_cachedStr = ''''\<rparr>)"
  by (cases raw) (auto simp: NewCardanoAddress_def rbind_eq_Inr getAddressParser_type)

lemma key_hash_at_take: "n + KeyHashSize \<le> length data \<Longrightarrow> key_hash_at data n = Some (take KeyHashSize (drop n data))"
  by (simp add: key_hash_at_def go_slice_def del: of_nat_add)

lemma base_header_back:
  assumes "header_nibble b \<in> {0, 1, 2, 3}"
  shows "push_bit 4 (toByte (header_nibble b AND 1 > 0)) OR push_bit 5 (toByte (header_nibble b AND 2 > 0)) OR
    ((b AND 0x0F) AND 0xf) = b"
  using assms header_split [of b] by (auto simp: toByte_def and.assoc or.assoc [symmetric])

lemma other_header_back:
  assumes "(ty, header_nibble b) \<in> {(0x60, 6), (0x60, 7), (0xE0, 14), (0xE0, 15)}"
  shows "ty OR push_bit 4 (toByte (header_nibble b AND 1 > 0)) OR ((b AND 0x0F) AND 0xf) = b"
  using assms header_split [of b] by (auto simp: toByte_def and.assoc or.assoc [symmetric])

lemma ToCardanoAddress_back:
  assumes "NewCardanoAddress bp raw = Inr a" "getAddressParser (cai_AddressType i) = Inr p"
    "parser_FromCardanoAddressInfo p i = Some raw"
  shows "ToCardanoAddress bp i = Some (Inr a)"
  using assms by (simp add: ToCardanoAddress_def)

lemma fresh_GetInfo:
  assumes "NewCardanoAddress bp raw = Inr a"
  shows "GetInfo bp a = Option.bind (parser_ToCardanoAddressInfo bp (ca_addressParser a) raw) (\<lambda>i. Some (i, a\<lparr>ca_cachedAddressInfo := i\<rparr>))"
  using assms by (auto simp: NewCardanoAddress_iff GetInfo_def)

lemma bytes_base:
  assumes a: "NewCardanoAddress bp raw = Inr a" and p: "ca_addressParser a = BaseParser"
  shows "\<exists>i. base_ToCardanoAddressInfo raw = Some i \<and> info_ok i \<and> ToCardanoAddress bp i = Some (Inr a)"
proof -
  obtain b data where raw: "raw = b # data" "header_nibble b \<in> {0, 1, 2, 3}" "length raw \<ge> 1 + KeyHashSize * 2"
    using a p by (auto simp: NewCardanoAddress_iff address_type_iff base_IsValid_def not_less split: if_splits)
  let ?p = "take KeyHashSize data" and ?s = "take KeyHashSize (drop KeyHashSize data)"
  let ?i = "\<lparr>cai_AddressType = BaseAddress, cai_Network = b AND 0x0F,
     cai_Payment = Some \<lparr>cap_Payload = ?p, cap_IsScript = header_nibble b AND 1 > 0\<rparr>,
     cai_Stake = Some \<lparr>cap_Payload = ?s, cap_IsScript = header_nibble b AND 2 > 0\<rparr>,
     cai_StakePointer = None, cai_Extra = drop (2 * KeyHashSize) data\<rparr>"
  have len: "length ?p = KeyHashSize" "length ?s = KeyHashSize" using raw(1,3) by auto
  have i: "base_ToCardanoAddressInfo raw = Some ?i"
    using raw by (simp add: base_ToCardanoAddressInfo_def go_nth_0 key_hash_at_take empty_info_def Let_def)
  have ok: "info_ok ?i" using len by (simp add: info_ok_def payload_ok_def and.assoc)
  have "?p @ ?s @ drop (2 * KeyHashSize) data = data"
    by (metis append_take_drop_id drop_drop mult_2)
  then have "base_FromCardanoAddressInfo ?i = Some raw"
    using raw(1) len base_header_back [OF raw(2)] by (simp add: base_FromCardanoAddressInfo_def fill_exact)
  then have "ToCardanoAddress bp ?i = Some (Inr a)" using ToCardanoAddress_back [OF a, of ?i BaseParser] by simp
  with i ok show ?thesis by blast
qed

lemma bytes_enterprise:
  assumes a: "NewCardanoAddress bp raw = Inr a" and p: "ca_addressParser a = EnterpriseParser"
  shows "\<exists>i. enterprise_ToCardanoAddressInfo raw = Some i \<and> info_ok i \<and> ToCardanoAddress bp i = Some (Inr a)"
proof -
  obtain b data where raw: "raw = b # data" "header_nibble b \<in> {6, 7}" "length data = KeyHashSize"
    using a p by (auto simp: NewCardanoAddress_iff address_type_iff enterprise_IsValid_def split: if_splits)
  let ?i = "\<lparr>cai_AddressType = EnterpriseAddress, cai_Network = b AND 0x0F,
     cai_Payment = Some \<lparr>cap_Payload = data, cap_IsScript = header_nibble b AND 1 > 0\<rparr>,
     cai_Stake = None, cai_StakePointer = None, cai_Extra = []\<rparr>"
  have i: "enterprise_ToCardanoAddressInfo raw = Some ?i"
    using raw by (simp add: enterprise_ToCardanoAddressInfo_def go_nth_0 key_hash_at_take empty_info_def Let_def)
  have ok: "info_ok ?i" using raw by (simp add: info_ok_def payload_ok_def and.assoc)
  have "enterprise_FromCardanoAddressInfo ?i = Some raw"
    using raw other_header_back [of "0x60" b] by (simp add: enterprise_FromCardanoAddressInfo_def fill_exact)
  then have "ToCardanoAddress bp ?i = Some (Inr a)" using ToCardanoAddress_back [OF a, of ?i EnterpriseParser] by simp
  with i ok show ?thesis by blast
qed

lemma bytes_reward:
  assumes a: "NewCardanoAddress bp raw = Inr a" and p: "ca_addressParser a = RewardParser"
  shows "\<exists>i. reward_ToCardanoAddressInfo raw = Some i \<and> info_ok i \<and> ToCardanoAddress bp i = Some (Inr a)"
proof -
  obtain b data where raw: "raw = b # data" "header_nibble b \<in> {14, 15}" "length data = KeyHashSize"
    using a p by (auto simp: NewCardanoAddress_iff address_type_iff reward_IsValid_def split: if_splits)
  let ?i = "\<lparr>cai_AddressType = RewardAddress, cai_Network = b AND 0x0F, cai_Payment = None,
     cai_Stake = Some \<lparr>cap_Payload = data, cap_IsScript = header_nibble b AND 1 > 0\<rparr>,
     cai_StakePointer = None, cai_Extra = []\<rparr>"
  have i: "reward_ToCardanoAddressInfo raw = Some ?i"
    using raw by (simp add: reward_ToCardanoAddressInfo_def go_nth_0 key_hash_at_take empty_info_def Let_def)
  have ok: "info_ok ?i" using raw by (simp add: info_ok_def payload_ok_def and.assoc)
  have "reward_FromCardanoAddressInfo ?i = Some raw"
    using raw other_header_back [of "0xE0" b] by (simp add: reward_FromCardanoAddressInfo_def fill_exact)
  then have "ToCardanoAddress bp ?i = Some (Inr a)" using ToCardanoAddress_back [OF a, of ?i RewardParser] by simp
  with i ok show ?thesis by blast
qed

section \<open>Properties\<close>

text \<open>
  C14. The bytes of an address determine its information and back, for the four Shelley types:
  well-formed information builds an address whose information is the one given; and an address
  accepted from bytes, other than a pointer or Byron address, has well-formed information, from
  which the same address is built.
\<close>

theorem address_info_bytes_inverse:
  "(info_ok i \<longrightarrow> (\<exists>a a'. ToCardanoAddress bp i = Some (Inr a) \<and> GetInfo bp a = Some (i, a'))) \<and>
   (NewCardanoAddress bp raw = Inr b \<and> ca_addressParser b \<in> {BaseParser, EnterpriseParser, RewardParser} \<longrightarrow>
     (\<exists>j b'. GetInfo bp b = Some (j, b') \<and> info_ok j \<and> ToCardanoAddress bp j = Some (Inr b)))"
proof (intro conjI impI)
  assume b: "NewCardanoAddress bp raw = Inr b \<and> ca_addressParser b \<in> {BaseParser, EnterpriseParser, RewardParser}"
  then have "\<exists>j. parser_ToCardanoAddressInfo bp (ca_addressParser b) raw = Some j \<and> info_ok j \<and>
      ToCardanoAddress bp j = Some (Inr b)"
    using bytes_base [of bp raw b] bytes_enterprise [of bp raw b] bytes_reward [of bp raw b] by auto
  then show "\<exists>j b'. GetInfo bp b = Some (j, b') \<and> info_ok j \<and> ToCardanoAddress bp j = Some (Inr b)"
    using fresh_GetInfo [of bp raw b] b by auto
qed (rule info_ToCardanoAddress)

definition demo_bp :: byron_prims where
  "demo_bp = \<lparr>uncbor_outer = (\<lambda>bs. (None, Some (drop 1 bs), 24, ChecksumIEEE (drop 1 bs))),
     uncbor_byron = (\<lambda>bs. Inr (bs, [])), base58_Encode = bytes_str, base58_Decode = str_bytes\<rparr>"

theorem address_info_bytes_inverse_witness:
  "\<exists>b j b'. NewCardanoAddress demo_bp (0x61 # replicate 28 7) = Inr b \<and> GetInfo demo_bp b = Some (j, b') \<and>
     ToCardanoAddress demo_bp j = Some (Inr b)"
proof -
  have "GetAddressTypeFromHeader 0x61 = EnterpriseAddress" by (simp add: address_type_iff header_nibble_def)
  then obtain b where "NewCardanoAddress demo_bp (0x61 # replicate 28 7) = Inr b" "ca_addressParser b = EnterpriseParser"
    by (simp add: NewCardanoAddress_def enterprise_IsValid_def KeyHashSize_def)
  then show ?thesis using address_info_bytes_inverse [of _ demo_bp "0x61 # replicate 28 7" b] by blast
qed

text \<open>
  Reading the information of an accepted address panics in one case only: a Byron address
  whose inner structure carries a hash of fewer than 28 bytes, which the checks of \<open>IsValid\<close> let
  pass.
\<close>

theorem GetInfo_panics_only_on_short_byron:
  assumes "NewCardanoAddress bp raw = Inr a"
  shows "GetInfo bp a = None \<longleftrightarrow> ca_addressParser a = ByronParser \<and>
    (\<exists>rawTag hashed network. fst (snd (uncbor_outer bp raw)) = Some rawTag \<and>
       uncbor_byron bp rawTag = Inr (hashed, network) \<and> length hashed < 28)"
proof (cases "ca_addressParser a")
  case PointerParser
  then obtain b data where "raw = b # data" "length data \<ge> KeyHashSize"
    using assms by (auto simp: NewCardanoAddress_iff pointer_IsValid_def not_less split: if_splits)
  then have "pointer_ToCardanoAddressInfo raw \<noteq> None"
    by (simp add: pointer_ToCardanoAddressInfo_def go_nth_0 key_hash_at_take Let_def)
  with PointerParser show ?thesis using fresh_GetInfo [OF assms] by auto
next
  case ByronParser
  then obtain rawTag n c where "uncbor_outer bp raw = (None, Some rawTag, n, c)"
    using assms by (auto simp: NewCardanoAddress_iff byron_IsValid_def split: prod.splits option.splits if_splits)
  with ByronParser show ?thesis using fresh_GetInfo [OF assms]
    by (auto simp: byron_ToCardanoAddressInfo_def Let_def split: sum.splits if_splits)
qed (use fresh_GetInfo [OF assms] bytes_base [OF assms] bytes_enterprise [OF assms] bytes_reward [OF assms] in auto)

theorem GetInfo_panics_only_on_short_byron_witness:
  "\<exists>a. NewCardanoAddress demo_bp [0x82, 1, 2] = Inr a \<and> GetInfo demo_bp a = None"
proof -
  have "GetAddressTypeFromHeader 0x82 = ByronAddress" by (simp add: address_type_iff header_nibble_def)
  then obtain a where "NewCardanoAddress demo_bp [0x82, 1, 2] = Inr a" "ca_addressParser a = ByronParser"
    by (simp add: NewCardanoAddress_def byron_IsValid_def demo_bp_def)
  then show ?thesis using GetInfo_panics_only_on_short_byron [of demo_bp "[0x82, 1, 2]" a]
    by (simp add: demo_bp_def)
qed

text \<open>
  C38. The text of an accepted Shelley address of the main or the test network, of at most 147
  bytes, is read back as the same address, and the text is then kept.
\<close>

theorem address_string_roundtrip:
  assumes a: "NewCardanoAddress bp raw = Inr a" "ca_addressParser a \<noteq> ByronParser"
    and net: "hd raw AND 0x0F \<in> {0, 1}" and len: "length raw \<le> 147"
  shows "\<exists>s. address_String bp a = Some (s, a\<lparr>ca_cachedStr := s\<rparr>) \<and>
    NewCardanoAddressFromString bp s = Some (Inr (a\<lparr>ca_cachedStr := s\<rparr>))"
proof -
  obtain b data where raw: "raw = b # data" "ca_raw a = raw" "ca_cachedStr a = ''''"
    using a(1) by (auto simp: NewCardanoAddress_iff)
  define hrp where "hrp = (if ca_addressParser a = RewardParser then GetStakePrefix (b AND 0x0F) else GetPrefix (b AND 0x0F))"
  have hrp: "hrp \<in> {''addr'', ''addr_test'', ''stake'', ''stake_test''}"
    using net raw(1) by (auto simp: hrp_def GetPrefix_def GetStakePrefix_def)
  have low: "to_lower hrp = hrp"
    using hrp by (elim insertE emptyE; hypsubst; code_simp)
  have chars: "\<forall>c \<in> set hrp. 33 \<le> (of_char c :: nat) \<and> of_char c \<le> (126 :: nat)" and "hrp \<noteq> []" "length hrp \<le> 10"
    using hrp by auto
  then obtain t where t: "EncodeFromBase256 hrp raw = Some (Inr (hrp @ ''1'' @ t))"
    "DecodeToBase256 (hrp @ ''1'' @ t) = Some (Inr (hrp, raw))"
    using base256_roundtrip_lemma [of hrp raw] low len by (auto simp: maxBechStrLength_def)
  have "parser_ToString bp (ca_addressParser a) raw = Some (hrp @ ''1'' @ t)"
    using t(1) a(2) raw(1) by (cases "ca_addressParser a") (simp_all add: hrp_def go_nth_0 encode_or_empty_def)
  moreover have "IsAddressWithValidPrefix (hrp @ ''1'' @ t)"
    using hrp by (auto simp: IsAddressWithValidPrefix_def has_prefix_def)
  ultimately show ?thesis
    using t(2) raw a(1) by (simp add: address_String_def NewCardanoAddressFromString_def bech32_result_def)
qed

theorem address_string_roundtrip_witness:
  "\<exists>a s. NewCardanoAddress demo_bp (0x61 # replicate 28 7) = Inr a \<and>
     address_String demo_bp a = Some (s, a\<lparr>ca_cachedStr := s\<rparr>) \<and>
     NewCardanoAddressFromString demo_bp s = Some (Inr (a\<lparr>ca_cachedStr := s\<rparr>))"
proof -
  have "GetAddressTypeFromHeader 0x61 = EnterpriseAddress" by (simp add: address_type_iff header_nibble_def)
  then obtain a where "NewCardanoAddress demo_bp (0x61 # replicate 28 7) = Inr a" "ca_addressParser a = EnterpriseParser"
    by (simp add: NewCardanoAddress_def enterprise_IsValid_def KeyHashSize_def)
  then show ?thesis using address_string_roundtrip [of demo_bp "0x61 # replicate 28 7" a] by auto
qed

end
