(* ===== verification/Policy_Script.thy ===== *)
theory Policy_Script
  imports Address
begin

text \<open>
  Native policy scripts (\<open>wallet/policy_script.go\<close>): their construction, their JSON document,
  the number of witnesses they count, and their addresses.
\<close>

datatype PolicyScript =
  PolicyScript (ps_Type: string) (ps_Required: int) (ps_Scripts: "PolicyScript list") (ps_KeyHash: string) (ps_Slot: u64)

definition PolicyScriptAtLeastType :: string where "PolicyScriptAtLeastType = ''atLeast''"
definition PolicyScriptSigType :: string where "PolicyScriptSigType = ''sig''"

definition NewPolicyScript :: "string list \<Rightarrow> int \<Rightarrow> PolicyScript" where
  "NewPolicyScript keyHashes atLeastSignersCount =
     (let scripts = map (\<lambda>keyHash. PolicyScript PolicyScriptSigType 0 [] keyHash 0) keyHashes;
          scripts = sort_slice (\<lambda>a b. ps_KeyHash a < ps_KeyHash b) scripts
      in PolicyScript PolicyScriptAtLeastType atLeastSignersCount scripts '''' 0)"

text \<open>Zero values are omitted, except for the type.\<close>

fun enc_script :: "PolicyScript \<Rightarrow> json" where
  "enc_script (PolicyScript ty required scripts keyHash slot) =
     JObj ((''type'', enc_str ty) #
       (if required = 0 then [] else [(''required'', JNum required)]) @
       (if scripts = [] then [] else [(''scripts'', JArr (map enc_script scripts))]) @
       (if keyHash = '''' then [] else [(''keyHash'', enc_str keyHash)]) @
       (if slot = 0 then [] else [(''slot'', enc_word slot)]))"

definition script_GetBytesJSON :: "PolicyScript \<Rightarrow> json result" where
  "script_GetBytesJSON ps = Inr (enc_script ps)"

fun script_GetCount :: "PolicyScript \<Rightarrow> int" where
  "script_GetCount (PolicyScript ty required scripts keyHash slot) =
     (if ty = PolicyScriptSigType then 1
      else if ty = ''any'' then foldl (\<lambda>cnt x. if cnt < x then x else cnt) 0 (map script_GetCount scripts)
      else if ty = ''all'' \<or> ty = PolicyScriptAtLeastType then foldl (+) 0 (map script_GetCount scripts)
      else 0)"

section \<open>Addresses\<close>

text \<open>A policy id that decodes to fewer than \<open>KeyHashSize\<close> bytes makes the conversion panic.\<close>

definition NewPolicyScriptBaseAddress ::
  "byron_prims \<Rightarrow> CardanoNetworkType \<Rightarrow> string \<Rightarrow> string \<Rightarrow> CardanoAddress result option" where
  "NewPolicyScriptBaseAddress bp networkID policyID stakePolicyID =
     (case rbind (hex_DecodeString policyID) (\<lambda>p. rbind (hex_DecodeString stakePolicyID) (\<lambda>s. Inr (p, s))) of
        Inl e \<Rightarrow> Some (Inl e)
      | Inr (policyIDBytes, policyIDStakeBytes) \<Rightarrow>
          Option.bind (key_payload policyIDBytes True) (\<lambda>p.
          Option.bind (key_payload policyIDStakeBytes True) (\<lambda>s.
          ToCardanoAddress bp (empty_info\<lparr>cai_AddressType := BaseAddress, cai_Network := networkID,
            cai_Payment := Some p, cai_Stake := Some s\<rparr>))))"

definition NewPolicyScriptEnterpriseAddress ::
  "byron_prims \<Rightarrow> CardanoNetworkType \<Rightarrow> string \<Rightarrow> CardanoAddress result option" where
  "NewPolicyScriptEnterpriseAddress bp networkID policyID =
     (case hex_DecodeString policyID of
        Inl e \<Rightarrow> Some (Inl e)
      | Inr policyIDBytes \<Rightarrow>
          Option.bind (key_payload policyIDBytes True) (\<lambda>p.
          ToCardanoAddress bp (empty_info\<lparr>cai_AddressType := EnterpriseAddress, cai_Network := networkID,
            cai_Payment := Some p\<rparr>)))"

definition NewPolicyScriptRewardAddress ::
  "byron_prims \<Rightarrow> CardanoNetworkType \<Rightarrow> string \<Rightarrow> CardanoAddress result option" where
  "NewPolicyScriptRewardAddress bp networkID policyID =
     (case hex_DecodeString policyID of
        Inl e \<Rightarrow> Some (Inl e)
      | Inr policyIDBytes \<Rightarrow>
          Option.bind (key_payload policyIDBytes True) (\<lambda>s.
          ToCardanoAddress bp (empty_info\<lparr>cai_AddressType := RewardAddress, cai_Network := networkID,
            cai_Stake := Some s\<rparr>)))"

end
