(* ===== verification/Cli_Utils.thy ===== *)
theory Cli_Utils
  imports Wallet_Keys Policy_Script
begin

text \<open>
  The calls of \<open>cardano-cli\<close> (\<open>wallet/command_helper.go\<close>, \<open>wallet/cli_utils.go\<close>). A call works on
  the files of the machine (\<open>files\<close>), may fail, and may panic: it has the type \<open>io\<close>. What the
  machine contributes is the parameter \<open>os_env\<close>: the names of temporary directories, failures of
  writes, the run of an executable, which may write files, and the reading of a text as a JSON
  document.
\<close>

section \<open>Calls with effects\<close>

type_synonym files = "string \<Rightarrow> file_content option"

type_synonym 'a io = "files \<Rightarrow> ('a result \<times> files) option"

definition io_lift :: "'a result \<Rightarrow> 'a io" where
  "io_lift r = (\<lambda>fs. Some (r, fs))"

definition io_panic :: "'a io" where
  "io_panic = (\<lambda>fs. None)"

definition io_opt :: "'a result option \<Rightarrow> 'a io" where
  "io_opt r = (case r of None \<Rightarrow> io_panic | Some r \<Rightarrow> io_lift r)"

definition io_bind :: "'a io \<Rightarrow> ('a \<Rightarrow> 'b io) \<Rightarrow> 'b io" where
  "io_bind c k = (\<lambda>fs. case c fs of
      None \<Rightarrow> None
    | Some (Inl e, fs) \<Rightarrow> Some (Inl e, fs)
    | Some (Inr x, fs) \<Rightarrow> k x fs)"

text \<open>A call whose error is handled by the caller.\<close>

definition io_try :: "'a io \<Rightarrow> ('a result \<Rightarrow> 'b io) \<Rightarrow> 'b io" where
  "io_try c k = (\<lambda>fs. case c fs of None \<Rightarrow> None | Some (r, fs) \<Rightarrow> k r fs)"

definition io_wrap :: "string \<Rightarrow> 'a io \<Rightarrow> 'a io" where
  "io_wrap pre c = (\<lambda>fs. map_option (\<lambda>(r, fs). (case r of Inl e \<Rightarrow> Inl (ErrWrap pre e '''') | Inr x \<Rightarrow> Inr x, fs)) (c fs))"

lemma io_simps [simp, go_simps]:
  "io_bind (io_lift (Inl e)) k = io_lift (Inl e)" "io_bind (io_lift (Inr x)) k = k x"
  "io_bind io_panic k = io_panic"
  by (simp_all add: io_bind_def io_lift_def io_panic_def)

record cmd_result =
  cmd_stdout :: string
  cmd_stderr :: string
  cmd_err :: "goerror option"

record os_env =
  os_MkdirTemp :: "string \<Rightarrow> files \<Rightarrow> string result"
  os_write_err :: "string \<Rightarrow> goerror option"
  os_run :: "string \<Rightarrow> string list \<Rightarrow> files \<Rightarrow> cmd_result \<times> files"
  os_json :: "string \<Rightarrow> json option"

text \<open>\<open>filepath.Join\<close> of a clean directory and a file name.\<close>

definition path_join :: "string \<Rightarrow> string \<Rightarrow> string" where
  "path_join dir name = dir @ ''/'' @ name"

definition WriteFile :: "os_env \<Rightarrow> string \<Rightarrow> file_content \<Rightarrow> unit io" where
  "WriteFile os path content = (\<lambda>fs. case os_write_err os path of
      Some e \<Rightarrow> Some (Inl e, fs)
    | None \<Rightarrow> Some (Inr (), fs(path \<mapsto> content)))"

definition ReadFile :: "string \<Rightarrow> file_content io" where
  "ReadFile path = (\<lambda>fs. case fs path of
      None \<Rightarrow> Some (Inl (ErrMsg (''open '' @ path @ '': no such file or directory'')), fs)
    | Some c \<Rightarrow> Some (Inr c, fs))"

definition RemoveAll :: "string \<Rightarrow> files \<Rightarrow> files" where
  "RemoveAll dir fs = (\<lambda>p. if has_prefix p (dir @ ''/'') then None else fs p)"

text \<open>\<open>os.MkdirTemp\<close> followed by \<open>defer os.RemoveAll\<close>.\<close>

definition with_temp :: "os_env \<Rightarrow> string \<Rightarrow> (string \<Rightarrow> 'a io) \<Rightarrow> 'a io" where
  "with_temp os pattern body = (\<lambda>fs. case os_MkdirTemp os pattern fs of
      Inl e \<Rightarrow> Some (Inl e, fs)
    | Inr dir \<Rightarrow> map_option (\<lambda>(r, fs). (r, RemoveAll dir fs)) (body dir fs))"

text \<open>\<open>json.Unmarshal\<close> of a text.\<close>

definition unmarshal_text :: "os_env \<Rightarrow> string \<Rightarrow> (json \<Rightarrow> 'a result) \<Rightarrow> 'a result" where
  "unmarshal_text os s dec = (case os_json os s of None \<Rightarrow> Inl json_syntax_error | Some j \<Rightarrow> dec j)"

section \<open>Commands\<close>

text \<open>
  A \<open>runCommandError\<close> has the text of the standard error, or else of the error of the run; it
  does not unwrap.
\<close>

definition runCommand :: "os_env \<Rightarrow> string \<Rightarrow> string list \<Rightarrow> string io" where
  "runCommand os binary args = (\<lambda>fs.
     let (r, fs) = os_run os binary args fs in
     Some (if cmd_stderr r \<noteq> '''' then Inl (ErrMsg (cmd_stderr r))
           else case cmd_err r of Some e \<Rightarrow> Inl (ErrMsg (err_text e)) | None \<Rightarrow> Inr (cmd_stdout r), fs))"

definition ResolveCardanoCliBinary :: "(string \<Rightarrow> string) \<Rightarrow> CardanoNetworkType \<Rightarrow> string" where
  "ResolveCardanoCliBinary getenv _ =
     (let bin = getenv ''CARDANO_CLI_BINARY'' in if bin \<noteq> '''' then bin else ''cardano-cli'')"

definition getTestNetMagicArgs :: "u64 \<Rightarrow> string list" where
  "getTestNetMagicArgs testnetMagic =
     (if testnetMagic = 0 \<or> unat testnetMagic = MainNetProtocolMagic then [''--mainnet'']
      else [''--testnet-magic'', itoa64 testnetMagic])"

definition trim_nl :: "string \<Rightarrow> string" where
  "trim_nl s = trim_chars (\<lambda>c. c = CHR 0x0A) s"

text \<open>The ASCII spaces of \<open>strings.TrimSpace\<close>.\<close>

definition trim_space :: "string \<Rightarrow> string" where
  "trim_space s = trim_chars (\<lambda>c. let n = (of_char c :: nat) in 9 \<le> n \<and> n \<le> 13 \<or> n = 32) s"

section \<open>Files with documents\<close>

text \<open>An \<open>ISerializable\<close> is what its \<open>GetBytesJSON\<close> returns.\<close>

type_synonym ISerializable = "json result"

definition writeSerializableToFile :: "os_env \<Rightarrow> ISerializable \<Rightarrow> string \<Rightarrow> string \<Rightarrow> string io" where
  "writeSerializableToFile os ps baseDirectory fileName =
     io_bind (io_wrap ''failed to marshal policy script: '' (io_lift ps)) (\<lambda>doc.
     let fullFilePath = path_join baseDirectory fileName in
     io_bind (io_wrap ''failed to save policy script: '' (WriteFile os fullFilePath (FileJson doc))) (\<lambda>_.
     io_lift (Inr fullFilePath)))"

record Certificate =
  cert_Type :: string
  cert_Description :: string
  cert_CborHex :: string

definition enc_cert :: "Certificate \<Rightarrow> json" where
  "enc_cert c = JObj [(''type'', enc_str (cert_Type c)), (''description'', enc_str (cert_Description c)),
     (''cborHex'', enc_str (cert_CborHex c))]"

definition cert_GetBytesJSON :: "Certificate \<Rightarrow> json result" where
  "cert_GetBytesJSON c = Inr (enc_cert c)"

definition dec_cert :: "json \<Rightarrow> Certificate result" where
  "dec_cert j =
     rbind (dec_obj j) (\<lambda>fs.
     rbind (dec_str (json_member fs ''type'')) (\<lambda>t.
     rbind (dec_str (json_member fs ''description'')) (\<lambda>d.
     rbind (dec_str (json_member fs ''cborHex'')) (\<lambda>h.
     Inr \<lparr>cert_Type = t, cert_Description = d, cert_CborHex = h\<rparr>))))"

section \<open>CliUtils\<close>

record CliUtils =
  cu_cardanoCliBinary :: string
  cu_era :: string

definition NewCliUtilsForEra :: "string \<Rightarrow> string \<Rightarrow> CliUtils" where
  "NewCliUtilsForEra binary era = \<lparr>cu_cardanoCliBinary = binary, cu_era = era\<rparr>"

definition NewCliUtils :: "string \<Rightarrow> CliUtils" where
  "NewCliUtils binary = NewCliUtilsForEra binary ''latest''"

definition cli_GetPolicyScriptBaseAddress :: "os_env \<Rightarrow> CliUtils \<Rightarrow> u64 \<Rightarrow> ISerializable \<Rightarrow> ISerializable \<Rightarrow> string io" where
  "cli_GetPolicyScriptBaseAddress os cu testNetMagic policyScript stakePolicyScript =
     with_temp os ''ps-multisig-addr'' (\<lambda>baseDirectory.
       io_bind (writeSerializableToFile os policyScript baseDirectory ''ps.json'') (\<lambda>policyScriptFilePath.
       io_bind (writeSerializableToFile os stakePolicyScript baseDirectory ''stake-ps.json'') (\<lambda>stakePolicyScriptFilePath.
       io_bind (runCommand os (cu_cardanoCliBinary cu)
         ([cu_era cu, ''address'', ''build'', ''--payment-script-file'', policyScriptFilePath,
           ''--stake-script-file'', stakePolicyScriptFilePath] @ getTestNetMagicArgs testNetMagic)) (\<lambda>response.
       io_lift (Inr (trim_nl response))))))"

definition cli_GetPolicyScriptEnterpriseAddress :: "os_env \<Rightarrow> CliUtils \<Rightarrow> u64 \<Rightarrow> ISerializable \<Rightarrow> string io" where
  "cli_GetPolicyScriptEnterpriseAddress os cu testNetMagic policyScript =
     with_temp os ''ps-multisig-addr'' (\<lambda>baseDirectory.
       io_bind (writeSerializableToFile os policyScript baseDirectory ''ps.json'') (\<lambda>policyScriptFilePath.
       io_bind (runCommand os (cu_cardanoCliBinary cu)
         ([cu_era cu, ''address'', ''build'', ''--payment-script-file'', policyScriptFilePath] @
           getTestNetMagicArgs testNetMagic)) (\<lambda>response.
       io_lift (Inr (trim_nl response)))))"

definition cli_GetPolicyScriptRewardAddress :: "os_env \<Rightarrow> CliUtils \<Rightarrow> u64 \<Rightarrow> ISerializable \<Rightarrow> string io" where
  "cli_GetPolicyScriptRewardAddress os cu testNetMagic policyScript =
     with_temp os ''ps-reward-multisig-addr'' (\<lambda>baseDirectory.
       io_bind (writeSerializableToFile os policyScript baseDirectory ''ps.json'') (\<lambda>policyScriptFilePath.
       io_bind (runCommand os (cu_cardanoCliBinary cu)
         ([cu_era cu, ''stake-address'', ''build'', ''--stake-script-file'', policyScriptFilePath] @
           getTestNetMagicArgs testNetMagic)) (\<lambda>response.
       io_lift (Inr (trim_nl response)))))"

definition cli_GetPolicyID :: "os_env \<Rightarrow> CliUtils \<Rightarrow> ISerializable \<Rightarrow> string io" where
  "cli_GetPolicyID os cu policyScript =
     with_temp os ''ps-policy-id'' (\<lambda>baseDirectory.
       io_bind (writeSerializableToFile os policyScript baseDirectory ''policy-script.json'') (\<lambda>policyScriptFilePath.
       io_bind (runCommand os (cu_cardanoCliBinary cu)
         [cu_era cu, ''transaction'', ''policyid'', ''--script-file'', policyScriptFilePath]) (\<lambda>response.
       io_lift (Inr (trim_nl response)))))"

record AddressInfo =
  ai_Address :: string
  ai_Base16 :: string
  ai_Encoding :: string
  ai_Era :: string
  ai_Type :: string

definition dec_address_info :: "json \<Rightarrow> AddressInfo result" where
  "dec_address_info j =
     rbind (dec_obj j) (\<lambda>fs.
     rbind (dec_str (json_member fs ''address'')) (\<lambda>a.
     rbind (dec_str (json_member fs ''base16'')) (\<lambda>b.
     rbind (dec_str (json_member fs ''encoding'')) (\<lambda>c.
     rbind (dec_str (json_member fs ''era'')) (\<lambda>d.
     rbind (dec_str (json_member fs ''type'')) (\<lambda>e.
     Inr \<lparr>ai_Address = a, ai_Base16 = b, ai_Encoding = c, ai_Era = d, ai_Type = e\<rparr>))))))"

definition cli_GetAddressInfo :: "os_env \<Rightarrow> CliUtils \<Rightarrow> string \<Rightarrow> AddressInfo io" where
  "cli_GetAddressInfo os cu address =
     io_try (runCommand os (cu_cardanoCliBinary cu) [cu_era cu, ''address'', ''info'', ''--address'', address]) (\<lambda>r.
       case r of
         Inl err \<Rightarrow> io_lift (Inl (ErrJoin [ErrInvalidAddressData, err]))
       | Inr res \<Rightarrow> io_lift (case unmarshal_text os (trim_nl res) dec_address_info of
           Inl err \<Rightarrow> Inl (ErrJoin [ErrInvalidAddressData, err])
         | Inr ai \<Rightarrow> Inr ai))"

definition getBech32Key :: "bytes \<Rightarrow> string \<Rightarrow> string result option" where
  "getBech32Key key prefix =
     (case ConvertBits key 8 5 True of
        None \<Rightarrow> None
      | Some (Inl e) \<Rightarrow> Some (Inl (ErrWrap ''error converting bits: '' (ErrMsg (bech32_err_text e)) ''''))
      | Some (Inr converted) \<Rightarrow>
          (case Encode prefix converted of
             Inl e \<Rightarrow> Some (Inl (ErrWrap ''error encoding to Bech32: '' (ErrMsg (bech32_err_text e)) ''''))
           | Inr s \<Rightarrow> Some (Inr s)))"

text \<open>The results of the last command are returned together with its error.\<close>

definition cli_GetWalletAddress :: "os_env \<Rightarrow> CliUtils \<Rightarrow> bytes \<Rightarrow> bytes \<Rightarrow> u64 \<Rightarrow> (string \<times> string) io" where
  "cli_GetWalletAddress os cu verificationKey stakeVerificationKey testNetMagic =
     io_bind (io_opt (getBech32Key verificationKey ''addr_vk'')) (\<lambda>bech32String.
     if length stakeVerificationKey = 0
     then io_bind (runCommand os (cu_cardanoCliBinary cu)
         ([cu_era cu, ''address'', ''build'', ''--payment-verification-key'', bech32String] @
           getTestNetMagicArgs testNetMagic)) (\<lambda>addr.
       io_lift (Inr (trim_nl addr, '''')))
     else
       io_bind (io_opt (getBech32Key stakeVerificationKey ''stake_vk'')) (\<lambda>bech32StakeString.
       io_bind (runCommand os (cu_cardanoCliBinary cu)
         ([cu_era cu, ''address'', ''build'', ''--payment-verification-key'', bech32String,
           ''--stake-verification-key'', bech32StakeString] @ getTestNetMagicArgs testNetMagic)) (\<lambda>addr.
       io_bind (runCommand os (cu_cardanoCliBinary cu)
         ([cu_era cu, ''stake-address'', ''build'', ''--stake-verification-key'', bech32StakeString] @
           getTestNetMagicArgs testNetMagic)) (\<lambda>stakeAddr.
       io_lift (Inr (trim_nl addr, trim_nl stakeAddr))))))"

definition cli_GetKeyHash :: "os_env \<Rightarrow> CliUtils \<Rightarrow> bytes \<Rightarrow> string io" where
  "cli_GetKeyHash os cu key =
     io_bind (io_opt (getBech32Key key ''addr_vk'')) (\<lambda>bech32String.
     io_bind (runCommand os (cu_cardanoCliBinary cu)
       [cu_era cu, ''address'', ''key-hash'', ''--payment-verification-key'', bech32String]) (\<lambda>resultKeyHash.
     io_lift (Inr (trim_nl resultKeyHash))))"

text \<open>The regular expression \<open>Latest era commands \(([^)]+)\)\<close>: its first match.\<close>

fun find_era :: "string \<Rightarrow> string option" where
  "find_era [] = None"
| "find_era (c # s) =
     (let pre = ''Latest era commands ('';
          rest = drop (length pre) (c # s);
          body = takeWhile (\<lambda>x. x \<noteq> CHR '')'') rest
      in if has_prefix (c # s) pre \<and> body \<noteq> [] \<and> length body < length rest then Some body else find_era s)"

definition upper_char :: "char \<Rightarrow> char" where
  "upper_char c = (let n = of_char c :: nat in if 97 \<le> n \<and> n \<le> 122 then char_of (n - 32) else c)"

text \<open>\<open>cu.era[:1]\<close> panics on the empty era.\<close>

definition cli_GetRealEraName :: "os_env \<Rightarrow> CliUtils \<Rightarrow> string io" where
  "cli_GetRealEraName os cu =
     (if to_lower (cu_era cu) \<noteq> ''latest''
      then (case cu_era cu of [] \<Rightarrow> io_panic | c # cs \<Rightarrow> io_lift (Inr (upper_char c # cs)))
      else io_bind (runCommand os (cu_cardanoCliBinary cu) [''--help'']) (\<lambda>lst.
        io_lift (case find_era lst of Some m \<Rightarrow> Inr m | None \<Rightarrow> Inl (ErrMsg ''unknown era''))))"

definition dec_txhash :: "json \<Rightarrow> string result" where
  "dec_txhash j = rbind (dec_obj j) (\<lambda>fs. dec_str (json_member fs ''txhash''))"

definition cli_getTxHash :: "os_env \<Rightarrow> CliUtils \<Rightarrow> bytes \<Rightarrow> string \<Rightarrow> string \<Rightarrow> string io" where
  "cli_getTxHash os cu txRaw baseDirectory eraName =
     (let txFilePath = path_join baseDirectory ''tx.tmp'' in
      io_bind (WriteFile os txFilePath (FileJson (unwitnessed_ToJSON txRaw eraName))) (\<lambda>_.
      io_bind (runCommand os (cu_cardanoCliBinary cu)
        [cu_era cu, ''transaction'', ''txid'', ''--tx-body-file'', txFilePath]) (\<lambda>res.
      io_lift (Inr (case unmarshal_text os res dec_txhash of Inr h \<Rightarrow> h | Inl _ \<Rightarrow> trim_space res)))))"

definition cli_GetTxHash :: "os_env \<Rightarrow> CliUtils \<Rightarrow> bytes \<Rightarrow> string io" where
  "cli_GetTxHash os cu txRaw =
     with_temp os ''tx-hash-retriever'' (\<lambda>baseDirectory.
       io_bind (cli_GetRealEraName os cu) (\<lambda>realEraName. cli_getTxHash os cu txRaw baseDirectory realEraName))"

text \<open>The reading of a certificate file; a \<open>null\<close> document leaves the pointer nil, the zero value here.\<close>

definition read_certificate :: "string \<Rightarrow> Certificate io" where
  "read_certificate certFilePath =
     io_bind (io_wrap ''failed to read certificate: '' (ReadFile certFilePath)) (\<lambda>f.
     io_wrap ''failed to unmarshal certificate: '' (io_lift (rbind (json_of_file f) dec_cert)))"

definition cli_CreateRegistrationCertificate :: "os_env \<Rightarrow> CliUtils \<Rightarrow> string \<Rightarrow> u64 \<Rightarrow> Certificate io" where
  "cli_CreateRegistrationCertificate os cu stakeAddress keyRegDepositAmount =
     with_temp os ''registration-cert'' (\<lambda>baseDirectory.
       let certFilePath = path_join baseDirectory ''registration.cert'' in
       io_bind (io_wrap ''failed to register certificate: '' (runCommand os (cu_cardanoCliBinary cu)
         [cu_era cu, ''stake-address'', ''registration-certificate'', ''--stake-address'', stakeAddress,
          ''--key-reg-deposit-amt'', itoa64 keyRegDepositAmount, ''--out-file'', certFilePath])) (\<lambda>_.
       read_certificate certFilePath))"

definition cli_CreateDelegationCertificate :: "os_env \<Rightarrow> CliUtils \<Rightarrow> string \<Rightarrow> string \<Rightarrow> Certificate io" where
  "cli_CreateDelegationCertificate os cu stakeAddress poolID =
     with_temp os ''delegation-cert'' (\<lambda>baseDirectory.
       let certFilePath = path_join baseDirectory ''delegation.cert'';
           args = [cu_era cu, ''stake-address'', ''delegation-certificate'', ''--stake-address'', stakeAddress,
             ''--stake-pool-id'', poolID, ''--out-file'', certFilePath] in
       io_bind (io_try (runCommand os (cu_cardanoCliBinary cu) args) (\<lambda>r. case r of
           Inr s \<Rightarrow> io_lift (Inr s)
         | Inl _ \<Rightarrow> io_wrap ''failed to delegate certificate: ''
             (runCommand os (cu_cardanoCliBinary cu) (args[2 := ''stake-delegation-certificate''])))) (\<lambda>_.
       read_certificate certFilePath))"

end
