(* ===== verification/Wallet_Data.thy ===== *)
theory Wallet_Data
  imports Go_Lib
begin

text \<open>
  Tokens, unspent outputs and sums of amounts (\<open>wallet/data.go\<close>, \<open>wallet/utils.go\<close>, the
  helpers of \<open>wallet/transaction_extended.go\<close> on sums). A \<open>map[string]uint64\<close> is a HOL map;
  a \<open>range\<close> over it visits the keys in an order that is not specified, so every function that
  ranges over a map takes the order as a parameter: \<open>rng n m\<close> lists the keys of \<open>m\<close> in the
  order of the \<open>n\<close>-th range statement of the call (\<open>range_ok\<close>). Amounts are 64-bit words, and
  their sums wrap around.
\<close>

section \<open>Sums and ranges\<close>

type_synonym sums = "string \<Rightarrow> u64 option"
type_synonym ranges = "nat \<Rightarrow> sums \<Rightarrow> string list"

definition range_ok :: "ranges \<Rightarrow> bool" where
  "range_ok rng \<longleftrightarrow> (\<forall>n m. finite (dom m) \<longrightarrow> distinct (rng n m) \<and> set (rng n m) = dom m)"

text \<open>Reading a missing key gives zero; \<open>m[k] += v\<close> and \<open>m[k] -= v\<close>.\<close>

definition sum_get :: "sums \<Rightarrow> string \<Rightarrow> u64" where
  "sum_get m k = (case m k of None \<Rightarrow> 0 | Some v \<Rightarrow> v)"

definition sum_add :: "sums \<Rightarrow> string \<Rightarrow> u64 \<Rightarrow> sums" where
  "sum_add m k v = m(k \<mapsto> sum_get m k + v)"

definition sum_sub :: "sums \<Rightarrow> string \<Rightarrow> u64 \<Rightarrow> sums" where
  "sum_sub m k v = m(k \<mapsto> sum_get m k - v)"

lemma sum_get_empty [simp]: "sum_get Map.empty k = 0"
  by (simp add: sum_get_def)

lemma sum_get_upd [simp]: "sum_get (m(k \<mapsto> v)) j = (if j = k then v else sum_get m j)"
  by (simp add: sum_get_def)

lemma sum_get_add [simp]: "sum_get (sum_add m k v) j = sum_get m j + (if j = k then v else 0)"
  by (simp add: sum_add_def)

lemma sum_get_sub [simp]: "sum_get (sum_sub m k v) j = sum_get m j - (if j = k then v else 0)"
  by (simp add: sum_sub_def)

lemma dom_sum_add [simp]: "dom (sum_add m k v) = insert k (dom m)" "dom (sum_sub m k v) = insert k (dom m)"
  by (auto simp: sum_add_def sum_sub_def)

section \<open>Tokens\<close>

definition AdaTokenPolicyID :: string where "AdaTokenPolicyID = ''ada''"
definition AdaTokenName :: string where "AdaTokenName = ''lovelace''"
definition DefaultEra :: string where "DefaultEra = ''latest''"

record Token =
  tk_PolicyID :: string
  tk_Name :: string

definition NewToken :: "string \<Rightarrow> string \<Rightarrow> Token" where
  "NewToken policyID name = \<lparr>tk_PolicyID = policyID, tk_Name = name\<rparr>"

definition full_name_error :: "string \<Rightarrow> goerror" where
  "full_name_error name = ErrMsg (''invalid full token name: '' @ name)"

definition NewTokenWithFullName :: "string \<Rightarrow> bool \<Rightarrow> Token result" where
  "NewTokenWithFullName name isNameEncoded =
     (let parts = split_on (CHR ''.'') name in
      if length parts \<noteq> 2 then Inl (full_name_error name)
      else if \<not> isNameEncoded then Inr \<lparr>tk_PolicyID = parts ! 0, tk_Name = parts ! 1\<rparr>
      else case hex_DecodeString (parts ! 1) of
        Inl _ \<Rightarrow> Inl (full_name_error name)
      | Inr decodedName \<Rightarrow> Inr \<lparr>tk_PolicyID = parts ! 0, tk_Name = bytes_str decodedName\<rparr>)"

definition NewTokenWithFullNameTry :: "string \<Rightarrow> Token result" where
  "NewTokenWithFullNameTry name =
     (case NewTokenWithFullName name True of
        Inr token \<Rightarrow> Inr token
      | Inl _ \<Rightarrow> (case NewTokenWithFullName name False of
          Inr token \<Rightarrow> Inr token
        | Inl err \<Rightarrow> Inl err))"

definition Token_String :: "Token \<Rightarrow> string" where
  "Token_String tt = tk_PolicyID tt @ ''.'' @ hex_encode (str_bytes (tk_Name tt))"

record TokenAmount =
  ta_Token :: Token
  ta_Amount :: u64

definition NewTokenAmount :: "Token \<Rightarrow> u64 \<Rightarrow> TokenAmount" where
  "NewTokenAmount token amount = \<lparr>ta_Token = token, ta_Amount = amount\<rparr>"

definition TokenName :: "TokenAmount \<Rightarrow> string" where
  "TokenName tt = tk_PolicyID (ta_Token tt) @ ''.'' @ hex_encode (str_bytes (tk_Name (ta_Token tt)))"

definition TokenAmount_String :: "TokenAmount \<Rightarrow> string" where
  "TokenAmount_String tt =
     itoa64 (ta_Amount tt) @ '' '' @ tk_PolicyID (ta_Token tt) @ ''.'' @ hex_encode (str_bytes (tk_Name (ta_Token tt)))"

record Utxo =
  ut_Hash :: string
  ut_Index :: u32
  ut_Amount :: u64
  ut_Tokens :: "TokenAmount list"

fun first_token_amount :: "TokenAmount list \<Rightarrow> string \<Rightarrow> u64" where
  "first_token_amount [] tokenName = 0"
| "first_token_amount (token # tokens) tokenName =
     (if TokenName token = tokenName then ta_Amount token else first_token_amount tokens tokenName)"

definition GetTokenAmount :: "Utxo \<Rightarrow> string \<Rightarrow> u64" where
  "GetTokenAmount utxo tokenName =
     (if tokenName = AdaTokenName then ut_Amount utxo else first_token_amount (ut_Tokens utxo) tokenName)"

definition GetTokenAmountFromUtxo :: "Utxo \<Rightarrow> string \<Rightarrow> u64" where
  "GetTokenAmountFromUtxo utxo tokenName =
     (if tokenName = AdaTokenName then ut_Amount utxo else first_token_amount (ut_Tokens utxo) tokenName)"

record TxInput =
  ti_Hash :: string
  ti_Index :: u32

definition TxInput_String :: "TxInput \<Rightarrow> string" where
  "TxInput_String i = ti_Hash i @ ''#'' @ itoa (unat (ti_Index i))"

definition NewTxInput :: "string \<Rightarrow> u32 \<Rightarrow> TxInput" where
  "NewTxInput hash index = \<lparr>ti_Hash = hash, ti_Index = index\<rparr>"

record TxOutput =
  to_Addr :: string
  to_Amount :: u64
  to_Tokens :: "TokenAmount list"

definition NewTxOutput :: "string \<Rightarrow> u64 \<Rightarrow> TokenAmount list \<Rightarrow> TxOutput" where
  "NewTxOutput addr amount tokens = \<lparr>to_Addr = addr, to_Amount = amount, to_Tokens = tokens\<rparr>"

definition TxOutput_String :: "TxOutput \<Rightarrow> string" where
  "TxOutput_String o' = to_Addr o' @ ''+'' @ itoa64 (to_Amount o') @
     concat (map (\<lambda>token. ''+'' @ TokenAmount_String token) (to_Tokens o'))"

record QueryTipData =
  qt_Block :: u64
  qt_Epoch :: u64
  qt_Era :: string
  qt_Hash :: string
  qt_Slot :: u64
  qt_SlotInEpoch :: u64
  qt_SlotsToEpochEnd :: u64
  qt_SyncProgress :: string

section \<open>Sums\<close>

definition add_tokens :: "sums \<Rightarrow> TokenAmount list \<Rightarrow> sums" where
  "add_tokens m tokens = foldl (\<lambda>m token. sum_add m (TokenName token) (ta_Amount token)) m tokens"

definition sub_tokens :: "sums \<Rightarrow> TokenAmount list \<Rightarrow> sums" where
  "sub_tokens m tokens = foldl (\<lambda>m token. sum_sub m (TokenName token) (ta_Amount token)) m tokens"

definition add_utxo :: "sums \<Rightarrow> Utxo \<Rightarrow> sums" where
  "add_utxo m utxo = add_tokens (sum_add m AdaTokenName (ut_Amount utxo)) (ut_Tokens utxo)"

definition sub_utxo :: "sums \<Rightarrow> Utxo \<Rightarrow> sums" where
  "sub_utxo m utxo = sub_tokens (sum_sub m AdaTokenName (ut_Amount utxo)) (ut_Tokens utxo)"

definition GetUtxosSum :: "Utxo list \<Rightarrow> sums" where
  "GetUtxosSum utxos = foldl add_utxo Map.empty utxos"

definition GetOutputsSum :: "TxOutput list \<Rightarrow> sums" where
  "GetOutputsSum outputs =
     foldl (\<lambda>m output. add_tokens (sum_add m AdaTokenName (to_Amount output)) (to_Tokens output)) Map.empty outputs"

text \<open>\<open>GetUtxos\<close> is the answer of the retriever.\<close>

definition IsTxInUtxos :: "Utxo list result \<Rightarrow> string \<Rightarrow> bool result" where
  "IsTxInUtxos GetUtxos txHash = rbind GetUtxos (\<lambda>utxos. Inr (\<exists>x \<in> set utxos. ut_Hash x = txHash))"

fun tokens_loop :: "sums \<Rightarrow> string list \<Rightarrow> string list \<Rightarrow> TokenAmount list result" where
  "tokens_loop sm skipTokenNames [] = Inr []"
| "tokens_loop sm skipTokenNames (tokenName # ks) =
     (if tokenName = AdaTokenName \<or> tokenName \<in> set skipTokenNames then tokens_loop sm skipTokenNames ks
      else
        rbind (case NewTokenWithFullName tokenName True of
                 Inr token \<Rightarrow> Inr token
               | Inl _ \<Rightarrow> NewTokenWithFullName tokenName False) (\<lambda>token.
        rbind (tokens_loop sm skipTokenNames ks) (\<lambda>tokens.
        Inr (NewTokenAmount token (sum_get sm tokenName) # tokens))))"

text \<open>\<open>make\<close> with the capacity \<open>len(sum)-1\<close> panics on the empty map (\<open>None\<close>).\<close>

definition GetTokensFromSumMap :: "ranges \<Rightarrow> sums \<Rightarrow> string list \<Rightarrow> TokenAmount list result option" where
  "GetTokensFromSumMap rng sm skipTokenNames =
     (if rng 0 sm = [] then None
      else Some (rbind (tokens_loop sm skipTokenNames (rng 0 sm)) (\<lambda>tokens.
        Inr (sort_slice (\<lambda>a b. TokenName a < TokenName b) tokens))))"

text \<open>The result of these two is the first map, updated.\<close>

definition SubtractSumMaps :: "ranges \<Rightarrow> sums \<Rightarrow> sums \<Rightarrow> sums" where
  "SubtractSumMaps rng a b =
     foldl (\<lambda>m tokenName. case b tokenName of
         None \<Rightarrow> m
       | Some tokenAmountToSubtract \<Rightarrow>
           if sum_get m tokenName > tokenAmountToSubtract
           then m(tokenName \<mapsto> sum_get m tokenName - tokenAmountToSubtract)
           else m(tokenName := None)) a (rng 0 a)"

definition AddSumMaps :: "ranges \<Rightarrow> sums \<Rightarrow> sums \<Rightarrow> sums" where
  "AddSumMaps rng a b = foldl (\<lambda>m tokenName. sum_add m tokenName (sum_get b tokenName)) a (rng 0 b)"

definition GetTokensSumMap :: "TokenAmount list \<Rightarrow> sums" where
  "GetTokensSumMap tokens = add_tokens Map.empty tokens"

section \<open>Change\<close>

fun change_tokens :: "TokenAmount list \<Rightarrow> sums \<Rightarrow> sums \<Rightarrow> string list \<Rightarrow> TokenAmount list result" where
  "change_tokens baseTokens totalSum outputsSum [] = Inr []"
| "change_tokens baseTokens totalSum outputsSum (tokenName # ks) =
     (if tokenName = AdaTokenName then change_tokens baseTokens totalSum outputsSum ks
      else
        let outputTokenAmount = sum_get outputsSum tokenName;
            totalTokenAmount = sum_get totalSum tokenName + first_token_amount baseTokens tokenName
        in if totalTokenAmount < outputTokenAmount
           then Inl (ErrMsg (''invalid token amount: has = '' @ itoa64 totalTokenAmount @ '', required = '' @ itoa64 outputTokenAmount))
           else
             let changeTokenAmount = totalTokenAmount - outputTokenAmount
             in if changeTokenAmount > 0
                then rbind (NewTokenWithFullName tokenName True) (\<lambda>newToken.
                     rbind (change_tokens baseTokens totalSum outputsSum ks) (\<lambda>tokens.
                     Inr (NewTokenAmount newToken changeTokenAmount # tokens)))
                else change_tokens baseTokens totalSum outputsSum ks)"

definition CreateTxOutputChange :: "ranges \<Rightarrow> TxOutput \<Rightarrow> sums \<Rightarrow> sums \<Rightarrow> TxOutput result" where
  "CreateTxOutputChange rng baseTxOutput totalSum outputsSum =
     (let totalAmount = to_Amount baseTxOutput + sum_get totalSum AdaTokenName;
          outputAmount = sum_get outputsSum AdaTokenName
      in if totalAmount < outputAmount
         then Inl (ErrMsg (''invalid amount: has = '' @ itoa64 totalAmount @ '', required = '' @ itoa64 outputAmount))
         else
           let changeAmount = totalAmount - outputAmount
           in rbind (change_tokens (to_Tokens baseTxOutput) totalSum outputsSum (rng 0 totalSum)) (\<lambda>changeTokens.
              Inr \<lparr>to_Addr = to_Addr baseTxOutput, to_Amount = changeAmount, to_Tokens = changeTokens\<rparr>))"

section \<open>Facts about sums\<close>

definition token_sum :: "TokenAmount list \<Rightarrow> string \<Rightarrow> u64" where
  "token_sum tokens t = (\<Sum>tok \<leftarrow> tokens. if TokenName tok = t then ta_Amount tok else 0)"

definition amount_of :: "Utxo \<Rightarrow> string \<Rightarrow> u64" where
  "amount_of u t = (if t = AdaTokenName then ut_Amount u else 0) + token_sum (ut_Tokens u) t"

definition amounts :: "Utxo list \<Rightarrow> string \<Rightarrow> u64" where
  "amounts us t = (\<Sum>u \<leftarrow> us. amount_of u t)"

lemma token_sum_simps [simp]:
  "token_sum [] t = 0" "token_sum (tok # toks) t = (if TokenName tok = t then ta_Amount tok else 0) + token_sum toks t"
  by (simp_all add: token_sum_def)

lemma sum_get_add_tokens [simp]: "sum_get (add_tokens m toks) t = sum_get m t + token_sum toks t"
  by (induction toks arbitrary: m) (auto simp: add_tokens_def algebra_simps)

lemma sum_get_sub_tokens [simp]: "sum_get (sub_tokens m toks) t = sum_get m t - token_sum toks t"
  by (induction toks arbitrary: m) (auto simp: sub_tokens_def algebra_simps)

lemma sum_get_add_utxo [simp]: "sum_get (add_utxo m u) t = sum_get m t + amount_of u t"
  by (simp add: add_utxo_def amount_of_def algebra_simps)

lemma sum_get_sub_utxo [simp]: "sum_get (sub_utxo m u) t = sum_get m t - amount_of u t"
  by (simp add: sub_utxo_def amount_of_def algebra_simps)

lemma amounts_simps [simp]:
  "amounts [] t = 0" "amounts (u # us) t = amount_of u t + amounts us t"
  "amounts (us @ vs) t = amounts us t + amounts vs t"
  by (simp_all add: amounts_def)

lemma sum_get_foldl_utxo: "sum_get (foldl add_utxo m us) t = sum_get m t + amounts us t"
  by (induction us arbitrary: m) (simp_all add: algebra_simps)

lemma sum_get_GetUtxosSum: "sum_get (GetUtxosSum us) t = amounts us t"
  by (simp add: GetUtxosSum_def sum_get_foldl_utxo)

lemma amounts_mset: "mset us = mset vs \<Longrightarrow> amounts us t = amounts vs t"
  unfolding amounts_def by (metis mset_map sum_mset_sum_list)

lemma dom_add_tokens [simp]: "dom (add_tokens m toks) = dom m \<union> TokenName ` set toks"
  by (induction toks arbitrary: m) (auto simp: add_tokens_def)

lemma dom_add_utxo [simp]: "dom (add_utxo m u) = insert AdaTokenName (dom m) \<union> TokenName ` set (ut_Tokens u)"
  by (auto simp: add_utxo_def)

lemma dom_sub_tokens [simp]: "dom (sub_tokens m toks) = dom m \<union> TokenName ` set toks"
  by (induction toks arbitrary: m) (auto simp: sub_tokens_def)

lemma dom_sub_utxo [simp]: "dom (sub_utxo m u) = insert AdaTokenName (dom m) \<union> TokenName ` set (ut_Tokens u)"
  by (auto simp: sub_utxo_def)

end
