(* ===== verification/Tx_Builder.thy ===== *)
theory Tx_Builder
  imports Cli_Utils Wallet_Data
begin

text \<open>
  The transaction builder (\<open>wallet/transaction.go\<close>), which collects the parts of a transaction and
  has \<open>cardano-cli\<close> build, hash, sign and assemble it through files of its directory. An
  \<open>IPolicyScript\<close> is the identity of the pointer the code holds, together with what its two
  methods return; a nil interface is \<open>None\<close>.
\<close>

record IPolicyScript =
  isc_ref :: nat
  isc_GetBytesJSON :: "json result"
  isc_GetCount :: int

record txWithdrawalDataPolicyScript =
  wd_stakeAddress :: string
  wd_rewardAmount :: u64
  wd_policyScript :: "IPolicyScript option"

record txTokenMintInputs =
  mt_tokens :: "TokenAmount list"
  mt_policyScripts :: "IPolicyScript option list"

record txInputWithPolicyScript =
  ip_txInput :: TxInput
  ip_policyScript :: "IPolicyScript option"

record txCertificateWithPolicyScript =
  cp_certificate :: "ISerializable option"
  cp_policyScript :: "IPolicyScript option"

record TxBuilder =
  tb_baseDirectory :: string
  tb_inputs :: "txInputWithPolicyScript list"
  tb_outputs :: "TxOutput list"
  tb_mints :: txTokenMintInputs
  tb_certificates :: "txCertificateWithPolicyScript list"
  tb_metadata :: "bytes option"
  tb_protocolParameters :: "bytes option"
  tb_timeToLive :: u64
  tb_testNetMagic :: u64
  tb_fee :: u64
  tb_withdrawalData :: txWithdrawalDataPolicyScript
  tb_era :: string
  tb_realEraName :: string
  tb_cardanoCliBinary :: string

definition draftTxFile :: string where "draftTxFile = ''tx.draft''"

section \<open>Construction and setters\<close>

definition NewTxBuilderForEra :: "os_env \<Rightarrow> string \<Rightarrow> string \<Rightarrow> TxBuilder io" where
  "NewTxBuilderForEra os cardanoCliBinary era = (\<lambda>fs. case os_MkdirTemp os ''cardano-txs'' fs of
      Inl e \<Rightarrow> Some (Inl e, fs)
    | Inr baseDirectory \<Rightarrow>
        io_bind (cli_GetRealEraName os (NewCliUtilsForEra cardanoCliBinary era)) (\<lambda>realEraName.
        io_lift (Inr \<lparr>tb_baseDirectory = baseDirectory, tb_inputs = [], tb_outputs = [],
          tb_mints = \<lparr>mt_tokens = [], mt_policyScripts = []\<rparr>, tb_certificates = [], tb_metadata = None,
          tb_protocolParameters = None, tb_timeToLive = 0, tb_testNetMagic = 0, tb_fee = 0,
          tb_withdrawalData = \<lparr>wd_stakeAddress = '''', wd_rewardAmount = 0, wd_policyScript = None\<rparr>,
          tb_era = era, tb_realEraName = realEraName, tb_cardanoCliBinary = cardanoCliBinary\<rparr>)) fs)"

definition NewTxBuilder :: "os_env \<Rightarrow> string \<Rightarrow> TxBuilder io" where
  "NewTxBuilder os cardanoCliBinary = NewTxBuilderForEra os cardanoCliBinary DefaultEra"

definition Dispose :: "TxBuilder \<Rightarrow> files \<Rightarrow> files" where
  "Dispose b fs = RemoveAll (tb_baseDirectory b) fs"

definition SetTestNetMagic :: "u64 \<Rightarrow> TxBuilder \<Rightarrow> TxBuilder" where
  "SetTestNetMagic testNetMagic b = b\<lparr>tb_testNetMagic := testNetMagic\<rparr>"

definition SetFee :: "u64 \<Rightarrow> TxBuilder \<Rightarrow> TxBuilder" where
  "SetFee fee b = b\<lparr>tb_fee := fee\<rparr>"

definition AddInputsWithScript :: "IPolicyScript option \<Rightarrow> TxInput list \<Rightarrow> TxBuilder \<Rightarrow> TxBuilder" where
  "AddInputsWithScript script inputs b =
     b\<lparr>tb_inputs := tb_inputs b @ map (\<lambda>inp. \<lparr>ip_txInput = inp, ip_policyScript = script\<rparr>) inputs\<rparr>"

definition AddInputsWithScripts :: "TxInput list \<Rightarrow> IPolicyScript option list \<Rightarrow> TxBuilder \<Rightarrow> TxBuilder" where
  "AddInputsWithScripts inputs scripts b =
     (let cnt = (if length inputs > length scripts then length scripts else length inputs) in
      b\<lparr>tb_inputs := tb_inputs b @
        map (\<lambda>i. \<lparr>ip_txInput = inputs ! i, ip_policyScript = scripts ! i\<rparr>) [0..<cnt]\<rparr>)"

definition AddInputs :: "TxInput list \<Rightarrow> TxBuilder \<Rightarrow> TxBuilder" where
  "AddInputs inputs b =
     b\<lparr>tb_inputs := tb_inputs b @ map (\<lambda>inp. \<lparr>ip_txInput = inp, ip_policyScript = None\<rparr>) inputs\<rparr>"

definition AddOutputs :: "TxOutput list \<Rightarrow> TxBuilder \<Rightarrow> TxBuilder" where
  "AddOutputs outputs b = b\<lparr>tb_outputs := tb_outputs b @ outputs\<rparr>"

text \<open>A negative index counts from the end; an index out of range panics.\<close>

definition out_index :: "TxBuilder \<Rightarrow> int \<Rightarrow> int" where
  "out_index b index = (if index < 0 then int (length (tb_outputs b)) + index else index)"

definition ReplaceOutput :: "int \<Rightarrow> TxOutput \<Rightarrow> TxBuilder \<Rightarrow> TxBuilder option" where
  "ReplaceOutput index output b =
     Option.bind (go_upd (tb_outputs b) (out_index b index) output) (\<lambda>outs. Some (b\<lparr>tb_outputs := outs\<rparr>))"

fun update_token_amounts :: "TokenAmount list \<Rightarrow> u64 list \<Rightarrow> TokenAmount list" where
  "update_token_amounts (t # ts) (a # as) = t\<lparr>ta_Amount := a\<rparr> # update_token_amounts ts as"
| "update_token_amounts ts _ = ts"

definition UpdateOutputAmount :: "int \<Rightarrow> u64 \<Rightarrow> u64 list \<Rightarrow> TxBuilder \<Rightarrow> TxBuilder option" where
  "UpdateOutputAmount index amount tokenAmounts b =
     Option.bind (go_nth (tb_outputs b) (out_index b index)) (\<lambda>o'.
     Option.bind (go_upd (tb_outputs b) (out_index b index)
       (o'\<lparr>to_Amount := amount, to_Tokens := update_token_amounts (to_Tokens o') tokenAmounts\<rparr>)) (\<lambda>outs.
     Some (b\<lparr>tb_outputs := outs\<rparr>)))"

definition RemoveOutput :: "int \<Rightarrow> TxBuilder \<Rightarrow> TxBuilder option" where
  "RemoveOutput index b =
     (let i = out_index b index; n = int (length (tb_outputs b)) in
      Option.bind (go_slice (tb_outputs b) i n) (\<lambda>_.
      Option.bind (go_slice (tb_outputs b) (i + 1) n) (\<lambda>rest.
      Some (b\<lparr>tb_outputs := take (nat i) (tb_outputs b) @ rest\<rparr>))))"

definition AddTokenMints :: "IPolicyScript option list \<Rightarrow> TokenAmount list \<Rightarrow> TxBuilder \<Rightarrow> TxBuilder" where
  "AddTokenMints policyScripts tokens b =
     b\<lparr>tb_mints := \<lparr>mt_tokens = mt_tokens (tb_mints b) @ tokens,
       mt_policyScripts = mt_policyScripts (tb_mints b) @ policyScripts\<rparr>\<rparr>"

definition SetMetaData :: "bytes option \<Rightarrow> TxBuilder \<Rightarrow> TxBuilder" where
  "SetMetaData metadata b = b\<lparr>tb_metadata := metadata\<rparr>"

definition SetProtocolParameters :: "bytes option \<Rightarrow> TxBuilder \<Rightarrow> TxBuilder" where
  "SetProtocolParameters protocolParameters b = b\<lparr>tb_protocolParameters := protocolParameters\<rparr>"

definition SetTimeToLive :: "u64 \<Rightarrow> TxBuilder \<Rightarrow> TxBuilder" where
  "SetTimeToLive timeToLive b = b\<lparr>tb_timeToLive := timeToLive\<rparr>"

definition SetWithdrawalData :: "string \<Rightarrow> u64 \<Rightarrow> IPolicyScript option \<Rightarrow> TxBuilder \<Rightarrow> TxBuilder" where
  "SetWithdrawalData stakeAddress rewardsAmount policyScript b =
     b\<lparr>tb_withdrawalData := \<lparr>wd_stakeAddress = stakeAddress, wd_rewardAmount = rewardsAmount,
       wd_policyScript = policyScript\<rparr>\<rparr>"

definition AddCertificates :: "IPolicyScript option \<Rightarrow> ISerializable option list \<Rightarrow> TxBuilder \<Rightarrow> TxBuilder" where
  "AddCertificates script certificates b =
     b\<lparr>tb_certificates := tb_certificates b @
       map (\<lambda>cert. \<lparr>cp_certificate = cert, cp_policyScript = script\<rparr>) certificates\<rparr>"

text \<open>\<open>SetProtocolParametersAndTTL\<close>, on the answers of the retriever.\<close>

definition SetProtocolParametersAndTTL :: "bytes option result \<Rightarrow> QueryTipData result \<Rightarrow> u64 \<Rightarrow> TxBuilder \<Rightarrow> TxBuilder result" where
  "SetProtocolParametersAndTTL GetProtocolParameters GetTip timeToLiveInc b =
     (let timeToLiveInc = (if timeToLiveInc = 0 then 200 else timeToLiveInc) in
      rbind GetProtocolParameters (\<lambda>protocolParams.
      rbind GetTip (\<lambda>tip.
      Inr (SetTimeToLive (qt_Slot tip + timeToLiveInc) (SetProtocolParameters protocolParams b)))))"

section \<open>Arguments of the parts\<close>

text \<open>Each part appends its arguments and writes its documents into the directory.\<close>

definition input_Apply :: "os_env \<Rightarrow> string list \<Rightarrow> string \<Rightarrow> nat \<Rightarrow> txInputWithPolicyScript \<Rightarrow> string list io" where
  "input_Apply os args basePath indx inp =
     (let args = args @ [''--tx-in'', TxInput_String (ip_txInput inp)] in
      case ip_policyScript inp of
        None \<Rightarrow> io_lift (Inr args)
      | Some ps \<Rightarrow>
          io_bind (writeSerializableToFile os (isc_GetBytesJSON ps) basePath (''ps_'' @ itoa indx @ ''.json'')) (\<lambda>filePath.
          io_lift (Inr (args @ [''--tx-in-script-file'', filePath]))))"

definition input_GetWitnessCount :: "txInputWithPolicyScript \<Rightarrow> int" where
  "input_GetWitnessCount inp = (case ip_policyScript inp of Some ps \<Rightarrow> isc_GetCount ps | None \<Rightarrow> 1)"

fun mint_string :: "TokenAmount list \<Rightarrow> string \<Rightarrow> string" where
  "mint_string [] sb = sb"
| "mint_string (token # tokens) sb =
     mint_string tokens (sb @ (if length sb > 0 then ''+'' else []) @ TokenAmount_String token)"

fun mint_scripts_loop :: "os_env \<Rightarrow> string list \<Rightarrow> string \<Rightarrow> nat \<Rightarrow> IPolicyScript option list \<Rightarrow> string list io" where
  "mint_scripts_loop os args basePath indx [] = io_lift (Inr args)"
| "mint_scripts_loop os args basePath indx (ps # pss) =
     (case ps of
        None \<Rightarrow> io_panic
      | Some ps \<Rightarrow>
          io_bind (writeSerializableToFile os (isc_GetBytesJSON ps) basePath (''ps_mint_'' @ itoa indx @ ''.json'')) (\<lambda>policyFilePath.
          mint_scripts_loop os (args @ [''--minting-script-file'', policyFilePath]) basePath (indx + 1) pss))"

definition mint_Apply :: "os_env \<Rightarrow> string list \<Rightarrow> string \<Rightarrow> txTokenMintInputs \<Rightarrow> string list io" where
  "mint_Apply os args basePath txMint =
     (if length (mt_tokens txMint) = 0 then io_lift (Inr args)
      else mint_scripts_loop os (args @ [''--mint'', mint_string (mt_tokens txMint) '''']) basePath 0 (mt_policyScripts txMint))"

definition cert_Apply :: "os_env \<Rightarrow> string list \<Rightarrow> string \<Rightarrow> nat \<Rightarrow> txCertificateWithPolicyScript \<Rightarrow> string list io" where
  "cert_Apply os args basePath index txCert =
     (case cp_certificate txCert of
        None \<Rightarrow> io_lift (Inr args)
      | Some certificate \<Rightarrow>
          io_bind (writeSerializableToFile os certificate basePath (''certificate_'' @ itoa index @ ''.cert'')) (\<lambda>certificateFilePath.
          let args = args @ [''--certificate-file'', certificateFilePath] in
          case cp_policyScript txCert of
            None \<Rightarrow> io_lift (Inr args)
          | Some ps \<Rightarrow>
              io_bind (writeSerializableToFile os (isc_GetBytesJSON ps) basePath (''cert_policy_'' @ itoa index @ ''.json'')) (\<lambda>policyFilePath.
              io_lift (Inr (args @ [''--certificate-script-file'', policyFilePath])))))"

definition cert_GetWitnessCount :: "txCertificateWithPolicyScript \<Rightarrow> int" where
  "cert_GetWitnessCount txCert =
     (case cp_policyScript txCert of
        Some ps \<Rightarrow> isc_GetCount ps
      | None \<Rightarrow> if cp_certificate txCert \<noteq> None then 1 else 0)"

text \<open>\<open>slices.Contains\<close> compares the pointers.\<close>

definition same_script :: "IPolicyScript option \<Rightarrow> IPolicyScript option \<Rightarrow> bool" where
  "same_script p q = (map_option isc_ref p = map_option isc_ref q)"

fun cert_witness_loop :: "int \<Rightarrow> IPolicyScript option list \<Rightarrow> txCertificateWithPolicyScript list \<Rightarrow> int" where
  "cert_witness_loop witnessCount processedScripts [] = witnessCount"
| "cert_witness_loop witnessCount processedScripts (cert # certs) =
     (let alreadyProcessed = (cp_policyScript cert \<noteq> None \<and>
            (\<exists>p \<in> set processedScripts. same_script p (cp_policyScript cert)))
      in cert_witness_loop (if \<not> alreadyProcessed then witnessCount + cert_GetWitnessCount cert else witnessCount)
           (processedScripts @ [cp_policyScript cert]) certs)"

definition getCertfificatesWitnessCount :: "txCertificateWithPolicyScript list \<Rightarrow> int" where
  "getCertfificatesWitnessCount certificates = cert_witness_loop 0 [] certificates"

definition withdrawal_Apply :: "os_env \<Rightarrow> string list \<Rightarrow> string \<Rightarrow> txWithdrawalDataPolicyScript \<Rightarrow> string list io" where
  "withdrawal_Apply os args basePath wd =
     (if wd_stakeAddress wd = '''' then io_lift (Inr args)
      else
        let args = args @ [''--withdrawal'', wd_stakeAddress wd @ ''+'' @ itoa64 (wd_rewardAmount wd)] in
        case wd_policyScript wd of
          None \<Rightarrow> io_lift (Inr args)
        | Some ps \<Rightarrow>
            io_bind (writeSerializableToFile os (isc_GetBytesJSON ps) basePath ''policy_withdrawal.json'') (\<lambda>policyFilePath.
            io_lift (Inr (args @ [''--withdrawal-script-file'', policyFilePath]))))"

definition withdrawal_GetWitnessCount :: "txWithdrawalDataPolicyScript \<Rightarrow> int" where
  "withdrawal_GetWitnessCount wd =
     (case wd_policyScript wd of Some ps \<Rightarrow> isc_GetCount ps | None \<Rightarrow> if wd_stakeAddress wd \<noteq> '''' then 1 else 0)"

section \<open>Building\<close>

definition CheckOutputs :: "TxBuilder \<Rightarrow> unit result" where
  "CheckOutputs b =
     (let errs = map (\<lambda>(i, x). ErrMsg (''output ('' @ to_Addr x @ '', '' @ itoa i @ '') amount not specified''))
        (filter (\<lambda>(i, x). to_Amount x = 0) (enumerate 0 (tb_outputs b)))
      in if errs = [] then Inr () else Inl (ErrJoin errs))"

fun certs_loop :: "os_env \<Rightarrow> string \<Rightarrow> nat \<Rightarrow> txCertificateWithPolicyScript list \<Rightarrow> string list \<Rightarrow> string list io" where
  "certs_loop os basePath i [] args = io_lift (Inr args)"
| "certs_loop os basePath i (c # cs) args = io_bind (cert_Apply os args basePath i c) (certs_loop os basePath (i + 1) cs)"

fun inputs_loop :: "os_env \<Rightarrow> string \<Rightarrow> nat \<Rightarrow> txInputWithPolicyScript list \<Rightarrow> string list \<Rightarrow> string list io" where
  "inputs_loop os basePath i [] args = io_lift (Inr args)"
| "inputs_loop os basePath i (c # cs) args = io_bind (input_Apply os args basePath i c) (inputs_loop os basePath (i + 1) cs)"

definition metadata_args :: "os_env \<Rightarrow> TxBuilder \<Rightarrow> string list \<Rightarrow> string list io" where
  "metadata_args os b args =
     (case tb_metadata b of
        None \<Rightarrow> io_lift (Inr args)
      | Some metadata \<Rightarrow>
          let metaDataFilePath = path_join (tb_baseDirectory b) ''metadata.json'' in
          io_bind (WriteFile os metaDataFilePath (FileBytes metadata)) (\<lambda>_.
          io_lift (Inr (args @ [''--metadata-json-file'', metaDataFilePath]))))"

definition buildRawTx :: "os_env \<Rightarrow> TxBuilder \<Rightarrow> string \<Rightarrow> u64 \<Rightarrow> unit io" where
  "buildRawTx os b protocolParamsFilePath fee =
     (let args = [tb_era b, ''transaction'', ''build-raw'',
        ''--protocol-params-file'', protocolParamsFilePath,
        ''--fee'', itoa64 fee,
        ''--invalid-hereafter'', itoa64 (tb_timeToLive b),
        ''--out-file'', path_join (tb_baseDirectory b) draftTxFile] in
      io_bind (metadata_args os b args) (\<lambda>args.
      io_bind (certs_loop os (tb_baseDirectory b) 0 (tb_certificates b) args) (\<lambda>args.
      io_bind (withdrawal_Apply os args (tb_baseDirectory b) (tb_withdrawalData b)) (\<lambda>args.
      io_bind (mint_Apply os args (tb_baseDirectory b) (tb_mints b)) (\<lambda>args.
      io_bind (inputs_loop os (tb_baseDirectory b) 0 (tb_inputs b) args) (\<lambda>args.
      io_bind (runCommand os (tb_cardanoCliBinary b)
        (args @ concat (map (\<lambda>out. [''--tx-out'', TxOutput_String out]) (tb_outputs b)))) (\<lambda>_.
      io_lift (Inr ()))))))))"

definition params_not_set :: goerror where
  "params_not_set = ErrMsg ''protocol parameters not set''"

definition write_params :: "os_env \<Rightarrow> TxBuilder \<Rightarrow> (string \<Rightarrow> 'a io) \<Rightarrow> 'a io" where
  "write_params os b k =
     (case tb_protocolParameters b of
        None \<Rightarrow> io_lift (Inl params_not_set)
      | Some params \<Rightarrow>
          let protocolParamsFilePath = path_join (tb_baseDirectory b) ''protocol-parameters.json'' in
          io_bind (WriteFile os protocolParamsFilePath (FileBytes params)) (\<lambda>_. k protocolParamsFilePath))"

definition dec_fee :: "json \<Rightarrow> u64 result" where
  "dec_fee j = rbind (dec_obj j) (\<lambda>fs. dec_word (json_member fs ''fee''))"

definition witness_count :: "TxBuilder \<Rightarrow> int \<Rightarrow> int" where
  "witness_count b witnessCount =
     (if witnessCount = 0
      then max (foldl (\<lambda>n inp. n + input_GetWitnessCount inp) 0 (tb_inputs b) +
        getCertfificatesWitnessCount (tb_certificates b) + withdrawal_GetWitnessCount (tb_withdrawalData b)) 1
      else witnessCount)"

definition CalculateFee :: "os_env \<Rightarrow> TxBuilder \<Rightarrow> int \<Rightarrow> u64 io" where
  "CalculateFee os b witnessCount =
     write_params os b (\<lambda>protocolParamsFilePath.
     io_bind (buildRawTx os b protocolParamsFilePath 0) (\<lambda>_.
     io_bind (runCommand os (tb_cardanoCliBinary b)
       ([tb_era b, ''transaction'', ''calculate-min-fee'',
         ''--tx-body-file'', path_join (tb_baseDirectory b) draftTxFile,
         ''--tx-in-count'', itoa (length (tb_inputs b)),
         ''--tx-out-count'', itoa (length (tb_outputs b)),
         ''--witness-count'', itoa64 (word_of_int (witness_count b witnessCount)),
         ''--protocol-params-file'', protocolParamsFilePath] @ getTestNetMagicArgs (tb_testNetMagic b))) (\<lambda>response.
     io_lift (case unmarshal_text os response dec_fee of
         Inr fee \<Rightarrow> Inr fee
       | Inl _ \<Rightarrow> ParseUint10 (split_on (CHR '' '') response ! 0)))))"

definition min_utxo_text :: "string \<Rightarrow> string" where
  "min_utxo_text result =
     trim_prefix (trim_space (trim_prefix (to_lower (trim_space result)) AdaTokenName)) ''coin ''"

definition CalculateMinUtxo :: "os_env \<Rightarrow> TxBuilder \<Rightarrow> TxOutput \<Rightarrow> u64 io" where
  "CalculateMinUtxo os b output =
     write_params os b (\<lambda>protocolParamsFilePath.
     io_bind (runCommand os (tb_cardanoCliBinary b)
       [tb_era b, ''transaction'', ''calculate-min-required-utxo'',
        ''--protocol-params-file'', protocolParamsFilePath,
        ''--tx-out'', TxOutput_String output]) (\<lambda>result.
     io_lift (ParseUint0 (min_utxo_text result))))"

text \<open>The output with the tokens of a sum, in the order the sum is visited.\<close>

fun sum_outputs_loop :: "sums \<Rightarrow> string list \<Rightarrow> TokenAmount list result" where
  "sum_outputs_loop sumMap [] = Inr []"
| "sum_outputs_loop sumMap (tokenName # ks) =
     (if tokenName \<noteq> AdaTokenName \<and> sum_get sumMap tokenName > 0
      then rbind (NewTokenWithFullName tokenName True) (\<lambda>token.
           rbind (sum_outputs_loop sumMap ks) (\<lambda>tokens.
           Inr (NewTokenAmount token (sum_get sumMap tokenName) # tokens)))
      else sum_outputs_loop sumMap ks)"

definition GetMinUtxoForSumMap :: "os_env \<Rightarrow> ranges \<Rightarrow> TxBuilder \<Rightarrow> string \<Rightarrow> sums \<Rightarrow> u64 io" where
  "GetMinUtxoForSumMap os rng b userAddress sumMap =
     io_bind (io_lift (sum_outputs_loop sumMap (rng 0 sumMap))) (\<lambda>tokens.
     CalculateMinUtxo os b \<lparr>to_Addr = userAddress, to_Amount = sum_get sumMap AdaTokenName, to_Tokens = tokens\<rparr>)"

definition Build :: "os_env \<Rightarrow> TxBuilder \<Rightarrow> (bytes \<times> string) io" where
  "Build os b =
     (if tb_protocolParameters b = None then io_lift (Inl params_not_set)
      else io_bind (io_lift (CheckOutputs b)) (\<lambda>_.
      write_params os b (\<lambda>protocolParamsFilePath.
      io_bind (buildRawTx os b protocolParamsFilePath (tb_fee b)) (\<lambda>_.
      io_bind (ReadFile (path_join (tb_baseDirectory b) draftTxFile)) (\<lambda>f.
      io_bind (io_opt (newTransactionUnwitnessedRawFromJSON f)) (\<lambda>txRaw.
      io_bind (cli_getTxHash os (NewCliUtilsForEra (tb_cardanoCliBinary b) (tb_era b)) txRaw (tb_baseDirectory b)
        (tb_realEraName b)) (\<lambda>txHash.
      io_lift (Inr (txRaw, txHash)))))))))"

section \<open>Signing\<close>

text \<open>Of an \<open>ITxSigner\<close> the builder uses the signing key of \<open>GetPaymentKeys\<close>.\<close>

definition CreateTxWitness :: "os_env \<Rightarrow> cbor_prims \<Rightarrow> TxBuilder \<Rightarrow> bytes \<Rightarrow> bytes \<Rightarrow> bytes io" where
  "CreateTxWitness os cb b txRaw signingKey =
     (let outFilePath = path_join (tb_baseDirectory b) ''tx.wit'';
          txFilePath = path_join (tb_baseDirectory b) ''tx.raw'';
          signingKeyPath = path_join (tb_baseDirectory b) ''tx.skey'' in
      io_bind (WriteFile os txFilePath (FileJson (unwitnessed_ToJSON txRaw (tb_realEraName b)))) (\<lambda>_.
      let title = (if length signingKey > KeySize then ''PaymentExtendedSigningKeyShelley_ed25519_bip32''
                   else ''PaymentSigningKeyShelley_ed25519'') in
      io_bind (io_lift (NewKeyFromBytes cb title '''' signingKey)) (\<lambda>key.
      io_bind (WriteFile os signingKeyPath (key_file key)) (\<lambda>_.
      io_bind (runCommand os (tb_cardanoCliBinary b)
        ([tb_era b, ''transaction'', ''witness'', ''--signing-key-file'', signingKeyPath,
          ''--tx-body-file'', txFilePath, ''--out-file'', outFilePath] @ getTestNetMagicArgs (tb_testNetMagic b))) (\<lambda>_.
      io_bind (ReadFile outFilePath) (\<lambda>f. io_opt (newTransactionWitnessedRawFromJSON f)))))))"

fun witness_files_loop :: "os_env \<Rightarrow> TxBuilder \<Rightarrow> nat \<Rightarrow> bytes list \<Rightarrow> string list io" where
  "witness_files_loop os b i [] = io_lift (Inr [])"
| "witness_files_loop os b i (witness # ws) =
     (let path = path_join (tb_baseDirectory b) (''witness-'' @ itoa (i + 1)) in
      io_bind (WriteFile os path (FileJson (witness_ToJSON witness (tb_realEraName b)))) (\<lambda>_.
      io_bind (witness_files_loop os b (i + 1) ws) (\<lambda>paths. io_lift (Inr (path # paths)))))"

definition AssembleTxWitnesses :: "os_env \<Rightarrow> TxBuilder \<Rightarrow> bytes \<Rightarrow> bytes list \<Rightarrow> bytes io" where
  "AssembleTxWitnesses os b txRaw witnesses =
     (let outFilePath = path_join (tb_baseDirectory b) ''tx.sig'';
          txFilePath = path_join (tb_baseDirectory b) ''tx.raw'' in
      io_bind (witness_files_loop os b 0 witnesses) (\<lambda>witnessesFilePaths.
      io_bind (WriteFile os txFilePath (FileJson (unwitnessed_ToJSON txRaw (tb_realEraName b)))) (\<lambda>_.
      io_bind (runCommand os (tb_cardanoCliBinary b)
        ([tb_era b, ''transaction'', ''assemble'', ''--tx-body-file'', txFilePath, ''--out-file'', outFilePath] @
          concat (map (\<lambda>fp. [''--witness-file'', fp]) witnessesFilePaths))) (\<lambda>_.
      io_bind (ReadFile outFilePath) (\<lambda>f. io_opt (newTransactionWitnessedRawFromJSON f))))))"

fun sign_loop :: "os_env \<Rightarrow> cbor_prims \<Rightarrow> TxBuilder \<Rightarrow> bytes \<Rightarrow> bytes list \<Rightarrow> bytes list io" where
  "sign_loop os cb b txRaw [] = io_lift (Inr [])"
| "sign_loop os cb b txRaw (signer # signers) =
     io_bind (CreateTxWitness os cb b txRaw signer) (\<lambda>w.
     io_bind (sign_loop os cb b txRaw signers) (\<lambda>ws. io_lift (Inr (w # ws))))"

definition SignTx :: "os_env \<Rightarrow> cbor_prims \<Rightarrow> TxBuilder \<Rightarrow> bytes \<Rightarrow> bytes list \<Rightarrow> bytes io" where
  "SignTx os cb b txRaw signers =
     io_bind (sign_loop os cb b txRaw signers) (\<lambda>witnesses. AssembleTxWitnesses os b txRaw witnesses)"

end
