(* ===== verification/Utxo_Selection.thy ===== *)
theory Utxo_Selection
  imports Wallet_Data
begin

text \<open>
  Selection of unspent outputs: \<open>GetUTXOsForAmount\<close> (\<open>wallet/transaction_extended.go\<close>) for
  one token and \<open>GetUTXOsForAmounts\<close> (\<open>sendtx/utxo_helper.go\<close>) for several, which reorders the
  caller's slice in place and therefore returns it as well.
\<close>

record TxInputs =
  in_Inputs :: "TxInput list"
  in_Sum :: sums

definition utxos2TxInputs :: "Utxo list \<Rightarrow> TxInput list" where
  "utxos2TxInputs utxos = map (\<lambda>x. \<lparr>ti_Hash = ut_Hash x, ti_Index = ut_Index x\<rparr>) utxos"

text \<open>The search for the smallest output, the first of equals; \<open>None\<close> is the panic on no output.\<close>

fun min_loop :: "(Utxo \<Rightarrow> u64) \<Rightarrow> Utxo \<Rightarrow> u64 \<Rightarrow> nat \<Rightarrow> nat \<Rightarrow> Utxo list \<Rightarrow> Utxo \<times> nat" where
  "min_loop amt minUtxo minAmount idx i [] = (minUtxo, idx)"
| "min_loop amt minUtxo minAmount idx i (utxo # utxos) =
     (let newAmount = amt utxo in
      if newAmount < minAmount then min_loop amt utxo newAmount (i + 1) (i + 1) utxos
      else min_loop amt minUtxo minAmount idx (i + 1) utxos)"

definition min_utxo :: "(Utxo \<Rightarrow> u64) \<Rightarrow> Utxo list \<Rightarrow> (Utxo \<times> nat) option" where
  "min_utxo amt utxos = (case utxos of [] \<Rightarrow> None | u # us \<Rightarrow> Some (min_loop amt u (amt u) 0 0 us))"

section \<open>One token\<close>

text \<open>The loop ends with the inputs (\<open>Inl\<close>) or with the sum of what is chosen at the end.\<close>

fun amount_loop :: "string \<Rightarrow> u64 \<Rightarrow> int \<Rightarrow> sums \<Rightarrow> Utxo list \<Rightarrow> Utxo list \<Rightarrow> (TxInputs + sums) option" where
  "amount_loop tokenName desiredSum maxInputs currentSum chosenUTXOs [] = Some (Inr currentSum)"
| "amount_loop tokenName desiredSum maxInputs currentSum chosenUTXOs (utxo # utxos) =
     (let currentSum = add_utxo currentSum utxo;
          chosenUTXOs = chosenUTXOs @ [utxo]
      in Option.bind
        (if int (length chosenUTXOs) > maxInputs
         then Option.bind (min_utxo (\<lambda>u. GetTokenAmountFromUtxo u tokenName) chosenUTXOs)
           (\<lambda>(minChosenUTXO, minChosenUTXOIdx).
             let lastIdx = length chosenUTXOs - 1
             in Some (sub_utxo currentSum minChosenUTXO,
                  take lastIdx (chosenUTXOs[minChosenUTXOIdx := chosenUTXOs ! lastIdx])))
         else Some (currentSum, chosenUTXOs))
        (\<lambda>(currentSum, chosenUTXOs).
          if sum_get currentSum tokenName \<ge> desiredSum
          then Some (Inl \<lparr>in_Inputs = utxos2TxInputs chosenUTXOs, in_Sum = currentSum\<rparr>)
          else amount_loop tokenName desiredSum maxInputs currentSum chosenUTXOs utxos))"

definition GetUTXOsForAmount :: "Utxo list \<Rightarrow> string \<Rightarrow> u64 \<Rightarrow> int \<Rightarrow> TxInputs result option" where
  "GetUTXOsForAmount utxos tokenName desiredSum maxInputs =
     map_option (\<lambda>r. case r of
         Inl inputs \<Rightarrow> Inr inputs
       | Inr currentSum \<Rightarrow>
           if sum_get (GetUtxosSum utxos) tokenName \<ge> desiredSum
           then Inl (ErrMsg (''utxos limit reached ('' @ itoa_int maxInputs @ ''), try to consolidate utxos: (total, desired) = ('' @
             itoa64 (sum_get currentSum tokenName) @ '', '' @ itoa64 desiredSum @ '')''))
           else Inl (ErrMsg (''not enough funds for the transaction: (available, desired) = ('' @
             itoa64 (sum_get currentSum tokenName) @ '', '' @ itoa64 desiredSum @ '')'')))
       (amount_loop tokenName desiredSum maxInputs Map.empty [] utxos)"

section \<open>Several tokens\<close>

fun doesSumSatisfyCondition :: "string list \<Rightarrow> sums \<Rightarrow> sums \<Rightarrow> bool" where
  "doesSumSatisfyCondition [] currentSum conditions = True"
| "doesSumSatisfyCondition (tokenName # ks) currentSum conditions =
     (if sum_get currentSum tokenName < sum_get conditions tokenName then False
      else doesSumSatisfyCondition ks currentSum conditions)"

fun biggest_diff :: "string list \<Rightarrow> sums \<Rightarrow> sums \<Rightarrow> string \<Rightarrow> u64 \<Rightarrow> string" where
  "biggest_diff [] currentSum conditions replaceTokenName biggestDiff = replaceTokenName"
| "biggest_diff (tokenName # ks) currentSum conditions replaceTokenName biggestDiff =
     (let sm = sum_get currentSum tokenName; desiredAmount = sum_get conditions tokenName in
      if desiredAmount > sm \<and> desiredAmount - sm > biggestDiff
      then biggest_diff ks currentSum conditions tokenName (desiredAmount - sm)
      else biggest_diff ks currentSum conditions replaceTokenName biggestDiff)"

definition findMinUtxo :: "string list \<Rightarrow> Utxo list \<Rightarrow> sums \<Rightarrow> sums \<Rightarrow> (Utxo \<times> nat) option" where
  "findMinUtxo ks utxos currentSum conditions =
     (let replaceTokenName = biggest_diff ks currentSum conditions AdaTokenName 0
      in min_utxo (\<lambda>u. GetTokenAmount u replaceTokenName) utxos)"

definition prepareTxInputs :: "Utxo list \<Rightarrow> sums \<Rightarrow> int \<Rightarrow> int \<Rightarrow> nat \<Rightarrow> TxInputs" where
  "prepareTxInputs utxos currentSum maxInputsPerTx tryAtLeastInputsPerTx choosenCount =
     (let cnt = nat (max (min (min (int (length utxos) - int choosenCount)
              (tryAtLeastInputsPerTx - int choosenCount)) (maxInputsPerTx - int choosenCount)) 0);
          currentSum = foldl add_utxo currentSum (map (\<lambda>i. utxos ! i) [choosenCount..<choosenCount + cnt])
      in \<lparr>in_Inputs = utxos2TxInputs (take (choosenCount + cnt) utxos), in_Sum = currentSum\<rparr>)"

fun mapStr_loop :: "string list \<Rightarrow> sums \<Rightarrow> string \<Rightarrow> string" where
  "mapStr_loop [] m sb = sb"
| "mapStr_loop (k # ks) m sb =
     mapStr_loop ks m (sb @ (if sb \<noteq> [] then '', '' else []) @ k @ ''='' @ itoa64 (sum_get m k))"

definition mapStrUInt64ToStr :: "string list \<Rightarrow> sums \<Rightarrow> string" where
  "mapStrUInt64ToStr ks m = mapStr_loop ks m ''''"

definition swap :: "'a list \<Rightarrow> nat \<Rightarrow> nat \<Rightarrow> 'a list" where
  "swap xs i j = xs[i := xs ! j, j := xs ! i]"

text \<open>
  The loop over the indices, on the slice, the two sums and \<open>choosenCount\<close>. It ends with the
  inputs (\<open>Inl\<close>) or with both sums.
\<close>

fun amounts_loop :: "ranges \<Rightarrow> sums \<Rightarrow> int \<Rightarrow> int \<Rightarrow> nat list \<Rightarrow> Utxo list \<Rightarrow> sums \<Rightarrow> sums \<Rightarrow> nat \<Rightarrow>
    (Utxo list \<times> (TxInputs + sums \<times> sums)) option" where
  "amounts_loop rng conditions maxInputs tryAtLeastInputs [] utxos currentSum currentSumTotal choosenCount =
     Some (utxos, Inr (currentSum, currentSumTotal))"
| "amounts_loop rng conditions maxInputs tryAtLeastInputs (i # is) utxos currentSum currentSumTotal choosenCount =
     (let utxo = utxos ! i;
          utxos = swap utxos choosenCount i;
          choosenCount = choosenCount + 1;
          currentSum = add_utxo currentSum utxo;
          currentSumTotal = add_utxo currentSumTotal utxo
      in if doesSumSatisfyCondition (rng (2 * i) conditions) currentSum conditions
         then Some (utxos, Inl (prepareTxInputs utxos currentSum maxInputs tryAtLeastInputs choosenCount))
         else if int choosenCount = maxInputs
         then Option.bind (findMinUtxo (rng (2 * i + 1) conditions) (take choosenCount utxos) currentSum conditions)
           (\<lambda>(minChosenUTXO, minChosenUTXOIdx).
             let choosenCount = choosenCount - 1;
                 utxos = swap utxos minChosenUTXOIdx choosenCount;
                 currentSum = sub_utxo currentSum minChosenUTXO
             in amounts_loop rng conditions maxInputs tryAtLeastInputs is utxos currentSum currentSumTotal choosenCount)
         else amounts_loop rng conditions maxInputs tryAtLeastInputs is utxos currentSum currentSumTotal choosenCount)"

definition GetUTXOsForAmounts ::
  "ranges \<Rightarrow> Utxo list \<Rightarrow> sums \<Rightarrow> int \<Rightarrow> int \<Rightarrow> (Utxo list \<times> TxInputs result) option" where
  "GetUTXOsForAmounts rng utxos conditions maxInputs tryAtLeastInputs =
     (let n = length utxos in
      map_option (\<lambda>(utxos, r). (utxos, case r of
          Inl inputs \<Rightarrow> Inr inputs
        | Inr (currentSum, currentSumTotal) \<Rightarrow>
            if doesSumSatisfyCondition (rng (2 * n) conditions) currentSumTotal conditions
            then Inl (ErrWrap '''' ErrUTXOsLimitReached ('': '' @
              mapStrUInt64ToStr (rng (2 * n + 1) currentSumTotal) currentSumTotal @ '' vs '' @
              mapStrUInt64ToStr (rng (2 * n + 2) conditions) conditions))
            else Inl (ErrWrap '''' ErrUTXOsCouldNotSelect ('': '' @
              mapStrUInt64ToStr (rng (2 * n + 1) currentSum) currentSum @ '' vs '' @
              mapStrUInt64ToStr (rng (2 * n + 2) conditions) conditions))))
        (amounts_loop rng conditions maxInputs tryAtLeastInputs [0..<n] utxos Map.empty Map.empty 0))"

end
