(* ===== verification/Common_Retry.thy ===== *)
theory Common_Retry
  imports Go_Lib
begin

text \<open>
  Repeated calls (\<open>common/retry.go\<close>) and the splitting of strings (\<open>common/utils.go\<close>). The handler
  of \<open>ExecuteWithRetry\<close> is the sequence of its answers, \<open>handler i\<close> for the call number \<open>i\<close>; a Go pair of a
  value and an error is a pair with an optional error. Of the context only the wait after each call
  matters: \<open>ctx i\<close> is the error of the context when it is done before the wait after call \<open>i\<close> ends.
\<close>

section \<open>Splitting\<close>

text \<open>\<open>None\<close> is a call that does not return: a negative length panics, length zero loops for ever.\<close>

partial_function (option) split_string_loop :: "string \<Rightarrow> int \<Rightarrow> int \<Rightarrow> string list \<Rightarrow> string list option" where
  "split_string_loop s mxlen i res =
     (if i < int (length s)
      then Option.bind (go_slice s i (min (i + mxlen) (int (length s)))) (\<lambda>part.
        split_string_loop s mxlen (i + mxlen) (res @ [part]))
      else Some res)"

definition SplitString :: "string \<Rightarrow> int \<Rightarrow> string list option" where
  "SplitString s mxlen = split_string_loop s mxlen 0 []"

section \<open>Which errors are worth another call\<close>

definition IsContextDoneErr :: "goerror \<Rightarrow> bool" where
  "IsContextDoneErr err \<longleftrightarrow> err_is err ErrContextCanceled \<or> err_is err ErrContextDeadlineExceeded"

definition IsRetryableErrorDefault :: "goerror \<Rightarrow> bool" where
  "IsRetryableErrorDefault err =
     (if IsContextDoneErr err then False
      else if err_as_net err = Some True then True
      else err_is err ErrRetryTryAgain)"

definition retryableMessages :: "string list" where
  "retryableMessages =
     [''replacement transaction underpriced'', ''replacement tx underpriced'', ''nonce too low'', ''intrinsic gas too low'',
      ''tx with the same nonce is already present'', ''rejected future tx due to low slots'', ''transaction underpriced'',
      ''status code 429'', ''status code 500'', ''i/o timeout'']"

fun any_message :: "string \<Rightarrow> string list \<Rightarrow> bool" where
  "any_message errStr [] = False"
| "any_message errStr (msg # msgs) = (if contains errStr msg then True else any_message errStr msgs)"

definition IsRetryableError :: "goerror option \<Rightarrow> bool" where
  "IsRetryableError err =
     (case err of
        None \<Rightarrow> False
      | Some err \<Rightarrow> if any_message (err_text err) retryableMessages then True else IsRetryableErrorDefault err)"

section \<open>The loop\<close>

record RetryConfig =
  rc_retryCount :: int
  rc_retryWaitTime :: int
  rc_isRetryableError :: "goerror option \<Rightarrow> bool"

type_synonym RetryConfigOption = "RetryConfig \<Rightarrow> RetryConfig"

definition WithRetryCount :: "int \<Rightarrow> RetryConfigOption" where
  "WithRetryCount retryCount c = c\<lparr>rc_retryCount := retryCount\<rparr>"

definition WithRetryWaitTime :: "int \<Rightarrow> RetryConfigOption" where
  "WithRetryWaitTime retryWaitTime c = c\<lparr>rc_retryWaitTime := retryWaitTime\<rparr>"

definition WithIsRetryableError :: "(goerror option \<Rightarrow> bool) \<Rightarrow> RetryConfigOption" where
  "WithIsRetryableError fn c = c\<lparr>rc_isRetryableError := fn\<rparr>"

definition defaultRetryCount :: int where "defaultRetryCount = 10"
definition defaultRetryWaitTime :: int where "defaultRetryWaitTime = 5000000000"

definition retry_config :: "RetryConfigOption list \<Rightarrow> RetryConfig" where
  "retry_config options = foldl (\<lambda>c opt. opt c) \<lparr>rc_retryCount = defaultRetryCount,
     rc_retryWaitTime = defaultRetryWaitTime, rc_isRetryableError = IsRetryableError\<rparr> options"

type_synonym 'a answer = "'a \<times> goerror option"

text \<open>\<open>n\<close> is the number of calls that are left.\<close>

fun retry_loop :: "RetryConfig \<Rightarrow> (nat \<Rightarrow> goerror option) \<Rightarrow> (nat \<Rightarrow> 'a answer) \<Rightarrow> nat \<Rightarrow> nat \<Rightarrow> 'a \<Rightarrow> 'a answer" where
  "retry_loop config ctx handler cnt 0 res = (res, Some ErrRetryTimeout)"
| "retry_loop config ctx handler cnt (Suc n) res =
     (let (res, err) = handler cnt in
      case err of
        None \<Rightarrow> (res, None)
      | Some e \<Rightarrow>
          if \<not> rc_isRetryableError config err then (res, Some e)
          else case ctx cnt of
            Some ctxErr \<Rightarrow> (res, Some ctxErr)
          | None \<Rightarrow> retry_loop config ctx handler (cnt + 1) n res)"

text \<open>\<open>zero\<close> is the zero value of the result type.\<close>

definition ExecuteWithRetry :: "'a \<Rightarrow> (nat \<Rightarrow> goerror option) \<Rightarrow> (nat \<Rightarrow> 'a answer) \<Rightarrow> RetryConfigOption list \<Rightarrow> 'a answer" where
  "ExecuteWithRetry zero ctx handler options =
     (let config = retry_config options in retry_loop config ctx handler 0 (nat (rc_retryCount config)) zero)"

text \<open>What a caller keeps that drops the value when there is an error.\<close>

definition answer_result :: "'a answer \<Rightarrow> 'a result" where
  "answer_result a = (case a of (x, None) \<Rightarrow> Inr x | (_, Some e) \<Rightarrow> Inl e)"

section \<open>Properties\<close>

text \<open>A call that fails with an error worth another one, and whose wait is not interrupted.\<close>

definition goes_on :: "RetryConfig \<Rightarrow> (nat \<Rightarrow> goerror option) \<Rightarrow> (nat \<Rightarrow> 'a answer) \<Rightarrow> nat \<Rightarrow> bool" where
  "goes_on config ctx handler i \<longleftrightarrow>
     (\<exists>e. snd (handler i) = Some e \<and> rc_isRetryableError config (Some e)) \<and> ctx i = None"

definition last_answer :: "(nat \<Rightarrow> goerror option) \<Rightarrow> RetryConfig \<Rightarrow> 'a answer \<Rightarrow> nat \<Rightarrow> 'a answer" where
  "last_answer ctx config a i = (case a of
      (x, None) \<Rightarrow> (x, None)
    | (x, Some e) \<Rightarrow> (x, if rc_isRetryableError config (Some e) then ctx i else Some e))"

lemma retry_loop_stops:
  assumes "\<forall>j < i. goes_on config ctx handler (cnt + j)" "\<not> goes_on config ctx handler (cnt + i)" "i < n"
  shows "retry_loop config ctx handler cnt n res = last_answer ctx config (handler (cnt + i)) (cnt + i)"
  using assms
proof (induction i arbitrary: cnt n res)
  case 0
  then obtain k where "n = Suc k" by (cases n) auto
  with 0 show ?case
    by (cases "handler cnt"; cases "snd (handler cnt)"; cases "ctx cnt") (auto simp: goes_on_def last_answer_def)
next
  case (Suc i)
  then obtain k where n: "n = Suc k" "i < k" by (cases n) auto
  have "goes_on config ctx handler (cnt + 0)" using Suc.prems(1) by blast
  then obtain y e where c: "handler cnt = (y, Some e)" "rc_isRetryableError config (Some e)" "ctx cnt = None"
    by (cases "handler cnt") (auto simp: goes_on_def)
  have "retry_loop config ctx handler (cnt + 1) k y = last_answer ctx config (handler (cnt + 1 + i)) (cnt + 1 + i)"
  proof (rule Suc.IH [OF _ _ n(2)])
    show "\<forall>j < i. goes_on config ctx handler (cnt + 1 + j)" using Suc.prems(1) by (auto dest: spec [of _ "Suc _"])
    show "\<not> goes_on config ctx handler (cnt + 1 + i)" using Suc.prems(2) by simp
  qed
  with c n show ?case by simp
qed

lemma retry_loop_runs_out:
  assumes "\<forall>j < n. goes_on config ctx handler (cnt + j)"
  shows "snd (retry_loop config ctx handler cnt n res) = Some ErrRetryTimeout"
  using assms
proof (induction n arbitrary: cnt res)
  case (Suc n)
  have "goes_on config ctx handler (cnt + 0)" using Suc.prems by blast
  then obtain y e where c: "handler cnt = (y, Some e)" "rc_isRetryableError config (Some e)" "ctx cnt = None"
    by (cases "handler cnt") (auto simp: goes_on_def)
  have "\<forall>j < n. goes_on config ctx handler (cnt + 1 + j)" using Suc.prems by (auto dest: spec [of _ "Suc _"])
  from Suc.IH [OF this] c show ?case by simp
qed simp

text \<open>
  C35. \<open>ExecuteWithRetry\<close> looks at no more calls than its count allows. The first call that succeeds,
  fails for good, or is followed by the end of the context decides the result; it is a timeout exactly
  when every allowed call asks for another one (or such an error is itself a timeout).
\<close>

theorem ExecuteWithRetry_decides:
  "(let config = retry_config options; n = nat (rc_retryCount config); r = ExecuteWithRetry zero ctx handler options in
    if \<exists>i < n. \<not> goes_on config ctx handler i
    then r = (let i = LEAST i. \<not> goes_on config ctx handler i in last_answer ctx config (handler i) i)
    else snd r = Some ErrRetryTimeout)"
proof -
  let ?c = "retry_config options"
  let ?n = "nat (rc_retryCount ?c)" and ?go = "goes_on ?c ctx handler"
  let ?l = "LEAST i. \<not> ?go i"
  have stop: "retry_loop ?c ctx handler 0 ?n zero = last_answer ctx ?c (handler ?l) ?l" if "\<exists>i < ?n. \<not> ?go i"
  proof -
    from that obtain i where i: "i < ?n" "\<not> ?go i" by blast
    have "\<not> ?go ?l" using i(2) by (rule LeastI)
    moreover have "?l < ?n" using Least_le [of "\<lambda>i. \<not> ?go i", OF i(2)] i(1) by (rule le_less_trans)
    moreover have "\<forall>j < ?l. ?go j" using not_less_Least by blast
    ultimately show ?thesis using retry_loop_stops [of ?l ?c ctx handler 0 ?n zero] unfolding add_0 by blast
  qed
  have "snd (retry_loop ?c ctx handler 0 ?n zero) = Some ErrRetryTimeout" if "\<not> (\<exists>i < ?n. \<not> ?go i)"
    using that retry_loop_runs_out [of ?n ?c ctx handler 0 zero] unfolding add_0 by blast
  with stop show ?thesis unfolding ExecuteWithRetry_def Let_def if_bool_eq_conj by blast
qed

lemma split_string_loop_spec:
  assumes "0 < mxlen" "0 \<le> i"
  shows "\<exists>parts. split_string_loop s mxlen i res = Some (res @ parts) \<and> concat parts = drop (nat i) s \<and>
    (\<forall>p \<in> set parts. p \<noteq> [] \<and> length p \<le> nat mxlen) \<and> (\<forall>p \<in> set (butlast parts). length p = nat mxlen)"
  using assms
proof (induction "nat (int (length s) - i)" arbitrary: i res rule: less_induct)
  case less
  show ?case
  proof (cases "i < int (length s)")
    case False
    with less.prems show ?thesis by (subst split_string_loop.simps) auto
  next
    case True
    define hi where "hi = min (i + mxlen) (int (length s))"
    define part where "part = take (nat hi - nat i) (drop (nat i) s)"
    have slice: "go_slice s i hi = Some part" using True less.prems by (simp add: go_slice_def part_def hi_def)
    have len: "length part = min (nat mxlen) (length s - nat i)" using True less.prems by (auto simp: part_def hi_def)
    have "nat (int (length s) - (i + mxlen)) < nat (int (length s) - i)" using True less.prems by simp
    then obtain parts where p: "split_string_loop s mxlen (i + mxlen) (res @ [part]) = Some ((res @ [part]) @ parts)"
      "concat parts = drop (nat (i + mxlen)) s" "\<forall>p \<in> set parts. p \<noteq> [] \<and> length p \<le> nat mxlen"
      "\<forall>p \<in> set (butlast parts). length p = nat mxlen"
      using less.hyps [of "i + mxlen" "res @ [part]"] less.prems by auto
    have "part @ drop (nat (i + mxlen)) s = drop (nat i) s"
    proof (cases "i + mxlen \<le> int (length s)")
      case True
      then have "part = take (nat mxlen) (drop (nat i) s)" using less.prems by (simp add: part_def hi_def nat_add_distrib)
      moreover have "drop (nat (i + mxlen)) s = drop (nat mxlen) (drop (nat i) s)" using less.prems by (simp add: nat_add_distrib add.commute)
      ultimately show ?thesis by (simp only: append_take_drop_id)
    qed (use True less.prems in \<open>simp add: part_def hi_def\<close>)
    then have cat: "concat (part # parts) = drop (nat i) s" using p(2) by simp
    have last: "parts \<noteq> [] \<longrightarrow> length part = nat mxlen"
    proof
      assume "parts \<noteq> []"
      then have "concat parts \<noteq> []" using p(3) by (cases parts) auto
      then have "nat (i + mxlen) < length s" using p(2) by (simp add: not_le)
      then show "length part = nat mxlen" using len less.prems by linarith
    qed
    have "split_string_loop s mxlen i res = Some (res @ part # parts)"
      using True slice p(1) by (subst split_string_loop.simps) (simp add: hi_def)
    moreover have "\<forall>p \<in> set (part # parts). p \<noteq> [] \<and> length p \<le> nat mxlen" using p(3) len True less.prems by auto
    moreover have "\<forall>p \<in> set (butlast (part # parts)). length p = nat mxlen" using p(4) last by (cases "parts = []") auto
    ultimately show ?thesis using cat by blast
  qed
qed

text \<open>
  For a positive length \<open>SplitString\<close> returns, its parts in order are the string, none is empty or
  longer than the length, and all but the last have exactly that length.
\<close>

theorem SplitString_parts:
  assumes "0 < mxlen"
  shows "\<exists>parts. SplitString s mxlen = Some parts \<and> concat parts = s \<and> (\<forall>p \<in> set parts. p \<noteq> [] \<and> length p \<le> nat mxlen) \<and>
    (\<forall>p \<in> set (butlast parts). length p = nat mxlen)"
  using split_string_loop_spec [OF assms, of 0 s "[]"] by (simp add: SplitString_def)

theorem SplitString_parts_witness:
  "\<exists>parts. SplitString ''abcde'' 2 = Some parts \<and> concat parts = ''abcde'' \<and> (\<forall>p \<in> set parts. p \<noteq> [] \<and> length p \<le> 2) \<and>
    (\<forall>p \<in> set (butlast parts). length p = 2)"
  using SplitString_parts [of 2 "''abcde''"] by simp

end
