(* ===== verification/Tx_Sender.thy ===== *)
theory Tx_Sender
  imports Tx_Builder Utxo_Selection Common_Retry
begin

text \<open>
  The sender of bridging and generic transactions (\<open>sendtx/tx_sender.go\<close>, \<open>sendtx/metadata.go\<close>,
  \<open>sendtx/data.go\<close>, \<open>sendtx/utils.go\<close>). What the machine, the provider and the runtime contribute is
  the parameter \<open>tx_env\<close>: the executable and the files, the state of the context at the waits of each
  repeated call, the order in which maps are visited, the printing of a JSON document, and the
  decoding of Byron addresses.
\<close>

section \<open>Data\<close>

definition defaultPotentialFee :: u64 where "defaultPotentialFee = 400000"
definition defaultMaxInputsPerTx :: int where "defaultMaxInputsPerTx = 50"
definition defaultTTLSlotNumberInc :: u64 where "defaultTTLSlotNumberInc = 500"
definition metadataMapKey :: string where "metadataMapKey = ''1''"
definition bridgingMetaDataType :: string where "bridgingMetaDataType = ''bridge''"
definition splitStringLength :: int where "splitStringLength = 40"

text \<open>The answers of a provider to the calls of one repeated request.\<close>

record ITxProvider =
  tp_SubmitTx :: "bytes \<Rightarrow> nat \<Rightarrow> goerror option"
  tp_GetTip :: "nat \<Rightarrow> QueryTipData answer"
  tp_GetProtocolParameters :: "nat \<Rightarrow> bytes option answer"
  tp_GetUtxos :: "string \<Rightarrow> nat \<Rightarrow> Utxo list answer"

record ChainConfig =
  cc_CardanoCliBinary :: string
  cc_TxProvider :: ITxProvider
  cc_MultiSigAddr :: string
  cc_TestNetMagic :: u64
  cc_TTLSlotNumberInc :: u64
  cc_MinUtxoValue :: u64
  cc_MinBridgingFeeAmount :: u64
  cc_PotentialFee :: u64
  cc_ProtocolParameters :: "bytes option"

record BridgingTxReceiver =
  br_Addr :: string
  br_Amount :: u64

record TxInfo =
  tx_TxRaw :: bytes
  tx_TxHash :: string
  tx_ChangeMinUtxoAmount :: u64
  tx_ChosenInputs :: TxInputs

record TxFeeInfo =
  tf_Fee :: u64
  tf_ChangeMinUtxoAmount :: u64

record bridgingTxPreparedData =
  pd_TxBuilder :: TxBuilder
  pd_OutputLovelace :: u64
  pd_OutputNativeTokens :: "TokenAmount list"
  pd_BridgingAddress :: string
  pd_BridgingFee :: u64

record txBuilderPopulationData =
  pp_ChangeLovelace :: u64
  pp_ChangeMinUtxoAmount :: u64
  pp_ChosenInputs :: TxInputs

text \<open>A \<open>*PolicyScript\<close> is the pointer with what it points to.\<close>

type_synonym script_ptr = "nat \<times> PolicyScript"

definition script_iface :: "script_ptr \<Rightarrow> IPolicyScript" where
  "script_iface p = \<lparr>isc_ref = fst p, isc_GetBytesJSON = script_GetBytesJSON (snd p), isc_GetCount = script_GetCount (snd p)\<rparr>"

record BridgingTxDto =
  bd_SrcChainID :: string
  bd_DstChainID :: string
  bd_SenderAddr :: string
  bd_SenderAddrPolicyScript :: "script_ptr option"
  bd_Receivers :: "BridgingTxReceiver list"
  bd_BridgingAddress :: string
  bd_BridgingFee :: u64

record TxReceiversDto =
  rd_Addr :: string
  rd_Amount :: u64
  rd_NativeTokens :: "TokenAmount list"

record GenericTxDto =
  gd_SrcChainID :: string
  gd_SenderAddr :: string
  gd_SenderAddrPolicyScript :: "script_ptr option"
  gd_Metadata :: "bytes option"
  gd_Receivers :: "TxReceiversDto list"

record TxSender =
  ts_minAmountToBridge :: u64
  ts_maxInputsPerTx :: int
  ts_chainConfigMap :: "string \<Rightarrow> ChainConfig option"
  ts_retryOptions :: "RetryConfigOption list"
  ts_utxosTransformer :: "(Utxo list \<Rightarrow> Utxo list) option"

type_synonym TxSenderOption = "TxSender \<Rightarrow> TxSender"

text \<open>\<open>te_ctx k\<close> and \<open>te_rng k\<close> belong to the repeated call and to the visit number \<open>k\<close> of an operation.\<close>

record tx_env =
  te_os :: os_env
  te_ctx :: "nat \<Rightarrow> nat \<Rightarrow> goerror option"
  te_rng :: "nat \<Rightarrow> ranges"
  te_marshal :: "json \<Rightarrow> bytes"
  te_byron :: byron_prims
  te_cbor :: cbor_prims

section \<open>Metadata\<close>

record BridgingRequestMetadataTransaction =
  mx_Address :: "string list"
  mx_Amount :: u64

record BridgingRequestMetadata =
  bm_BridgingTxType :: string
  bm_DestinationChainID :: string
  bm_SenderAddr :: "string list"
  bm_Transactions :: "BridgingRequestMetadataTransaction list"
  bm_BridgingFee :: u64

text \<open>The parts of the empty string are a nil slice, which is written as \<open>null\<close>.\<close>

definition enc_parts :: "string list \<Rightarrow> json" where
  "enc_parts parts = (if parts = [] then JNull else JArr (map enc_str parts))"

definition enc_metadata_tx :: "BridgingRequestMetadataTransaction \<Rightarrow> json" where
  "enc_metadata_tx x = JObj [(''a'', enc_parts (mx_Address x)), (''m'', enc_word (mx_Amount x))]"

definition enc_metadata :: "BridgingRequestMetadata \<Rightarrow> json" where
  "enc_metadata brm = JObj [(''t'', enc_str (bm_BridgingTxType brm)), (''d'', enc_str (bm_DestinationChainID brm)),
     (''s'', enc_parts (bm_SenderAddr brm)), (''tx'', JArr (map enc_metadata_tx (bm_Transactions brm))),
     (''fa'', enc_word (bm_BridgingFee brm))]"

definition metadata_Marshal :: "(json \<Rightarrow> bytes) \<Rightarrow> BridgingRequestMetadata \<Rightarrow> bytes" where
  "metadata_Marshal marshal brm = marshal (JObj [(metadataMapKey, enc_metadata brm)])"

definition metadata_GetOutputAmounts :: "BridgingRequestMetadata \<Rightarrow> u64" where
  "metadata_GetOutputAmounts brm = foldl (\<lambda>amount x. amount + mx_Amount x) (bm_BridgingFee brm) (bm_Transactions brm)"

definition AddrToMetaDataAddr :: "string \<Rightarrow> string list option" where
  "AddrToMetaDataAddr addr =
     (let addr = trim_prefix (trim_prefix addr ''0x'') ''0X'' in SplitString addr splitStringLength)"

definition setOrDefault :: "u64 \<Rightarrow> u64 \<Rightarrow> u64" where
  "setOrDefault val def = (if val = 0 then def else val)"

section \<open>Construction\<close>

text \<open>\<open>ks\<close> lists the chains in the order the map is visited.\<close>

definition NewTxSender :: "string list \<Rightarrow> (string \<Rightarrow> ChainConfig option) \<Rightarrow> TxSenderOption list \<Rightarrow> TxSender" where
  "NewTxSender ks chainConfigMap options =
     (let txSnd = \<lparr>ts_minAmountToBridge = 0, ts_maxInputsPerTx = defaultMaxInputsPerTx,
            ts_chainConfigMap = chainConfigMap, ts_retryOptions = [], ts_utxosTransformer = None\<rparr>;
          txSnd = foldl (\<lambda>txSnd k. case chainConfigMap k of
              None \<Rightarrow> txSnd
            | Some config \<Rightarrow> txSnd\<lparr>ts_minAmountToBridge := max (ts_minAmountToBridge txSnd) (cc_MinUtxoValue config)\<rparr>) txSnd ks
      in foldl (\<lambda>txSnd opt. opt txSnd) txSnd options)"

definition WithUtxosTransformer :: "(Utxo list \<Rightarrow> Utxo list) option \<Rightarrow> TxSenderOption" where
  "WithUtxosTransformer utxosTransformer txSnd = txSnd\<lparr>ts_utxosTransformer := utxosTransformer\<rparr>"

definition WithMaxInputsPerTx :: "int \<Rightarrow> TxSenderOption" where
  "WithMaxInputsPerTx maxInputsPerTx txSnd = txSnd\<lparr>ts_maxInputsPerTx := maxInputsPerTx\<rparr>"

definition WithRetryOptions :: "RetryConfigOption list \<Rightarrow> TxSenderOption" where
  "WithRetryOptions retryOptions txSnd = txSnd\<lparr>ts_retryOptions := retryOptions\<rparr>"

section \<open>Checks and parameters\<close>

definition getConfigs :: "TxSender \<Rightarrow> string \<Rightarrow> string \<Rightarrow> (ChainConfig \<times> ChainConfig) result" where
  "getConfigs txSnd srcChainID dstChainID =
     (case ts_chainConfigMap txSnd srcChainID of
        None \<Rightarrow> Inl (ErrMsg (''source chain '' @ srcChainID @ '' config not found''))
      | Some srcConfig \<Rightarrow> (case ts_chainConfigMap txSnd dstChainID of
          None \<Rightarrow> Inl (ErrMsg (''destination chain '' @ dstChainID @ '' config not found''))
        | Some dstConfig \<Rightarrow> Inr (srcConfig, dstConfig)))"

definition checkFees :: "ChainConfig \<Rightarrow> u64 \<Rightarrow> unit result" where
  "checkFees config bridgingFee =
     (if bridgingFee < cc_MinBridgingFeeAmount config
      then Inl (ErrMsg (''bridging fee is less than: '' @ itoa64 (cc_MinBridgingFeeAmount config))) else Inr ())"

definition getOutputAmounts :: "BridgingTxReceiver list \<Rightarrow> u64" where
  "getOutputAmounts receivers = foldl (\<lambda>amount x. amount + br_Amount x) 0 receivers"

text \<open>The payment part of the address is dereferenced: without one the check panics.\<close>

definition checkAddress :: "tx_env \<Rightarrow> string \<Rightarrow> script_ptr option \<Rightarrow> ChainConfig \<Rightarrow> unit io" where
  "checkAddress env addrStr policyScript config =
     io_bind (io_wrap ''invalid address: '' (io_opt (NewCardanoAddressFromString (te_byron env) addrStr))) (\<lambda>addr.
     case policyScript of
       None \<Rightarrow> io_lift (Inr ())
     | Some ps \<Rightarrow>
         io_bind (io_wrap ''failed to retrieve policy id: ''
           (cli_GetPolicyID (te_os env) (NewCliUtils (cc_CardanoCliBinary config)) (script_GetBytesJSON (snd ps)))) (\<lambda>policyID.
         case Option.bind (GetInfo (te_byron env) addr) (\<lambda>(info, _). cai_Payment info) of
           None \<Rightarrow> io_panic
         | Some payment \<Rightarrow>
             io_lift (if hex_encode (cap_Payload payment) \<noteq> policyID
               then Inl (ErrMsg (''policy script does not belong to address: '' @ addrStr)) else Inr ())))"

definition retry_call :: "tx_env \<Rightarrow> TxSender \<Rightarrow> nat \<Rightarrow> 'a \<Rightarrow> (nat \<Rightarrow> 'a answer) \<Rightarrow> 'a io" where
  "retry_call env txSnd k zero handler =
     io_lift (answer_result (ExecuteWithRetry zero (te_ctx env k) handler (ts_retryOptions txSnd)))"

definition populateProtocolParameters :: "tx_env \<Rightarrow> TxSender \<Rightarrow> TxBuilder \<Rightarrow> ChainConfig \<Rightarrow> TxBuilder io" where
  "populateProtocolParameters env txSnd txBuilder config =
     io_bind (case cc_ProtocolParameters config of
         None \<Rightarrow> retry_call env txSnd 0 None (tp_GetProtocolParameters (cc_TxProvider config))
       | Some params \<Rightarrow> io_lift (Inr (Some params))) (\<lambda>protocolParams.
     io_lift (Inr (SetProtocolParameters protocolParams txBuilder)))"

definition zero_tip :: QueryTipData where
  "zero_tip = \<lparr>qt_Block = 0, qt_Epoch = 0, qt_Era = '''', qt_Hash = '''', qt_Slot = 0, qt_SlotInEpoch = 0,
     qt_SlotsToEpochEnd = 0, qt_SyncProgress = ''''\<rparr>"

definition populateTimeToLive :: "tx_env \<Rightarrow> TxSender \<Rightarrow> TxBuilder \<Rightarrow> ChainConfig \<Rightarrow> TxBuilder io" where
  "populateTimeToLive env txSnd txBuilder config =
     io_bind (retry_call env txSnd 1 zero_tip (tp_GetTip (cc_TxProvider config))) (\<lambda>qtd.
     let ttlSlotNumberInc = setOrDefault (cc_TTLSlotNumberInc config) defaultTTLSlotNumberInc in
     io_lift (Inr (SetTimeToLive (qt_Slot qtd + ttlSlotNumberInc) txBuilder)))"

definition adjustLovelaceOutput ::
  "tx_env \<Rightarrow> nat \<Rightarrow> TxBuilder \<Rightarrow> string \<Rightarrow> TokenAmount list \<Rightarrow> u64 \<Rightarrow> u64 \<Rightarrow> u64 io" where
  "adjustLovelaceOutput env k txBuilder addr tokens defaultMinUtxo lovelaceOutputBase =
     (if length tokens = 0 then io_lift (Inr (max lovelaceOutputBase defaultMinUtxo))
      else io_bind (GetMinUtxoForSumMap (te_os env) (te_rng env k) txBuilder addr (GetTokensSumMap tokens)) (\<lambda>calculatedMinUtxo.
        io_lift (Inr (max (max lovelaceOutputBase calculatedMinUtxo) defaultMinUtxo))))"

section \<open>Populating the builder\<close>

text \<open>A deferred call, after a result or an error.\<close>

definition io_defer :: "(files \<Rightarrow> files) \<Rightarrow> 'a io \<Rightarrow> 'a io" where
  "io_defer f c = (\<lambda>fs. map_option (\<lambda>(r, fs). (r, f fs)) (c fs))"

text \<open>The loop over the tokens of one receiver, on the totals and the index of each name.\<close>

definition add_native :: "TokenAmount list \<times> (string \<Rightarrow> nat option) \<Rightarrow> TokenAmount \<Rightarrow> TokenAmount list \<times> (string \<Rightarrow> nat option)" where
  "add_native s token =
     (let (outputNativeTokens, nameToIndex) = s;
          tokenName = TokenName token;
          (indx, outputNativeTokens, nameToIndex) =
            (case nameToIndex tokenName of
               Some indx \<Rightarrow> (indx, outputNativeTokens, nameToIndex)
             | None \<Rightarrow> (length outputNativeTokens, outputNativeTokens @ [\<lparr>ta_Token = ta_Token token, ta_Amount = 0\<rparr>],
                 nameToIndex(tokenName \<mapsto> length outputNativeTokens)))
      in (outputNativeTokens[indx := (outputNativeTokens ! indx)
            \<lparr>ta_Amount := ta_Amount (outputNativeTokens ! indx) + ta_Amount token\<rparr>], nameToIndex))"

definition collect_outputs :: "TxReceiversDto list \<Rightarrow> TxOutput list \<times> u64 \<times> TokenAmount list" where
  "collect_outputs receivers =
     (map (\<lambda>rcv. \<lparr>to_Addr = rd_Addr rcv, to_Amount = rd_Amount rcv, to_Tokens = rd_NativeTokens rcv\<rparr>) receivers,
      foldl (\<lambda>outputLovelace rcv. outputLovelace + rd_Amount rcv) 0 receivers,
      fst (foldl (\<lambda>s rcv. foldl add_native s (rd_NativeTokens rcv)) ([], Map.empty) receivers))"

definition out_conditions :: "u64 \<Rightarrow> u64 \<Rightarrow> u64 \<Rightarrow> TokenAmount list \<Rightarrow> sums" where
  "out_conditions outputLovelace potentialFee srcChangeMinUtxo outputNativeTokens =
     foldl (\<lambda>conditions token. sum_add conditions (TokenName token) (ta_Amount token))
       [AdaTokenName \<mapsto> outputLovelace + potentialFee + srcChangeMinUtxo] outputNativeTokens"

definition remaining_sum :: "sums \<Rightarrow> TokenAmount list \<Rightarrow> sums" where
  "remaining_sum sm outputNativeTokens =
     foldl (\<lambda>sm token. let tokenName = TokenName token; sm = sum_sub sm tokenName (ta_Amount token) in
       if sum_get sm tokenName = 0 then sm(tokenName := None) else sm) sm outputNativeTokens"

text \<open>An unknown chain has the zero configuration, whose provider is nil.\<close>

definition populateTxBuilder :: "tx_env \<Rightarrow> TxSender \<Rightarrow> TxBuilder \<Rightarrow> GenericTxDto \<Rightarrow> (TxBuilder \<times> txBuilderPopulationData) io" where
  "populateTxBuilder env txSnd txBuilder txDto =
     (case ts_chainConfigMap txSnd (gd_SrcChainID txDto) of
        None \<Rightarrow> io_panic
      | Some config \<Rightarrow>
          io_bind (retry_call env txSnd 2 [] (tp_GetUtxos (cc_TxProvider config) (gd_SenderAddr txDto))) (\<lambda>utxos.
          let (txOutputs, outputLovelace, outputNativeTokens) = collect_outputs (gd_Receivers txDto) in
          io_bind (GetMinUtxoForSumMap (te_os env) (te_rng env 1) txBuilder (gd_SenderAddr txDto)
            (SubtractSumMaps (te_rng env 0) (GetUtxosSum utxos) (GetTokensSumMap outputNativeTokens))) (\<lambda>potentialChangeTokenCost.
          let srcChangeMinUtxo = max (cc_MinUtxoValue config) potentialChangeTokenCost;
              potentialFee = setOrDefault (cc_PotentialFee config) defaultPotentialFee;
              conditions = out_conditions outputLovelace potentialFee srcChangeMinUtxo outputNativeTokens;
              utxos = (case ts_utxosTransformer txSnd of None \<Rightarrow> utxos | Some f \<Rightarrow> f utxos) in
          io_bind (io_opt (map_option snd (GetUTXOsForAmounts (te_rng env 2) utxos conditions (ts_maxInputsPerTx txSnd) 1))) (\<lambda>inputs.
          let inputs = inputs\<lparr>in_Sum := remaining_sum (in_Sum inputs) outputNativeTokens\<rparr> in
          io_bind (io_wrap ''failed to create tokens from sum map. err: ''
            (io_opt (GetTokensFromSumMap (te_rng env 3) (in_Sum inputs) []))) (\<lambda>outputRemainingTokens.
          let txBuilder = SetTestNetMagic (cc_TestNetMagic config) (SetMetaData (gd_Metadata txDto) txBuilder);
              txBuilder = (case gd_SenderAddrPolicyScript txDto of
                  Some ps \<Rightarrow> AddInputsWithScript (Some (script_iface ps)) (in_Inputs inputs) txBuilder
                | None \<Rightarrow> AddInputs (in_Inputs inputs) txBuilder);
              txBuilder = AddOutputs txOutputs txBuilder;
              txBuilder = AddOutputs [\<lparr>to_Addr = gd_SenderAddr txDto,
                to_Amount = sum_get (in_Sum inputs) AdaTokenName - sum_get conditions AdaTokenName,
                to_Tokens = outputRemainingTokens\<rparr>] txBuilder in
          io_bind (populateTimeToLive env txSnd txBuilder config) (\<lambda>txBuilder.
          io_lift (Inr (txBuilder, \<lparr>pp_ChangeLovelace = sum_get (in_Sum inputs) AdaTokenName - outputLovelace,
            pp_ChangeMinUtxoAmount = srcChangeMinUtxo, pp_ChosenInputs = inputs\<rparr>)))))))) "

definition sender_witnesses :: "GenericTxDto \<Rightarrow> int" where
  "sender_witnesses txDto = (case gd_SenderAddrPolicyScript txDto of Some ps \<Rightarrow> script_GetCount (snd ps) | None \<Rightarrow> 1)"

definition calculateFee :: "tx_env \<Rightarrow> TxSender \<Rightarrow> TxBuilder \<Rightarrow> GenericTxDto \<Rightarrow> TxFeeInfo io" where
  "calculateFee env txSnd txBuilder txDto =
     io_bind (populateTxBuilder env txSnd txBuilder txDto) (\<lambda>(txBuilder, data).
     io_bind (CalculateFee (te_os env) txBuilder (sender_witnesses txDto)) (\<lambda>fee.
     io_lift (Inr \<lparr>tf_Fee = fee, tf_ChangeMinUtxoAmount = pp_ChangeMinUtxoAmount data\<rparr>)))"

definition createTx :: "tx_env \<Rightarrow> TxSender \<Rightarrow> TxBuilder \<Rightarrow> GenericTxDto \<Rightarrow> TxInfo io" where
  "createTx env txSnd txBuilder txDto =
     io_bind (populateTxBuilder env txSnd txBuilder txDto) (\<lambda>(txBuilder, data).
     io_bind (CalculateFee (te_os env) txBuilder (sender_witnesses txDto)) (\<lambda>feeCurrencyLovelace.
     let txBuilder = SetFee feeCurrencyLovelace txBuilder;
         change = pp_ChangeLovelace data - feeCurrencyLovelace in
     if change \<noteq> 0 \<and> (change > pp_ChangeLovelace data \<or> change < pp_ChangeMinUtxoAmount data)
     then io_lift (Inl (ErrMsg (''insufficient remaining amount '' @ itoa64 (pp_ChangeLovelace data) @ '' for fee '' @
       itoa64 feeCurrencyLovelace @ '', or minimum UTXO ('' @ itoa64 (pp_ChangeMinUtxoAmount data) @ '') not satisfied'')))
     else
       case (if change \<noteq> 0 then UpdateOutputAmount (- 1) change [] txBuilder else RemoveOutput (- 1) txBuilder) of
         None \<Rightarrow> io_panic
       | Some txBuilder \<Rightarrow>
           io_bind (Build (te_os env) txBuilder) (\<lambda>(txRaw, txHash).
           io_lift (Inr \<lparr>tx_TxRaw = txRaw, tx_TxHash = txHash, tx_ChangeMinUtxoAmount = pp_ChangeMinUtxoAmount data,
             tx_ChosenInputs = pp_ChosenInputs data\<rparr>))))"

section \<open>Bridging transactions\<close>

fun metadata_txs :: "TxSender \<Rightarrow> nat \<Rightarrow> BridgingTxReceiver list \<Rightarrow> BridgingRequestMetadataTransaction list result option" where
  "metadata_txs txSnd i [] = Some (Inr [])"
| "metadata_txs txSnd i (x # xs) =
     (if br_Addr x = '''' then Some (Inl (ErrMsg (''receiver '' @ itoa i @ '' address is empty'')))
      else if br_Amount x < ts_minAmountToBridge txSnd
      then Some (Inl (ErrMsg (''amount for receiver '' @ itoa i @ '' is lower than '' @ itoa64 (ts_minAmountToBridge txSnd))))
      else Option.bind (AddrToMetaDataAddr (br_Addr x)) (\<lambda>addr.
        map_option (\<lambda>r. rbind r (\<lambda>txs. Inr (\<lparr>mx_Address = addr, mx_Amount = br_Amount x\<rparr> # txs)))
          (metadata_txs txSnd (i + 1) xs)))"

definition CreateMetadata ::
  "TxSender \<Rightarrow> string \<Rightarrow> string \<Rightarrow> string \<Rightarrow> BridgingTxReceiver list \<Rightarrow> u64 \<Rightarrow> BridgingRequestMetadata result option" where
  "CreateMetadata txSnd senderAddr srcChainID dstChainID receivers bridgingFee =
     (case getConfigs txSnd srcChainID dstChainID of
        Inl e \<Rightarrow> Some (Inl e)
      | Inr _ \<Rightarrow>
          (case metadata_txs txSnd 0 receivers of
             None \<Rightarrow> None
           | Some (Inl e) \<Rightarrow> Some (Inl e)
           | Some (Inr txs) \<Rightarrow>
               Option.bind (AddrToMetaDataAddr senderAddr) (\<lambda>sender.
               Some (Inr \<lparr>bm_BridgingTxType = bridgingMetaDataType, bm_DestinationChainID = dstChainID,
                 bm_SenderAddr = sender, bm_Transactions = txs, bm_BridgingFee = bridgingFee\<rparr>))))"

definition createGenericTxDtoAndMetadata ::
  "tx_env \<Rightarrow> TxSender \<Rightarrow> BridgingTxDto \<Rightarrow> bridgingTxPreparedData \<Rightarrow> (GenericTxDto \<times> BridgingRequestMetadata) result option" where
  "createGenericTxDtoAndMetadata env txSnd txDto preparedData =
     map_option (\<lambda>r. rbind r (\<lambda>metadata.
       Inr (\<lparr>gd_SrcChainID = bd_SrcChainID txDto, gd_SenderAddr = bd_SenderAddr txDto,
         gd_SenderAddrPolicyScript = bd_SenderAddrPolicyScript txDto,
         gd_Metadata = Some (metadata_Marshal (te_marshal env) metadata),
         gd_Receivers = [\<lparr>rd_Addr = pd_BridgingAddress preparedData, rd_Amount = pd_OutputLovelace preparedData,
           rd_NativeTokens = pd_OutputNativeTokens preparedData\<rparr>]\<rparr>, metadata)))
       (CreateMetadata txSnd (bd_SenderAddr txDto) (bd_SrcChainID txDto) (bd_DstChainID txDto) (bd_Receivers txDto)
         (pd_BridgingFee preparedData))"

definition prepareBridgingTx :: "tx_env \<Rightarrow> TxSender \<Rightarrow> BridgingTxDto \<Rightarrow> bool \<Rightarrow> bridgingTxPreparedData io" where
  "prepareBridgingTx env txSnd txDto validateAddressData =
     io_bind (io_lift (getConfigs txSnd (bd_SrcChainID txDto) (bd_DstChainID txDto))) (\<lambda>(srcConfig, _).
     io_bind (if validateAddressData then checkAddress env (bd_SenderAddr txDto) (bd_SenderAddrPolicyScript txDto) srcConfig
       else io_lift (Inr ())) (\<lambda>_.
     let outputLovelaceBase = getOutputAmounts (bd_Receivers txDto) in
     io_bind (io_lift (checkFees srcConfig (bd_BridgingFee txDto))) (\<lambda>_.
     io_bind (NewTxBuilder (te_os env) (cc_CardanoCliBinary srcConfig)) (\<lambda>txBuilder.
     io_bind (populateProtocolParameters env txSnd txBuilder srcConfig) (\<lambda>txBuilder.
     let outputNativeTokens = [];
         bridgingAddress = (if bd_BridgingAddress txDto = '''' then cc_MultiSigAddr srcConfig else bd_BridgingAddress txDto) in
     io_bind (adjustLovelaceOutput env 4 txBuilder bridgingAddress outputNativeTokens (cc_MinUtxoValue srcConfig) outputLovelaceBase)
       (\<lambda>outputLovelaceBeforeAdditionalCharges.
     let bridgingFee = bd_BridgingFee txDto;
         outputLovelace = outputLovelaceBeforeAdditionalCharges + bridgingFee;
         bridgingFee = (if outputLovelaceBeforeAdditionalCharges > outputLovelaceBase
           then bridgingFee + (outputLovelaceBeforeAdditionalCharges - outputLovelaceBase) else bridgingFee) in
     io_lift (Inr \<lparr>pd_TxBuilder = txBuilder, pd_OutputLovelace = outputLovelace, pd_OutputNativeTokens = outputNativeTokens,
       pd_BridgingAddress = bridgingAddress, pd_BridgingFee = bridgingFee\<rparr>)))))))"

definition CreateBridgingTx :: "tx_env \<Rightarrow> TxSender \<Rightarrow> BridgingTxDto \<Rightarrow> (TxInfo \<times> BridgingRequestMetadata) io" where
  "CreateBridgingTx env txSnd txDto =
     io_bind (prepareBridgingTx env txSnd txDto True) (\<lambda>preparedData.
     io_defer (Dispose (pd_TxBuilder preparedData))
       (io_bind (io_opt (createGenericTxDtoAndMetadata env txSnd txDto preparedData)) (\<lambda>(genericDto, metadata).
        io_bind (createTx env txSnd (pd_TxBuilder preparedData) genericDto) (\<lambda>txInfo.
        io_lift (Inr (txInfo, metadata))))))"

definition CalculateBridgingTxFee :: "tx_env \<Rightarrow> TxSender \<Rightarrow> BridgingTxDto \<Rightarrow> (TxFeeInfo \<times> BridgingRequestMetadata) io" where
  "CalculateBridgingTxFee env txSnd txDto =
     io_bind (prepareBridgingTx env txSnd txDto True) (\<lambda>preparedData.
     io_defer (Dispose (pd_TxBuilder preparedData))
       (io_bind (io_opt (createGenericTxDtoAndMetadata env txSnd txDto preparedData)) (\<lambda>(genericDto, metadata).
        io_bind (calculateFee env txSnd (pd_TxBuilder preparedData) genericDto) (\<lambda>txFeeInfo.
        io_lift (Inr (txFeeInfo, metadata))))))"

definition GetBridgingFee :: "tx_env \<Rightarrow> TxSender \<Rightarrow> BridgingTxDto \<Rightarrow> u64 io" where
  "GetBridgingFee env txSnd bridgingTxInput =
     io_bind (prepareBridgingTx env txSnd bridgingTxInput False) (\<lambda>data.
     io_defer (Dispose (pd_TxBuilder data)) (io_lift (Inr (pd_BridgingFee data))))"

section \<open>Generic transactions\<close>

text \<open>The loop raises the amounts in the caller's list of receivers.\<close>

fun adjust_receivers :: "tx_env \<Rightarrow> TxBuilder \<Rightarrow> u64 \<Rightarrow> nat \<Rightarrow> TxReceiversDto list \<Rightarrow> TxReceiversDto list io" where
  "adjust_receivers env txBuilder minUtxo i [] = io_lift (Inr [])"
| "adjust_receivers env txBuilder minUtxo i (rcv # rcvs) =
     io_bind (adjustLovelaceOutput env (4 + i) txBuilder (rd_Addr rcv) (rd_NativeTokens rcv) minUtxo (rd_Amount rcv)) (\<lambda>amount.
     io_bind (adjust_receivers env txBuilder minUtxo (i + 1) rcvs) (\<lambda>rest.
     io_lift (Inr (rcv\<lparr>rd_Amount := amount\<rparr> # rest))))"

definition CreateTxGeneric :: "tx_env \<Rightarrow> TxSender \<Rightarrow> GenericTxDto \<Rightarrow> TxInfo io" where
  "CreateTxGeneric env txSnd txDto =
     (case ts_chainConfigMap txSnd (gd_SrcChainID txDto) of
        None \<Rightarrow> io_lift (Inl (ErrMsg (''chain '' @ gd_SrcChainID txDto @ '' config not found'')))
      | Some srcConfig \<Rightarrow>
          io_bind (NewTxBuilder (te_os env) (cc_CardanoCliBinary srcConfig)) (\<lambda>txBuilder.
          io_defer (Dispose txBuilder)
            (io_bind (checkAddress env (gd_SenderAddr txDto) (gd_SenderAddrPolicyScript txDto) srcConfig) (\<lambda>_.
             io_bind (populateProtocolParameters env txSnd txBuilder srcConfig) (\<lambda>txBuilder.
             io_bind (adjust_receivers env txBuilder (cc_MinUtxoValue srcConfig) 0 (gd_Receivers txDto)) (\<lambda>receivers.
             createTx env txSnd txBuilder (txDto\<lparr>gd_Receivers := receivers\<rparr>)))))))"

definition SubmitTx :: "tx_env \<Rightarrow> TxSender \<Rightarrow> string \<Rightarrow> bytes \<Rightarrow> bytes \<Rightarrow> unit io" where
  "SubmitTx env txSnd chainID txRaw signingKey =
     (case ts_chainConfigMap txSnd chainID of
        None \<Rightarrow> io_lift (Inl (ErrMsg (chainID @ '' chain config not found'')))
      | Some chainConfig \<Rightarrow>
          io_bind (NewTxBuilder (te_os env) (cc_CardanoCliBinary chainConfig)) (\<lambda>builder.
          io_defer (Dispose builder)
            (io_bind (SignTx (te_os env) (te_cbor env) builder txRaw [signingKey]) (\<lambda>txSigned.
             io_bind (retry_call env txSnd 3 False (\<lambda>i. (True, tp_SubmitTx (cc_TxProvider chainConfig) txSigned i))) (\<lambda>_.
             io_lift (Inr ()))))))"

end
