(* ===== verification/Wallet_Data_Props.thy ===== *)
theory Wallet_Data_Props
  imports Wallet_Data
begin

text \<open>
  Token names, the helpers on sums and the change output. The results do not depend on the order
  in which a map is visited, except for the order of the tokens in the change output.
\<close>

section \<open>Names\<close>

lemma NewToken_full:
  "CHR ''.'' \<notin> set pid \<Longrightarrow> NewTokenWithFullName (pid @ CHR ''.'' # hex_encode bs) True = Inr \<lparr>tk_PolicyID = pid, tk_Name = bytes_str bs\<rparr>"
  using hex_encode_no_dot [of bs] by (simp add: NewTokenWithFullName_def split_on_append split_on_none)

text \<open>Every token name that the code writes is of this form.\<close>

definition canonical :: "string \<Rightarrow> bool" where
  "canonical k \<longleftrightarrow> (\<exists>tok. k = TokenName tok)"

lemma split_on_length: "length (split_on sep s) = Suc (count_list s sep)"
proof (induction s)
  case (Cons c s)
  then show ?case by (auto split: list.splits)
qed simp

lemma NewToken_canonical:
  assumes "canonical k" "NewTokenWithFullName k True = Inr tok"
  shows "TokenName (NewTokenAmount tok v) = k"
proof -
  obtain pid nm where k: "k = pid @ ''.'' @ hex_encode (str_bytes nm)"
    using assms(1) by (auto simp: canonical_def TokenName_def)
  have "length (split_on (CHR ''.'') k) = 2"
    using assms(2) by (simp add: NewTokenWithFullName_def Let_def split: if_splits)
  then have "CHR ''.'' \<notin> set pid" by (simp add: split_on_length k count_list_0_iff)
  with assms(2) k show ?thesis by (auto simp: NewToken_full TokenName_def NewTokenAmount_def)
qed

lemma NewToken_TokenName:
  "CHR ''.'' \<notin> set (tk_PolicyID (ta_Token tok)) \<Longrightarrow> NewTokenWithFullName (TokenName tok) True = Inr (ta_Token tok)"
  by (simp add: TokenName_def NewToken_full)

text \<open>
  The full name of a token is read back as the token exactly when its policy id has no
  dot, and then also by the tolerant reader.
\<close>

theorem token_name_roundtrip:
  "(NewTokenWithFullName (Token_String tok) True = Inr tok \<longleftrightarrow> CHR ''.'' \<notin> set (tk_PolicyID tok)) \<and>
   (CHR ''.'' \<notin> set (tk_PolicyID tok) \<longrightarrow> NewTokenWithFullNameTry (Token_String tok) = Inr tok)"
proof -
  have "length (split_on (CHR ''.'') (Token_String tok)) = 2 \<longleftrightarrow> CHR ''.'' \<notin> set (tk_PolicyID tok)"
    using hex_encode_no_dot [of "str_bytes (tk_Name tok)"]
    by (simp add: split_on_length Token_String_def count_list_0_iff)
  then show ?thesis
    using NewToken_full [of "tk_PolicyID tok" "str_bytes (tk_Name tok)"]
    by (auto simp: Token_String_def NewTokenWithFullNameTry_def NewTokenWithFullName_def)
qed

theorem token_name_roundtrip_witness:
  "NewTokenWithFullNameTry (Token_String \<lparr>tk_PolicyID = ''ab01'', tk_Name = ''Coin''\<rparr>) = Inr \<lparr>tk_PolicyID = ''ab01'', tk_Name = ''Coin''\<rparr>"
  using token_name_roundtrip [of "\<lparr>tk_PolicyID = ''ab01'', tk_Name = ''Coin''\<rparr>"] by simp

section \<open>Sums\<close>

lemma SubtractSumMaps_fold:
  "distinct ks \<Longrightarrow> foldl (\<lambda>m tokenName. case b tokenName of
       None \<Rightarrow> m
     | Some tokenAmountToSubtract \<Rightarrow>
         if sum_get m tokenName > tokenAmountToSubtract
         then m(tokenName \<mapsto> sum_get m tokenName - tokenAmountToSubtract)
         else m(tokenName := None)) a ks t =
   (if t \<in> set ks then case b t of None \<Rightarrow> a t
      | Some y \<Rightarrow> if sum_get a t > y then Some (sum_get a t - y) else None
    else a t)"
  by (induction ks arbitrary: a) (auto split: option.splits simp: sum_get_def)

lemma SubtractSumMaps_pointwise:
  assumes "range_ok rng" "finite (dom a)"
  shows "SubtractSumMaps rng a b t =
    (case a t of None \<Rightarrow> None
     | Some x \<Rightarrow> (case b t of None \<Rightarrow> Some x | Some y \<Rightarrow> if x > y then Some (x - y) else None))"
proof -
  have "distinct (rng 0 a)" "set (rng 0 a) = dom a" using assms by (simp_all add: range_ok_def)
  then show ?thesis unfolding SubtractSumMaps_def by (subst SubtractSumMaps_fold) (auto simp: sum_get_def split: option.splits)
qed

lemma AddSumMaps_pointwise:
  assumes "range_ok rng" "finite (dom b)"
  shows "AddSumMaps rng a b t = (if t \<in> dom b then Some (sum_get a t + sum_get b t) else a t)"
proof -
  have "distinct ks \<Longrightarrow> foldl (\<lambda>m k. sum_add m k (sum_get b k)) a ks t =
      (if t \<in> set ks then Some (sum_get a t + sum_get b t) else a t)" for ks
    by (induction ks arbitrary: a) (auto simp: sum_add_def sum_get_def)
  moreover have "distinct (rng 0 b)" "set (rng 0 b) = dom b" using assms by (simp_all add: range_ok_def)
  ultimately show ?thesis by (simp add: AddSumMaps_def)
qed

text \<open>
  Subtraction of sums does not depend on the order of the visit: a token that is not subtracted
  keeps its entry, one with more than is subtracted keeps the difference, and one with at most as
  much loses its entry; it never underflows.
\<close>

theorem SubtractSumMaps_effect:
  assumes "range_ok rng" "range_ok rng'" "finite (dom a)"
  shows "SubtractSumMaps rng' a b = SubtractSumMaps rng a b \<and>
    unat (sum_get (SubtractSumMaps rng a b) t) = unat (sum_get a t) - unat (sum_get b t) \<and>
    (t \<in> dom (SubtractSumMaps rng a b) \<longleftrightarrow> t \<in> dom a \<and> (t \<in> dom b \<longrightarrow> sum_get b t < sum_get a t))"
proof (intro conjI)
  have "unat (x - y) = unat x - unat y" if "y < x" for x y :: u64
    using that by (simp add: unat_sub less_imp_le)
  then show "unat (sum_get (SubtractSumMaps rng a b) t) = unat (sum_get a t) - unat (sum_get b t)"
    by (auto simp: SubtractSumMaps_pointwise [OF assms(1,3)] sum_get_def word_less_nat_alt split: option.splits)
  show "t \<in> dom (SubtractSumMaps rng a b) \<longleftrightarrow> t \<in> dom a \<and> (t \<in> dom b \<longrightarrow> sum_get b t < sum_get a t)"
    by (auto simp: dom_def SubtractSumMaps_pointwise [OF assms(1,3)] sum_get_def split: option.splits if_splits)
  show "SubtractSumMaps rng' a b = SubtractSumMaps rng a b"
    using assms by (intro ext) (simp add: SubtractSumMaps_pointwise)
qed

definition demo_rng :: ranges where
  "demo_rng = (\<lambda>n m. sorted_list_of_set (dom m))"

definition demo_rng' :: ranges where
  "demo_rng' = (\<lambda>n m. rev (sorted_list_of_set (dom m)))"

lemma demo_rng_ok: "range_ok demo_rng" "range_ok demo_rng'"
  by (simp_all add: range_ok_def demo_rng_def demo_rng'_def)

theorem SubtractSumMaps_effect_witness:
  "sum_get (SubtractSumMaps demo_rng [''x'' \<mapsto> 5, ''y'' \<mapsto> 3] [''x'' \<mapsto> 2, ''y'' \<mapsto> 3]) ''x'' = 3 \<and>
   ''y'' \<notin> dom (SubtractSumMaps demo_rng [''x'' \<mapsto> 5, ''y'' \<mapsto> 3] [''x'' \<mapsto> 2, ''y'' \<mapsto> 3])"
  using SubtractSumMaps_effect [OF demo_rng_ok, of "[''x'' \<mapsto> 5, ''y'' \<mapsto> 3]" "[''x'' \<mapsto> 2, ''y'' \<mapsto> 3]" "''x''"]
    SubtractSumMaps_effect [OF demo_rng_ok, of "[''x'' \<mapsto> 5, ''y'' \<mapsto> 3]" "[''x'' \<mapsto> 2, ''y'' \<mapsto> 3]" "''y''"]
  by (auto simp: word_unat_eq_iff)

section \<open>Change\<close>

lemma change_tokens_ok:
  assumes "change_tokens base tot outs ks = Inr toks" "distinct ks" "\<forall>k \<in> set ks. k \<noteq> AdaTokenName \<longrightarrow> canonical k"
  shows "(\<forall>t. token_sum toks t = (if t \<in> set ks \<and> t \<noteq> AdaTokenName
        then sum_get tot t + first_token_amount base t - sum_get outs t else 0)) \<and>
    (\<forall>t \<in> set ks. t \<noteq> AdaTokenName \<longrightarrow> sum_get outs t \<le> sum_get tot t + first_token_amount base t)"
  using assms
proof (induction ks arbitrary: toks)
  case (Cons k ks)
  let ?d = "sum_get tot k + first_token_amount base k - sum_get outs k"
  show ?case
  proof (cases "k = AdaTokenName")
    case True
    with Cons show ?thesis by auto
  next
    case False
    have le: "sum_get outs k \<le> sum_get tot k + first_token_amount base k"
      using Cons.prems(1) False by (auto simp: Let_def not_less split: if_splits)
    show ?thesis
    proof (cases "?d > 0")
      case True
      then obtain tok ts where t: "NewTokenWithFullName k True = Inr tok" "change_tokens base tot outs ks = Inr ts"
        "toks = NewTokenAmount tok ?d # ts"
        using Cons.prems(1) False le by (auto simp: Let_def rbind_eq_Inr not_less [symmetric])
      have "TokenName (NewTokenAmount tok ?d) = k" "ta_Amount (NewTokenAmount tok ?d) = ?d"
        using NewToken_canonical t(1) Cons.prems(3) False by (simp_all add: NewTokenAmount_def)
      with Cons.IH [OF t(2)] Cons.prems(2,3) le False t(3) show ?thesis by auto
    next
      case zero: False
      then have "?d = 0" by (simp add: word_gt_0)
      moreover have "change_tokens base tot outs ks = Inr toks"
        using Cons.prems(1) False le zero by (simp add: Let_def not_less [symmetric])
      ultimately show ?thesis using Cons.IH [of toks] Cons.prems(2,3) le False by auto
    qed
  qed
qed simp

text \<open>
  The change output conserves value: for lovelace and every token of the inputs, change plus
  outputs is base plus inputs, and the outputs never exceed that. A token that is not among the
  inputs is not checked and not returned, even when the base output holds it.
\<close>

theorem CreateTxOutputChange_conserves:
  assumes "range_ok rng" "finite (dom tot)" "\<forall>k \<in> dom tot. k \<noteq> AdaTokenName \<longrightarrow> canonical k"
    "CreateTxOutputChange rng base tot outs = Inr change"
  shows "to_Addr change = to_Addr base \<and>
    to_Amount change + sum_get outs AdaTokenName = to_Amount base + sum_get tot AdaTokenName \<and>
    sum_get outs AdaTokenName \<le> to_Amount base + sum_get tot AdaTokenName \<and>
    (\<forall>t. t \<noteq> AdaTokenName \<longrightarrow>
      (if t \<in> dom tot
       then token_sum (to_Tokens change) t + sum_get outs t = sum_get tot t + first_token_amount (to_Tokens base) t \<and>
         sum_get outs t \<le> sum_get tot t + first_token_amount (to_Tokens base) t
       else token_sum (to_Tokens change) t = 0))"
proof -
  have ks: "distinct (rng 0 tot)" "set (rng 0 tot) = dom tot" using assms(1,2) by (simp_all add: range_ok_def)
  obtain toks where t: "change_tokens (to_Tokens base) tot outs (rng 0 tot) = Inr toks"
    "sum_get outs AdaTokenName \<le> to_Amount base + sum_get tot AdaTokenName"
    "change = \<lparr>to_Addr = to_Addr base, to_Amount = to_Amount base + sum_get tot AdaTokenName - sum_get outs AdaTokenName,
       to_Tokens = toks\<rparr>"
    using assms(4) by (auto simp: CreateTxOutputChange_def Let_def rbind_eq_Inr not_less split: if_splits)
  with change_tokens_ok [OF t(1) ks(1)] assms(3) ks(2) show ?thesis by auto
qed

definition demo_token :: TokenAmount where
  "demo_token = \<lparr>ta_Token = \<lparr>tk_PolicyID = ''p'', tk_Name = ''n''\<rparr>, ta_Amount = 7\<rparr>"

definition demo_tot :: sums where
  "demo_tot = [AdaTokenName \<mapsto> 10, TokenName demo_token \<mapsto> 7]"

definition demo_tot_rng :: ranges where
  "demo_tot_rng = (\<lambda>n m. if m = demo_tot then [TokenName demo_token, AdaTokenName] else sorted_list_of_set (dom m))"

lemma demo_names: "TokenName demo_token \<noteq> AdaTokenName" "CHR ''.'' \<notin> set (tk_PolicyID (ta_Token demo_token))"
  by (simp_all add: demo_token_def TokenName_def AdaTokenName_def)

lemma demo_tot_rng_ok: "range_ok demo_tot_rng"
  using demo_names(1) by (auto simp: range_ok_def demo_tot_rng_def demo_tot_def)

theorem CreateTxOutputChange_conserves_witness:
  "\<exists>change. CreateTxOutputChange demo_tot_rng \<lparr>to_Addr = ''a'', to_Amount = 1, to_Tokens = []\<rparr> demo_tot [AdaTokenName \<mapsto> 4] = Inr change \<and>
     to_Amount change + 4 = 1 + 10 \<and> token_sum (to_Tokens change) (TokenName demo_token) = 7"
proof -
  let ?base = "\<lparr>to_Addr = ''a'', to_Amount = 1, to_Tokens = []\<rparr>"
  have "\<exists>change. CreateTxOutputChange demo_tot_rng ?base demo_tot [AdaTokenName \<mapsto> 4] = Inr change"
    using demo_names NewToken_TokenName [of demo_token]
    by (simp add: CreateTxOutputChange_def demo_tot_rng_def demo_tot_def)
  then obtain change where c: "CreateTxOutputChange demo_tot_rng ?base demo_tot [AdaTokenName \<mapsto> 4] = Inr change" by blast
  have "finite (dom demo_tot)" "\<forall>k \<in> dom demo_tot. k \<noteq> AdaTokenName \<longrightarrow> canonical k"
    by (auto simp: demo_tot_def canonical_def)
  from CreateTxOutputChange_conserves [OF demo_tot_rng_ok this c] have
    "to_Amount change + sum_get [AdaTokenName \<mapsto> 4] AdaTokenName = 1 + sum_get demo_tot AdaTokenName"
    "token_sum (to_Tokens change) (TokenName demo_token) + sum_get [AdaTokenName \<mapsto> 4] (TokenName demo_token) = sum_get demo_tot (TokenName demo_token)"
    using demo_names(1) by (auto simp: demo_tot_def)
  with c demo_names(1) show ?thesis by (auto simp: demo_tot_def sum_get_def)
qed

end
