(* ===== verification/Utxo_Selection_Props.thy ===== *)
theory Utxo_Selection_Props
  imports Utxo_Selection Wallet_Data_Props
begin

text \<open>
  The selection of unspent outputs. Sums of words are compared with exact sums (\<open>utxos_total\<close>) under
  the assumption that the amounts of all offered outputs together fit into 64 bits, which holds
  for every set of outputs of the ledger.
\<close>

section \<open>Exact sums\<close>

definition token_total :: "TokenAmount list \<Rightarrow> string \<Rightarrow> nat" where
  "token_total tokens t = (\<Sum>tok \<leftarrow> tokens. if TokenName tok = t then unat (ta_Amount tok) else 0)"

definition utxo_total :: "Utxo \<Rightarrow> string \<Rightarrow> nat" where
  "utxo_total u t = (if t = AdaTokenName then unat (ut_Amount u) else 0) + token_total (ut_Tokens u) t"

definition utxos_total :: "Utxo list \<Rightarrow> string \<Rightarrow> nat" where
  "utxos_total us t = (\<Sum>u \<leftarrow> us. utxo_total u t)"

definition fits :: "Utxo list \<Rightarrow> bool" where
  "fits us \<longleftrightarrow> (\<forall>t. utxos_total us t < 2 ^ 64)"

text \<open>The exact sum read as a word is the sum the code computes.\<close>

lemma token_total_simps [simp]:
  "token_total [] t = 0"
  "token_total (tok # toks) t = (if TokenName tok = t then unat (ta_Amount tok) else 0) + token_total toks t"
  by (simp_all add: token_total_def)

lemma utxos_total_simps [simp]:
  "utxos_total [] t = 0" "utxos_total (u # us) t = utxo_total u t + utxos_total us t" "utxos_total (us @ vs) t = utxos_total us t + utxos_total vs t"
  by (simp_all add: utxos_total_def)

lemma of_nat_token_total: "word_of_nat (token_total toks t) = token_sum toks t"
  by (induction toks) simp_all

lemma of_nat_utxo_total: "word_of_nat (utxo_total u t) = amount_of u t"
  by (simp add: utxo_total_def amount_of_def of_nat_token_total)

lemma of_nat_total: "word_of_nat (utxos_total us t) = amounts us t"
  by (induction us) (simp_all add: of_nat_utxo_total)

lemma unat_amounts: "utxos_total us t < 2 ^ 64 \<Longrightarrow> unat (amounts us t) = utxos_total us t"
  by (simp add: of_nat_total [symmetric] unat_of_nat)

lemma fits_sub: "fits us \<Longrightarrow> mset vs \<subseteq># mset us \<Longrightarrow> utxos_total vs t < 2 ^ 64"
proof -
  assume f: "fits us" and "mset vs \<subseteq># mset us"
  then obtain M where "mset us = mset vs + M" by (meson mset_subset_eq_exists_conv)
  moreover have "utxos_total xs t = (\<Sum>u \<in># mset xs. utxo_total u t)" for xs
    by (simp add: utxos_total_def flip: sum_mset_sum_list)
  ultimately have "utxos_total vs t \<le> utxos_total us t" by simp
  with f show ?thesis unfolding fits_def by (meson le_less_trans)
qed

lemma utxos_total_mset: "mset us = mset vs \<Longrightarrow> utxos_total us t = utxos_total vs t"
  unfolding utxos_total_def by (metis mset_map sum_mset_sum_list)

lemma total_sum_mset: "utxos_total us t = (\<Sum>u \<in># mset us. utxo_total u t)"
  by (simp add: utxos_total_def flip: sum_mset_sum_list)

lemma mset_take_sub: "mset (take n xs) \<subseteq># mset xs"
  by (metis append_take_drop_id mset_append mset_subset_eq_add_left)

section \<open>The smallest output\<close>

lemma min_loop_ok:
  assumes "ps ! idx = m" "idx < length ps" "length ps = Suc i" "\<forall>u \<in> set ps. amt m \<le> amt u"
    "min_loop amt m (amt m) idx i us = (m', k)"
  shows "k < length (ps @ us) \<and> (ps @ us) ! k = m' \<and> (\<forall>u \<in> set (ps @ us). amt m' \<le> amt u)"
  using assms
proof (induction us arbitrary: ps m idx i)
  case (Cons u us)
  show ?case
  proof (cases "amt u < amt m")
    case True
    have "k < length ((ps @ [u]) @ us) \<and> ((ps @ [u]) @ us) ! k = m' \<and> (\<forall>v \<in> set ((ps @ [u]) @ us). amt m' \<le> amt v)"
      by (rule Cons.IH [of "ps @ [u]" "Suc i" u "Suc i"])
        (use Cons.prems True in \<open>auto simp: nth_append intro: less_imp_le less_le_trans\<close>)
    then show ?thesis by simp
  next
    case False
    have "k < length ((ps @ [u]) @ us) \<and> ((ps @ [u]) @ us) ! k = m' \<and> (\<forall>v \<in> set ((ps @ [u]) @ us). amt m' \<le> amt v)"
      by (rule Cons.IH [of "ps @ [u]" idx m "Suc i"]) (use Cons.prems False in \<open>auto simp: nth_append not_less\<close>)
    then show ?thesis by simp
  qed
qed auto

lemma min_utxo_ok:
  assumes "us \<noteq> []"
  shows "\<exists>m k. min_utxo amt us = Some (m, k) \<and> k < length us \<and> us ! k = m \<and> (\<forall>u \<in> set us. amt m \<le> amt u)"
proof -
  obtain u vs where us: "us = u # vs" using assms by (cases us) auto
  obtain m k where "min_loop amt u (amt u) 0 0 vs = (m, k)" by fastforce
  with min_loop_ok [of "[u]" 0 u 0 amt vs m k] us show ?thesis by (simp add: min_utxo_def)
qed

section \<open>Swapping inside a prefix\<close>

lemma length_swap [simp]: "length (swap xs i j) = length xs"
  by (simp add: swap_def)

lemma mset_swap_eq: "i < length xs \<Longrightarrow> j < length xs \<Longrightarrow> mset (swap xs i j) = mset xs"
  unfolding swap_def by (rule mset_swap)

lemma take_swap: "i < k \<Longrightarrow> j < k \<Longrightarrow> take k (swap xs i j) = swap (take k xs) i j"
  by (cases "i < length xs"; cases "j < length xs") (auto simp: swap_def list_eq_iff_nth_eq nth_list_update)

lemma nth_swap: "i < length xs \<Longrightarrow> j < length xs \<Longrightarrow> swap xs i j ! j = xs ! i" "i < length xs \<Longrightarrow> j < length xs \<Longrightarrow> swap xs i j ! i = xs ! j"
  by (simp_all add: swap_def nth_list_update)

lemma take_swap_low: "k \<le> i \<Longrightarrow> k \<le> j \<Longrightarrow> take k (swap xs i j) = take k xs"
  by (simp add: swap_def)

lemma mset_take_swap: "i < k \<Longrightarrow> j < k \<Longrightarrow> k \<le> length xs \<Longrightarrow> mset (take k (swap xs i j)) = mset (take k xs)"
  by (simp add: take_swap mset_swap_eq)

section \<open>Several tokens: soundness\<close>

lemma satisfied_iff:
  assumes "range_ok rng" "finite (dom conditions)"
  shows "doesSumSatisfyCondition (rng k conditions) cs conditions \<longleftrightarrow> (\<forall>t. sum_get conditions t \<le> sum_get cs t)"
proof -
  have "doesSumSatisfyCondition ks cs conditions \<longleftrightarrow> (\<forall>t \<in> set ks. sum_get conditions t \<le> sum_get cs t)" for ks
    by (induction ks) auto
  moreover have "set (rng k conditions) = dom conditions" using assms by (simp add: range_ok_def)
  moreover have "sum_get conditions t = 0" if "t \<notin> dom conditions" for t
    using that by (simp add: sum_get_def domIff)
  ultimately show ?thesis by (metis word_zero_le)
qed

text \<open>What the loop keeps before index \<open>i\<close>.\<close>

definition sel_inv :: "Utxo multiset \<Rightarrow> int \<Rightarrow> nat \<Rightarrow> Utxo list \<Rightarrow> sums \<Rightarrow> sums \<Rightarrow> nat \<Rightarrow> bool" where
  "sel_inv M maxInputs i utxos cs cst cc \<longleftrightarrow> mset utxos = M \<and> cc \<le> i \<and> i \<le> length utxos \<and>
     (0 < maxInputs \<longrightarrow> int cc < maxInputs) \<and>
     (\<forall>t. sum_get cs t = amounts (take cc utxos) t) \<and> (\<forall>t. sum_get cst t = amounts (take i utxos) t)"

lemma sel_inv_start: "sel_inv (mset utxos) maxInputs 0 utxos Map.empty Map.empty 0"
  by (simp add: sel_inv_def)

text \<open>The state after the new output is taken in, before it may be exchanged.\<close>

lemma sel_inv_take:
  assumes I: "sel_inv M maxInputs i utxos cs cst cc" and i: "i < length utxos"
  defines "us \<equiv> swap utxos cc i"
  shows "mset us = M" "length us = length utxos" "take (Suc cc) us = take cc utxos @ [utxos ! i]"
    "mset (take (Suc i) us) = mset (take (Suc i) utxos)" "drop (Suc i) us = drop (Suc i) utxos"
    "\<forall>t. sum_get (add_utxo cs (utxos ! i)) t = amounts (take (Suc cc) us) t"
    "\<forall>t. sum_get (add_utxo cst (utxos ! i)) t = amounts (take (Suc i) us) t"
proof -
  have c: "cc \<le> i" "mset utxos = M" using I by (simp_all add: sel_inv_def)
  show "mset us = M" "length us = length utxos" using c i by (simp_all add: us_def mset_swap_eq)
  show t: "take (Suc cc) us = take cc utxos @ [utxos ! i]"
    using c i by (simp add: us_def take_Suc_conv_app_nth take_swap_low nth_swap)
  show p: "mset (take (Suc i) us) = mset (take (Suc i) utxos)"
    using c i by (simp add: us_def mset_take_swap)
  show "drop (Suc i) us = drop (Suc i) utxos" using c by (simp add: us_def swap_def)
  show "\<forall>t. sum_get (add_utxo cs (utxos ! i)) t = amounts (take (Suc cc) us) t"
    using I by (simp add: t sel_inv_def)
  show "\<forall>t. sum_get (add_utxo cst (utxos ! i)) t = amounts (take (Suc i) us) t"
    using I i amounts_mset [OF p] by (simp add: sel_inv_def take_Suc_conv_app_nth)
qed

lemma sel_inv_keep:
  assumes "sel_inv M maxInputs i utxos cs cst cc" "i < length utxos" "int (Suc cc) \<noteq> maxInputs"
  shows "sel_inv M maxInputs (Suc i) (swap utxos cc i) (add_utxo cs (utxos ! i)) (add_utxo cst (utxos ! i)) (Suc cc)"
  using sel_inv_take [OF assms(1,2)] assms by (auto simp: sel_inv_def)

lemma sel_inv_trim:
  assumes I: "sel_inv M maxInputs i utxos cs cst cc" "i < length utxos"
    and m: "k < Suc cc" "take (Suc cc) (swap utxos cc i) ! k = m"
  defines "us \<equiv> swap (swap utxos cc i) k cc"
  shows "sel_inv M maxInputs (Suc i) us (sub_utxo (add_utxo cs (utxos ! i)) m) (add_utxo cst (utxos ! i)) cc"
    "mset (take cc utxos) + {#utxos ! i#} = mset (take cc us) + {#m#}"
    "mset (take (Suc i) us) = mset (take (Suc i) utxos)" "drop (Suc i) us = drop (Suc i) utxos"
proof -
  note T = sel_inv_take [OF I]
  have c: "cc \<le> i" "i < length utxos" using I by (simp_all add: sel_inv_def)
  have k: "k \<le> i" using m(1) c by simp
  have "swap utxos cc i ! k = m" using m by (metis nth_take)
  then have "take (Suc cc) us = take cc us @ [m]"
    using m(1) c by (simp add: us_def take_Suc_conv_app_nth nth_swap)
  moreover have "mset (take (Suc cc) us) = mset (take (Suc cc) (swap utxos cc i))"
    using m(1) c by (simp add: us_def mset_take_swap)
  ultimately have p: "mset (take cc us @ [m]) = mset (take cc utxos @ [utxos ! i])" using T(3) by metis
  then show "mset (take cc utxos) + {#utxos ! i#} = mset (take cc us) + {#m#}" by simp
  have q: "mset (take (Suc i) us) = mset (take (Suc i) (swap utxos cc i))"
    using k c by (simp add: us_def mset_take_swap)
  with T(4) show "mset (take (Suc i) us) = mset (take (Suc i) utxos)" by simp
  show "drop (Suc i) us = drop (Suc i) utxos" using T(5) k c by (simp add: us_def swap_def)
  have "amounts (take cc us) t + amount_of m t = amounts (take (Suc cc) (swap utxos cc i)) t" for t
    using amounts_mset [OF p, of t] T(3) by simp
  then have "sum_get (sub_utxo (add_utxo cs (utxos ! i)) m) t = amounts (take cc us) t" for t
    using T(6) by (simp add: eq_diff_eq [symmetric] del: sum_get_add_utxo)
  then show "sel_inv M maxInputs (Suc i) us (sub_utxo (add_utxo cs (utxos ! i)) m) (add_utxo cst (utxos ! i)) cc"
    using I T(1,2,7) amounts_mset [OF q] m(1) k c unfolding sel_inv_def
    by (simp add: us_def mset_swap_eq)
qed

text \<open>
  How the loop may end: with a satisfying choice \<open>c\<close> that is extended by
  \<open>prepareTxInputs\<close>, or with the two sums.
\<close>

definition sel_end :: "Utxo multiset \<Rightarrow> sums \<Rightarrow> int \<Rightarrow> int \<Rightarrow> Utxo list \<times> (TxInputs + sums \<times> sums) \<Rightarrow> bool" where
  "sel_end M conditions maxInputs tryAtLeast res \<longleftrightarrow> mset (fst res) = M \<and>
     (case snd res of
        Inl ti \<Rightarrow> \<exists>cs c. ti = prepareTxInputs (fst res) cs maxInputs tryAtLeast c \<and> c \<le> length (fst res) \<and>
          (0 < maxInputs \<longrightarrow> int c \<le> maxInputs) \<and> (\<forall>t. sum_get cs t = amounts (take c (fst res)) t) \<and>
          (\<forall>t. sum_get conditions t \<le> sum_get cs t)
      | Inr (cs, cst) \<Rightarrow> \<forall>t. sum_get cst t = amounts (fst res) t)"

lemma amounts_loop_ok:
  assumes "range_ok rng" "finite (dom conditions)" "sel_inv M maxInputs i utxos cs cst cc" "n = length utxos"
  shows "\<exists>res. amounts_loop rng conditions maxInputs tryAtLeast [i..<n] utxos cs cst cc = Some res \<and>
    sel_end M conditions maxInputs tryAtLeast res"
  using assms(3,4)
proof (induction "n - i" arbitrary: i utxos cs cst cc)
  case 0
  then show ?case by (simp add: sel_end_def sel_inv_def)
next
  case (Suc d)
  then have i: "i < length utxos" "[i..<n] = i # [Suc i..<n]" "d = n - Suc i" by (auto simp: upt_conv_Cons)
  let ?us = "swap utxos cc i" and ?cs = "add_utxo cs (utxos ! i)" and ?cst = "add_utxo cst (utxos ! i)"
  note T = sel_inv_take [OF Suc.prems(1) i(1)]
  have cc: "cc \<le> i" "0 < maxInputs \<longrightarrow> int cc < maxInputs" using Suc.prems(1) by (simp_all add: sel_inv_def)
  consider (sat) "doesSumSatisfyCondition (rng (2 * i) conditions) ?cs conditions"
    | (trim) "\<not> doesSumSatisfyCondition (rng (2 * i) conditions) ?cs conditions" "int (Suc cc) = maxInputs"
    | (keep) "\<not> doesSumSatisfyCondition (rng (2 * i) conditions) ?cs conditions" "int (Suc cc) \<noteq> maxInputs"
    by blast
  then show ?case
  proof cases
    case sat
    then have "\<forall>t. sum_get conditions t \<le> sum_get ?cs t" using satisfied_iff [OF assms(1,2)] by blast
    then have "sel_end M conditions maxInputs tryAtLeast (?us, Inl (prepareTxInputs ?us ?cs maxInputs tryAtLeast (Suc cc)))"
      using T(1,6) i(1) cc unfolding sel_end_def
      by (intro conjI) (auto intro!: exI [of _ ?cs] exI [of _ "Suc cc"] simp del: sum_get_add_utxo)
    with sat show ?thesis by (simp add: i(2) Let_def)
  next
    case trim
    have "take (Suc cc) ?us \<noteq> []" using T(3) by simp
    then obtain m k where m: "findMinUtxo (rng (2 * i + 1) conditions) (take (Suc cc) ?us) ?cs conditions = Some (m, k)"
      "k < length (take (Suc cc) ?us)" "take (Suc cc) ?us ! k = m"
      using min_utxo_ok [of "take (Suc cc) ?us"] unfolding findMinUtxo_def Let_def by blast
    have k: "k < Suc cc" using m(2) by simp
    note J = sel_inv_trim(1) [OF Suc.prems(1) i(1) k m(3)]
    have "n = length (swap (swap utxos cc i) k cc)" using Suc.prems(2) by simp
    from Suc.hyps(1) [OF i(3) J this] trim m(1) show ?thesis unfolding i(2) by (simp add: Let_def)
  next
    case keep
    have "n = length ?us" using Suc.prems(2) by simp
    from Suc.hyps(1) [OF i(3) sel_inv_keep [OF Suc.prems(1) i(1) keep(2)] this] keep show ?thesis
      unfolding i(2) by (simp add: Let_def)
  qed
qed

lemma prepareTxInputs_ok:
  assumes "c \<le> length us" "\<forall>t. sum_get cs t = amounts (take c us) t"
  shows "\<exists>n. c \<le> n \<and> n \<le> length us \<and> (int c \<le> maxInputs \<longrightarrow> int n \<le> maxInputs) \<and>
    in_Inputs (prepareTxInputs us cs maxInputs tryAtLeast c) = utxos2TxInputs (take n us) \<and>
    (\<forall>t. sum_get (in_Sum (prepareTxInputs us cs maxInputs tryAtLeast c)) t = amounts (take n us) t)"
proof -
  define cnt where "cnt = nat (max (min (min (int (length us) - int c) (tryAtLeast - int c)) (maxInputs - int c)) 0)"
  have n: "c + cnt \<le> length us" "int c \<le> maxInputs \<longrightarrow> int (c + cnt) \<le> maxInputs"
    using assms(1) by (auto simp: cnt_def max_def min_def)
  have "map (\<lambda>i. us ! i) [c..<c + cnt] = drop c (take (c + cnt) us)"
    using n(1) by (intro nth_equalityI) auto
  moreover have "take (c + cnt) us = take c us @ drop c (take (c + cnt) us)"
    by (metis append_take_drop_id le_add1 min.absorb1 take_take)
  ultimately have "amounts (take (c + cnt) us) t = amounts (take c us) t + amounts (map (\<lambda>i. us ! i) [c..<c + cnt]) t" for t
    by (metis amounts_simps(3))
  then show ?thesis
    using n assms(2) by (intro exI [of _ "c + cnt"]) (auto simp: prepareTxInputs_def Let_def cnt_def [symmetric] sum_get_foldl_utxo)
qed

lemma GetUTXOsForAmounts_ok:
  assumes "range_ok rng" "finite (dom conditions)" "fits utxos"
  shows "\<exists>us r. GetUTXOsForAmounts rng utxos conditions maxInputs tryAtLeast = Some (us, r) \<and> mset us = mset utxos \<and>
    (case r of
       Inr ti \<Rightarrow> \<exists>n \<le> length us. in_Inputs ti = utxos2TxInputs (take n us) \<and> (0 < maxInputs \<longrightarrow> int n \<le> maxInputs) \<and>
         (\<forall>t. unat (sum_get (in_Sum ti) t) = utxos_total (take n us) t) \<and>
         (\<forall>t. unat (sum_get conditions t) \<le> utxos_total (take n us) t)
     | Inl e \<Rightarrow>
         (err_is e ErrUTXOsLimitReached \<longleftrightarrow> (\<forall>t. unat (sum_get conditions t) \<le> utxos_total utxos t)) \<and>
         (err_is e ErrUTXOsCouldNotSelect \<longleftrightarrow> \<not> (\<forall>t. unat (sum_get conditions t) \<le> utxos_total utxos t)))"
proof -
  obtain us x where res: "amounts_loop rng conditions maxInputs tryAtLeast [0..<length utxos] utxos Map.empty Map.empty 0 = Some (us, x)"
    "sel_end (mset utxos) conditions maxInputs tryAtLeast (us, x)"
    using amounts_loop_ok [OF assms(1,2) sel_inv_start refl] by (metis prod.collapse)
  have M: "mset us = mset utxos" using res(2) by (simp add: sel_end_def)
  have exact: "unat (amounts (take n us) t) = utxos_total (take n us) t" for n t
    using fits_sub [OF assms(3), of "take n us" t] mset_take_sub [of n us] M by (simp add: unat_amounts)
  show ?thesis
  proof (cases x)
    case (Inl ti)
    then obtain cs c where c: "ti = prepareTxInputs us cs maxInputs tryAtLeast c" "c \<le> length us"
      "0 < maxInputs \<longrightarrow> int c \<le> maxInputs" "\<forall>t. sum_get cs t = amounts (take c us) t"
      "\<forall>t. sum_get conditions t \<le> sum_get cs t"
      using res(2) by (auto simp: sel_end_def)
    obtain n where n: "c \<le> n" "n \<le> length us" "int c \<le> maxInputs \<longrightarrow> int n \<le> maxInputs"
      "in_Inputs ti = utxos2TxInputs (take n us)" "\<forall>t. sum_get (in_Sum ti) t = amounts (take n us) t"
      using prepareTxInputs_ok [OF c(2,4), of maxInputs tryAtLeast] c(1) by blast
    have "take n us = take c us @ drop c (take n us)"
      using n(1) by (metis append_take_drop_id min.absorb1 take_take)
    then have "utxos_total (take c us) t \<le> utxos_total (take n us) t" for t by (metis le_add1 utxos_total_simps(3))
    moreover have "unat (sum_get conditions t) \<le> utxos_total (take c us) t" for t
      using c(4,5) exact by (metis word_le_nat_alt)
    ultimately have "\<forall>t. unat (sum_get conditions t) \<le> utxos_total (take n us) t" by (meson le_trans)
    with res(1) M n c(3) exact Inl show ?thesis by (auto simp: GetUTXOsForAmounts_def)
  next
    case (Inr s)
    obtain cs cst where s: "s = (cs, cst)" by (cases s)
    have "doesSumSatisfyCondition (rng k conditions) cst conditions \<longleftrightarrow> (\<forall>t. unat (sum_get conditions t) \<le> utxos_total utxos t)" for k
    proof -
      have "unat (sum_get cst t) = utxos_total utxos t" for t
        using res(2) exact [of "length us"] utxos_total_mset [OF M] by (simp add: Inr s sel_end_def)
      then show ?thesis by (simp add: satisfied_iff [OF assms(1,2)] word_le_nat_alt)
    qed
    with res(1) M Inr s show ?thesis by (auto simp: GetUTXOsForAmounts_def Let_def)
  qed
qed

text \<open>
  C17. \<open>GetUTXOsForAmounts\<close> never panics and only reorders the caller's slice. When it succeeds, the
  inputs are the first outputs of the reordered slice, no more of them than the limit, the sum
  it reports is their exact sum for every token, and it reaches every required amount. When it
  fails, the error says whether all outputs together would have reached the amounts.
\<close>

theorem GetUTXOsForAmounts_selects:
  assumes "range_ok rng" "finite (dom conditions)" "fits utxos"
  shows "\<exists>us r. GetUTXOsForAmounts rng utxos conditions maxInputs tryAtLeast = Some (us, r) \<and> mset us = mset utxos \<and>
    (case r of
       Inr ti \<Rightarrow> \<exists>n \<le> length us. in_Inputs ti = utxos2TxInputs (take n us) \<and> (0 < maxInputs \<longrightarrow> int n \<le> maxInputs) \<and>
         (\<forall>t. unat (sum_get (in_Sum ti) t) = utxos_total (take n us) t) \<and>
         (\<forall>t. unat (sum_get conditions t) \<le> utxos_total (take n us) t)
     | Inl e \<Rightarrow>
         (err_is e ErrUTXOsLimitReached \<longleftrightarrow> (\<forall>t. unat (sum_get conditions t) \<le> utxos_total utxos t)) \<and>
         (err_is e ErrUTXOsCouldNotSelect \<longleftrightarrow> \<not> (\<forall>t. unat (sum_get conditions t) \<le> utxos_total utxos t)))"
  by (rule GetUTXOsForAmounts_ok [OF assms])

definition demo_utxos :: "Utxo list" where
  "demo_utxos = [\<lparr>ut_Hash = ''a'', ut_Index = 0, ut_Amount = 20, ut_Tokens = []\<rparr>,
     \<lparr>ut_Hash = ''b'', ut_Index = 1, ut_Amount = 100, ut_Tokens = [\<lparr>ta_Token = \<lparr>tk_PolicyID = ''p'', tk_Name = ''n''\<rparr>, ta_Amount = 7\<rparr>]\<rparr>,
     \<lparr>ut_Hash = ''c'', ut_Index = 0, ut_Amount = 40, ut_Tokens = []\<rparr>]"

lemma demo_fits: "fits demo_utxos"
  by (auto simp: fits_def demo_utxos_def utxo_total_def)

theorem GetUTXOsForAmounts_selects_witness:
  "\<exists>us r. GetUTXOsForAmounts demo_rng demo_utxos [AdaTokenName \<mapsto> 130] 2 1 = Some (us, r) \<and> mset us = mset demo_utxos"
  using GetUTXOsForAmounts_selects [OF demo_rng_ok(1) _ demo_fits, of "[AdaTokenName \<mapsto> 130]" 2 1] by auto

section \<open>The largest outputs\<close>

text \<open>
  \<open>C\<close> holds the \<open>k\<close> outputs of \<open>P\<close> with the largest \<open>f\<close>, or all of \<open>P\<close> when they are no more.
\<close>

definition topk :: "('a \<Rightarrow> nat) \<Rightarrow> nat \<Rightarrow> 'a multiset \<Rightarrow> 'a multiset \<Rightarrow> bool" where
  "topk f k P C \<longleftrightarrow> C \<subseteq># P \<and> size C \<le> k \<and> (C = P \<or> size C = k \<and> (\<forall>u \<in># P - C. \<forall>v \<in># C. f u \<le> f v))"

lemma sum_mset_dominated:
  assumes "size A \<le> size B" "\<forall>a \<in># A. \<forall>b \<in># B. f a \<le> (f b :: nat)"
  shows "(\<Sum>a \<in># A. f a) \<le> (\<Sum>b \<in># B. f b)"
  using assms
proof (induction A arbitrary: B)
  case (add a A)
  then obtain b B' where "B = add_mset b B'" by (cases B) auto
  with add.prems add.IH [of B'] show ?case by (simp add: add_mono)
qed simp

lemma topk_best:
  assumes "topk f k P C" "S \<subseteq># P" "size S \<le> k"
  shows "(\<Sum>u \<in># S. f u) \<le> (\<Sum>u \<in># C. f u)"
proof (cases "C = P")
  case True
  then obtain D where "C = S + D" using assms(2) by (metis mset_subset_eq_exists_conv)
  then show ?thesis by simp
next
  case False
  then have C: "size C = k" "\<forall>u \<in># P - C. \<forall>v \<in># C. f u \<le> f v" using assms(1) by (auto simp: topk_def)
  have S: "S = (S - C) + (S \<inter># C)" and D: "C = (C - S) + (S \<inter># C)"
    by (auto simp: multiset_eq_iff min_def)
  have "size (S - C) \<le> size (C - S)"
    using arg_cong [OF S, of size] arg_cong [OF D, of size] C(1) assms(3) by simp
  moreover have "S - C \<subseteq># P - C" using assms(2) by (simp add: subseteq_mset_def diff_le_mono)
  then have "\<forall>a \<in># S - C. \<forall>b \<in># C - S. f a \<le> f b" using C(2) by (meson in_diffD mset_subset_eqD)
  ultimately have "(\<Sum>u \<in># S - C. f u) \<le> (\<Sum>u \<in># C - S. f u)" by (rule sum_mset_dominated)
  moreover have "(\<Sum>u \<in># S. f u) = (\<Sum>u \<in># S - C. f u) + (\<Sum>u \<in># S \<inter># C. f u)" by (subst S) simp
  moreover have "(\<Sum>u \<in># C. f u) = (\<Sum>u \<in># C - S. f u) + (\<Sum>u \<in># S \<inter># C. f u)" by (subst D) simp
  ultimately show ?thesis by linarith
qed

lemma topk_empty: "topk f k {#} {#}"
  by (simp add: topk_def)

lemma topk_add: "topk f k P C \<Longrightarrow> size C < k \<Longrightarrow> topk f k (add_mset u P) (add_mset u C)"
  by (auto simp: topk_def)

lemma topk_replace:
  assumes T: "topk f k P C" and k: "size C = k" and m: "add_mset u C = add_mset m D" "\<forall>v \<in># add_mset u C. f m \<le> f v"
  shows "topk f k (add_mset u P) D"
proof -
  have sub: "C \<subseteq># P" using T by (simp add: topk_def)
  then have P: "P = C + (P - C)" by simp
  have "add_mset u P = D + add_mset m (P - C)"
    using m(1) P by (metis add_mset_add_single union_mset_add_mset_left union_mset_add_mset_right)
  then have sub': "D \<subseteq># add_mset u P" and diff: "add_mset u P - D = add_mset m (P - C)" by simp_all
  have "size D = k" using arg_cong [OF m(1), of size] k by simp
  moreover have "f x \<le> f v" if x: "x \<in># add_mset m (P - C)" and v: "v \<in># D" for x v
  proof (cases "x = m")
    case True
    have "v \<in># add_mset u C" using m(1) v by simp
    with m(2) True show ?thesis by blast
  next
    case False
    then have x': "x \<in># P - C" using x by simp
    then have dom: "f x \<le> f w" if "w \<in># C" for w using T k that by (auto simp: topk_def)
    have "v = u \<or> v \<in># C" using m(1) v by (metis insertE insertI2 set_mset_add_mset_insert)
    then show ?thesis
    proof
      assume "v = u"
      show ?thesis
      proof (cases "m \<in># C")
        case True
        then have "f x \<le> f m" by (rule dom)
        also have "\<dots> \<le> f v" using m v by simp
        finally show ?thesis .
      next
        case False
        then have "m = u" using m(1) by (metis insertE set_mset_add_mset_insert union_single_eq_member)
        then have "D = C" using m(1) by simp
        with v dom show ?thesis by blast
      qed
    qed (rule dom)
  qed
  ultimately show ?thesis using sub' diff by (simp add: topk_def)
qed

section \<open>One token: the selection is optimal\<close>

text \<open>Outputs whose token entries have different names, as the ledger's have.\<close>

definition plain_utxo :: "Utxo \<Rightarrow> bool" where
  "plain_utxo u \<longleftrightarrow> distinct (map TokenName (ut_Tokens u))"

lemma TokenName_not_ada: "TokenName tok \<noteq> AdaTokenName"
proof -
  have "CHR ''.'' \<in> set (TokenName tok)" by (simp add: TokenName_def)
  then show ?thesis by (auto simp: AdaTokenName_def)
qed

lemma first_token_total:
  "distinct (map TokenName toks) \<Longrightarrow> token_total toks t = unat (first_token_amount toks t)"
proof (induction toks)
  case (Cons tok toks)
  have "t \<notin> TokenName ` set toks \<Longrightarrow> token_total toks t = 0" for t
    by (induction toks) auto
  with Cons show ?case by auto
qed simp

lemma GetTokenAmount_total: "plain_utxo u \<Longrightarrow> unat (GetTokenAmount u t) = utxo_total u t"
proof -
  assume u: "plain_utxo u"
  have "first_token_amount toks AdaTokenName = 0" for toks
    by (induction toks) (simp_all add: TokenName_not_ada)
  with u show ?thesis
    by (simp add: GetTokenAmount_def utxo_total_def plain_utxo_def first_token_total)
qed

lemma GetTokenAmountFromUtxo_eq: "GetTokenAmountFromUtxo u t = GetTokenAmount u t"
  by (simp add: GetTokenAmountFromUtxo_def GetTokenAmount_def)

lemma mset_replace_last:
  assumes "idx < length xs" "n = length xs - 1"
  shows "mset xs = add_mset (xs ! idx) (mset (take n (xs[idx := xs ! n])))"
proof -
  have n: "n < length xs" using assms by auto
  have "swap xs idx n = take (Suc n) (swap xs idx n)" using assms n by simp
  also have "\<dots> = take n (swap xs idx n) @ [xs ! idx]"
    using n assms(1) by (simp add: take_Suc_conv_app_nth nth_swap)
  also have "take n (swap xs idx n) = take n (xs[idx := xs ! n])" by (simp add: swap_def)
  finally have "mset (swap xs idx n) = add_mset (xs ! idx) (mset (take n (xs[idx := xs ! n])))" by simp
  then show ?thesis using mset_swap_eq [OF assms(1) n] by simp
qed

text \<open>The state after one output: the \<open>k\<close> largest of those seen.\<close>

definition one_state :: "string \<Rightarrow> nat \<Rightarrow> Utxo multiset \<Rightarrow> sums \<Rightarrow> Utxo list \<Rightarrow> bool" where
  "one_state t k P cs chosen \<longleftrightarrow> topk (\<lambda>u. utxo_total u t) k P (mset chosen) \<and> (\<forall>j. sum_get cs j = amounts chosen j)"

definition one_step :: "string \<Rightarrow> int \<Rightarrow> sums \<Rightarrow> Utxo list \<Rightarrow> Utxo \<Rightarrow> (sums \<times> Utxo list) option" where
  "one_step t maxInputs cs chosen u =
     (if int (length (chosen @ [u])) > maxInputs
      then Option.bind (min_utxo (\<lambda>u. GetTokenAmountFromUtxo u t) (chosen @ [u]))
        (\<lambda>(m, idx). Some (sub_utxo (add_utxo cs u) m,
           take (length (chosen @ [u]) - 1) ((chosen @ [u])[idx := (chosen @ [u]) ! (length (chosen @ [u]) - 1)])))
      else Some (add_utxo cs u, chosen @ [u]))"

lemma one_step_ok:
  assumes S: "one_state t (nat maxInputs) P cs chosen" and k: "0 \<le> maxInputs"
    and plain: "\<forall>v \<in># add_mset u P. plain_utxo v"
  shows "\<exists>cs' chosen'. one_step t maxInputs cs chosen u = Some (cs', chosen') \<and>
    one_state t (nat maxInputs) (add_mset u P) cs' chosen'"
proof (cases "int (length (chosen @ [u])) > maxInputs")
  case True
  let ?xs = "chosen @ [u]" and ?f = "\<lambda>u. utxo_total u t"
  have T: "topk ?f (nat maxInputs) P (mset chosen)" and cs: "\<forall>j. sum_get cs j = amounts chosen j"
    using S by (simp_all add: one_state_def)
  have size: "size (mset chosen) = nat maxInputs" using True T k by (auto simp: topk_def)
  obtain m idx where m: "min_utxo (\<lambda>u. GetTokenAmountFromUtxo u t) ?xs = Some (m, idx)" "idx < length ?xs"
    "?xs ! idx = m" "\<forall>v \<in> set ?xs. GetTokenAmountFromUtxo m t \<le> GetTokenAmountFromUtxo v t"
    using min_utxo_ok [of ?xs "\<lambda>u. GetTokenAmountFromUtxo u t"] by blast
  define ys where "ys = take (length ?xs - 1) (?xs[idx := ?xs ! (length ?xs - 1)])"
  have M: "add_mset u (mset chosen) = add_mset m (mset ys)"
    using mset_replace_last [OF m(2) refl] m(3) by (simp add: ys_def)
  have sub: "set ?xs \<subseteq> set_mset (add_mset u P)" using T mset_subset_eqD by (fastforce simp: topk_def)
  moreover have "m \<in> set ?xs" using m(2,3) nth_mem by blast
  moreover have "?f v = unat (GetTokenAmountFromUtxo v t)" if "v \<in> set ?xs" for v
    using that sub plain by (metis GetTokenAmountFromUtxo_eq GetTokenAmount_total subsetD)
  ultimately have "\<forall>v \<in># add_mset u (mset chosen). ?f m \<le> ?f v"
    using m(4) by (simp add: word_le_nat_alt)
  from topk_replace [OF T size M this] have "topk ?f (nat maxInputs) (add_mset u P) (mset ys)" .
  moreover have "sum_get (sub_utxo (add_utxo cs u) m) j = amounts ys j" for j
    using amounts_mset [of "u # chosen" "m # ys" j] M cs by (simp add: algebra_simps)
  ultimately have "one_state t (nat maxInputs) (add_mset u P) (sub_utxo (add_utxo cs u) m) ys"
    by (simp add: one_state_def)
  with True m(1) show ?thesis by (simp add: one_step_def ys_def)
next
  case False
  then have "size (mset chosen) < nat maxInputs" by simp
  with S topk_add have "one_state t (nat maxInputs) (add_mset u P) (add_utxo cs u) (chosen @ [u])"
    by (fastforce simp: one_state_def)
  with False show ?thesis by (simp add: one_step_def)
qed

lemma amount_loop_step:
  "amount_loop t d maxInputs cs chosen (u # us) =
     Option.bind (one_step t maxInputs cs chosen u) (\<lambda>(cs', chosen').
       if sum_get cs' t \<ge> d then Some (Inl \<lparr>in_Inputs = utxos2TxInputs chosen', in_Sum = cs'\<rparr>)
       else amount_loop t d maxInputs cs' chosen' us)"
  by (simp add: one_step_def Let_def case_prod_unfold)

lemma amount_loop_optimal:
  assumes "one_state t (nat maxInputs) P cs chosen" "0 \<le> maxInputs" "\<forall>v \<in># P + mset us. plain_utxo v"
    "us = [] \<longrightarrow> \<not> d \<le> amounts chosen t"
  shows "\<exists>r. amount_loop t d maxInputs cs chosen us = Some r \<and>
    (case r of
       Inl ti \<Rightarrow> \<exists>C. mset C \<subseteq># P + mset us \<and> length C \<le> nat maxInputs \<and> in_Inputs ti = utxos2TxInputs C \<and>
         (\<forall>j. sum_get (in_Sum ti) j = amounts C j) \<and> d \<le> amounts C t
     | Inr cs' \<Rightarrow> \<exists>C. topk (\<lambda>u. utxo_total u t) (nat maxInputs) (P + mset us) (mset C) \<and> \<not> d \<le> amounts C t)"
  using assms
proof (induction us arbitrary: P cs chosen)
  case Nil
  then show ?case by (auto simp: one_state_def)
next
  case (Cons u us)
  obtain cs' chosen' where s: "one_step t maxInputs cs chosen u = Some (cs', chosen')"
    "one_state t (nat maxInputs) (add_mset u P) cs' chosen'"
    using one_step_ok [OF Cons.prems(1,2), of u] Cons.prems(3) by auto
  have eq: "sum_get cs' j = amounts chosen' j" for j using s(2) by (simp add: one_state_def)
  have T: "topk (\<lambda>u. utxo_total u t) (nat maxInputs) (add_mset u P) (mset chosen')" using s(2) by (simp add: one_state_def)
  show ?case
  proof (cases "d \<le> amounts chosen' t")
    case True
    have "mset chosen' \<subseteq># P + mset (u # us)"
      using T by (auto simp: topk_def intro: subset_mset.order_trans)
    moreover have "length chosen' \<le> nat maxInputs" using T by (simp add: topk_def)
    ultimately show ?thesis using True eq unfolding amount_loop_step s(1) by auto
  next
    case False
    have e: "add_mset u P + mset us = P + mset (u # us)" by simp
    have "\<forall>v \<in># add_mset u P + mset us. plain_utxo v" using Cons.prems(3) unfolding e .
    from Cons.IH [OF s(2) Cons.prems(2) this, unfolded e] False show ?thesis
      unfolding amount_loop_step s(1) by (simp add: eq)
  qed
qed

text \<open>
  C13. \<open>GetUTXOsForAmount\<close> never panics and finds a selection whenever there is one: when it
  succeeds, the inputs are at most \<open>maxInputs\<close> of the offered outputs, they reach the required
  amount, and the sum reported is theirs for every token; when it fails, no choice of at most
  \<open>maxInputs\<close> of the offered outputs reaches the amount.
\<close>

theorem GetUTXOsForAmount_optimal:
  assumes "fits utxos" "\<forall>u \<in> set utxos. plain_utxo u" "utxos \<noteq> []" "0 \<le> maxInputs"
  shows "\<exists>r. GetUTXOsForAmount utxos t d maxInputs = Some r \<and>
    (case r of
       Inr ti \<Rightarrow> \<exists>C. mset C \<subseteq># mset utxos \<and> int (length C) \<le> maxInputs \<and> in_Inputs ti = utxos2TxInputs C \<and>
         (\<forall>j. unat (sum_get (in_Sum ti) j) = utxos_total C j) \<and> unat d \<le> utxos_total C t
     | Inl _ \<Rightarrow> \<forall>S. mset S \<subseteq># mset utxos \<and> int (length S) \<le> maxInputs \<longrightarrow> utxos_total S t < unat d)"
proof -
  have exact: "unat (amounts C j) = utxos_total C j" if "mset C \<subseteq># mset utxos" for C j
    using fits_sub [OF assms(1) that] by (simp add: unat_amounts)
  have "one_state t (nat maxInputs) {#} Map.empty []" by (simp add: one_state_def topk_empty)
  from amount_loop_optimal [OF this assms(4), of utxos d, unfolded add_0] assms(2,3)
  obtain r where r: "amount_loop t d maxInputs Map.empty [] utxos = Some r"
    "case r of
       Inl ti \<Rightarrow> \<exists>C. mset C \<subseteq># mset utxos \<and> length C \<le> nat maxInputs \<and> in_Inputs ti = utxos2TxInputs C \<and>
         (\<forall>j. sum_get (in_Sum ti) j = amounts C j) \<and> d \<le> amounts C t
     | Inr cs' \<Rightarrow> \<exists>C. topk (\<lambda>u. utxo_total u t) (nat maxInputs) (mset utxos) (mset C) \<and> \<not> d \<le> amounts C t"
    by auto
  show ?thesis
  proof (cases r)
    case (Inl ti)
    with r(2) obtain C where C: "mset C \<subseteq># mset utxos" "length C \<le> nat maxInputs" "in_Inputs ti = utxos2TxInputs C"
      "\<forall>j. sum_get (in_Sum ti) j = amounts C j" "d \<le> amounts C t" by auto
    with exact [OF C(1)] assms(4) have "int (length C) \<le> maxInputs" "unat d \<le> utxos_total C t"
      "\<forall>j. unat (sum_get (in_Sum ti) j) = utxos_total C j" by (auto simp: word_le_nat_alt)
    with C(1,3) r(1) Inl show ?thesis by (auto simp: GetUTXOsForAmount_def)
  next
    case (Inr cs')
    with r(2) obtain C where C: "topk (\<lambda>u. utxo_total u t) (nat maxInputs) (mset utxos) (mset C)" "\<not> d \<le> amounts C t"
      by auto
    have "utxos_total C t < unat d" using exact [of C t] C by (auto simp: topk_def word_le_nat_alt)
    moreover have "utxos_total S t \<le> utxos_total C t" if "mset S \<subseteq># mset utxos" "int (length S) \<le> maxInputs" for S
      using topk_best [OF C(1) that(1)] that(2) by (simp add: total_sum_mset)
    ultimately have "\<forall>S. mset S \<subseteq># mset utxos \<and> int (length S) \<le> maxInputs \<longrightarrow> utxos_total S t < unat d"
      by (meson le_less_trans)
    with r(1) Inr show ?thesis by (auto simp: GetUTXOsForAmount_def)
  qed
qed

lemma demo_plain: "\<forall>u \<in> set demo_utxos. plain_utxo u"
  by (simp add: demo_utxos_def plain_utxo_def)

theorem GetUTXOsForAmount_optimal_witness:
  "\<exists>ti. GetUTXOsForAmount demo_utxos AdaTokenName 130 2 = Some (Inr ti) \<and> unat (sum_get (in_Sum ti) AdaTokenName) \<ge> 130"
proof -
  obtain r where r: "GetUTXOsForAmount demo_utxos AdaTokenName 130 2 = Some r"
    "case r of Inr ti \<Rightarrow> \<exists>C. mset C \<subseteq># mset demo_utxos \<and> int (length C) \<le> 2 \<and> in_Inputs ti = utxos2TxInputs C \<and>
         (\<forall>j. unat (sum_get (in_Sum ti) j) = utxos_total C j) \<and> unat (130 :: u64) \<le> utxos_total C AdaTokenName
     | Inl _ \<Rightarrow> \<forall>S. mset S \<subseteq># mset demo_utxos \<and> int (length S) \<le> 2 \<longrightarrow> utxos_total S AdaTokenName < unat (130 :: u64)"
    using GetUTXOsForAmount_optimal [OF demo_fits demo_plain, of 2 AdaTokenName 130] by (auto simp: demo_utxos_def)
  have "mset (drop 1 demo_utxos) \<subseteq># mset demo_utxos" by (simp add: demo_utxos_def)
  moreover have "utxos_total (drop 1 demo_utxos) AdaTokenName \<ge> 130" by (simp add: demo_utxos_def utxo_total_def)
  moreover have "int (length (drop 1 demo_utxos)) \<le> 2" by (simp add: demo_utxos_def)
  ultimately have "\<nexists>e. r = Inl e" using r(2) by fastforce
  with r show ?thesis by (cases r) auto
qed

section \<open>Several tokens: completeness\<close>

text \<open>Nothing is exchanged while the outputs are no more than the limit.\<close>

lemma amounts_loop_all:
  assumes "range_ok rng" "finite (dom conditions)" "\<forall>t. sum_get conditions t \<le> amounts utxos t"
    "sel_inv M maxInputs i utxos cs cst i" "i < length utxos" "int (length utxos) \<le> maxInputs" "n = length utxos"
  shows "\<exists>us ti. amounts_loop rng conditions maxInputs tryAtLeast [i..<n] utxos cs cst i = Some (us, Inl ti)"
  using assms(3-)
proof (induction "n - i" arbitrary: i utxos cs cst)
  case (Suc d)
  have i: "[i..<n] = i # [Suc i..<n]" "d = n - Suc i" using Suc by (auto simp: upt_conv_Cons)
  let ?us = "swap utxos i i" and ?cs = "add_utxo cs (utxos ! i)" and ?cst = "add_utxo cst (utxos ! i)"
  note T = sel_inv_take [OF Suc.prems(2,3)]
  have us: "?us = utxos" by (simp add: swap_def)
  show ?case
  proof (cases "doesSumSatisfyCondition (rng (2 * i) conditions) ?cs conditions")
    case True
    then show ?thesis unfolding i(1) by (simp add: Let_def)
  next
    case False
    have "Suc i < length utxos"
    proof (rule ccontr)
      assume "\<not> Suc i < length utxos"
      then have "take (Suc i) ?us = utxos" using us by simp
      then have "\<forall>t. sum_get conditions t \<le> sum_get ?cs t" using T(6) Suc.prems(1) by (simp del: sum_get_add_utxo)
      with False satisfied_iff [OF assms(1,2)] show False by blast
    qed
    then have s: "Suc i < length ?us" "int (Suc i) \<noteq> maxInputs" using Suc.prems(4) by auto
    have "\<forall>t. sum_get conditions t \<le> amounts ?us t" "int (length ?us) \<le> maxInputs" "n = length ?us"
      using Suc.prems(1,4,5) us by simp_all
    from Suc.hyps(1) [OF i(2) this(1) sel_inv_keep [OF Suc.prems(2,3) s(2)] s(1) this(2,3)] False s(2)
    show ?thesis unfolding i(1) by (simp add: Let_def)
  qed
qed simp

text \<open>With one required token, the exchange keeps the largest outputs.\<close>

lemma range_single: "range_ok rng \<Longrightarrow> rng k [t \<mapsto> d] = [t]"
proof -
  assume "range_ok rng"
  then have "distinct (rng k [t \<mapsto> d])" "set (rng k [t \<mapsto> d]) = {t}" by (simp_all add: range_ok_def)
  then have s: "set (rng k [t \<mapsto> d]) = {t}" and "length (rng k [t \<mapsto> d]) = 1"
    using distinct_card [of "rng k [t \<mapsto> d]"] by simp_all
  from this(2) obtain x where "rng k [t \<mapsto> d] = [x]" by (metis One_nat_def length_0_conv length_Suc_conv)
  with s show ?thesis by simp
qed

lemma single_unreached:
  assumes T: "topk f (k - 1) P C" and Q: "\<forall>S. S \<subseteq># P \<and> size S \<le> k \<longrightarrow> (\<Sum>u \<in># S. f u) < d"
    and step: "(\<Sum>u \<in># C. f u) + f v < (d :: nat)"
  shows "\<forall>S. S \<subseteq># add_mset v P \<and> size S \<le> k \<longrightarrow> (\<Sum>u \<in># S. f u) < d"
proof (intro allI impI)
  fix S assume S: "S \<subseteq># add_mset v P \<and> size S \<le> k"
  show "(\<Sum>u \<in># S. f u) < d"
  proof (cases "S \<subseteq># P")
    case False
    have v: "v \<in># S"
    proof (rule ccontr)
      assume "v \<notin># S"
      then have "S - {#v#} = S" by (simp add: diff_single_trivial)
      moreover have "S - {#v#} \<subseteq># P" using S by (simp add: subset_eq_diff_conv)
      ultimately show False using False by simp
    qed
    then obtain S' where S': "S = add_mset v S'" by (metis mset_add)
    then have "S' \<subseteq># P" "size S' \<le> k - 1" using S by auto
    with topk_best [OF T] have "(\<Sum>u \<in># S'. f u) \<le> (\<Sum>u \<in># C. f u)" by blast
    with S' step show ?thesis by simp
  qed (use Q S in blast)
qed

lemma amounts_loop_single:
  assumes "range_ok rng" "0 < maxInputs" "sel_inv M maxInputs i utxos cs cst cc" "n = length utxos"
    "fits utxos" "\<forall>u \<in># M. plain_utxo u"
    "topk (\<lambda>u. utxo_total u t) (nat maxInputs - 1) (mset (take i utxos)) (mset (take cc utxos))"
    "\<forall>S. S \<subseteq># mset (take i utxos) \<and> size S \<le> nat maxInputs \<longrightarrow> (\<Sum>u \<in># S. utxo_total u t) < unat d"
    "S \<subseteq># M" "size S \<le> nat maxInputs" "unat d \<le> (\<Sum>u \<in># S. utxo_total u t)"
  shows "\<exists>us ti. amounts_loop rng [t \<mapsto> d] maxInputs tryAtLeast [i..<n] utxos cs cst cc = Some (us, Inl ti)"
  using assms(3-8)
proof (induction "n - i" arbitrary: i utxos cs cst cc)
  case 0
  then have "take i utxos = utxos" "mset utxos = M" by (simp_all add: sel_inv_def)
  then have False using "0.prems"(6) assms(9-11) by auto
  then show ?case ..
next
  case (Suc j)
  let ?f = "\<lambda>u. utxo_total u t" and ?K = "nat maxInputs"
  have i: "i < length utxos" "[i..<n] = i # [Suc i..<n]" "j = n - Suc i" using Suc by (auto simp: upt_conv_Cons)
  let ?us = "swap utxos cc i" and ?cs = "add_utxo cs (utxos ! i)" and ?cst = "add_utxo cst (utxos ! i)"
  note T = sel_inv_take [OF Suc.prems(1) i(1)]
  have M: "mset utxos = M" and cc: "int cc < maxInputs" using Suc.prems(1) assms(2) by (simp_all add: sel_inv_def)
  have P: "mset (take (Suc i) utxos) = add_mset (utxos ! i) (mset (take i utxos))"
    using i(1) by (simp add: take_Suc_conv_app_nth)
  have fits_us: "fits ys" if "mset ys = M" for ys
    using Suc.prems(3) M that utxos_total_mset [of ys utxos] by (simp add: fits_def)
  have C: "mset (take (Suc cc) ?us) = add_mset (utxos ! i) (mset (take cc utxos))" using T(3) by simp
  show ?case
  proof (cases "d \<le> sum_get ?cs t")
    case True
    then have "\<not> sum_get ?cs t < d" by (rule leD)
    then show ?thesis unfolding i(2) by (simp add: Let_def range_single [OF assms(1)] del: sum_get_add_utxo)
  next
    case False
    then have no: "\<not> doesSumSatisfyCondition (rng (2 * i) [t \<mapsto> d]) ?cs [t \<mapsto> d]"
      by (simp add: range_single [OF assms(1)] del: sum_get_add_utxo)
    have "unat (sum_get ?cs t) = utxos_total (take (Suc cc) ?us) t"
      unfolding T(6) [rule_format] by (rule unat_amounts [OF fits_sub [OF fits_us [OF T(1)] mset_take_sub]])
    then have "(\<Sum>u \<in># mset (take cc utxos). ?f u) + ?f (utxos ! i) < unat d"
      using False C by (simp add: total_sum_mset word_le_nat_alt not_le add.commute del: sum_get_add_utxo)
    from single_unreached [OF Suc.prems(5,6) this]
    have Q: "\<forall>S. S \<subseteq># mset (take (Suc i) utxos) \<and> size S \<le> ?K \<longrightarrow> (\<Sum>u \<in># S. ?f u) < unat d" unfolding P .
    show ?thesis
    proof (cases "int (Suc cc) = maxInputs")
      case True
      have ne: "take (Suc cc) ?us \<noteq> []" using T(3) by simp
      have big: "biggest_diff (rng (2 * i + 1) [t \<mapsto> d]) ?cs [t \<mapsto> d] AdaTokenName 0 = t"
        using False by (simp add: range_single [OF assms(1)] Let_def word_gt_0 del: sum_get_add_utxo) auto
      obtain m k where m: "findMinUtxo (rng (2 * i + 1) [t \<mapsto> d]) (take (Suc cc) ?us) ?cs [t \<mapsto> d] = Some (m, k)"
        "k < length (take (Suc cc) ?us)" "take (Suc cc) ?us ! k = m"
        "\<forall>u \<in> set (take (Suc cc) ?us). GetTokenAmount m t \<le> GetTokenAmount u t"
        using min_utxo_ok [OF ne, of "\<lambda>u. GetTokenAmount u t"] unfolding findMinUtxo_def Let_def big by blast
      have k: "k < Suc cc" using m(2) by simp
      note J = sel_inv_trim [OF Suc.prems(1) i(1) k m(3)]
      let ?vs = "swap ?us k cc"
      have vs: "mset ?vs = M" "length ?vs = length utxos" using J(1) by (simp_all add: sel_inv_def)
      have plain: "\<forall>u \<in> set (take (Suc cc) ?us). ?f u = unat (GetTokenAmount u t)"
        using Suc.prems(4) T(1) by (metis GetTokenAmount_total in_set_takeD set_mset_mset)
      have mem: "m \<in> set (take (Suc cc) ?us)" using m(2,3) nth_mem by metis
      have "\<forall>u \<in># add_mset (utxos ! i) (mset (take cc utxos)). ?f m \<le> ?f u"
        using plain mem m(4) unfolding C [symmetric] set_mset_mset by (simp add: word_le_nat_alt)
      moreover have "size (mset (take cc utxos)) = ?K - 1" using True i(1) Suc.prems(1) by (simp add: sel_inv_def)
      moreover have "add_mset (utxos ! i) (mset (take cc utxos)) = add_mset m (mset (take cc ?vs))" using J(2) by simp
      ultimately have "topk ?f (?K - 1) (mset (take (Suc i) ?vs)) (mset (take cc ?vs))"
        unfolding J(3) P by (intro topk_replace [OF Suc.prems(5)])
      from Suc.hyps(1) [OF i(3) J(1) _ fits_us [OF vs(1)] Suc.prems(4) this Q [folded J(3)]] no True m(1) vs(2) Suc.prems(2)
      show ?thesis unfolding i(2) by (simp add: Let_def)
    next
      case False
      have "size (mset (take cc utxos)) < ?K - 1" using False cc i(1) Suc.prems(1) by (simp add: sel_inv_def)
      from topk_add [OF Suc.prems(5) this, of "utxos ! i"]
      have "topk ?f (?K - 1) (mset (take (Suc i) ?us)) (mset (take (Suc cc) ?us))" unfolding C T(4) P .
      from Suc.hyps(1) [OF i(3) sel_inv_keep [OF Suc.prems(1) i(1) False] _ fits_us [OF T(1)] Suc.prems(4) this Q [folded T(4)]] no False T(2) Suc.prems(2)
      show ?thesis unfolding i(2) by (simp add: Let_def)
    qed
  qed
qed

text \<open>
  \<open>GetUTXOsForAmounts\<close> succeeds in two situations in which a selection exists: when all
  outputs are no more than the limit and together reach every required amount; and, for a
  single required token, when some choice within the limit reaches it.
\<close>

theorem GetUTXOsForAmounts_finds:
  assumes "range_ok rng" "finite (dom conditions)" "fits utxos" "utxos \<noteq> []" "0 < maxInputs"
    and exists: "int (length utxos) \<le> maxInputs \<and> (\<forall>t. unat (sum_get conditions t) \<le> utxos_total utxos t) \<or>
      (\<forall>u \<in> set utxos. plain_utxo u) \<and> 0 < d \<and> conditions = [t \<mapsto> d] \<and>
      mset S \<subseteq># mset utxos \<and> int (length S) \<le> maxInputs \<and> unat d \<le> utxos_total S t"
  shows "\<exists>us ti. GetUTXOsForAmounts rng utxos conditions maxInputs tryAtLeast = Some (us, Inr ti)"
proof -
  have "\<exists>us ti. amounts_loop rng conditions maxInputs tryAtLeast [0..<length utxos] utxos Map.empty Map.empty 0 = Some (us, Inl ti)"
    using exists
  proof
    assume a: "int (length utxos) \<le> maxInputs \<and> (\<forall>t. unat (sum_get conditions t) \<le> utxos_total utxos t)"
    then have "\<forall>t. sum_get conditions t \<le> amounts utxos t"
      using assms(3) by (simp add: fits_def word_le_nat_alt unat_amounts)
    with a assms(4) show ?thesis
      by (intro amounts_loop_all [OF assms(1,2) _ sel_inv_start]) simp_all
  next
    assume b: "(\<forall>u \<in> set utxos. plain_utxo u) \<and> 0 < d \<and> conditions = [t \<mapsto> d] \<and>
      mset S \<subseteq># mset utxos \<and> int (length S) \<le> maxInputs \<and> unat d \<le> utxos_total S t"
    then have "0 < unat d" by (simp add: unat_gt_0 word_gt_0)
    then have "\<exists>us ti. amounts_loop rng [t \<mapsto> d] maxInputs tryAtLeast [0..<length utxos] utxos Map.empty Map.empty 0 = Some (us, Inl ti)"
      using b assms(3,5)
      by (intro amounts_loop_single [OF assms(1,5) sel_inv_start refl, where S = "mset S"])
        (auto simp: topk_empty total_sum_mset)
    with b show ?thesis by simp
  qed
  then show ?thesis by (auto simp: GetUTXOsForAmounts_def Let_def)
qed

theorem GetUTXOsForAmounts_finds_witness:
  "\<exists>us ti. GetUTXOsForAmounts demo_rng demo_utxos [AdaTokenName \<mapsto> 130] 2 1 = Some (us, Inr ti)"
proof (rule GetUTXOsForAmounts_finds [OF demo_rng_ok(1) _ demo_fits _ _, where S = "drop 1 demo_utxos" and t = AdaTokenName and d = 130])
  show "int (length demo_utxos) \<le> 2 \<and> (\<forall>t. unat (sum_get [AdaTokenName \<mapsto> 130] t) \<le> utxos_total demo_utxos t) \<or>
    (\<forall>u \<in> set demo_utxos. plain_utxo u) \<and> (0 :: u64) < 130 \<and> [AdaTokenName \<mapsto> 130] = [AdaTokenName \<mapsto> 130 :: u64] \<and>
    mset (drop 1 demo_utxos) \<subseteq># mset demo_utxos \<and> int (length (drop 1 demo_utxos)) \<le> 2 \<and>
    unat (130 :: u64) \<le> utxos_total (drop 1 demo_utxos) AdaTokenName"
    using demo_plain by (simp add: demo_utxos_def utxo_total_def)
qed (simp_all add: demo_utxos_def)

end
