(* ===== verification/Tx_Builder_Props.thy ===== *)
theory Tx_Builder_Props
  imports Tx_Builder Wallet_Keys_Props
begin

text \<open>
  The transaction builder. The files and arguments of \<open>build-raw\<close> are read back by the abstract
  view \<open>cli_view\<close> of the command line, in which every document is looked up in the files at the
  moment of the run; signing is related to what the two commands promise.
\<close>

section \<open>Writing without failures\<close>

definition writes_ok :: "os_env \<Rightarrow> bool" where
  "writes_ok os \<longleftrightarrow> (\<forall>p. os_write_err os p = None)"

definition put_files :: "files \<Rightarrow> (string \<times> file_content) list \<Rightarrow> files" where
  "put_files fs W = foldl (\<lambda>fs (p, c). fs(p \<mapsto> c)) fs W"

lemma put_files_simps [simp]:
  "put_files fs [] = fs" "put_files fs ((p, c) # W) = put_files (fs(p \<mapsto> c)) W"
  "put_files fs (V @ W) = put_files (put_files fs V) W"
  by (simp_all add: put_files_def)

lemma put_files_other: "p \<notin> fst ` set W \<Longrightarrow> put_files fs W p = fs p"
  by (induction W arbitrary: fs) auto

lemma put_files_lookup:
  "(p, c) \<in> set W \<Longrightarrow> (\<And>c'. (p, c') \<in> set W \<Longrightarrow> c' = c) \<Longrightarrow> put_files fs W p = Some c"
proof (induction W arbitrary: fs)
  case (Cons x W)
  show ?case
  proof (cases "p \<in> fst ` set W")
    case True
    then obtain c' where c': "(p, c') \<in> set W" by auto
    have "c' = c" using Cons.prems(2) c' by simp
    with c' have "(p, c) \<in> set W" by simp
    moreover have "c'' = c" if "(p, c'') \<in> set W" for c'' using Cons.prems(2) that by simp
    ultimately have "put_files fs' W p = Some c" for fs' by (rule Cons.IH)
    then show ?thesis by (cases x) simp
  next
    case False
    then have "x = (p, c)" using Cons.prems(1) by force
    with False show ?thesis by (simp add: put_files_other)
  qed
qed simp

lemma WriteFile_ok [simp]: "writes_ok os \<Longrightarrow> WriteFile os p c fs = Some (Inr (), fs(p \<mapsto> c))"
  by (simp add: WriteFile_def writes_ok_def)

lemma io_bind_Inr: "c fs = Some (Inr x, fs') \<Longrightarrow> io_bind c k fs = k x fs'"
  by (simp add: io_bind_def)

lemma io_lift_app [simp]: "io_lift r fs = Some (r, fs)"
  by (simp add: io_lift_def)

lemma path_join_inject [simp]: "path_join dir a = path_join dir b \<longleftrightarrow> a = b"
  by (simp add: path_join_def)

definition doc :: "json result \<Rightarrow> json" where
  "doc r = (case r of Inr d \<Rightarrow> d | Inl _ \<Rightarrow> JNull)"

definition doc_ok :: "json result \<Rightarrow> bool" where
  "doc_ok r \<longleftrightarrow> is_ok r"

lemma writeSerializable_ok:
  "writes_ok os \<Longrightarrow> doc_ok ps \<Longrightarrow> writeSerializableToFile os ps dir name fs =
     Some (Inr (path_join dir name), fs(path_join dir name \<mapsto> FileJson (doc ps)))"
  by (cases ps) (simp_all add: doc_ok_def doc_def writeSerializableToFile_def io_wrap_def io_bind_def io_lift_def Let_def)

section \<open>What the parts contribute\<close>

definition flat :: "(string \<times> string) list \<Rightarrow> string list" where
  "flat opts = concat (map (\<lambda>(f, v). [f, v]) opts)"

lemma flat_simps [simp]: "flat [] = []" "flat ((f, v) # r) = f # v # flat r" "flat (xs @ ys) = flat xs @ flat ys"
  by (simp_all add: flat_def)

definition script_opt :: "string \<Rightarrow> string \<Rightarrow> IPolicyScript option \<Rightarrow> (string \<times> string) list" where
  "script_opt flag path ps = (case ps of None \<Rightarrow> [] | Some _ \<Rightarrow> [(flag, path)])"

definition script_file :: "string \<Rightarrow> IPolicyScript option \<Rightarrow> (string \<times> file_content) list" where
  "script_file path ps = (case ps of None \<Rightarrow> [] | Some s \<Rightarrow> [(path, FileJson (doc (isc_GetBytesJSON s)))])"

definition script_ok :: "IPolicyScript option \<Rightarrow> bool" where
  "script_ok ps = (case ps of None \<Rightarrow> True | Some s \<Rightarrow> doc_ok (isc_GetBytesJSON s))"

definition ps_path :: "string \<Rightarrow> nat \<Rightarrow> string" where "ps_path dir i = path_join dir (''ps_'' @ itoa i @ ''.json'')"
definition mint_path :: "string \<Rightarrow> nat \<Rightarrow> string" where "mint_path dir i = path_join dir (''ps_mint_'' @ itoa i @ ''.json'')"
definition cert_path :: "string \<Rightarrow> nat \<Rightarrow> string" where "cert_path dir i = path_join dir (''certificate_'' @ itoa i @ ''.cert'')"
definition cpol_path :: "string \<Rightarrow> nat \<Rightarrow> string" where "cpol_path dir i = path_join dir (''cert_policy_'' @ itoa i @ ''.json'')"
definition wd_path :: "string \<Rightarrow> string" where "wd_path dir = path_join dir ''policy_withdrawal.json''"
definition meta_path :: "string \<Rightarrow> string" where "meta_path dir = path_join dir ''metadata.json''"
definition params_path :: "string \<Rightarrow> string" where "params_path dir = path_join dir ''protocol-parameters.json''"

fun input_opts :: "string \<Rightarrow> nat \<Rightarrow> txInputWithPolicyScript list \<Rightarrow> (string \<times> string) list" where
  "input_opts dir i [] = []"
| "input_opts dir i (x # xs) =
     ((''--tx-in'', TxInput_String (ip_txInput x)) # script_opt ''--tx-in-script-file'' (ps_path dir i) (ip_policyScript x)) @
     input_opts dir (i + 1) xs"

fun input_files :: "string \<Rightarrow> nat \<Rightarrow> txInputWithPolicyScript list \<Rightarrow> (string \<times> file_content) list" where
  "input_files dir i [] = []"
| "input_files dir i (x # xs) = script_file (ps_path dir i) (ip_policyScript x) @ input_files dir (i + 1) xs"

fun cert_opts :: "string \<Rightarrow> nat \<Rightarrow> txCertificateWithPolicyScript list \<Rightarrow> (string \<times> string) list" where
  "cert_opts dir i [] = []"
| "cert_opts dir i (x # xs) =
     (case cp_certificate x of None \<Rightarrow> []
      | Some _ \<Rightarrow> (''--certificate-file'', cert_path dir i) # script_opt ''--certificate-script-file'' (cpol_path dir i) (cp_policyScript x)) @
     cert_opts dir (i + 1) xs"

fun cert_files :: "string \<Rightarrow> nat \<Rightarrow> txCertificateWithPolicyScript list \<Rightarrow> (string \<times> file_content) list" where
  "cert_files dir i [] = []"
| "cert_files dir i (x # xs) =
     (case cp_certificate x of None \<Rightarrow> []
      | Some c \<Rightarrow> (cert_path dir i, FileJson (doc c)) # script_file (cpol_path dir i) (cp_policyScript x)) @
     cert_files dir (i + 1) xs"

fun mint_opts :: "string \<Rightarrow> nat \<Rightarrow> IPolicyScript option list \<Rightarrow> (string \<times> string) list" where
  "mint_opts dir i [] = []"
| "mint_opts dir i (x # xs) = script_opt ''--minting-script-file'' (mint_path dir i) x @ mint_opts dir (i + 1) xs"

fun mint_files :: "string \<Rightarrow> nat \<Rightarrow> IPolicyScript option list \<Rightarrow> (string \<times> file_content) list" where
  "mint_files dir i [] = []"
| "mint_files dir i (x # xs) = script_file (mint_path dir i) x @ mint_files dir (i + 1) xs"

definition cert_ok :: "txCertificateWithPolicyScript \<Rightarrow> bool" where
  "cert_ok x \<longleftrightarrow> script_ok (cp_policyScript x) \<and> (case cp_certificate x of None \<Rightarrow> True | Some c \<Rightarrow> doc_ok c)"

lemma inputs_loop_ok:
  assumes "writes_ok os" "\<forall>x \<in> set xs. script_ok (ip_policyScript x)"
  shows "inputs_loop os dir i xs args fs = Some (Inr (args @ flat (input_opts dir i xs)), put_files fs (input_files dir i xs))"
  using assms(2)
proof (induction xs arbitrary: i args fs)
  case (Cons x xs)
  have "input_Apply os args dir i x fs = Some (Inr (args @ flat ((''--tx-in'', TxInput_String (ip_txInput x)) #
      script_opt ''--tx-in-script-file'' (ps_path dir i) (ip_policyScript x))), put_files fs (script_file (ps_path dir i) (ip_policyScript x)))"
    using assms(1) Cons.prems writeSerializable_ok
    by (cases "ip_policyScript x")
      (simp_all add: input_Apply_def Let_def script_opt_def script_file_def script_ok_def ps_path_def io_bind_Inr writeSerializable_ok)
  with Cons show ?case by (simp add: io_bind_Inr)
qed simp

lemma certs_loop_ok:
  assumes "writes_ok os" "\<forall>x \<in> set xs. cert_ok x"
  shows "certs_loop os dir i xs args fs = Some (Inr (args @ flat (cert_opts dir i xs)), put_files fs (cert_files dir i xs))"
  using assms(2)
proof (induction xs arbitrary: i args fs)
  case (Cons x xs)
  have "cert_Apply os args dir i x fs = Some (Inr (args @ flat (case cp_certificate x of None \<Rightarrow> []
      | Some _ \<Rightarrow> (''--certificate-file'', cert_path dir i) # script_opt ''--certificate-script-file'' (cpol_path dir i) (cp_policyScript x))),
      put_files fs (case cp_certificate x of None \<Rightarrow> []
      | Some c \<Rightarrow> (cert_path dir i, FileJson (doc c)) # script_file (cpol_path dir i) (cp_policyScript x)))"
    using assms(1) Cons.prems
    by (cases "cp_certificate x"; cases "cp_policyScript x")
      (simp_all add: cert_Apply_def Let_def script_opt_def script_file_def script_ok_def cert_ok_def cert_path_def
        cpol_path_def io_bind_Inr writeSerializable_ok)
  with Cons show ?case by (simp add: io_bind_Inr)
qed simp

lemma mint_scripts_ok:
  assumes "writes_ok os" "\<forall>x \<in> set xs. x \<noteq> None \<and> script_ok x"
  shows "mint_scripts_loop os args dir i xs fs = Some (Inr (args @ flat (mint_opts dir i xs)), put_files fs (mint_files dir i xs))"
  using assms(2)
proof (induction xs arbitrary: i args fs)
  case (Cons x xs)
  then obtain ps where "x = Some ps" "doc_ok (isc_GetBytesJSON ps)" by (auto simp: script_ok_def)
  with Cons assms(1) show ?case
    by (simp add: writeSerializable_ok io_bind_Inr script_opt_def script_file_def mint_path_def)
qed simp

section \<open>The whole command\<close>

definition meta_opts :: "TxBuilder \<Rightarrow> (string \<times> string) list" where
  "meta_opts b = (case tb_metadata b of None \<Rightarrow> [] | Some _ \<Rightarrow> [(''--metadata-json-file'', meta_path (tb_baseDirectory b))])"

definition meta_files :: "TxBuilder \<Rightarrow> (string \<times> file_content) list" where
  "meta_files b = (case tb_metadata b of None \<Rightarrow> [] | Some m \<Rightarrow> [(meta_path (tb_baseDirectory b), FileBytes m)])"

definition wd_opts :: "string \<Rightarrow> txWithdrawalDataPolicyScript \<Rightarrow> (string \<times> string) list" where
  "wd_opts dir wd = (if wd_stakeAddress wd = '''' then []
     else (''--withdrawal'', wd_stakeAddress wd @ ''+'' @ itoa64 (wd_rewardAmount wd)) #
       script_opt ''--withdrawal-script-file'' (wd_path dir) (wd_policyScript wd))"

definition wd_files :: "string \<Rightarrow> txWithdrawalDataPolicyScript \<Rightarrow> (string \<times> file_content) list" where
  "wd_files dir wd = (if wd_stakeAddress wd = '''' then [] else script_file (wd_path dir) (wd_policyScript wd))"

definition all_mint_opts :: "string \<Rightarrow> txTokenMintInputs \<Rightarrow> (string \<times> string) list" where
  "all_mint_opts dir mt = (if mt_tokens mt = [] then []
     else (''--mint'', mint_string (mt_tokens mt) '''') # mint_opts dir 0 (mt_policyScripts mt))"

definition all_mint_files :: "string \<Rightarrow> txTokenMintInputs \<Rightarrow> (string \<times> file_content) list" where
  "all_mint_files dir mt = (if mt_tokens mt = [] then [] else mint_files dir 0 (mt_policyScripts mt))"

definition tx_opts :: "TxBuilder \<Rightarrow> u64 \<Rightarrow> (string \<times> string) list" where
  "tx_opts b fee = (let dir = tb_baseDirectory b in
     [(''--protocol-params-file'', params_path dir), (''--fee'', itoa64 fee),
      (''--invalid-hereafter'', itoa64 (tb_timeToLive b)), (''--out-file'', path_join dir draftTxFile)] @
     meta_opts b @ cert_opts dir 0 (tb_certificates b) @ wd_opts dir (tb_withdrawalData b) @
     all_mint_opts dir (tb_mints b) @ input_opts dir 0 (tb_inputs b) @
     map (\<lambda>out. (''--tx-out'', TxOutput_String out)) (tb_outputs b))"

definition tx_files :: "TxBuilder \<Rightarrow> (string \<times> file_content) list" where
  "tx_files b = (let dir = tb_baseDirectory b in
     meta_files b @ cert_files dir 0 (tb_certificates b) @ wd_files dir (tb_withdrawalData b) @
     all_mint_files dir (tb_mints b) @ input_files dir 0 (tb_inputs b))"

definition builder_ok :: "TxBuilder \<Rightarrow> bool" where
  "builder_ok b \<longleftrightarrow> (\<forall>x \<in> set (tb_inputs b). script_ok (ip_policyScript x)) \<and> (\<forall>x \<in> set (tb_certificates b). cert_ok x) \<and>
     script_ok (wd_policyScript (tb_withdrawalData b)) \<and>
     (mt_tokens (tb_mints b) \<noteq> [] \<longrightarrow> (\<forall>x \<in> set (mt_policyScripts (tb_mints b)). x \<noteq> None \<and> script_ok x))"

lemma withdrawal_ok:
  "writes_ok os \<Longrightarrow> script_ok (wd_policyScript wd) \<Longrightarrow>
   withdrawal_Apply os args dir wd fs = Some (Inr (args @ flat (wd_opts dir wd)), put_files fs (wd_files dir wd))"
  by (cases "wd_policyScript wd")
    (simp_all add: withdrawal_Apply_def Let_def wd_opts_def wd_files_def script_opt_def script_file_def script_ok_def
      wd_path_def io_bind_Inr writeSerializable_ok)

lemma mint_ok:
  "writes_ok os \<Longrightarrow> (mt_tokens mt \<noteq> [] \<longrightarrow> (\<forall>x \<in> set (mt_policyScripts mt). x \<noteq> None \<and> script_ok x)) \<Longrightarrow>
   mint_Apply os args dir mt fs = Some (Inr (args @ flat (all_mint_opts dir mt)), put_files fs (all_mint_files dir mt))"
  by (simp add: mint_Apply_def all_mint_opts_def all_mint_files_def mint_scripts_ok)

lemma metadata_ok:
  "writes_ok os \<Longrightarrow> metadata_args os b args fs = Some (Inr (args @ flat (meta_opts b)), put_files fs (meta_files b))"
  by (simp add: metadata_args_def meta_opts_def meta_files_def meta_path_def Let_def io_bind_Inr split: option.split)

lemma flat_outs: "concat (map (\<lambda>out. [''--tx-out'', TxOutput_String out]) outs) = flat (map (\<lambda>out. (''--tx-out'', TxOutput_String out)) outs)"
  by (induction outs) simp_all

lemma buildRawTx_runs:
  assumes "writes_ok os" "builder_ok b"
  shows "buildRawTx os b (params_path (tb_baseDirectory b)) fee fs =
    io_bind (runCommand os (tb_cardanoCliBinary b) ([tb_era b, ''transaction'', ''build-raw''] @ flat (tx_opts b fee)))
      (\<lambda>_. io_lift (Inr ())) (put_files fs (tx_files b))"
  using assms unfolding builder_ok_def
  by (simp add: buildRawTx_def Let_def io_bind_Inr metadata_ok certs_loop_ok withdrawal_ok mint_ok inputs_loop_ok
      flat_outs tx_opts_def tx_files_def)

text \<open>The files have different names.\<close>

lemma itoa_start: "\<exists>d s. itoa n = d # s \<and> dec_val d \<noteq> None"
  using itoa_not_Nil [of n] itoa_digits [of "hd (itoa n)" n] by (cases "itoa n") auto

lemma itoa_suffix: "itoa i @ xs = itoa j @ xs \<longleftrightarrow> i = j"
  by simp

lemma ps_not_mint [simp]: "ps_path dir i \<noteq> mint_path dir j" "mint_path dir j \<noteq> ps_path dir i"
proof -
  obtain d s where "itoa i = d # s" "dec_val d \<noteq> None" using itoa_start by blast
  moreover have "dec_val (CHR ''m'') = None" by (simp add: dec_val_def)
  ultimately show "ps_path dir i \<noteq> mint_path dir j" "mint_path dir j \<noteq> ps_path dir i"
    by (auto simp: ps_path_def mint_path_def)
qed

lemma path_inject [simp]:
  "ps_path dir i = ps_path dir j \<longleftrightarrow> i = j" "mint_path dir i = mint_path dir j \<longleftrightarrow> i = j"
  "cert_path dir i = cert_path dir j \<longleftrightarrow> i = j" "cpol_path dir i = cpol_path dir j \<longleftrightarrow> i = j"
  by (simp_all add: ps_path_def mint_path_def cert_path_def cpol_path_def)

lemma path_differ [simp]:
  "ps_path dir i \<noteq> cert_path dir j" "ps_path dir i \<noteq> cpol_path dir j" "ps_path dir i \<noteq> wd_path dir" "ps_path dir i \<noteq> meta_path dir"
  "ps_path dir i \<noteq> params_path dir" "mint_path dir i \<noteq> cert_path dir j" "mint_path dir i \<noteq> cpol_path dir j" "mint_path dir i \<noteq> wd_path dir"
  "mint_path dir i \<noteq> meta_path dir" "mint_path dir i \<noteq> params_path dir" "cert_path dir i \<noteq> cpol_path dir j" "cert_path dir i \<noteq> wd_path dir"
  "cert_path dir i \<noteq> meta_path dir" "cert_path dir i \<noteq> params_path dir" "cpol_path dir i \<noteq> wd_path dir" "cpol_path dir i \<noteq> meta_path dir"
  "cpol_path dir i \<noteq> params_path dir" "wd_path dir \<noteq> meta_path dir" "wd_path dir \<noteq> params_path dir" "meta_path dir \<noteq> params_path dir"
  by (simp_all add: ps_path_def mint_path_def cert_path_def cpol_path_def wd_path_def meta_path_def params_path_def)

lemmas path_differ' [simp] = path_differ [symmetric]

lemma in_script_file [simp]: "(p, c) \<in> set (script_file q ps) \<longleftrightarrow> p = q \<and> (\<exists>s. ps = Some s \<and> c = FileJson (doc (isc_GetBytesJSON s)))"
  by (auto simp: script_file_def split: option.splits)

lemma in_input_files:
  "(p, c) \<in> set (input_files dir i xs) \<longleftrightarrow>
   (\<exists>k < length xs. \<exists>s. p = ps_path dir (i + k) \<and> ip_policyScript (xs ! k) = Some s \<and> c = FileJson (doc (isc_GetBytesJSON s)))"
proof (induction xs arbitrary: i)
  case (Cons x xs)
  have "(\<exists>k < length (x # xs). P k) \<longleftrightarrow> P 0 \<or> (\<exists>k < length xs. P (Suc k))" for P
    by (simp add: Ex_less_Suc2)
  with Cons show ?case by simp
qed simp

lemma in_mint_files:
  "(p, c) \<in> set (mint_files dir i xs) \<longleftrightarrow>
   (\<exists>k < length xs. \<exists>s. p = mint_path dir (i + k) \<and> xs ! k = Some s \<and> c = FileJson (doc (isc_GetBytesJSON s)))"
proof (induction xs arbitrary: i)
  case (Cons x xs)
  have "(\<exists>k < length (x # xs). P k) \<longleftrightarrow> P 0 \<or> (\<exists>k < length xs. P (Suc k))" for P
    by (simp add: Ex_less_Suc2)
  with Cons show ?case by simp
qed simp

lemma in_cert_files:
  "(p, c) \<in> set (cert_files dir i xs) \<longleftrightarrow>
   (\<exists>k < length xs. \<exists>ct. cp_certificate (xs ! k) = Some ct \<and>
     (p = cert_path dir (i + k) \<and> c = FileJson (doc ct) \<or>
      (\<exists>s. p = cpol_path dir (i + k) \<and> cp_policyScript (xs ! k) = Some s \<and> c = FileJson (doc (isc_GetBytesJSON s)))))"
proof (induction xs arbitrary: i)
  case (Cons x xs)
  have "(\<exists>k < length (x # xs). P k) \<longleftrightarrow> P 0 \<or> (\<exists>k < length xs. P (Suc k))" for P
    by (simp add: Ex_less_Suc2)
  with Cons show ?case by (cases "cp_certificate x") auto
qed simp

lemma in_meta_files: "(p, c) \<in> set (meta_files b) \<longleftrightarrow> p = meta_path (tb_baseDirectory b) \<and> (\<exists>m. tb_metadata b = Some m \<and> c = FileBytes m)"
  by (auto simp: meta_files_def split: option.splits)

lemma in_wd_files:
  "(p, c) \<in> set (wd_files dir wd) \<longleftrightarrow> wd_stakeAddress wd \<noteq> '''' \<and> p = wd_path dir \<and>
     (\<exists>s. wd_policyScript wd = Some s \<and> c = FileJson (doc (isc_GetBytesJSON s)))"
  by (simp add: wd_files_def)

lemmas in_files = in_input_files in_mint_files in_cert_files in_meta_files in_wd_files

lemma tx_files_lookup:
  assumes "(p, c) \<in> set (tx_files b)"
  shows "put_files fs (tx_files b) p = Some c"
proof (rule put_files_lookup [OF assms])
  fix c' assume "(p, c') \<in> set (tx_files b)"
  note assms this
  then show "c' = c"
    unfolding tx_files_def Let_def set_append Un_iff all_mint_files_def
    by (elim disjE) (auto simp: in_files split: if_splits)
qed

lemma tx_files_other: "put_files fs (tx_files b) (params_path (tb_baseDirectory b)) = fs (params_path (tb_baseDirectory b))"
proof (rule put_files_other, rule notI)
  assume "params_path (tb_baseDirectory b) \<in> fst ` set (tx_files b)"
  then obtain c where "(params_path (tb_baseDirectory b), c) \<in> set (tx_files b)" by auto
  then show False by (auto simp: tx_files_def Let_def all_mint_files_def in_files split: if_splits)
qed

section \<open>The view of the command line\<close>

text \<open>
  A command line is three words and options with one value each. The option that names the
  script of an input, certificate or withdrawal stands right after the option it belongs to.
\<close>

fun opt_pairs :: "string list \<Rightarrow> (string \<times> string) list" where
  "opt_pairs (f # v # r) = (f, v) # opt_pairs r"
| "opt_pairs _ = []"

fun with_script :: "string \<Rightarrow> string \<Rightarrow> (string \<times> string) list \<Rightarrow> (string \<times> string option) list" where
  "with_script f g [] = []"
| "with_script f g ((k, v) # r) =
     (if k = f then (v, case r of (k', p) # _ \<Rightarrow> if k' = g then Some p else None | [] \<Rightarrow> None) # with_script f g r
      else with_script f g r)"

definition opt_vals :: "string \<Rightarrow> (string \<times> string) list \<Rightarrow> string list" where
  "opt_vals f opts = map snd (filter (\<lambda>(k, v). k = f) opts)"

record tx_view =
  tv_params :: "file_content option list"
  tv_fee :: "string list"
  tv_ttl :: "string list"
  tv_metadata :: "file_content option list"
  tv_certificates :: "(file_content option \<times> file_content option) list"
  tv_withdrawals :: "(string \<times> file_content option) list"
  tv_mint :: "string list"
  tv_mintScripts :: "file_content option list"
  tv_inputs :: "(string \<times> file_content option) list"
  tv_outputs :: "string list"

definition cli_view :: "files \<Rightarrow> string list \<Rightarrow> tx_view" where
  "cli_view fs args = (let opts = opt_pairs args in
     \<lparr>tv_params = map fs (opt_vals ''--protocol-params-file'' opts),
      tv_fee = opt_vals ''--fee'' opts,
      tv_ttl = opt_vals ''--invalid-hereafter'' opts,
      tv_metadata = map fs (opt_vals ''--metadata-json-file'' opts),
      tv_certificates = map (\<lambda>(v, p). (fs v, Option.bind p fs)) (with_script ''--certificate-file'' ''--certificate-script-file'' opts),
      tv_withdrawals = map (\<lambda>(v, p). (v, Option.bind p fs)) (with_script ''--withdrawal'' ''--withdrawal-script-file'' opts),
      tv_mint = opt_vals ''--mint'' opts,
      tv_mintScripts = map fs (opt_vals ''--minting-script-file'' opts),
      tv_inputs = map (\<lambda>(v, p). (v, Option.bind p fs)) (with_script ''--tx-in'' ''--tx-in-script-file'' opts),
      tv_outputs = opt_vals ''--tx-out'' opts\<rparr>)"

definition script_content :: "IPolicyScript option \<Rightarrow> file_content option" where
  "script_content ps = map_option (\<lambda>s. FileJson (doc (isc_GetBytesJSON s))) ps"

definition builder_view :: "TxBuilder \<Rightarrow> u64 \<Rightarrow> file_content option \<Rightarrow> tx_view" where
  "builder_view b fee params =
     \<lparr>tv_params = [params], tv_fee = [itoa64 fee], tv_ttl = [itoa64 (tb_timeToLive b)],
      tv_metadata = (case tb_metadata b of None \<Rightarrow> [] | Some m \<Rightarrow> [Some (FileBytes m)]),
      tv_certificates = concat (map (\<lambda>x. case cp_certificate x of None \<Rightarrow> []
        | Some c \<Rightarrow> [(Some (FileJson (doc c)), script_content (cp_policyScript x))]) (tb_certificates b)),
      tv_withdrawals = (let wd = tb_withdrawalData b in if wd_stakeAddress wd = '''' then []
        else [(wd_stakeAddress wd @ ''+'' @ itoa64 (wd_rewardAmount wd), script_content (wd_policyScript wd))]),
      tv_mint = (if mt_tokens (tb_mints b) = [] then [] else [mint_string (mt_tokens (tb_mints b)) '''']),
      tv_mintScripts = (if mt_tokens (tb_mints b) = [] then [] else map script_content (mt_policyScripts (tb_mints b))),
      tv_inputs = map (\<lambda>x. (TxInput_String (ip_txInput x), script_content (ip_policyScript x))) (tb_inputs b),
      tv_outputs = map TxOutput_String (tb_outputs b)\<rparr>"

lemma opt_pairs_flat: "opt_pairs (flat opts) = opts"
  by (induction opts) auto

lemma opt_vals_simps [simp]:
  "opt_vals f [] = []" "opt_vals f ((k, v) # r) = (if k = f then v # opt_vals f r else opt_vals f r)"
  "opt_vals f (xs @ ys) = opt_vals f xs @ opt_vals f ys"
  by (simp_all add: opt_vals_def)

lemma opt_vals_none: "f \<notin> fst ` set xs \<Longrightarrow> opt_vals f xs = []"
  by (induction xs) auto

lemma with_script_none: "f \<notin> fst ` set xs \<Longrightarrow> with_script f g (xs @ ys) = with_script f g ys"
  by (induction xs) auto

lemma with_script_append:
  "ys = [] \<or> fst (hd ys) \<noteq> g \<Longrightarrow> with_script f g (xs @ ys) = with_script f g xs @ with_script f g ys"
proof (induction xs)
  case (Cons x xs)
  then show ?case by (cases x; cases xs; cases ys) auto
qed simp

lemma with_script_end: "g \<notin> fst ` set ys \<Longrightarrow> f \<notin> fst ` set ys \<Longrightarrow> with_script f g (xs @ ys) = with_script f g xs"
  using with_script_append [of ys g f xs] with_script_none [of f ys g "[]"] by (cases ys) auto

text \<open>The options of each group.\<close>

definition keys_in :: "string set \<Rightarrow> (string \<times> string) list \<Rightarrow> bool" where
  "keys_in K opts \<longleftrightarrow> (\<forall>x \<in> set opts. fst x \<in> K)"

lemma keys_in_simps [simp]:
  "keys_in K []" "keys_in K (x # xs) \<longleftrightarrow> fst x \<in> K \<and> keys_in K xs" "keys_in K (xs @ ys) \<longleftrightarrow> keys_in K xs \<and> keys_in K ys"
  by (auto simp: keys_in_def)

lemma keys_in_none: "keys_in K xs \<Longrightarrow> f \<notin> K \<Longrightarrow> f \<notin> fst ` set xs"
  by (auto simp: keys_in_def)

lemma keys_script [simp]: "f \<in> K \<Longrightarrow> keys_in K (script_opt f p ps)"
  by (simp add: script_opt_def split: option.splits)

lemma keys_input: "keys_in {''--tx-in'', ''--tx-in-script-file''} (input_opts dir i xs)"
  by (induction xs arbitrary: i) simp_all

lemma keys_cert: "keys_in {''--certificate-file'', ''--certificate-script-file''} (cert_opts dir i xs)"
  by (induction xs arbitrary: i) (simp_all split: option.splits)

lemma keys_mint: "''--minting-script-file'' \<in> K \<Longrightarrow> keys_in K (mint_opts dir i xs)"
  by (induction xs arbitrary: i) simp_all

lemma keys_all_mint: "keys_in {''--mint'', ''--minting-script-file''} (all_mint_opts dir mt)"
  by (simp add: all_mint_opts_def keys_mint)

lemma keys_wd: "keys_in {''--withdrawal'', ''--withdrawal-script-file''} (wd_opts dir wd)"
  by (simp add: wd_opts_def)

lemma keys_meta: "keys_in {''--metadata-json-file''} (meta_opts b)"
  by (simp add: meta_opts_def split: option.splits)

lemma keys_out: "keys_in {''--tx-out''} (map (\<lambda>out. (''--tx-out'', TxOutput_String out)) outs)"
  by (induction outs) simp_all

lemmas keys_all = keys_input [THEN keys_in_none] keys_cert [THEN keys_in_none] keys_all_mint [THEN keys_in_none]
  keys_wd [THEN keys_in_none] keys_meta [THEN keys_in_none] keys_out [THEN keys_in_none]

text \<open>The documents the options name.\<close>

lemma script_opt_content:
  assumes "\<forall>(p, c) \<in> set (script_file path ps). fs p = Some c"
  shows "Option.bind (case script_opt g path ps of (k', p) # _ \<Rightarrow> if k' = g then Some p else None | [] \<Rightarrow> None) fs = script_content ps"
  using assms by (auto simp: script_opt_def script_file_def script_content_def split: option.splits)

lemma input_view:
  assumes "\<forall>(p, c) \<in> set (input_files dir i xs). fs p = Some c"
  shows "map (\<lambda>(v, p). (v, Option.bind p fs)) (with_script ''--tx-in'' ''--tx-in-script-file'' (input_opts dir i xs)) =
    map (\<lambda>x. (TxInput_String (ip_txInput x), script_content (ip_policyScript x))) xs"
  using assms
proof (induction xs arbitrary: i)
  case (Cons x xs)
  have "input_opts dir (i + 1) xs = [] \<or> fst (hd (input_opts dir (i + 1) xs)) \<noteq> ''--tx-in-script-file''"
    by (cases xs) auto
  note app = with_script_append [OF this]
  have "\<forall>(p, c) \<in> set (input_files dir (i + 1) xs). fs p = Some c" using Cons.prems by auto
  from Cons.IH [OF this] Cons.prems show ?case
    by (simp only: input_opts.simps app map_append)
      (cases "ip_policyScript x"; auto simp: script_opt_def script_content_def script_file_def)
qed simp

lemma cert_view:
  assumes "\<forall>(p, c) \<in> set (cert_files dir i xs). fs p = Some c"
  shows "map (\<lambda>(v, p). (fs v, Option.bind p fs)) (with_script ''--certificate-file'' ''--certificate-script-file'' (cert_opts dir i xs)) =
    concat (map (\<lambda>x. case cp_certificate x of None \<Rightarrow> []
      | Some c \<Rightarrow> [(Some (FileJson (doc c)), script_content (cp_policyScript x))]) xs)"
  using assms
proof (induction xs arbitrary: i)
  case (Cons x xs)
  have "cert_opts dir j ys = [] \<or> fst (hd (cert_opts dir j ys)) \<noteq> ''--certificate-script-file''" for j ys
    by (induction ys arbitrary: j) (auto split: option.splits)
  note app = with_script_append [OF this]
  have "\<forall>(p, c) \<in> set (cert_files dir (i + 1) xs). fs p = Some c" using Cons.prems by auto
  from Cons.IH [OF this] Cons.prems show ?case
    by (simp only: cert_opts.simps app map_append list.map concat.simps)
      (cases "cp_certificate x"; cases "cp_policyScript x"; auto simp: script_opt_def script_content_def script_file_def)
qed simp

lemma mint_view:
  assumes "\<forall>(p, c) \<in> set (mint_files dir i xs). fs p = Some c" "\<forall>x \<in> set xs. x \<noteq> None"
  shows "map fs (opt_vals ''--minting-script-file'' (mint_opts dir i xs)) = map script_content xs"
  using assms
proof (induction xs arbitrary: i)
  case (Cons x xs)
  then obtain s where "x = Some s" by auto
  with Cons show ?case by (auto simp: script_opt_def script_file_def script_content_def)
qed simp

lemma wd_view:
  assumes "\<forall>(p, c) \<in> set (wd_files dir wd). fs p = Some c"
  shows "map (\<lambda>(v, p). (v, Option.bind p fs)) (with_script ''--withdrawal'' ''--withdrawal-script-file'' (wd_opts dir wd)) =
    (if wd_stakeAddress wd = '''' then []
     else [(wd_stakeAddress wd @ ''+'' @ itoa64 (wd_rewardAmount wd), script_content (wd_policyScript wd))])"
  using assms by (cases "wd_policyScript wd") (auto simp: wd_opts_def wd_files_def script_opt_def script_file_def script_content_def)

text \<open>Which group answers each option.\<close>

lemmas vals_none = keys_all [THEN opt_vals_none]

lemmas script_none = keys_all [THEN with_script_none]

lemma keys_in_mono: "keys_in K xs \<Longrightarrow> K \<subseteq> L \<Longrightarrow> keys_in L xs"
  by (auto simp: keys_in_def)

lemmas keys_sub = keys_input [THEN keys_in_mono] keys_cert [THEN keys_in_mono] keys_all_mint [THEN keys_in_mono]
  keys_wd [THEN keys_in_mono] keys_meta [THEN keys_in_mono] keys_out [THEN keys_in_mono]

lemma with_script_upto: "keys_in {k. k \<noteq> f \<and> k \<noteq> g} ys \<Longrightarrow> with_script f g (xs @ ys) = with_script f g xs"
  by (rule with_script_end) (auto simp: keys_in_def)

lemma tx_opts_vals:
  "opt_vals ''--protocol-params-file'' (tx_opts b fee) = [params_path (tb_baseDirectory b)]"
  "opt_vals ''--fee'' (tx_opts b fee) = [itoa64 fee]"
  "opt_vals ''--invalid-hereafter'' (tx_opts b fee) = [itoa64 (tb_timeToLive b)]"
  "opt_vals ''--metadata-json-file'' (tx_opts b fee) = opt_vals ''--metadata-json-file'' (meta_opts b)"
  "opt_vals ''--mint'' (tx_opts b fee) = opt_vals ''--mint'' (all_mint_opts (tb_baseDirectory b) (tb_mints b))"
  "opt_vals ''--minting-script-file'' (tx_opts b fee) = opt_vals ''--minting-script-file'' (all_mint_opts (tb_baseDirectory b) (tb_mints b))"
  by (simp_all add: tx_opts_def Let_def vals_none)

lemma tx_opts_outs: "opt_vals ''--tx-out'' (tx_opts b fee) = map TxOutput_String (tb_outputs b)"
proof -
  have "opt_vals ''--tx-out'' (map (\<lambda>out. (''--tx-out'', TxOutput_String out)) outs) = map TxOutput_String outs" for outs
    by (induction outs) simp_all
  then show ?thesis by (simp add: tx_opts_def Let_def vals_none)
qed

lemma tx_opts_script:
  "with_script ''--certificate-file'' ''--certificate-script-file'' (tx_opts b fee) =
     with_script ''--certificate-file'' ''--certificate-script-file'' (cert_opts (tb_baseDirectory b) 0 (tb_certificates b))"
  "with_script ''--withdrawal'' ''--withdrawal-script-file'' (tx_opts b fee) =
     with_script ''--withdrawal'' ''--withdrawal-script-file'' (wd_opts (tb_baseDirectory b) (tb_withdrawalData b))"
  "with_script ''--tx-in'' ''--tx-in-script-file'' (tx_opts b fee) =
     with_script ''--tx-in'' ''--tx-in-script-file'' (input_opts (tb_baseDirectory b) 0 (tb_inputs b))"
  unfolding tx_opts_def Let_def
  by (simp_all add: script_none with_script_upto keys_sub)

lemma all_mint_view:
  assumes "\<forall>(p, c) \<in> set (all_mint_files dir mt). fs p = Some c"
    and "mt_tokens mt \<noteq> [] \<longrightarrow> (\<forall>x \<in> set (mt_policyScripts mt). x \<noteq> None \<and> script_ok x)"
  shows "opt_vals ''--mint'' (all_mint_opts dir mt) = (if mt_tokens mt = [] then [] else [mint_string (mt_tokens mt) ''''])"
    and "map fs (opt_vals ''--minting-script-file'' (all_mint_opts dir mt)) =
      (if mt_tokens mt = [] then [] else map script_content (mt_policyScripts mt))"
proof -
  have "opt_vals ''--mint'' (mint_opts dir 0 (mt_policyScripts mt)) = []"
    by (rule opt_vals_none, rule keys_in_none [OF keys_mint [of "{''--minting-script-file''}"]]) simp_all
  then show "opt_vals ''--mint'' (all_mint_opts dir mt) = (if mt_tokens mt = [] then [] else [mint_string (mt_tokens mt) ''''])"
    by (simp add: all_mint_opts_def)
  show "map fs (opt_vals ''--minting-script-file'' (all_mint_opts dir mt)) =
      (if mt_tokens mt = [] then [] else map script_content (mt_policyScripts mt))"
    using assms mint_view [of dir 0 "mt_policyScripts mt" fs] by (simp add: all_mint_opts_def all_mint_files_def)
qed

lemma tx_view:
  assumes ok: "builder_ok b" and fs: "\<And>p c. (p, c) \<in> set (tx_files b) \<Longrightarrow> fs' p = Some c"
    and params: "fs' (params_path (tb_baseDirectory b)) = params"
  shows "cli_view fs' (flat (tx_opts b fee)) = builder_view b fee params"
proof -
  have sub: "\<forall>(p, c) \<in> set W. fs' p = Some c" if "set W \<subseteq> set (tx_files b)" for W using fs that by auto
  have tx: "set (tx_files b) = set (meta_files b) \<union> set (cert_files (tb_baseDirectory b) 0 (tb_certificates b)) \<union>
      set (wd_files (tb_baseDirectory b) (tb_withdrawalData b)) \<union> set (all_mint_files (tb_baseDirectory b) (tb_mints b)) \<union>
      set (input_files (tb_baseDirectory b) 0 (tb_inputs b))"
    by (simp add: tx_files_def Let_def Un_assoc)
  have meta: "map fs' (opt_vals ''--metadata-json-file'' (meta_opts b)) = (case tb_metadata b of None \<Rightarrow> [] | Some m \<Rightarrow> [Some (FileBytes m)])"
    using sub [of "meta_files b"] by (auto simp: tx meta_opts_def meta_files_def split: option.splits)
  have cert: "\<forall>(p, c) \<in> set (cert_files (tb_baseDirectory b) 0 (tb_certificates b)). fs' p = Some c"
    and wd: "\<forall>(p, c) \<in> set (wd_files (tb_baseDirectory b) (tb_withdrawalData b)). fs' p = Some c"
    and mint: "\<forall>(p, c) \<in> set (all_mint_files (tb_baseDirectory b) (tb_mints b)). fs' p = Some c"
    and inp: "\<forall>(p, c) \<in> set (input_files (tb_baseDirectory b) 0 (tb_inputs b)). fs' p = Some c"
    by (rule sub, simp only: tx, blast)+
  have "mt_tokens (tb_mints b) \<noteq> [] \<longrightarrow> (\<forall>x \<in> set (mt_policyScripts (tb_mints b)). x \<noteq> None \<and> script_ok x)"
    using ok by (simp add: builder_ok_def)
  note mv = all_mint_view [OF mint this]
  show ?thesis
    by (simp add: cli_view_def builder_view_def Let_def opt_pairs_flat tx_opts_vals tx_opts_outs tx_opts_script
        params meta mv input_view [OF inp] cert_view [OF cert] wd_view [OF wd])
qed

section \<open>Properties\<close>

text \<open>
  C6. When the writes succeed and every document of the builder can be marshalled,
  \<open>buildRawTx\<close> issues exactly one command, \<open>transaction build-raw\<close>. Read back option by option,
  with every named file looked up at the moment of the run, its command line is the transaction
  the builder holds: the fee, the time to live, the metadata, each certificate and each input and
  the withdrawal with its own policy script (no document overwrites another), the minted tokens,
  and the outputs in order.
\<close>

theorem build_command_carries_builder:
  assumes "writes_ok os" "builder_ok b"
  shows "\<exists>opts fs'. buildRawTx os b (params_path (tb_baseDirectory b)) fee fs =
      io_bind (runCommand os (tb_cardanoCliBinary b) ([tb_era b, ''transaction'', ''build-raw''] @ opts)) (\<lambda>_. io_lift (Inr ())) fs' \<and>
    cli_view fs' opts = builder_view b fee (fs (params_path (tb_baseDirectory b)))"
proof -
  have "cli_view (put_files fs (tx_files b)) (flat (tx_opts b fee)) = builder_view b fee (fs (params_path (tb_baseDirectory b)))"
    by (rule tx_view [OF assms(2)]) (simp_all add: tx_files_lookup tx_files_other)
  with buildRawTx_runs [OF assms, of fee fs] show ?thesis by blast
qed

definition demo_run :: "string \<Rightarrow> string list \<Rightarrow> files \<Rightarrow> cmd_result \<times> files" where
  "demo_run bin args fs = (\<lparr>cmd_stdout = '''', cmd_stderr = '''', cmd_err = None\<rparr>, fs)"

definition demo_os :: os_env where
  "demo_os = \<lparr>os_MkdirTemp = (\<lambda>_ _. Inr ''tmp''), os_write_err = (\<lambda>_. None), os_run = demo_run, os_json = (\<lambda>_. None)\<rparr>"

definition demo_script :: IPolicyScript where
  "demo_script = \<lparr>isc_ref = 1, isc_GetBytesJSON = Inr (JStr ''sig''), isc_GetCount = 2\<rparr>"

definition demo_builder :: TxBuilder where
  "demo_builder = \<lparr>tb_baseDirectory = ''tmp'',
     tb_inputs = [\<lparr>ip_txInput = \<lparr>ti_Hash = ''ab'', ti_Index = 1\<rparr>, ip_policyScript = Some demo_script\<rparr>],
     tb_outputs = [\<lparr>to_Addr = ''addr'', to_Amount = 5, to_Tokens = []\<rparr>],
     tb_mints = \<lparr>mt_tokens = [], mt_policyScripts = []\<rparr>, tb_certificates = [], tb_metadata = Some [1],
     tb_protocolParameters = Some [2], tb_timeToLive = 7, tb_testNetMagic = 0, tb_fee = 3,
     tb_withdrawalData = \<lparr>wd_stakeAddress = '''', wd_rewardAmount = 0, wd_policyScript = None\<rparr>,
     tb_era = ''latest'', tb_realEraName = ''Conway'', tb_cardanoCliBinary = ''cardano-cli''\<rparr>"

lemma demo_ok: "writes_ok demo_os" "builder_ok demo_builder"
  by (simp_all add: writes_ok_def demo_os_def builder_ok_def demo_builder_def demo_script_def script_ok_def doc_ok_def)

theorem build_command_carries_builder_witness:
  "\<exists>opts fs'. buildRawTx demo_os demo_builder (params_path ''tmp'') 3 Map.empty =
      io_bind (runCommand demo_os ''cardano-cli'' ([''latest'', ''transaction'', ''build-raw''] @ opts)) (\<lambda>_. io_lift (Inr ())) fs' \<and>
    cli_view fs' opts = builder_view demo_builder 3 None"
  using build_command_carries_builder [OF demo_ok, of 3 Map.empty] by (simp add: demo_builder_def)

end
