(* ===== verification/Tx_Signing.thy ===== *)
theory Tx_Signing
  imports Tx_Builder_Props
begin

text \<open>
  Further operations of the transaction builder: the outputs by position, the number of witnesses
  that the fee is computed for, the errors found before anything is written, and signing, which is
  related to what the \<open>witness\<close> and \<open>assemble\<close> commands promise.
\<close>

section \<open>Outputs by position\<close>

lemma out_index_range:
  "0 \<le> out_index b i \<and> out_index b i < int (length (tb_outputs b)) \<longleftrightarrow>
   - int (length (tb_outputs b)) \<le> i \<and> i < int (length (tb_outputs b))"
  by (auto simp: out_index_def)

text \<open>
  The operations on an output by its position accept exactly the indices from \<open>- n\<close> to
  \<open>n - 1\<close> of the \<open>n\<close> outputs, a negative one counting from the end, and panic on any other;
  inside the range they replace the one output, change its amounts only, or take the one output
  out and keep the order of the others.
\<close>

theorem output_operations:
  "(let n = int (length (tb_outputs b)); k = nat (if i < 0 then n + i else i); ok = (- n \<le> i \<and> i < n); outs = tb_outputs b in
    ReplaceOutput i out b = (if ok then Some (b\<lparr>tb_outputs := outs[k := out]\<rparr>) else None) \<and>
    UpdateOutputAmount i amount tokenAmounts b = (if ok
      then Some (b\<lparr>tb_outputs := outs[k := (outs ! k)\<lparr>to_Amount := amount,
        to_Tokens := update_token_amounts (to_Tokens (outs ! k)) tokenAmounts\<rparr>]\<rparr>) else None) \<and>
    RemoveOutput i b = (if ok then Some (b\<lparr>tb_outputs := take k outs @ drop (Suc k) outs\<rparr>) else None))"
  by (auto simp: Let_def ReplaceOutput_def UpdateOutputAmount_def RemoveOutput_def out_index_def go_nth_def go_upd_def
      go_slice_def nat_add_distrib nat_diff_distrib)

section \<open>Errors before any effect\<close>

lemma CheckOutputs_ok: "is_ok (CheckOutputs b) \<longleftrightarrow> (\<forall>x \<in> set (tb_outputs b). to_Amount x \<noteq> 0)"
proof -
  have "filter (\<lambda>(i, x). to_Amount x = 0) (enumerate k xs) = [] \<longleftrightarrow> (\<forall>x \<in> set xs. to_Amount x \<noteq> 0)" for k and xs :: "TxOutput list"
    by (induction xs arbitrary: k) auto
  then show ?thesis by (simp add: CheckOutputs_def Let_def)
qed

text \<open>
  Without protocol parameters, or with an output whose amount is zero, \<open>Build\<close> fails: it runs
  no command and leaves every file as it was. In particular a builder whose change output was never
  given an amount cannot be built.
\<close>

theorem Build_refuses:
  assumes "tb_protocolParameters b = None \<or> (\<exists>x \<in> set (tb_outputs b). to_Amount x = 0)"
  shows "\<exists>e. Build os b = (\<lambda>fs. Some (Inl e, fs))"
proof (cases "tb_protocolParameters b")
  case (Some params)
  with assms CheckOutputs_ok [of b] obtain e where "CheckOutputs b = Inl e" by (cases "CheckOutputs b") auto
  with Some have "Build os b = io_lift (Inl e)" by (simp add: Build_def)
  then show ?thesis by (auto simp: io_lift_def)
qed (auto simp: Build_def io_lift_def)

theorem Build_refuses_witness:
  "\<exists>e. Build demo_os (demo_builder\<lparr>tb_protocolParameters := None\<rparr>) = (\<lambda>fs. Some (Inl e, fs))"
  by (rule Build_refuses) simp

section \<open>Witness counts\<close>

definition refs_of :: "txCertificateWithPolicyScript list \<Rightarrow> nat set" where
  "refs_of certs = {isc_ref s | s. Some s \<in> cp_policyScript ` set certs}"

definition key_certs :: "txCertificateWithPolicyScript list \<Rightarrow> nat" where
  "key_certs certs = length (filter (\<lambda>c. cp_policyScript c = None \<and> cp_certificate c \<noteq> None) certs)"

lemma refs_of_simps [simp]:
  "refs_of [] = {}"
  "refs_of (c # cs) = (case cp_policyScript c of None \<Rightarrow> refs_of cs | Some s \<Rightarrow> insert (isc_ref s) (refs_of cs))"
  by (auto simp: refs_of_def split: option.splits)

lemma refs_of_finite [simp]: "finite (refs_of certs)"
  by (induction certs) (auto split: option.splits)

definition done_refs :: "IPolicyScript option list \<Rightarrow> nat set" where
  "done_refs ps = {isc_ref s | s. Some s \<in> set ps}"

lemma done_refs_snoc [simp]:
  "done_refs (ps @ [p]) = (case p of None \<Rightarrow> done_refs ps | Some s \<Rightarrow> insert (isc_ref s) (done_refs ps))"
  by (auto simp: done_refs_def split: option.splits)

lemma already_done: "(\<exists>p \<in> set ps. same_script p (Some s)) \<longleftrightarrow> isc_ref s \<in> done_refs ps"
proof -
  have "same_script p (Some s) \<longleftrightarrow> (\<exists>z. p = Some z \<and> isc_ref s = isc_ref z)" for p
    by (cases p) (auto simp: same_script_def)
  then show ?thesis by (simp add: done_refs_def) blast
qed

lemma cert_witness_loop_sum:
  assumes "\<forall>c \<in> set certs. \<forall>s. cp_policyScript c = Some s \<longrightarrow> isc_GetCount s = cnt (isc_ref s)"
  shows "cert_witness_loop n ps certs = n + (\<Sum>r \<in> refs_of certs - done_refs ps. cnt r) + int (key_certs certs)"
  using assms
proof (induction certs arbitrary: n ps)
  case (Cons c cs)
  show ?case
  proof (cases "cp_policyScript c")
    case None
    with Cons show ?thesis by (simp add: cert_GetWitnessCount_def key_certs_def)
  next
    case (Some s)
    show ?thesis
    proof (cases "isc_ref s \<in> done_refs ps")
      case True
      with Some Cons show ?thesis by (simp add: already_done key_certs_def insert_absorb insert_Diff_if)
    next
      case False
      have "refs_of cs - insert (isc_ref s) (done_refs ps) = (refs_of (c # cs) - done_refs ps) - {isc_ref s}"
        using Some by auto
      moreover have "isc_ref s \<in> refs_of (c # cs) - done_refs ps" using Some False by simp
      ultimately have "(\<Sum>r \<in> refs_of (c # cs) - done_refs ps. cnt r) =
          cnt (isc_ref s) + (\<Sum>r \<in> refs_of cs - insert (isc_ref s) (done_refs ps). cnt r)"
        by (simp add: sum.remove [of _ "isc_ref s"] del: refs_of_simps)
      with Some False Cons show ?thesis by (simp add: already_done cert_GetWitnessCount_def key_certs_def del: refs_of_simps)
    qed
  qed
qed (simp add: key_certs_def)

text \<open>
  The witnesses for the certificates are counted once for each policy script, however many
  certificates share the pointer, and once for each certificate that has no script.
\<close>

theorem certificate_witnesses:
  assumes "\<forall>c \<in> set certs. \<forall>s. cp_policyScript c = Some s \<longrightarrow> isc_GetCount s = cnt (isc_ref s)"
  shows "getCertfificatesWitnessCount certs = (\<Sum>r \<in> refs_of certs. cnt r) + int (key_certs certs)"
  using cert_witness_loop_sum [OF assms, of 0 "[]"] by (simp add: getCertfificatesWitnessCount_def done_refs_def)

theorem certificate_witnesses_witness:
  "getCertfificatesWitnessCount [\<lparr>cp_certificate = Some (Inr JNull), cp_policyScript = Some demo_script\<rparr>,
     \<lparr>cp_certificate = Some (Inr JNull), cp_policyScript = Some demo_script\<rparr>,
     \<lparr>cp_certificate = Some (Inr JNull), cp_policyScript = None\<rparr>] = 3"
  by (subst certificate_witnesses [where cnt = "\<lambda>_. 2"]) (simp_all add: demo_script_def key_certs_def)

section \<open>Signing\<close>

definition wit_path :: "string \<Rightarrow> string" where "wit_path dir = path_join dir ''tx.wit''"
definition raw_path :: "string \<Rightarrow> string" where "raw_path dir = path_join dir ''tx.raw''"
definition skey_path :: "string \<Rightarrow> string" where "skey_path dir = path_join dir ''tx.skey''"
definition sig_path :: "string \<Rightarrow> string" where "sig_path dir = path_join dir ''tx.sig''"
definition nth_path :: "string \<Rightarrow> nat \<Rightarrow> string" where "nth_path dir i = path_join dir (''witness-'' @ itoa (i + 1))"

lemma sign_paths [simp]:
  "raw_path dir \<noteq> skey_path dir" "skey_path dir \<noteq> raw_path dir" "raw_path dir \<noteq> nth_path dir i" "nth_path dir i \<noteq> raw_path dir"
  "nth_path dir i = nth_path dir j \<longleftrightarrow> i = j"
  by (simp_all add: raw_path_def skey_path_def nth_path_def)

definition signing_title :: "bytes \<Rightarrow> string" where
  "signing_title signingKey = (if length signingKey > KeySize then ''PaymentExtendedSigningKeyShelley_ed25519_bip32''
     else ''PaymentSigningKeyShelley_ed25519'')"

definition signing_doc :: "cbor_prims \<Rightarrow> bytes \<Rightarrow> file_content result" where
  "signing_doc cb signingKey = rbind (NewKeyFromBytes cb (signing_title signingKey) '''' signingKey) (\<lambda>k. Inr (key_file k))"

definition ran :: "cmd_result \<Rightarrow> bool" where
  "ran r \<longleftrightarrow> cmd_stderr r = '''' \<and> cmd_err r = None"

text \<open>
  What the two commands do, for functions \<open>wit\<close> and \<open>asm\<close>: \<open>witness\<close> writes the witness of the
  body and the key document that its two options name, \<open>assemble\<close> the signed transaction of the body
  and of the witnesses its options name, in their order. Each writes its output file and no other.
\<close>

definition signing_cli :: "os_env \<Rightarrow> TxBuilder \<Rightarrow> (bytes \<Rightarrow> file_content \<Rightarrow> bytes) \<Rightarrow> (bytes \<Rightarrow> bytes list \<Rightarrow> bytes) \<Rightarrow> bool" where
  "signing_cli os b wit asm \<longleftrightarrow> (let dir = tb_baseDirectory b; era = tb_realEraName b; bin = tb_cardanoCliBinary b in
     (\<forall>fs raw k. fs (raw_path dir) = Some (FileJson (unwitnessed_ToJSON raw era)) \<and> fs (skey_path dir) = Some k \<longrightarrow>
        (\<exists>r. ran r \<and> os_run os bin ([tb_era b, ''transaction'', ''witness'', ''--signing-key-file'', skey_path dir,
            ''--tx-body-file'', raw_path dir, ''--out-file'', wit_path dir] @ getTestNetMagicArgs (tb_testNetMagic b)) fs =
          (r, fs(wit_path dir \<mapsto> FileJson (witness_ToJSON (wit raw k) era))))) \<and>
     (\<forall>fs raw paths ws. fs (raw_path dir) = Some (FileJson (unwitnessed_ToJSON raw era)) \<and>
        map fs paths = map (\<lambda>w. Some (FileJson (witness_ToJSON w era))) ws \<longrightarrow>
        (\<exists>r. ran r \<and> os_run os bin ([tb_era b, ''transaction'', ''assemble'', ''--tx-body-file'', raw_path dir,
            ''--out-file'', sig_path dir] @ concat (map (\<lambda>fp. [''--witness-file'', fp]) paths)) fs =
          (r, fs(sig_path dir \<mapsto> FileJson (witnessed_ToJSON (asm raw ws) era))))))"

lemma runCommand_ran: "os_run os bin args fs = (r, fs') \<Longrightarrow> ran r \<Longrightarrow> runCommand os bin args fs = Some (Inr (cmd_stdout r), fs')"
  by (simp add: runCommand_def ran_def)

lemma ReadFile_at: "fs p = Some c \<Longrightarrow> ReadFile p fs = Some (Inr c, fs)"
  by (simp add: ReadFile_def)

lemma CreateTxWitness_runs:
  assumes w: "writes_ok os" and cli: "signing_cli os b wit asm" and k: "signing_doc cb sk = Inr k"
  shows "\<exists>fs'. CreateTxWitness os cb b raw sk fs = Some (Inr (wit raw k), fs')"
proof -
  let ?dir = "tb_baseDirectory b" and ?era = "tb_realEraName b"
  obtain key where key: "NewKeyFromBytes cb (signing_title sk) '''' sk = Inr key" "k = key_file key"
    using k by (cases "NewKeyFromBytes cb (signing_title sk) '''' sk") (auto simp: signing_doc_def)
  let ?fs = "fs(raw_path ?dir \<mapsto> FileJson (unwitnessed_ToJSON raw ?era), skey_path ?dir \<mapsto> k)"
  have "?fs (raw_path ?dir) = Some (FileJson (unwitnessed_ToJSON raw ?era)) \<and> ?fs (skey_path ?dir) = Some k" by simp
  then obtain r where "ran r" "os_run os (tb_cardanoCliBinary b) ([tb_era b, ''transaction'', ''witness'', ''--signing-key-file'', skey_path ?dir,
            ''--tx-body-file'', raw_path ?dir, ''--out-file'', wit_path ?dir] @ getTestNetMagicArgs (tb_testNetMagic b)) ?fs =
          (r, ?fs(wit_path ?dir \<mapsto> FileJson (witness_ToJSON (wit raw k) ?era)))"
    using cli unfolding signing_cli_def Let_def by blast
  note run = runCommand_ran [OF this(2,1)]
  show ?thesis
    using run w key
    by (simp add: CreateTxWitness_def Let_def io_bind_Inr ReadFile_at io_opt_def
        flip: raw_path_def skey_path_def wit_path_def signing_title_def)
qed

lemma sign_loop_runs:
  assumes "writes_ok os" "signing_cli os b wit asm" "map (signing_doc cb) sks = map Inr ks"
  shows "\<exists>fs'. sign_loop os cb b raw sks fs = Some (Inr (map (wit raw) ks), fs')"
  using assms(3)
proof (induction sks arbitrary: ks fs)
  case (Cons sk sks)
  then obtain k ks' where ks: "ks = k # ks'" "signing_doc cb sk = Inr k" "map (signing_doc cb) sks = map Inr ks'" by auto
  obtain fs1 where "CreateTxWitness os cb b raw sk fs = Some (Inr (wit raw k), fs1)"
    using CreateTxWitness_runs [OF assms(1,2) ks(2)] by blast
  moreover obtain fs2 where "sign_loop os cb b raw sks fs1 = Some (Inr (map (wit raw) ks'), fs2)"
    using Cons.IH [OF ks(3)] by blast
  ultimately show ?case using ks(1) by (simp add: io_bind_Inr)
qed simp

lemma witness_files_ok:
  assumes "writes_ok os"
  shows "witness_files_loop os b i ws fs = Some (Inr (map (nth_path (tb_baseDirectory b)) [i..<i + length ws]),
    put_files fs (map (\<lambda>(j, w). (nth_path (tb_baseDirectory b) j, FileJson (witness_ToJSON w (tb_realEraName b)))) (enumerate i ws)))"
proof (induction ws arbitrary: i fs)
  case (Cons w ws)
  have "[i..<i + length (w # ws)] = i # [Suc i..<Suc i + length ws]" by (simp add: upt_conv_Cons del: upt_Suc)
  with assms Cons [of "Suc i"] show ?case by (simp add: io_bind_Inr Let_def nth_path_def fun_upd_def del: upt_Suc)
qed simp

lemma witness_files_read:
  assumes "i \<le> j" "j < i + length ws"
  shows "put_files fs (map (\<lambda>(j, w). (nth_path dir j, FileJson (witness_ToJSON w era))) (enumerate i ws)) (nth_path dir j) =
    Some (FileJson (witness_ToJSON (ws ! (j - i)) era))"
proof (rule put_files_lookup)
  have "(j, ws ! (j - i)) \<in> set (enumerate i ws)" using assms by (simp add: in_set_enumerate_eq)
  then show "(nth_path dir j, FileJson (witness_ToJSON (ws ! (j - i)) era)) \<in>
      set (map (\<lambda>(j, w). (nth_path dir j, FileJson (witness_ToJSON w era))) (enumerate i ws))" by force
qed (auto simp: in_set_enumerate_eq)

text \<open>
  C20. Under the contract of the two commands, \<open>SignTx\<close> returns the transaction assembled from the
  body and from one witness of that body for each signer, made with the document of the signer's own
  key, in the order of the signers; what earlier signatures or other calls left in the files of the
  directory is never read.
\<close>

theorem SignTx_assembles:
  assumes "writes_ok os" "signing_cli os b wit asm" "map (signing_doc cb) sks = map Inr ks"
  shows "\<exists>fs'. SignTx os cb b raw sks fs = Some (Inr (asm raw (map (wit raw) ks)), fs')"
proof -
  let ?dir = "tb_baseDirectory b" and ?era = "tb_realEraName b" and ?ws = "map (wit raw) ks"
  obtain fs1 where s: "sign_loop os cb b raw sks fs = Some (Inr ?ws, fs1)" using sign_loop_runs [OF assms] by blast
  let ?paths = "map (nth_path ?dir) [0..<length ?ws]"
  let ?fs = "(put_files fs1 (map (\<lambda>(j, w). (nth_path ?dir j, FileJson (witness_ToJSON w ?era))) (enumerate 0 ?ws)))
    (raw_path ?dir \<mapsto> FileJson (unwitnessed_ToJSON raw ?era))"
  have "?fs (raw_path ?dir) = Some (FileJson (unwitnessed_ToJSON raw ?era))" by simp
  moreover have "map ?fs ?paths = map (\<lambda>w. Some (FileJson (witness_ToJSON w ?era))) ?ws"
    by (rule nth_equalityI) (simp_all add: witness_files_read)
  ultimately obtain r where "ran r" "os_run os (tb_cardanoCliBinary b) ([tb_era b, ''transaction'', ''assemble'', ''--tx-body-file'', raw_path ?dir,
            ''--out-file'', sig_path ?dir] @ concat (map (\<lambda>fp. [''--witness-file'', fp]) ?paths)) ?fs =
          (r, ?fs(sig_path ?dir \<mapsto> FileJson (witnessed_ToJSON (asm raw ?ws) ?era)))"
    using assms(2) unfolding signing_cli_def Let_def by blast
  note run = runCommand_ran [OF this(2,1)]
  have "AssembleTxWitnesses os b raw ?ws fs1 = Some (Inr (asm raw ?ws), ?fs(sig_path ?dir \<mapsto> FileJson (witnessed_ToJSON (asm raw ?ws) ?era)))"
    using run assms(1) witness_files_ok [OF assms(1), of b 0 ?ws fs1]
    by (simp add: AssembleTxWitnesses_def Let_def io_bind_Inr ReadFile_at io_opt_def flip: raw_path_def sig_path_def)
  with s show ?thesis by (simp add: SignTx_def io_bind_Inr)
qed

text \<open>An executable that keeps the contract, for the instance.\<close>

definition demo_body :: "file_content option \<Rightarrow> bytes" where
  "demo_body c = (case c of None \<Rightarrow> [] | Some f \<Rightarrow> (case raw_from_json f of Some (Inr bs) \<Rightarrow> bs | _ \<Rightarrow> []))"

definition demo_signing :: "string \<Rightarrow> string list \<Rightarrow> files \<Rightarrow> cmd_result \<times> files" where
  "demo_signing bin args fs = (\<lparr>cmd_stdout = '''', cmd_stderr = '''', cmd_err = None\<rparr>,
     if args ! 2 = ''witness''
     then fs(wit_path ''tmp'' \<mapsto> FileJson (witness_ToJSON (demo_body (fs (raw_path ''tmp'')) @ [1]) ''Conway''))
     else fs(sig_path ''tmp'' \<mapsto> FileJson (witnessed_ToJSON (demo_body (fs (raw_path ''tmp'')) @
       concat (map (\<lambda>(_, p). demo_body (fs p)) (opt_pairs (drop 7 args)))) ''Conway'')))"

lemma demo_body_back [simp]:
  "demo_body (Some (FileJson (unwitnessed_ToJSON bs era))) = bs" "demo_body (Some (FileJson (witness_ToJSON bs era))) = bs"
  using envelope_back [of bs era]
  by (simp_all add: demo_body_def newTransactionUnwitnessedRawFromJSON_def newTransactionWitnessedRawFromJSON_def)

lemma demo_signing_cli:
  "signing_cli (demo_os\<lparr>os_run := demo_signing\<rparr>) demo_builder (\<lambda>raw k. raw @ [1]) (\<lambda>raw ws. raw @ concat ws)"
proof -
  have pairs: "opt_pairs (concat (map (\<lambda>fp. [''--witness-file'', fp]) paths)) = map (\<lambda>fp. (''--witness-file'', fp)) paths" for paths
    by (induction paths) simp_all
  have ws: "map (\<lambda>p. demo_body (fs p)) paths = ws" if "map fs paths = map (\<lambda>w. Some (FileJson (witness_ToJSON w era))) ws" for fs paths ws era
    using arg_cong [OF that, of "map demo_body"] by (simp add: comp_def)
  show ?thesis
    by (simp add: signing_cli_def Let_def demo_builder_def demo_signing_def ran_def pairs comp_def) (simp add: ws cong: conj_cong)
qed

theorem SignTx_assembles_witness:
  "\<exists>fs'. SignTx (demo_os\<lparr>os_run := demo_signing\<rparr>) demo_cbor demo_builder [5] [replicate 32 7, replicate 32 8] Map.empty =
     Some (Inr [5, 5, 1, 5, 1], fs')"
proof -
  have "\<exists>k. signing_doc demo_cbor sk = Inr k" for sk
    by (simp add: signing_doc_def NewKeyFromBytes_def demo_cbor_def)
  then obtain k l where "signing_doc demo_cbor (replicate 32 7) = Inr k" "signing_doc demo_cbor (replicate 32 8) = Inr l"
    by blast
  then have "map (signing_doc demo_cbor) [replicate 32 7, replicate 32 8] = map Inr [k, l]" by simp
  from SignTx_assembles [OF _ demo_signing_cli this, of "[5]" Map.empty] show ?thesis
    by (simp add: writes_ok_def demo_os_def)
qed

end
