(* ===== verification/Tx_Sender_Props.thy ===== *)
theory Tx_Sender_Props
  imports Tx_Sender Utxo_Selection_Props Tx_Signing
begin

text \<open>
  Transactions the sender creates conserve value exactly, and the metadata of a bridging transaction
  accounts for what is paid. Amounts are compared as numbers, under the assumption that what is on
  offer and what is asked for fits into 64 bits.
\<close>

section \<open>Totals of the receivers\<close>

lemma token_sum_append [simp]: "token_sum (xs @ ys) t = token_sum xs t + token_sum ys t"
  by (induction xs) simp_all

lemma token_total_append [simp]: "token_total (xs @ ys) t = token_total xs t + token_total ys t"
  by (induction xs) simp_all

lemma token_sum_update:
  "i < length xs \<Longrightarrow> TokenName x = TokenName (xs ! i) \<Longrightarrow>
   token_sum (xs[i := x]) t = token_sum xs t + (if TokenName x = t then ta_Amount x - ta_Amount (xs ! i) else 0)"
  by (induction xs arbitrary: i) (auto simp: nth_Cons split: nat.splits)

definition native_inv :: "TokenAmount list \<Rightarrow> TokenAmount list \<times> (string \<Rightarrow> nat option) \<Rightarrow> bool" where
  "native_inv seen s \<longleftrightarrow> (\<forall>t. token_sum (fst s) t = token_sum seen t) \<and>
     (\<forall>t i. snd s t = Some i \<longleftrightarrow> i < length (fst s) \<and> TokenName (fst s ! i) = t)"

lemma native_inv_start: "native_inv [] ([], Map.empty)"
  by (simp add: native_inv_def)

lemma TokenName_amount [simp]: "TokenName (x\<lparr>ta_Amount := v\<rparr>) = TokenName x"
  by (simp add: TokenName_def)

lemma TokenName_token [simp]: "TokenName \<lparr>ta_Token = ta_Token x, ta_Amount = v\<rparr> = TokenName x"
  by (simp add: TokenName_def)

lemma native_inv_add:
  assumes "native_inv seen s"
  shows "native_inv (seen @ [token]) (add_native s token)"
proof -
  obtain outs idx where s: "s = (outs, idx)" by (cases s)
  have I: "token_sum outs t = token_sum seen t" "idx t = Some i \<longleftrightarrow> i < length outs \<and> TokenName (outs ! i) = t" for t i
    using assms by (simp_all add: s native_inv_def)
  show ?thesis
  proof (cases "idx (TokenName token)")
    case (Some i)
    then have i: "i < length outs" "TokenName (outs ! i) = TokenName token" using I(2) by auto
    let ?x = "(outs ! i)\<lparr>ta_Amount := ta_Amount (outs ! i) + ta_Amount token\<rparr>"
    have "token_sum (outs[i := ?x]) t = token_sum (seen @ [token]) t" for t
      using token_sum_update [OF i(1), of ?x t] i(2) I(1) by simp
    moreover have "TokenName (outs[i := ?x] ! j) = TokenName (outs ! j)" if "j < length outs" for j
      using that by (cases "i = j") simp_all
    moreover have "add_native s token = (outs[i := ?x], idx)" using Some by (simp add: s add_native_def Let_def)
    ultimately show ?thesis using I(2) by (auto simp: native_inv_def)
  next
    case None
    then have new: "TokenName (outs ! j) \<noteq> TokenName token" if "j < length outs" for j using I(2) [of "TokenName token" j] that by auto
    let ?y = "\<lparr>ta_Token = ta_Token token, ta_Amount = 0\<rparr>"
    have y: "TokenName ?y = TokenName token" by (simp add: TokenName_def)
    have r: "add_native s token = (outs @ [?y\<lparr>ta_Amount := ta_Amount token\<rparr>], idx(TokenName token \<mapsto> length outs))"
      using None by (simp add: s add_native_def Let_def)
    have "token_sum (outs @ [?y\<lparr>ta_Amount := ta_Amount token\<rparr>]) t = token_sum (seen @ [token]) t" for t
      using I(1) y by simp
    moreover have "(idx(TokenName token \<mapsto> length outs)) t = Some i \<longleftrightarrow>
        i < length (outs @ [?y\<lparr>ta_Amount := ta_Amount token\<rparr>]) \<and> TokenName ((outs @ [?y\<lparr>ta_Amount := ta_Amount token\<rparr>]) ! i) = t" for t i
      using I(2) [of t i] y new by (auto simp: nth_append less_Suc_eq)
    ultimately show ?thesis by (simp add: r native_inv_def)
  qed
qed

lemma native_inv_foldl: "native_inv seen s \<Longrightarrow> native_inv (seen @ tokens) (foldl add_native s tokens)"
proof (induction tokens arbitrary: seen s)
  case (Cons token tokens)
  from Cons.IH [OF native_inv_add [OF Cons.prems, of token]] show ?case by simp
qed simp

definition rcv_tokens :: "TxReceiversDto list \<Rightarrow> TokenAmount list" where
  "rcv_tokens receivers = concat (map rd_NativeTokens receivers)"

definition rcv_lovelace :: "TxReceiversDto list \<Rightarrow> nat" where
  "rcv_lovelace receivers = (\<Sum>rcv \<leftarrow> receivers. unat (rd_Amount rcv))"

lemma collect_outputs_tokens:
  "native_inv (rcv_tokens receivers) (foldl (\<lambda>s rcv. foldl add_native s (rd_NativeTokens rcv)) ([], Map.empty) receivers)"
proof -
  have "native_inv seen s \<Longrightarrow>
      native_inv (seen @ rcv_tokens receivers) (foldl (\<lambda>s rcv. foldl add_native s (rd_NativeTokens rcv)) s receivers)" for seen s
  proof (induction receivers arbitrary: seen s)
    case (Cons rcv rcvs)
    from Cons.IH [OF native_inv_foldl [OF Cons.prems, of "rd_NativeTokens rcv"]] show ?case by (simp add: rcv_tokens_def)
  qed (simp add: rcv_tokens_def)
  from this [OF native_inv_start] show ?thesis by simp
qed

lemma native_inv_distinct:
  assumes "native_inv seen (outs, idx)"
  shows "distinct (map TokenName outs)"
proof -
  have "i = j" if "i < length outs" "j < length outs" "TokenName (outs ! i) = TokenName (outs ! j)" for i j
    using assms that unfolding native_inv_def fst_conv snd_conv by (metis option.inject)
  then show ?thesis by (auto simp: distinct_conv_nth)
qed

lemma collect_outputs_lovelace: "fst (snd (collect_outputs receivers)) = word_of_nat (rcv_lovelace receivers)"
proof -
  have "foldl (\<lambda>l rcv. l + rd_Amount rcv) a receivers = a + word_of_nat (rcv_lovelace receivers)" for a
    by (induction receivers arbitrary: a) (simp_all add: rcv_lovelace_def algebra_simps)
  then show ?thesis by (simp add: collect_outputs_def)
qed

section \<open>Sums through the selection\<close>

definition sums_ok :: "sums \<Rightarrow> bool" where
  "sums_ok m \<longleftrightarrow> finite (dom m) \<and> (\<forall>k \<in> dom m. k \<noteq> AdaTokenName \<longrightarrow> canonical k)"

lemma canonical_TokenName [simp]: "canonical (TokenName tok)"
  by (auto simp: canonical_def)

lemma sums_ok_simps [simp]:
  "sums_ok Map.empty" "sums_ok m \<Longrightarrow> sums_ok (add_utxo m u)" "sums_ok m \<Longrightarrow> sums_ok (sub_utxo m u)"
  by (auto simp: sums_ok_def)

lemma sums_ok_foldl: "sums_ok m \<Longrightarrow> sums_ok (foldl add_utxo m us)"
  by (induction us arbitrary: m) simp_all

lemma prepareTxInputs_sums: "sums_ok cs \<Longrightarrow> sums_ok (in_Sum (prepareTxInputs us cs a b c))"
  by (simp add: prepareTxInputs_def Let_def sums_ok_foldl)

lemma amounts_loop_sums:
  "amounts_loop rng conditions maxInputs tryAtLeast is utxos cs cst cc = Some (us, Inl ti) \<Longrightarrow> sums_ok cs \<Longrightarrow> sums_ok (in_Sum ti)"
proof (induction "is" arbitrary: utxos cs cst cc)
  case (Cons i "is")
  let ?us = "swap utxos cc i" and ?cs = "add_utxo cs (utxos ! i)" and ?cst = "add_utxo cst (utxos ! i)"
  have ok: "sums_ok ?cs" using Cons.prems(2) by simp
  consider (sat) "doesSumSatisfyCondition (rng (2 * i) conditions) ?cs conditions"
    | (trim) "\<not> doesSumSatisfyCondition (rng (2 * i) conditions) ?cs conditions" "int (cc + 1) = maxInputs"
    | (keep) "\<not> doesSumSatisfyCondition (rng (2 * i) conditions) ?cs conditions" "int (cc + 1) \<noteq> maxInputs"
    by blast
  then show ?case
  proof cases
    case sat
    then have "ti = prepareTxInputs ?us ?cs maxInputs tryAtLeast (cc + 1)" using Cons.prems(1) by (auto simp: Let_def)
    then show ?thesis using prepareTxInputs_sums [OF ok] by simp
  next
    case trim
    then obtain m k where "amounts_loop rng conditions maxInputs tryAtLeast is (swap ?us k cc) (sub_utxo ?cs m) ?cst cc = Some (us, Inl ti)"
      using Cons.prems(1) by (auto simp: Let_def bind_eq_Some_conv)
    then show ?thesis using Cons.IH ok by simp
  next
    case keep
    then have "amounts_loop rng conditions maxInputs tryAtLeast is ?us ?cs ?cst (cc + 1) = Some (us, Inl ti)"
      using Cons.prems(1) by (simp add: Let_def)
    then show ?thesis using Cons.IH ok by blast
  qed
qed simp

lemma GetUTXOsForAmounts_sums:
  "GetUTXOsForAmounts rng utxos conditions maxInputs tryAtLeast = Some (us, Inr ti) \<Longrightarrow> sums_ok (in_Sum ti)"
proof -
  assume "GetUTXOsForAmounts rng utxos conditions maxInputs tryAtLeast = Some (us, Inr ti)"
  then obtain r where r: "amounts_loop rng conditions maxInputs tryAtLeast [0..<length utxos] utxos Map.empty Map.empty 0 = Some (us, r)"
    "(case r of Inl inputs \<Rightarrow> Inr inputs
      | Inr (a, b) \<Rightarrow> if doesSumSatisfyCondition (rng (2 * length utxos) conditions) b conditions then Inl ErrUTXOsLimitReached
          else Inl ErrUTXOsCouldNotSelect) = Inr ti"
    by (cases "amounts_loop rng conditions maxInputs tryAtLeast [0..<length utxos] utxos Map.empty Map.empty 0")
      (auto simp: GetUTXOsForAmounts_def Let_def split: sum.splits prod.splits if_splits)
  then have "r = Inl ti" by (auto split: sum.splits prod.splits if_splits)
  then show ?thesis using r(1) amounts_loop_sums by simp
qed

definition remain_step :: "sums \<Rightarrow> TokenAmount \<Rightarrow> sums" where
  "remain_step sm token = (let tokenName = TokenName token; sm = sum_sub sm tokenName (ta_Amount token) in
     if sum_get sm tokenName = 0 then sm(tokenName := None) else sm)"

lemma remain_step_get: "sum_get (remain_step sm token) t = sum_get sm t - (if TokenName token = t then ta_Amount token else 0)"
proof -
  have "sum_get (m(k := None)) t = sum_get m t" if "sum_get m k = 0" for m k
    using that by (simp add: sum_get_def)
  then show ?thesis by (auto simp: remain_step_def Let_def)
qed

lemma remain_step_ok: "sums_ok sm \<Longrightarrow> sums_ok (remain_step sm token)"
  by (auto simp: remain_step_def Let_def sums_ok_def sum_sub_def)

lemma remain_step_ada: "AdaTokenName \<in> dom sm \<Longrightarrow> AdaTokenName \<in> dom (remain_step sm token)"
  using TokenName_not_ada [of token] by (auto simp: remain_step_def Let_def sum_sub_def)

lemma remaining_sum_ok:
  "sums_ok sm \<Longrightarrow> sums_ok (remaining_sum sm tokens)"
  "sum_get (remaining_sum sm tokens) t = sum_get sm t - token_sum tokens t"
proof -
  have r: "remaining_sum sm tokens = foldl remain_step sm tokens" for sm
    by (simp add: remaining_sum_def remain_step_def [abs_def])
  show "sums_ok sm \<Longrightarrow> sums_ok (remaining_sum sm tokens)"
    unfolding r by (induction tokens arbitrary: sm) (simp_all add: remain_step_ok)
  show "sum_get (remaining_sum sm tokens) t = sum_get sm t - token_sum tokens t"
    unfolding r by (induction tokens arbitrary: sm) (simp_all add: remain_step_get)
qed

lemma token_total_mset: "mset xs = mset ys \<Longrightarrow> token_total xs t = token_total ys t"
proof -
  have "token_total zs t = (\<Sum>tok \<in># mset zs. if TokenName tok = t then unat (ta_Amount tok) else 0)" for zs
    by (simp add: token_total_def flip: sum_mset_sum_list)
  then show "mset xs = mset ys \<Longrightarrow> token_total xs t = token_total ys t" by simp
qed

lemma NewToken_fallback: "NewTokenWithFullName (TokenName nm) True = Inl e \<Longrightarrow> \<not> is_ok (NewTokenWithFullName (TokenName nm) False)"
proof (cases "CHR ''.'' \<in> set (tk_PolicyID (ta_Token nm))")
  case True
  then have "count_list (tk_PolicyID (ta_Token nm)) (CHR ''.'') > 0" by (metis count_list_0_iff neq0_conv)
  then show ?thesis by (simp add: NewTokenWithFullName_def TokenName_def split_on_length)
next
  case False
  then show "NewTokenWithFullName (TokenName nm) True = Inl e \<Longrightarrow> ?thesis" using NewToken_TokenName [of nm] by simp
qed

lemma tokens_loop_sum:
  assumes "tokens_loop sm [] ks = Inr toks" "distinct ks" "\<forall>k \<in> set ks. k \<noteq> AdaTokenName \<longrightarrow> canonical k"
  shows "token_total toks t = (if t \<in> set ks \<and> t \<noteq> AdaTokenName then unat (sum_get sm t) else 0)"
  using assms
proof (induction ks arbitrary: toks)
  case (Cons k ks)
  show ?case
  proof (cases "k = AdaTokenName")
    case False
    then obtain nm where k: "k = TokenName nm" using Cons.prems(3) by (auto simp: canonical_def)
    obtain tok ts where t: "(case NewTokenWithFullName k True of Inr token \<Rightarrow> Inr token | Inl _ \<Rightarrow> NewTokenWithFullName k False) = Inr tok"
      "tokens_loop sm [] ks = Inr ts" "toks = NewTokenAmount tok (sum_get sm k) # ts"
      using Cons.prems(1) False by (auto simp: rbind_eq_Inr)
    have "NewTokenWithFullName k True = Inr tok" using t(1) NewToken_fallback [of nm] by (auto simp: k split: sum.splits)
    then have "TokenName (NewTokenAmount tok (sum_get sm k)) = k" "ta_Amount (NewTokenAmount tok (sum_get sm k)) = sum_get sm k"
      using NewToken_canonical Cons.prems(3) False by (simp_all add: NewTokenAmount_def)
    with Cons t False show ?thesis by auto
  qed (use Cons in auto)
qed simp

lemma GetTokensFromSumMap_total:
  assumes "range_ok rng" "sums_ok sm" "GetTokensFromSumMap rng sm [] = Some (Inr toks)" "t \<noteq> AdaTokenName"
  shows "token_total toks t = unat (sum_get sm t)"
proof -
  have ks: "distinct (rng 0 sm)" "set (rng 0 sm) = dom sm" using assms(1,2) by (simp_all add: range_ok_def sums_ok_def)
  obtain ts where ts: "tokens_loop sm [] (rng 0 sm) = Inr ts" "toks = sort_slice (\<lambda>a b. TokenName a < TokenName b) ts"
    using assms(3) by (auto simp: GetTokensFromSumMap_def rbind_eq_Inr split: if_splits)
  have "token_total toks t = token_total ts t" by (rule token_total_mset) (simp add: ts(2))
  also have "\<dots> = (if t \<in> dom sm then unat (sum_get sm t) else 0)"
    using tokens_loop_sum [OF ts(1) ks(1), of t] assms(2,4) ks(2) by (simp add: sums_ok_def)
  finally show ?thesis by (simp add: sum_get_def domIff)
qed

lemma out_conditions_get:
  "sum_get (out_conditions l p m toks) t = (if t = AdaTokenName then l + p + m else 0) + token_sum toks t"
  "finite (dom (out_conditions l p m toks))"
proof -
  have "out_conditions l p m toks = add_tokens [AdaTokenName \<mapsto> l + p + m] toks"
    by (simp add: out_conditions_def add_tokens_def)
  then show "sum_get (out_conditions l p m toks) t = (if t = AdaTokenName then l + p + m else 0) + token_sum toks t"
    "finite (dom (out_conditions l p m toks))" by simp_all
qed

lemma token_sum_ada [simp]: "token_sum toks AdaTokenName = 0"
  using TokenName_not_ada by (induction toks) auto

lemma io_bind_ok:
  "io_bind c k fs = Some (Inr y, fs') \<longleftrightarrow> (\<exists>x fs1. c fs = Some (Inr x, fs1) \<and> k x fs1 = Some (Inr y, fs'))"
  by (auto simp: io_bind_def split: option.splits sum.splits prod.splits)

lemma io_opt_ok: "io_opt r fs = Some (x, fs') \<longleftrightarrow> r = Some x \<and> fs' = fs"
  by (auto simp: io_opt_def io_panic_def io_lift_def split: option.splits)

lemma io_wrap_ok: "io_wrap pre c fs = Some (Inr y, fs') \<longleftrightarrow> c fs = Some (Inr y, fs')"
proof (cases "c fs")
  case (Some rf)
  then show ?thesis by (cases rf; cases "fst rf") (auto simp: io_wrap_def)
qed (simp add: io_wrap_def)

section \<open>What populating does\<close>

definition offered :: "tx_env \<Rightarrow> TxSender \<Rightarrow> ChainConfig \<Rightarrow> GenericTxDto \<Rightarrow> Utxo list result" where
  "offered env txSnd config txDto =
     rbind (answer_result (ExecuteWithRetry [] (te_ctx env 2) (tp_GetUtxos (cc_TxProvider config) (gd_SenderAddr txDto))
       (ts_retryOptions txSnd)))
     (\<lambda>utxos. Inr (case ts_utxosTransformer txSnd of None \<Rightarrow> utxos | Some f \<Rightarrow> f utxos))"

text \<open>What the receivers, the fee reserve and the smallest change ask for fits into 64 bits.\<close>

definition asked_fits :: "ChainConfig \<Rightarrow> TxReceiversDto list \<Rightarrow> u64 \<Rightarrow> bool" where
  "asked_fits config receivers minChange \<longleftrightarrow>
     rcv_lovelace receivers + unat (setOrDefault (cc_PotentialFee config) defaultPotentialFee) + unat minChange < 2 ^ 64 \<and>
     (\<forall>t. token_total (rcv_tokens receivers) t < 2 ^ 64)"

definition sender_inputs :: "GenericTxDto \<Rightarrow> Utxo list \<Rightarrow> txInputWithPolicyScript list" where
  "sender_inputs txDto chosen = map (\<lambda>i. \<lparr>ip_txInput = i,
     ip_policyScript = map_option script_iface (gd_SenderAddrPolicyScript txDto)\<rparr>) (utxos2TxInputs chosen)"

lemma unat_of_nat_fits: "n < 2 ^ 64 \<Longrightarrow> unat (word_of_nat n :: u64) = n"
  by (simp add: unat_of_nat)

lemma selection_covers:
  fixes S :: sums
  assumes S: "\<forall>t. unat (sum_get S t) = utxos_total chosen t"
    and C: "\<forall>t. unat (sum_get (out_conditions l p m outs) t) \<le> utxos_total chosen t"
    and outs: "\<forall>t. token_sum outs t = word_of_nat (token_total toks t)" "\<forall>t. token_total toks t < 2 ^ 64"
    and l: "l = word_of_nat L" "L + unat p + unat m < 2 ^ 64"
  shows "unat (sum_get (remaining_sum S outs) AdaTokenName - l) + L = utxos_total chosen AdaTokenName"
    and "t \<noteq> AdaTokenName \<Longrightarrow> unat (sum_get (remaining_sum S outs) t) + token_total toks t = utxos_total chosen t"
    and "L + unat p + unat m \<le> utxos_total chosen AdaTokenName"
proof -
  have L: "unat l = L" using l by (simp add: unat_of_nat_fits)
  have "unat (l + p + m) = L + unat p + unat m"
    using l(2) by (simp add: L unat_word_ariths)
  moreover have "unat (l + p + m) \<le> utxos_total chosen AdaTokenName"
    using spec [OF C, of AdaTokenName] by (simp add: out_conditions_get)
  ultimately show le: "L + unat p + unat m \<le> utxos_total chosen AdaTokenName" by simp
  then have "l \<le> sum_get S AdaTokenName" using S L by (simp add: word_le_nat_alt)
  then show "unat (sum_get (remaining_sum S outs) AdaTokenName - l) + L = utxos_total chosen AdaTokenName"
    using S L le by (simp add: remaining_sum_ok(2) unat_sub)
  show "unat (sum_get (remaining_sum S outs) t) + token_total toks t = utxos_total chosen t" if "t \<noteq> AdaTokenName"
  proof -
    have T: "unat (token_sum outs t) = token_total toks t" using outs by (simp add: unat_of_nat_fits)
    have "unat (token_sum outs t) \<le> utxos_total chosen t" using spec [OF C, of t] that by (simp add: out_conditions_get)
    then have "token_sum outs t \<le> sum_get S t" using S by (simp add: word_le_nat_alt)
    then show ?thesis using S T \<open>unat (token_sum outs t) \<le> utxos_total chosen t\<close> by (simp add: remaining_sum_ok(2) unat_sub)
  qed
qed

definition rcv_outputs :: "TxReceiversDto list \<Rightarrow> TxOutput list" where
  "rcv_outputs receivers = map (\<lambda>rcv. \<lparr>to_Addr = rd_Addr rcv, to_Amount = rd_Amount rcv, to_Tokens = rd_NativeTokens rcv\<rparr>) receivers"

lemma populateTxBuilder_ok:
  assumes rng: "\<forall>k. range_ok (te_rng env k)" and config: "ts_chainConfigMap txSnd (gd_SrcChainID txDto) = Some config"
    and off: "offered env txSnd config txDto = Inr utxos" and fits: "fits utxos"
    and run: "populateTxBuilder env txSnd b0 txDto fs = Some (Inr (b, data), fs')"
    and asked: "asked_fits config (gd_Receivers txDto) (pp_ChangeMinUtxoAmount data)"
  shows "\<exists>chosen amount toks. mset chosen \<subseteq># mset utxos \<and> (0 < ts_maxInputsPerTx txSnd \<longrightarrow> int (length chosen) \<le> ts_maxInputsPerTx txSnd) \<and>
    tb_inputs b = tb_inputs b0 @ sender_inputs txDto chosen \<and>
    tb_outputs b = tb_outputs b0 @ rcv_outputs (gd_Receivers txDto) @ [\<lparr>to_Addr = gd_SenderAddr txDto, to_Amount = amount, to_Tokens = toks\<rparr>] \<and>
    unat (pp_ChangeLovelace data) + rcv_lovelace (gd_Receivers txDto) = utxos_total chosen AdaTokenName \<and>
    (\<forall>t. t \<noteq> AdaTokenName \<longrightarrow> token_total toks t + token_total (rcv_tokens (gd_Receivers txDto)) t = utxos_total chosen t) \<and>
    cc_MinUtxoValue config \<le> pp_ChangeMinUtxoAmount data"
proof -
  obtain raw where raw: "answer_result (ExecuteWithRetry [] (te_ctx env 2) (tp_GetUtxos (cc_TxProvider config) (gd_SenderAddr txDto))
      (ts_retryOptions txSnd)) = Inr raw" "utxos = (case ts_utxosTransformer txSnd of None \<Rightarrow> raw | Some f \<Rightarrow> f raw)"
    using off by (auto simp: offered_def rbind_eq_Inr)
  obtain outs where outs: "snd (snd (collect_outputs (gd_Receivers txDto))) = outs"
    "\<forall>t. token_sum outs t = word_of_nat (token_total (rcv_tokens (gd_Receivers txDto)) t)"
    using collect_outputs_tokens [of "gd_Receivers txDto"] by (simp add: collect_outputs_def native_inv_def of_nat_token_total)
  define l :: u64 where "l = word_of_nat (rcv_lovelace (gd_Receivers txDto))"
  have coll: "collect_outputs (gd_Receivers txDto) = (rcv_outputs (gd_Receivers txDto), l, outs)"
    using collect_outputs_lovelace [of "gd_Receivers txDto"] outs(1) by (simp add: collect_outputs_def rcv_outputs_def l_def)
  define p where "p = setOrDefault (cc_PotentialFee config) defaultPotentialFee"
  obtain cost fs1 inputs fs2 toks b1 fs3 where
    sel: "map_option snd (GetUTXOsForAmounts (te_rng env 2) utxos (out_conditions l p (max (cc_MinUtxoValue config) cost) outs)
        (ts_maxInputsPerTx txSnd) 1) = Some (Inr inputs)"
    and tk: "GetTokensFromSumMap (te_rng env 3) (remaining_sum (in_Sum inputs) outs) [] = Some (Inr toks)"
    and b1: "tb_inputs b1 = tb_inputs b0 @ map (\<lambda>i. \<lparr>ip_txInput = i,
        ip_policyScript = map_option script_iface (gd_SenderAddrPolicyScript txDto)\<rparr>) (in_Inputs inputs)"
      "tb_outputs b1 = tb_outputs b0 @ rcv_outputs (gd_Receivers txDto) @ [\<lparr>to_Addr = gd_SenderAddr txDto,
        to_Amount = sum_get (remaining_sum (in_Sum inputs) outs) AdaTokenName -
          sum_get (out_conditions l p (max (cc_MinUtxoValue config) cost) outs) AdaTokenName, to_Tokens = toks\<rparr>]"
    and ttl: "populateTimeToLive env txSnd b1 config fs2 = Some (Inr b, fs3)"
    and data: "data = \<lparr>pp_ChangeLovelace = sum_get (remaining_sum (in_Sum inputs) outs) AdaTokenName - l,
        pp_ChangeMinUtxoAmount = max (cc_MinUtxoValue config) cost,
        pp_ChosenInputs = inputs\<lparr>in_Sum := remaining_sum (in_Sum inputs) outs\<rparr>\<rparr>"
  proof -
    have "populateTxBuilder env txSnd b0 txDto fs = Some (Inr (b, data), fs')" by (rule run)
    then show thesis
      by (simp add: populateTxBuilder_def config retry_call_def raw(1) coll Let_def p_def [symmetric] flip: raw(2))
        (clarsimp simp: io_bind_ok io_wrap_ok io_opt_ok, rule that,
          auto simp: AddOutputs_def AddInputs_def AddInputsWithScript_def SetTestNetMagic_def SetMetaData_def split: option.splits)
  qed
  obtain us n where n: "mset us = mset utxos" "n \<le> length us" "in_Inputs inputs = utxos2TxInputs (take n us)"
    "0 < ts_maxInputsPerTx txSnd \<longrightarrow> int n \<le> ts_maxInputsPerTx txSnd"
    "\<forall>t. unat (sum_get (in_Sum inputs) t) = utxos_total (take n us) t"
    "\<forall>t. unat (sum_get (out_conditions l p (max (cc_MinUtxoValue config) cost) outs) t) \<le> utxos_total (take n us) t"
    using GetUTXOsForAmounts_ok [OF _ out_conditions_get(2) fits, of "te_rng env 2" l p "max (cc_MinUtxoValue config) cost" outs
        "ts_maxInputsPerTx txSnd" 1] rng sel by auto
  let ?chosen = "take n us"
  obtain us' where "GetUTXOsForAmounts (te_rng env 2) utxos (out_conditions l p (max (cc_MinUtxoValue config) cost) outs)
      (ts_maxInputsPerTx txSnd) 1 = Some (us', Inr inputs)" using sel by auto
  then have sums: "sums_ok (remaining_sum (in_Sum inputs) outs)" by (rule remaining_sum_ok(1) [OF GetUTXOsForAmounts_sums])
  have fit: "\<forall>t. token_total (rcv_tokens (gd_Receivers txDto)) t < 2 ^ 64"
    "rcv_lovelace (gd_Receivers txDto) + unat p + unat (max (cc_MinUtxoValue config) cost) < 2 ^ 64"
    using asked data by (simp_all add: asked_fits_def p_def)
  note cov = selection_covers [OF n(5,6) outs(2) fit(1) l_def fit(2)]
  have "token_total toks t = unat (sum_get (remaining_sum (in_Sum inputs) outs) t)" if "t \<noteq> AdaTokenName" for t
    using GetTokensFromSumMap_total [OF _ sums tk that] rng by simp
  with cov(2) have "\<forall>t. t \<noteq> AdaTokenName \<longrightarrow> token_total toks t + token_total (rcv_tokens (gd_Receivers txDto)) t = utxos_total ?chosen t"
    by simp
  moreover have "mset ?chosen \<subseteq># mset utxos" using mset_take_sub [of n us] n(1) by simp
  moreover have "tb_inputs b = tb_inputs b1" "tb_outputs b = tb_outputs b1"
    using ttl by (auto simp: populateTimeToLive_def io_bind_ok SetTimeToLive_def Let_def)
  ultimately show ?thesis
    using cov(1) n(2,3,4) b1 data unfolding sender_inputs_def
    by (intro exI [of _ ?chosen] exI conjI) (auto simp: max_def)
qed

section \<open>The created transaction\<close>

definition output_total :: "TxOutput \<Rightarrow> string \<Rightarrow> nat" where
  "output_total out t = (if t = AdaTokenName then unat (to_Amount out) else 0) + token_total (to_Tokens out) t"

definition outputs_total :: "TxOutput list \<Rightarrow> string \<Rightarrow> nat" where
  "outputs_total outs t = (\<Sum>out \<leftarrow> outs. output_total out t)"

lemma outputs_total_simps [simp]:
  "outputs_total [] t = 0" "outputs_total (out # outs) t = output_total out t + outputs_total outs t"
  "outputs_total (outs @ outs') t = outputs_total outs t + outputs_total outs' t"
  by (simp_all add: outputs_total_def)

lemma token_total_ada [simp]: "token_total toks AdaTokenName = 0"
  using TokenName_not_ada by (induction toks) auto

lemma rcv_outputs_total:
  "outputs_total (rcv_outputs receivers) t = (if t = AdaTokenName then rcv_lovelace receivers else token_total (rcv_tokens receivers) t)"
  by (induction receivers) (auto simp: rcv_outputs_def rcv_lovelace_def rcv_tokens_def output_total_def)

lemma word_sub_exact: "a - f \<le> a \<Longrightarrow> unat (a - f) + unat f = unat a" for a f :: u64
  unfolding word_sub_le_iff by (simp add: unat_sub word_le_nat_alt)

lemma last_output_operations:
  assumes "tb_outputs b = outs @ [out]"
  shows "UpdateOutputAmount (- 1) amount [] b = Some (b\<lparr>tb_outputs := outs @ [out\<lparr>to_Amount := amount\<rparr>]\<rparr>)"
    "RemoveOutput (- 1) b = Some (b\<lparr>tb_outputs := outs\<rparr>)"
  using assms by (simp_all add: UpdateOutputAmount_def RemoveOutput_def out_index_def Let_def go_slice_def list_update_append nth_append)

lemma createTx_ok:
  assumes "createTx env txSnd b0 txDto fs = Some (Inr info, fs')"
  shows "\<exists>b1 data fs1 fee fs2 b change. populateTxBuilder env txSnd b0 txDto fs = Some (Inr (b1, data), fs1) \<and>
    change = pp_ChangeLovelace data - fee \<and> (change = 0 \<or> change \<le> pp_ChangeLovelace data \<and> pp_ChangeMinUtxoAmount data \<le> change) \<and>
    (if change \<noteq> 0 then UpdateOutputAmount (- 1) change [] (SetFee fee b1) else RemoveOutput (- 1) (SetFee fee b1)) = Some b \<and>
    tx_ChangeMinUtxoAmount info = pp_ChangeMinUtxoAmount data \<and>
    Build (te_os env) b fs2 = Some (Inr (tx_TxRaw info, tx_TxHash info), fs')"
  using assms by (auto simp: createTx_def io_bind_ok Let_def io_panic_def not_less split: if_splits option.splits) blast+

lemma populateTxBuilder_metadata:
  assumes "populateTxBuilder env txSnd b0 txDto fs = Some (Inr (b, data), fs')"
  shows "tb_metadata b = gd_Metadata txDto"
proof -
  have *: "tb_metadata (AddOutputs outs b) = tb_metadata b" "tb_metadata (AddInputs ins b) = tb_metadata b"
    "tb_metadata (AddInputsWithScript ps ins b) = tb_metadata b" "tb_metadata (SetTestNetMagic m b) = tb_metadata b"
    "tb_metadata (SetMetaData md b) = md" "tb_metadata (SetTimeToLive ttl b) = tb_metadata b" for outs ins ps m md ttl b
    by (simp_all add: AddOutputs_def AddInputs_def AddInputsWithScript_def SetTestNetMagic_def SetMetaData_def SetTimeToLive_def)
  show ?thesis
    using assms by (auto simp: populateTxBuilder_def populateTimeToLive_def io_bind_ok Let_def * io_panic_def
      split: option.splits prod.splits)
qed

lemma createTx_balanced:
  assumes rng: "\<forall>k. range_ok (te_rng env k)" and config: "ts_chainConfigMap txSnd (gd_SrcChainID txDto) = Some config"
    and off: "offered env txSnd config txDto = Inr utxos" and fits: "fits utxos"
    and start: "tb_inputs b0 = []" "tb_outputs b0 = []"
    and run: "createTx env txSnd b0 txDto fs = Some (Inr info, fs')"
    and asked: "asked_fits config (gd_Receivers txDto) (tx_ChangeMinUtxoAmount info)"
  shows "\<exists>b fs1 chosen changes. Build (te_os env) b fs1 = Some (Inr (tx_TxRaw info, tx_TxHash info), fs') \<and>
    mset chosen \<subseteq># mset utxos \<and> (0 < ts_maxInputsPerTx txSnd \<longrightarrow> int (length chosen) \<le> ts_maxInputsPerTx txSnd) \<and>
    tb_inputs b = sender_inputs txDto chosen \<and> tb_outputs b = rcv_outputs (gd_Receivers txDto) @ changes \<and>
    outputs_total (tb_outputs b) AdaTokenName + unat (tb_fee b) = utxos_total chosen AdaTokenName \<and>
    cc_MinUtxoValue config \<le> tx_ChangeMinUtxoAmount info \<and>
    tb_metadata b = gd_Metadata txDto \<and>
    (changes = [] \<or> (\<exists>change. changes = [change] \<and> to_Addr change = gd_SenderAddr txDto \<and> tx_ChangeMinUtxoAmount info \<le> to_Amount change \<and>
      (\<forall>t. t \<noteq> AdaTokenName \<longrightarrow> outputs_total (tb_outputs b) t = utxos_total chosen t)))"
proof -
  let ?rcv = "gd_Receivers txDto"
  obtain b1 data fs1 fee fs2 b change where pop: "populateTxBuilder env txSnd b0 txDto fs = Some (Inr (b1, data), fs1)"
    and change: "change = pp_ChangeLovelace data - fee" "change = 0 \<or> change \<le> pp_ChangeLovelace data \<and> pp_ChangeMinUtxoAmount data \<le> change"
    and last: "(if change \<noteq> 0 then UpdateOutputAmount (- 1) change [] (SetFee fee b1) else RemoveOutput (- 1) (SetFee fee b1)) = Some b"
    and min: "tx_ChangeMinUtxoAmount info = pp_ChangeMinUtxoAmount data"
    and build: "Build (te_os env) b fs2 = Some (Inr (tx_TxRaw info, tx_TxHash info), fs')"
    using createTx_ok [OF run] by blast
  obtain chosen amount toks where P: "mset chosen \<subseteq># mset utxos"
    "0 < ts_maxInputsPerTx txSnd \<longrightarrow> int (length chosen) \<le> ts_maxInputsPerTx txSnd"
    "tb_inputs b1 = sender_inputs txDto chosen"
    "tb_outputs b1 = rcv_outputs ?rcv @ [\<lparr>to_Addr = gd_SenderAddr txDto, to_Amount = amount, to_Tokens = toks\<rparr>]"
    "unat (pp_ChangeLovelace data) + rcv_lovelace ?rcv = utxos_total chosen AdaTokenName"
    "\<forall>t. t \<noteq> AdaTokenName \<longrightarrow> token_total toks t + token_total (rcv_tokens ?rcv) t = utxos_total chosen t"
    "cc_MinUtxoValue config \<le> pp_ChangeMinUtxoAmount data"
    using populateTxBuilder_ok [OF rng config off fits pop asked [unfolded min]] unfolding start append_Nil by blast
  have exact: "unat change + unat fee = unat (pp_ChangeLovelace data)"
    using word_sub_exact [of "pp_ChangeLovelace data" fee] change by auto
  define changes where "changes = (if change = 0 then [] else [\<lparr>to_Addr = gd_SenderAddr txDto, to_Amount = change, to_Tokens = toks\<rparr>])"
  have "tb_outputs (SetFee fee b1) = rcv_outputs ?rcv @ [\<lparr>to_Addr = gd_SenderAddr txDto, to_Amount = amount, to_Tokens = toks\<rparr>]"
    using P(4) by (simp add: SetFee_def)
  from last_output_operations [OF this] last have b: "b = SetFee fee b1\<lparr>tb_outputs := rcv_outputs ?rcv @ changes\<rparr>"
    by (simp add: changes_def split: if_splits)
  have "outputs_total (tb_outputs b) AdaTokenName + unat (tb_fee b) = utxos_total chosen AdaTokenName"
    using P(5) exact by (auto simp: b SetFee_def changes_def rcv_outputs_total output_total_def)
  moreover have "tb_inputs b = sender_inputs txDto chosen" "tb_outputs b = rcv_outputs ?rcv @ changes"
    using P(3) by (simp_all add: b SetFee_def)
  moreover have "changes = [] \<or> (\<exists>c. changes = [c] \<and> to_Addr c = gd_SenderAddr txDto \<and> tx_ChangeMinUtxoAmount info \<le> to_Amount c \<and>
      (\<forall>t. t \<noteq> AdaTokenName \<longrightarrow> outputs_total (tb_outputs b) t = utxos_total chosen t))"
    using change(2) P(6) by (auto simp: changes_def min b rcv_outputs_total output_total_def)
  moreover have "tb_metadata b = gd_Metadata txDto"
    using populateTxBuilder_metadata [OF pop] by (simp add: b SetFee_def)
  ultimately show ?thesis using build P(1,2) P(7) [folded min] by blast
qed

text \<open>
  C2. Whatever order maps are visited in, a transaction that \<open>createTx\<close> returns was built from a
  builder that spends some of the outputs on offer, at most the limit, and pays every receiver in
  order; the lovelace of its outputs and its fee together are exactly the lovelace it spends. Either
  there is a change output for the sender, of at least the smallest amount, and then every other token
  is conserved too; or the change is zero and there is no change output (and then tokens that the
  receivers do not get are lost).
\<close>

theorem createTx_balances:
  assumes rng: "\<forall>k. range_ok (te_rng env k)" and config: "ts_chainConfigMap txSnd (gd_SrcChainID txDto) = Some config"
    and off: "offered env txSnd config txDto = Inr utxos" and fits: "fits utxos"
    and start: "tb_inputs b0 = []" "tb_outputs b0 = []"
    and run: "createTx env txSnd b0 txDto fs = Some (Inr info, fs')"
    and asked: "asked_fits config (gd_Receivers txDto) (tx_ChangeMinUtxoAmount info)"
  shows "\<exists>b fs1 chosen changes. Build (te_os env) b fs1 = Some (Inr (tx_TxRaw info, tx_TxHash info), fs') \<and>
    mset chosen \<subseteq># mset utxos \<and> (0 < ts_maxInputsPerTx txSnd \<longrightarrow> int (length chosen) \<le> ts_maxInputsPerTx txSnd) \<and>
    tb_inputs b = sender_inputs txDto chosen \<and> tb_outputs b = rcv_outputs (gd_Receivers txDto) @ changes \<and>
    outputs_total (tb_outputs b) AdaTokenName + unat (tb_fee b) = utxos_total chosen AdaTokenName \<and>
    cc_MinUtxoValue config \<le> tx_ChangeMinUtxoAmount info \<and>
    (changes = [] \<or> (\<exists>change. changes = [change] \<and> to_Addr change = gd_SenderAddr txDto \<and> tx_ChangeMinUtxoAmount info \<le> to_Amount change \<and>
      (\<forall>t. t \<noteq> AdaTokenName \<longrightarrow> outputs_total (tb_outputs b) t = utxos_total chosen t)))"
  using createTx_balanced [OF assms] by blast

text \<open>An environment in which a transaction is created.\<close>

definition demo_cli :: "string \<Rightarrow> string list \<Rightarrow> files \<Rightarrow> cmd_result \<times> files" where
  "demo_cli bin args fs =
     (\<lparr>cmd_stdout = (if args = [''--help''] then ''Latest era commands (Conway)''
          else if args ! 2 = ''calculate-min-required-utxo'' then ''7'' else if args ! 2 = ''calculate-min-fee'' then ''3'' else ''ab''),
        cmd_stderr = '''', cmd_err = None\<rparr>,
      if args \<noteq> [''--help''] \<and> args ! 2 = ''build-raw''
      then fs(''tmp/tx.draft'' \<mapsto> FileJson (unwitnessed_ToJSON [9] ''Conway'')) else fs)"

definition demo_provider :: ITxProvider where
  "demo_provider = \<lparr>tp_SubmitTx = (\<lambda>_ _. None), tp_GetTip = (\<lambda>_. (zero_tip, None)),
     tp_GetProtocolParameters = (\<lambda>_. (Some [], None)),
     tp_GetUtxos = (\<lambda>_ _. ([\<lparr>ut_Hash = ''aa'', ut_Index = 0, ut_Amount = 10000, ut_Tokens = []\<rparr>], None))\<rparr>"

definition demo_config :: ChainConfig where
  "demo_config = \<lparr>cc_CardanoCliBinary = ''cardano-cli'', cc_TxProvider = demo_provider, cc_MultiSigAddr = ''multi'',
     cc_TestNetMagic = 2, cc_TTLSlotNumberInc = 0, cc_MinUtxoValue = 500, cc_MinBridgingFeeAmount = 10, cc_PotentialFee = 300,
     cc_ProtocolParameters = Some []\<rparr>"

definition demo_sender :: TxSender where
  "demo_sender = NewTxSender [''prime''] [''prime'' \<mapsto> demo_config] []"

definition demo_byron :: byron_prims where
  "demo_byron = \<lparr>uncbor_outer = (\<lambda>_. (None, Some [], 24, ChecksumIEEE [])), uncbor_byron = (\<lambda>_. Inr ([], [])),
     base58_Encode = (\<lambda>_. []), base58_Decode = (\<lambda>_. [0x82])\<rparr>"

definition demo_env :: tx_env where
  "demo_env = \<lparr>te_os = demo_os\<lparr>os_run := demo_cli\<rparr>, te_ctx = (\<lambda>_ _. None), te_rng = (\<lambda>_. demo_rng),
     te_marshal = (\<lambda>_. []), te_byron = demo_byron, te_cbor = demo_cbor\<rparr>"

definition demo_dto :: GenericTxDto where
  "demo_dto = \<lparr>gd_SrcChainID = ''prime'', gd_SenderAddr = ''sender'', gd_SenderAddrPolicyScript = None, gd_Metadata = Some [],
     gd_Receivers = [\<lparr>rd_Addr = ''multi'', rd_Amount = 2010, rd_NativeTokens = []\<rparr>]\<rparr>"

definition demo_start :: TxBuilder where
  "demo_start = \<lparr>tb_baseDirectory = ''tmp'', tb_inputs = [], tb_outputs = [], tb_mints = \<lparr>mt_tokens = [], mt_policyScripts = []\<rparr>,
     tb_certificates = [], tb_metadata = None, tb_protocolParameters = Some [], tb_timeToLive = 0, tb_testNetMagic = 0, tb_fee = 0,
     tb_withdrawalData = \<lparr>wd_stakeAddress = [], wd_rewardAmount = 0, wd_policyScript = None\<rparr>,
     tb_era = ''latest'', tb_realEraName = ''Conway'', tb_cardanoCliBinary = ''cardano-cli''\<rparr>"

lemma demo_offered: "offered demo_env demo_sender demo_config demo_dto = Inr [\<lparr>ut_Hash = ''aa'', ut_Index = 0, ut_Amount = 10000, ut_Tokens = []\<rparr>]"
  by (simp add: offered_def demo_env_def demo_sender_def NewTxSender_def demo_config_def demo_provider_def demo_dto_def
      ExecuteWithRetry_def retry_config_def defaultRetryCount_def answer_result_def nat_numeral eval_nat_numeral)

lemma demo_cli_run [simp]:
  "runCommand (te_os demo_env) bin args fs = Some (Inr (cmd_stdout (fst (demo_cli bin args fs))), snd (demo_cli bin args fs))"
  by (simp add: runCommand_def demo_env_def demo_cli_def)

lemma demo_writes [simp]: "writes_ok (te_os demo_env)"
  by (simp add: demo_env_def demo_os_def writes_ok_def)

lemma demo_texts:
  "ParseUint0 (min_utxo_text ''7'') = Inr 7" "ParseUint10 ''3'' = Inr 3" "trim_space ''ab'' = ''ab''"
proof -
  have "min_utxo_text ''7'' = ''7''"
    by (simp add: min_utxo_text_def trim_space_def trim_chars_def trim_prefix_def has_prefix_def to_lower_def lower_char_def AdaTokenName_def)
  then show "ParseUint0 (min_utxo_text ''7'') = Inr 7"
    by (simp add: ParseUint0_def digit_val_def lower_char_def)
  have "''3'' = itoa64 3" by (simp add: itoa64_def itoa.simps [of 3] dec_digit_def char_of_def bit_iff_odd)
  then show "ParseUint10 ''3'' = Inr 3" unfolding ParseUint10_def by simp
  show "trim_space ''ab'' = ''ab''" by (simp add: trim_space_def trim_chars_def)
qed

lemma demo_no_json [simp]: "unmarshal_text (te_os demo_env) s dec = Inl json_syntax_error"
  by (simp add: unmarshal_text_def demo_env_def demo_os_def)

lemma demo_min_utxo:
  "tb_protocolParameters b = Some params \<Longrightarrow> \<exists>fs'. CalculateMinUtxo (te_os demo_env) b out fs = Some (Inr 7, fs')"
  by (simp add: CalculateMinUtxo_def write_params_def Let_def io_bind_Inr demo_cli_def demo_texts)

lemma demo_build_raw:
  assumes "builder_ok b" "tb_baseDirectory b = ''tmp''"
  shows "\<exists>fs'. buildRawTx (te_os demo_env) b (params_path ''tmp'') fee fs = Some (Inr (), fs') \<and>
    fs' ''tmp/tx.draft'' = Some (FileJson (unwitnessed_ToJSON [9] ''Conway''))"
  using buildRawTx_runs [OF demo_writes assms(1), of fee fs] assms(2) by (simp add: io_bind_Inr demo_cli_def)

lemma demo_params: "path_join ''tmp'' ''protocol-parameters.json'' = params_path ''tmp''" "path_join ''tmp'' draftTxFile = ''tmp/tx.draft''"
  by (simp_all add: params_path_def path_join_def draftTxFile_def)

lemma demo_fee:
  assumes "builder_ok b" "tb_baseDirectory b = ''tmp''" "tb_protocolParameters b = Some params"
  shows "\<exists>fs'. CalculateFee (te_os demo_env) b n fs = Some (Inr 3, fs')"
proof -
  obtain fs1 where "buildRawTx (te_os demo_env) b (params_path ''tmp'') 0 (fs(params_path ''tmp'' \<mapsto> FileBytes params)) = Some (Inr (), fs1)"
    using demo_build_raw [OF assms(1,2)] by blast
  then show ?thesis
    using assms(2,3) by (simp add: CalculateFee_def write_params_def Let_def io_bind_Inr demo_params demo_cli_def demo_texts)
qed

lemma demo_built:
  assumes "builder_ok b" "tb_baseDirectory b = ''tmp''" "tb_protocolParameters b = Some params" "is_ok (CheckOutputs b)"
  shows "\<exists>fs'. Build (te_os demo_env) b fs = Some (Inr ([9], ''ab''), fs')"
proof -
  obtain fs1 where r: "buildRawTx (te_os demo_env) b (params_path ''tmp'') (tb_fee b) (fs(params_path ''tmp'' \<mapsto> FileBytes params)) = Some (Inr (), fs1)"
    and d: "fs1 ''tmp/tx.draft'' = Some (FileJson (unwitnessed_ToJSON [9] ''Conway''))"
    using demo_build_raw [OF assms(1,2)] by blast
  have "CheckOutputs b = Inr ()" using assms(4) by (cases "CheckOutputs b") auto
  with r show ?thesis
    using assms(2,3) by (simp add: Build_def write_params_def Let_def io_bind_Inr demo_params ReadFile_at [where fs = fs1, OF d] io_opt_def
        cli_getTxHash_def demo_cli_def demo_texts)
qed

lemma io_opt_Some: "io_opt (Some r) = io_lift r" and io_wrap_Inr: "io_wrap pre (io_lift (Inr x)) = io_lift (Inr x)"
  by (simp_all add: io_opt_def io_wrap_def io_lift_def)

lemma demo_retry: "retry_call demo_env demo_sender k z (\<lambda>_. (x, None)) = io_lift (Inr x)"
  by (simp add: retry_call_def ExecuteWithRetry_def retry_config_def defaultRetryCount_def demo_sender_def NewTxSender_def
      answer_result_def eval_nat_numeral)

lemma demo_selection:
  "GetUTXOsForAmounts demo_rng [\<lparr>ut_Hash = ''aa'', ut_Index = 0, ut_Amount = 10000, ut_Tokens = []\<rparr>] [AdaTokenName \<mapsto> 2810] 50 1 =
     Some ([\<lparr>ut_Hash = ''aa'', ut_Index = 0, ut_Amount = 10000, ut_Tokens = []\<rparr>],
       Inr \<lparr>in_Inputs = [\<lparr>ti_Hash = ''aa'', ti_Index = 0\<rparr>], in_Sum = [AdaTokenName \<mapsto> 10000]\<rparr>)"
  by (simp add: GetUTXOsForAmounts_def Let_def demo_rng_def swap_def prepareTxInputs_def utxos2TxInputs_def add_utxo_def
      add_tokens_def sum_add_def)

definition demo_populated :: TxBuilder where
  "demo_populated = demo_start\<lparr>tb_metadata := Some [], tb_testNetMagic := 2, tb_timeToLive := 500,
     tb_inputs := [\<lparr>ip_txInput = \<lparr>ti_Hash = ''aa'', ti_Index = 0\<rparr>, ip_policyScript = None\<rparr>],
     tb_outputs := [\<lparr>to_Addr = ''multi'', to_Amount = 2010, to_Tokens = []\<rparr>, \<lparr>to_Addr = ''sender'', to_Amount = 7190, to_Tokens = []\<rparr>]\<rparr>"

lemma demo_populate:
  "\<exists>fs' inputs. populateTxBuilder demo_env demo_sender demo_start demo_dto Map.empty =
     Some (Inr (demo_populated, \<lparr>pp_ChangeLovelace = 7990, pp_ChangeMinUtxoAmount = 500, pp_ChosenInputs = inputs\<rparr>), fs')"
proof -
  let ?u = "\<lparr>ut_Hash = ''aa'', ut_Index = 0, ut_Amount = 10000, ut_Tokens = []\<rparr>"
  have sum: "GetUtxosSum [?u] = [AdaTokenName \<mapsto> 10000]" "GetTokensSumMap [] = Map.empty"
    by (simp_all add: GetUtxosSum_def add_utxo_def add_tokens_def sum_add_def GetTokensSumMap_def)
  have sub: "SubtractSumMaps demo_rng [AdaTokenName \<mapsto> 10000] Map.empty = [AdaTokenName \<mapsto> 10000]"
    by (simp add: SubtractSumMaps_def demo_rng_def)
  obtain fs1 where "CalculateMinUtxo (te_os demo_env) demo_start \<lparr>to_Addr = ''sender'', to_Amount = 10000, to_Tokens = []\<rparr> Map.empty = Some (Inr 7, fs1)"
    using demo_min_utxo [of demo_start "[]"] by (fastforce simp: demo_start_def)
  then have min: "GetMinUtxoForSumMap (te_os demo_env) demo_rng demo_start ''sender'' [AdaTokenName \<mapsto> 10000] Map.empty = Some (Inr 7, fs1)"
    by (simp add: GetMinUtxoForSumMap_def demo_rng_def)
  have coll: "collect_outputs (gd_Receivers demo_dto) = ([\<lparr>to_Addr = ''multi'', to_Amount = 2010, to_Tokens = []\<rparr>], 2010, [])"
    by (simp add: collect_outputs_def demo_dto_def)
  have toks: "GetTokensFromSumMap demo_rng [AdaTokenName \<mapsto> 10000] [] = Some (Inr [])"
    by (simp add: GetTokensFromSumMap_def demo_rng_def sort_slice_def)
  have cond: "out_conditions 2010 300 500 [] = [AdaTokenName \<mapsto> 2810]" "remaining_sum [AdaTokenName \<mapsto> 10000] [] = [AdaTokenName \<mapsto> 10000]"
    by (simp_all add: out_conditions_def remaining_sum_def)
  have cfg: "ts_chainConfigMap demo_sender (gd_SrcChainID demo_dto) = Some demo_config" "ts_maxInputsPerTx demo_sender = 50"
    "ts_utxosTransformer demo_sender = None"
    by (simp_all add: demo_sender_def NewTxSender_def demo_dto_def defaultMaxInputsPerTx_def)
  have c: "cc_MinUtxoValue demo_config = 500" "setOrDefault (cc_PotentialFee demo_config) defaultPotentialFee = 300"
    "tp_GetUtxos (cc_TxProvider demo_config) ''sender'' = (\<lambda>_. ([?u], None))" "gd_SenderAddr demo_dto = ''sender''"
    "gd_SenderAddrPolicyScript demo_dto = None" "gd_Metadata demo_dto = Some []" "cc_TestNetMagic demo_config = 2" "max 500 7 = (500 :: u64)"
    by (simp_all add: demo_config_def setOrDefault_def demo_provider_def demo_dto_def max_def)
  have ttl: "populateTimeToLive demo_env demo_sender b demo_config = io_lift (Inr (b\<lparr>tb_timeToLive := 500\<rparr>))" for b
    by (simp add: populateTimeToLive_def demo_config_def demo_provider_def demo_retry zero_tip_def setOrDefault_def
        defaultTTLSlotNumberInc_def SetTimeToLive_def io_lift_def io_bind_def)
  have rng: "te_rng demo_env k = demo_rng" for k by (simp add: demo_env_def)
  show ?thesis
    by (simp add: populateTxBuilder_def cfg c demo_retry sum sub coll rng io_bind_Inr min demo_selection cond toks ttl Let_def
        io_opt_Some io_wrap_Inr)
      (simp add: demo_populated_def demo_start_def SetMetaData_def SetTestNetMagic_def AddInputs_def AddOutputs_def
        io_bind_def io_lift_def)
qed

lemma demo_builder_ok: "builder_ok (demo_populated\<lparr>tb_fee := f, tb_outputs := outs\<rparr>)"
  by (simp add: demo_populated_def demo_start_def builder_ok_def script_ok_def)

lemma demo_created:
  "\<exists>info fs'. createTx demo_env demo_sender demo_start demo_dto Map.empty = Some (Inr info, fs') \<and> tx_ChangeMinUtxoAmount info = 500"
proof -
  obtain fs1 inputs where pop: "populateTxBuilder demo_env demo_sender demo_start demo_dto Map.empty =
     Some (Inr (demo_populated, \<lparr>pp_ChangeLovelace = 7990, pp_ChangeMinUtxoAmount = 500, pp_ChosenInputs = inputs\<rparr>), fs1)"
    using demo_populate by blast
  have b: "builder_ok demo_populated" "tb_baseDirectory demo_populated = ''tmp''" "tb_protocolParameters demo_populated = Some []"
    using demo_builder_ok [where f = "tb_fee demo_populated" and outs = "tb_outputs demo_populated"]
    by (simp_all add: demo_populated_def demo_start_def)
  obtain fs2 where fee: "CalculateFee (te_os demo_env) demo_populated (sender_witnesses demo_dto) fs1 = Some (Inr 3, fs2)"
    using demo_fee [OF b] by blast
  let ?b = "demo_populated\<lparr>tb_fee := 3, tb_outputs := [\<lparr>to_Addr = ''multi'', to_Amount = 2010, to_Tokens = []\<rparr>,
    \<lparr>to_Addr = ''sender'', to_Amount = 7987, to_Tokens = []\<rparr>]\<rparr>"
  have "UpdateOutputAmount (- 1) 7987 [] (SetFee 3 demo_populated) = Some ?b"
    using last_output_operations(1) [of "SetFee 3 demo_populated" "[\<lparr>to_Addr = ''multi'', to_Amount = 2010, to_Tokens = []\<rparr>]"
        "\<lparr>to_Addr = ''sender'', to_Amount = 7190, to_Tokens = []\<rparr>" 7987]
    by (simp add: SetFee_def demo_populated_def)
  moreover obtain fs3 where "Build (te_os demo_env) ?b fs2 = Some (Inr ([9], ''ab''), fs3)"
  proof -
    have "\<exists>fs3. Build (te_os demo_env) ?b fs2 = Some (Inr ([9], ''ab''), fs3)"
      by (rule demo_built) (use b in \<open>simp_all add: demo_builder_ok CheckOutputs_ok\<close>)
    then show thesis using that by blast
  qed
  ultimately show ?thesis
    using pop fee by (simp add: createTx_def io_bind_Inr Let_def)
qed

lemma demo_ranges: "\<forall>k. range_ok (te_rng demo_env k)"
  by (simp add: demo_env_def demo_rng_ok)

theorem createTx_balances_witness:
  "\<exists>info fs' b fs1 chosen changes. createTx demo_env demo_sender demo_start demo_dto Map.empty = Some (Inr info, fs') \<and>
    Build (te_os demo_env) b fs1 = Some (Inr (tx_TxRaw info, tx_TxHash info), fs') \<and>
    tb_outputs b = rcv_outputs (gd_Receivers demo_dto) @ changes \<and>
    outputs_total (tb_outputs b) AdaTokenName + unat (tb_fee b) = utxos_total chosen AdaTokenName"
proof -
  obtain info fs' where run: "createTx demo_env demo_sender demo_start demo_dto Map.empty = Some (Inr info, fs')"
    and info: "tx_ChangeMinUtxoAmount info = 500" using demo_created by blast
  have "fits [\<lparr>ut_Hash = ''aa'', ut_Index = 0, ut_Amount = 10000, ut_Tokens = []\<rparr>]"
    by (auto simp: fits_def utxo_total_def)
  moreover have "asked_fits demo_config (gd_Receivers demo_dto) (tx_ChangeMinUtxoAmount info)"
    by (simp add: asked_fits_def info demo_dto_def demo_config_def setOrDefault_def rcv_lovelace_def rcv_tokens_def)
  moreover have "ts_chainConfigMap demo_sender (gd_SrcChainID demo_dto) = Some demo_config"
    by (simp add: demo_sender_def NewTxSender_def demo_dto_def)
  moreover have "tb_inputs demo_start = []" "tb_outputs demo_start = []" by (simp_all add: demo_start_def)
  ultimately show ?thesis using createTx_balances [OF demo_ranges _ demo_offered _ _ _ run] run by blast
qed

section \<open>Bridging transactions\<close>

definition stripped :: "string \<Rightarrow> string" where
  "stripped addr = trim_prefix (trim_prefix addr ''0x'') ''0X''"

text \<open>The parts of an address: joined they are the address, and none is longer than a metadata string may be.\<close>

definition parts_of :: "string list \<Rightarrow> string \<Rightarrow> bool" where
  "parts_of parts addr \<longleftrightarrow> concat parts = stripped addr \<and> (\<forall>p \<in> set parts. length p \<le> 40)"

lemma AddrToMetaDataAddr_parts: "\<exists>parts. AddrToMetaDataAddr addr = Some parts \<and> parts_of parts addr"
  using split_string_loop_spec [of 40 0 "stripped addr" "[]"]
  by (auto simp: AddrToMetaDataAddr_def SplitString_def parts_of_def stripped_def splitStringLength_def)

lemma metadata_txs_ok:
  "metadata_txs txSnd i xs = Some (Inr txs) \<Longrightarrow>
   list_all2 (\<lambda>x tx. parts_of (mx_Address tx) (br_Addr x) \<and> br_Addr x \<noteq> [] \<and> mx_Amount tx = br_Amount x \<and>
     ts_minAmountToBridge txSnd \<le> br_Amount x) xs txs"
proof (induction xs arbitrary: i txs)
  case (Cons x xs)
  obtain parts where parts: "AddrToMetaDataAddr (br_Addr x) = Some parts" "parts_of parts (br_Addr x)"
    using AddrToMetaDataAddr_parts by blast
  obtain rest where "metadata_txs txSnd (i + 1) xs = Some (Inr rest)" "txs = \<lparr>mx_Address = parts, mx_Amount = br_Amount x\<rparr> # rest"
    using Cons.prems parts(1) by (auto simp: rbind_eq_Inr split: if_splits)
  moreover have "br_Addr x \<noteq> []" "ts_minAmountToBridge txSnd \<le> br_Amount x"
    using Cons.prems by (auto simp: not_less split: if_splits)
  ultimately show ?case using Cons.IH parts(2) by simp
qed simp

lemma metadata_amounts:
  assumes "list_all2 (\<lambda>x tx. mx_Amount tx = br_Amount x) xs (bm_Transactions md)"
  shows "metadata_GetOutputAmounts md = bm_BridgingFee md + getOutputAmounts xs"
proof -
  have "foldl (\<lambda>a x. a + mx_Amount x) (c + d) txs = c + foldl (\<lambda>a x. a + br_Amount x) d xs"
    if "list_all2 (\<lambda>x tx. mx_Amount tx = br_Amount x) xs txs" for c d :: u64 and txs
    using that by (induction xs txs arbitrary: d rule: list_all2_induct) (simp_all add: add.assoc)
  from this [OF assms, of "bm_BridgingFee md" 0] show ?thesis
    by (simp add: metadata_GetOutputAmounts_def getOutputAmounts_def)
qed

definition bridging_address :: "ChainConfig \<Rightarrow> BridgingTxDto \<Rightarrow> string" where
  "bridging_address config txDto = (if bd_BridgingAddress txDto = [] then cc_MultiSigAddr config else bd_BridgingAddress txDto)"

definition bridged_dto :: "tx_env \<Rightarrow> ChainConfig \<Rightarrow> BridgingTxDto \<Rightarrow> BridgingRequestMetadata \<Rightarrow> GenericTxDto" where
  "bridged_dto env config txDto md = \<lparr>gd_SrcChainID = bd_SrcChainID txDto, gd_SenderAddr = bd_SenderAddr txDto,
     gd_SenderAddrPolicyScript = bd_SenderAddrPolicyScript txDto, gd_Metadata = Some (metadata_Marshal (te_marshal env) md),
     gd_Receivers = [\<lparr>rd_Addr = bridging_address config txDto, rd_Amount = metadata_GetOutputAmounts md, rd_NativeTokens = []\<rparr>]\<rparr>"

lemma io_defer_ok: "io_defer f c fs = Some (Inr y, fs') \<longleftrightarrow> (\<exists>fs1. c fs = Some (Inr y, fs1) \<and> fs' = f fs1)"
  by (auto simp: io_defer_def)

lemma prepareBridgingTx_ok:
  assumes "prepareBridgingTx env txSnd txDto validate fs = Some (Inr pd, fs')"
  shows "\<exists>config dst base out. getConfigs txSnd (bd_SrcChainID txDto) (bd_DstChainID txDto) = Inr (config, dst) \<and>
    base = getOutputAmounts (bd_Receivers txDto) \<and> out = max base (cc_MinUtxoValue config) \<and>
    cc_MinBridgingFeeAmount config \<le> bd_BridgingFee txDto \<and>
    pd_OutputLovelace pd = out + bd_BridgingFee txDto \<and> pd_BridgingFee pd = bd_BridgingFee txDto + (out - base) \<and>
    pd_OutputNativeTokens pd = [] \<and> pd_BridgingAddress pd = bridging_address config txDto \<and>
    tb_inputs (pd_TxBuilder pd) = [] \<and> tb_outputs (pd_TxBuilder pd) = []"
proof -
  let ?base = "getOutputAmounts (bd_Receivers txDto)"
  obtain config dst fs1 b fs2 b' fs3 where cfg: "getConfigs txSnd (bd_SrcChainID txDto) (bd_DstChainID txDto) = Inr (config, dst)"
    and fees: "checkFees config (bd_BridgingFee txDto) = Inr ()"
    and b: "NewTxBuilder (te_os env) (cc_CardanoCliBinary config) fs1 = Some (Inr b, fs2)"
    and b': "populateProtocolParameters env txSnd b config fs2 = Some (Inr b', fs3)"
    and pd: "pd = \<lparr>pd_TxBuilder = b', pd_OutputLovelace = max ?base (cc_MinUtxoValue config) + bd_BridgingFee txDto,
      pd_OutputNativeTokens = [], pd_BridgingAddress = bridging_address config txDto,
      pd_BridgingFee = (if max ?base (cc_MinUtxoValue config) > ?base
        then bd_BridgingFee txDto + (max ?base (cc_MinUtxoValue config) - ?base) else bd_BridgingFee txDto)\<rparr>"
    using assms by (auto simp: prepareBridgingTx_def io_bind_ok adjustLovelaceOutput_def Let_def bridging_address_def cong: if_cong)
  have "tb_inputs b = [] \<and> tb_outputs b = []"
    using b by (auto simp: NewTxBuilder_def NewTxBuilderForEra_def io_bind_ok split: sum.splits)
  then have "tb_inputs b' = [] \<and> tb_outputs b' = []"
    using b' by (auto simp: populateProtocolParameters_def io_bind_ok SetProtocolParameters_def)
  moreover have "cc_MinBridgingFeeAmount config \<le> bd_BridgingFee txDto"
    using fees by (simp add: checkFees_def not_less split: if_splits)
  moreover have "(if max ?base m > ?base then f + (max ?base m - ?base) else f) = f + (max ?base m - ?base)" for m f :: u64
    by (simp add: max_def)
  ultimately show ?thesis using cfg by (simp add: pd)
qed

definition bridged_total :: "BridgingTxReceiver list \<Rightarrow> nat" where
  "bridged_total receivers = (\<Sum>x \<leftarrow> receivers. unat (br_Amount x))"

text \<open>What a bridging transaction has to pay, as a number: the amounts, raised to the smallest output, and the fee.\<close>

definition bridging_cost :: "ChainConfig \<Rightarrow> BridgingTxDto \<Rightarrow> nat" where
  "bridging_cost config txDto =
     max (bridged_total (bd_Receivers txDto)) (unat (cc_MinUtxoValue config)) + unat (bd_BridgingFee txDto)"

lemma getOutputAmounts_total: "getOutputAmounts receivers = word_of_nat (bridged_total receivers)"
proof -
  have "foldl (\<lambda>amount x. amount + br_Amount x) a receivers = a + word_of_nat (bridged_total receivers)" for a
    by (induction receivers arbitrary: a) (simp_all add: bridged_total_def add.assoc)
  then show ?thesis by (simp add: getOutputAmounts_def)
qed

lemma bridging_cost_exact:
  assumes "bridging_cost config txDto < 2 ^ 64"
    and base: "base = getOutputAmounts (bd_Receivers txDto)" and out: "out = max base (cc_MinUtxoValue config)"
  shows "unat base = bridged_total (bd_Receivers txDto)" "unat (out + bd_BridgingFee txDto) = bridging_cost config txDto"
    "unat (bd_BridgingFee txDto + (out - base)) + unat base = bridging_cost config txDto"
proof -
  have small: "bridged_total (bd_Receivers txDto) < 2 ^ 64" using assms(1) by (simp add: bridging_cost_def)
  then show b: "unat base = bridged_total (bd_Receivers txDto)"
    by (simp add: base getOutputAmounts_total unat_of_nat)
  have o: "unat out = max (bridged_total (bd_Receivers txDto)) (unat (cc_MinUtxoValue config))"
    using b by (simp add: out max_def word_le_nat_alt)
  with assms(1) have room: "unat out + unat (bd_BridgingFee txDto) < 2 ^ 64" by (simp add: bridging_cost_def)
  then show s: "unat (out + bd_BridgingFee txDto) = bridging_cost config txDto"
    by (simp add: unat_word_ariths bridging_cost_def o)
  have "base \<le> out" by (simp add: out)
  then have "unat (out - base) = unat out - unat base" "unat base \<le> unat out"
    by (simp_all add: unat_sub word_le_nat_alt)
  with room show "unat (bd_BridgingFee txDto + (out - base)) + unat base = bridging_cost config txDto"
    by (simp add: unat_word_ariths bridging_cost_def o)
qed

lemma CreateBridgingTx_ok:
  assumes "CreateBridgingTx env txSnd txDto fs = Some (Inr (info, md), fs')"
  shows "\<exists>config dst b0 fs1 fs2. getConfigs txSnd (bd_SrcChainID txDto) (bd_DstChainID txDto) = Inr (config, dst) \<and>
    tb_inputs b0 = [] \<and> tb_outputs b0 = [] \<and>
    createTx env txSnd b0 (bridged_dto env config txDto md) fs1 = Some (Inr info, fs2) \<and> fs' = Dispose b0 fs2 \<and>
    metadata_GetOutputAmounts md = max (getOutputAmounts (bd_Receivers txDto)) (cc_MinUtxoValue config) + bd_BridgingFee txDto \<and>
    bm_BridgingTxType md = ''bridge'' \<and> bm_DestinationChainID md = bd_DstChainID txDto \<and> parts_of (bm_SenderAddr md) (bd_SenderAddr txDto) \<and>
    list_all2 (\<lambda>x tx. parts_of (mx_Address tx) (br_Addr x) \<and> br_Addr x \<noteq> [] \<and> mx_Amount tx = br_Amount x \<and>
      ts_minAmountToBridge txSnd \<le> br_Amount x) (bd_Receivers txDto) (bm_Transactions md) \<and>
    cc_MinBridgingFeeAmount config \<le> bd_BridgingFee txDto \<and>
    bm_BridgingFee md = bd_BridgingFee txDto +
      (max (getOutputAmounts (bd_Receivers txDto)) (cc_MinUtxoValue config) - getOutputAmounts (bd_Receivers txDto))"
proof -
  obtain pd fs1 gdto fs2 where prep: "prepareBridgingTx env txSnd txDto True fs = Some (Inr pd, fs1)"
    and gen: "createGenericTxDtoAndMetadata env txSnd txDto pd = Some (Inr (gdto, md))"
    and create: "createTx env txSnd (pd_TxBuilder pd) gdto fs1 = Some (Inr info, fs2)"
    and fs': "fs' = Dispose (pd_TxBuilder pd) fs2"
    using assms by (auto simp: CreateBridgingTx_def io_bind_ok io_defer_ok io_opt_ok)
  obtain config dst where P: "getConfigs txSnd (bd_SrcChainID txDto) (bd_DstChainID txDto) = Inr (config, dst)"
    "cc_MinBridgingFeeAmount config \<le> bd_BridgingFee txDto"
    "pd_OutputLovelace pd = max (getOutputAmounts (bd_Receivers txDto)) (cc_MinUtxoValue config) + bd_BridgingFee txDto"
    "pd_BridgingFee pd = bd_BridgingFee txDto + (max (getOutputAmounts (bd_Receivers txDto)) (cc_MinUtxoValue config) - getOutputAmounts (bd_Receivers txDto))"
    "pd_OutputNativeTokens pd = []" "pd_BridgingAddress pd = bridging_address config txDto"
    "tb_inputs (pd_TxBuilder pd) = []" "tb_outputs (pd_TxBuilder pd) = []"
    using prepareBridgingTx_ok [OF prep] by blast
  have meta: "CreateMetadata txSnd (bd_SenderAddr txDto) (bd_SrcChainID txDto) (bd_DstChainID txDto) (bd_Receivers txDto) (pd_BridgingFee pd) = Some (Inr md)"
    and gdto: "gdto = \<lparr>gd_SrcChainID = bd_SrcChainID txDto, gd_SenderAddr = bd_SenderAddr txDto,
         gd_SenderAddrPolicyScript = bd_SenderAddrPolicyScript txDto, gd_Metadata = Some (metadata_Marshal (te_marshal env) md),
         gd_Receivers = [\<lparr>rd_Addr = pd_BridgingAddress pd, rd_Amount = pd_OutputLovelace pd, rd_NativeTokens = pd_OutputNativeTokens pd\<rparr>]\<rparr>"
    using gen by (auto simp: createGenericTxDtoAndMetadata_def rbind_eq_Inr)
  obtain sender txs where md: "metadata_txs txSnd 0 (bd_Receivers txDto) = Some (Inr txs)" "AddrToMetaDataAddr (bd_SenderAddr txDto) = Some sender"
    "md = \<lparr>bm_BridgingTxType = bridgingMetaDataType, bm_DestinationChainID = bd_DstChainID txDto, bm_SenderAddr = sender,
       bm_Transactions = txs, bm_BridgingFee = pd_BridgingFee pd\<rparr>"
    using meta P(1) by (auto simp: CreateMetadata_def bind_eq_Some_conv split: option.splits sum.splits)
  note txs = metadata_txs_ok [OF md(1)]
  have "list_all2 (\<lambda>x tx. mx_Amount tx = br_Amount x) (bd_Receivers txDto) (bm_Transactions md)"
    using txs by (auto simp: md(3) elim!: list_all2_mono)
  from metadata_amounts [OF this] have out: "metadata_GetOutputAmounts md = pd_OutputLovelace pd"
    by (simp add: md(3) P(3,4))
  then have "gdto = bridged_dto env config txDto md" by (simp add: gdto bridged_dto_def P(5,6))
  moreover have "parts_of sender (bd_SenderAddr txDto)" using AddrToMetaDataAddr_parts [of "bd_SenderAddr txDto"] md(2) by simp
  ultimately show ?thesis
    using P create fs' txs out by (intro exI [of _ config] exI [of _ dst] exI [of _ "pd_TxBuilder pd"] exI [of _ fs1] exI [of _ fs2])
      (simp add: md(3) bridgingMetaDataType_def)
qed


lemma metadata_total:
  assumes "list_all2 (\<lambda>x tx. parts_of (mx_Address tx) (br_Addr x) \<and> br_Addr x \<noteq> [] \<and> mx_Amount tx = br_Amount x \<and> m \<le> br_Amount x) xs txs"
  shows "(\<Sum>tx \<leftarrow> txs. unat (mx_Amount tx)) = bridged_total xs"
  using assms by (induction xs txs rule: list_all2_induct) (simp_all add: bridged_total_def)

text \<open>
  C8. When what is on offer, what is asked for and the cost of the bridging fit into 64 bits, a bridging
  transaction that is created was built from a builder whose first output pays the bridging address, as
  numbers and without wrap-around, the amounts and the fee that its metadata lists, which is the sum of
  the receivers' amounts raised to the smallest output, and the bridging fee; all its other outputs go
  back to the sender. The transaction carries that metadata. The metadata names every receiver in order,
  in parts that join to the address and that fit a metadata string, with the amount of the receiver,
  which may be bridged, and the fee asked for covers the smallest fee. The directory of the builder is removed.
\<close>

theorem CreateBridgingTx_accounts:
  assumes rng: "\<forall>k. range_ok (te_rng env k)" and run: "CreateBridgingTx env txSnd txDto fs = Some (Inr (info, md), fs')"
    and config: "getConfigs txSnd (bd_SrcChainID txDto) (bd_DstChainID txDto) = Inr (config, dst)"
    and off: "offered env txSnd config (bridged_dto env config txDto md) = Inr utxos" and fits: "fits utxos"
    and asked: "asked_fits config (gd_Receivers (bridged_dto env config txDto md)) (tx_ChangeMinUtxoAmount info)"
    and cost: "bridging_cost config txDto < 2 ^ 64"
  shows "\<exists>b b0 fs1 fs2 paid changes. Build (te_os env) b fs1 = Some (Inr (tx_TxRaw info, tx_TxHash info), fs2) \<and> fs' = Dispose b0 fs2 \<and>
    tb_outputs b = \<lparr>to_Addr = bridging_address config txDto, to_Amount = paid, to_Tokens = []\<rparr> # changes \<and>
    (\<forall>out \<in> set changes. to_Addr out = bd_SenderAddr txDto) \<and>
    unat paid = (\<Sum>tx \<leftarrow> bm_Transactions md. unat (mx_Amount tx)) + unat (bm_BridgingFee md) \<and>
    unat paid = bridging_cost config txDto \<and>
    tb_metadata b = Some (metadata_Marshal (te_marshal env) md) \<and>
    bm_BridgingTxType md = ''bridge'' \<and> bm_DestinationChainID md = bd_DstChainID txDto \<and> parts_of (bm_SenderAddr md) (bd_SenderAddr txDto) \<and>
    list_all2 (\<lambda>x tx. parts_of (mx_Address tx) (br_Addr x) \<and> br_Addr x \<noteq> [] \<and> mx_Amount tx = br_Amount x \<and>
      ts_minAmountToBridge txSnd \<le> br_Amount x) (bd_Receivers txDto) (bm_Transactions md) \<and>
    cc_MinBridgingFeeAmount config \<le> bd_BridgingFee txDto"
proof -
  let ?base = "getOutputAmounts (bd_Receivers txDto)" and ?dto = "bridged_dto env config txDto md"
  let ?out = "max ?base (cc_MinUtxoValue config)"
  obtain b0 fs0 fs2 where P: "tb_inputs b0 = []" "tb_outputs b0 = []" "createTx env txSnd b0 ?dto fs0 = Some (Inr info, fs2)" "fs' = Dispose b0 fs2"
    "metadata_GetOutputAmounts md = ?out + bd_BridgingFee txDto"
    "bm_BridgingTxType md = ''bridge''" "bm_DestinationChainID md = bd_DstChainID txDto" "parts_of (bm_SenderAddr md) (bd_SenderAddr txDto)"
    "list_all2 (\<lambda>x tx. parts_of (mx_Address tx) (br_Addr x) \<and> br_Addr x \<noteq> [] \<and> mx_Amount tx = br_Amount x \<and>
      ts_minAmountToBridge txSnd \<le> br_Amount x) (bd_Receivers txDto) (bm_Transactions md)"
    "cc_MinBridgingFeeAmount config \<le> bd_BridgingFee txDto" "bm_BridgingFee md = bd_BridgingFee txDto + (?out - ?base)"
    using CreateBridgingTx_ok [OF run] config by auto
  have src: "ts_chainConfigMap txSnd (gd_SrcChainID ?dto) = Some config"
    using config by (auto simp: getConfigs_def bridged_dto_def split: option.splits)
  obtain b fs1 changes where B: "Build (te_os env) b fs1 = Some (Inr (tx_TxRaw info, tx_TxHash info), fs2)"
    "tb_outputs b = rcv_outputs (gd_Receivers ?dto) @ changes" "tb_metadata b = gd_Metadata ?dto"
    "changes = [] \<or> (\<exists>change. changes = [change] \<and> to_Addr change = gd_SenderAddr ?dto)"
    using createTx_balanced [OF rng src off fits P(1,2,3) asked] by blast
  note exact = bridging_cost_exact [OF cost refl refl]
  have "tb_outputs b = \<lparr>to_Addr = bridging_address config txDto, to_Amount = metadata_GetOutputAmounts md, to_Tokens = []\<rparr> # changes"
    "\<forall>out \<in> set changes. to_Addr out = bd_SenderAddr txDto" "tb_metadata b = Some (metadata_Marshal (te_marshal env) md)"
    using B(2,3,4) by (auto simp: bridged_dto_def rcv_outputs_def)
  moreover have "unat (metadata_GetOutputAmounts md) = bridging_cost config txDto" using exact(2) by (simp only: P(5))
  moreover have "bridging_cost config txDto = (\<Sum>tx \<leftarrow> bm_Transactions md. unat (mx_Amount tx)) + unat (bm_BridgingFee md)"
    using exact(3) unfolding metadata_total [OF P(9)] P(11) exact(1) by simp
  ultimately show ?thesis using B(1) P(4,6-10) by (intro exI [of _ b] exI [of _ b0] exI [of _ fs1] exI [of _ fs2] exI [of _ "metadata_GetOutputAmounts md"] exI [of _ changes]) simp
qed

definition demo_bridging :: BridgingTxDto where
  "demo_bridging = \<lparr>bd_SrcChainID = ''prime'', bd_DstChainID = ''prime'', bd_SenderAddr = ''sender'', bd_SenderAddrPolicyScript = None,
     bd_Receivers = [\<lparr>br_Addr = ''rcv'', br_Amount = 2000\<rparr>], bd_BridgingAddress = [], bd_BridgingFee = 10\<rparr>"

lemma demo_builder_new: "NewTxBuilder (te_os demo_env) ''cardano-cli'' fs = Some (Inr (demo_start\<lparr>tb_protocolParameters := None\<rparr>), fs)"
proof -
  have "os_MkdirTemp (te_os demo_env) ''cardano-txs'' fs = Inr ''tmp''" by (simp add: demo_env_def demo_os_def)
  moreover have "cli_GetRealEraName (te_os demo_env) (NewCliUtilsForEra ''cardano-cli'' DefaultEra) fs = Some (Inr ''Conway'', fs)"
    by (simp add: cli_GetRealEraName_def NewCliUtilsForEra_def DefaultEra_def to_lower_def lower_char_def io_bind_Inr demo_cli_def
        has_prefix_def Let_def)
  ultimately show ?thesis
    by (simp add: NewTxBuilder_def NewTxBuilderForEra_def io_bind_Inr demo_start_def DefaultEra_def)
qed

lemma demo_prepared:
  "prepareBridgingTx demo_env demo_sender demo_bridging True Map.empty = Some (Inr \<lparr>pd_TxBuilder = demo_start, pd_OutputLovelace = 2010,
     pd_OutputNativeTokens = [], pd_BridgingAddress = ''multi'', pd_BridgingFee = 10\<rparr>, Map.empty)"
proof -
  have "checkAddress demo_env ''sender'' None demo_config = io_lift (Inr ())"
    by (simp add: checkAddress_def NewCardanoAddressFromString_def demo_env_def demo_byron_def IsAddressWithValidPrefix_def has_prefix_def
        GetAddressTypeFromHeader_def NewCardanoAddress_def getAddressParser_def addressParsers_def
        header_nibble_def byron_IsValid_def io_opt_Some io_wrap_Inr Let_def) (simp add: io_lift_def)
  moreover have "getConfigs demo_sender ''prime'' ''prime'' = Inr (demo_config, demo_config)"
    by (simp add: getConfigs_def demo_sender_def NewTxSender_def)
  moreover have "populateProtocolParameters demo_env demo_sender b demo_config = io_lift (Inr (b\<lparr>tb_protocolParameters := Some []\<rparr>))" for b
    by (simp add: populateProtocolParameters_def demo_config_def SetProtocolParameters_def) (simp add: io_lift_def)
  moreover have "demo_start\<lparr>tb_protocolParameters := Some []\<rparr> = demo_start" by (simp add: demo_start_def)
  moreover have "cc_CardanoCliBinary demo_config = ''cardano-cli''" "cc_MultiSigAddr demo_config = ''multi''"
    "cc_MinUtxoValue demo_config = 500" "cc_MinBridgingFeeAmount demo_config = 10" by (simp_all add: demo_config_def)
  ultimately show ?thesis
    by (simp add: prepareBridgingTx_def demo_bridging_def demo_builder_new io_bind_Inr checkFees_def getOutputAmounts_def
        adjustLovelaceOutput_def Let_def max_def)
qed

lemma demo_bridged:
  "\<exists>info md fs'. CreateBridgingTx demo_env demo_sender demo_bridging Map.empty = Some (Inr (info, md), fs') \<and> tx_ChangeMinUtxoAmount info = 500"
proof -
  obtain info fs' where run: "createTx demo_env demo_sender demo_start demo_dto Map.empty = Some (Inr info, fs')"
    and min: "tx_ChangeMinUtxoAmount info = 500" using demo_created by blast
  obtain p q where "AddrToMetaDataAddr ''rcv'' = Some p" "AddrToMetaDataAddr ''sender'' = Some q" using AddrToMetaDataAddr_parts by blast
  then obtain md where "createGenericTxDtoAndMetadata demo_env demo_sender demo_bridging \<lparr>pd_TxBuilder = demo_start, pd_OutputLovelace = 2010,
     pd_OutputNativeTokens = [], pd_BridgingAddress = ''multi'', pd_BridgingFee = 10\<rparr> = Some (Inr (demo_dto, md))"
    by (simp add: createGenericTxDtoAndMetadata_def CreateMetadata_def getConfigs_def demo_sender_def NewTxSender_def demo_bridging_def
        demo_dto_def metadata_Marshal_def demo_env_def demo_config_def)
  with run min show ?thesis by (simp add: CreateBridgingTx_def io_bind_Inr demo_prepared io_opt_Some io_defer_def)
qed

theorem CreateBridgingTx_accounts_witness:
  "\<exists>info md fs'. CreateBridgingTx demo_env demo_sender demo_bridging Map.empty = Some (Inr (info, md), fs') \<and>
     (\<exists>b fs1 fs2. Build (te_os demo_env) b fs1 = Some (Inr (tx_TxRaw info, tx_TxHash info), fs2) \<and>
       to_Addr (hd (tb_outputs b)) = ''multi'' \<and> to_Amount (hd (tb_outputs b)) = 2010)"
proof -
  obtain info md fs' where run: "CreateBridgingTx demo_env demo_sender demo_bridging Map.empty = Some (Inr (info, md), fs')"
    and min: "tx_ChangeMinUtxoAmount info = 500"
    using demo_bridged by blast
  have cfg: "getConfigs demo_sender (bd_SrcChainID demo_bridging) (bd_DstChainID demo_bridging) = Inr (demo_config, demo_config)"
    by (simp add: getConfigs_def demo_sender_def NewTxSender_def demo_bridging_def)
  have off: "offered demo_env demo_sender demo_config (bridged_dto demo_env demo_config demo_bridging md) =
      Inr [\<lparr>ut_Hash = ''aa'', ut_Index = 0, ut_Amount = 10000, ut_Tokens = []\<rparr>]"
    using demo_offered by (simp add: offered_def bridged_dto_def demo_dto_def demo_bridging_def)
  have fits: "fits [\<lparr>ut_Hash = ''aa'', ut_Index = 0, ut_Amount = 10000, ut_Tokens = []\<rparr>]"
    by (auto simp: fits_def utxo_total_def)
  have cost: "bridging_cost demo_config demo_bridging = 2010"
    by (simp add: bridging_cost_def bridged_total_def demo_bridging_def demo_config_def)
  then have small: "bridging_cost demo_config demo_bridging < 2 ^ 64" by simp
  have paid: "unat (metadata_GetOutputAmounts md) = 2010"
    using CreateBridgingTx_ok [OF run] cfg cost bridging_cost_exact(2) [OF small refl refl] by auto
  then have "asked_fits demo_config (gd_Receivers (bridged_dto demo_env demo_config demo_bridging md)) (tx_ChangeMinUtxoAmount info)"
    by (simp add: asked_fits_def min bridged_dto_def demo_config_def setOrDefault_def rcv_lovelace_def rcv_tokens_def)
  note accounts = CreateBridgingTx_accounts [OF demo_ranges run cfg off fits this small]
  have "bridging_address demo_config demo_bridging = ''multi''" by (simp add: bridging_address_def demo_bridging_def demo_config_def)
  with accounts obtain b fs1 fs2 paid changes where b: "Build (te_os demo_env) b fs1 = Some (Inr (tx_TxRaw info, tx_TxHash info), fs2)"
    "tb_outputs b = \<lparr>to_Addr = ''multi'', to_Amount = paid, to_Tokens = []\<rparr> # changes" "unat paid = 2010"
    unfolding cost by auto
  have "word_of_nat (unat paid) = paid" by simp
  then have "paid = 2010" unfolding b(3) by simp
  with b(1,2) run show ?thesis
    by (intro exI [of _ info] exI [of _ md] exI [of _ fs'] conjI exI [of _ b] exI [of _ fs1] exI [of _ fs2]) simp_all
qed

end
