(* ===== verification/Provider_Data.thy ===== *)
theory Provider_Data
  imports Wallet_Data Json_Doc
begin

text \<open>
  What the providers of the wallet share: names of tokens in hexadecimal, the documents of a tip and of an
  unspent output (\<open>wallet/data.go\<close>), and the decimal text of numbers.
\<close>

section \<open>Names\<close>

text \<open>The providers decode a name and keep the text when that fails.\<close>

definition real_name :: "string \<Rightarrow> string" where
  "real_name name = (case hex_DecodeString name of Inr realName \<Rightarrow> bytes_str realName | Inl _ \<Rightarrow> name)"

lemma real_name_hex [simp]: "real_name (hex_encode bs) = bytes_str bs"
  by (simp add: real_name_def)

section \<open>Documents\<close>

definition dec_tip :: "json \<Rightarrow> QueryTipData result" where
  "dec_tip j =
     rbind (dec_obj j) (\<lambda>fs.
     rbind (dec_word (json_member fs ''block'')) (\<lambda>b.
     rbind (dec_word (json_member fs ''epoch'')) (\<lambda>e.
     rbind (dec_str (json_member fs ''era'')) (\<lambda>era.
     rbind (dec_str (json_member fs ''hash'')) (\<lambda>h.
     rbind (dec_word (json_member fs ''slot'')) (\<lambda>s.
     rbind (dec_word (json_member fs ''slotInEpoch'')) (\<lambda>i.
     rbind (dec_word (json_member fs ''slotsToEpochEnd'')) (\<lambda>t.
     rbind (dec_str (json_member fs ''syncProgress'')) (\<lambda>p.
     Inr \<lparr>qt_Block = b, qt_Epoch = e, qt_Era = era, qt_Hash = h, qt_Slot = s, qt_SlotInEpoch = i,
          qt_SlotsToEpochEnd = t, qt_SyncProgress = p\<rparr>)))))))))"

text \<open>The embedded \<open>Token\<close> of an amount is flattened into its object.\<close>

definition dec_token_amount :: "json \<Rightarrow> TokenAmount result" where
  "dec_token_amount j =
     rbind (dec_obj j) (\<lambda>fs.
     rbind (dec_str (json_member fs ''pid'')) (\<lambda>p.
     rbind (dec_str (json_member fs ''nam'')) (\<lambda>n.
     rbind (dec_word (json_member fs ''val'')) (\<lambda>v.
     Inr \<lparr>ta_Token = NewToken p n, ta_Amount = v\<rparr>))))"

definition dec_utxo :: "json \<Rightarrow> Utxo result" where
  "dec_utxo j =
     rbind (dec_obj j) (\<lambda>fs.
     rbind (dec_str (json_member fs ''hsh'')) (\<lambda>h.
     rbind (dec_word (json_member fs ''ind'')) (\<lambda>i.
     rbind (dec_word (json_member fs ''amount'')) (\<lambda>a.
     rbind (dec_list dec_token_amount (json_member fs ''tokens'')) (\<lambda>ts.
     Inr \<lparr>ut_Hash = h, ut_Index = i, ut_Amount = a, ut_Tokens = ts\<rparr>)))))"

section \<open>Decimal text\<close>

lemma digit_val_dec: "dec_val c = Some d \<Longrightarrow> digit_val c = Some d \<and> d < 10 \<and> c \<noteq> CHR ''_''"
  by (auto simp: dec_val_def digit_val_def lower_char_def Let_def split: if_splits)

lemma parse_base_dec:
  "parse_dec acc s = Some n \<Longrightarrow> n < 2 ^ 64 \<Longrightarrow> parse_base 10 acc s = Inr n"
proof (induction s arbitrary: acc)
  case (Cons c s)
  then obtain d where d: "dec_val c = Some d" "parse_dec (10 * acc + d) s = Some n" by (auto split: option.splits)
  have mono: "parse_dec a s = Some n \<Longrightarrow> a \<le> n" for a
  proof (induction s arbitrary: a)
    case (Cons x xs)
    then obtain e where "parse_dec (10 * a + e) xs = Some n" by (auto split: option.splits)
    from Cons.IH [OF this] show ?case by simp
  qed simp
  from d digit_val_dec [OF d(1)] mono [OF d(2)] Cons show ?case by auto
qed simp

lemma itoa_first: "0 < n \<Longrightarrow> itoa n ! 0 \<noteq> CHR ''0''"
proof (induction n rule: itoa.induct)
  case (1 n)
  show ?case
  proof (cases "n < 10")
    case True
    have "dec_digit n \<noteq> CHR ''0''"
    proof
      assume "dec_digit n = CHR ''0''"
      with dec_val_digit [OF True] show False using 1 by (simp add: dec_val_def)
    qed
    then show ?thesis using True by (simp add: itoa.simps [of n])
  next
    case False
    then have "itoa (n div 10) ! 0 \<noteq> CHR ''0''" using 1 by simp
    moreover have "itoa (n div 10) \<noteq> []" by simp
    ultimately show ?thesis using False by (simp add: itoa.simps [of n] nth_append)
  qed
qed

lemma itoa_zero: "itoa 0 = ''0''"
  by code_simp

lemma ParseUint0_itoa: "n < 2 ^ 64 \<Longrightarrow> ParseUint0 (itoa n) = Inr (word_of_nat n)"
proof (cases "n = 0")
  case True
  then show ?thesis by (simp add: ParseUint0_def itoa_zero)
next
  case False
  assume n: "n < 2 ^ 64"
  have "CHR ''_'' \<notin> set (itoa n)" using itoa_digits [of "CHR ''_''" n] by (auto simp: dec_val_def)
  moreover have "parse_base 10 0 (itoa n) = Inr n" using parse_base_dec [OF parse_dec_itoa n] .
  ultimately show ?thesis using itoa_first [of n] False by (simp add: ParseUint0_def Let_def)
qed

lemma ParseUint0_itoa64 [simp]: "ParseUint0 (itoa64 w) = Inr w"
proof -
  have "unat w < 2 ^ 64" using unsigned_less [of w] by simp
  from ParseUint0_itoa [OF this] show ?thesis by (simp add: itoa64_def)
qed

lemma ParseUint10_itoa64 [simp]: "ParseUint10 (itoa64 w) = Inr w"
  by (simp add: ParseUint10_def)

end
