(* ===== verification/Provider_Cli.thy ===== *)
theory Provider_Cli
  imports Cli_Utils Provider_Data
begin

text \<open>
  The provider that asks \<open>cardano-cli\<close> (\<open>wallet/txprovider_cli.go\<close>): it runs the binary and reads its
  output, a table of unspent outputs or a JSON document.
\<close>

record TxProviderCli =
  tc_baseDirectory :: string
  tc_testNetMagic :: u64
  tc_socketPath :: string
  tc_cardanoCliBinary :: string
  tc_realEraName :: string
  tc_era :: string

text \<open>The directory stays when the era cannot be found out.\<close>

definition NewTxProviderCliForEra :: "os_env \<Rightarrow> u64 \<Rightarrow> string \<Rightarrow> string \<Rightarrow> string \<Rightarrow> TxProviderCli io" where
  "NewTxProviderCliForEra os testNetMagic socketPath cardanoCliBinary era =
     io_bind (\<lambda>fs. Some (os_MkdirTemp os ''cardano-txs'' fs, fs)) (\<lambda>baseDirectory.
     io_bind (cli_GetRealEraName os (NewCliUtilsForEra cardanoCliBinary era)) (\<lambda>realEraName.
     io_lift (Inr \<lparr>tc_baseDirectory = baseDirectory, tc_testNetMagic = testNetMagic, tc_socketPath = socketPath,
       tc_cardanoCliBinary = cardanoCliBinary, tc_realEraName = realEraName, tc_era = era\<rparr>)))"

definition NewTxProviderCli :: "os_env \<Rightarrow> u64 \<Rightarrow> string \<Rightarrow> string \<Rightarrow> TxProviderCli io" where
  "NewTxProviderCli os testNetMagic socketPath cardanoCliBinary =
     NewTxProviderCliForEra os testNetMagic socketPath cardanoCliBinary DefaultEra"

definition cli_Dispose :: "TxProviderCli \<Rightarrow> files \<Rightarrow> files" where
  "cli_Dispose b fs = RemoveAll (tc_baseDirectory b) fs"

definition cli_GetProtocolParameters :: "os_env \<Rightarrow> TxProviderCli \<Rightarrow> bytes io" where
  "cli_GetProtocolParameters os b =
     io_bind (runCommand os (tc_cardanoCliBinary b)
       ([tc_era b, ''query'', ''protocol-parameters'', ''--socket-path'', tc_socketPath b] @
         getTestNetMagicArgs (tc_testNetMagic b))) (\<lambda>response.
     io_lift (Inr (str_bytes response)))"

text \<open>
  The words of a row, which follow one another separated by spaces: the hash, the index, and then amounts
  with what they are amounts of; other words are passed over. \<open>cnt\<close> counts the words that are not empty.
\<close>

fun row_loop :: "nat \<Rightarrow> string list \<Rightarrow> Utxo \<Rightarrow> Utxo result" where
  "row_loop cnt [] input = Inr input"
| "row_loop cnt (partStr # parts) input =
     (if partStr = '''' then row_loop cnt parts input
      else if cnt = 0 then row_loop 1 parts (input\<lparr>ut_Hash := partStr\<rparr>)
      else if cnt = 1 then
        (case ParseUint0 partStr of
           Inl err \<Rightarrow> Inl err
         | Inr outputIndex \<Rightarrow> row_loop 2 parts (input\<lparr>ut_Index := ucast outputIndex\<rparr>))
      else if partStr = ''+'' \<or> contains partStr ''Datum'' then row_loop (cnt + 1) parts input
      else
        (case ParseUint10 partStr of
           Inl _ \<Rightarrow> row_loop (cnt + 1) parts input
         | Inr amount \<Rightarrow>
             (case parts of
                [] \<Rightarrow> row_loop (cnt + 1) parts input
              | unit # rest \<Rightarrow>
                  let tokenData = split_on (CHR ''.'') unit in
                  if unit = AdaTokenName then row_loop (cnt + 1) rest (input\<lparr>ut_Amount := amount\<rparr>)
                  else if length tokenData = 2
                  then row_loop (cnt + 1) rest (input\<lparr>ut_Tokens := ut_Tokens input @
                    [\<lparr>ta_Token = NewToken (tokenData ! 0) (real_name (tokenData ! 1)), ta_Amount = amount\<rparr>]\<rparr>)
                  else row_loop (cnt + 1) parts input)))"

definition read_row :: "string \<Rightarrow> Utxo result" where
  "read_row row = row_loop 0 (split_on (CHR '' '') row) \<lparr>ut_Hash = '''', ut_Index = 0, ut_Amount = 0, ut_Tokens = []\<rparr>"

text \<open>The slice \<open>[2:]\<close> panics on an output of one line.\<close>

definition read_table :: "string \<Rightarrow> Utxo list result option" where
  "read_table output = map_option (result_map read_row) (go_slice (split_on (CHR 0x0A) (trim_nl output)) 2
     (int (length (split_on (CHR 0x0A) (trim_nl output)))))"

definition cli_GetUtxos :: "os_env \<Rightarrow> TxProviderCli \<Rightarrow> string \<Rightarrow> Utxo list io" where
  "cli_GetUtxos os b addr =
     io_bind (runCommand os (tc_cardanoCliBinary b)
       ([tc_era b, ''query'', ''utxo'', ''--socket-path'', tc_socketPath b, ''--address'', addr] @
         getTestNetMagicArgs (tc_testNetMagic b))) (\<lambda>output.
     io_opt (read_table output))"

definition cli_GetTip :: "os_env \<Rightarrow> TxProviderCli \<Rightarrow> QueryTipData io" where
  "cli_GetTip os b =
     io_bind (runCommand os (tc_cardanoCliBinary b)
       ([tc_era b, ''query'', ''tip'', ''--socket-path'', tc_socketPath b] @ getTestNetMagicArgs (tc_testNetMagic b))) (\<lambda>res.
     io_lift (unmarshal_text os res dec_tip))"

definition cli_SubmitTx :: "os_env \<Rightarrow> TxProviderCli \<Rightarrow> bytes \<Rightarrow> unit io" where
  "cli_SubmitTx os b txSigned =
     (let txFilePath = path_join (tc_baseDirectory b) ''tx.send'' in
      io_bind (WriteFile os txFilePath (FileJson (witnessed_ToJSON txSigned (tc_realEraName b)))) (\<lambda>_.
      io_bind (runCommand os (tc_cardanoCliBinary b)
        ([tc_era b, ''transaction'', ''submit'', ''--socket-path'', tc_socketPath b, ''--tx-file'', txFilePath] @
          getTestNetMagicArgs (tc_testNetMagic b))) (\<lambda>res.
      if contains res ''Transaction successfully submitted.'' then io_lift (Inr ())
      else io_lift (Inl (ErrMsg (''unknown error submiting tx: '' @ res))))))"

definition cli_GetTxByHash :: "TxProviderCli \<Rightarrow> string \<Rightarrow> json io" where
  "cli_GetTxByHash b hash = io_panic"

end
