(* ===== verification/Provider_Cli_Props.thy ===== *)
theory Provider_Cli_Props
  imports Provider_Cli
begin

text \<open>
  The table that \<open>cardano-cli query utxo\<close> prints, and what the provider reads from it: every output, with its
  amount and its tokens except those with an empty name. The text of a datum stands in the same line and can
  pass for amounts.
\<close>

section \<open>The table\<close>

text \<open>
  A line has the hash, the index and the amount, separated by at least one space, the tokens after a plus each,
  and the words that describe the datum. A token with an empty name is printed as its policy alone.
\<close>

definition cli_token_name :: "Token \<Rightarrow> string" where
  "cli_token_name tok = (if tk_Name tok = '''' then tk_PolicyID tok else Token_String tok)"

definition cli_token :: "TokenAmount \<Rightarrow> string list" where
  "cli_token ta = [''+'', itoa64 (ta_Amount ta), cli_token_name (ta_Token ta)]"

definition cli_words :: "Utxo \<Rightarrow> string list \<Rightarrow> string list" where
  "cli_words u datum = [itoa64 (ut_Amount u), AdaTokenName] @ concat (map cli_token (ut_Tokens u)) @ ''+'' # datum"

definition spaced :: "string list \<Rightarrow> string" where
  "spaced ws = concat (map (\<lambda>w. CHR '' '' # w) ws)"

definition cli_row :: "nat \<Rightarrow> nat \<Rightarrow> Utxo \<Rightarrow> string list \<Rightarrow> string" where
  "cli_row n m u datum = ut_Hash u @ replicate n (CHR '' '') @ spaced [itoa (unat (ut_Index u))] @ replicate m (CHR '' '') @
     spaced (cli_words u datum)"

definition cli_table :: "string \<Rightarrow> string \<Rightarrow> string list \<Rightarrow> string" where
  "cli_table h1 h2 rows = concat (map (\<lambda>r. r @ [CHR 0x0A]) (h1 # h2 # rows))"

definition plain :: "string \<Rightarrow> bool" where
  "plain w \<longleftrightarrow> w \<noteq> [] \<and> CHR '' '' \<notin> set w \<and> CHR 0x0A \<notin> set w"

definition cli_printable :: "Utxo \<Rightarrow> bool" where
  "cli_printable u \<longleftrightarrow> plain (ut_Hash u) \<and>
     (\<forall>ta \<in> set (ut_Tokens u). plain (tk_PolicyID (ta_Token ta)) \<and> CHR ''.'' \<notin> set (tk_PolicyID (ta_Token ta)) \<and>
        tk_PolicyID (ta_Token ta) \<noteq> AdaTokenName \<and> \<not> contains (tk_PolicyID (ta_Token ta)) ''Datum'')"

text \<open>Words that are no amounts.\<close>

definition harmless :: "string list \<Rightarrow> bool" where
  "harmless datum \<longleftrightarrow> (\<forall>w \<in> set datum. plain w \<and> (w = ''+'' \<or> contains w ''Datum'' \<or> (\<exists>e. ParseUint10 w = Inl e)))"

section \<open>Splitting\<close>

lemma split_on_spaces: "split_on c (replicate n c @ s) = replicate n [] @ split_on c s"
  by (induction n) simp_all

lemma split_on_spaced:
  "\<forall>w \<in> set ws. CHR '' '' \<notin> set w \<Longrightarrow> CHR '' '' \<notin> set w0 \<Longrightarrow> split_on (CHR '' '') (w0 @ spaced ws) = w0 # ws"
proof (induction ws arbitrary: w0)
  case Nil
  then show ?case by (simp add: spaced_def split_on_none)
next
  case (Cons w ws)
  have "split_on (CHR '' '') (w0 @ spaced (w # ws)) = w0 # split_on (CHR '' '') (w @ spaced ws)"
    using Cons.prems(2) by (simp add: spaced_def split_on_append)
  with Cons show ?case by simp
qed

lemma itoa_no_space: "CHR '' '' \<notin> set (itoa n)" "CHR 0x0A \<notin> set (itoa n)"
  using itoa_digits [of "CHR '' ''" n] itoa_digits [of "CHR 0x0A" n] by (auto simp: dec_val_def)

lemma split_cli_row:
  assumes "CHR '' '' \<notin> set (ut_Hash u)" "\<forall>w \<in> set (cli_words u datum). CHR '' '' \<notin> set w"
  shows "split_on (CHR '' '') (cli_row n m u datum) =
    ut_Hash u # replicate n [] @ itoa (unat (ut_Index u)) # replicate m [] @ cli_words u datum"
proof -
  have push: "replicate k (CHR '' '') @ CHR '' '' # s = CHR '' '' # replicate k (CHR '' '') @ s" for k s
    by (induction k) simp_all
  obtain w ws where ws: "cli_words u datum = w # ws" by (simp add: cli_words_def)
  have tail: "split_on (CHR '' '') (w @ spaced ws) = w # ws"
    using assms(2) by (simp add: ws split_on_spaced)
  have row: "cli_row n m u datum = ut_Hash u @ CHR '' '' # replicate n (CHR '' '') @ itoa (unat (ut_Index u)) @
      CHR '' '' # replicate m (CHR '' '') @ w @ spaced ws"
    by (simp add: cli_row_def ws spaced_def push)
  show ?thesis
    unfolding row using assms(1) itoa_no_space(1) [of "unat (ut_Index u)"]
    by (simp add: split_on_append split_on_spaces tail ws del: replicate.simps)
qed

lemma split_lines:
  "\<forall>r \<in> set rows. CHR 0x0A \<notin> set r \<Longrightarrow> CHR 0x0A \<notin> set h \<Longrightarrow>
     split_on (CHR 0x0A) (h @ concat (map (\<lambda>r. CHR 0x0A # r) rows)) = h # rows"
proof (induction rows arbitrary: h)
  case (Cons r rows)
  then show ?case using split_on_append [of "CHR 0x0A" h] by simp
qed (simp add: split_on_none)

section \<open>Reading a row\<close>

lemma row_skip_empty: "row_loop cnt (replicate n [] @ ws) u = row_loop cnt ws u"
  by (induction n) simp_all

lemma row_skip: "ParseUint10 w = Inl e \<or> w = ''+'' \<or> contains w ''Datum'' \<Longrightarrow> row_loop (Suc (Suc c)) (w # ws) u = row_loop (if w = [] then Suc (Suc c) else Suc (Suc (Suc c))) ws u"
  by auto

lemma ParseUint10_plus: "\<exists>e. ParseUint10 ''+'' = Inl e"
  by (simp add: ParseUint10_def parse_uint10_def dec_val_def)

lemma plus_parts: "split_on (CHR ''.'') ''+'' = [''+'']" "''+'' \<noteq> AdaTokenName" "contains ''+'' ''Datum'' = False"
  by (simp_all add: AdaTokenName_def has_prefix_def)

text \<open>The tokens that are read.\<close>

definition named :: "TokenAmount list \<Rightarrow> TokenAmount list" where
  "named tas = filter (\<lambda>ta. tk_Name (ta_Token ta) \<noteq> '''') tas"

lemma itoa_not_plus: "itoa n \<noteq> ''+''" "\<not> contains (itoa n) ''Datum''"
proof -
  show "itoa n \<noteq> ''+''" using itoa_digits [of "CHR ''+''" n] by (auto simp: dec_val_def)
  have sub: "contains s p \<Longrightarrow> set p \<subseteq> set s" for s p :: string
  proof (induction s)
    case (Cons a s)
    show ?case
    proof (cases "has_prefix (a # s) p")
      case True
      then have "p = take (length p) (a # s)" by (simp add: has_prefix_def)
      then show ?thesis by (metis set_take_subset)
    qed (use Cons in auto)
  qed (simp add: has_prefix_def)
  then show "\<not> contains (itoa n) ''Datum''" using sub [of "itoa n" "''Datum''"] itoa_digits [of "CHR ''D''" n] by (auto simp: dec_val_def)
qed

lemma row_number:
  "row_loop (Suc (Suc c)) (itoa64 a # ws) u =
     (case ws of [] \<Rightarrow> Inr u
      | unit # rest \<Rightarrow>
          if unit = AdaTokenName then row_loop (Suc (Suc (Suc c))) rest (u\<lparr>ut_Amount := a\<rparr>)
          else if length (split_on (CHR ''.'') unit) = 2
          then row_loop (Suc (Suc (Suc c))) rest (u\<lparr>ut_Tokens := ut_Tokens u @
            [\<lparr>ta_Token = NewToken (split_on (CHR ''.'') unit ! 0) (real_name (split_on (CHR ''.'') unit ! 1)), ta_Amount = a\<rparr>]\<rparr>)
          else row_loop (Suc (Suc (Suc c))) ws u)"
proof -
  have n: "itoa64 a \<noteq> []" "itoa64 a \<noteq> ''+''" "\<not> contains (itoa64 a) ''Datum''"
    using itoa_not_plus [of "unat a"] by (simp_all add: itoa64_def)
  show ?thesis
    by (subst row_loop.simps(2)) (simp add: n Let_def del: row_loop.simps(2) split: list.split)
qed

lemma row_plus: "row_loop (Suc (Suc c)) (''+'' # ws) u = row_loop (Suc (Suc (Suc c))) ws u"
  by simp

text \<open>The policy of a token without a name, whatever follows.\<close>

lemma row_policy:
  assumes "plain p" "CHR ''.'' \<notin> set p" "p \<noteq> AdaTokenName"
  shows "row_loop (Suc (Suc c)) (p # ''+'' # ws) u = row_loop (Suc (Suc (Suc (Suc c)))) ws u"
  using assms plus_parts by (auto simp: plain_def Let_def split: sum.splits)

lemma token_name_parts:
  assumes "CHR ''.'' \<notin> set p"
  shows "split_on (CHR ''.'') (p @ ''.'' @ hex_encode bs) = [p, hex_encode bs]"
  using assms hex_encode_no_dot [of bs] by (simp add: split_on_append split_on_none)

lemma row_token:
  assumes "plain (tk_PolicyID (ta_Token ta))" "CHR ''.'' \<notin> set (tk_PolicyID (ta_Token ta))" "tk_PolicyID (ta_Token ta) \<noteq> AdaTokenName"
  shows "\<exists>c'. row_loop (Suc (Suc c)) (cli_token ta @ ''+'' # ws) u =
    row_loop (Suc (Suc c')) (''+'' # ws) (u\<lparr>ut_Tokens := ut_Tokens u @ named [ta]\<rparr>)"
proof (cases "tk_Name (ta_Token ta) = ''''")
  case True
  have "split_on (CHR ''.'') (tk_PolicyID (ta_Token ta)) = [tk_PolicyID (ta_Token ta)]" using assms(2) by (rule split_on_none)
  then have "row_loop (Suc (Suc c)) (cli_token ta @ ''+'' # ws) u = row_loop (Suc (Suc (Suc (Suc (Suc (Suc c)))))) ws u"
    using row_policy [OF assms, of "Suc (Suc c)" ws u] assms(3) True
    by (simp only: cli_token_def cli_token_name_def append_Cons append_Nil row_plus row_number list.case if_True if_False refl)
       (simp del: row_loop.simps)
  moreover have "row_loop (Suc (Suc (Suc (Suc (Suc c))))) (''+'' # ws) u = row_loop (Suc (Suc (Suc (Suc (Suc (Suc c)))))) ws u"
    by (rule row_plus)
  ultimately show ?thesis using True by (intro exI [of _ "Suc (Suc (Suc c))"]) (simp add: named_def del: row_loop.simps)
next
  case False
  have "Token_String (ta_Token ta) \<noteq> AdaTokenName"
  proof
    assume "Token_String (ta_Token ta) = AdaTokenName"
    then have "CHR ''.'' \<in> set AdaTokenName" by (metis Token_String_def append_Cons in_set_conv_decomp)
    then show False by (simp add: AdaTokenName_def)
  qed
  then have "row_loop (Suc (Suc c)) (cli_token ta @ ''+'' # ws) u =
      row_loop (Suc (Suc (Suc (Suc c)))) (''+'' # ws) (u\<lparr>ut_Tokens := ut_Tokens u @ [ta]\<rparr>)"
    using False token_name_parts [OF assms(2), of "str_bytes (tk_Name (ta_Token ta))"]
    by (cases ta; cases "ta_Token ta")
      (simp add: cli_token_def cli_token_name_def row_plus row_number Token_String_def NewToken_def del: row_loop.simps)
  then show ?thesis using False by (intro exI [of _ "Suc (Suc c)"]) (simp add: named_def del: row_loop.simps)
qed

lemma row_tokens:
  assumes "\<forall>ta \<in> set tas. plain (tk_PolicyID (ta_Token ta)) \<and> CHR ''.'' \<notin> set (tk_PolicyID (ta_Token ta)) \<and>
    tk_PolicyID (ta_Token ta) \<noteq> AdaTokenName"
  shows "\<exists>c'. row_loop (Suc (Suc c)) (concat (map cli_token tas) @ ''+'' # ws) u =
    row_loop (Suc (Suc c')) (''+'' # ws) (u\<lparr>ut_Tokens := ut_Tokens u @ named tas\<rparr>)"
  using assms
proof (induction tas arbitrary: c u)
  case Nil
  show ?case by (rule exI [of _ c]) (simp add: named_def del: row_loop.simps)
next
  case (Cons ta tas)
  obtain ws' where ws': "concat (map cli_token tas) @ ''+'' # ws = ''+'' # ws'" by (cases tas) (simp_all add: cli_token_def)
  obtain c1 where c1: "row_loop (Suc (Suc c)) (cli_token ta @ ''+'' # ws') u =
      row_loop (Suc (Suc c1)) (''+'' # ws') (u\<lparr>ut_Tokens := ut_Tokens u @ named [ta]\<rparr>)"
    using row_token [of ta c ws' u] Cons.prems by auto
  obtain c2 where "row_loop (Suc (Suc c1)) (''+'' # ws') (u\<lparr>ut_Tokens := ut_Tokens u @ named [ta]\<rparr>) =
      row_loop (Suc (Suc c2)) (''+'' # ws) (u\<lparr>ut_Tokens := ut_Tokens u @ named [ta] @ named tas\<rparr>)"
    using Cons.IH [of c1 "u\<lparr>ut_Tokens := ut_Tokens u @ named [ta]\<rparr>"] Cons.prems by (auto simp: ws')
  moreover have "named [ta] @ named tas = named (ta # tas)" by (simp add: named_def)
  ultimately show ?case using c1 by (intro exI [of _ c2]) (simp add: ws' del: row_loop.simps)
qed

lemma row_datum:
  "harmless ds \<Longrightarrow> \<exists>c'. row_loop (Suc (Suc c)) (ds @ ws) u = row_loop (Suc (Suc c')) ws u"
proof (induction ds arbitrary: c)
  case Nil
  show ?case by (rule exI [of _ c]) (simp del: row_loop.simps)
next
  case (Cons d ds)
  then have d: "plain d" "d = ''+'' \<or> contains d ''Datum'' \<or> (\<exists>e. ParseUint10 d = Inl e)" and ds: "harmless ds"
    by (simp_all add: harmless_def)
  then have "row_loop (Suc (Suc c)) ((d # ds) @ ws) u = row_loop (Suc (Suc (Suc c))) (ds @ ws) u"
    by (auto simp: plain_def)
  with Cons.IH [OF ds, of "Suc c"] show ?case by (simp del: row_loop.simps)
qed

lemma row_words:
  assumes "cli_printable u" "harmless ds"
  shows "\<exists>c'. row_loop 2 (cli_words u (ds @ ws)) v = row_loop (Suc (Suc c')) ws
    (v\<lparr>ut_Amount := ut_Amount u, ut_Tokens := ut_Tokens v @ named (ut_Tokens u)\<rparr>)"
proof -
  have two: "(2::nat) = Suc (Suc 0)" by simp
  have "row_loop 2 (cli_words u (ds @ ws)) v =
      row_loop (Suc (Suc (Suc 0))) (concat (map cli_token (ut_Tokens u)) @ ''+'' # ds @ ws) (v\<lparr>ut_Amount := ut_Amount u\<rparr>)"
    by (simp add: two cli_words_def row_number del: row_loop.simps)
  moreover obtain c1 where "row_loop (Suc (Suc (Suc 0))) (concat (map cli_token (ut_Tokens u)) @ ''+'' # ds @ ws) (v\<lparr>ut_Amount := ut_Amount u\<rparr>) =
      row_loop (Suc (Suc c1)) (''+'' # ds @ ws) (v\<lparr>ut_Amount := ut_Amount u, ut_Tokens := ut_Tokens v @ named (ut_Tokens u)\<rparr>)"
    using row_tokens [of "ut_Tokens u" "Suc 0" "ds @ ws" "v\<lparr>ut_Amount := ut_Amount u\<rparr>"] assms(1) by (auto simp: cli_printable_def)
  moreover obtain c2 where "row_loop (Suc (Suc (Suc c1))) (ds @ ws) (v\<lparr>ut_Amount := ut_Amount u, ut_Tokens := ut_Tokens v @ named (ut_Tokens u)\<rparr>) =
      row_loop (Suc (Suc c2)) ws (v\<lparr>ut_Amount := ut_Amount u, ut_Tokens := ut_Tokens v @ named (ut_Tokens u)\<rparr>)"
    using row_datum [OF assms(2)] by blast
  ultimately show ?thesis by (auto simp: row_plus simp del: row_loop.simps)
qed

lemma words_no_space:
  assumes "cli_printable u" "\<forall>d \<in> set ds. CHR '' '' \<notin> set d" 
  shows "\<forall>w \<in> set (cli_words u ds). CHR '' '' \<notin> set w"
proof -
  have "CHR '' '' \<notin> set (hex_encode bs)" for bs
    using hex_encode_chars [of "CHR '' ''" bs] by (auto simp: hex_val_def)
  then show ?thesis using assms itoa_no_space(1)
    by (auto simp: cli_words_def cli_token_def cli_token_name_def cli_printable_def plain_def Token_String_def itoa64_def AdaTokenName_def
        split: if_splits)
qed

lemma read_row_start:
  assumes "cli_printable u" "\<forall>d \<in> set ds. CHR '' '' \<notin> set d"
  shows "read_row (cli_row n m u ds) =
    row_loop 2 (cli_words u ds) \<lparr>ut_Hash = ut_Hash u, ut_Index = ut_Index u, ut_Amount = 0, ut_Tokens = []\<rparr>"
proof -
  have "unat (ut_Index u) < 2 ^ 32" using unsigned_less [of "ut_Index u"] by simp
  then have "ParseUint0 (itoa (unat (ut_Index u))) = Inr (word_of_nat (unat (ut_Index u)))" by (intro ParseUint0_itoa) simp
  moreover have "(ucast (word_of_nat (unat (ut_Index u)) :: u64) :: u32) = ut_Index u"
    using \<open>unat (ut_Index u) < 2 ^ 32\<close> by (simp add: word_unat_eq_iff unsigned_ucast_eq unsigned_of_nat take_bit_nat_eq_self take_bit_word_eq_self)
  ultimately show ?thesis
    using assms split_cli_row [OF _ words_no_space [OF assms]]
    by (simp add: read_row_def cli_printable_def plain_def row_skip_empty)
qed

section \<open>Reading the table\<close>

definition line :: "string \<Rightarrow> bool" where
  "line r \<longleftrightarrow> r \<noteq> [] \<and> CHR 0x0A \<notin> set r"

lemma read_table_lines:
  assumes "line h1" "\<forall>r \<in> set rows. line r" "line h2"
  shows "read_table (cli_table h1 h2 rows) = Some (result_map read_row rows)"
proof -
  define body where "body = h1 @ concat (map (\<lambda>r. CHR 0x0A # r) (h2 # rows))"
  have shift: "concat (map (\<lambda>r. r @ [c]) (h # rs)) = h @ concat (map (\<lambda>r. c # r) rs) @ [c]" for c and h :: string and rs
    by (induction rs arbitrary: h) simp_all
  have table: "cli_table h1 h2 rows = body @ [CHR 0x0A]"
    unfolding cli_table_def body_def using shift [of "CHR 0x0A" h1 "h2 # rows"] by simp
  have first: "body \<noteq> []" "hd body \<noteq> CHR 0x0A" using assms(1) by (cases h1; auto simp: body_def line_def)+
  have "last (concat (map (\<lambda>r. CHR 0x0A # r) (h # rs))) = last (last (h # rs))" if "line h" "\<forall>r \<in> set rs. line r" for h rs
    using that
  proof (induction rs arbitrary: h)
    case (Cons r rs)
    then have "concat (map (\<lambda>r. CHR 0x0A # r) (r # rs)) \<noteq> []" by simp
    with Cons show ?case by (simp add: line_def)
  qed (simp add: line_def)
  then have "last body = last (last (h2 # rows))" using assms by (simp add: body_def)
  moreover have "line (last (h2 # rows))" using assms by auto
  ultimately have last: "last body \<noteq> CHR 0x0A" unfolding line_def by (metis last_in_set)
  have "dropWhile (\<lambda>c. c = CHR 0x0A) (body @ ys) = body @ ys" for ys
    using first by (cases body) simp_all
  moreover have "dropWhile (\<lambda>c. c = CHR 0x0A) (rev body) = rev body"
    using first last by (cases "rev body") (auto simp: last_rev hd_rev [symmetric])
  ultimately have "trim_nl (cli_table h1 h2 rows) = body" by (simp add: table trim_nl_def trim_chars_def)
  moreover have "split_on (CHR 0x0A) body = h1 # h2 # rows"
    unfolding body_def using assms by (intro split_lines) (auto simp: line_def)
  ultimately show ?thesis by (simp add: read_table_def go_slice_def)
qed

lemma cli_row_line:
  assumes "cli_printable u" "\<forall>d \<in> set ds. CHR 0x0A \<notin> set d"
  shows "line (cli_row n m u ds)"
proof -
  have "CHR 0x0A \<notin> set (hex_encode bs)" for bs
    using hex_encode_chars [of "CHR 0x0A" bs] by (auto simp: hex_val_def)
  then show ?thesis using assms itoa_no_space(2)
    by (auto simp: line_def cli_row_def spaced_def cli_words_def cli_token_def cli_token_name_def cli_printable_def plain_def
        Token_String_def itoa64_def AdaTokenName_def split: if_splits)
qed

text \<open>The lines of a table: padding, output and datum.\<close>

definition cli_rows :: "(nat \<times> nat \<times> Utxo \<times> string list) list \<Rightarrow> string list" where
  "cli_rows xs = map (\<lambda>(n, m, u, datum). cli_row n m u datum) xs"

text \<open>
  C19. Reading the table of \<open>cardano-cli\<close> gives back the outputs it was printed from, in order and with hash,
  index and amount, whatever the padding is, and with their tokens, except the tokens with an empty
  asset name, which are lost; the words of a datum make no difference as long as none of them is a number.
\<close>

theorem cli_GetUtxos_reads_table:
  assumes "line h1" "line h2" "\<forall>(n, m, u, datum) \<in> set xs. cli_printable u \<and> harmless datum"
    "os_run os (tc_cardanoCliBinary b) ([tc_era b, ''query'', ''utxo'', ''--socket-path'', tc_socketPath b, ''--address'', addr] @
       getTestNetMagicArgs (tc_testNetMagic b)) fs = (\<lparr>cmd_stdout = cli_table h1 h2 (cli_rows xs), cmd_stderr = '''', cmd_err = None\<rparr>, fs')"
  shows "cli_GetUtxos os b addr fs =
    Some (Inr (map (\<lambda>(n, m, u, datum). u\<lparr>ut_Tokens := named (ut_Tokens u)\<rparr>) xs), fs')"
proof -
  have row: "read_row (cli_row n m u datum) = Inr (u\<lparr>ut_Tokens := named (ut_Tokens u)\<rparr>)"
    if u: "cli_printable u" "harmless datum" for n m u datum
  proof -
    have "\<forall>d \<in> set datum. CHR '' '' \<notin> set d" using u(2) by (auto simp: harmless_def plain_def)
    from read_row_start [OF u(1) this, of n m] row_words [OF u, of "[]"] show ?thesis by force
  qed
  have "result_map read_row (cli_rows xs) = Inr (map (\<lambda>(n, m, u, datum). u\<lparr>ut_Tokens := named (ut_Tokens u)\<rparr>) xs)"
    using assms(3) by (induction xs) (auto simp: cli_rows_def row)
  moreover have "\<forall>r \<in> set (cli_rows xs). line r"
    using assms(3) by (fastforce simp: cli_rows_def harmless_def plain_def intro!: cli_row_line)
  ultimately have "read_table (cli_table h1 h2 (cli_rows xs)) = Some (Inr (map (\<lambda>(n, m, u, datum). u\<lparr>ut_Tokens := named (ut_Tokens u)\<rparr>) xs))"
    using read_table_lines [OF assms(1) _ assms(2)] by simp
  then show ?thesis using assms(4) by (simp add: cli_GetUtxos_def runCommand_def io_bind_def io_opt_def io_lift_def)
qed

text \<open>
  A datum can pass for the amount: when its text has the two words of a number and \<open>lovelace\<close> between
  harmless ones, the provider reports that number as the amount of the output, whatever the output holds.
\<close>

theorem cli_amount_from_datum:
  assumes "line h1" "line h2" "cli_printable u" "harmless ds1" "harmless ds2"
  shows "read_table (cli_table h1 h2 [cli_row n m u (ds1 @ [itoa64 x, AdaTokenName] @ ds2)]) =
    Some (Inr [u\<lparr>ut_Amount := x, ut_Tokens := named (ut_Tokens u)\<rparr>])"
proof -
  have ds: "\<forall>d \<in> set (ds1 @ [itoa64 x, AdaTokenName] @ ds2). CHR '' '' \<notin> set d \<and> CHR 0x0A \<notin> set d"
    using assms(4,5) itoa_no_space by (auto simp: harmless_def plain_def itoa64_def AdaTokenName_def)
  define v where "v = \<lparr>ut_Hash = ut_Hash u, ut_Index = ut_Index u, ut_Amount = 0, ut_Tokens = []\<rparr>"
  obtain c where c: "row_loop 2 (cli_words u (ds1 @ [itoa64 x, AdaTokenName] @ ds2)) v =
      row_loop (Suc (Suc c)) ([itoa64 x, AdaTokenName] @ ds2) (v\<lparr>ut_Amount := ut_Amount u, ut_Tokens := ut_Tokens v @ named (ut_Tokens u)\<rparr>)"
    using row_words [OF assms(3,4)] by blast
  have "row_loop (Suc (Suc (Suc c))) ds2 w = Inr w" for w using row_datum [OF assms(5), of "Suc c" "[]" w] by auto
  then have "row_loop 2 (cli_words u (ds1 @ [itoa64 x, AdaTokenName] @ ds2)) v = Inr (u\<lparr>ut_Amount := x, ut_Tokens := named (ut_Tokens u)\<rparr>)"
    unfolding c by (simp add: row_number v_def del: row_loop.simps)
  then have "read_row (cli_row n m u (ds1 @ [itoa64 x, AdaTokenName] @ ds2)) = Inr (u\<lparr>ut_Amount := x, ut_Tokens := named (ut_Tokens u)\<rparr>)"
    using read_row_start [OF assms(3), of "ds1 @ [itoa64 x, AdaTokenName] @ ds2"] ds by (simp add: v_def)
  with read_table_lines [OF assms(1) _ assms(2)] cli_row_line [OF assms(3)] ds show ?thesis by simp
qed

section \<open>Witnesses\<close>

definition demo_cli_utxo :: Utxo where
  "demo_cli_utxo = \<lparr>ut_Hash = ''ab'', ut_Index = 1, ut_Amount = 5,
     ut_Tokens = [\<lparr>ta_Token = NewToken ''p'' ''X'', ta_Amount = 3\<rparr>, \<lparr>ta_Token = NewToken ''q'' '''', ta_Amount = 4\<rparr>]\<rparr>"

definition demo_table :: string where
  "demo_table = cli_table ''TxHash'' ''---'' (cli_rows [(3, 2, demo_cli_utxo, [''TxOutDatumNone''])])"

definition demo_cli_os :: os_env where
  "demo_cli_os = \<lparr>os_MkdirTemp = (\<lambda>_ _. Inr ''tmp''), os_write_err = (\<lambda>_. None),
     os_run = (\<lambda>_ _ fs. (\<lparr>cmd_stdout = demo_table, cmd_stderr = '''', cmd_err = None\<rparr>, fs)), os_json = (\<lambda>_. None)\<rparr>"

definition demo_cli :: TxProviderCli where
  "demo_cli = \<lparr>tc_baseDirectory = ''tmp'', tc_testNetMagic = 2, tc_socketPath = ''node.socket'', tc_cardanoCliBinary = ''cardano-cli'',
     tc_realEraName = ''Conway'', tc_era = ''latest''\<rparr>"

lemma demo_cli_ok: "line ''TxHash''" "line ''---''" "cli_printable demo_cli_utxo" "harmless [''TxOutDatumNone'']"
  by (simp_all add: line_def cli_printable_def plain_def harmless_def demo_cli_utxo_def NewToken_def AdaTokenName_def has_prefix_def)

theorem cli_GetUtxos_reads_table_witness:
  "cli_GetUtxos demo_cli_os demo_cli ''addr'' (\<lambda>_. None) =
     Some (Inr [demo_cli_utxo\<lparr>ut_Tokens := [\<lparr>ta_Token = NewToken ''p'' ''X'', ta_Amount = 3\<rparr>]\<rparr>], \<lambda>_. None)"
proof -
  have "cli_GetUtxos demo_cli_os demo_cli ''addr'' (\<lambda>_. None) =
     Some (Inr (map (\<lambda>(n, m, u, datum). u\<lparr>ut_Tokens := named (ut_Tokens u)\<rparr>) [(3::nat, 2::nat, demo_cli_utxo, [''TxOutDatumNone''])]), \<lambda>_. None)"
    by (rule cli_GetUtxos_reads_table [OF demo_cli_ok(1,2)]) (simp_all add: demo_cli_ok demo_cli_os_def demo_table_def)
  then show ?thesis by (simp add: demo_cli_utxo_def named_def NewToken_def)
qed

theorem cli_amount_from_datum_witness:
  "\<exists>table. read_table table = Some (Inr [demo_cli_utxo\<lparr>ut_Amount := 9, ut_Tokens := named (ut_Tokens demo_cli_utxo)\<rparr>])"
  using cli_amount_from_datum [OF demo_cli_ok, of "[''TxOutDatumInline'']" 1 1 9]
  by (auto simp: harmless_def plain_def has_prefix_def)

end
