(* ===== verification/Protocol_Parameters.thy ===== *)
theory Protocol_Parameters
  imports Provider_Data Wallet_Keys
begin

text \<open>
  The protocol parameters (\<open>wallet/protocol_parameters.go\<close>) and the document they are marshalled to, which
  is the same for every provider. The 64-bit floats and the operations on them are a type \<open>'f\<close> and a record
  of functions; a document that is not finite cannot be marshalled.
\<close>

section \<open>Floats\<close>

text \<open>
  \<open>fo_parse\<close> is \<open>strconv.ParseFloat\<close>, which returns a value even with an error; \<open>fo_json\<close> marshals.
\<close>

record 'f float_ops =
  fo_zero :: 'f
  fo_parse :: "string \<Rightarrow> 'f \<times> goerror option"
  fo_of_int :: "int \<Rightarrow> 'f"
  fo_div :: "'f \<Rightarrow> 'f \<Rightarrow> 'f"
  fo_to_u64 :: "'f \<Rightarrow> u64"
  fo_json :: "'f \<Rightarrow> json result"

fun dec_float :: "'f float_ops \<Rightarrow> json \<Rightarrow> 'f result" where
  "dec_float F JNull = Inr (fo_zero F)"
| "dec_float F (JNum n) = Inr (fo_of_int F n)"
| "dec_float F (JReal s) = (case fo_parse F s of (v, None) \<Rightarrow> Inr v | (_, Some _) \<Rightarrow> Inl json_type_error)"
| "dec_float F _ = Inl json_type_error"

text \<open>Reading a pointer field, and the member at a path of nested structs.\<close>

definition dec_ptr :: "(json \<Rightarrow> 'a result) \<Rightarrow> json \<Rightarrow> 'a option result" where
  "dec_ptr d j = (if j = JNull then Inr None else rbind (d j) (\<lambda>x. Inr (Some x)))"

fun dec_at :: "string list \<Rightarrow> (json \<Rightarrow> 'a result) \<Rightarrow> json \<Rightarrow> 'a result" where
  "dec_at [] d j = d j"
| "dec_at (n # ns) d j = rbind (dec_obj j) (\<lambda>fs. dec_at ns d (json_member fs n))"

fun dec_int64 :: "json \<Rightarrow> int result" where
  "dec_int64 JNull = Inr 0"
| "dec_int64 (JNum n) = (if - (2 ^ 63) \<le> n \<and> n < 2 ^ 63 then Inr n else Inl json_type_error)"
| "dec_int64 _ = Inl json_type_error"

section \<open>Maps\<close>

text \<open>
  A decoded map is a list of its entries with distinct keys: of equal members the last counts. A range over
  it visits the keys in the order \<open>ord\<close> chooses.
\<close>

type_synonym map_order = "string list \<Rightarrow> string list"

definition order_ok :: "map_order \<Rightarrow> bool" where
  "order_ok ord \<longleftrightarrow> (\<forall>ks. distinct ks \<longrightarrow> distinct (ord ks) \<and> set (ord ks) = set ks)"

fun last_wins :: "(string \<times> 'a) list \<Rightarrow> (string \<times> 'a) list" where
  "last_wins [] = []"
| "last_wins (kv # kvs) = (if fst kv \<in> fst ` set kvs then last_wins kvs else kv # last_wins kvs)"

definition dec_map :: "(json \<Rightarrow> 'a result) \<Rightarrow> json \<Rightarrow> (string \<times> 'a) list result" where
  "dec_map d j = rbind (dec_obj j) (\<lambda>fs.
     rbind (result_map (\<lambda>(k, v). rbind (d v) (\<lambda>x. Inr (k, x))) fs) (\<lambda>kvs. Inr (last_wins kvs)))"

definition visit :: "map_order \<Rightarrow> (string \<times> 'a) list \<Rightarrow> (string \<times> 'a) list" where
  "visit ord kvs = map (\<lambda>k. (k, the (map_of kvs k))) (ord (map fst kvs))"

section \<open>The parameters\<close>

record ProtocolParametersVersion =
  pv_Major :: u64
  pv_Minor :: u64

definition NewProtocolParametersVersion :: "u64 \<Rightarrow> u64 \<Rightarrow> ProtocolParametersVersion" where
  "NewProtocolParametersVersion major minor = \<lparr>pv_Major = major, pv_Minor = minor\<rparr>"

record ProtocolParametersMemorySteps =
  ms_Memory :: u64
  ms_Steps :: u64

definition NewProtocolParametersMemorySteps :: "u64 \<Rightarrow> u64 \<Rightarrow> ProtocolParametersMemorySteps" where
  "NewProtocolParametersMemorySteps memory steps = \<lparr>ms_Memory = memory, ms_Steps = steps\<rparr>"

record 'f ProtocolParametersPriceMemorySteps =
  ps_PriceMemory :: 'f
  ps_PriceSteps :: 'f

definition NewProtocolParametersPriceMemorySteps :: "'f \<Rightarrow> 'f \<Rightarrow> 'f ProtocolParametersPriceMemorySteps" where
  "NewProtocolParametersPriceMemorySteps memory steps = \<lparr>ps_PriceMemory = memory, ps_PriceSteps = steps\<rparr>"

record 'f VotingThresholds =
  vt_CommitteeNoConfidence :: 'f
  vt_CommitteeNormal :: 'f
  vt_HardForkInitiation :: 'f
  vt_MotionNoConfidence :: 'f
  vt_PPEconomicGroup :: 'f
  vt_PPGovGroup :: 'f
  vt_PPNetworkGroup :: 'f
  vt_PPTechnicalGroup :: 'f
  vt_TreasuryWithdrawal :: 'f
  vt_UpdateToConstitution :: 'f

record 'f PoolVotingThresholds =
  pt_CommitteeNoConfidence :: 'f
  pt_CommitteeNormal :: 'f
  pt_HardForkInitiation :: 'f
  pt_MotionNoConfidence :: 'f
  pt_PPSecurityGroup :: 'f

record 'f ProtocolParameters =
  pp_CostModels :: "string \<Rightarrow> int list option"
  pp_ProtocolVersion :: ProtocolParametersVersion
  pp_MaxBlockHeaderSize :: u64
  pp_MaxBlockBodySize :: u64
  pp_MaxTxSize :: u64
  pp_TxFeeFixed :: u64
  pp_TxFeePerByte :: u64
  pp_StakeAddressDeposit :: u64
  pp_StakePoolDeposit :: u64
  pp_MinPoolCost :: u64
  pp_PoolRetireMaxEpoch :: u64
  pp_StakePoolTargetNum :: u64
  pp_PoolPledgeInfluence :: 'f
  pp_MonetaryExpansion :: 'f
  pp_TreasuryCut :: 'f
  pp_CollateralPercentage :: u64
  pp_ExecutionUnitPrices :: "'f ProtocolParametersPriceMemorySteps"
  pp_UtxoCostPerByte :: u64
  pp_MaxTxExecutionUnits :: ProtocolParametersMemorySteps
  pp_MaxBlockExecutionUnits :: ProtocolParametersMemorySteps
  pp_MaxCollateralInputs :: u64
  pp_MaxValueSize :: u64
  pp_PoolVotingThresholds :: "'f PoolVotingThresholds option"
  pp_DRepVotingThresholds :: "'f VotingThresholds option"
  pp_DRepActivity :: "u64 option"
  pp_DRepDeposit :: "u64 option"
  pp_GovActionDeposit :: "u64 option"
  pp_GovActionLifetime :: "u64 option"
  pp_MinFeeRefScriptCostPerByte :: "'f option"
  pp_CommitteeMaxTermLength :: "u64 option"
  pp_CommitteeMinSize :: "u64 option"
  pp_ExtraPraosEntropy :: "u64 option"
  pp_Decentralization :: "u64 option"
  pp_MinUTxOValue :: "u64 option"

section \<open>The document\<close>

text \<open>Fields that may fail are marshalled in order; the first error is the error of the whole.\<close>

definition enc_ptr :: "('a \<Rightarrow> json result) \<Rightarrow> 'a option \<Rightarrow> json result" where
  "enc_ptr e x = (case x of None \<Rightarrow> Inr JNull | Some v \<Rightarrow> e v)"

definition enc_fields :: "(string \<times> json result) list \<Rightarrow> json result" where
  "enc_fields fs = rbind (result_map (\<lambda>(n, r). rbind r (\<lambda>j. Inr (n, j))) fs) (\<lambda>ms. Inr (JObj ms))"

definition enc_u64 :: "u64 \<Rightarrow> json result" where
  "enc_u64 w = Inr (enc_word w)"

definition enc_pool_thresholds :: "'f float_ops \<Rightarrow> 'f PoolVotingThresholds \<Rightarrow> json result" where
  "enc_pool_thresholds F t = enc_fields
     [(''committeeNoConfidence'', fo_json F (pt_CommitteeNoConfidence t)),
      (''committeeNormal'', fo_json F (pt_CommitteeNormal t)),
      (''hardForkInitiation'', fo_json F (pt_HardForkInitiation t)),
      (''motionNoConfidence'', fo_json F (pt_MotionNoConfidence t)),
      (''ppSecurityGroup'', fo_json F (pt_PPSecurityGroup t))]"

definition enc_thresholds :: "'f float_ops \<Rightarrow> 'f VotingThresholds \<Rightarrow> json result" where
  "enc_thresholds F t = enc_fields
     [(''committeeNoConfidence'', fo_json F (vt_CommitteeNoConfidence t)),
      (''committeeNormal'', fo_json F (vt_CommitteeNormal t)),
      (''hardForkInitiation'', fo_json F (vt_HardForkInitiation t)),
      (''motionNoConfidence'', fo_json F (vt_MotionNoConfidence t)),
      (''ppEconomicGroup'', fo_json F (vt_PPEconomicGroup t)),
      (''ppGovGroup'', fo_json F (vt_PPGovGroup t)),
      (''ppNetworkGroup'', fo_json F (vt_PPNetworkGroup t)),
      (''ppTechnicalGroup'', fo_json F (vt_PPTechnicalGroup t)),
      (''treasuryWithdrawal'', fo_json F (vt_TreasuryWithdrawal t)),
      (''updateToConstitution'', fo_json F (vt_UpdateToConstitution t))]"

definition enc_version :: "ProtocolParametersVersion \<Rightarrow> json result" where
  "enc_version v = enc_fields [(''major'', enc_u64 (pv_Major v)), (''minor'', enc_u64 (pv_Minor v))]"

definition enc_units :: "ProtocolParametersMemorySteps \<Rightarrow> json result" where
  "enc_units m = enc_fields [(''memory'', enc_u64 (ms_Memory m)), (''steps'', enc_u64 (ms_Steps m))]"

definition enc_prices :: "'f float_ops \<Rightarrow> 'f ProtocolParametersPriceMemorySteps \<Rightarrow> json result" where
  "enc_prices F p = enc_fields [(''priceMemory'', fo_json F (ps_PriceMemory p)), (''priceSteps'', fo_json F (ps_PriceSteps p))]"

text \<open>The keys of a map are sorted.\<close>

definition enc_cost_models :: "(string \<Rightarrow> int list option) \<Rightarrow> json result" where
  "enc_cost_models m = Inr (JObj (map (\<lambda>k. (utf8_sanitize k, JArr (map JNum (the (m k))))) (sorted_list_of_set (dom m))))"

definition params_Marshal :: "'f float_ops \<Rightarrow> 'f ProtocolParameters \<Rightarrow> json result" where
  "params_Marshal F p = enc_fields
     [(''costModels'', enc_cost_models (pp_CostModels p)),
      (''protocolVersion'', enc_version (pp_ProtocolVersion p)),
      (''maxBlockHeaderSize'', enc_u64 (pp_MaxBlockHeaderSize p)),
      (''maxBlockBodySize'', enc_u64 (pp_MaxBlockBodySize p)),
      (''maxTxSize'', enc_u64 (pp_MaxTxSize p)),
      (''txFeeFixed'', enc_u64 (pp_TxFeeFixed p)),
      (''txFeePerByte'', enc_u64 (pp_TxFeePerByte p)),
      (''stakeAddressDeposit'', enc_u64 (pp_StakeAddressDeposit p)),
      (''stakePoolDeposit'', enc_u64 (pp_StakePoolDeposit p)),
      (''minPoolCost'', enc_u64 (pp_MinPoolCost p)),
      (''poolRetireMaxEpoch'', enc_u64 (pp_PoolRetireMaxEpoch p)),
      (''stakePoolTargetNum'', enc_u64 (pp_StakePoolTargetNum p)),
      (''poolPledgeInfluence'', fo_json F (pp_PoolPledgeInfluence p)),
      (''monetaryExpansion'', fo_json F (pp_MonetaryExpansion p)),
      (''treasuryCut'', fo_json F (pp_TreasuryCut p)),
      (''collateralPercentage'', enc_u64 (pp_CollateralPercentage p)),
      (''executionUnitPrices'', enc_prices F (pp_ExecutionUnitPrices p)),
      (''utxoCostPerByte'', enc_u64 (pp_UtxoCostPerByte p)),
      (''maxTxExecutionUnits'', enc_units (pp_MaxTxExecutionUnits p)),
      (''maxBlockExecutionUnits'', enc_units (pp_MaxBlockExecutionUnits p)),
      (''maxCollateralInputs'', enc_u64 (pp_MaxCollateralInputs p)),
      (''maxValueSize'', enc_u64 (pp_MaxValueSize p)),
      (''poolVotingThresholds'', enc_ptr (enc_pool_thresholds F) (pp_PoolVotingThresholds p)),
      (''dRepVotingThresholds'', enc_ptr (enc_thresholds F) (pp_DRepVotingThresholds p)),
      (''dRepActivity'', enc_ptr enc_u64 (pp_DRepActivity p)),
      (''dRepDeposit'', enc_ptr enc_u64 (pp_DRepDeposit p)),
      (''govActionDeposit'', enc_ptr enc_u64 (pp_GovActionDeposit p)),
      (''govActionLifetime'', enc_ptr enc_u64 (pp_GovActionLifetime p)),
      (''minFeeRefScriptCostPerByte'', enc_ptr (fo_json F) (pp_MinFeeRefScriptCostPerByte p)),
      (''committeeMaxTermLength'', enc_ptr enc_u64 (pp_CommitteeMaxTermLength p)),
      (''committeeMinSize'', enc_ptr enc_u64 (pp_CommitteeMinSize p)),
      (''extraPraosEntropy'', enc_ptr enc_u64 (pp_ExtraPraosEntropy p)),
      (''decentralization'', enc_ptr enc_u64 (pp_Decentralization p)),
      (''minUTxOValue'', enc_ptr enc_u64 (pp_MinUTxOValue p))]"

end
