(* ===== verification/Provider_Gouroboros.thy ===== *)
theory Provider_Gouroboros
  imports Provider_Data Protocol_Parameters Address
begin

text \<open>
  The provider that talks to a node itself (\<open>wallet/txprovider_gouroboros.go\<close>). Requests share one connection,
  made by the first of them and forgotten by the goroutine \<open>loop\<close> when the connection reports an error. The
  client of the node is the record \<open>gouroboros\<close> of operations on a world \<open>'w\<close>; a connection is a value of
  \<open>'c\<close>. First come the operations as they run alone, then the goroutines and their steps.
\<close>

section \<open>Configuration\<close>

text \<open>The logger is left out; a duration is a number of nanoseconds.\<close>

record txProviderGoUroBorosConfig =
  gc_networkMagic :: u32
  gc_socketPath :: string
  gc_keepAlive :: bool
  gc_txSubmitTimeout :: int
  gc_acquireTimeout :: int

type_synonym TxProviderGoUroBorosOption = "txProviderGoUroBorosConfig \<Rightarrow> txProviderGoUroBorosConfig"

definition WithTxProviderGoUroBorosKeepAlive :: "bool \<Rightarrow> TxProviderGoUroBorosOption" where
  "WithTxProviderGoUroBorosKeepAlive keepAlive c = c\<lparr>gc_keepAlive := keepAlive\<rparr>"

definition WithTxProviderGoUroBorosTxSubmitTimeout :: "int \<Rightarrow> TxProviderGoUroBorosOption" where
  "WithTxProviderGoUroBorosTxSubmitTimeout txSubmitTimeout c = c\<lparr>gc_txSubmitTimeout := txSubmitTimeout\<rparr>"

definition WithTxProviderGoUroBorosAcquireTimeout :: "int \<Rightarrow> TxProviderGoUroBorosOption" where
  "WithTxProviderGoUroBorosAcquireTimeout acquireTimeout c = c\<lparr>gc_acquireTimeout := acquireTimeout\<rparr>"

section \<open>The provider\<close>

text \<open>
  A channel is a number, \<open>tg_made\<close> the number of the next one; \<open>None\<close> is the nil channel. Instants count
  nanoseconds from 1970, so the zero time is far below zero, and the difference of two is capped.
\<close>

record 'c TxProviderGoUroBoros =
  tg_config :: txProviderGoUroBorosConfig
  tg_connection :: "'c option"
  tg_closed :: bool
  tg_errChan :: "nat option"
  tg_lastAcquiredTime :: int
  tg_made :: nat

definition zero_time :: int where
  "zero_time = - 62135596800 * 10 ^ 9"

definition time_Sub :: "int \<Rightarrow> int \<Rightarrow> int" where
  "time_Sub t u = max (- (2 ^ 63)) (min (2 ^ 63 - 1) (t - u))"

definition NewTxProviderGoUroBoros :: "u32 \<Rightarrow> string \<Rightarrow> TxProviderGoUroBorosOption list \<Rightarrow> 'c TxProviderGoUroBoros" where
  "NewTxProviderGoUroBoros networkMagic socketPath options =
     \<lparr>tg_config = fold (\<lambda>op config. op config) options
        \<lparr>gc_networkMagic = networkMagic, gc_socketPath = socketPath, gc_keepAlive = True,
         gc_txSubmitTimeout = 5 * 10 ^ 9, gc_acquireTimeout = 2 * 10 ^ 9\<rparr>,
      tg_connection = None, tg_closed = False, tg_errChan = None, tg_lastAcquiredTime = zero_time, tg_made = 0\<rparr>"

section \<open>The client of the node\<close>

record 'r PoolThresholds =
  gt_CommitteeNoConfidence :: 'r
  gt_CommitteeNormal :: 'r
  gt_HardForkInitiation :: 'r
  gt_MotionNoConfidence :: 'r
  gt_PpSecurityGroup :: 'r

record 'r DRepThresholds =
  gd_CommitteeNoConfidence :: 'r
  gd_CommitteeNormal :: 'r
  gd_HardForkInitiation :: 'r
  gd_MotionNoConfidence :: 'r
  gd_PpEconomicGroup :: 'r
  gd_PpGovGroup :: 'r
  gd_PpNetworkGroup :: 'r
  gd_PpTechnicalGroup :: 'r
  gd_TreasuryWithdrawal :: 'r
  gd_UpdateToConstitution :: 'r

text \<open>
  The parameters of Babbage, those of Conway, and anything else. Rationals are of type \<open>'r\<close>; the cost models
  are listed in the order in which the range visits them.
\<close>

record 'r BabbageProtocolParameters =
  lb_Major :: u64
  lb_Minor :: u64
  lb_MaxBlockHeaderSize :: u64
  lb_MaxBlockBodySize :: u64
  lb_MaxTxSize :: u64
  lb_MinFeeB :: u64
  lb_MinFeeA :: u64
  lb_KeyDeposit :: u64
  lb_PoolDeposit :: u64
  lb_MinPoolCost :: u64
  lb_MaxEpoch :: u64
  lb_NOpt :: u64
  lb_A0 :: 'r
  lb_Rho :: 'r
  lb_Tau :: 'r
  lb_CollateralPercentage :: u64
  lb_MemPrice :: 'r
  lb_StepPrice :: 'r
  lb_AdaPerUtxoByte :: u64
  lb_TxMem :: u64
  lb_TxSteps :: u64
  lb_BlockMem :: u64
  lb_BlockSteps :: u64
  lb_MaxCollateralInputs :: u64
  lb_MaxValueSize :: u64
  lb_CostModels :: "(u64 \<times> int list) list"

record 'r ConwayProtocolParameters = "'r BabbageProtocolParameters" +
  lc_PoolVotingThresholds :: "'r PoolThresholds"
  lc_DRepVotingThresholds :: "'r DRepThresholds"
  lc_DRepInactivityPeriod :: u64
  lc_DRepDeposit :: u64
  lc_GovActionDeposit :: u64
  lc_GovActionValidityPeriod :: u64
  lc_MinFeeRefScriptCostPerByte :: 'r
  lc_CommitteeTermLimit :: u64
  lc_MinCommitteeSize :: u64

datatype 'r CurrentProtocolParams =
    Conway "'r ConwayProtocolParameters"
  | Babbage "'r BabbageProtocolParameters"
  | OtherParams

text \<open>An unspent output: its id, its lovelace, and its assets by policy unless they are nil.\<close>

record ledger_output =
  lo_Hash :: bytes
  lo_Idx :: int
  lo_Amount :: u64
  lo_Assets :: "(bytes \<times> (bytes \<times> u64) list) list option"

record ('c, 'a, 'r, 'w) gouroboros =
  gb_NewConnection :: "u32 \<Rightarrow> bool \<Rightarrow> int \<Rightarrow> nat \<Rightarrow> 'w \<Rightarrow> 'c result \<times> 'w"
  gb_Dial :: "'c \<Rightarrow> string \<Rightarrow> string \<Rightarrow> 'w \<Rightarrow> goerror option \<times> 'w"
  gb_Acquire :: "'c \<Rightarrow> 'w \<Rightarrow> goerror option \<times> 'w"
  gb_GetCurrentProtocolParams :: "'c \<Rightarrow> 'w \<Rightarrow> 'r CurrentProtocolParams result \<times> 'w"
  gb_GetUTxOByAddress :: "'c \<Rightarrow> 'a list \<Rightarrow> 'w \<Rightarrow> ledger_output list result \<times> 'w"
  gb_GetChainBlockNo :: "'c \<Rightarrow> 'w \<Rightarrow> int result \<times> 'w"
  gb_GetChainPoint :: "'c \<Rightarrow> 'w \<Rightarrow> (u64 \<times> bytes) result \<times> 'w"
  gb_GetEpochNo :: "'c \<Rightarrow> 'w \<Rightarrow> int result \<times> 'w"
  gb_SubmitTx :: "'c \<Rightarrow> 16 word \<Rightarrow> bytes \<Rightarrow> 'w \<Rightarrow> goerror option \<times> 'w"
  gb_Close :: "'c \<Rightarrow> 'w \<Rightarrow> 'w"
  gb_DetermineTransactionType :: "bytes \<Rightarrow> u64 result"
  gb_Address :: "bytes \<Rightarrow> 'a result"

section \<open>Connections\<close>

definition createGoUroBorosConnection ::
  "('c, 'a, 'r, 'w) gouroboros \<Rightarrow> u32 \<Rightarrow> string \<Rightarrow> bool \<Rightarrow> int \<Rightarrow> nat \<Rightarrow> 'w \<Rightarrow> 'c result \<times> 'w" where
  "createGoUroBorosConnection N networkMagic socketPath keepAlive txSubmitTimeout errChan w =
     (case gb_NewConnection N networkMagic keepAlive txSubmitTimeout errChan w of
        (Inl err, w) \<Rightarrow> (Inl err, w)
      | (Inr connection, w) \<Rightarrow>
          (case gb_Dial N connection ''unix'' socketPath w of
             (Some err, w) \<Rightarrow> (Inl err, w)
           | (None, w) \<Rightarrow> (Inr connection, w)))"

text \<open>Under the lock. The channel is new even when the connection then fails.\<close>

definition getConnection ::
  "('c, 'a, 'r, 'w) gouroboros \<Rightarrow> 'c TxProviderGoUroBoros \<Rightarrow> 'w \<Rightarrow> 'c result \<times> 'c TxProviderGoUroBoros \<times> 'w" where
  "getConnection N b w =
     (case tg_connection b of
        Some conn \<Rightarrow> (Inr conn, b, w)
      | None \<Rightarrow>
          let errChan = tg_made b; b = b\<lparr>tg_errChan := Some errChan, tg_made := errChan + 1\<rparr> in
          (case createGoUroBorosConnection N (gc_networkMagic (tg_config b)) (gc_socketPath (tg_config b))
              (gc_keepAlive (tg_config b)) (gc_txSubmitTimeout (tg_config b)) errChan w of
             (Inl err, w) \<Rightarrow> (Inl (ErrWrap ''failed to retrieve connection: '' err ''''), b, w)
           | (Inr conn, w) \<Rightarrow> (Inr conn, b\<lparr>tg_connection := Some conn\<rparr>, w)))"

text \<open>
  \<open>acquire\<close> in two parts: the decision under the lock, at the time \<open>now\<close>, and the call on the connection the
  provider has then, which panics (\<open>None\<close>) when there is none.
\<close>

definition acquire_decide :: "int \<Rightarrow> 'c TxProviderGoUroBoros \<Rightarrow> bool \<times> 'c TxProviderGoUroBoros" where
  "acquire_decide now b =
     (let isTimeOut = (gc_acquireTimeout (tg_config b) = 0 \<or>
            time_Sub now (tg_lastAcquiredTime b) > gc_acquireTimeout (tg_config b)) in
      (isTimeOut, if isTimeOut then b\<lparr>tg_lastAcquiredTime := now\<rparr> else b))"

definition acquire_point :: "('c, 'a, 'r, 'w) gouroboros \<Rightarrow> 'c TxProviderGoUroBoros \<Rightarrow> 'w \<Rightarrow> (goerror option \<times> 'w) option" where
  "acquire_point N b w = map_option (\<lambda>conn. gb_Acquire N conn w) (tg_connection b)"

definition acquire ::
  "('c, 'a, 'r, 'w) gouroboros \<Rightarrow> int \<Rightarrow> 'c TxProviderGoUroBoros \<Rightarrow> 'w \<Rightarrow> (goerror option \<times> 'c TxProviderGoUroBoros \<times> 'w) option" where
  "acquire N now b w =
     (case acquire_decide now b of (isTimeOut, b) \<Rightarrow>
        if isTimeOut then map_option (\<lambda>(err, w). (err, b, w)) (acquire_point N b w) else Some (None, b, w))"

section \<open>Requests\<close>

text \<open>What the three queries begin with: the connection, then a point; \<open>k\<close> is the rest.\<close>

definition with_point ::
  "('c, 'a, 'r, 'w) gouroboros \<Rightarrow> int \<Rightarrow> ('c \<Rightarrow> 'w \<Rightarrow> ('x result \<times> 'w) option) \<Rightarrow> 'c TxProviderGoUroBoros \<Rightarrow> 'w \<Rightarrow>
    ('x result \<times> 'c TxProviderGoUroBoros \<times> 'w) option" where
  "with_point N now k b w =
     (case getConnection N b w of
        (Inl err, b, w) \<Rightarrow> Some (Inl err, b, w)
      | (Inr conn, b, w) \<Rightarrow>
          (case acquire N now b w of
             None \<Rightarrow> None
           | Some (Some err, b, w) \<Rightarrow> Some (Inl err, b, w)
           | Some (None, b, w) \<Rightarrow> map_option (\<lambda>(r, w). (r, b, w)) (k conn w)))"

definition query_tip :: "('c, 'a, 'r, 'w) gouroboros \<Rightarrow> 'c \<Rightarrow> 'w \<Rightarrow> QueryTipData result \<times> 'w" where
  "query_tip N conn w =
     (case gb_GetChainBlockNo N conn w of
        (Inl err, w) \<Rightarrow> (Inl err, w)
      | (Inr blockNum, w) \<Rightarrow>
          (case gb_GetChainPoint N conn w of
             (Inl err, w) \<Rightarrow> (Inl err, w)
           | (Inr (slot, hash), w) \<Rightarrow>
               (case gb_GetEpochNo N conn w of
                  (Inl err, w) \<Rightarrow> (Inl err, w)
                | (Inr epochNo, w) \<Rightarrow>
                    (Inr \<lparr>qt_Block = word_of_int blockNum, qt_Epoch = word_of_int epochNo, qt_Era = '''', qt_Hash = hex_encode hash,
                       qt_Slot = slot, qt_SlotInEpoch = 0, qt_SlotsToEpochEnd = 0, qt_SyncProgress = ''''\<rparr>, w))))"

definition gu_GetTip ::
  "('c, 'a, 'r, 'w) gouroboros \<Rightarrow> int \<Rightarrow> 'c TxProviderGoUroBoros \<Rightarrow> 'w \<Rightarrow> (QueryTipData result \<times> 'c TxProviderGoUroBoros \<times> 'w) option" where
  "gu_GetTip N now = with_point N now (\<lambda>conn w. Some (query_tip N conn w))"

text \<open>\<open>None\<close> as for the text of an address.\<close>

definition getLedgerAddress :: "byron_prims \<Rightarrow> ('c, 'a, 'r, 'w) gouroboros \<Rightarrow> string \<Rightarrow> 'a result option" where
  "getLedgerAddress bp N raw = map_option (\<lambda>r. rbind r (\<lambda>addrBase. gb_Address N (GetBytes addrBase))) (NewCardanoAddressFromString bp raw)"

definition gu_tokens :: "(bytes \<times> (bytes \<times> u64) list) list \<Rightarrow> TokenAmount list" where
  "gu_tokens assets = concat (map (\<lambda>(policyIDRaw, names).
     map (\<lambda>(asset, amount). \<lparr>ta_Token = NewToken (hex_encode policyIDRaw) (bytes_str asset), ta_Amount = amount\<rparr>) names) assets)"

definition gu_utxo :: "ledger_output \<Rightarrow> Utxo" where
  "gu_utxo val = \<lparr>ut_Hash = hex_encode (lo_Hash val), ut_Index = word_of_int (lo_Idx val), ut_Amount = lo_Amount val,
     ut_Tokens = (case lo_Assets val of None \<Rightarrow> [] | Some assets \<Rightarrow> gu_tokens assets)\<rparr>"

definition gu_GetUtxos ::
  "byron_prims \<Rightarrow> ('c, 'a, 'r, 'w) gouroboros \<Rightarrow> int \<Rightarrow> string \<Rightarrow> 'c TxProviderGoUroBoros \<Rightarrow> 'w \<Rightarrow>
    (Utxo list result \<times> 'c TxProviderGoUroBoros \<times> 'w) option" where
  "gu_GetUtxos bp N now addr = with_point N now (\<lambda>conn w.
     case getLedgerAddress bp N addr of
       None \<Rightarrow> None
     | Some (Inl err) \<Rightarrow> Some (Inl err, w)
     | Some (Inr address) \<Rightarrow>
         (case gb_GetUTxOByAddress N conn [address] w of
            (Inl err, w) \<Rightarrow> Some (Inl err, w)
          | (Inr results, w) \<Rightarrow> Some (Inr (map gu_utxo results), w)))"

definition gu_SubmitTx ::
  "('c, 'a, 'r, 'w) gouroboros \<Rightarrow> bytes \<Rightarrow> 'c TxProviderGoUroBoros \<Rightarrow> 'w \<Rightarrow> goerror option \<times> 'c TxProviderGoUroBoros \<times> 'w" where
  "gu_SubmitTx N txSigned b w =
     (case gb_DetermineTransactionType N txSigned of
        Inl err \<Rightarrow> (Some (ErrWrap ''could not parse transaction to determine type: '' err ''''), b, w)
      | Inr txType \<Rightarrow>
          (case getConnection N b w of
             (Inl err, b, w) \<Rightarrow> (Some err, b, w)
           | (Inr conn, b, w) \<Rightarrow> (case gb_SubmitTx N conn (ucast txType) txSigned w of (err, w) \<Rightarrow> (err, b, w))))"

definition gu_GetTxByHash :: "'c TxProviderGoUroBoros \<Rightarrow> string \<Rightarrow> (string \<times> json) list result option" where
  "gu_GetTxByHash b hash = None"

text \<open>Closing the channel twice panics.\<close>

definition gu_Dispose :: "('c, 'a, 'r, 'w) gouroboros \<Rightarrow> 'c TxProviderGoUroBoros \<Rightarrow> 'w \<Rightarrow> ('c TxProviderGoUroBoros \<times> 'w) option" where
  "gu_Dispose N b w =
     (if tg_closed b then None
      else Some (b\<lparr>tg_closed := True\<rparr>, case tg_connection b of None \<Rightarrow> w | Some conn \<Rightarrow> gb_Close N conn w))"

section \<open>Protocol parameters\<close>

text \<open>\<open>fl\<close> is \<open>Float64\<close> of a rational.\<close>

definition gu_pool :: "('r \<Rightarrow> 'f) \<Rightarrow> 'r PoolThresholds \<Rightarrow> 'f PoolVotingThresholds" where
  "gu_pool fl t = \<lparr>pt_CommitteeNoConfidence = fl (gt_CommitteeNoConfidence t), pt_CommitteeNormal = fl (gt_CommitteeNormal t),
     pt_HardForkInitiation = fl (gt_HardForkInitiation t), pt_MotionNoConfidence = fl (gt_MotionNoConfidence t),
     pt_PPSecurityGroup = fl (gt_PpSecurityGroup t)\<rparr>"

definition gu_drep :: "('r \<Rightarrow> 'f) \<Rightarrow> 'r DRepThresholds \<Rightarrow> 'f VotingThresholds" where
  "gu_drep fl t = \<lparr>vt_CommitteeNoConfidence = fl (gd_CommitteeNoConfidence t), vt_CommitteeNormal = fl (gd_CommitteeNormal t),
     vt_HardForkInitiation = fl (gd_HardForkInitiation t), vt_MotionNoConfidence = fl (gd_MotionNoConfidence t),
     vt_PPEconomicGroup = fl (gd_PpEconomicGroup t), vt_PPGovGroup = fl (gd_PpGovGroup t),
     vt_PPNetworkGroup = fl (gd_PpNetworkGroup t), vt_PPTechnicalGroup = fl (gd_PpTechnicalGroup t),
     vt_TreasuryWithdrawal = fl (gd_TreasuryWithdrawal t), vt_UpdateToConstitution = fl (gd_UpdateToConstitution t)\<rparr>"

fun gu_models :: "(u64 \<times> int list) list \<Rightarrow> (string \<Rightarrow> int list option) \<Rightarrow> (string \<Rightarrow> int list option)" where
  "gu_models [] m = m"
| "gu_models ((scriptIndx, values) # rest) m = gu_models rest (m(''PlutusV'' @ itoa64 (scriptIndx + 1) \<mapsto> values))"

text \<open>The fields the two eras share.\<close>

definition gu_babbage :: "('r \<Rightarrow> 'f) \<Rightarrow> 'r BabbageProtocolParameters \<Rightarrow> 'f ProtocolParameters" where
  "gu_babbage fl p = \<lparr>pp_CostModels = gu_models (lb_CostModels p) Map.empty,
     pp_ProtocolVersion = NewProtocolParametersVersion (lb_Major p) (lb_Minor p),
     pp_MaxBlockHeaderSize = lb_MaxBlockHeaderSize p, pp_MaxBlockBodySize = lb_MaxBlockBodySize p, pp_MaxTxSize = lb_MaxTxSize p,
     pp_TxFeeFixed = lb_MinFeeB p, pp_TxFeePerByte = lb_MinFeeA p, pp_StakeAddressDeposit = lb_KeyDeposit p,
     pp_StakePoolDeposit = lb_PoolDeposit p, pp_MinPoolCost = lb_MinPoolCost p, pp_PoolRetireMaxEpoch = lb_MaxEpoch p,
     pp_StakePoolTargetNum = lb_NOpt p, pp_PoolPledgeInfluence = fl (lb_A0 p), pp_MonetaryExpansion = fl (lb_Rho p),
     pp_TreasuryCut = fl (lb_Tau p), pp_CollateralPercentage = lb_CollateralPercentage p,
     pp_ExecutionUnitPrices = NewProtocolParametersPriceMemorySteps (fl (lb_MemPrice p)) (fl (lb_StepPrice p)),
     pp_UtxoCostPerByte = lb_AdaPerUtxoByte p,
     pp_MaxTxExecutionUnits = NewProtocolParametersMemorySteps (lb_TxMem p) (lb_TxSteps p),
     pp_MaxBlockExecutionUnits = NewProtocolParametersMemorySteps (lb_BlockMem p) (lb_BlockSteps p),
     pp_MaxCollateralInputs = lb_MaxCollateralInputs p, pp_MaxValueSize = lb_MaxValueSize p,
     pp_PoolVotingThresholds = None, pp_DRepVotingThresholds = None, pp_DRepActivity = None, pp_DRepDeposit = None,
     pp_GovActionDeposit = None, pp_GovActionLifetime = None, pp_MinFeeRefScriptCostPerByte = None,
     pp_CommitteeMaxTermLength = None, pp_CommitteeMinSize = None, pp_ExtraPraosEntropy = None,
     pp_Decentralization = None, pp_MinUTxOValue = None\<rparr>"

text \<open>Of Conway, a model without values is left out; of Babbage, it is not.\<close>

definition gu_conway :: "('r \<Rightarrow> 'f) \<Rightarrow> 'r ConwayProtocolParameters \<Rightarrow> 'f ProtocolParameters" where
  "gu_conway fl p = (gu_babbage fl (BabbageProtocolParameters.truncate p))\<lparr>
     pp_CostModels := gu_models (filter (\<lambda>(_, values). length values > 0) (lb_CostModels p)) Map.empty,
     pp_PoolVotingThresholds := Some (gu_pool fl (lc_PoolVotingThresholds p)),
     pp_DRepVotingThresholds := Some (gu_drep fl (lc_DRepVotingThresholds p)),
     pp_DRepActivity := Some (lc_DRepInactivityPeriod p), pp_DRepDeposit := Some (lc_DRepDeposit p),
     pp_GovActionDeposit := Some (lc_GovActionDeposit p), pp_GovActionLifetime := Some (lc_GovActionValidityPeriod p),
     pp_MinFeeRefScriptCostPerByte := Some (fl (lc_MinFeeRefScriptCostPerByte p)),
     pp_CommitteeMaxTermLength := Some (lc_CommitteeTermLimit p), pp_CommitteeMinSize := Some (lc_MinCommitteeSize p)\<rparr>"

definition convertUroBorosProtocolParameters :: "'f float_ops \<Rightarrow> ('r \<Rightarrow> 'f) \<Rightarrow> 'r CurrentProtocolParams \<Rightarrow> json result" where
  "convertUroBorosProtocolParameters F fl ps =
     (case ps of
        Conway gupp \<Rightarrow> params_Marshal F (gu_conway fl gupp)
      | Babbage gupp \<Rightarrow> params_Marshal F (gu_babbage fl gupp)
      | OtherParams \<Rightarrow> Inl (ErrMsg ''invalid current protocol parameters''))"

definition gu_GetProtocolParameters ::
  "'f float_ops \<Rightarrow> ('r \<Rightarrow> 'f) \<Rightarrow> ('c, 'a, 'r, 'w) gouroboros \<Rightarrow> int \<Rightarrow> 'c TxProviderGoUroBoros \<Rightarrow> 'w \<Rightarrow>
    (json result \<times> 'c TxProviderGoUroBoros \<times> 'w) option" where
  "gu_GetProtocolParameters F fl N now = with_point N now (\<lambda>conn w.
     case gb_GetCurrentProtocolParams N conn w of
       (Inl err, w) \<Rightarrow> Some (Inl err, w)
     | (Inr protParams, w) \<Rightarrow> Some (convertUroBorosProtocolParameters F fl protParams, w))"

section \<open>Goroutines\<close>

text \<open>
  The goroutine \<open>loop\<close>: before its \<open>select\<close>, which reads the channel to wait on; waiting on that channel;
  before the assignment of nil; ended. A request: not begun, with its connection and before \<open>acquire\<close>, with
  the decision that a point is needed, and with its point.
\<close>

datatype loop_pc = LoopSelect | LoopWait "nat option" | LoopReset | LoopDone

datatype 'c call_pc = CallStart | CallConnected 'c | CallPoint 'c | CallQuery 'c

text \<open>
  \<open>gy_sending\<close>: the channels on which a connection offers its error; \<open>gy_shut\<close>: the closed ones.
\<close>

record ('c, 'w) gu_system =
  gy_provider :: "'c TxProviderGoUroBoros"
  gy_world :: 'w
  gy_loop :: loop_pc
  gy_calls :: "nat \<Rightarrow> 'c call_pc"
  gy_sending :: "nat set"
  gy_shut :: "nat set"

definition gu_start :: "'c TxProviderGoUroBoros \<Rightarrow> 'w \<Rightarrow> ('c, 'w) gu_system" where
  "gu_start b w = \<lparr>gy_provider = b, gy_world = w, gy_loop = LoopSelect, gy_calls = (\<lambda>i. CallStart), gy_sending = {}, gy_shut = {}\<rparr>"

definition loop_forget :: "'c TxProviderGoUroBoros \<Rightarrow> 'c TxProviderGoUroBoros" where
  "loop_forget b = b\<lparr>tg_connection := None\<rparr>"

text \<open>The steps of the goroutine.\<close>

inductive loop_step :: "('c, 'w) gu_system \<Rightarrow> ('c, 'w) gu_system \<Rightarrow> bool" where
  loop_select: "gy_loop s = LoopSelect \<Longrightarrow> loop_step s (s\<lparr>gy_loop := LoopWait (tg_errChan (gy_provider s))\<rparr>)"
| loop_close: "gy_loop s = LoopWait ch \<Longrightarrow> tg_closed (gy_provider s) \<Longrightarrow> loop_step s (s\<lparr>gy_loop := LoopDone\<rparr>)"
| loop_receive: "gy_loop s = LoopWait (Some ch) \<Longrightarrow> ch \<in> gy_sending s \<Longrightarrow>
    loop_step s (s\<lparr>gy_loop := LoopReset, gy_sending := gy_sending s - {ch}\<rparr>)"
| loop_receive_shut: "gy_loop s = LoopWait (Some ch) \<Longrightarrow> ch \<in> gy_shut s \<Longrightarrow> loop_step s (s\<lparr>gy_loop := LoopReset\<rparr>)"
| loop_reset: "gy_loop s = LoopReset \<Longrightarrow>
    loop_step s (s\<lparr>gy_provider := loop_forget (gy_provider s), gy_loop := LoopSelect\<rparr>)"

text \<open>
  The steps of the requests, of \<open>Dispose\<close> and of the node: a connection offers its error, a channel is closed,
  and the world changes.
\<close>

inductive call_step :: "('c, 'a, 'r, 'w) gouroboros \<Rightarrow> ('c, 'w) gu_system \<Rightarrow> ('c, 'w) gu_system \<Rightarrow> bool" for N where
  call_connect: "gy_calls s i = CallStart \<Longrightarrow> getConnection N (gy_provider s) (gy_world s) = (r, b, w) \<Longrightarrow>
    call_step N s (s\<lparr>gy_provider := b, gy_world := w,
      gy_calls := (gy_calls s)(i := case r of Inl _ \<Rightarrow> CallStart | Inr conn \<Rightarrow> CallConnected conn)\<rparr>)"
| call_submit: "gy_calls s i = CallConnected conn \<Longrightarrow>
    call_step N s (s\<lparr>gy_world := w, gy_calls := (gy_calls s)(i := CallStart)\<rparr>)"
| call_acquire: "gy_calls s i = CallConnected conn \<Longrightarrow> acquire_decide now (gy_provider s) = (isTimeOut, b) \<Longrightarrow>
    call_step N s (s\<lparr>gy_provider := b, gy_calls := (gy_calls s)(i := if isTimeOut then CallPoint conn else CallQuery conn)\<rparr>)"
| call_point: "gy_calls s i = CallPoint conn \<Longrightarrow> acquire_point N (gy_provider s) (gy_world s) = Some (err, w) \<Longrightarrow>
    call_step N s (s\<lparr>gy_world := w, gy_calls := (gy_calls s)(i := if err = None then CallQuery conn else CallStart)\<rparr>)"
| call_query: "gy_calls s i = CallQuery conn \<Longrightarrow>
    call_step N s (s\<lparr>gy_world := w, gy_calls := (gy_calls s)(i := CallStart)\<rparr>)"
| call_dispose: "gu_Dispose N (gy_provider s) (gy_world s) = Some (b, w) \<Longrightarrow>
    call_step N s (s\<lparr>gy_provider := b, gy_world := w\<rparr>)"
| node_error: "ch < tg_made (gy_provider s) \<Longrightarrow> ch \<notin> gy_shut s \<Longrightarrow> call_step N s (s\<lparr>gy_sending := insert ch (gy_sending s)\<rparr>)"
| node_close: "ch < tg_made (gy_provider s) \<Longrightarrow> ch \<notin> gy_sending s \<Longrightarrow> call_step N s (s\<lparr>gy_shut := insert ch (gy_shut s)\<rparr>)"
| node_moves: "call_step N s (s\<lparr>gy_world := w\<rparr>)"

definition gu_step :: "('c, 'a, 'r, 'w) gouroboros \<Rightarrow> ('c, 'w) gu_system \<Rightarrow> ('c, 'w) gu_system \<Rightarrow> bool" where
  "gu_step N s s' \<longleftrightarrow> loop_step s s' \<or> call_step N s s'"

abbreviation gu_steps :: "('c, 'a, 'r, 'w) gouroboros \<Rightarrow> ('c, 'w) gu_system \<Rightarrow> ('c, 'w) gu_system \<Rightarrow> bool" where
  "gu_steps N \<equiv> (gu_step N)\<^sup>*\<^sup>*"

text \<open>The request that needs a point and finds no connection panics.\<close>

definition call_panics :: "('c, 'a, 'r, 'w) gouroboros \<Rightarrow> ('c, 'w) gu_system \<Rightarrow> nat \<Rightarrow> bool" where
  "call_panics N s i \<longleftrightarrow> (\<exists>conn. gy_calls s i = CallPoint conn) \<and> acquire_point N (gy_provider s) (gy_world s) = None"

inductive_simps loop_step_simps: "loop_step s s'"

end
