(* ===== verification/Provider_Blockfrost.thy ===== *)
theory Provider_Blockfrost
  imports Protocol_Parameters
begin

text \<open>
  The providers behind a REST interface of Blockfrost: \<open>wallet/txprovider_blockfrost.go\<close> and
  \<open>wallet/txprovider_demeter.go\<close>, with the requests and responses of \<open>net/http\<close>. The server is the function
  \<open>he_Do\<close>.
\<close>

section \<open>HTTP\<close>

datatype http_body = NoBody | BodyJson json | BodyBytes bytes

record http_request =
  rq_Method :: string
  rq_URL :: string
  rq_Header :: "(string \<times> string) list"
  rq_Body :: http_body

text \<open>The text of a body may fail to arrive.\<close>

record http_response =
  rp_StatusCode :: int
  rp_Text :: "string result"

text \<open>
  \<open>he_New\<close>: the error of \<open>http.NewRequestWithContext\<close>; \<open>he_json\<close>: the document that is a whole text;
  \<open>he_first\<close>: the first document of a text, as a \<open>Decoder\<close> reads it; \<open>he_fmt\<close>: the \<open>%s\<close> verb on a value that
  is no string.
\<close>

record http_env =
  he_New :: "string \<Rightarrow> string \<Rightarrow> goerror option"
  he_Do :: "http_request \<Rightarrow> http_response result"
  he_json :: "string \<Rightarrow> json option"
  he_first :: "string \<Rightarrow> json option"
  he_fmt :: "json \<Rightarrow> string"

definition StatusOK :: int where "StatusOK = 200"
definition StatusAccepted :: int where "StatusAccepted = 202"
definition StatusNotFound :: int where "StatusNotFound = 404"

definition http_do :: "http_env \<Rightarrow> http_request \<Rightarrow> http_response result" where
  "http_do E req =
     (case he_New E (rq_Method req) (rq_URL req) of
        Some err \<Rightarrow> Inl err
      | None \<Rightarrow> he_Do E req)"

definition decode_body :: "http_env \<Rightarrow> http_response \<Rightarrow> (json \<Rightarrow> 'a result) \<Rightarrow> 'a result" where
  "decode_body E resp dec = rbind (rp_Text resp) (\<lambda>t. case he_first E t of None \<Rightarrow> Inl json_syntax_error | Some j \<Rightarrow> dec j)"

definition unmarshal_body :: "http_env \<Rightarrow> http_response \<Rightarrow> (json \<Rightarrow> 'a result) \<Rightarrow> 'a result" where
  "unmarshal_body E resp dec = rbind (rp_Text resp) (\<lambda>t. case he_json E t of None \<Rightarrow> Inl json_syntax_error | Some j \<Rightarrow> dec j)"

section \<open>Blockfrost\<close>

definition blockfrostAuthHeaderKey :: string where "blockfrostAuthHeaderKey = ''project_id''"

record TxProviderBlockFrost =
  tb_url :: string
  tb_projectID :: string
  tb_authHeaderKey :: string

definition NewTxProviderBlockFrost :: "string \<Rightarrow> string \<Rightarrow> TxProviderBlockFrost" where
  "NewTxProviderBlockFrost url projectID = \<lparr>tb_url = url, tb_projectID = projectID, tb_authHeaderKey = blockfrostAuthHeaderKey\<rparr>"

text \<open>The message of an error response; an object without one prints the nil value.\<close>

definition status_text :: "int \<Rightarrow> string" where
  "status_text code = ''status code '' @ itoa_int code"

definition getErrorFromResponse :: "http_env \<Rightarrow> http_response \<Rightarrow> goerror" where
  "getErrorFromResponse E resp =
     (case decode_body E resp dec_obj of
        Inl _ \<Rightarrow> ErrMsg (status_text (rp_StatusCode resp))
      | Inr bfResponse \<Rightarrow> ErrMsg (status_text (rp_StatusCode resp) @ '': '' @
          (case json_member bfResponse ''message'' of JStr s \<Rightarrow> s | v \<Rightarrow> he_fmt E v)))"

definition bf_get :: "TxProviderBlockFrost \<Rightarrow> string \<Rightarrow> http_request" where
  "bf_get b path = \<lparr>rq_Method = ''GET'', rq_URL = tb_url b @ path,
     rq_Header = [(''Content-Type'', ''application/cbor''), (tb_authHeaderKey b, tb_projectID b)], rq_Body = NoBody\<rparr>"

record blockFrostQueryUtxoResponse =
  bu_Address :: string
  bu_Hash :: string
  bu_Index :: u32
  bu_OutputIndex :: u32
  bu_Amount :: "(string \<times> string) list"

definition dec_bf_amount :: "json \<Rightarrow> (string \<times> string) result" where
  "dec_bf_amount j = rbind (dec_at [''unit''] dec_str j) (\<lambda>u. rbind (dec_at [''quantity''] dec_str j) (\<lambda>q. Inr (u, q)))"

definition dec_bf_utxo :: "json \<Rightarrow> blockFrostQueryUtxoResponse result" where
  "dec_bf_utxo j =
     rbind (dec_at [''address''] dec_str j) (\<lambda>a.
     rbind (dec_at [''tx_hash''] dec_str j) (\<lambda>h.
     rbind (dec_at [''tx_index''] dec_word j) (\<lambda>i.
     rbind (dec_at [''output_index''] dec_word j) (\<lambda>oi.
     rbind (dec_at [''amount''] (dec_list dec_bf_amount) j) (\<lambda>am.
     Inr \<lparr>bu_Address = a, bu_Hash = h, bu_Index = i, bu_OutputIndex = oi, bu_Amount = am\<rparr>)))))"

text \<open>
  The amounts of an output: a unit that is not lovelace is a policy of \<open>KeyHashSize * 2\<close> digits and a
  name; cutting it panics when it is shorter.
\<close>

fun bf_amounts :: "(string \<times> string) list \<Rightarrow> u64 \<Rightarrow> TokenAmount list \<Rightarrow> (u64 \<times> TokenAmount list) result option" where
  "bf_amounts [] amount tokens = Some (Inr (amount, tokens))"
| "bf_amounts ((unit, quantity) # xs) amount tokens =
     (case ParseUint0 quantity of
        Inl err \<Rightarrow> Some (Inl err)
      | Inr tmpAmount \<Rightarrow>
          if unit = AdaTokenName then bf_amounts xs tmpAmount tokens
          else if length unit < KeyHashSize * 2 then None
          else bf_amounts xs amount (tokens @
            [\<lparr>ta_Token = NewToken (take (KeyHashSize * 2) unit) (real_name (drop (KeyHashSize * 2) unit)), ta_Amount = tmpAmount\<rparr>]))"

fun bf_utxos :: "blockFrostQueryUtxoResponse list \<Rightarrow> Utxo list result option" where
  "bf_utxos [] = Some (Inr [])"
| "bf_utxos (bfUtxo # rest) =
     (case bf_amounts (bu_Amount bfUtxo) 0 [] of
        None \<Rightarrow> None
      | Some (Inl err) \<Rightarrow> Some (Inl err)
      | Some (Inr (amount, tokens)) \<Rightarrow>
          (case bf_utxos rest of
             Some (Inr us) \<Rightarrow> Some (Inr (\<lparr>ut_Hash = bu_Hash bfUtxo, ut_Index = bu_Index bfUtxo, ut_Amount = amount, ut_Tokens = tokens\<rparr> # us))
           | r \<Rightarrow> r))"

definition bf_GetUtxos :: "http_env \<Rightarrow> TxProviderBlockFrost \<Rightarrow> string \<Rightarrow> Utxo list result option" where
  "bf_GetUtxos E b addr =
     (case http_do E (bf_get b (''/addresses/'' @ addr @ ''/utxos'')) of
        Inl err \<Rightarrow> Some (Inl err)
      | Inr resp \<Rightarrow>
          if rp_StatusCode resp = StatusNotFound then Some (Inr [])
          else if rp_StatusCode resp \<noteq> StatusOK then Some (Inl (getErrorFromResponse E resp))
          else (case decode_body E resp (dec_list dec_bf_utxo) of
                  Inl err \<Rightarrow> Some (Inl err)
                | Inr bfResponse \<Rightarrow> bf_utxos bfResponse))"

text \<open>The type assertions of \<open>GetTip\<close> panic on a member that is missing or of another type.\<close>

definition as_float :: "'f float_ops \<Rightarrow> json \<Rightarrow> 'f option" where
  "as_float F j = (case j of JNum n \<Rightarrow> Some (fo_of_int F n) | JReal s \<Rightarrow> Some (fst (fo_parse F s)) | _ \<Rightarrow> None)"

definition bf_GetTip :: "'f float_ops \<Rightarrow> http_env \<Rightarrow> TxProviderBlockFrost \<Rightarrow> QueryTipData result option" where
  "bf_GetTip F E b =
     (case http_do E (bf_get b ''/blocks/latest'') of
        Inl err \<Rightarrow> Some (Inl err)
      | Inr resp \<Rightarrow>
          if rp_StatusCode resp \<noteq> StatusOK then Some (Inl (getErrorFromResponse E resp))
          else (case decode_body E resp dec_obj of
                  Inl err \<Rightarrow> Some (Inl err)
                | Inr bfResponse \<Rightarrow>
                    Option.bind (as_float F (json_member bfResponse ''slot'')) (\<lambda>slot.
                    Option.bind (as_float F (json_member bfResponse ''height'')) (\<lambda>height.
                    Option.bind (as_float F (json_member bfResponse ''epoch'')) (\<lambda>epoch.
                    Option.bind (as_float F (json_member bfResponse ''epoch_slot'')) (\<lambda>epoch_slot.
                    case json_member bfResponse ''hash'' of
                      JStr hash \<Rightarrow> Some (Inr \<lparr>qt_Block = fo_to_u64 F height, qt_Epoch = fo_to_u64 F epoch, qt_Era = '''',
                        qt_Hash = hash, qt_Slot = fo_to_u64 F slot, qt_SlotInEpoch = fo_to_u64 F epoch_slot,
                        qt_SlotsToEpochEnd = 0, qt_SyncProgress = ''''\<rparr>)
                    | _ \<Rightarrow> None))))))"

definition blockfrostSubmitTx :: "http_env \<Rightarrow> string \<Rightarrow> string \<Rightarrow> string \<Rightarrow> bytes \<Rightarrow> goerror option" where
  "blockfrostSubmitTx E endpointURL authHeader authKey txSigned =
     (case http_do E \<lparr>rq_Method = ''POST'', rq_URL = endpointURL,
        rq_Header = [(''Content-Type'', ''application/cbor''), (authHeader, authKey)], rq_Body = BodyBytes txSigned\<rparr> of
        Inl err \<Rightarrow> Some err
      | Inr resp \<Rightarrow>
          if rp_StatusCode resp \<noteq> StatusOK \<and> rp_StatusCode resp \<noteq> StatusAccepted
          then Some (getErrorFromResponse E resp) else None)"

definition bf_SubmitTx :: "http_env \<Rightarrow> TxProviderBlockFrost \<Rightarrow> bytes \<Rightarrow> goerror option" where
  "bf_SubmitTx E b txSigned = blockfrostSubmitTx E (tb_url b @ ''/tx/submit'') (tb_authHeaderKey b) (tb_projectID b) txSigned"

text \<open>A transaction that is not in a block yet is the nil map without an error.\<close>

definition bf_GetTxByHash :: "http_env \<Rightarrow> TxProviderBlockFrost \<Rightarrow> string \<Rightarrow> (string \<times> json) list option result" where
  "bf_GetTxByHash E b hash =
     rbind (http_do E \<lparr>rq_Method = ''GET'', rq_URL = tb_url b @ ''/txs/'' @ hash,
       rq_Header = [(tb_authHeaderKey b, tb_projectID b)], rq_Body = NoBody\<rparr>) (\<lambda>resp.
     if rp_StatusCode resp = StatusNotFound then Inr None
     else if rp_StatusCode resp \<noteq> StatusOK then Inl (getErrorFromResponse E resp)
     else decode_body E resp (dec_ptr dec_obj))"

section \<open>Protocol parameters\<close>

text \<open>\<open>strconv.Atoi\<close>: an optional sign and digits.\<close>

definition Atoi :: "string \<Rightarrow> int option" where
  "Atoi s =
     (let neg = (s \<noteq> [] \<and> s ! 0 = CHR ''-'');
          digits = (if s \<noteq> [] \<and> (s ! 0 = CHR ''-'' \<or> s ! 0 = CHR ''+'') then tl s else s)
      in case (if digits = [] then None else parse_dec 0 digits) of
           None \<Rightarrow> None
         | Some n \<Rightarrow>
             if neg then (if n \<le> 2 ^ 63 then Some (- int n) else None)
             else if n < 2 ^ 63 then Some (int n) else None)"

text \<open>The value \<open>ParseUint\<close> returns beside an error: the largest one for an overflow, else zero.\<close>

definition strToUInt64 :: "string \<Rightarrow> u64" where
  "strToUInt64 s = (case ParseUint0 s of
     Inr v \<Rightarrow> v
   | Inl e \<Rightarrow> if e = parse_error s ''value out of range'' then - 1 else 0)"

record 'f bfpp =
  bp_ProtocolMajorVer :: u64
  bp_ProtocolMinorVer :: u64
  bp_MaxBlockHeaderSize :: u64
  bp_MaxBlockSize :: u64
  bp_MaxTxSize :: u64
  bp_MinFeeB :: u64
  bp_MinFeeA :: u64
  bp_KeyDeposit :: string
  bp_PoolDeposit :: string
  bp_MinPoolCost :: string
  bp_EMax :: u64
  bp_NOpt :: u64
  bp_A0 :: 'f
  bp_Rho :: 'f
  bp_Tau :: 'f
  bp_CollateralPercent :: u64
  bp_PriceMem :: 'f
  bp_PriceStep :: 'f
  bp_CoinsPerUtxoWord :: string
  bp_MaxTxExMem :: string
  bp_MaxTxExSteps :: string
  bp_MaxBlockExMem :: string
  bp_MaxBlockExSteps :: string
  bp_MaxCollateralInputs :: u64
  bp_MaxValSize :: string
  bp_CostModels :: "(string \<times> (string \<times> int) list) list"

definition dec_bfpp :: "'f float_ops \<Rightarrow> json \<Rightarrow> 'f bfpp result" where
  "dec_bfpp F j =
     rbind (dec_at [''protocol_major_ver''] dec_word j) (\<lambda>major.
     rbind (dec_at [''protocol_minor_ver''] dec_word j) (\<lambda>minor.
     rbind (dec_at [''max_block_header_size''] dec_word j) (\<lambda>hsize.
     rbind (dec_at [''max_block_size''] dec_word j) (\<lambda>bsize.
     rbind (dec_at [''max_tx_size''] dec_word j) (\<lambda>tsize.
     rbind (dec_at [''min_fee_b''] dec_word j) (\<lambda>feeb.
     rbind (dec_at [''min_fee_a''] dec_word j) (\<lambda>feea.
     rbind (dec_at [''key_deposit''] dec_str j) (\<lambda>kdep.
     rbind (dec_at [''pool_deposit''] dec_str j) (\<lambda>pdep.
     rbind (dec_at [''min_pool_cost''] dec_str j) (\<lambda>pcost.
     rbind (dec_at [''e_max''] dec_word j) (\<lambda>emax.
     rbind (dec_at [''n_opt''] dec_word j) (\<lambda>nopt.
     rbind (dec_at [''a0''] (dec_float F) j) (\<lambda>a0.
     rbind (dec_at [''rho''] (dec_float F) j) (\<lambda>rho.
     rbind (dec_at [''tau''] (dec_float F) j) (\<lambda>tau.
     rbind (dec_at [''collateral_percent''] dec_word j) (\<lambda>coll.
     rbind (dec_at [''price_mem''] (dec_float F) j) (\<lambda>pmem.
     rbind (dec_at [''price_step''] (dec_float F) j) (\<lambda>pstep.
     rbind (dec_at [''coins_per_utxo_word''] dec_str j) (\<lambda>coins.
     rbind (dec_at [''max_tx_ex_mem''] dec_str j) (\<lambda>txmem.
     rbind (dec_at [''max_tx_ex_steps''] dec_str j) (\<lambda>txsteps.
     rbind (dec_at [''max_block_ex_mem''] dec_str j) (\<lambda>bmem.
     rbind (dec_at [''max_block_ex_steps''] dec_str j) (\<lambda>bsteps.
     rbind (dec_at [''max_collateral_inputs''] dec_word j) (\<lambda>mcoll.
     rbind (dec_at [''max_val_size''] dec_str j) (\<lambda>vsize.
     rbind (dec_at [''cost_models''] (dec_map (dec_map dec_int64)) j) (\<lambda>models.
     Inr \<lparr>bp_ProtocolMajorVer = major, bp_ProtocolMinorVer = minor, bp_MaxBlockHeaderSize = hsize, bp_MaxBlockSize = bsize,
       bp_MaxTxSize = tsize, bp_MinFeeB = feeb, bp_MinFeeA = feea, bp_KeyDeposit = kdep, bp_PoolDeposit = pdep,
       bp_MinPoolCost = pcost, bp_EMax = emax, bp_NOpt = nopt, bp_A0 = a0, bp_Rho = rho, bp_Tau = tau,
       bp_CollateralPercent = coll, bp_PriceMem = pmem, bp_PriceStep = pstep, bp_CoinsPerUtxoWord = coins,
       bp_MaxTxExMem = txmem, bp_MaxTxExSteps = txsteps, bp_MaxBlockExMem = bmem, bp_MaxBlockExSteps = bsteps,
       bp_MaxCollateralInputs = mcoll, bp_MaxValSize = vsize, bp_CostModels = models\<rparr>))))))))))))))))))))))))))"

text \<open>A key that is a number is an index, and one out of range panics; other keys are passed over.\<close>

fun fill_model :: "(string \<times> int) list \<Rightarrow> int list \<Rightarrow> int list option" where
  "fill_model [] ints = Some ints"
| "fill_model ((k, v) # kvs) ints =
     (case Atoi k of
        None \<Rightarrow> fill_model kvs ints
      | Some val \<Rightarrow> Option.bind (go_upd ints val v) (fill_model kvs))"

fun fill_models :: "map_order \<Rightarrow> (string \<times> (string \<times> int) list) list \<Rightarrow> (string \<Rightarrow> int list option) \<Rightarrow> (string \<Rightarrow> int list option) option" where
  "fill_models ord [] m = Some m"
| "fill_models ord ((scriptName, mapValue) # rest) m =
     (if length mapValue = 0 then fill_models ord rest m
      else Option.bind (fill_model (visit ord mapValue) (replicate (length mapValue) 0)) (\<lambda>ints.
        fill_models ord rest (m(scriptName \<mapsto> ints))))"

definition bf_parameters :: "'f bfpp \<Rightarrow> (string \<Rightarrow> int list option) \<Rightarrow> 'f ProtocolParameters" where
  "bf_parameters p models = \<lparr>pp_CostModels = models,
     pp_ProtocolVersion = NewProtocolParametersVersion (bp_ProtocolMajorVer p) (bp_ProtocolMinorVer p),
     pp_MaxBlockHeaderSize = bp_MaxBlockHeaderSize p, pp_MaxBlockBodySize = bp_MaxBlockSize p, pp_MaxTxSize = bp_MaxTxSize p,
     pp_TxFeeFixed = bp_MinFeeB p, pp_TxFeePerByte = bp_MinFeeA p, pp_StakeAddressDeposit = strToUInt64 (bp_KeyDeposit p),
     pp_StakePoolDeposit = strToUInt64 (bp_PoolDeposit p), pp_MinPoolCost = strToUInt64 (bp_MinPoolCost p),
     pp_PoolRetireMaxEpoch = bp_EMax p, pp_StakePoolTargetNum = bp_NOpt p, pp_PoolPledgeInfluence = bp_A0 p,
     pp_MonetaryExpansion = bp_Rho p, pp_TreasuryCut = bp_Tau p, pp_CollateralPercentage = bp_CollateralPercent p,
     pp_ExecutionUnitPrices = NewProtocolParametersPriceMemorySteps (bp_PriceMem p) (bp_PriceStep p),
     pp_UtxoCostPerByte = strToUInt64 (bp_CoinsPerUtxoWord p),
     pp_MaxTxExecutionUnits = NewProtocolParametersMemorySteps (strToUInt64 (bp_MaxTxExMem p)) (strToUInt64 (bp_MaxTxExSteps p)),
     pp_MaxBlockExecutionUnits = NewProtocolParametersMemorySteps (strToUInt64 (bp_MaxBlockExMem p)) (strToUInt64 (bp_MaxBlockExSteps p)),
     pp_MaxCollateralInputs = bp_MaxCollateralInputs p, pp_MaxValueSize = strToUInt64 (bp_MaxValSize p),
     pp_PoolVotingThresholds = None, pp_DRepVotingThresholds = None, pp_DRepActivity = None, pp_DRepDeposit = None,
     pp_GovActionDeposit = None, pp_GovActionLifetime = None, pp_MinFeeRefScriptCostPerByte = None,
     pp_CommitteeMaxTermLength = None, pp_CommitteeMinSize = None, pp_ExtraPraosEntropy = None,
     pp_Decentralization = None, pp_MinUTxOValue = None\<rparr>"

text \<open>The argument is the body, read as a document.\<close>

definition convertProtocolParameters :: "'f float_ops \<Rightarrow> map_order \<Rightarrow> json result \<Rightarrow> json result option" where
  "convertProtocolParameters F ord doc =
     (case rbind doc (dec_bfpp F) of
        Inl err \<Rightarrow> Some (Inl err)
      | Inr bfpp \<Rightarrow> Option.bind (fill_models ord (visit ord (bp_CostModels bfpp)) Map.empty) (\<lambda>models.
          Some (params_Marshal F (bf_parameters bfpp models))))"

definition bf_GetProtocolParameters :: "'f float_ops \<Rightarrow> map_order \<Rightarrow> http_env \<Rightarrow> TxProviderBlockFrost \<Rightarrow> json result option" where
  "bf_GetProtocolParameters F ord E b =
     (case http_do E (bf_get b ''/epochs/latest/parameters'') of
        Inl err \<Rightarrow> Some (Inl err)
      | Inr resp \<Rightarrow>
          if rp_StatusCode resp \<noteq> StatusOK then Some (Inl (getErrorFromResponse E resp))
          else (case rp_Text resp of
                  Inl err \<Rightarrow> Some (Inl err)
                | Inr _ \<Rightarrow> convertProtocolParameters F ord (unmarshal_body E resp Inr)))"

section \<open>Demeter\<close>

text \<open>A Blockfrost provider with its own header and its own address for transactions.\<close>

definition demeterAuthHeaderKey :: string where "demeterAuthHeaderKey = ''dmtr-api-key''"

record TxProviderDemeter =
  td_blockfrost :: TxProviderBlockFrost
  td_submitAPIURL :: string
  td_submitAPIKey :: string

definition NewTxProviderDemeter :: "string \<Rightarrow> string \<Rightarrow> string \<Rightarrow> string \<Rightarrow> TxProviderDemeter" where
  "NewTxProviderDemeter blockfrostURL blockfrostAPIKey submitAPIURL submitAPIKey =
     \<lparr>td_blockfrost = (NewTxProviderBlockFrost blockfrostURL blockfrostAPIKey)\<lparr>tb_authHeaderKey := demeterAuthHeaderKey\<rparr>,
      td_submitAPIURL = submitAPIURL, td_submitAPIKey = submitAPIKey\<rparr>"

definition demeter_SubmitTx :: "http_env \<Rightarrow> TxProviderDemeter \<Rightarrow> bytes \<Rightarrow> goerror option" where
  "demeter_SubmitTx E b txSigned =
     blockfrostSubmitTx E (td_submitAPIURL b @ ''/api/submit/tx'') (tb_authHeaderKey (td_blockfrost b)) (td_submitAPIKey b) txSigned"

end
