(* ===== verification/Provider_Ogmios.thy ===== *)
theory Provider_Ogmios
  imports Provider_Blockfrost Cli_Utils
begin

text \<open>
  The provider that speaks JSON-RPC with Ogmios (\<open>wallet/txprovider_ogmios.go\<close>,
  \<open>wallet/txprovider_ogmios_types.go\<close>) and the one of the Cats service (\<open>wallet/txprovider_cats.go\<close>). Nested
  structs of a response are flattened into one record each.
\<close>

section \<open>Requests\<close>

definition ogmiosJSONRPCVersion :: string where "ogmiosJSONRPCVersion = ''2.0''"

definition ogmiosQueryStateRequest :: "string \<Rightarrow> json" where
  "ogmiosQueryStateRequest method = JObj [(''jsonrpc'', enc_str ogmiosJSONRPCVersion), (''method'', enc_str method), (''id'', JNull)]"

definition ogmiosQueryUtxoRequest :: "string \<Rightarrow> string list \<Rightarrow> json" where
  "ogmiosQueryUtxoRequest method addresses =
     JObj [(''jsonrpc'', enc_str ogmiosJSONRPCVersion), (''method'', enc_str method),
       (''params'', JObj [(''addresses'', JArr (map enc_str addresses))]), (''id'', JNull)]"

definition ogmiosSubmitTransaction :: "string \<Rightarrow> string \<Rightarrow> json" where
  "ogmiosSubmitTransaction method cbor =
     JObj [(''jsonrpc'', enc_str ogmiosJSONRPCVersion), (''method'', enc_str method),
       (''params'', JObj [(''transaction'', JObj [(''cbor'', enc_str cbor)])]), (''id'', JNull)]"

section \<open>Calls\<close>

text \<open>
  The message of an error response is taken with type assertions, which panic (\<open>None\<close>) when the document
  does not have it.
\<close>

definition getErrorFromResponseOgmios :: "http_env \<Rightarrow> http_response \<Rightarrow> goerror option" where
  "getErrorFromResponseOgmios E resp =
     (case decode_body E resp dec_obj of
        Inl _ \<Rightarrow> Some (ErrMsg (status_text (rp_StatusCode resp)))
      | Inr responseData \<Rightarrow>
          (case json_member responseData ''error'' of
             JObj fs \<Rightarrow> (case json_member fs ''message'' of
                 JStr msg \<Rightarrow> Some (ErrMsg (status_text (rp_StatusCode resp) @ '': '' @ msg))
               | _ \<Rightarrow> None)
           | _ \<Rightarrow> None))"

text \<open>The result is decoded by \<open>dec\<close>; \<open>zero\<close> is the zero value of its type.\<close>

definition executeHTTPOgmios :: "http_env \<Rightarrow> (json \<Rightarrow> 'a result) \<Rightarrow> 'a \<Rightarrow> string \<Rightarrow> json \<Rightarrow> bool \<Rightarrow> 'a result option" where
  "executeHTTPOgmios E dec zero url request notFoundIsNotError =
     (case http_do E \<lparr>rq_Method = ''POST'', rq_URL = url, rq_Header = [(''Content-Type'', ''application/json'')],
        rq_Body = BodyJson request\<rparr> of
        Inl err \<Rightarrow> Some (Inl err)
      | Inr resp \<Rightarrow>
          if notFoundIsNotError \<and> rp_StatusCode resp = StatusNotFound then Some (Inr zero)
          else if rp_StatusCode resp \<noteq> StatusOK then map_option Inl (getErrorFromResponseOgmios E resp)
          else Some (unmarshal_body E resp dec))"

type_synonym TxProviderOgmios = string

definition NewTxProviderOgmios :: "string \<Rightarrow> TxProviderOgmios" where
  "NewTxProviderOgmios url = url"

definition obind :: "'a result option \<Rightarrow> ('a \<Rightarrow> 'b result option) \<Rightarrow> 'b result option" where
  "obind r k = (case r of None \<Rightarrow> None | Some (Inl e) \<Rightarrow> Some (Inl e) | Some (Inr x) \<Rightarrow> k x)"

lemma obind_simps [simp, go_simps]:
  "obind None k = None" "obind (Some (Inl e)) k = Some (Inl e)" "obind (Some (Inr x)) k = k x"
  by (simp_all add: obind_def)

text \<open>The fields of the envelope, which are not used further but must have their types.\<close>

definition dec_rpc :: "(json \<Rightarrow> 'a result) \<Rightarrow> json \<Rightarrow> 'a result" where
  "dec_rpc dec j = rbind (dec_at [''jsonrpc''] dec_str j) (\<lambda>_. rbind (dec_at [''method''] dec_str j) (\<lambda>_. dec j))"

section \<open>Tip\<close>

record ogmiosQueryTipResponse =
  ot_Slot :: u64
  ot_ID :: string

definition dec_og_tip :: "json \<Rightarrow> ogmiosQueryTipResponse result" where
  "dec_og_tip j =
     rbind (dec_at [''result'', ''slot''] dec_word j) (\<lambda>s.
     rbind (dec_at [''result'', ''id''] dec_str j) (\<lambda>i.
     Inr \<lparr>ot_Slot = s, ot_ID = i\<rparr>))"

definition dec_og_height :: "json \<Rightarrow> u64 result" where
  "dec_og_height j = dec_at [''result''] dec_word j"

definition og_GetTip :: "http_env \<Rightarrow> TxProviderOgmios \<Rightarrow> QueryTipData result option" where
  "og_GetTip E o' =
     obind (executeHTTPOgmios E (dec_rpc dec_og_height) 0 o' (ogmiosQueryStateRequest ''queryNetwork/blockHeight'') False) (\<lambda>height.
     obind (executeHTTPOgmios E (dec_rpc dec_og_tip) \<lparr>ot_Slot = 0, ot_ID = ''''\<rparr> o' (ogmiosQueryStateRequest ''queryLedgerState/tip'') False) (\<lambda>tip.
     Some (Inr \<lparr>qt_Block = height, qt_Epoch = 0, qt_Era = '''', qt_Hash = ot_ID tip, qt_Slot = ot_Slot tip,
       qt_SlotInEpoch = 0, qt_SlotsToEpochEnd = 0, qt_SyncProgress = ''''\<rparr>)))"

section \<open>Unspent outputs\<close>

record ogmiosQueryUtxo =
  ou_ID :: string
  ou_Index :: u32
  ou_Address :: string
  ou_Value :: "(string \<times> (string \<times> u64) list) list"

definition dec_og_utxo :: "json \<Rightarrow> ogmiosQueryUtxo result" where
  "dec_og_utxo j =
     rbind (dec_at [''transaction'', ''id''] dec_str j) (\<lambda>h.
     rbind (dec_at [''index''] dec_word j) (\<lambda>i.
     rbind (dec_at [''address''] dec_str j) (\<lambda>a.
     rbind (dec_at [''value''] (dec_map (dec_map dec_word)) j) (\<lambda>v.
     Inr \<lparr>ou_ID = h, ou_Index = i, ou_Address = a, ou_Value = v\<rparr>))))"

text \<open>The policies and the names are visited in some order; a missing \<open>lovelace\<close> is zero.\<close>

fun og_amounts :: "map_order \<Rightarrow> (string \<times> (string \<times> u64) list) list \<Rightarrow> u64 \<Rightarrow> TokenAmount list \<Rightarrow> u64 \<times> TokenAmount list" where
  "og_amounts ord [] adaValue tokens = (adaValue, tokens)"
| "og_amounts ord ((policyID, nameValueMap) # rest) adaValue tokens =
     (if policyID = AdaTokenPolicyID
      then og_amounts ord rest (case map_of nameValueMap AdaTokenName of None \<Rightarrow> 0 | Some v \<Rightarrow> v) tokens
      else og_amounts ord rest adaValue (tokens @
        map (\<lambda>(name, v). \<lparr>ta_Token = NewToken policyID (real_name name), ta_Amount = v\<rparr>) (visit ord nameValueMap)))"

definition og_utxo :: "map_order \<Rightarrow> ogmiosQueryUtxo \<Rightarrow> Utxo" where
  "og_utxo ord utxo =
     (let (adaValue, tokens) = og_amounts ord (visit ord (ou_Value utxo)) 0 [] in
      \<lparr>ut_Hash = ou_ID utxo, ut_Index = ou_Index utxo, ut_Amount = adaValue, ut_Tokens = tokens\<rparr>)"

definition og_GetUtxos :: "map_order \<Rightarrow> http_env \<Rightarrow> TxProviderOgmios \<Rightarrow> string \<Rightarrow> Utxo list result option" where
  "og_GetUtxos ord E o' addr =
     obind (executeHTTPOgmios E (dec_rpc (dec_at [''result''] (dec_list dec_og_utxo))) [] o'
       (ogmiosQueryUtxoRequest ''queryLedgerState/utxo'' [addr]) True) (\<lambda>utxos.
     Some (Inr (map (og_utxo ord) utxos)))"

section \<open>Submission\<close>

record ogmiosSubmitTransactionResponse =
  os_TransactionID :: string
  os_ErrorMessage :: string

definition dec_og_submit :: "json \<Rightarrow> ogmiosSubmitTransactionResponse result" where
  "dec_og_submit j =
     rbind (dec_at [''result'', ''transaction'', ''id''] dec_str j) (\<lambda>i.
     rbind (dec_at [''error'', ''code''] dec_int64 j) (\<lambda>_.
     rbind (dec_at [''error'', ''message''] dec_str j) (\<lambda>m.
     rbind (dec_at [''error'', ''data'', ''missingScripts''] (dec_list dec_str) j) (\<lambda>_.
     Inr \<lparr>os_TransactionID = i, os_ErrorMessage = m\<rparr>))))"

definition og_SubmitTx :: "http_env \<Rightarrow> TxProviderOgmios \<Rightarrow> bytes \<Rightarrow> unit result option" where
  "og_SubmitTx E o' txSigned =
     obind (executeHTTPOgmios E (dec_rpc dec_og_submit) \<lparr>os_TransactionID = '''', os_ErrorMessage = ''''\<rparr> o'
       (ogmiosSubmitTransaction ''submitTransaction'' (hex_encode txSigned)) False) (\<lambda>response.
     if os_ErrorMessage response \<noteq> '''' then Some (Inl (ErrMsg (''ogmios submit tx error: '' @ os_ErrorMessage response)))
     else Some (Inr ()))"

definition og_GetTxByHash :: "TxProviderOgmios \<Rightarrow> string \<Rightarrow> (string \<times> json) list result option" where
  "og_GetTxByHash o' hash = None"

section \<open>Protocol parameters\<close>

record ogPoolThresholds =
  op_NoConfidence :: string
  op_Default :: string
  op_StateOfNoConfidence :: string
  op_HardForkInitiation :: string
  op_Security :: string

record ogDRepThresholds =
  od_NoConfidence :: string
  od_Default :: string
  od_StateOfNoConfidence :: string
  od_Constitution :: string
  od_HardForkInitiation :: string
  od_Network :: string
  od_Economic :: string
  od_Technical :: string
  od_Governance :: string
  od_TreasuryWithdrawals :: string

definition dec_og_pool :: "json \<Rightarrow> ogPoolThresholds result" where
  "dec_og_pool j =
     rbind (dec_at [''noConfidence''] dec_str j) (\<lambda>a.
     rbind (dec_at [''constitutionalCommittee'', ''default''] dec_str j) (\<lambda>b.
     rbind (dec_at [''constitutionalCommittee'', ''stateOfNoConfidence''] dec_str j) (\<lambda>c.
     rbind (dec_at [''hardForkInitiation''] dec_str j) (\<lambda>d.
     rbind (dec_at [''protocolParametersUpdate'', ''security''] dec_str j) (\<lambda>e.
     Inr \<lparr>op_NoConfidence = a, op_Default = b, op_StateOfNoConfidence = c, op_HardForkInitiation = d, op_Security = e\<rparr>)))))"

definition dec_og_drep :: "json \<Rightarrow> ogDRepThresholds result" where
  "dec_og_drep j =
     rbind (dec_at [''noConfidence''] dec_str j) (\<lambda>a.
     rbind (dec_at [''constitutionalCommittee'', ''default''] dec_str j) (\<lambda>b.
     rbind (dec_at [''constitutionalCommittee'', ''stateOfNoConfidence''] dec_str j) (\<lambda>c.
     rbind (dec_at [''constitution''] dec_str j) (\<lambda>d.
     rbind (dec_at [''hardForkInitiation''] dec_str j) (\<lambda>e.
     rbind (dec_at [''protocolParametersUpdate'', ''network''] dec_str j) (\<lambda>f.
     rbind (dec_at [''protocolParametersUpdate'', ''economic''] dec_str j) (\<lambda>g.
     rbind (dec_at [''protocolParametersUpdate'', ''technical''] dec_str j) (\<lambda>h.
     rbind (dec_at [''protocolParametersUpdate'', ''governance''] dec_str j) (\<lambda>i.
     rbind (dec_at [''treasuryWithdrawals''] dec_str j) (\<lambda>k.
     Inr \<lparr>od_NoConfidence = a, od_Default = b, od_StateOfNoConfidence = c, od_Constitution = d, od_HardForkInitiation = e,
       od_Network = f, od_Economic = g, od_Technical = h, od_Governance = i, od_TreasuryWithdrawals = k\<rparr>))))))))))"

record 'f ogmiosQueryProtocolParamsResponse =
  oq_Major :: u64
  oq_Minor :: u64
  oq_MinFeeCoefficient :: u64
  oq_MinFeeConstant :: u64
  oq_MaxBlockBodySize :: u64
  oq_MaxBlockHeaderSize :: u64
  oq_MaxTransactionSize :: u64
  oq_StakeCredentialDeposit :: u64
  oq_StakePoolDeposit :: u64
  oq_StakePoolRetirementEpochBound :: u64
  oq_DesiredNumberOfStakePools :: u64
  oq_StakePoolPledgeInfluence :: string
  oq_MonetaryExpansion :: string
  oq_TreasuryExpansion :: string
  oq_MinStakePoolCost :: u64
  oq_MinUtxoDepositCoefficient :: u64
  oq_PlutusCostModels :: "(string \<times> int list) list"
  oq_PriceMemory :: string
  oq_PriceCPU :: string
  oq_TxMemory :: u64
  oq_TxCPU :: u64
  oq_BlockMemory :: u64
  oq_BlockCPU :: u64
  oq_MaxValueSize :: u64
  oq_CollateralPercentage :: u64
  oq_MaxCollateralInputs :: u64
  oq_MinFeeReferenceScripts :: "'f option"
  oq_StakePoolVotingThresholds :: "ogPoolThresholds option"
  oq_ConstitutionalCommitteeMinSize :: "u64 option"
  oq_ConstitutionalCommitteeMaxTermLength :: "u64 option"
  oq_GovernanceActionLifetime :: "u64 option"
  oq_GovernanceActionDeposit :: "u64 option"
  oq_DelegateRepresentativeVotingThresholds :: "ogDRepThresholds option"
  oq_DelegateRepresentativeDeposit :: "u64 option"
  oq_DelegateRepresentativeMaxIdleTime :: "u64 option"

definition dec_lovelace :: "json \<Rightarrow> u64 result" where
  "dec_lovelace j = dec_at [''ada'', ''lovelace''] dec_word j"

text \<open>\<open>Base\<close> is the only field of the reference scripts that is used.\<close>

definition dec_og_scripts :: "'f float_ops \<Rightarrow> json \<Rightarrow> 'f result" where
  "dec_og_scripts F j =
     rbind (dec_at [''range''] (dec_word :: json \<Rightarrow> u64 result) j) (\<lambda>_.
     rbind (dec_at [''base''] (dec_float F) j) (\<lambda>base.
     rbind (dec_at [''multiplier''] (dec_float F) j) (\<lambda>_. Inr base)))"

definition dec_og_params :: "'f float_ops \<Rightarrow> json \<Rightarrow> 'f ogmiosQueryProtocolParamsResponse result" where
  "dec_og_params F j =
     rbind (dec_at [''version'', ''major''] dec_word j) (\<lambda>major.
     rbind (dec_at [''version'', ''minor''] dec_word j) (\<lambda>minor.
     rbind (dec_at [''minFeeCoefficient''] dec_word j) (\<lambda>feeco.
     rbind (dec_at [''minFeeConstant''] dec_lovelace j) (\<lambda>feeconst.
     rbind (dec_at [''maxBlockBodySize'', ''bytes''] dec_word j) (\<lambda>bsize.
     rbind (dec_at [''maxBlockHeaderSize'', ''bytes''] dec_word j) (\<lambda>hsize.
     rbind (dec_at [''maxTransactionSize'', ''bytes''] dec_word j) (\<lambda>tsize.
     rbind (dec_at [''stakeCredentialDeposit''] dec_lovelace j) (\<lambda>kdep.
     rbind (dec_at [''stakePoolDeposit''] dec_lovelace j) (\<lambda>pdep.
     rbind (dec_at [''stakePoolRetirementEpochBound''] dec_word j) (\<lambda>emax.
     rbind (dec_at [''desiredNumberOfStakePools''] dec_word j) (\<lambda>nopt.
     rbind (dec_at [''stakePoolPledgeInfluence''] dec_str j) (\<lambda>a0.
     rbind (dec_at [''monetaryExpansion''] dec_str j) (\<lambda>rho.
     rbind (dec_at [''treasuryExpansion''] dec_str j) (\<lambda>tau.
     rbind (dec_at [''minStakePoolCost''] dec_lovelace j) (\<lambda>pcost.
     rbind (dec_at [''minUtxoDepositConstant''] dec_lovelace j) (\<lambda>_.
     rbind (dec_at [''minUtxoDepositCoefficient''] dec_word j) (\<lambda>coins.
     rbind (dec_at [''plutusCostModels''] (dec_map (dec_list dec_int64)) j) (\<lambda>models.
     rbind (dec_at [''scriptExecutionPrices'', ''memory''] dec_str j) (\<lambda>pmem.
     rbind (dec_at [''scriptExecutionPrices'', ''cpu''] dec_str j) (\<lambda>pcpu.
     rbind (dec_at [''maxExecutionUnitsPerTransaction'', ''memory''] dec_word j) (\<lambda>txmem.
     rbind (dec_at [''maxExecutionUnitsPerTransaction'', ''cpu''] dec_word j) (\<lambda>txcpu.
     rbind (dec_at [''maxExecutionUnitsPerBlock'', ''memory''] dec_word j) (\<lambda>bmem.
     rbind (dec_at [''maxExecutionUnitsPerBlock'', ''cpu''] dec_word j) (\<lambda>bcpu.
     rbind (dec_at [''maxValueSize'', ''bytes''] dec_word j) (\<lambda>vsize.
     rbind (dec_at [''collateralPercentage''] dec_word j) (\<lambda>coll.
     rbind (dec_at [''maxCollateralInputs''] dec_word j) (\<lambda>mcoll.
     rbind (dec_at [''extraEntropy''] dec_str j) (\<lambda>_.
     rbind (dec_at [''federatedBlockProductionRatio''] dec_str j) (\<lambda>_.
     rbind (dec_at [''minFeeReferenceScripts''] (dec_ptr (dec_og_scripts F)) j) (\<lambda>scripts.
     rbind (dec_at [''stakePoolVotingThresholds''] (dec_ptr dec_og_pool) j) (\<lambda>pool.
     rbind (dec_at [''constitutionalCommitteeMinSize''] (dec_ptr dec_word) j) (\<lambda>csize.
     rbind (dec_at [''constitutionalCommitteeMaxTermLength''] (dec_ptr dec_word) j) (\<lambda>cterm.
     rbind (dec_at [''governanceActionLifetime''] (dec_ptr dec_word) j) (\<lambda>glife.
     rbind (dec_at [''governanceActionDeposit''] (dec_ptr dec_lovelace) j) (\<lambda>gdep.
     rbind (dec_at [''delegateRepresentativeVotingThresholds''] (dec_ptr dec_og_drep) j) (\<lambda>drep.
     rbind (dec_at [''delegateRepresentativeDeposit''] (dec_ptr dec_lovelace) j) (\<lambda>ddep.
     rbind (dec_at [''delegateRepresentativeMaxIdleTime''] (dec_ptr dec_word) j) (\<lambda>didle.
     Inr \<lparr>oq_Major = major, oq_Minor = minor, oq_MinFeeCoefficient = feeco, oq_MinFeeConstant = feeconst,
       oq_MaxBlockBodySize = bsize, oq_MaxBlockHeaderSize = hsize, oq_MaxTransactionSize = tsize,
       oq_StakeCredentialDeposit = kdep, oq_StakePoolDeposit = pdep, oq_StakePoolRetirementEpochBound = emax,
       oq_DesiredNumberOfStakePools = nopt, oq_StakePoolPledgeInfluence = a0, oq_MonetaryExpansion = rho,
       oq_TreasuryExpansion = tau, oq_MinStakePoolCost = pcost, oq_MinUtxoDepositCoefficient = coins,
       oq_PlutusCostModels = models, oq_PriceMemory = pmem, oq_PriceCPU = pcpu, oq_TxMemory = txmem, oq_TxCPU = txcpu,
       oq_BlockMemory = bmem, oq_BlockCPU = bcpu, oq_MaxValueSize = vsize, oq_CollateralPercentage = coll,
       oq_MaxCollateralInputs = mcoll, oq_MinFeeReferenceScripts = scripts, oq_StakePoolVotingThresholds = pool,
       oq_ConstitutionalCommitteeMinSize = csize, oq_ConstitutionalCommitteeMaxTermLength = cterm,
       oq_GovernanceActionLifetime = glife, oq_GovernanceActionDeposit = gdep,
       oq_DelegateRepresentativeVotingThresholds = drep, oq_DelegateRepresentativeDeposit = ddep,
       oq_DelegateRepresentativeMaxIdleTime = didle\<rparr>))))))))))))))))))))))))))))))))))))))"

text \<open>A ratio is two numbers with a slash; errors of the parser are not looked at.\<close>

definition asFloat :: "'f float_ops \<Rightarrow> string \<Rightarrow> 'f" where
  "asFloat F s =
     (let parts = split_on (CHR ''/'') s in
      if length parts = 2
      then fo_div F (fst (fo_parse F (trim_space (parts ! 0)))) (fst (fo_parse F (trim_space (parts ! 1))))
      else fst (fo_parse F (trim_space s)))"

text \<open>A script is named \<open>plutus:v\<close> with its version, and a model without values is left out.\<close>

fun og_models :: "(string \<times> int list) list \<Rightarrow> (string \<Rightarrow> int list option) \<Rightarrow> (string \<Rightarrow> int list option)" where
  "og_models [] m = m"
| "og_models ((scriptName, values) # rest) m =
     (let parts = split_on (CHR '':'') scriptName in
      if length parts = 2 \<and> length (parts ! 1) > 0 \<and> length values > 0
      then og_models rest (m(''PlutusV'' @ tl (parts ! 1) \<mapsto> values))
      else og_models rest m)"

definition og_pool :: "'f float_ops \<Rightarrow> ogPoolThresholds \<Rightarrow> 'f PoolVotingThresholds" where
  "og_pool F t = \<lparr>pt_CommitteeNoConfidence = asFloat F (op_StateOfNoConfidence t), pt_CommitteeNormal = asFloat F (op_Default t),
     pt_HardForkInitiation = asFloat F (op_HardForkInitiation t), pt_MotionNoConfidence = asFloat F (op_NoConfidence t),
     pt_PPSecurityGroup = asFloat F (op_Security t)\<rparr>"

definition og_drep :: "'f float_ops \<Rightarrow> ogDRepThresholds \<Rightarrow> 'f VotingThresholds" where
  "og_drep F t = \<lparr>vt_CommitteeNoConfidence = asFloat F (od_StateOfNoConfidence t), vt_CommitteeNormal = asFloat F (od_Default t),
     vt_HardForkInitiation = asFloat F (od_HardForkInitiation t), vt_MotionNoConfidence = asFloat F (od_NoConfidence t),
     vt_PPEconomicGroup = asFloat F (od_Economic t), vt_PPGovGroup = asFloat F (od_Governance t),
     vt_PPNetworkGroup = asFloat F (od_Network t), vt_PPTechnicalGroup = asFloat F (od_Technical t),
     vt_TreasuryWithdrawal = asFloat F (od_TreasuryWithdrawals t), vt_UpdateToConstitution = asFloat F (od_Constitution t)\<rparr>"

definition og_parameters :: "'f float_ops \<Rightarrow> map_order \<Rightarrow> 'f ogmiosQueryProtocolParamsResponse \<Rightarrow> 'f ProtocolParameters" where
  "og_parameters F ord p = \<lparr>pp_CostModels = og_models (visit ord (oq_PlutusCostModels p)) Map.empty,
     pp_ProtocolVersion = NewProtocolParametersVersion (oq_Major p) (oq_Minor p),
     pp_MaxBlockHeaderSize = oq_MaxBlockHeaderSize p, pp_MaxBlockBodySize = oq_MaxBlockBodySize p,
     pp_MaxTxSize = oq_MaxTransactionSize p, pp_TxFeeFixed = oq_MinFeeConstant p, pp_TxFeePerByte = oq_MinFeeCoefficient p,
     pp_StakeAddressDeposit = oq_StakeCredentialDeposit p, pp_StakePoolDeposit = oq_StakePoolDeposit p,
     pp_MinPoolCost = oq_MinStakePoolCost p, pp_PoolRetireMaxEpoch = oq_StakePoolRetirementEpochBound p,
     pp_StakePoolTargetNum = oq_DesiredNumberOfStakePools p, pp_PoolPledgeInfluence = asFloat F (oq_StakePoolPledgeInfluence p),
     pp_MonetaryExpansion = asFloat F (oq_MonetaryExpansion p), pp_TreasuryCut = asFloat F (oq_TreasuryExpansion p),
     pp_CollateralPercentage = oq_CollateralPercentage p,
     pp_ExecutionUnitPrices = NewProtocolParametersPriceMemorySteps (asFloat F (oq_PriceMemory p)) (asFloat F (oq_PriceCPU p)),
     pp_UtxoCostPerByte = oq_MinUtxoDepositCoefficient p,
     pp_MaxTxExecutionUnits = NewProtocolParametersMemorySteps (oq_TxMemory p) (oq_TxCPU p),
     pp_MaxBlockExecutionUnits = NewProtocolParametersMemorySteps (oq_BlockMemory p) (oq_BlockCPU p),
     pp_MaxCollateralInputs = oq_MaxCollateralInputs p, pp_MaxValueSize = oq_MaxValueSize p,
     pp_PoolVotingThresholds = map_option (og_pool F) (oq_StakePoolVotingThresholds p),
     pp_DRepVotingThresholds = map_option (og_drep F) (oq_DelegateRepresentativeVotingThresholds p),
     pp_DRepActivity = oq_DelegateRepresentativeMaxIdleTime p, pp_DRepDeposit = oq_DelegateRepresentativeDeposit p,
     pp_GovActionDeposit = oq_GovernanceActionDeposit p, pp_GovActionLifetime = oq_GovernanceActionLifetime p,
     pp_MinFeeRefScriptCostPerByte = oq_MinFeeReferenceScripts p,
     pp_CommitteeMaxTermLength = oq_ConstitutionalCommitteeMaxTermLength p,
     pp_CommitteeMinSize = oq_ConstitutionalCommitteeMinSize p, pp_ExtraPraosEntropy = None,
     pp_Decentralization = None, pp_MinUTxOValue = None\<rparr>"

definition og_GetProtocolParameters :: "'f float_ops \<Rightarrow> map_order \<Rightarrow> http_env \<Rightarrow> TxProviderOgmios \<Rightarrow> json result option" where
  "og_GetProtocolParameters F ord E o' =
     (case executeHTTPOgmios E (dec_rpc (dec_at [''result''] (dec_og_params F))) (projr (dec_og_params F JNull)) o'
        (ogmiosQueryStateRequest ''queryLedgerState/protocolParameters'') False of
        None \<Rightarrow> None
      | Some (Inl err) \<Rightarrow> Some (Inl err)
      | Some (Inr params) \<Rightarrow> Some (params_Marshal F (og_parameters F ord params)))"

section \<open>Cats\<close>

record TxProviderCats =
  ct_url :: string
  ct_apiKey :: string
  ct_apiKeyHeader :: string

definition NewTxProviderCats :: "string \<Rightarrow> string \<Rightarrow> string \<Rightarrow> TxProviderCats" where
  "NewTxProviderCats url apiKey apiKeyHeader =
     \<lparr>ct_url = url, ct_apiKey = apiKey, ct_apiKeyHeader = (if apiKeyHeader = '''' then ''x-api-key'' else apiKeyHeader)\<rparr>"

fun join_slash :: "string list \<Rightarrow> string" where
  "join_slash [] = ''''"
| "join_slash [s] = s"
| "join_slash (s # ss) = s @ ''/'' @ join_slash ss"

definition getURL :: "TxProviderCats \<Rightarrow> string list \<Rightarrow> string" where
  "getURL c parts = join_slash (ct_url c # parts)"

text \<open>Every response has an \<open>error\<close> beside its result; a status other than 200 is no error of its own.\<close>

definition executeHTTPCats :: "http_env \<Rightarrow> (json \<Rightarrow> 'a result) \<Rightarrow> string \<Rightarrow> string \<Rightarrow> string \<Rightarrow> string \<Rightarrow> json option \<Rightarrow> 'a result" where
  "executeHTTPCats E dec url method apiKeyHeader apiKey request =
     rbind (http_do E \<lparr>rq_Method = method, rq_URL = url,
       rq_Header = (''Content-Type'', ''application/json'') #
         (if apiKeyHeader \<noteq> '''' \<and> apiKey \<noteq> '''' then [(apiKeyHeader, apiKey)] else []),
       rq_Body = (case request of None \<Rightarrow> NoBody | Some j \<Rightarrow> BodyJson j)\<rparr>) (\<lambda>resp.
     case decode_body E resp (\<lambda>j. rbind (dec_at [''error''] dec_str j) (\<lambda>e. rbind (dec j) (\<lambda>x. Inr (e, x)))) of
       Inl err \<Rightarrow> Inl (ErrWrap (''status code: '' @ itoa_int (rp_StatusCode resp) @ '', error: '') err '''')
     | Inr (e, x) \<Rightarrow>
         if e \<noteq> '''' then Inl (ErrMsg (''status code: '' @ itoa_int (rp_StatusCode resp) @ '', error: '' @ e))
         else Inr x)"

definition cats_GetProtocolParameters :: "http_env \<Rightarrow> TxProviderCats \<Rightarrow> bytes option result" where
  "cats_GetProtocolParameters E c = executeHTTPCats E (dec_at [''protocolParameters''] dec_bytes)
     (getURL c [''retrieve'', ''protocol-params'']) ''GET'' (ct_apiKeyHeader c) (ct_apiKey c) None"

definition cats_GetTip :: "http_env \<Rightarrow> TxProviderCats \<Rightarrow> QueryTipData result" where
  "cats_GetTip E c = executeHTTPCats E (dec_at [''tip''] dec_tip)
     (getURL c [''retrieve'', ''tip'']) ''GET'' (ct_apiKeyHeader c) (ct_apiKey c) None"

definition cats_GetUtxos :: "http_env \<Rightarrow> TxProviderCats \<Rightarrow> string \<Rightarrow> Utxo list result" where
  "cats_GetUtxos E c addr = executeHTTPCats E (dec_at [''utxos''] (dec_list dec_utxo))
     (getURL c [''retrieve'', ''utxo'', addr]) ''GET'' (ct_apiKeyHeader c) (ct_apiKey c) None"

definition cats_SubmitTx :: "http_env \<Rightarrow> TxProviderCats \<Rightarrow> bytes \<Rightarrow> unit result" where
  "cats_SubmitTx E c txSigned = executeHTTPCats E (\<lambda>_. Inr ())
     (getURL c [''submit'', ''tx'']) ''POST'' (ct_apiKeyHeader c) (ct_apiKey c) (Some (JObj [(''data'', JBytes txSigned)]))"

definition cats_GetTxByHash :: "TxProviderCats \<Rightarrow> string \<Rightarrow> (string \<times> json) list result option" where
  "cats_GetTxByHash c hash = None"

end
