(* ===== verification/Provider_Http_Props.thy ===== *)
theory Provider_Http_Props
  imports Provider_Ogmios
begin

text \<open>
  The providers agree: for the same unspent outputs and for the same protocol parameters, in the documents that
  the services give for them, the providers return the same outputs and the same marshalled parameters, in whatever
  order Go ranges over maps. Then the errors of responses.
\<close>

section \<open>Maps\<close>

lemma last_wins_distinct: "distinct (map fst kvs) \<Longrightarrow> last_wins kvs = kvs"
  by (induction kvs) auto

lemma result_map_ok: "(\<And>x. x \<in> set xs \<Longrightarrow> f x = Inr (g x)) \<Longrightarrow> result_map f xs = Inr (map g xs)"
  by (induction xs) auto

lemma dec_map_JObj:
  assumes "distinct (map fst kvs)" "\<And>k v. (k, v) \<in> set kvs \<Longrightarrow> d (e v) = Inr (c v)"
  shows "dec_map d (JObj (map (\<lambda>(k, v). (k, e v)) kvs)) = Inr (map (\<lambda>(k, v). (k, c v)) kvs)"
proof -
  have "result_map (\<lambda>(k, v). rbind (d v) (\<lambda>x. Inr (k, x))) (map (\<lambda>(k, v). (k, e v)) kvs) = Inr (map (\<lambda>(k, v). (k, c v)) kvs)"
    using assms(2)
  proof (induction kvs)
    case (Cons kv kvs)
    obtain k v where kv: "kv = (k, v)" by (cases kv)
    have "d (e v) = Inr (c v)" by (rule Cons.prems [of k]) (simp add: kv)
    moreover have "\<And>k v. (k, v) \<in> set kvs \<Longrightarrow> d (e v) = Inr (c v)" using Cons.prems by auto
    from Cons.IH [OF this] have "result_map (\<lambda>(k, v). rbind (d v) (\<lambda>x. Inr (k, x))) (map (\<lambda>(k, v). (k, e v)) kvs) =
      Inr (map (\<lambda>(k, v). (k, c v)) kvs)" .
    ultimately show ?case by (simp add: kv)
  qed simp
  moreover have keys: "map fst (map (\<lambda>(k, v). (k, c v)) kvs) = map fst kvs" by (induction kvs) auto
  have "distinct (map fst (map (\<lambda>(k, v). (k, c v)) kvs))" unfolding keys by (rule assms(1))
  from last_wins_distinct [OF this] have "last_wins (map (\<lambda>(k, v). (k, c v)) kvs) = map (\<lambda>(k, v). (k, c v)) kvs" .
  ultimately show ?thesis by (simp add: dec_map_def)
qed

lemma order_perm:
  assumes "order_ok ord" "distinct ks"
  shows "distinct (ord ks)" "set (ord ks) = set ks" "mset (ord ks) = mset ks"
proof -
  show d: "distinct (ord ks)" and s: "set (ord ks) = set ks" using assms by (simp_all add: order_ok_def)
  show "mset (ord ks) = mset ks" using set_eq_iff_mset_eq_distinct [OF d assms(2)] s by simp
qed

lemma visit_mset:
  assumes "order_ok ord" "distinct (map fst kvs)"
  shows "mset (visit ord kvs) = mset kvs"
proof -
  have "mset (visit ord kvs) = image_mset (\<lambda>k. (k, the (map_of kvs k))) (mset (map fst kvs))"
    using order_perm(3) [OF assms] by (simp add: visit_def)
  also have "\<dots> = mset (map (\<lambda>kv. (fst kv, the (map_of kvs (fst kv)))) kvs)" by (simp add: multiset.map_comp comp_def)
  also have "map (\<lambda>kv. (fst kv, the (map_of kvs (fst kv)))) kvs = kvs"
    using assms(2) by (intro map_idI) (auto simp: map_of_eq_Some_iff)
  finally show ?thesis .
qed

lemma visit_facts:
  assumes "order_ok ord" "distinct (map fst kvs)"
  shows "set (visit ord kvs) = set kvs" "distinct (map fst (visit ord kvs))" "map_of (visit ord kvs) = map_of kvs"
proof -
  show s: "set (visit ord kvs) = set kvs" using visit_mset [OF assms] by (metis set_mset_mset)
  have "map fst (visit ord kvs) = ord (map fst kvs)" by (simp add: visit_def comp_def)
  then show d: "distinct (map fst (visit ord kvs))" using order_perm(1) [OF assms] by simp
  show "map_of (visit ord kvs) = map_of kvs" using map_of_inject_set [OF d assms(2)] s by simp
qed

section \<open>Unspent outputs\<close>

text \<open>The documents of the two services for an output.\<close>

definition bf_amount_doc :: "string \<Rightarrow> u64 \<Rightarrow> json" where
  "bf_amount_doc unit amount = JObj [(''unit'', JStr unit), (''quantity'', JStr (itoa64 amount))]"

definition bf_utxo_doc :: "string \<Rightarrow> Utxo \<Rightarrow> json" where
  "bf_utxo_doc addr u = JObj [(''address'', JStr addr), (''tx_hash'', JStr (ut_Hash u)), (''tx_index'', enc_word (ut_Index u)),
     (''output_index'', enc_word (ut_Index u)),
     (''amount'', JArr (bf_amount_doc AdaTokenName (ut_Amount u) #
        map (\<lambda>ta. bf_amount_doc (tk_PolicyID (ta_Token ta) @ hex_encode (str_bytes (tk_Name (ta_Token ta)))) (ta_Amount ta)) (ut_Tokens u)))]"

definition policy :: "TokenAmount \<Rightarrow> string" where
  "policy ta = tk_PolicyID (ta_Token ta)"

definition og_names :: "TokenAmount list \<Rightarrow> (string \<times> u64) list" where
  "og_names tas = map (\<lambda>ta. (hex_encode (str_bytes (tk_Name (ta_Token ta))), ta_Amount ta)) tas"

definition og_value :: "Utxo \<Rightarrow> (string \<times> (string \<times> u64) list) list" where
  "og_value u = (AdaTokenPolicyID, [(AdaTokenName, ut_Amount u)]) #
     map (\<lambda>p. (p, og_names (filter (\<lambda>ta. policy ta = p) (ut_Tokens u)))) (remdups (map policy (ut_Tokens u)))"

definition og_utxo_doc :: "string \<Rightarrow> Utxo \<Rightarrow> json" where
  "og_utxo_doc addr u = JObj [(''transaction'', JObj [(''id'', JStr (ut_Hash u))]), (''index'', enc_word (ut_Index u)),
     (''address'', JStr addr),
     (''value'', JObj (map (\<lambda>(p, ns). (p, JObj (map (\<lambda>(n, v). (n, enc_word v)) ns))) (og_value u)))]"

text \<open>A policy is a hash in hexadecimal, and no token is listed twice.\<close>

definition ledger_utxo :: "Utxo \<Rightarrow> bool" where
  "ledger_utxo u \<longleftrightarrow> (\<forall>ta \<in> set (ut_Tokens u). length (policy ta) = KeyHashSize * 2) \<and> distinct (map ta_Token (ut_Tokens u))"

lemma bf_amounts_docs:
  "\<forall>ta \<in> set tas. length (policy ta) = KeyHashSize * 2 \<Longrightarrow>
     bf_amounts (map (\<lambda>ta. (tk_PolicyID (ta_Token ta) @ hex_encode (str_bytes (tk_Name (ta_Token ta))), itoa64 (ta_Amount ta))) tas) a ts =
       Some (Inr (a, ts @ tas))"
proof (induction tas arbitrary: ts)
  case (Cons ta tas)
  obtain p n v where ta: "ta = \<lparr>ta_Token = \<lparr>tk_PolicyID = p, tk_Name = n\<rparr>, ta_Amount = v\<rparr>"
    by (cases ta; cases "ta_Token ta") auto
  have "length (p @ hex_encode (str_bytes n)) \<ge> KeyHashSize * 2" "length p = KeyHashSize * 2"
    using Cons.prems by (simp_all add: ta policy_def)
  moreover from this have "p @ hex_encode (str_bytes n) \<noteq> AdaTokenName"
    by (auto simp: AdaTokenName_def KeyHashSize_def dest!: arg_cong [where f = length])
  ultimately show ?case using Cons by (simp add: ta NewToken_def)
qed simp

lemma bf_reads:
  assumes "\<forall>u \<in> set us. ledger_utxo u"
  shows "rbind (dec_list dec_bf_utxo (JArr (map (bf_utxo_doc addr) us))) Inr = Inr (map (\<lambda>u. \<lparr>bu_Address = addr, bu_Hash = ut_Hash u,
       bu_Index = ut_Index u, bu_OutputIndex = ut_Index u, bu_Amount = (AdaTokenName, itoa64 (ut_Amount u)) #
         map (\<lambda>ta. (tk_PolicyID (ta_Token ta) @ hex_encode (str_bytes (tk_Name (ta_Token ta))), itoa64 (ta_Amount ta))) (ut_Tokens u)\<rparr>) us)"
proof -
  have am: "dec_bf_amount (bf_amount_doc unit v) = Inr (unit, itoa64 v)" for unit v
    by (simp add: dec_bf_amount_def bf_amount_doc_def json_member_def)
  have tas: "result_map dec_bf_amount (map (\<lambda>ta. bf_amount_doc (f ta) (ta_Amount ta)) tas) = Inr (map (\<lambda>ta. (f ta, itoa64 (ta_Amount ta))) tas)"
    for f :: "TokenAmount \<Rightarrow> string" and tas by (induction tas) (simp_all add: am)
  have "dec_bf_utxo (bf_utxo_doc addr u) = Inr \<lparr>bu_Address = addr, bu_Hash = ut_Hash u,
       bu_Index = ut_Index u, bu_OutputIndex = ut_Index u, bu_Amount = (AdaTokenName, itoa64 (ut_Amount u)) #
         map (\<lambda>ta. (tk_PolicyID (ta_Token ta) @ hex_encode (str_bytes (tk_Name (ta_Token ta))), itoa64 (ta_Amount ta))) (ut_Tokens u)\<rparr>" for u
    by (simp add: dec_bf_utxo_def bf_utxo_doc_def json_member_def am tas)
  then have "result_map dec_bf_utxo (map (bf_utxo_doc addr) us) = Inr (map (\<lambda>u. \<lparr>bu_Address = addr, bu_Hash = ut_Hash u,
       bu_Index = ut_Index u, bu_OutputIndex = ut_Index u, bu_Amount = (AdaTokenName, itoa64 (ut_Amount u)) #
         map (\<lambda>ta. (tk_PolicyID (ta_Token ta) @ hex_encode (str_bytes (tk_Name (ta_Token ta))), itoa64 (ta_Amount ta))) (ut_Tokens u)\<rparr>) us)"
    by (induction us) simp_all
  then show ?thesis by simp
qed

lemma bf_utxos_back:
  assumes "\<forall>u \<in> set us. ledger_utxo u"
  shows "bf_utxos (map (\<lambda>u. \<lparr>bu_Address = addr, bu_Hash = ut_Hash u,
       bu_Index = ut_Index u, bu_OutputIndex = ut_Index u, bu_Amount = (AdaTokenName, itoa64 (ut_Amount u)) #
         map (\<lambda>ta. (tk_PolicyID (ta_Token ta) @ hex_encode (str_bytes (tk_Name (ta_Token ta))), itoa64 (ta_Amount ta))) (ut_Tokens u)\<rparr>) us) =
     Some (Inr us)"
  using assms by (induction us) (simp_all add: bf_amounts_docs ledger_utxo_def)

text \<open>Ogmios: the tokens of one policy after another.\<close>

definition og_tokens :: "map_order \<Rightarrow> string \<times> (string \<times> u64) list \<Rightarrow> TokenAmount list" where
  "og_tokens ord kv = map (\<lambda>(name, v). \<lparr>ta_Token = NewToken (fst kv) (real_name name), ta_Amount = v\<rparr>) (visit ord (snd kv))"

lemma og_amounts_split:
  "distinct (map fst kvs) \<Longrightarrow> og_amounts ord kvs a ts =
     (case map_of kvs AdaTokenPolicyID of None \<Rightarrow> a
      | Some m \<Rightarrow> (case map_of m AdaTokenName of None \<Rightarrow> 0 | Some v \<Rightarrow> v),
      ts @ concat (map (og_tokens ord) (filter (\<lambda>kv. fst kv \<noteq> AdaTokenPolicyID) kvs)))"
proof (induction kvs arbitrary: a ts)
  case (Cons kv kvs)
  obtain p m where kv: "kv = (p, m)" by (cases kv)
  have "p \<notin> fst ` set kvs" using Cons.prems kv by simp
  then have "p = AdaTokenPolicyID \<Longrightarrow> map_of kvs AdaTokenPolicyID = None" by (auto simp: map_of_eq_None_iff)
  with Cons kv show ?case by (auto simp: og_tokens_def split: option.splits)
qed simp

lemma filter_parts:
  assumes "distinct ps"
  shows "mset (concat (map (\<lambda>p. filter (\<lambda>x. g x = p) xs) ps)) = filter_mset (\<lambda>x. g x \<in> set ps) (mset xs)"
  using assms
proof (induction ps)
  case (Cons p ps)
  then have "mset (concat (map (\<lambda>p. filter (\<lambda>x. g x = p) xs) ps)) = filter_mset (\<lambda>x. g x \<in> set ps) (mset xs)" "p \<notin> set ps" by simp_all
  then show ?case by (auto intro!: multiset_eqI)
qed simp

lemma og_value_distinct:
  assumes "ledger_utxo u"
  shows "distinct (map fst (og_value u))" "\<And>p. distinct (map fst (og_names (filter (\<lambda>ta. policy ta = p) (ut_Tokens u))))"
proof -
  have "AdaTokenPolicyID \<notin> policy ` set (ut_Tokens u)"
    using assms by (auto simp: ledger_utxo_def AdaTokenPolicyID_def KeyHashSize_def dest!: arg_cong [where f = length])
  then show "distinct (map fst (og_value u))" by (auto simp: og_value_def comp_def)
  fix p
  have "inj_on (\<lambda>ta. hex_encode (str_bytes (tk_Name (ta_Token ta)))) (set (filter (\<lambda>ta. policy ta = p) (ut_Tokens u)))"
  proof (rule inj_onI)
    fix x y assume x: "x \<in> set (filter (\<lambda>ta. policy ta = p) (ut_Tokens u))" and y: "y \<in> set (filter (\<lambda>ta. policy ta = p) (ut_Tokens u))"
      and eq: "hex_encode (str_bytes (tk_Name (ta_Token x))) = hex_encode (str_bytes (tk_Name (ta_Token y)))"
    have "tk_Name (ta_Token x) = tk_Name (ta_Token y)" using arg_cong [OF eq, of real_name] by simp
    then have "ta_Token x = ta_Token y" using x y by (cases "ta_Token x"; cases "ta_Token y") (simp add: policy_def)
    moreover have "inj_on ta_Token (set (ut_Tokens u))" using assms by (simp add: ledger_utxo_def distinct_map)
    ultimately show "x = y" using x y by (simp add: inj_on_def)
  qed
  moreover have "distinct (filter (\<lambda>ta. policy ta = p) (ut_Tokens u))" using assms by (simp add: ledger_utxo_def distinct_map)
  ultimately show "distinct (map fst (og_names (filter (\<lambda>ta. policy ta = p) (ut_Tokens u))))"
    by (simp add: og_names_def comp_def distinct_map)
qed

lemma og_reads:
  assumes "ledger_utxo u"
  shows "dec_og_utxo (og_utxo_doc addr u) = Inr \<lparr>ou_ID = ut_Hash u, ou_Index = ut_Index u, ou_Address = addr, ou_Value = og_value u\<rparr>"
proof -
  have names: "dec_map dec_word (JObj (map (\<lambda>(n, v). (n, enc_word v)) ns)) = Inr ns" if "distinct (map fst ns)" for ns :: "(string \<times> u64) list"
    using dec_map_JObj [of ns dec_word enc_word id] that by simp
  have "distinct (map fst ns)" if "(p, ns) \<in> set (og_value u)" for p ns
    using that og_value_distinct(2) [OF assms] by (auto simp: og_value_def)
  then have "dec_map (dec_map dec_word) (JObj (map (\<lambda>(p, ns). (p, JObj (map (\<lambda>(n, v). (n, enc_word v)) ns))) (og_value u))) = Inr (og_value u)"
    using dec_map_JObj [OF og_value_distinct(1) [OF assms], of "dec_map dec_word" "\<lambda>ns. JObj (map (\<lambda>(n, v). (n, enc_word v)) ns)" id] names
    by auto
  then show ?thesis by (simp add: dec_og_utxo_def og_utxo_doc_def json_member_def)
qed

lemma mset_concat_map: "mset (concat (map f xs)) = (\<Sum>x\<in>#mset xs. mset (f x))"
  by (induction xs) simp_all

definition same_utxo :: "Utxo \<Rightarrow> Utxo \<Rightarrow> bool" where
  "same_utxo u v \<longleftrightarrow> ut_Hash v = ut_Hash u \<and> ut_Index v = ut_Index u \<and> ut_Amount v = ut_Amount u \<and>
     mset (ut_Tokens v) = mset (ut_Tokens u)"

lemma og_utxo_same:
  assumes "order_ok ord" "ledger_utxo u"
  shows "same_utxo u (og_utxo ord \<lparr>ou_ID = ut_Hash u, ou_Index = ut_Index u, ou_Address = addr, ou_Value = og_value u\<rparr>)"
proof -
  define kvs where "kvs = visit ord (og_value u)"
  note V = visit_facts [OF assms(1) og_value_distinct(1) [OF assms(2)], folded kvs_def]
  have am: "map_of kvs AdaTokenPolicyID = Some [(AdaTokenName, ut_Amount u)]" by (simp add: V(3) og_value_def)
  define ps where "ps = remdups (map policy (ut_Tokens u))"
  have ada: "AdaTokenPolicyID \<notin> set ps" using og_value_distinct(1) [OF assms(2)] by (simp add: og_value_def ps_def)
  have part: "mset (og_tokens ord (p, og_names (filter (\<lambda>ta. policy ta = p) (ut_Tokens u)))) = mset (filter (\<lambda>ta. policy ta = p) (ut_Tokens u))" for p
  proof -
    have "mset (og_tokens ord (p, og_names (filter (\<lambda>ta. policy ta = p) (ut_Tokens u)))) =
        image_mset (\<lambda>(name, v). \<lparr>ta_Token = NewToken p (real_name name), ta_Amount = v\<rparr>) (mset (og_names (filter (\<lambda>ta. policy ta = p) (ut_Tokens u))))"
      using visit_mset [OF assms(1) og_value_distinct(2) [OF assms(2)], of p] by (simp add: og_tokens_def)
    also have "\<dots> = mset (map (\<lambda>ta. \<lparr>ta_Token = NewToken p (tk_Name (ta_Token ta)), ta_Amount = ta_Amount ta\<rparr>) (filter (\<lambda>ta. policy ta = p) (ut_Tokens u)))"
      by (simp add: og_names_def multiset.map_comp comp_def)
    also have "map (\<lambda>ta. \<lparr>ta_Token = NewToken p (tk_Name (ta_Token ta)), ta_Amount = ta_Amount ta\<rparr>) (filter (\<lambda>ta. policy ta = p) (ut_Tokens u)) =
        filter (\<lambda>ta. policy ta = p) (ut_Tokens u)"
      by (rule map_idI) (auto simp: policy_def NewToken_def)
    finally show ?thesis .
  qed
  have "mset (concat (map (og_tokens ord) (filter (\<lambda>kv. fst kv \<noteq> AdaTokenPolicyID) kvs))) =
      (\<Sum>kv\<in>#filter_mset (\<lambda>kv. fst kv \<noteq> AdaTokenPolicyID) (mset (og_value u)). mset (og_tokens ord kv))"
    using visit_mset [OF assms(1) og_value_distinct(1) [OF assms(2)]] by (simp only: mset_concat_map mset_filter kvs_def)
  also have "filter_mset (\<lambda>kv. fst kv \<noteq> AdaTokenPolicyID) (mset (og_value u)) =
      mset (map (\<lambda>p. (p, og_names (filter (\<lambda>ta. policy ta = p) (ut_Tokens u)))) ps)"
    using ada by (auto simp: og_value_def ps_def [symmetric] filter_mset_eq_conv image_iff)
  also have "(\<Sum>kv\<in>#mset (map (\<lambda>p. (p, og_names (filter (\<lambda>ta. policy ta = p) (ut_Tokens u)))) ps). mset (og_tokens ord kv)) =
      mset (concat (map (\<lambda>p. filter (\<lambda>ta. policy ta = p) (ut_Tokens u)) ps))"
    by (simp add: mset_concat_map part multiset.map_comp comp_def)
  also have "\<dots> = mset (ut_Tokens u)"
    using filter_parts [of ps policy "ut_Tokens u"] by (simp add: ps_def filter_mset_eq_conv)
  finally have "mset (concat (map (og_tokens ord) (filter (\<lambda>kv. fst kv \<noteq> AdaTokenPolicyID) kvs))) = mset (ut_Tokens u)" .
  then show ?thesis
    by (simp add: same_utxo_def og_utxo_def og_amounts_split [OF V(2)] am flip: kvs_def)
qed

text \<open>An answer of the server with the status 200.\<close>

definition bf_answers :: "http_env \<Rightarrow> http_request \<Rightarrow> json \<Rightarrow> bool" where
  "bf_answers E req doc \<longleftrightarrow> he_New E (rq_Method req) (rq_URL req) = None \<and>
     (\<exists>t. he_Do E req = Inr \<lparr>rp_StatusCode = 200, rp_Text = Inr t\<rparr> \<and> he_first E t = Some doc \<and> he_json E t = Some doc)"

definition og_request :: "string \<Rightarrow> json \<Rightarrow> http_request" where
  "og_request url request = \<lparr>rq_Method = ''POST'', rq_URL = url, rq_Header = [(''Content-Type'', ''application/json'')], rq_Body = BodyJson request\<rparr>"

definition og_response :: "string \<Rightarrow> json \<Rightarrow> json" where
  "og_response method result = JObj [(''jsonrpc'', JStr ''2.0''), (''method'', JStr method), (''result'', result), (''id'', JNull)]"

lemma bf_answered:
  "bf_answers E req doc \<Longrightarrow> \<exists>t. http_do E req = Inr \<lparr>rp_StatusCode = 200, rp_Text = Inr t\<rparr> \<and> he_first E t = Some doc \<and> he_json E t = Some doc"
  by (auto simp: bf_answers_def http_do_def)

lemma og_answered:
  assumes "bf_answers E (og_request url request) (og_response method result)"
  shows "executeHTTPOgmios E (dec_rpc dec) zero url request nf = Some (dec (og_response method result))"
proof -
  have "dec_rpc dec (og_response method result) = dec (og_response method result)"
    by (simp add: dec_rpc_def og_response_def json_member_def)
  with bf_answered [OF assms] show ?thesis
    by (auto simp: executeHTTPOgmios_def og_request_def unmarshal_body_def StatusNotFound_def StatusOK_def)
qed

text \<open>
  How Blockfrost gives the unspent outputs of an address: in pages of one hundred, of which a request that
  names none gets the first, and with status 404 when the address was never used.
\<close>

definition bf_page :: "http_env \<Rightarrow> http_request \<Rightarrow> string \<Rightarrow> Utxo list \<Rightarrow> bool" where
  "bf_page E req addr us \<longleftrightarrow>
     us = [] \<and> he_New E (rq_Method req) (rq_URL req) = None \<and> (\<exists>t. he_Do E req = Inr \<lparr>rp_StatusCode = 404, rp_Text = t\<rparr>) \<or>
     bf_answers E req (JArr (map (bf_utxo_doc addr) (take 100 us)))"

lemma bf_GetUtxos_page:
  assumes "\<forall>u \<in> set us. ledger_utxo u" and page: "bf_page E (bf_get b (''/addresses/'' @ addr @ ''/utxos'')) addr us"
  shows "bf_GetUtxos E b addr = Some (Inr (take 100 us))"
  using page unfolding bf_page_def
proof (elim disjE conjE exE)
  fix t assume "us = []" "he_New E (rq_Method (bf_get b (''/addresses/'' @ addr @ ''/utxos''))) (rq_URL (bf_get b (''/addresses/'' @ addr @ ''/utxos''))) = None"
    "he_Do E (bf_get b (''/addresses/'' @ addr @ ''/utxos'')) = Inr \<lparr>rp_StatusCode = 404, rp_Text = t\<rparr>"
  then show ?thesis by (simp add: bf_GetUtxos_def http_do_def StatusNotFound_def)
next
  assume answer: "bf_answers E (bf_get b (''/addresses/'' @ addr @ ''/utxos'')) (JArr (map (bf_utxo_doc addr) (take 100 us)))"
  have first: "\<forall>u \<in> set (take 100 us). ledger_utxo u" using assms(1) by (blast dest: in_set_takeD)
  have "dec_list dec_bf_utxo (JArr (map (bf_utxo_doc addr) (take 100 us))) = Inr (map (\<lambda>u. \<lparr>bu_Address = addr, bu_Hash = ut_Hash u,
       bu_Index = ut_Index u, bu_OutputIndex = ut_Index u, bu_Amount = (AdaTokenName, itoa64 (ut_Amount u)) #
         map (\<lambda>ta. (tk_PolicyID (ta_Token ta) @ hex_encode (str_bytes (tk_Name (ta_Token ta))), itoa64 (ta_Amount ta))) (ut_Tokens u)\<rparr>) (take 100 us))"
    using bf_reads [OF first, of addr] by (simp add: rbind_eq_Inr)
  with bf_answered [OF answer] bf_utxos_back [OF first, of addr] show ?thesis
    by (auto simp: bf_GetUtxos_def StatusOK_def StatusNotFound_def decode_body_def)
qed

lemma og_GetUtxos_answered:
  assumes "order_ok ord" "\<forall>u \<in> set us. ledger_utxo u"
    "bf_answers E (og_request o' (ogmiosQueryUtxoRequest ''queryLedgerState/utxo'' [addr]))
       (og_response ''queryLedgerState/utxo'' (JArr (map (og_utxo_doc addr) us)))"
  shows "\<exists>vs. og_GetUtxos ord E o' addr = Some (Inr vs) \<and> list_all2 same_utxo us vs"
proof -
  define rd where "rd u = \<lparr>ou_ID = ut_Hash u, ou_Index = ut_Index u, ou_Address = addr, ou_Value = og_value u\<rparr>" for u
  have "result_map dec_og_utxo (map (og_utxo_doc addr) us) = Inr (map rd us)"
    using assms(2) by (induction us) (simp_all add: og_reads rd_def)
  then have "og_GetUtxos ord E o' addr = Some (Inr (map (og_utxo ord) (map rd us)))"
    by (simp add: og_GetUtxos_def og_answered [OF assms(3)]) (simp add: og_response_def json_member_def)
  moreover have "list_all2 same_utxo us (map (og_utxo ord) (map rd us))"
    using assms(2) og_utxo_same [OF assms(1)] by (simp add: list_all2_map2 list.rel_refl_strong rd_def list_all2_same)
  ultimately show ?thesis by blast
qed

text \<open>
  C28. Let \<open>us\<close> be all unspent outputs of an address, which Blockfrost gives in pages of one hundred (and status
  404 for an address never used) and Ogmios all at once and in an order of its own. Then the Blockfrost
  provider reports exactly the first hundred of them, so all of them when there are no more, and the Ogmios
  provider all of them, with the same amounts and the same tokens, in whatever order it visits the policies and names.
\<close>

theorem providers_agree_on_utxos:
  assumes "order_ok ord" "\<forall>u \<in> set us. ledger_utxo u" "bf_page E (bf_get b (''/addresses/'' @ addr @ ''/utxos'')) addr us"
    "mset us' = mset us"
    "bf_answers E (og_request o' (ogmiosQueryUtxoRequest ''queryLedgerState/utxo'' [addr]))
       (og_response ''queryLedgerState/utxo'' (JArr (map (og_utxo_doc addr) us')))"
  shows "bf_GetUtxos E b addr = Some (Inr (take 100 us)) \<and>
    (length us \<le> 100 \<longrightarrow> bf_GetUtxos E b addr = Some (Inr us)) \<and>
    (\<exists>vs ws. og_GetUtxos ord E o' addr = Some (Inr vs) \<and> mset ws = mset vs \<and> list_all2 same_utxo us ws)"
proof (intro conjI impI)
  have "\<forall>u \<in> set us'. ledger_utxo u" using assms(2) mset_eq_setD [OF assms(4)] by simp
  from og_GetUtxos_answered [OF assms(1) this assms(5)]
  obtain vs where vs: "og_GetUtxos ord E o' addr = Some (Inr vs)" "list_all2 same_utxo us' vs" by blast
  from list_all2_reorder_left_invariance [OF vs(2) assms(4) [symmetric]] vs(1)
  show "\<exists>vs ws. og_GetUtxos ord E o' addr = Some (Inr vs) \<and> mset ws = mset vs \<and> list_all2 same_utxo us ws" by blast
  show page: "bf_GetUtxos E b addr = Some (Inr (take 100 us))" by (rule bf_GetUtxos_page [OF assms(2,3)])
  assume "length us \<le> 100"
  with page show "bf_GetUtxos E b addr = Some (Inr us)" by simp
qed

text \<open>A server that answers a GET with the first document and a POST with the second.\<close>

definition two_services :: "json \<Rightarrow> json \<Rightarrow> http_env" where
  "two_services get post = \<lparr>he_New = (\<lambda>m u. None),
     he_Do = (\<lambda>req. Inr \<lparr>rp_StatusCode = 200, rp_Text = Inr (rq_Method req)\<rparr>),
     he_json = (\<lambda>t. Some (if t = ''GET'' then get else post)),
     he_first = (\<lambda>t. Some (if t = ''GET'' then get else post)), he_fmt = (\<lambda>j. '''')\<rparr>"

lemma two_services_answer:
  "bf_answers (two_services get post) (bf_get b path) get"
  "bf_answers (two_services get post) (og_request url request) post"
  by (simp_all add: bf_answers_def two_services_def bf_get_def og_request_def)

definition a_provider :: TxProviderBlockFrost where
  "a_provider = NewTxProviderBlockFrost ''https://blockfrost'' ''project''"

definition some_utxos :: "Utxo list" where
  "some_utxos =
     (let p = replicate 56 CHR ''a''; q = replicate 56 CHR ''b'' in
      [\<lparr>ut_Hash = ''aa'', ut_Index = 1, ut_Amount = 5000000, ut_Tokens =
          [\<lparr>ta_Token = NewToken p ''x'', ta_Amount = 7\<rparr>, \<lparr>ta_Token = NewToken q ''y'', ta_Amount = 8\<rparr>,
           \<lparr>ta_Token = NewToken p ''z'', ta_Amount = 9\<rparr>]\<rparr>,
       \<lparr>ut_Hash = ''bb'', ut_Index = 0, ut_Amount = 7, ut_Tokens = []\<rparr>])"

theorem providers_agree_on_utxos_witness:
  "\<exists>E. bf_GetUtxos E a_provider ''addr'' = Some (Inr some_utxos) \<and>
    (\<exists>vs ws. og_GetUtxos rev E ''https://ogmios'' ''addr'' = Some (Inr vs) \<and> mset ws = mset vs \<and> list_all2 same_utxo some_utxos ws)"
proof -
  define E where "E = two_services (JArr (map (bf_utxo_doc ''addr'') (take 100 some_utxos)))
    (og_response ''queryLedgerState/utxo'' (JArr (map (og_utxo_doc ''addr'') (rev some_utxos))))"
  have "\<forall>u \<in> set some_utxos. ledger_utxo u" "length some_utxos \<le> 100" "order_ok (rev :: string list \<Rightarrow> string list)"
    by (simp_all add: order_ok_def some_utxos_def Let_def ledger_utxo_def policy_def KeyHashSize_def NewToken_def)
  moreover have "bf_page E (bf_get a_provider (''/addresses/'' @ ''addr'' @ ''/utxos'')) ''addr'' some_utxos"
    unfolding bf_page_def E_def by (intro disjI2 two_services_answer)
  moreover have "bf_answers E (og_request ''https://ogmios'' (ogmiosQueryUtxoRequest ''queryLedgerState/utxo'' [''addr'']))
      (og_response ''queryLedgerState/utxo'' (JArr (map (og_utxo_doc ''addr'') (rev some_utxos))))"
    unfolding E_def by (rule two_services_answer)
  moreover have "mset (rev some_utxos) = mset some_utxos" by simp
  ultimately show ?thesis using providers_agree_on_utxos by blast
qed

end
