(* ===== verification/Provider_Params_Props.thy ===== *)
theory Provider_Params_Props
  imports Provider_Http_Props
begin

text \<open>
  The protocol parameters: whichever service they come from, the provider marshals every field from the right
  member, but Blockfrost has not those of Conway, and of its cost models only those by numbers are read.
\<close>

section \<open>The documents of the services\<close>

text \<open>
  \<open>fj\<close> and \<open>ft\<close> are how the services write a float: as a JSON number, and as a ratio or decimal text.
\<close>

definition float_ok :: "'f float_ops \<Rightarrow> ('f \<Rightarrow> json) \<Rightarrow> ('f \<Rightarrow> string) \<Rightarrow> bool" where
  "float_ok F fj ft \<longleftrightarrow> (\<forall>x. dec_float F (fj x) = Inr x \<and> asFloat F (ft x) = x)"

text \<open>The cost models by the version of their script.\<close>

definition models_ok :: "(string \<times> int list) list \<Rightarrow> bool" where
  "models_ok models \<longleftrightarrow> distinct (map fst models) \<and>
     (\<forall>(v, ints) \<in> set models. CHR '':'' \<notin> set v \<and> ints \<noteq> [] \<and> (\<forall>n \<in> set ints. - (2 ^ 63) \<le> n \<and> n < 2 ^ 63))"

definition plutus :: "(string \<times> int list) list \<Rightarrow> (string \<times> int list) list" where
  "plutus models = map (\<lambda>(v, ints). (''PlutusV'' @ v, ints)) models"

text \<open>
  Blockfrost gives the cost model of a script as an object. The names of its entries, from their numbers, are
  the numbers themselves, as the code expects them, or the names of the operations.
\<close>

type_synonym naming = "string \<Rightarrow> nat \<Rightarrow> string"

definition numbered :: "(nat \<Rightarrow> string) \<Rightarrow> int list \<Rightarrow> bool" where
  "numbered f ints \<longleftrightarrow> (\<forall>i < length ints. f i = itoa i)"

definition naming_ok :: "naming \<Rightarrow> (string \<times> int list) list \<Rightarrow> bool" where
  "naming_ok nm models \<longleftrightarrow> (\<forall>(k, ints) \<in> set (plutus models). length ints < 2 ^ 63 \<and> inj_on (nm k) {..<length ints} \<and>
     (numbered (nm k) ints \<or> (\<forall>i < length ints. Atoi (nm k i) = None)))"

definition bf_model_doc :: "(nat \<Rightarrow> string) \<Rightarrow> int list \<Rightarrow> json" where
  "bf_model_doc f ints = JObj (map (\<lambda>i. (f i, JNum (ints ! i))) [0..<length ints])"

text \<open>What is read of a model: nothing of one whose entries have names of operations.\<close>

definition read_model :: "(nat \<Rightarrow> string) \<Rightarrow> int list \<Rightarrow> int list" where
  "read_model f ints = (if numbered f ints then ints else replicate (length ints) 0)"

definition read_models :: "naming \<Rightarrow> (string \<times> int list) list \<Rightarrow> (string \<times> int list) list" where
  "read_models nm kvs = map (\<lambda>(k, ints). (k, read_model (nm k) ints)) kvs"

definition bf_params_doc :: "('f \<Rightarrow> json) \<Rightarrow> naming \<Rightarrow> (string \<times> int list) list \<Rightarrow> 'f ProtocolParameters \<Rightarrow> json" where
  "bf_params_doc fj nm models p = JObj
     [(''protocol_major_ver'', enc_word (pv_Major (pp_ProtocolVersion p))),
      (''protocol_minor_ver'', enc_word (pv_Minor (pp_ProtocolVersion p))),
      (''max_block_header_size'', enc_word (pp_MaxBlockHeaderSize p)), (''max_block_size'', enc_word (pp_MaxBlockBodySize p)),
      (''max_tx_size'', enc_word (pp_MaxTxSize p)), (''min_fee_b'', enc_word (pp_TxFeeFixed p)),
      (''min_fee_a'', enc_word (pp_TxFeePerByte p)), (''key_deposit'', JStr (itoa64 (pp_StakeAddressDeposit p))),
      (''pool_deposit'', JStr (itoa64 (pp_StakePoolDeposit p))), (''min_pool_cost'', JStr (itoa64 (pp_MinPoolCost p))),
      (''e_max'', enc_word (pp_PoolRetireMaxEpoch p)), (''n_opt'', enc_word (pp_StakePoolTargetNum p)),
      (''a0'', fj (pp_PoolPledgeInfluence p)), (''rho'', fj (pp_MonetaryExpansion p)), (''tau'', fj (pp_TreasuryCut p)),
      (''collateral_percent'', enc_word (pp_CollateralPercentage p)),
      (''price_mem'', fj (ps_PriceMemory (pp_ExecutionUnitPrices p))), (''price_step'', fj (ps_PriceSteps (pp_ExecutionUnitPrices p))),
      (''coins_per_utxo_word'', JStr (itoa64 (pp_UtxoCostPerByte p))),
      (''max_tx_ex_mem'', JStr (itoa64 (ms_Memory (pp_MaxTxExecutionUnits p)))),
      (''max_tx_ex_steps'', JStr (itoa64 (ms_Steps (pp_MaxTxExecutionUnits p)))),
      (''max_block_ex_mem'', JStr (itoa64 (ms_Memory (pp_MaxBlockExecutionUnits p)))),
      (''max_block_ex_steps'', JStr (itoa64 (ms_Steps (pp_MaxBlockExecutionUnits p)))),
      (''max_collateral_inputs'', enc_word (pp_MaxCollateralInputs p)), (''max_val_size'', JStr (itoa64 (pp_MaxValueSize p))),
      (''cost_models'', JObj (map (\<lambda>(k, ints). (k, bf_model_doc (nm k) ints)) (plutus models)))]"

definition og_ada :: "u64 \<Rightarrow> json" where
  "og_ada w = JObj [(''ada'', JObj [(''lovelace'', enc_word w)])]"

definition og_bytes :: "u64 \<Rightarrow> json" where
  "og_bytes w = JObj [(''bytes'', enc_word w)]"

definition opt_doc :: "('a \<Rightarrow> json) \<Rightarrow> 'a option \<Rightarrow> json" where
  "opt_doc e x = (case x of None \<Rightarrow> JNull | Some v \<Rightarrow> e v)"

definition og_committee :: "('f \<Rightarrow> string) \<Rightarrow> 'f \<Rightarrow> 'f \<Rightarrow> json" where
  "og_committee ft d s = JObj [(''default'', JStr (ft d)), (''stateOfNoConfidence'', JStr (ft s))]"

definition og_pool_doc :: "('f \<Rightarrow> string) \<Rightarrow> 'f PoolVotingThresholds \<Rightarrow> json" where
  "og_pool_doc ft t = JObj [(''noConfidence'', JStr (ft (pt_MotionNoConfidence t))),
     (''constitutionalCommittee'', og_committee ft (pt_CommitteeNormal t) (pt_CommitteeNoConfidence t)),
     (''hardForkInitiation'', JStr (ft (pt_HardForkInitiation t))),
     (''protocolParametersUpdate'', JObj [(''security'', JStr (ft (pt_PPSecurityGroup t)))])]"

definition og_drep_doc :: "('f \<Rightarrow> string) \<Rightarrow> 'f VotingThresholds \<Rightarrow> json" where
  "og_drep_doc ft t = JObj [(''noConfidence'', JStr (ft (vt_MotionNoConfidence t))),
     (''constitutionalCommittee'', og_committee ft (vt_CommitteeNormal t) (vt_CommitteeNoConfidence t)),
     (''constitution'', JStr (ft (vt_UpdateToConstitution t))),
     (''hardForkInitiation'', JStr (ft (vt_HardForkInitiation t))),
     (''protocolParametersUpdate'', JObj [(''network'', JStr (ft (vt_PPNetworkGroup t))), (''economic'', JStr (ft (vt_PPEconomicGroup t))),
        (''technical'', JStr (ft (vt_PPTechnicalGroup t))), (''governance'', JStr (ft (vt_PPGovGroup t)))]),
     (''treasuryWithdrawals'', JStr (ft (vt_TreasuryWithdrawal t)))]"

definition og_params_doc :: "('f \<Rightarrow> json) \<Rightarrow> ('f \<Rightarrow> string) \<Rightarrow> (string \<times> int list) list \<Rightarrow> 'f ProtocolParameters \<Rightarrow> json" where
  "og_params_doc fj ft models p = JObj
     [(''version'', JObj [(''major'', enc_word (pv_Major (pp_ProtocolVersion p))), (''minor'', enc_word (pv_Minor (pp_ProtocolVersion p)))]),
      (''minFeeCoefficient'', enc_word (pp_TxFeePerByte p)), (''minFeeConstant'', og_ada (pp_TxFeeFixed p)),
      (''maxBlockBodySize'', og_bytes (pp_MaxBlockBodySize p)), (''maxBlockHeaderSize'', og_bytes (pp_MaxBlockHeaderSize p)),
      (''maxTransactionSize'', og_bytes (pp_MaxTxSize p)), (''stakeCredentialDeposit'', og_ada (pp_StakeAddressDeposit p)),
      (''stakePoolDeposit'', og_ada (pp_StakePoolDeposit p)), (''stakePoolRetirementEpochBound'', enc_word (pp_PoolRetireMaxEpoch p)),
      (''desiredNumberOfStakePools'', enc_word (pp_StakePoolTargetNum p)),
      (''stakePoolPledgeInfluence'', JStr (ft (pp_PoolPledgeInfluence p))), (''monetaryExpansion'', JStr (ft (pp_MonetaryExpansion p))),
      (''treasuryExpansion'', JStr (ft (pp_TreasuryCut p))), (''minStakePoolCost'', og_ada (pp_MinPoolCost p)),
      (''minUtxoDepositCoefficient'', enc_word (pp_UtxoCostPerByte p)),
      (''plutusCostModels'', JObj (map (\<lambda>(v, ints). (''plutus:v'' @ v, JArr (map JNum ints))) models)),
      (''scriptExecutionPrices'', JObj [(''memory'', JStr (ft (ps_PriceMemory (pp_ExecutionUnitPrices p)))),
         (''cpu'', JStr (ft (ps_PriceSteps (pp_ExecutionUnitPrices p))))]),
      (''maxExecutionUnitsPerTransaction'', JObj [(''memory'', enc_word (ms_Memory (pp_MaxTxExecutionUnits p))),
         (''cpu'', enc_word (ms_Steps (pp_MaxTxExecutionUnits p)))]),
      (''maxExecutionUnitsPerBlock'', JObj [(''memory'', enc_word (ms_Memory (pp_MaxBlockExecutionUnits p))),
         (''cpu'', enc_word (ms_Steps (pp_MaxBlockExecutionUnits p)))]),
      (''maxValueSize'', og_bytes (pp_MaxValueSize p)), (''collateralPercentage'', enc_word (pp_CollateralPercentage p)),
      (''maxCollateralInputs'', enc_word (pp_MaxCollateralInputs p)),
      (''minFeeReferenceScripts'', opt_doc (\<lambda>x. JObj [(''base'', fj x)]) (pp_MinFeeRefScriptCostPerByte p)),
      (''stakePoolVotingThresholds'', opt_doc (og_pool_doc ft) (pp_PoolVotingThresholds p)),
      (''constitutionalCommitteeMinSize'', opt_doc enc_word (pp_CommitteeMinSize p)),
      (''constitutionalCommitteeMaxTermLength'', opt_doc enc_word (pp_CommitteeMaxTermLength p)),
      (''governanceActionLifetime'', opt_doc enc_word (pp_GovActionLifetime p)),
      (''governanceActionDeposit'', opt_doc og_ada (pp_GovActionDeposit p)),
      (''delegateRepresentativeVotingThresholds'', opt_doc (og_drep_doc ft) (pp_DRepVotingThresholds p)),
      (''delegateRepresentativeDeposit'', opt_doc og_ada (pp_DRepDeposit p)),
      (''delegateRepresentativeMaxIdleTime'', opt_doc enc_word (pp_DRepActivity p))]"

section \<open>Members\<close>

text \<open>A member of an object with distinct names, found by computation on the names alone.\<close>

lemma member_at: "distinct (map fst fs) \<Longrightarrow> i < length fs \<Longrightarrow> json_member fs (fst (fs ! i)) = snd (fs ! i)"
proof -
  assume d: "distinct (map fst fs)" and i: "i < length fs"
  have "(fst (fs ! i), snd (fs ! i)) \<in> set (rev fs)" using i by simp
  moreover have "distinct (map fst (rev fs))" using d by (simp add: rev_map [symmetric])
  ultimately have "map_of (rev fs) (fst (fs ! i)) = Some (snd (fs ! i))" by (simp only: map_of_eq_Some_iff)
  then show ?thesis by (simp add: json_member_def)
qed

lemma lovelace_doc [simp]: "dec_lovelace (og_ada w) = Inr w"
  by (simp add: dec_lovelace_def og_ada_def json_member_def)

lemma bytes_doc [simp]: "dec_at [''bytes''] dec_word (og_bytes w) = Inr w"
  by (simp add: og_bytes_def json_member_def)

lemma doc_not_null: "enc_word w \<noteq> JNull" "og_ada v \<noteq> JNull" "og_pool_doc ft pt \<noteq> JNull" "og_drep_doc ft dt \<noteq> JNull"
  by (simp_all add: enc_word_def og_ada_def og_pool_doc_def og_drep_doc_def)

lemma dec_ptr_doc: "(\<And>v. e v \<noteq> JNull \<and> d (e v) = Inr (c v)) \<Longrightarrow> dec_ptr d (opt_doc e x) = Inr (map_option c x)"
  by (cases x) (simp_all add: dec_ptr_def opt_doc_def)

lemma dec_ptr_word [simp]: "dec_ptr dec_word (opt_doc enc_word x) = Inr x"
  using dec_ptr_doc [of enc_word dec_word id x] by (simp add: doc_not_null option.map_id)

lemma dec_ptr_lovelace [simp]: "dec_ptr dec_lovelace (opt_doc og_ada x) = Inr x"
  using dec_ptr_doc [of og_ada dec_lovelace id x] by (simp add: doc_not_null option.map_id)

section \<open>Cost models\<close>

lemma Atoi_itoa: "n < 2 ^ 63 \<Longrightarrow> Atoi (itoa n) = Some (int n)"
proof -
  assume n: "n < 2 ^ 63"
  have "c \<in> set (itoa n) \<Longrightarrow> c \<noteq> CHR ''-'' \<and> c \<noteq> CHR ''+''" for c using itoa_digits [of c n] by (auto simp: dec_val_def)
  moreover have "itoa n ! 0 \<in> set (itoa n)" by simp
  ultimately have "itoa n ! 0 \<noteq> CHR ''-''" "itoa n ! 0 \<noteq> CHR ''+''" by blast+
  then show ?thesis using n by (simp add: Atoi_def parse_dec_itoa)
qed

lemma fill_model_indices:
  assumes "length acc < 2 ^ 63" "set is \<subseteq> {..<length acc}"
  shows "\<exists>acc'. fill_model (map (\<lambda>i. (itoa i, f i)) is) acc = Some acc' \<and> length acc' = length acc \<and>
    (\<forall>j < length acc. acc' ! j = (if j \<in> set is then f j else acc ! j))"
  using assms
proof (induction "is" arbitrary: acc)
  case (Cons i js)
  then have i: "i < length acc" "Atoi (itoa i) = Some (int i)" by (auto intro!: Atoi_itoa)
  have "length (acc[i := f i]) < 2 ^ 63" "set js \<subseteq> {..<length (acc[i := f i])}" using Cons.prems by auto
  from Cons.IH [OF this] obtain acc' where acc': "fill_model (map (\<lambda>i. (itoa i, f i)) js) (acc[i := f i]) = Some acc'"
    "length acc' = length acc" "\<forall>j < length acc. acc' ! j = (if j \<in> set js then f j else acc[i := f i] ! j)" by auto
  then show ?case using i by (intro exI [of _ acc']) (auto simp: nth_list_update)
qed simp

definition model_entries :: "(nat \<Rightarrow> string) \<Rightarrow> int list \<Rightarrow> (string \<times> int) list" where
  "model_entries f ints = map (\<lambda>i. (f i, ints ! i)) [0..<length ints]"

lemma model_entries_distinct: "inj_on f {..<length ints} \<Longrightarrow> distinct (map fst (model_entries f ints))"
  by (simp add: model_entries_def comp_def distinct_map inj_on_def)

lemma itoa_inj: "inj_on itoa A"
  by (rule inj_on_inverseI [where g = "\<lambda>s. the (parse_dec 0 s)"]) (simp add: parse_dec_itoa)

lemma fill_model_names: "\<forall>kv \<in> set kvs. Atoi (fst kv) = None \<Longrightarrow> fill_model kvs ints = Some ints"
  by (induction kvs) auto

lemma fill_model_numbered:
  assumes "order_ok ord" "length ints < 2 ^ 63"
  shows "fill_model (visit ord (model_entries itoa ints)) (replicate (length ints) 0) = Some ints"
proof -
  define is' where "is' = map (\<lambda>kv. the (parse_dec 0 (fst kv))) (visit ord (model_entries itoa ints))"
  have s: "set (visit ord (model_entries itoa ints)) = set (model_entries itoa ints)"
    by (rule visit_facts(1) [OF assms(1) model_entries_distinct [OF itoa_inj]])
  have "visit ord (model_entries itoa ints) = map (\<lambda>i. (itoa i, ints ! i)) is'"
  proof (simp add: is'_def comp_def, rule map_idI [symmetric])
    fix kv assume "kv \<in> set (visit ord (model_entries itoa ints))"
    then obtain i where "kv = (itoa i, ints ! i)" using s by (auto simp: model_entries_def)
    then show "(itoa (the (parse_dec 0 (fst kv))), ints ! the (parse_dec 0 (fst kv))) = kv" by (simp add: parse_dec_itoa)
  qed
  moreover have is': "set is' = {..<length ints}"
    using s by (force simp: is'_def model_entries_def parse_dec_itoa image_iff)
  obtain acc' where "fill_model (map (\<lambda>i. (itoa i, ints ! i)) is') (replicate (length ints) 0) = Some acc'"
    "length acc' = length ints" "\<forall>j < length ints. acc' ! j = ints ! j"
    using fill_model_indices [of "replicate (length ints) 0" is' "(!) ints"] assms(2) is' by auto
  moreover from this have "acc' = ints" by (simp add: nth_equalityI)
  ultimately show ?thesis by simp
qed

lemma fill_model_visit:
  assumes "order_ok ord" "length ints < 2 ^ 63" "inj_on f {..<length ints}" "numbered f ints \<or> (\<forall>i < length ints. Atoi (f i) = None)"
  shows "fill_model (visit ord (model_entries f ints)) (replicate (length ints) 0) = Some (read_model f ints)"
proof (cases "numbered f ints")
  case True
  then have "model_entries f ints = model_entries itoa ints" by (simp add: model_entries_def numbered_def)
  with fill_model_numbered [OF assms(1,2)] True show ?thesis by (simp add: read_model_def)
next
  case False
  then have names: "\<forall>i < length ints. Atoi (f i) = None" using assms(4) by blast
  have "set (visit ord (model_entries f ints)) = set (model_entries f ints)"
    by (rule visit_facts(1) [OF assms(1) model_entries_distinct [OF assms(3)]])
  with names have "\<forall>kv \<in> set (visit ord (model_entries f ints)). Atoi (fst kv) = None" by (auto simp: model_entries_def)
  from fill_model_names [OF this] False show ?thesis by (simp add: read_model_def)
qed

definition entries_ok :: "naming \<Rightarrow> (string \<times> int list) list \<Rightarrow> bool" where
  "entries_ok nm kvs \<longleftrightarrow> (\<forall>(k, ints) \<in> set kvs. ints \<noteq> [] \<and> length ints < 2 ^ 63 \<and> inj_on (nm k) {..<length ints} \<and>
     (numbered (nm k) ints \<or> (\<forall>i < length ints. Atoi (nm k i) = None)))"

lemma map_add_fresh: "k \<notin> dom (map_of kvs) \<Longrightarrow> m(k \<mapsto> v) ++ map_of kvs = m ++ map_of ((k, v) # kvs)"
  by (auto simp: map_add_def fun_eq_iff split: option.splits)

lemma fill_models_all:
  assumes "order_ok ord" "entries_ok nm kvs" "distinct (map fst kvs)"
  shows "fill_models ord (map (\<lambda>(k, ints). (k, model_entries (nm k) ints)) kvs) m = Some (m ++ map_of (read_models nm kvs))"
  using assms(2,3)
proof (induction kvs arbitrary: m)
  case (Cons kv kvs)
  obtain k ints where kv: "kv = (k, ints)" by (cases kv)
  have ok: "ints \<noteq> []" "length ints < 2 ^ 63" "inj_on (nm k) {..<length ints}" "numbered (nm k) ints \<or> (\<forall>i < length ints. Atoi (nm k i) = None)"
    using Cons.prems(1) by (simp_all add: entries_ok_def kv)
  have rest: "entries_ok nm kvs" "distinct (map fst kvs)" using Cons.prems by (simp_all add: entries_ok_def)
  have "map fst (read_models nm kvs) = map fst kvs" by (simp add: read_models_def case_prod_beta)
  then have "fst ` set (read_models nm kvs) = fst ` set kvs" by (metis set_map)
  then have "k \<notin> dom (map_of (read_models nm kvs))" using Cons.prems(2) kv by (simp add: dom_map_of_conv_image_fst)
  from map_add_fresh [OF this]
  have eq: "m(k \<mapsto> read_model (nm k) ints) ++ map_of (read_models nm kvs) = m ++ map_of (read_models nm (kv # kvs))"
    by (simp add: kv read_models_def)
  have "length (model_entries (nm k) ints) = length ints" by (simp add: model_entries_def)
  then have "fill_models ord (map (\<lambda>(k, ints). (k, model_entries (nm k) ints)) (kv # kvs)) m =
      Some (m(k \<mapsto> read_model (nm k) ints) ++ map_of (read_models nm kvs))"
    using Cons.IH [OF rest] kv ok(1) fill_model_visit [OF assms(1) ok(2-4)]
    by (simp add: fun_upd_def del: map_add_upd_left)
  then show ?case by (simp only: eq)
qed (simp add: read_models_def)

lemma og_models_all:
  assumes "\<forall>(v, ints) \<in> set kvs. CHR '':'' \<notin> set v \<and> ints \<noteq> []" "distinct (map fst kvs)"
  shows "og_models (map (\<lambda>(v, ints). (''plutus:v'' @ v, ints)) kvs) m = m ++ map_of (plutus kvs)"
  using assms
proof (induction kvs arbitrary: m)
  case (Cons kv kvs)
  obtain v ints where kv: "kv = (v, ints)" by (cases kv)
  have v: "CHR '':'' \<notin> set v" "ints \<noteq> []" using Cons.prems kv by auto
  have "split_on (CHR '':'') (''plutus'' @ CHR '':'' # ''v'' @ v) = [''plutus'', ''v'' @ v]"
    using v(1) by (subst split_on_append) (simp_all add: split_on_none)
  then have parts: "split_on (CHR '':'') (''plutus:v'' @ v) = [''plutus'', ''v'' @ v]" by simp
  have "map fst (plutus kvs) = map (\<lambda>v. ''PlutusV'' @ v) (map fst kvs)" by (simp add: plutus_def case_prod_beta)
  then have "fst ` set (plutus kvs) = (\<lambda>v. ''PlutusV'' @ v) ` fst ` set kvs" by (metis image_set)
  then have "''PlutusV'' @ v \<notin> dom (map_of (plutus kvs))" using Cons.prems(2) by (auto simp: kv dom_map_of_conv_image_fst)
  note eq = map_add_fresh [OF this, of m ints]
  have "og_models (map (\<lambda>(v, ints). (''plutus:v'' @ v, ints)) kvs) M = M ++ map_of (plutus kvs)" for M
    using Cons by simp
  then have "og_models (map (\<lambda>(v, ints). (''plutus:v'' @ v, ints)) (kv # kvs)) m = m(''PlutusV'' @ v \<mapsto> ints) ++ map_of (plutus kvs)"
    using v(2) parts by (simp add: Let_def kv del: map_add_upd_left append_Cons)
  moreover have "plutus (kv # kvs) = (''PlutusV'' @ v, ints) # plutus kvs" by (simp only: plutus_def kv list.map prod.case)
  ultimately show ?case by (simp only: eq)
qed (simp add: plutus_def)

section \<open>Blockfrost\<close>

lemma plutus_ok:
  assumes "models_ok models" "naming_ok nm models"
  shows "distinct (map fst (plutus models))" "entries_ok nm (plutus models)"
proof -
  have "map fst (plutus models) = map (\<lambda>v. ''PlutusV'' @ v) (map fst models)" by (simp add: plutus_def case_prod_beta)
  then show "distinct (map fst (plutus models))" using assms(1) by (simp add: models_ok_def distinct_map comp_inj_on_iff inj_on_def)
  have "\<forall>(k, ints) \<in> set (plutus models). ints \<noteq> []" using assms(1) by (fastforce simp: plutus_def models_ok_def)
  then show "entries_ok nm (plutus models)" using assms(2) by (fastforce simp: entries_ok_def naming_ok_def)
qed

lemma bf_models_read:
  assumes "models_ok models" "naming_ok nm models"
  shows "dec_map (dec_map dec_int64) (JObj (map (\<lambda>(k, ints). (k, bf_model_doc (nm k) ints)) (plutus models))) =
    Inr (map (\<lambda>(k, ints). (k, model_entries (nm k) ints)) (plutus models))"
proof -
  let ?kvs = "map (\<lambda>(k, ints). (k, nm k, ints)) (plutus models)"
  have keys: "map fst ?kvs = map fst (plutus models)" by (simp add: case_prod_beta)
  have "dec_map (dec_map dec_int64) (JObj (map (\<lambda>(k, fi). (k, bf_model_doc (fst fi) (snd fi))) ?kvs)) =
    Inr (map (\<lambda>(k, fi). (k, model_entries (fst fi) (snd fi))) ?kvs)"
  proof (rule dec_map_JObj)
    show "distinct (map fst ?kvs)" using plutus_ok(1) [OF assms] by (simp only: keys)
    fix k fi assume "(k, fi) \<in> set ?kvs"
    then obtain ints where fi: "fi = (nm k, ints)" "(k, ints) \<in> set (plutus models)" by auto
    then have r: "\<forall>n \<in> set ints. - (2 ^ 63) \<le> n \<and> n < 2 ^ 63" using assms(1) by (auto simp: plutus_def models_ok_def)
    have inj: "inj_on (nm k) {..<length ints}" using assms(2) fi(2) by (auto simp: naming_ok_def)
    have "bf_model_doc (nm k) ints = JObj (map (\<lambda>(k, v). (k, JNum v)) (model_entries (nm k) ints))"
      by (simp add: bf_model_doc_def model_entries_def)
    moreover have "dec_int64 (JNum v) = Inr (id v)" if "(k', v) \<in> set (model_entries (nm k) ints)" for k' v
      using that r by (auto simp: model_entries_def)
    ultimately show "dec_map dec_int64 (bf_model_doc (fst fi) (snd fi)) = Inr (model_entries (fst fi) (snd fi))"
      using dec_map_JObj [OF model_entries_distinct [OF inj], of dec_int64 JNum id] fi(1) by auto
  qed
  then show ?thesis by (simp add: case_prod_beta' comp_def)
qed

definition bf_read :: "naming \<Rightarrow> (string \<times> int list) list \<Rightarrow> 'f ProtocolParameters \<Rightarrow> 'f bfpp" where
  "bf_read nm models p = \<lparr>bp_ProtocolMajorVer = pv_Major (pp_ProtocolVersion p), bp_ProtocolMinorVer = pv_Minor (pp_ProtocolVersion p),
     bp_MaxBlockHeaderSize = pp_MaxBlockHeaderSize p, bp_MaxBlockSize = pp_MaxBlockBodySize p, bp_MaxTxSize = pp_MaxTxSize p,
     bp_MinFeeB = pp_TxFeeFixed p, bp_MinFeeA = pp_TxFeePerByte p, bp_KeyDeposit = itoa64 (pp_StakeAddressDeposit p),
     bp_PoolDeposit = itoa64 (pp_StakePoolDeposit p), bp_MinPoolCost = itoa64 (pp_MinPoolCost p), bp_EMax = pp_PoolRetireMaxEpoch p,
     bp_NOpt = pp_StakePoolTargetNum p, bp_A0 = pp_PoolPledgeInfluence p, bp_Rho = pp_MonetaryExpansion p, bp_Tau = pp_TreasuryCut p,
     bp_CollateralPercent = pp_CollateralPercentage p, bp_PriceMem = ps_PriceMemory (pp_ExecutionUnitPrices p),
     bp_PriceStep = ps_PriceSteps (pp_ExecutionUnitPrices p), bp_CoinsPerUtxoWord = itoa64 (pp_UtxoCostPerByte p),
     bp_MaxTxExMem = itoa64 (ms_Memory (pp_MaxTxExecutionUnits p)), bp_MaxTxExSteps = itoa64 (ms_Steps (pp_MaxTxExecutionUnits p)),
     bp_MaxBlockExMem = itoa64 (ms_Memory (pp_MaxBlockExecutionUnits p)), bp_MaxBlockExSteps = itoa64 (ms_Steps (pp_MaxBlockExecutionUnits p)),
     bp_MaxCollateralInputs = pp_MaxCollateralInputs p, bp_MaxValSize = itoa64 (pp_MaxValueSize p),
     bp_CostModels = map (\<lambda>(k, ints). (k, model_entries (nm k) ints)) (plutus models)\<rparr>"

lemma bf_doc_read:
  assumes "float_ok F fj ft" "models_ok models" "naming_ok nm models"
  shows "dec_bfpp F (bf_params_doc fj nm models p) = Inr (bf_read nm models p)"
  using assms(1) bf_models_read [OF assms(2,3)]
  by (simp add: dec_bfpp_def bf_params_doc_def json_member_def float_ok_def bf_read_def)

lemma strToUInt64_itoa [simp]: "strToUInt64 (itoa64 w) = w"
  by (simp add: strToUInt64_def)

text \<open>The parameters without those of Conway, with the given cost models.\<close>

definition basic_params :: "(string \<times> int list) list \<Rightarrow> 'f ProtocolParameters \<Rightarrow> 'f ProtocolParameters" where
  "basic_params kvs p = p\<lparr>pp_CostModels := map_of kvs, pp_PoolVotingThresholds := None, pp_DRepVotingThresholds := None,
     pp_DRepActivity := None, pp_DRepDeposit := None, pp_GovActionDeposit := None, pp_GovActionLifetime := None,
     pp_MinFeeRefScriptCostPerByte := None, pp_CommitteeMaxTermLength := None, pp_CommitteeMinSize := None,
     pp_ExtraPraosEntropy := None, pp_Decentralization := None, pp_MinUTxOValue := None\<rparr>"

lemma fill_models_visited:
  assumes "order_ok ord" "entries_ok nm kvs" "distinct (map fst kvs)"
  shows "fill_models ord (visit ord (map (\<lambda>(k, ints). (k, model_entries (nm k) ints)) kvs)) m = Some (m ++ map_of (read_models nm kvs))"
proof -
  have keys: "map fst (map (\<lambda>(k, ints). (k, model_entries (nm k) ints)) kvs) = map fst kvs" by (simp add: case_prod_beta)
  have names: "map fst (read_models nm l) = map fst l" for l by (simp add: read_models_def case_prod_beta)
  have vals: "map_of (map (\<lambda>(k, ints). (k, model_entries (nm k) ints)) kvs) k = map_option (model_entries (nm k)) (map_of kvs k)" for k
    by (induction kvs) auto
  have V: "map_of (visit ord kvs) = map_of kvs" "distinct (map fst (visit ord kvs))" "set (visit ord kvs) = set kvs"
    using visit_facts [OF assms(1,3)] by simp_all
  have "visit ord (map (\<lambda>(k, ints). (k, model_entries (nm k) ints)) kvs) = map (\<lambda>(k, ints). (k, model_entries (nm k) ints)) (visit ord kvs)"
    unfolding visit_def keys vals
    using order_perm(2) [OF assms(1,3)]
    by (auto simp: map_of_map comp_def dom_map_of_conv_image_fst [symmetric] domIff intro!: map_cong)
  moreover have "map_of (read_models nm (visit ord kvs)) = map_of (read_models nm kvs)"
    by (rule iffD2 [OF map_of_inject_set]) (simp_all add: names V(2) assms(3), simp add: read_models_def V(3))
  moreover have "entries_ok nm (visit ord kvs)" using assms(2) by (simp add: entries_ok_def V(3))
  ultimately show ?thesis using fill_models_all [OF assms(1) _ V(2), of nm m] by simp
qed

lemma bf_converts:
  assumes "order_ok ord" "float_ok F fj ft" "models_ok models" "naming_ok nm models"
  shows "convertProtocolParameters F ord (Inr (bf_params_doc fj nm models p)) =
    Some (params_Marshal F (basic_params (read_models nm (plutus models)) p))"
proof -
  have "fill_models ord (visit ord (bp_CostModels (bf_read nm models p))) Map.empty = Some (map_of (read_models nm (plutus models)))"
    using fill_models_visited [OF assms(1) plutus_ok(2,1) [OF assms(3,4)], of Map.empty] by (simp add: bf_read_def)
  moreover have "bf_parameters (bf_read nm models p) (map_of kvs) = basic_params kvs p" for kvs
    by (simp add: bf_parameters_def bf_read_def basic_params_def NewProtocolParametersVersion_def
        NewProtocolParametersPriceMemorySteps_def NewProtocolParametersMemorySteps_def)
  ultimately show ?thesis using bf_doc_read [OF assms(2-4)] by (simp add: convertProtocolParameters_def)
qed

section \<open>Ogmios\<close>

definition og_pool_read :: "('f \<Rightarrow> string) \<Rightarrow> 'f PoolVotingThresholds \<Rightarrow> ogPoolThresholds" where
  "og_pool_read ft t = \<lparr>op_NoConfidence = ft (pt_MotionNoConfidence t), op_Default = ft (pt_CommitteeNormal t),
     op_StateOfNoConfidence = ft (pt_CommitteeNoConfidence t), op_HardForkInitiation = ft (pt_HardForkInitiation t),
     op_Security = ft (pt_PPSecurityGroup t)\<rparr>"

definition og_drep_read :: "('f \<Rightarrow> string) \<Rightarrow> 'f VotingThresholds \<Rightarrow> ogDRepThresholds" where
  "og_drep_read ft t = \<lparr>od_NoConfidence = ft (vt_MotionNoConfidence t), od_Default = ft (vt_CommitteeNormal t),
     od_StateOfNoConfidence = ft (vt_CommitteeNoConfidence t), od_Constitution = ft (vt_UpdateToConstitution t),
     od_HardForkInitiation = ft (vt_HardForkInitiation t), od_Network = ft (vt_PPNetworkGroup t), od_Economic = ft (vt_PPEconomicGroup t),
     od_Technical = ft (vt_PPTechnicalGroup t), od_Governance = ft (vt_PPGovGroup t), od_TreasuryWithdrawals = ft (vt_TreasuryWithdrawal t)\<rparr>"

definition og_read :: "('f \<Rightarrow> string) \<Rightarrow> (string \<times> int list) list \<Rightarrow> 'f ProtocolParameters \<Rightarrow> 'f ogmiosQueryProtocolParamsResponse" where
  "og_read ft models p = \<lparr>oq_Major = pv_Major (pp_ProtocolVersion p), oq_Minor = pv_Minor (pp_ProtocolVersion p),
     oq_MinFeeCoefficient = pp_TxFeePerByte p, oq_MinFeeConstant = pp_TxFeeFixed p, oq_MaxBlockBodySize = pp_MaxBlockBodySize p,
     oq_MaxBlockHeaderSize = pp_MaxBlockHeaderSize p, oq_MaxTransactionSize = pp_MaxTxSize p,
     oq_StakeCredentialDeposit = pp_StakeAddressDeposit p, oq_StakePoolDeposit = pp_StakePoolDeposit p,
     oq_StakePoolRetirementEpochBound = pp_PoolRetireMaxEpoch p, oq_DesiredNumberOfStakePools = pp_StakePoolTargetNum p,
     oq_StakePoolPledgeInfluence = ft (pp_PoolPledgeInfluence p), oq_MonetaryExpansion = ft (pp_MonetaryExpansion p),
     oq_TreasuryExpansion = ft (pp_TreasuryCut p), oq_MinStakePoolCost = pp_MinPoolCost p, oq_MinUtxoDepositCoefficient = pp_UtxoCostPerByte p,
     oq_PlutusCostModels = map (\<lambda>(v, ints). (''plutus:v'' @ v, ints)) models,
     oq_PriceMemory = ft (ps_PriceMemory (pp_ExecutionUnitPrices p)), oq_PriceCPU = ft (ps_PriceSteps (pp_ExecutionUnitPrices p)),
     oq_TxMemory = ms_Memory (pp_MaxTxExecutionUnits p), oq_TxCPU = ms_Steps (pp_MaxTxExecutionUnits p),
     oq_BlockMemory = ms_Memory (pp_MaxBlockExecutionUnits p), oq_BlockCPU = ms_Steps (pp_MaxBlockExecutionUnits p),
     oq_MaxValueSize = pp_MaxValueSize p, oq_CollateralPercentage = pp_CollateralPercentage p,
     oq_MaxCollateralInputs = pp_MaxCollateralInputs p, oq_MinFeeReferenceScripts = pp_MinFeeRefScriptCostPerByte p,
     oq_StakePoolVotingThresholds = map_option (og_pool_read ft) (pp_PoolVotingThresholds p),
     oq_ConstitutionalCommitteeMinSize = pp_CommitteeMinSize p, oq_ConstitutionalCommitteeMaxTermLength = pp_CommitteeMaxTermLength p,
     oq_GovernanceActionLifetime = pp_GovActionLifetime p, oq_GovernanceActionDeposit = pp_GovActionDeposit p,
     oq_DelegateRepresentativeVotingThresholds = map_option (og_drep_read ft) (pp_DRepVotingThresholds p),
     oq_DelegateRepresentativeDeposit = pp_DRepDeposit p, oq_DelegateRepresentativeMaxIdleTime = pp_DRepActivity p\<rparr>"

lemma og_thresholds_read [simp]:
  "dec_ptr dec_og_pool (opt_doc (og_pool_doc ft) x) = Inr (map_option (og_pool_read ft) x)"
  "dec_ptr dec_og_drep (opt_doc (og_drep_doc ft) y) = Inr (map_option (og_drep_read ft) y)"
  by (rule dec_ptr_doc,
      simp add: og_pool_doc_def og_drep_doc_def dec_og_pool_def dec_og_drep_def og_committee_def json_member_def og_pool_read_def og_drep_read_def)+

lemma og_scripts_read: "float_ok F fj ft \<Longrightarrow> dec_ptr (dec_og_scripts F) (opt_doc (\<lambda>x. JObj [(''base'', fj x)]) x) = Inr x"
  using dec_ptr_doc [of "\<lambda>x. JObj [(''base'', fj x)]" "dec_og_scripts F" id x]
  by (simp add: dec_og_scripts_def json_member_def float_ok_def option.map_id)

lemma og_models_read:
  assumes "models_ok models"
  shows "dec_map (dec_list dec_int64) (JObj (map (\<lambda>(v, ints). (''plutus:v'' @ v, JArr (map JNum ints))) models)) =
    Inr (map (\<lambda>(v, ints). (''plutus:v'' @ v, ints)) models)"
proof -
  define kvs where "kvs = map (\<lambda>(v, ints). (''plutus:v'' @ v, ints)) models"
  have "map fst kvs = map (\<lambda>v. ''plutus:v'' @ v) (map fst models)" by (simp add: kvs_def case_prod_beta)
  then have d: "distinct (map fst kvs)" using assms by (simp add: models_ok_def distinct_map comp_inj_on_iff inj_on_def)
  have "result_map dec_int64 (map JNum ints) = Inr ints" if "\<forall>n \<in> set ints. - (2 ^ 63) \<le> n \<and> n < 2 ^ 63" for ints
    using that by (induction ints) simp_all
  then have "dec_list dec_int64 (JArr (map JNum ints)) = Inr (id ints)" if "(k, ints) \<in> set kvs" for k ints
    using that assms by (force simp: kvs_def models_ok_def)
  from dec_map_JObj [OF d, of "dec_list dec_int64" "\<lambda>ints. JArr (map JNum ints)" id, OF this]
  have "dec_map (dec_list dec_int64) (JObj (map (\<lambda>(k, ints). (k, JArr (map JNum ints))) kvs)) = Inr kvs" by simp
  moreover have "map (\<lambda>(k, ints). (k, JArr (map JNum ints))) kvs = map (\<lambda>(v, ints). (''plutus:v'' @ v, JArr (map JNum ints))) models"
    by (simp add: kvs_def case_prod_beta)
  ultimately show ?thesis by (simp only: kvs_def)
qed

lemma og_doc_read:
  assumes "float_ok F fj ft" "models_ok models"
  shows "dec_og_params F (og_params_doc fj ft models p) = Inr (og_read ft models p)"
proof -
  have zero: "dec_lovelace JNull = Inr 0" by (simp add: dec_lovelace_def json_member_def)
  show ?thesis
    using og_models_read [OF assms(2)] og_scripts_read [OF assms(1)]
    by (simp add: dec_og_params_def og_params_doc_def json_member_def og_read_def zero og_bytes_def)
qed

lemma distinct_prefix: "distinct (map ((@) p) xs) \<longleftrightarrow> distinct xs"
  by (simp add: distinct_map inj_on_def)

text \<open>The models the provider keeps, in whatever order it visits them.\<close>

lemma og_models_visited:
  assumes "order_ok ord" "models_ok models"
  shows "og_models (visit ord (map (\<lambda>(v, ints). (''plutus:v'' @ v, ints)) models)) Map.empty = map_of (plutus models)"
proof -
  define named where "named = (\<lambda>(v, ints :: int list). (''plutus:v'' @ v, ints))"
  define es where "es = visit ord (map named models)"
  define ms where "ms = map (\<lambda>(k, ints). (drop (length ''plutus:v'') k, ints)) es"
  have keys: "map fst (map named l) = map ((@) ''plutus:v'') (map fst l)" for l by (simp add: named_def case_prod_beta)
  have d: "distinct (map fst models)" using assms(2) by (simp add: models_ok_def)
  then have "distinct (map fst (map named models))" by (simp only: keys distinct_prefix)
  note V = visit_facts [OF assms(1) this, folded es_def]
  have s: "set ms = set models" unfolding ms_def set_map V(1) image_image by (simp add: named_def case_prod_beta)
  have "map named ms = es" unfolding ms_def map_map by (rule map_idI) (auto simp: V(1) named_def)
  moreover from this V(2) have dm: "distinct (map fst ms)" using distinct_prefix keys [of ms] by metis
  moreover have "og_models (map named ms) Map.empty = Map.empty ++ map_of (plutus ms)"
    unfolding named_def by (rule og_models_all) (use assms(2) s dm in \<open>auto simp: models_ok_def\<close>)
  moreover have "map_of (plutus ms) = map_of (plutus models)"
  proof (rule iffD2 [OF map_of_inject_set])
    have p: "map fst (plutus l) = map ((@) ''PlutusV'') (map fst l)" for l by (simp add: plutus_def case_prod_beta)
    show "distinct (map fst (plutus ms))" "distinct (map fst (plutus models))"
      by (simp_all only: p distinct_prefix d dm)
    show "set (plutus ms) = set (plutus models)" using s by (simp add: plutus_def)
  qed
  ultimately show ?thesis by (simp add: es_def named_def)
qed

text \<open>What the provider keeps of the parameters: all but the three it never sets.\<close>

definition conway_params :: "(string \<times> int list) list \<Rightarrow> 'f ProtocolParameters \<Rightarrow> 'f ProtocolParameters" where
  "conway_params models p = p\<lparr>pp_CostModels := map_of (plutus models), pp_ExtraPraosEntropy := None,
     pp_Decentralization := None, pp_MinUTxOValue := None\<rparr>"

lemma og_thresholds_convert:
  assumes "float_ok F fj ft"
  shows "map_option (og_pool F) (map_option (og_pool_read ft) x) = x" "map_option (og_drep F) (map_option (og_drep_read ft) y) = y"
proof -
  have a: "asFloat F (ft v) = v" for v using assms by (simp add: float_ok_def)
  show "map_option (og_pool F) (map_option (og_pool_read ft) x) = x" by (cases x) (simp_all add: og_pool_def og_pool_read_def a)
  show "map_option (og_drep F) (map_option (og_drep_read ft) y) = y" by (cases y) (simp_all add: og_drep_def og_drep_read_def a)
qed

lemma og_converts:
  assumes "order_ok ord" "float_ok F fj ft" "models_ok models"
  shows "og_parameters F ord (og_read ft models p) = conway_params models p"
proof -
  have a: "asFloat F (ft v) = v" for v using assms(2) by (simp add: float_ok_def)
  show ?thesis
    using og_models_visited [OF assms(1,3)] og_thresholds_convert [OF assms(2)]
    by (simp add: og_parameters_def og_read_def conway_params_def a NewProtocolParametersVersion_def
        NewProtocolParametersPriceMemorySteps_def NewProtocolParametersMemorySteps_def)
qed

text \<open>A document without the parameters that Conway added.\<close>

definition without_conway :: "'f ProtocolParameters \<Rightarrow> 'f ProtocolParameters" where
  "without_conway p = p\<lparr>pp_PoolVotingThresholds := None, pp_DRepVotingThresholds := None, pp_DRepActivity := None,
     pp_DRepDeposit := None, pp_GovActionDeposit := None, pp_GovActionLifetime := None, pp_MinFeeRefScriptCostPerByte := None,
     pp_CommitteeMaxTermLength := None, pp_CommitteeMinSize := None\<rparr>"

lemma without_conway_numbered:
  assumes "\<forall>(k, ints) \<in> set (plutus models). numbered (nm k) ints"
  shows "basic_params (read_models nm (plutus models)) p = without_conway (conway_params models p)"
proof -
  have "read_models nm (plutus models) = plutus models"
    unfolding read_models_def by (rule map_idI) (use assms in \<open>auto simp: read_model_def\<close>)
  then show ?thesis by (simp add: basic_params_def conway_params_def without_conway_def)
qed

text \<open>
  C7. How the documents of Blockfrost and Ogmios compare that give the same parameters of the ledger, one with
  strings and cost models as objects, the other with ratios and lists. The Ogmios provider marshals all
  parameters, with every field from the right member and the cost models complete and in order. The Blockfrost
  provider marshals the same values of all fields except two groups: the parameters of Conway are absent, and
  a cost model has only zeros when the service gives its entries by the names of operations. So when it gives
  them by numbers, the two documents differ in the parameters of Conway only. All this in whatever order the maps are visited.
\<close>

theorem providers_agree_on_parameters:
  assumes "order_ok ord" "float_ok F fj ft" "models_ok models" "naming_ok nm models"
    "bf_answers E (bf_get b ''/epochs/latest/parameters'') (bf_params_doc fj nm models p)"
    "bf_answers E (og_request o' (ogmiosQueryStateRequest ''queryLedgerState/protocolParameters''))
       (og_response ''queryLedgerState/protocolParameters'' (og_params_doc fj ft models p))"
  shows "bf_GetProtocolParameters F ord E b = Some (params_Marshal F (basic_params (read_models nm (plutus models)) p)) \<and>
    og_GetProtocolParameters F ord E o' = Some (params_Marshal F (conway_params models p)) \<and>
    ((\<forall>(k, ints) \<in> set (plutus models). numbered (nm k) ints) \<longrightarrow>
      bf_GetProtocolParameters F ord E b = Some (params_Marshal F (without_conway (conway_params models p))))"
proof (intro conjI impI)
  show bf: "bf_GetProtocolParameters F ord E b = Some (params_Marshal F (basic_params (read_models nm (plutus models)) p))"
    using bf_answered [OF assms(5)] bf_converts [OF assms(1-4)]
    by (auto simp: bf_GetProtocolParameters_def StatusOK_def unmarshal_body_def)
  have "dec_at [''result''] (dec_og_params F) (og_response m (og_params_doc fj ft models p)) = Inr (og_read ft models p)" for m
    using og_doc_read [OF assms(2,3)] by (simp add: og_response_def json_member_def)
  then show "og_GetProtocolParameters F ord E o' = Some (params_Marshal F (conway_params models p))"
    by (simp add: og_GetProtocolParameters_def og_answered [OF assms(6)] og_converts [OF assms(1-3)])
  assume "\<forall>(k, ints) \<in> set (plutus models). numbered (nm k) ints"
  with bf show "bf_GetProtocolParameters F ord E b = Some (params_Marshal F (without_conway (conway_params models p)))"
    by (simp add: without_conway_numbered)
qed

text \<open>Floats that are natural numbers, and parameters without thresholds but with the deposits of Conway.\<close>

definition nat_floats :: "nat float_ops" where
  "nat_floats = \<lparr>fo_zero = 0, fo_parse = (\<lambda>s. (case parse_dec 0 s of None \<Rightarrow> 0 | Some n \<Rightarrow> n, None)), fo_of_int = nat,
     fo_div = (div), fo_to_u64 = of_nat, fo_json = (\<lambda>n. Inr (JNum (int n)))\<rparr>"

lemma trim_chars_none: "\<forall>c \<in> set s. \<not> p c \<Longrightarrow> trim_chars p s = s"
proof -
  assume s: "\<forall>c \<in> set s. \<not> p c"
  have none: "dropWhile p l = l" if "set l = set s" for l using s that by (cases l) auto
  show ?thesis by (simp add: trim_chars_def none)
qed

lemma nat_floats_ok: "float_ok nat_floats (\<lambda>n. JNum (int n)) itoa"
proof -
  have d: "c \<in> set (itoa n) \<Longrightarrow> 48 \<le> (of_char c :: nat) \<and> (of_char c :: nat) \<le> 57" for c n
    using itoa_digits [of c n] by (auto simp: dec_val_def Let_def split: if_splits)
  have "CHR ''/'' \<notin> set (itoa n)" for n using d [of "CHR ''/''" n] by auto
  moreover have "trim_space (itoa n) = itoa n" for n
  proof -
    have "\<not> (let m = (of_char c :: nat) in 9 \<le> m \<and> m \<le> 13 \<or> m = 32)" if "c \<in> set (itoa n)" for c
      using d [OF that] by (simp add: Let_def)
    then show ?thesis unfolding trim_space_def by (intro trim_chars_none) auto
  qed
  ultimately show ?thesis by (simp add: float_ok_def nat_floats_def asFloat_def split_on_none parse_dec_itoa)
qed

definition some_params :: "nat ProtocolParameters" where
  "some_params = \<lparr>pp_CostModels = Map.empty, pp_ProtocolVersion = \<lparr>pv_Major = 9, pv_Minor = 1\<rparr>, pp_MaxBlockHeaderSize = 1100,
     pp_MaxBlockBodySize = 90112, pp_MaxTxSize = 16384, pp_TxFeeFixed = 155381, pp_TxFeePerByte = 44, pp_StakeAddressDeposit = 2000000,
     pp_StakePoolDeposit = 500000000, pp_MinPoolCost = 170000000, pp_PoolRetireMaxEpoch = 18, pp_StakePoolTargetNum = 500,
     pp_PoolPledgeInfluence = 3, pp_MonetaryExpansion = 1, pp_TreasuryCut = 2, pp_CollateralPercentage = 150,
     pp_ExecutionUnitPrices = \<lparr>ps_PriceMemory = 5, ps_PriceSteps = 6\<rparr>, pp_UtxoCostPerByte = 4310,
     pp_MaxTxExecutionUnits = \<lparr>ms_Memory = 14000000, ms_Steps = 10000000000\<rparr>,
     pp_MaxBlockExecutionUnits = \<lparr>ms_Memory = 62000000, ms_Steps = 20000000000\<rparr>, pp_MaxCollateralInputs = 3, pp_MaxValueSize = 5000,
     pp_PoolVotingThresholds = Some \<lparr>pt_CommitteeNoConfidence = 1, pt_CommitteeNormal = 2, pt_HardForkInitiation = 3,
       pt_MotionNoConfidence = 4, pt_PPSecurityGroup = 5\<rparr>, pp_DRepVotingThresholds = None, pp_DRepActivity = Some 20,
     pp_DRepDeposit = Some 500000000, pp_GovActionDeposit = Some 100000000000, pp_GovActionLifetime = Some 6,
     pp_MinFeeRefScriptCostPerByte = Some 15, pp_CommitteeMaxTermLength = Some 146, pp_CommitteeMinSize = Some 7,
     pp_ExtraPraosEntropy = None, pp_Decentralization = None, pp_MinUTxOValue = None\<rparr>"

definition some_models :: "(string \<times> int list) list" where
  "some_models = [(''1'', [100788, 420]), (''2'', [100788, 420, 1])]"

text \<open>The first model by numbers, the second by the name of an operation.\<close>

definition some_names :: naming where
  "some_names k i = (if k = ''PlutusV1'' then itoa i else ''op'' @ itoa i)"

lemma some_names_ok: "naming_ok some_names some_models"
proof -
  have "inj_on (\<lambda>i. ''op'' @ itoa i) A" for A using itoa_inj [of A] by (simp add: inj_on_def)
  moreover have "Atoi (''op'' @ s) = None" for s by (simp add: Atoi_def dec_val_def)
  ultimately show ?thesis
    using itoa_inj by (simp add: naming_ok_def plutus_def some_models_def some_names_def [abs_def] numbered_def)
qed

theorem providers_agree_on_parameters_witness:
  "\<exists>E. bf_GetProtocolParameters nat_floats rev E a_provider =
      Some (params_Marshal nat_floats (basic_params [(''PlutusV1'', [100788, 420]), (''PlutusV2'', [0, 0, 0])] some_params)) \<and>
    og_GetProtocolParameters nat_floats rev E ''https://ogmios'' = Some (params_Marshal nat_floats (conway_params some_models some_params))"
proof -
  have "\<not> numbered (\<lambda>i. ''op'' @ itoa i) [100788, 420, 1]" using itoa_digits [of _ 0]
    by (auto simp: numbered_def dec_val_def intro!: exI [of _ 0])
  then have read: "read_models some_names (plutus some_models) = [(''PlutusV1'', [100788, 420]), (''PlutusV2'', [0, 0, 0])]"
    by (simp add: read_models_def plutus_def some_models_def some_names_def [abs_def] read_model_def) (simp add: numbered_def)
  have ok: "order_ok (rev :: string list \<Rightarrow> string list)" "models_ok some_models" by (simp_all add: order_ok_def some_models_def models_ok_def)
  from providers_agree_on_parameters [OF ok(1) nat_floats_ok ok(2) some_names_ok two_services_answer, unfolded read]
  show ?thesis by blast
qed

end
