(* ===== verification/Provider_Gouroboros_Props.thy ===== *)
theory Provider_Gouroboros_Props
  imports Provider_Gouroboros Provider_Params_Props
begin

text \<open>
  What the requests of the node provider and its goroutine do together: requests alone do not panic, an awake
  loop replaces a broken connection, a loop that began to wait too early never does, and two races. The
  parameters are those Ogmios gives.
\<close>

section \<open>Alone\<close>

lemma getConnection_keeps: "getConnection N b w = (Inr conn, b', w') \<Longrightarrow> tg_connection b' = Some conn"
  by (auto simp: getConnection_def Let_def split: option.splits prod.splits sum.splits)

lemma acquire_decide_connection [simp]: "acquire_decide now b = (t, b') \<Longrightarrow> tg_connection b' = tg_connection b"
  by (auto simp: acquire_decide_def Let_def split: if_splits)

lemma acquire_alone:
  "tg_connection b = Some conn \<Longrightarrow> \<exists>err b' w'. acquire N now b w = Some (err, b', w') \<and> tg_connection b' = Some conn"
proof -
  assume c: "tg_connection b = Some conn"
  obtain t b1 where d: "acquire_decide now b = (t, b1)" by (cases "acquire_decide now b")
  obtain err w1 where a: "gb_Acquire N conn w = (err, w1)" by (cases "gb_Acquire N conn w")
  show ?thesis using c acquire_decide_connection [OF d] by (auto simp: acquire_def d acquire_point_def a)
qed

lemma with_point_alone:
  assumes "\<And>conn w. \<exists>r w'. k conn w = Some (r, w')"
  shows "\<exists>r b' w'. with_point N now k b w = Some (r, b', w') \<and>
    (\<forall>x. r = Inr x \<longrightarrow> (\<exists>conn w1. tg_connection b' = Some conn \<and> k conn w1 = Some (Inr x, w')))"
proof -
  obtain r b1 w1 where g: "getConnection N b w = (r, b1, w1)" by (cases "getConnection N b w")
  show ?thesis
  proof (cases r)
    case (Inl err)
    then show ?thesis by (simp add: with_point_def g)
  next
    case (Inr conn)
    from acquire_alone [OF getConnection_keeps [OF g [unfolded Inr]], of N now w1] obtain err b2 w2 where
      a: "acquire N now b1 w1 = Some (err, b2, w2)" "tg_connection b2 = Some conn" by blast
    obtain r' w' where k: "k conn w2 = Some (r', w')" using assms by blast
    show ?thesis
      by (cases err) (use k a(2) in \<open>auto simp: with_point_def g Inr a(1)\<close>)
  qed
qed

text \<open>
  C40. A request for the tip that runs alone does not panic: whatever the node answers, it returns a value or
  an error, and with a value the provider keeps the connection that was asked.
\<close>

theorem alone_request_returns:
  "\<exists>r b' w'. gu_GetTip N now b w = Some (r, b', w') \<and>
    (\<forall>tip. r = Inr tip \<longrightarrow> (\<exists>conn w1. tg_connection b' = Some conn \<and> query_tip N conn w1 = (Inr tip, w')))"
  using with_point_alone [of "\<lambda>conn w. Some (query_tip N conn w)" N now b w] by (simp add: gu_GetTip_def)

section \<open>The loop\<close>

definition asleep :: "('c, 'w) gu_system \<Rightarrow> bool" where
  "asleep s \<longleftrightarrow> gy_loop s = LoopWait None \<or> gy_loop s = LoopDone \<and> tg_closed (gy_provider s)"

lemma getConnection_facts:
  assumes "getConnection N b w = (r, b', w')"
  shows "tg_closed b' = tg_closed b" "tg_connection b = Some conn \<Longrightarrow> b' = b \<and> r = Inr conn \<and> w' = w"
    "tg_config b' = tg_config b" "tg_lastAcquiredTime b' = tg_lastAcquiredTime b"
  using assms by (auto simp: getConnection_def Let_def split: option.splits prod.splits sum.splits)

lemma acquire_decide_closed: "acquire_decide now b = (t, b') \<Longrightarrow> tg_closed b' = tg_closed b"
  by (auto simp: acquire_decide_def Let_def split: if_splits)

lemma gu_Dispose_facts: "gu_Dispose N b w = Some (b', w') \<Longrightarrow> tg_closed b' \<and> tg_connection b' = tg_connection b"
  by (auto simp: gu_Dispose_def split: if_splits)

lemma call_step_keeps:
  assumes "call_step N s s'"
  shows "gy_loop s' = gy_loop s" "tg_closed (gy_provider s) \<Longrightarrow> tg_closed (gy_provider s')" "gy_sending s \<subseteq> gy_sending s'"
    "tg_connection (gy_provider s) = Some conn \<Longrightarrow> tg_connection (gy_provider s') = Some conn"
  using assms by (cases; auto dest: getConnection_facts acquire_decide_closed gu_Dispose_facts)+

lemma loop_step_asleep:
  "loop_step s s' \<Longrightarrow> asleep s \<Longrightarrow> asleep s' \<and> gy_provider s' = gy_provider s"
  by (auto simp: loop_step_simps asleep_def)

lemma steps_asleep:
  assumes "gu_steps N s s'" "asleep s" "tg_connection (gy_provider s) = Some conn"
  shows "asleep s' \<and> tg_connection (gy_provider s') = Some conn"
  using assms
proof (induction rule: rtranclp_induct)
  case (step s1 s2)
  then have s1: "asleep s1" "tg_connection (gy_provider s1) = Some conn" by simp_all
  from step(2) consider "loop_step s1 s2" | "call_step N s1 s2" by (auto simp: gu_step_def)
  then show ?case
  proof cases
    case 1
    with loop_step_asleep s1 show ?thesis by metis
  next
    case 2
    from call_step_keeps [OF 2] s1 show ?thesis by (auto simp: asleep_def)
  qed
qed simp

text \<open>
  C24. A loop that reached its \<open>select\<close> before the first request waits on the nil channel and never wakes: in
  whatever way the requests, the node and the loop go on, it waits until the provider is closed, and the
  connection once made stays, however it fails; every further request gets it.
\<close>

theorem sleeping_loop_never_wakes:
  assumes "gu_steps N s s'" "gy_loop s = LoopWait None" "tg_connection (gy_provider s) = Some conn"
  shows "(gy_loop s' = LoopWait None \<or> tg_closed (gy_provider s')) \<and>
    getConnection N (gy_provider s') w = (Inr conn, gy_provider s', w)"
proof -
  have "asleep s" using assms(2) by (simp add: asleep_def)
  from steps_asleep [OF assms(1) this assms(3)] show ?thesis by (auto simp: asleep_def getConnection_def)
qed

text \<open>
  C11. A loop that waits on the channel of a connection replaces it when it fails: the loop can always run, and
  when it has run twice, whatever the others did in between, the provider has no connection and the next
  request makes one with a new channel, unless the provider was closed.
\<close>

theorem awake_loop_replaces_connection:
  assumes "gy_loop s = LoopWait (Some ch)" "ch \<in> gy_sending s" "(call_step N)\<^sup>*\<^sup>* s s1"
  shows "(\<exists>s2. loop_step s1 s2) \<and>
    (\<forall>s2 s3. loop_step s1 s2 \<longrightarrow> (call_step N)\<^sup>*\<^sup>* s2 s3 \<longrightarrow> \<not> tg_closed (gy_provider s3) \<longrightarrow>
      (\<exists>s4. loop_step s3 s4) \<and>
      (\<forall>s4. loop_step s3 s4 \<longrightarrow> gy_loop s4 = LoopSelect \<and> tg_connection (gy_provider s4) = None \<and>
        (\<forall>w r b w'. getConnection N (gy_provider s4) w = (r, b, w') \<longrightarrow> tg_errChan b = Some (tg_made (gy_provider s4)))))"
proof -
  have keep: "gy_loop s'' = gy_loop s' \<and> (tg_closed (gy_provider s') \<longrightarrow> tg_closed (gy_provider s'')) \<and> gy_sending s' \<subseteq> gy_sending s''"
    if "(call_step N)\<^sup>*\<^sup>* s' s''" for s' s''
    using that
  proof (induction rule: rtranclp_induct)
    case (step x y)
    with call_step_keeps [OF step(2)] show ?case by auto
  qed simp
  have s1: "gy_loop s1 = LoopWait (Some ch)" "ch \<in> gy_sending s1" using keep [OF assms(3)] assms(1,2) by auto
  have "\<exists>s2. loop_step s1 s2" using loop_receive [OF s1] by blast
  moreover have "(\<exists>s4. loop_step s3 s4) \<and>
      (\<forall>s4. loop_step s3 s4 \<longrightarrow> gy_loop s4 = LoopSelect \<and> tg_connection (gy_provider s4) = None \<and>
        (\<forall>w r b w'. getConnection N (gy_provider s4) w = (r, b, w') \<longrightarrow> tg_errChan b = Some (tg_made (gy_provider s4))))"
    if "loop_step s1 s2" "(call_step N)\<^sup>*\<^sup>* s2 s3" "\<not> tg_closed (gy_provider s3)" for s2 s3
  proof -
    have "gy_loop s2 = LoopReset" using that s1(1) keep [OF that(2)] by (auto simp: loop_step_simps)
    then have s3: "gy_loop s3 = LoopReset" using keep [OF that(2)] by simp
    then show ?thesis
      by (auto simp: loop_step_simps loop_forget_def getConnection_def Let_def split: prod.splits sum.splits)
  qed
  ultimately show ?thesis by blast
qed

section \<open>Races\<close>

definition node_accepts :: "('c, 'a, 'r, 'w) gouroboros \<Rightarrow> bool" where
  "node_accepts N \<longleftrightarrow> (\<forall>magic path keep t ch w. \<exists>conn w'. createGoUroBorosConnection N magic path keep t ch w = (Inr conn, w'))"

lemma accepted:
  assumes "node_accepts N" "tg_connection b = None"
  obtains conn w' where "getConnection N b w =
    (Inr conn, b\<lparr>tg_errChan := Some (tg_made b), tg_made := tg_made b + 1, tg_connection := Some conn\<rparr>, w')"
proof -
  obtain conn w' where "createGoUroBorosConnection N (gc_networkMagic (tg_config b)) (gc_socketPath (tg_config b))
      (gc_keepAlive (tg_config b)) (gc_txSubmitTimeout (tg_config b)) (tg_made b) w = (Inr conn, w')"
    using assms(1) unfolding node_accepts_def by metis
  then show ?thesis using assms(2) that by (simp add: getConnection_def Let_def)
qed

lemma steps_loop: "gu_steps N s s1 \<Longrightarrow> loop_step s1 s2 \<Longrightarrow> gu_steps N s s2"
  by (rule rtranclp.rtrancl_into_rtrancl) (auto simp: gu_step_def)

lemma steps_call: "gu_steps N s s1 \<Longrightarrow> call_step N s1 s2 \<Longrightarrow> gu_steps N s s2"
  by (rule rtranclp.rtrancl_into_rtrancl) (auto simp: gu_step_def)

text \<open>The loop waits on the channel of the first connection, which fails.\<close>

lemma first_failure:
  assumes "node_accepts N" "b = NewTxProviderGoUroBoros magic path []"
  obtains conn w' where "gu_steps N (gu_start b w) \<lparr>gy_provider = b\<lparr>tg_errChan := Some 0, tg_made := 1, tg_connection := Some conn\<rparr>,
    gy_world = w', gy_loop = LoopWait (Some 0), gy_calls = (\<lambda>i. CallStart)(0 := CallConnected conn), gy_sending = {0}, gy_shut = {}\<rparr>"
proof -
  have b: "tg_connection b = None" "tg_made b = 0" by (simp_all add: assms(2) NewTxProviderGoUroBoros_def)
  from accepted [OF assms(1) b(1), of w] obtain conn w' where
    g: "getConnection N b w = (Inr conn, b\<lparr>tg_errChan := Some 0, tg_made := 1, tg_connection := Some conn\<rparr>, w')"
    by (auto simp: b(2))
  have "gu_steps N (gu_start b w) (gu_start b w)" by simp
  from steps_call [OF this call_connect [of _ 0]] g
  have "gu_steps N (gu_start b w) \<lparr>gy_provider = b\<lparr>tg_errChan := Some 0, tg_made := 1, tg_connection := Some conn\<rparr>, gy_world = w',
      gy_loop = LoopSelect, gy_calls = (\<lambda>i. CallStart)(0 := CallConnected conn), gy_sending = {}, gy_shut = {}\<rparr>"
    by (fastforce simp: gu_start_def)
  from steps_call [OF steps_loop [OF this loop_select] node_error [of 0]]
  show ?thesis by (intro that) simp
qed

text \<open>
  A request can panic: against a node that accepts connections there is a run in which the connection fails
  and the loop drops it after a request has decided to acquire a point, and before it uses the connection.
\<close>

theorem request_can_panic:
  assumes "node_accepts N"
  shows "\<exists>s. gu_steps N (gu_start (NewTxProviderGoUroBoros magic path []) w) s \<and> call_panics N s 0"
proof -
  define b :: "'a TxProviderGoUroBoros" where "b = NewTxProviderGoUroBoros magic path []"
  from first_failure [OF assms b_def] obtain conn w' where
    "gu_steps N (gu_start b w) \<lparr>gy_provider = b\<lparr>tg_errChan := Some 0, tg_made := 1, tg_connection := Some conn\<rparr>,
      gy_world = w', gy_loop = LoopWait (Some 0), gy_calls = (\<lambda>i. CallStart)(0 := CallConnected conn), gy_sending = {0}, gy_shut = {}\<rparr>"
    (is "gu_steps N _ ?s") .
  note run = this
  have d: "acquire_decide 0 (gy_provider ?s) = (True, (gy_provider ?s)\<lparr>tg_lastAcquiredTime := 0\<rparr>)"
    by (simp add: acquire_decide_def b_def NewTxProviderGoUroBoros_def time_Sub_def zero_time_def)
  from steps_call [OF run call_acquire [of _ 0, OF _ d]]
  have "gu_steps N (gu_start b w) (?s\<lparr>gy_provider := (gy_provider ?s)\<lparr>tg_lastAcquiredTime := 0\<rparr>,
      gy_calls := (gy_calls ?s)(0 := CallPoint conn)\<rparr>)" (is "gu_steps N _ ?s1") by simp
  from steps_loop [OF this loop_receive [of _ 0]]
  have "gu_steps N (gu_start b w) (?s1\<lparr>gy_loop := LoopReset, gy_sending := gy_sending ?s1 - {0}\<rparr>)" (is "gu_steps N _ ?s2") by simp
  from steps_loop [OF this loop_reset]
  have "gu_steps N (gu_start b w) (?s2\<lparr>gy_provider := loop_forget (gy_provider ?s2), gy_loop := LoopSelect\<rparr>)" (is "gu_steps N _ ?s3") by simp
  moreover have "call_panics N ?s3 0" by (simp add: call_panics_def acquire_point_def loop_forget_def)
  ultimately show ?thesis unfolding b_def by blast
qed

text \<open>
  A fresh connection can be lost: the loop receives once more from the channel that was closed, and drops
  the connection a request has made since. The request holds it, it has not failed and was not closed, and
  the provider does not know it any more.
\<close>

theorem fresh_connection_can_be_lost:
  assumes "node_accepts N"
  shows "\<exists>s ch conn. gu_steps N (gu_start (NewTxProviderGoUroBoros magic path []) w) s \<and> gy_calls s 1 = CallConnected conn \<and>
    tg_errChan (gy_provider s) = Some ch \<and> ch \<notin> gy_sending s \<and> ch \<notin> gy_shut s \<and> tg_connection (gy_provider s) = None"
proof -
  define b :: "'a TxProviderGoUroBoros" where "b = NewTxProviderGoUroBoros magic path []"
  from first_failure [OF assms b_def] obtain conn w' where
    "gu_steps N (gu_start b w) \<lparr>gy_provider = b\<lparr>tg_errChan := Some 0, tg_made := 1, tg_connection := Some conn\<rparr>,
      gy_world = w', gy_loop = LoopWait (Some 0), gy_calls = (\<lambda>i. CallStart)(0 := CallConnected conn), gy_sending = {0}, gy_shut = {}\<rparr>"
    (is "gu_steps N _ ?s") .
  from steps_loop [OF steps_loop [OF this loop_receive [of _ 0]] loop_reset]
  have "gu_steps N (gu_start b w) (?s\<lparr>gy_provider := loop_forget (gy_provider ?s), gy_loop := LoopSelect, gy_sending := {}\<rparr>)"
    (is "gu_steps N _ ?s1") by simp
  from steps_call [OF steps_loop [OF this loop_select] node_close [of 0]]
  have "gu_steps N (gu_start b w) (?s1\<lparr>gy_loop := LoopWait (Some 0), gy_shut := {0}\<rparr>)" (is "gu_steps N _ ?s2")
    by (simp add: loop_forget_def)
  from steps_loop [OF this loop_receive_shut [of _ 0]]
  have "gu_steps N (gu_start b w) (?s2\<lparr>gy_loop := LoopReset\<rparr>)" (is "gu_steps N _ ?s3") by simp
  moreover have none: "tg_connection (gy_provider ?s3) = None" by (simp add: loop_forget_def)
  from accepted [OF assms none, of "gy_world ?s3"] obtain conn' w'' where
    "getConnection N (gy_provider ?s3) (gy_world ?s3) = (Inr conn', (gy_provider ?s3)\<lparr>tg_errChan := Some (tg_made (gy_provider ?s3)),
      tg_made := tg_made (gy_provider ?s3) + 1, tg_connection := Some conn'\<rparr>, w'')" .
  ultimately have "gu_steps N (gu_start b w) (?s3\<lparr>gy_provider := (gy_provider ?s3)\<lparr>tg_errChan := Some (tg_made (gy_provider ?s3)),
      tg_made := tg_made (gy_provider ?s3) + 1, tg_connection := Some conn'\<rparr>, gy_world := w'',
      gy_calls := (gy_calls ?s3)(1 := CallConnected conn')\<rparr>)" (is "gu_steps N _ ?s4")
    using steps_call [OF _ call_connect [of ?s3 1]] by fastforce
  from steps_loop [OF this loop_reset]
  have "gu_steps N (gu_start b w) (?s4\<lparr>gy_provider := loop_forget (gy_provider ?s4), gy_loop := LoopSelect\<rparr>)" (is "gu_steps N _ ?s5") by simp
  moreover have "gy_calls ?s5 1 = CallConnected conn'" "tg_errChan (gy_provider ?s5) = Some 1" "1 \<notin> gy_sending ?s5" "1 \<notin> gy_shut ?s5"
    "tg_connection (gy_provider ?s5) = None" by (simp_all add: loop_forget_def)
  ultimately show ?thesis unfolding b_def by blast
qed

section \<open>Parameters\<close>

text \<open>The parameters of Conway as the node gives them; \<open>rt\<close> is the rational of a float.\<close>

definition node_pool :: "('f \<Rightarrow> 'r) \<Rightarrow> 'f PoolVotingThresholds \<Rightarrow> 'r PoolThresholds" where
  "node_pool rt t = \<lparr>gt_CommitteeNoConfidence = rt (pt_CommitteeNoConfidence t), gt_CommitteeNormal = rt (pt_CommitteeNormal t),
     gt_HardForkInitiation = rt (pt_HardForkInitiation t), gt_MotionNoConfidence = rt (pt_MotionNoConfidence t),
     gt_PpSecurityGroup = rt (pt_PPSecurityGroup t)\<rparr>"

definition node_drep :: "('f \<Rightarrow> 'r) \<Rightarrow> 'f VotingThresholds \<Rightarrow> 'r DRepThresholds" where
  "node_drep rt t = \<lparr>gd_CommitteeNoConfidence = rt (vt_CommitteeNoConfidence t), gd_CommitteeNormal = rt (vt_CommitteeNormal t),
     gd_HardForkInitiation = rt (vt_HardForkInitiation t), gd_MotionNoConfidence = rt (vt_MotionNoConfidence t),
     gd_PpEconomicGroup = rt (vt_PPEconomicGroup t), gd_PpGovGroup = rt (vt_PPGovGroup t), gd_PpNetworkGroup = rt (vt_PPNetworkGroup t),
     gd_PpTechnicalGroup = rt (vt_PPTechnicalGroup t), gd_TreasuryWithdrawal = rt (vt_TreasuryWithdrawal t),
     gd_UpdateToConstitution = rt (vt_UpdateToConstitution t)\<rparr>"

definition node_params :: "('f \<Rightarrow> 'r) \<Rightarrow> (u64 \<times> int list) list \<Rightarrow> 'f ProtocolParameters \<Rightarrow> 'r ConwayProtocolParameters" where
  "node_params rt models p = \<lparr>lb_Major = pv_Major (pp_ProtocolVersion p), lb_Minor = pv_Minor (pp_ProtocolVersion p),
     lb_MaxBlockHeaderSize = pp_MaxBlockHeaderSize p, lb_MaxBlockBodySize = pp_MaxBlockBodySize p, lb_MaxTxSize = pp_MaxTxSize p,
     lb_MinFeeB = pp_TxFeeFixed p, lb_MinFeeA = pp_TxFeePerByte p, lb_KeyDeposit = pp_StakeAddressDeposit p,
     lb_PoolDeposit = pp_StakePoolDeposit p, lb_MinPoolCost = pp_MinPoolCost p, lb_MaxEpoch = pp_PoolRetireMaxEpoch p,
     lb_NOpt = pp_StakePoolTargetNum p, lb_A0 = rt (pp_PoolPledgeInfluence p), lb_Rho = rt (pp_MonetaryExpansion p),
     lb_Tau = rt (pp_TreasuryCut p), lb_CollateralPercentage = pp_CollateralPercentage p,
     lb_MemPrice = rt (ps_PriceMemory (pp_ExecutionUnitPrices p)), lb_StepPrice = rt (ps_PriceSteps (pp_ExecutionUnitPrices p)),
     lb_AdaPerUtxoByte = pp_UtxoCostPerByte p, lb_TxMem = ms_Memory (pp_MaxTxExecutionUnits p), lb_TxSteps = ms_Steps (pp_MaxTxExecutionUnits p),
     lb_BlockMem = ms_Memory (pp_MaxBlockExecutionUnits p), lb_BlockSteps = ms_Steps (pp_MaxBlockExecutionUnits p),
     lb_MaxCollateralInputs = pp_MaxCollateralInputs p, lb_MaxValueSize = pp_MaxValueSize p, lb_CostModels = models,
     lc_PoolVotingThresholds = node_pool rt (the (pp_PoolVotingThresholds p)), lc_DRepVotingThresholds = node_drep rt (the (pp_DRepVotingThresholds p)),
     lc_DRepInactivityPeriod = the (pp_DRepActivity p), lc_DRepDeposit = the (pp_DRepDeposit p), lc_GovActionDeposit = the (pp_GovActionDeposit p),
     lc_GovActionValidityPeriod = the (pp_GovActionLifetime p), lc_MinFeeRefScriptCostPerByte = rt (the (pp_MinFeeRefScriptCostPerByte p)),
     lc_CommitteeTermLimit = the (pp_CommitteeMaxTermLength p), lc_MinCommitteeSize = the (pp_CommitteeMinSize p)\<rparr>"

definition conway_complete :: "'f ProtocolParameters \<Rightarrow> bool" where
  "conway_complete p \<longleftrightarrow> pp_PoolVotingThresholds p \<noteq> None \<and> pp_DRepVotingThresholds p \<noteq> None \<and> pp_DRepActivity p \<noteq> None \<and>
     pp_DRepDeposit p \<noteq> None \<and> pp_GovActionDeposit p \<noteq> None \<and> pp_GovActionLifetime p \<noteq> None \<and>
     pp_MinFeeRefScriptCostPerByte p \<noteq> None \<and> pp_CommitteeMaxTermLength p \<noteq> None \<and> pp_CommitteeMinSize p \<noteq> None"

definition numbered :: "(u64 \<times> int list) list \<Rightarrow> (string \<times> int list) list" where
  "numbered models = map (\<lambda>(k, ints). (itoa64 (k + 1), ints)) models"

lemma gu_models_all: "distinct (map fst (plutus (numbered kvs))) \<Longrightarrow> gu_models kvs m = m ++ map_of (plutus (numbered kvs))"
proof (induction kvs arbitrary: m)
  case (Cons kv kvs)
  obtain k ints where kv: "kv = (k, ints)" by (cases kv)
  have p: "plutus (numbered (kv # kvs)) = (''PlutusV'' @ itoa64 (k + 1), ints) # plutus (numbered kvs)"
    by (simp only: plutus_def numbered_def kv list.map prod.case)
  have "''PlutusV'' @ itoa64 (k + 1) \<notin> dom (map_of (plutus (numbered kvs)))" "distinct (map fst (plutus (numbered kvs)))"
    using Cons.prems by (simp_all only: p list.map distinct.simps fst_conv dom_map_of_conv_image_fst list.set_map not_False_eq_True)
  then show ?case unfolding p using Cons.IH map_add_fresh by (simp only: kv gu_models.simps)
qed (simp add: plutus_def numbered_def)

lemma node_params_convert:
  assumes "\<forall>x. fl (rt x) = x" "conway_complete p" "models_ok (numbered models)"
  shows "gu_conway fl (node_params rt models p) = conway_params (numbered models) p"
proof -
  have d: "distinct (map fst (plutus (numbered models)))"
  proof -
    have "map fst (plutus l) = map ((@) ''PlutusV'') (map fst l)" for l by (simp add: plutus_def case_prod_beta)
    then show ?thesis using assms(3) by (simp only: distinct_prefix models_ok_def)
  qed
  have "filter (\<lambda>(_, values). length values > 0) models = models"
    using assms(3) by (auto simp: filter_id_conv models_ok_def numbered_def)
  then have m: "gu_models (filter (\<lambda>(_, values). length values > 0) models) Map.empty = map_of (plutus (numbered models))"
    using gu_models_all [OF d, of Map.empty] by simp
  have t: "gu_pool fl (node_pool rt x) = x" "gu_drep fl (node_drep rt y) = y" for x y
    using assms(1) by (simp_all add: gu_pool_def node_pool_def gu_drep_def node_drep_def)
  show ?thesis
    using assms(1,2) m
    by (auto simp: gu_conway_def gu_babbage_def node_params_def conway_params_def conway_complete_def t
        BabbageProtocolParameters.truncate_def NewProtocolParametersVersion_def NewProtocolParametersPriceMemorySteps_def
        NewProtocolParametersMemorySteps_def)
qed

lemma models_reordered:
  assumes "mset ms = mset models" "models_ok (numbered models)"
  shows "models_ok (numbered ms)" "conway_params (numbered ms) p = conway_params (numbered models) p"
proof -
  have s: "set ms = set models" using mset_eq_setD [OF assms(1)] .
  have "mset (map fst (numbered ms)) = mset (map fst (numbered models))" by (simp add: numbered_def assms(1))
  then have d: "distinct (map fst (numbered ms)) \<longleftrightarrow> distinct (map fst (numbered models))" by (rule mset_eq_imp_distinct_iff)
  then show ok: "models_ok (numbered ms)" using assms(2) s by (simp add: models_ok_def numbered_def)
  have p: "map fst (plutus l) = map ((@) ''PlutusV'') (map fst l)" for l by (simp add: plutus_def case_prod_beta)
  have "map_of (plutus (numbered ms)) = map_of (plutus (numbered models))"
  proof (rule iffD2 [OF map_of_inject_set])
    show "distinct (map fst (plutus (numbered ms)))" "distinct (map fst (plutus (numbered models)))"
      using assms(2) ok by (simp_all only: p distinct_prefix models_ok_def)
    show "set (plutus (numbered ms)) = set (plutus (numbered models))" by (simp add: plutus_def numbered_def s)
  qed
  then show "conway_params (numbered ms) p = conway_params (numbered models) p" by (simp add: conway_params_def)
qed

text \<open>
  C32. The node provider and the Ogmios provider give the same document of the protocol parameters: rationals
  and ratios become the same floats, and the cost models, numbered from zero by the node and named by Ogmios,
  get the same names, in whatever order they are visited.
\<close>

theorem node_agrees_with_ogmios:
  assumes "order_ok ord" "float_ok F fj ft" "\<forall>x. fl (rt x) = x" "conway_complete p" "models_ok (numbered models)"
    "bf_answers E (og_request o' (ogmiosQueryStateRequest ''queryLedgerState/protocolParameters''))
       (og_response ''queryLedgerState/protocolParameters'' (og_params_doc fj ft (numbered models) p))"
    "mset ms = mset models" "gb_GetCurrentProtocolParams N conn w1 = (Inr (Conway (node_params rt ms p)), w2)"
    "tg_connection b = Some conn" "acquire N now b w = Some (None, b1, w1)"
  shows "\<exists>doc. gu_GetProtocolParameters F fl N now b w = Some (doc, b1, w2) \<and> og_GetProtocolParameters F ord E o' = Some doc"
proof (intro exI conjI)
  have "dec_at [''result''] (dec_og_params F) (og_response m (og_params_doc fj ft (numbered models) p)) = Inr (og_read ft (numbered models) p)" for m
    using og_doc_read [OF assms(2,5)] by (simp add: og_response_def json_member_def)
  then show "og_GetProtocolParameters F ord E o' = Some (params_Marshal F (conway_params (numbered models) p))"
    by (simp add: og_GetProtocolParameters_def og_answered [OF assms(6)] og_converts [OF assms(1,2,5)])
  have "getConnection N b w = (Inr conn, b, w)" by (simp add: getConnection_def assms(9))
  moreover have "gu_conway fl (node_params rt ms p) = conway_params (numbered models) p"
    using node_params_convert [of fl rt p ms] assms(3,4) models_reordered [OF assms(7,5)] by simp
  ultimately show "gu_GetProtocolParameters F fl N now b w = Some (params_Marshal F (conway_params (numbered models) p), b1, w2)"
    by (simp add: gu_GetProtocolParameters_def with_point_def assms(8,10) convertUroBorosProtocolParameters_def)
qed

section \<open>Witnesses\<close>

text \<open>A node whose connections are the numbers of their channels; its world is the number of points acquired.\<close>

definition demo_params :: "nat ProtocolParameters" where
  "demo_params = some_params\<lparr>pp_DRepVotingThresholds := Some \<lparr>vt_CommitteeNoConfidence = 1, vt_CommitteeNormal = 2,
     vt_HardForkInitiation = 3, vt_MotionNoConfidence = 4, vt_PPEconomicGroup = 5, vt_PPGovGroup = 6, vt_PPNetworkGroup = 7,
     vt_PPTechnicalGroup = 8, vt_TreasuryWithdrawal = 9, vt_UpdateToConstitution = 10\<rparr>\<rparr>"

definition demo_models :: "(u64 \<times> int list) list" where
  "demo_models = [(0, [100788, 420]), (1, [100788, 420, 1])]"

definition demo_node :: "(nat, unit, nat, nat) gouroboros" where
  "demo_node = \<lparr>gb_NewConnection = (\<lambda>magic keep t ch w. (Inr ch, w)), gb_Dial = (\<lambda>c proto path w. (None, w)),
     gb_Acquire = (\<lambda>c w. (None, w + 1)),
     gb_GetCurrentProtocolParams = (\<lambda>c w. (Inr (Conway (node_params id (rev demo_models) demo_params)), w)),
     gb_GetUTxOByAddress = (\<lambda>c a w. (Inr [], w)), gb_GetChainBlockNo = (\<lambda>c w. (Inr 7, w)),
     gb_GetChainPoint = (\<lambda>c w. (Inr (99, [1, 2]), w)), gb_GetEpochNo = (\<lambda>c w. (Inr 3, w)),
     gb_SubmitTx = (\<lambda>c t tx w. (None, w)), gb_Close = (\<lambda>c w. w), gb_DetermineTransactionType = (\<lambda>tx. Inr 6),
     gb_Address = (\<lambda>bs. Inr ())\<rparr>"

lemma demo_node_accepts: "node_accepts demo_node"
  by (simp add: node_accepts_def demo_node_def createGoUroBorosConnection_def)

definition demo_provider :: "nat TxProviderGoUroBoros" where
  "demo_provider = NewTxProviderGoUroBoros 42 ''/node.socket'' []"

theorem alone_request_returns_witness:
  "\<exists>tip b' conn w1. gu_GetTip demo_node 0 demo_provider 0 = Some (Inr tip, b', 1) \<and> qt_Block tip = 7 \<and>
    tg_connection b' = Some conn \<and> query_tip demo_node conn w1 = (Inr tip, 1)"
proof -
  have "\<exists>tip b'. gu_GetTip demo_node 0 demo_provider 0 = Some (Inr tip, b', 1) \<and> qt_Block tip = 7"
    by (simp add: gu_GetTip_def with_point_def getConnection_def createGoUroBorosConnection_def acquire_def acquire_decide_def
        acquire_point_def query_tip_def demo_node_def demo_provider_def NewTxProviderGoUroBoros_def time_Sub_def zero_time_def Let_def)
  then show ?thesis using alone_request_returns [of demo_node 0 demo_provider 0] by auto
qed

theorem sleeping_loop_never_wakes_witness:
  "\<exists>s s'. gu_steps demo_node (gu_start demo_provider 0) s \<and> gu_steps demo_node s s' \<and> gy_sending s' = {0} \<and>
    getConnection demo_node (gy_provider s') 5 = (Inr 0, gy_provider s', 5)"
proof -
  have "gu_steps demo_node (gu_start demo_provider 0) (gu_start demo_provider 0)" by simp
  from steps_loop [OF this loop_select]
  have r: "gu_steps demo_node (gu_start demo_provider 0) ((gu_start demo_provider 0)\<lparr>gy_loop := LoopWait None\<rparr>)"
    (is "gu_steps _ _ ?s") by (simp add: gu_start_def demo_provider_def NewTxProviderGoUroBoros_def)
  have g: "getConnection demo_node demo_provider 0 =
      (Inr 0, demo_provider\<lparr>tg_errChan := Some 0, tg_made := 1, tg_connection := Some 0\<rparr>, 0)" (is "_ = (_, ?b, _)")
    by (simp add: getConnection_def createGoUroBorosConnection_def demo_node_def demo_provider_def NewTxProviderGoUroBoros_def Let_def)
  from steps_call [OF r call_connect [of _ 0]] g
  have s: "gu_steps demo_node (gu_start demo_provider 0) (?s\<lparr>gy_provider := ?b, gy_calls := (gy_calls ?s)(0 := CallConnected 0)\<rparr>)"
    (is "gu_steps _ _ ?s1") by (fastforce simp: gu_start_def)
  have s': "gu_steps demo_node ?s1 (?s1\<lparr>gy_sending := {0}\<rparr>)" (is "gu_steps _ _ ?s2")
    using steps_call [OF rtranclp.rtrancl_refl node_error [of 0 ?s1]] by (simp add: gu_start_def)
  have "getConnection demo_node (gy_provider ?s2) 5 = (Inr 0, gy_provider ?s2, 5)"
    using sleeping_loop_never_wakes [OF s', of 0 5] by simp
  moreover have "gy_sending ?s2 = {0}" by simp
  ultimately show ?thesis using s s' by blast
qed

theorem awake_loop_replaces_connection_witness:
  "\<exists>s s2 s4. gu_steps demo_node (gu_start demo_provider 0) s \<and> 0 \<in> gy_sending s \<and> tg_connection (gy_provider s) \<noteq> None \<and>
    loop_step s s2 \<and> loop_step s2 s4 \<and> tg_connection (gy_provider s4) = None"
proof -
  from first_failure [OF demo_node_accepts demo_provider_def, of 0] obtain conn w' where
    s: "gu_steps demo_node (gu_start demo_provider 0) \<lparr>gy_provider = demo_provider\<lparr>tg_errChan := Some 0, tg_made := 1, tg_connection := Some conn\<rparr>,
      gy_world = w', gy_loop = LoopWait (Some 0), gy_calls = (\<lambda>i. CallStart)(0 := CallConnected conn), gy_sending = {0}, gy_shut = {}\<rparr>"
    (is "gu_steps _ _ ?s") by blast
  have s2: "loop_step ?s (?s\<lparr>gy_loop := LoopReset, gy_sending := gy_sending ?s - {0}\<rparr>)" (is "loop_step _ ?s2")
    by (rule loop_receive) simp_all
  have "\<not> tg_closed (gy_provider ?s2)" by (simp add: demo_provider_def NewTxProviderGoUroBoros_def)
  moreover have "gy_loop ?s = LoopWait (Some 0)" "0 \<in> gy_sending ?s" by simp_all
  note awake_loop_replaces_connection [OF this rtranclp.rtrancl_refl, of demo_node]
  ultimately obtain s4 where "loop_step ?s2 s4" "tg_connection (gy_provider s4) = None" using s2 by blast
  moreover have "0 \<in> gy_sending ?s" "tg_connection (gy_provider ?s) \<noteq> None" by simp_all
  ultimately show ?thesis using s s2 by blast
qed

theorem node_agrees_with_ogmios_witness:
  "\<exists>E doc b1. gu_GetProtocolParameters nat_floats id demo_node 0 (demo_provider\<lparr>tg_connection := Some 3\<rparr>) 0 = Some (doc, b1, 1) \<and>
    og_GetProtocolParameters nat_floats rev E ''https://ogmios'' = Some doc"
proof -
  define E where "E = two_services JNull (og_response ''queryLedgerState/protocolParameters''
      (og_params_doc (\<lambda>n. JNum (int n)) itoa (numbered demo_models) demo_params))"
  have "acquire demo_node 0 (demo_provider\<lparr>tg_connection := Some 3\<rparr>) 0 =
      Some (None, demo_provider\<lparr>tg_connection := Some 3, tg_lastAcquiredTime := 0\<rparr>, 1)"
    by (simp add: acquire_def acquire_decide_def acquire_point_def demo_node_def demo_provider_def NewTxProviderGoUroBoros_def
        time_Sub_def zero_time_def)
  moreover have "models_ok (numbered demo_models)" by (simp add: models_ok_def numbered_def demo_models_def itoa64_def, code_simp)
  moreover have "conway_complete demo_params" by (simp add: conway_complete_def demo_params_def some_params_def)
  moreover have "gb_GetCurrentProtocolParams demo_node 3 1 = (Inr (Conway (node_params id (rev demo_models) demo_params)), 1)"
    by (simp add: demo_node_def)
  ultimately show ?thesis
    using node_agrees_with_ogmios [OF _ nat_floats_ok, of rev id id demo_params demo_models E "''https://ogmios''" "rev demo_models"
        demo_node 3 1 1 "demo_provider\<lparr>tg_connection := Some 3\<rparr>" 0 0]
    by (auto simp: order_ok_def E_def two_services_answer)
qed

theorem request_can_panic_witness:
  "\<exists>s. gu_steps demo_node (gu_start (NewTxProviderGoUroBoros 42 ''/node.socket'' []) 0) s \<and> call_panics demo_node s 0"
  by (rule request_can_panic [OF demo_node_accepts])

theorem fresh_connection_can_be_lost_witness:
  "\<exists>s ch conn. gu_steps demo_node (gu_start (NewTxProviderGoUroBoros 42 ''/node.socket'' []) 0) s \<and> gy_calls s 1 = CallConnected conn \<and>
    tg_errChan (gy_provider s) = Some ch \<and> ch \<notin> gy_sending s \<and> ch \<notin> gy_shut s \<and> tg_connection (gy_provider s) = None"
  by (rule fresh_connection_can_be_lost [OF demo_node_accepts])

end
