(* ===== verification/Safe_Files.thy ===== *)
theory Safe_Files
  imports Go_Lib "HOL-Library.AList"
begin

text \<open>
  Paths (\<open>path/filepath\<close>), a file system with owners and permissions, and the careful creation of files and
  directories of \<open>common/common.go\<close>. Symbolic links are left out, so a path means its clean form.
\<close>

section \<open>Paths\<close>

text \<open>A clean path: whether it is rooted, and its components.\<close>

type_synonym clean_path = "bool \<times> string list"

definition clean_step :: "bool \<Rightarrow> string list \<Rightarrow> string \<Rightarrow> string list" where
  "clean_step rooted out c =
     (if c = '''' \<or> c = ''.'' then out
      else if c = ''..'' then
        (if out \<noteq> [] \<and> hd out \<noteq> ''..'' then tl out else if rooted then out else c # out)
      else c # out)"

definition clean :: "string \<Rightarrow> clean_path" where
  "clean s = (let rooted = has_prefix s ''/'' in (rooted, rev (foldl (clean_step rooted) [] (split_on (CHR ''/'') s))))"

fun join_comps :: "string list \<Rightarrow> string" where
  "join_comps [] = ''''"
| "join_comps [c] = c"
| "join_comps (c # cs) = c @ ''/'' @ join_comps cs"

fun path_text :: "clean_path \<Rightarrow> string" where
  "path_text (rooted, cs) = (if rooted then ''/'' @ join_comps cs else if cs = [] then ''.'' else join_comps cs)"

definition filepath_Clean :: "string \<Rightarrow> string" where
  "filepath_Clean s = path_text (clean s)"

definition filepath_Join :: "string list \<Rightarrow> string" where
  "filepath_Join elem =
     (case dropWhile (\<lambda>e. e = '''') elem of [] \<Rightarrow> '''' | es \<Rightarrow> filepath_Clean (join_comps es))"

section \<open>The file system\<close>

definition ModeDir :: u32 where "ModeDir = 0x80000000"

record FileInfo =
  fi_mode :: u32
  fi_uid :: u32
  fi_gid :: u32

record entry = FileInfo +
  fe_data :: bytes

type_synonym disk = "(clean_path \<times> entry) list"

definition IsDir :: "'a FileInfo_scheme \<Rightarrow> bool" where
  "IsDir i \<longleftrightarrow> and (fi_mode i) ModeDir \<noteq> 0"

text \<open>
  The machine: who runs the program (\<open>sy_user\<close>: \<open>user.Current\<close> with its texts), the mask of permissions, and
  what goes wrong: an error of an operation on a path, and an error of a write, after it has put a part of
  the data into the file or before.
\<close>

record machine =
  sy_uid :: u32
  sy_gid :: u32
  sy_umask :: u32
  sy_user :: "(string \<times> string) result"
  sy_fault :: "string \<Rightarrow> clean_path \<Rightarrow> goerror option"
  sy_write :: "clean_path \<Rightarrow> (goerror \<times> nat option) option"

text \<open>The root, the current directory and those above it are there; \<open>parents\<close> are the directories on the way.\<close>

definition always_there :: "clean_path \<Rightarrow> bool" where
  "always_there p \<longleftrightarrow> list_all (\<lambda>c. c = ''..'') (snd p)"

definition parents :: "clean_path \<Rightarrow> clean_path list" where
  "parents p = map (\<lambda>i. (fst p, take i (snd p))) [1..<length (snd p)]"

definition dir_at :: "disk \<Rightarrow> clean_path \<Rightarrow> bool" where
  "dir_at d p \<longleftrightarrow> always_there p \<or> (case map_of d p of None \<Rightarrow> False | Some e \<Rightarrow> IsDir e)"

definition file_at :: "disk \<Rightarrow> clean_path \<Rightarrow> bool" where
  "file_at d p \<longleftrightarrow> (case map_of d p of None \<Rightarrow> False | Some e \<Rightarrow> \<not> IsDir e)"

definition children :: "disk \<Rightarrow> clean_path \<Rightarrow> bool" where
  "children d p \<longleftrightarrow> list_ex (\<lambda>(q, e). fst q = fst p \<and> length (snd p) < length (snd q) \<and> take (length (snd p)) (snd q) = snd p) d"

definition path_error :: "string \<Rightarrow> string \<Rightarrow> string \<Rightarrow> goerror" where
  "path_error operation path text = ErrMsg (operation @ '' '' @ path @ '': '' @ text)"

definition owned :: "machine \<Rightarrow> u32 \<Rightarrow> bytes \<Rightarrow> entry" where
  "owned M mode data = \<lparr>fi_mode = mode, fi_uid = sy_uid M, fi_gid = sy_gid M, fe_data = data\<rparr>"

definition masked :: "machine \<Rightarrow> u32 \<Rightarrow> u32" where
  "masked M perms = and perms (not (sy_umask M))"

datatype stat_result = NotExist | StatError goerror | Found FileInfo

text \<open>The directories that are always there are those of the machine.\<close>

definition os_Stat :: "machine \<Rightarrow> disk \<Rightarrow> string \<Rightarrow> stat_result" where
  "os_Stat M d path =
     (let p = clean path in
      if path = '''' then NotExist
      else case sy_fault M ''stat'' p of
        Some err \<Rightarrow> StatError err
      | None \<Rightarrow>
          if always_there p then Found (FileInfo.truncate (owned M (or ModeDir 0x1ED) []))
          else if list_ex (file_at d) (parents p) then StatError (path_error ''stat'' path ''not a directory'')
          else case map_of d p of None \<Rightarrow> NotExist | Some e \<Rightarrow> Found (FileInfo.truncate e))"

fun make_dirs :: "machine \<Rightarrow> u32 \<Rightarrow> clean_path list \<Rightarrow> disk \<Rightarrow> goerror option \<times> disk" where
  "make_dirs M perms [] d = (None, d)"
| "make_dirs M perms (p # ps) d =
     (if dir_at d p then make_dirs M perms ps d
      else if file_at d p then (Some (path_error ''mkdir'' (path_text p) ''not a directory''), d)
      else case sy_fault M ''mkdir'' p of
        Some err \<Rightarrow> (Some err, d)
      | None \<Rightarrow> make_dirs M perms ps (AList.update p (owned M (or ModeDir (masked M perms)) []) d))"

definition os_MkdirAll :: "machine \<Rightarrow> string \<Rightarrow> u32 \<Rightarrow> disk \<Rightarrow> goerror option \<times> disk" where
  "os_MkdirAll M path perms d =
     (if path = '''' then (Some (path_error ''mkdir'' path ''no such file or directory''), d)
      else make_dirs M perms (parents (clean path) @ [clean path]) d)"

definition os_WriteFile :: "machine \<Rightarrow> string \<Rightarrow> bytes \<Rightarrow> u32 \<Rightarrow> disk \<Rightarrow> goerror option \<times> disk" where
  "os_WriteFile M path data perms d =
     (let p = clean path; e = (case map_of d p of Some e \<Rightarrow> e | None \<Rightarrow> owned M (masked M perms) []) in
      if path = '''' \<or> \<not> list_all (dir_at d) (parents p)
      then (Some (path_error ''open'' path ''no such file or directory''), d)
      else if dir_at d p then (Some (path_error ''open'' path ''is a directory''), d)
      else case sy_write M p of
        Some (err, None) \<Rightarrow> (Some err, d)
      | Some (err, Some n) \<Rightarrow> (Some err, AList.update p (e\<lparr>fe_data := take n data\<rparr>) d)
      | None \<Rightarrow> (None, AList.update p (e\<lparr>fe_data := data\<rparr>) d))"

definition os_ReadFile :: "machine \<Rightarrow> disk \<Rightarrow> string \<Rightarrow> bytes result" where
  "os_ReadFile M d path =
     (let p = clean path in
      if path = '''' then Inl (path_error ''open'' path ''no such file or directory'')
      else case sy_fault M ''read'' p of
        Some err \<Rightarrow> Inl err
      | None \<Rightarrow>
          if dir_at d p then Inl (path_error ''read'' path ''is a directory'')
          else case map_of d p of
            None \<Rightarrow> Inl (path_error ''open'' path ''no such file or directory'')
          | Some e \<Rightarrow> Inr (fe_data e))"

text \<open>A directory is removed when it is empty.\<close>

definition os_Remove :: "machine \<Rightarrow> string \<Rightarrow> disk \<Rightarrow> goerror option \<times> disk" where
  "os_Remove M path d =
     (let p = clean path in
      if path = '''' then (Some (path_error ''remove'' path ''no such file or directory''), d)
      else case sy_fault M ''remove'' p of
        Some err \<Rightarrow> (Some err, d)
      | None \<Rightarrow>
          if always_there p \<or> children d p then (Some (path_error ''remove'' path ''directory not empty''), d)
          else if map_of d p = None then (Some (path_error ''remove'' path ''no such file or directory''), d)
          else (None, AList.delete p d))"

section \<open>Careful creation\<close>

definition DirectoryExists :: "machine \<Rightarrow> disk \<Rightarrow> string \<Rightarrow> bool" where
  "DirectoryExists M d directoryPath =
     (if directoryPath = '''' then False
      else case os_Stat M d directoryPath of NotExist \<Rightarrow> False | StatError _ \<Rightarrow> True | Found fileInfo \<Rightarrow> IsDir fileInfo)"

definition FileExists :: "machine \<Rightarrow> disk \<Rightarrow> string \<Rightarrow> bool" where
  "FileExists M d filePath =
     (if filePath = '''' then False
      else case os_Stat M d filePath of NotExist \<Rightarrow> False | StatError _ \<Rightarrow> True | Found fileInfo \<Rightarrow> \<not> IsDir fileInfo)"

definition verifyFileOwnerAndPermissions :: "machine \<Rightarrow> string \<Rightarrow> FileInfo \<Rightarrow> u32 \<Rightarrow> goerror option" where
  "verifyFileOwnerAndPermissions M path info expectedPerms =
     (case sy_user M of
        Inl _ \<Rightarrow> Some (ErrMsg ''failed to get current user'')
      | Inr (uid, gid) \<Rightarrow>
          if uid = itoa64 (ucast (fi_uid info)) then None
          else if gid \<noteq> itoa64 (ucast (fi_gid info))
          then Some (ErrMsg (''file/directory created by a user from a different group: '' @ path))
          else if fi_mode info \<noteq> expectedPerms
          then Some (ErrMsg (''permissions of the file/directory '' @ [CHR 0x27] @ path @ [CHR 0x27] @ '' are set incorrectly by another user''))
          else None)"

definition CreateDirSafe :: "machine \<Rightarrow> string \<Rightarrow> u32 \<Rightarrow> disk \<Rightarrow> goerror option \<times> disk" where
  "CreateDirSafe M path perms d =
     (case os_Stat M d path of
        StatError err \<Rightarrow> (Some err, d)
      | NotExist \<Rightarrow> os_MkdirAll M path perms d
      | Found info \<Rightarrow>
          if \<not> DirectoryExists M d path then os_MkdirAll M path perms d
          else (verifyFileOwnerAndPermissions M path info perms, d))"

definition SaveFileSafe :: "machine \<Rightarrow> string \<Rightarrow> bytes \<Rightarrow> u32 \<Rightarrow> disk \<Rightarrow> goerror option \<times> disk" where
  "SaveFileSafe M path data perms d =
     (case os_Stat M d path of
        StatError err \<Rightarrow> (Some err, d)
      | NotExist \<Rightarrow> os_WriteFile M path data perms d
      | Found info \<Rightarrow>
          (case (if FileExists M d path then verifyFileOwnerAndPermissions M path info perms else None) of
             Some err \<Rightarrow> (Some err, d)
           | None \<Rightarrow> os_WriteFile M path data perms d))"

fun setup_paths :: "machine \<Rightarrow> string \<Rightarrow> string list \<Rightarrow> u32 \<Rightarrow> disk \<Rightarrow> goerror option \<times> disk" where
  "setup_paths M dataDir [] perms d = (None, d)"
| "setup_paths M dataDir (path # paths) perms d =
     (case CreateDirSafe M (filepath_Join [dataDir, path]) perms d of
        (Some err, d) \<Rightarrow> (Some (ErrWrap (''failed to create path: ('' @ filepath_Join [dataDir, path] @ ''): '') err ''''), d)
      | (None, d) \<Rightarrow> setup_paths M dataDir paths perms d)"

definition SetupDataDir :: "machine \<Rightarrow> string \<Rightarrow> string list \<Rightarrow> u32 \<Rightarrow> disk \<Rightarrow> goerror option \<times> disk" where
  "SetupDataDir M dataDir paths perms d =
     (case CreateDirSafe M dataDir perms d of
        (Some err, d) \<Rightarrow> (Some (ErrWrap (''failed to create data dir: ('' @ dataDir @ ''): '') err ''''), d)
      | (None, d) \<Rightarrow> setup_paths M dataDir paths perms d)"

section \<open>Clean paths\<close>

text \<open>Components of a clean path: names, and \<open>..\<close> only at the start of a path that is not rooted.\<close>

definition plain_comp :: "string \<Rightarrow> bool" where
  "plain_comp c \<longleftrightarrow> c \<noteq> '''' \<and> c \<noteq> ''.'' \<and> c \<noteq> ''..'' \<and> CHR ''/'' \<notin> set c"

definition normal :: "clean_path \<Rightarrow> bool" where
  "normal p \<longleftrightarrow> (\<exists>k cs. snd p = replicate k ''..'' @ cs \<and> list_all plain_comp cs \<and> (fst p \<longrightarrow> k = 0))"

lemma split_on_comps: "c \<in> set (split_on sep s) \<Longrightarrow> sep \<notin> set c"
  by (induction s arbitrary: c) (auto split: list.splits if_splits)

lemma clean_step_normal:
  assumes "normal (r, rev out)" "CHR ''/'' \<notin> set c"
  shows "normal (r, rev (clean_step r out c))"
proof -
  obtain k cs where out: "rev out = replicate k ''..'' @ cs" "list_all plain_comp cs" "r \<longrightarrow> k = 0"
    using assms(1) by (auto simp: normal_def)
  then have o: "out = rev cs @ replicate k ''..''" by (metis rev_append rev_replicate rev_rev_ident)
  consider "c = '''' \<or> c = ''.''" | "c = ''..''" | "plain_comp c" using assms(2) by (auto simp: plain_comp_def)
  then show ?thesis
  proof cases
    case 1
    then show ?thesis using assms(1) by (simp add: clean_step_def)
  next
    case 2
    show ?thesis
    proof (cases cs rule: rev_cases)
      case Nil
      then have "rev (clean_step r out c) = (if r then [] else replicate (Suc k) ''..'')"
        using o out(3) 2 by (cases k) (auto simp: clean_step_def replicate_append_same)
      then show ?thesis by (auto simp: normal_def intro: exI [of _ "Suc k"])
    next
      case (snoc cs' c')
      then have "c' \<noteq> ''..''" using out(2) by (simp add: plain_comp_def)
      then have "rev (clean_step r out c) = replicate k ''..'' @ cs'" using o 2 snoc by (simp add: clean_step_def)
      then show ?thesis using out snoc by (auto simp: normal_def)
    qed
  next
    case 3
    then have "rev (clean_step r out c) = replicate k ''..'' @ (cs @ [c])" using o by (simp add: clean_step_def plain_comp_def)
    moreover have "list_all plain_comp (cs @ [c])" using out(2) 3 by simp
    ultimately show ?thesis using out(3) unfolding normal_def by (metis snd_conv fst_conv)
  qed
qed

lemma clean_normal: "normal (clean s)"
proof -
  have "normal (r, rev (foldl (clean_step r) out cs))" if "normal (r, rev out)" "\<forall>c \<in> set cs. CHR ''/'' \<notin> set c" for r out cs
    using that by (induction cs arbitrary: out) (auto intro: clean_step_normal)
  moreover have "normal (r, rev [])" for r by (simp add: normal_def)
  ultimately show ?thesis using split_on_comps by (simp add: clean_def Let_def)
qed

lemma foldl_plain: "list_all plain_comp cs \<Longrightarrow> foldl (clean_step r) out cs = rev cs @ out"
  by (induction cs arbitrary: out) (simp_all add: clean_step_def plain_comp_def)

lemma foldl_up: "\<forall>c \<in> set out. c = ''..'' \<Longrightarrow> foldl (clean_step False) out (replicate k ''..'') = replicate k ''..'' @ out"
proof (induction k arbitrary: out)
  case (Suc k)
  have "clean_step False out ''..'' = ''..'' # out" using Suc.prems by (cases out) (simp_all add: clean_step_def)
  then show ?case using Suc by (simp add: replicate_append_same)
qed simp

lemma foldl_normal:
  assumes "normal (r, cs)"
  shows "foldl (clean_step r) [] cs = rev cs"
proof -
  obtain k cs' where "cs = replicate k ''..'' @ cs'" "list_all plain_comp cs'" "r \<longrightarrow> k = 0" using assms by (auto simp: normal_def)
  then show ?thesis using foldl_up [of "[]" k] by (cases r) (simp_all add: foldl_plain)
qed

lemma split_on_join:
  "cs \<noteq> [] \<Longrightarrow> \<forall>c \<in> set cs. CHR ''/'' \<notin> set c \<Longrightarrow> split_on (CHR ''/'') (join_comps cs) = cs"
proof (induction cs rule: join_comps.induct)
  case (3 c d cs)
  then show ?case by (simp add: split_on_append)
qed (simp_all add: split_on_none)

lemma split_on_snoc: "split_on sep (s @ sep # t) = split_on sep s @ split_on sep t"
  by (induction s) (auto split: list.splits)

lemma normal_no_slash: "normal (r, cs) \<Longrightarrow> \<forall>c \<in> set cs. CHR ''/'' \<notin> set c \<and> c \<noteq> ''''"
proof
  fix c assume "normal (r, cs)" "c \<in> set cs"
  then obtain k cs' where "cs = replicate k ''..'' @ cs'" "list_all plain_comp cs'" unfolding normal_def snd_conv by blast
  with \<open>c \<in> set cs\<close> have "c \<in> set (replicate k ''..'') \<or> c \<in> set cs'" "list_all plain_comp cs'" by simp_all
  then have "c = ''..'' \<or> plain_comp c" by (auto simp: list_all_iff set_replicate_conv_if split: if_splits)
  then show "CHR ''/'' \<notin> set c \<and> c \<noteq> ''''" by (auto simp: plain_comp_def)
qed

text \<open>A clean path and more: the path is walked further from where it leads.\<close>

lemma clean_below:
  assumes "normal p"
  shows "clean (path_text p @ ''/'' @ t) = (fst p, rev (foldl (clean_step (fst p)) (rev (snd p)) (split_on (CHR ''/'') t)))"
proof -
  obtain r cs where p: "p = (r, cs)" by (cases p)
  note ns = normal_no_slash [OF assms [unfolded p]]
  have walk: "foldl (clean_step r) [] (split_on (CHR ''/'') (path_text p)) = rev cs"
  proof (cases "cs = []")
    case True
    then show ?thesis by (cases r) (simp_all add: p clean_step_def)
  next
    case False
    then have "split_on (CHR ''/'') (path_text p) = (if r then [''''] else []) @ cs"
      using ns split_on_join [OF False] split_on_append [of "CHR ''/''" "''''"] by (auto simp: p)
    then show ?thesis using foldl_normal [OF assms [unfolded p]] by (cases r) (simp_all add: clean_step_def)
  qed
  have "has_prefix (path_text p @ ''/'' @ t) ''/'' = r"
  proof (cases cs)
    case (Cons c cs')
    then obtain x c' where "c = x # c'" "x \<noteq> CHR ''/''" using ns by (cases c) auto
    then have "join_comps cs = x # c' @ (case cs' of [] \<Rightarrow> '''' | _ \<Rightarrow> ''/'' @ join_comps cs')"
      by (cases cs') (simp_all add: Cons)
    then show ?thesis using \<open>x \<noteq> _\<close> by (cases r) (simp_all add: p Cons has_prefix_def)
  qed (simp add: p has_prefix_def)
  then show ?thesis
    using walk split_on_snoc [of "CHR ''/''" "path_text p" t] by (simp add: clean_def Let_def p)
qed

lemma clean_path_text:
  assumes "normal p"
  shows "clean (path_text p) = p"
proof -
  obtain r cs where p: "p = (r, cs)" by (cases p)
  have "clean (path_text p @ ''/'' @ '''') = p" using clean_below [OF assms, of "''''"] by (simp add: p clean_step_def)
  moreover have "clean (s @ ''/'') = clean s" if "s \<noteq> ''''" for s
    using that split_on_snoc [of "CHR ''/''" s "''''"] by (cases s) (simp_all add: clean_def Let_def has_prefix_def clean_step_def)
  moreover have "path_text p \<noteq> ''''"
    using normal_no_slash [OF assms [unfolded p]] by (cases cs rule: join_comps.cases) (auto simp: p)
  ultimately show ?thesis by simp
qed

lemma path_text_nonempty: "normal p \<Longrightarrow> path_text p \<noteq> ''''"
  using normal_no_slash [of "fst p" "snd p"] by (cases p; cases "snd p" rule: join_comps.cases) auto

lemma clean_Clean [simp]: "clean (filepath_Clean s) = clean s"
  by (simp only: filepath_Clean_def clean_path_text [OF clean_normal])

text \<open>Joining a name, and joining nothing.\<close>

lemma clean_Join:
  assumes "s \<noteq> ''''"
  shows "clean (filepath_Join [s, t]) = (fst (clean s), rev (foldl (clean_step (fst (clean s))) (rev (snd (clean s))) (split_on (CHR ''/'') t)))"
proof -
  have "clean (filepath_Join [s, t]) = clean (s @ ''/'' @ t)" using assms by (simp add: filepath_Join_def)
  moreover have "clean (s @ ''/'' @ t) = (fst (clean s), rev (foldl (clean_step (fst (clean s))) (rev (snd (clean s))) (split_on (CHR ''/'') t)))"
    using assms split_on_snoc [of "CHR ''/''" s t] by (cases s) (simp_all add: clean_def Let_def has_prefix_def)
  ultimately show ?thesis by simp
qed

lemma clean_Join_name: "s \<noteq> '''' \<Longrightarrow> plain_comp t \<Longrightarrow> clean (filepath_Join [s, t]) = (fst (clean s), snd (clean s) @ [t])"
  by (simp add: clean_Join plain_comp_def split_on_none clean_step_def)

lemma clean_Join_empty: "s \<noteq> '''' \<Longrightarrow> clean (filepath_Join [s, '''']) = clean s"
  by (simp add: clean_Join clean_step_def)

lemma Join_nonempty: "s \<noteq> '''' \<Longrightarrow> filepath_Join (s # t) \<noteq> ''''"
  by (simp add: filepath_Join_def filepath_Clean_def path_text_nonempty [OF clean_normal] del: path_text.simps)

end
