(* ===== verification/Secrets.thy ===== *)
theory Secrets
  imports Safe_Files Json_Doc
begin

text \<open>
  The secrets of a node (\<open>secrets/secrets.go\<close>, \<open>secrets/config.go\<close>): the interface of a secrets manager, as
  a locale with what its users rely on, and the configuration file.
\<close>

section \<open>Names and types\<close>

definition ValidatorKey :: string where "ValidatorKey = ''validator-key''"
definition ValidatorBLSKey :: string where "ValidatorBLSKey = ''validator-bls-key''"
definition NetworkKey :: string where "NetworkKey = ''network-key''"

definition ValidatorKeyLocal :: string where "ValidatorKeyLocal = ''validator.key''"
definition ValidatorBLSKeyLocal :: string where "ValidatorBLSKeyLocal = ''validator-bls.key''"
definition NetworkKeyLocal :: string where "NetworkKeyLocal = ''libp2p.key''"
definition CardanoKeyLocalPrefix :: string where "CardanoKeyLocalPrefix = ''cardano_''"
definition OtherKeyLocalPrefix :: string where "OtherKeyLocalPrefix = ''other_''"

definition ConsensusFolderLocal :: string where "ConsensusFolderLocal = ''consensus''"
definition NetworkFolderLocal :: string where "NetworkFolderLocal = ''libp2p''"
definition CardanoFolderLocal :: string where "CardanoFolderLocal = ''cardano''"
definition OtherFolderLocal :: string where "OtherFolderLocal = ''other''"

type_synonym SecretsManagerType = string

definition Local :: SecretsManagerType where "Local = ''local''"
definition HashicorpVault :: SecretsManagerType where "HashicorpVault = ''hashicorp-vault''"
definition AWSSSM :: SecretsManagerType where "AWSSSM = ''aws-ssm''"
definition GCPSSM :: SecretsManagerType where "GCPSSM = ''gcp-ssm''"

definition SupportedServiceManager :: "SecretsManagerType \<Rightarrow> bool" where
  "SupportedServiceManager service \<longleftrightarrow> service = HashicorpVault \<or> service = AWSSSM \<or> service = Local \<or> service = GCPSSM"

section \<open>The interface\<close>

text \<open>
  A manager works on a state \<open>'s\<close>: the files or the store of a service. Every name it handles has a \<open>place\<close>;
  what is \<open>held\<close> there is what \<open>GetSecret\<close> returns, unless the read fails. \<open>fits\<close> are the values the
  manager can keep.
\<close>

definition peek :: "('s \<Rightarrow> string \<Rightarrow> bytes result) \<Rightarrow> 's \<Rightarrow> string \<Rightarrow> bytes option" where
  "peek get s n = (case get s n of Inr v \<Rightarrow> Some v | Inl _ \<Rightarrow> None)"

datatype secret_op = SetOp string bytes | RemoveOp string

primrec op_name :: "secret_op \<Rightarrow> string" where
  "op_name (SetOp n v) = n"
| "op_name (RemoveOp n) = n"

primrec op_fits :: "(bytes \<Rightarrow> bool) \<Rightarrow> secret_op \<Rightarrow> bool" where
  "op_fits fits (SetOp n v) = fits v"
| "op_fits fits (RemoveOp n) = True"

primrec do_op :: "('s \<Rightarrow> string \<Rightarrow> bytes \<Rightarrow> goerror option \<times> 's) \<Rightarrow> ('s \<Rightarrow> string \<Rightarrow> goerror option \<times> 's) \<Rightarrow> secret_op \<Rightarrow> 's \<Rightarrow> goerror option \<times> 's" where
  "do_op set_secret remove (SetOp n v) s = set_secret s n v"
| "do_op set_secret remove (RemoveOp n) s = remove s n"

text \<open>A series of operations: all of them, whatever they return, and only when none fails.\<close>

definition do_all :: "('s \<Rightarrow> string \<Rightarrow> bytes \<Rightarrow> goerror option \<times> 's) \<Rightarrow> ('s \<Rightarrow> string \<Rightarrow> goerror option \<times> 's) \<Rightarrow> secret_op list \<Rightarrow> 's \<Rightarrow> 's" where
  "do_all set_secret remove ops s = fold (\<lambda>op s. snd (do_op set_secret remove op s)) ops s"

fun do_ok :: "('s \<Rightarrow> string \<Rightarrow> bytes \<Rightarrow> goerror option \<times> 's) \<Rightarrow> ('s \<Rightarrow> string \<Rightarrow> goerror option \<times> 's) \<Rightarrow> secret_op list \<Rightarrow> 's \<Rightarrow> 's option" where
  "do_ok set_secret remove [] s = Some s"
| "do_ok set_secret remove (op # ops) s =
     (case do_op set_secret remove op s of (None, s') \<Rightarrow> do_ok set_secret remove ops s' | _ \<Rightarrow> None)"

text \<open>What the operations mean for the values at the places.\<close>

primrec spec_op :: "(string \<Rightarrow> 'p option) \<Rightarrow> secret_op \<Rightarrow> ('p \<Rightarrow> bytes option) \<Rightarrow> ('p \<Rightarrow> bytes option)" where
  "spec_op place (SetOp n v) m = m(the (place n) \<mapsto> v)"
| "spec_op place (RemoveOp n) m = m(the (place n) := None)"

locale secret_store =
  fixes get :: "'s \<Rightarrow> string \<Rightarrow> bytes result"
    and held :: "'s \<Rightarrow> string \<Rightarrow> bytes option"
    and set_secret :: "'s \<Rightarrow> string \<Rightarrow> bytes \<Rightarrow> goerror option \<times> 's"
    and remove :: "'s \<Rightarrow> string \<Rightarrow> goerror option \<times> 's"
    and place :: "string \<Rightarrow> 'p option"
    and fits :: "bytes \<Rightarrow> bool"
    and invar :: "'s \<Rightarrow> bool"
  assumes reads: "invar s \<Longrightarrow> place n = Some p \<Longrightarrow> get s n = Inr v \<Longrightarrow> held s n = Some v"
    and one_place: "invar s \<Longrightarrow> place n = Some p \<Longrightarrow> place m = Some p \<Longrightarrow> held s m = held s n"
    and set_invar: "invar s \<Longrightarrow> place n = Some p \<Longrightarrow> invar (snd (set_secret s n v))"
    and set_reads: "invar s \<Longrightarrow> place n = Some p \<Longrightarrow> fits v \<Longrightarrow> set_secret s n v = (None, s') \<Longrightarrow> held s' n = Some v"
    and set_frame: "invar s \<Longrightarrow> place n = Some p \<Longrightarrow> place m = Some q \<Longrightarrow> p \<noteq> q \<Longrightarrow>
      held (snd (set_secret s n v)) m = held s m"
    and remove_invar: "invar s \<Longrightarrow> place n = Some p \<Longrightarrow> invar (snd (remove s n))"
    and remove_reads: "invar s \<Longrightarrow> place n = Some p \<Longrightarrow> remove s n = (None, s') \<Longrightarrow> held s' n = None"
    and remove_frame: "invar s \<Longrightarrow> place n = Some p \<Longrightarrow> place m = Some q \<Longrightarrow> p \<noteq> q \<Longrightarrow>
      held (snd (remove s n)) m = held s m"
begin

definition keeps :: "'s \<Rightarrow> ('p \<Rightarrow> bytes option) \<Rightarrow> bool" where
  "keeps s m \<longleftrightarrow> invar s \<and> (\<forall>n p. place n = Some p \<longrightarrow> held s n = m p)"

lemma op_invar: "invar s \<Longrightarrow> place (op_name op) = Some p \<Longrightarrow> invar (snd (do_op set_secret remove op s))"
  using set_invar remove_invar by (cases op) auto

lemma op_frame:
  "invar s \<Longrightarrow> place (op_name op) = Some p \<Longrightarrow> place m = Some q \<Longrightarrow> p \<noteq> q \<Longrightarrow>
    held (snd (do_op set_secret remove op s)) m = held s m"
  using set_frame remove_frame by (cases op) auto

lemma op_reads:
  assumes "invar s" "place (op_name op) = Some p" "op_fits fits op" "do_op set_secret remove op s = (None, s')"
  shows "held s' (op_name op) = spec_op place op m p"
  using assms set_reads remove_reads by (cases op) auto

lemma op_refines:
  assumes "keeps s m" "place (op_name op) = Some p" "op_fits fits op" "do_op set_secret remove op s = (None, s')"
  shows "keeps s' (spec_op place op m)"
proof -
  have s: "invar s" using assms(1) by (simp add: keeps_def)
  have s': "invar s'" using op_invar [OF s assms(2)] assms(4) by simp
  have "held s' n = spec_op place op m q" if q: "place n = Some q" for n q
  proof (cases "q = p")
    case True
    then show ?thesis using one_place [OF s' assms(2) q [unfolded True]] op_reads [OF s assms(2-4), of m] by simp
  next
    case False
    then have "spec_op place op m q = m q" using assms(2) by (cases op) simp_all
    then show ?thesis using op_frame [OF s assms(2) q] False assms(1,4) q by (simp add: keeps_def)
  qed
  then show ?thesis using s' by (simp add: keeps_def)
qed

lemma ops_refine:
  assumes "keeps s m" "\<forall>op \<in> set ops. place (op_name op) \<noteq> None \<and> op_fits fits op" "do_ok set_secret remove ops s = Some s'"
  shows "keeps s' (fold (spec_op place) ops m)"
  using assms
proof (induction ops arbitrary: s m)
  case (Cons op ops)
  from Cons.prems(3) obtain s1 where s1: "do_op set_secret remove op s = (None, s1)" "do_ok set_secret remove ops s1 = Some s'"
    by (auto split: prod.splits option.splits)
  obtain p where "place (op_name op) = Some p" using Cons.prems(2) by auto
  from op_refines [OF Cons.prems(1) this _ s1(1)] Cons.prems(2) have "keeps s1 (spec_op place op m)" by simp
  from Cons.IH [OF this _ s1(2)] Cons.prems(2) show ?case by simp
qed simp

end

text \<open>A store that does not overwrite: a value that is there stays.\<close>

locale once_store = secret_store +
  assumes set_once: "invar s \<Longrightarrow> place n = Some p \<Longrightarrow> held s n = Some v0 \<Longrightarrow>
    fst (set_secret s n v) \<noteq> None \<and> held (snd (set_secret s n v)) n = Some v0"
begin

lemma op_keeps:
  assumes "invar s" "place (op_name op) = Some q" "place n = Some p" "held s n = Some v0" "\<forall>m. op = RemoveOp m \<longrightarrow> place m \<noteq> Some p"
  shows "held (snd (do_op set_secret remove op s)) n = Some v0"
proof (cases "q = p")
  case True
  then obtain m v where op: "op = SetOp m v" using assms(2,5) by (cases op) auto
  have s': "invar (snd (set_secret s m v))" using set_invar [OF assms(1), of m q v] assms(2) op by simp
  have "held s m = Some v0" using one_place [OF assms(1), of m p n] assms(2-4) op True by simp
  with set_once [OF assms(1), of m q v0 v] assms(2) op have "held (snd (set_secret s m v)) m = Some v0" by simp
  then show ?thesis using one_place [OF s', of m p n] assms(2,3) op True by simp
next
  case False
  then show ?thesis using op_frame [OF assms(1-3)] assms(4) by simp
qed

lemma ops_keep:
  assumes "invar s" "\<forall>op \<in> set ops. place (op_name op) \<noteq> None" "place n = Some p" "held s n = Some v0"
    "\<forall>m. RemoveOp m \<in> set ops \<longrightarrow> place m \<noteq> Some p"
  shows "held (do_all set_secret remove ops s) n = Some v0"
  using assms
proof (induction ops arbitrary: s)
  case (Cons op ops)
  obtain q where q: "place (op_name op) = Some q" using Cons.prems(2) by auto
  have "held (snd (do_op set_secret remove op s)) n = Some v0"
    using op_keeps [OF Cons.prems(1) q Cons.prems(3,4)] Cons.prems(5) by auto
  with Cons op_invar [OF Cons.prems(1) q] show ?case by (simp add: do_all_def)
qed (simp add: do_all_def)

end

section \<open>Configuration\<close>

text \<open>\<open>Extra\<close> is the members of a document, or the nil map.\<close>

record SecretsManagerConfig =
  cf_Token :: string
  cf_ServerURL :: string
  cf_Type :: SecretsManagerType
  cf_Name :: string
  cf_Namespace :: string
  cf_Path :: string
  cf_Extra :: "(string \<times> json) list option"

definition enc_config :: "SecretsManagerConfig \<Rightarrow> json" where
  "enc_config c = JObj [(''token'', enc_str (cf_Token c)), (''server_url'', enc_str (cf_ServerURL c)), (''type'', enc_str (cf_Type c)),
     (''name'', enc_str (cf_Name c)), (''namespace'', enc_str (cf_Namespace c)), (''path'', enc_str (cf_Path c)),
     (''extra'', case cf_Extra c of None \<Rightarrow> JNull | Some fs \<Rightarrow> JObj fs)]"

definition dec_config :: "json \<Rightarrow> SecretsManagerConfig result" where
  "dec_config j =
     rbind (dec_obj j) (\<lambda>fs.
     rbind (dec_str (json_member fs ''token'')) (\<lambda>token.
     rbind (dec_str (json_member fs ''server_url'')) (\<lambda>server.
     rbind (dec_str (json_member fs ''type'')) (\<lambda>type.
     rbind (dec_str (json_member fs ''name'')) (\<lambda>name.
     rbind (dec_str (json_member fs ''namespace'')) (\<lambda>namespace.
     rbind (dec_str (json_member fs ''path'')) (\<lambda>path.
     rbind (if json_member fs ''extra'' = JNull then Inr None else rbind (dec_obj (json_member fs ''extra'')) (\<lambda>x. Inr (Some x))) (\<lambda>extra.
     Inr \<lparr>cf_Token = token, cf_ServerURL = server, cf_Type = type, cf_Name = name, cf_Namespace = namespace, cf_Path = path,
       cf_Extra = extra\<rparr>))))))))"

text \<open>How a document is printed, and the document of a text.\<close>

record json_text =
  jt_print :: "json \<Rightarrow> bytes"
  jt_parse :: "bytes \<Rightarrow> json option"

definition WriteConfig :: "machine \<Rightarrow> json_text \<Rightarrow> SecretsManagerConfig \<Rightarrow> string \<Rightarrow> disk \<Rightarrow> goerror option \<times> disk" where
  "WriteConfig M J c path d = SaveFileSafe M path (jt_print J (enc_config c)) 0x1B0 d"

text \<open>The document \<open>null\<close> makes the pointer to the configuration nil.\<close>

definition ReadConfig :: "machine \<Rightarrow> json_text \<Rightarrow> disk \<Rightarrow> string \<Rightarrow> SecretsManagerConfig option result" where
  "ReadConfig M J d path =
     rbind (os_ReadFile M d path) (\<lambda>configFile.
     case jt_parse J configFile of
       None \<Rightarrow> Inl json_syntax_error
     | Some j \<Rightarrow> if j = JNull then Inr None else rbind (dec_config j) (\<lambda>c. Inr (Some c)))"

end
