(* ===== verification/Secrets_Local.thy ===== *)
theory Secrets_Local
  imports Secrets
begin

text \<open>
  The secrets manager that keeps each secret in a file (\<open>secrets/local/local.go\<close>): it refines a map from
  places to values, never overwrites, and can be led out of its directories by a name.
\<close>

section \<open>The manager\<close>

record LocalSecretsManager =
  lm_path :: string
  lm_secretPathMap :: "string \<Rightarrow> string option"

definition local_Setup :: "machine \<Rightarrow> LocalSecretsManager \<Rightarrow> disk \<Rightarrow> goerror option \<times> LocalSecretsManager \<times> disk" where
  "local_Setup M l d =
     (case SetupDataDir M (lm_path l) [ConsensusFolderLocal, NetworkFolderLocal, CardanoFolderLocal, OtherFolderLocal] 0x1E8 d of
        (Some err, d) \<Rightarrow> (Some err, l, d)
      | (None, d) \<Rightarrow> (None, l\<lparr>lm_secretPathMap := (lm_secretPathMap l)(
          ValidatorKey \<mapsto> filepath_Join [lm_path l, ConsensusFolderLocal, ValidatorKeyLocal],
          ValidatorBLSKey \<mapsto> filepath_Join [lm_path l, ConsensusFolderLocal, ValidatorBLSKeyLocal],
          NetworkKey \<mapsto> filepath_Join [lm_path l, NetworkFolderLocal, NetworkKeyLocal],
          CardanoKeyLocalPrefix \<mapsto> filepath_Join [lm_path l, CardanoFolderLocal],
          OtherKeyLocalPrefix \<mapsto> filepath_Join [lm_path l, OtherFolderLocal])\<rparr>, d))"

definition local_Factory :: "machine \<Rightarrow> SecretsManagerConfig \<Rightarrow> disk \<Rightarrow> LocalSecretsManager result \<times> disk" where
  "local_Factory M config d =
     (if cf_Path config = '''' then (Inl (ErrMsg ''no path specified for local secrets manager''), d)
      else case local_Setup M \<lparr>lm_path = cf_Path config, lm_secretPathMap = Map.empty\<rparr> d of
        (Some err, _, d) \<Rightarrow> (Inl err, d)
      | (None, l, d) \<Rightarrow> (Inr l, d))"

text \<open>\<open>strings.Replace\<close> of the first occurrence.\<close>

fun replace_first :: "string \<Rightarrow> string \<Rightarrow> string \<Rightarrow> string" where
  "replace_first [] old new = []"
| "replace_first (c # s) old new =
     (if has_prefix (c # s) old then new @ drop (length old) (c # s) else c # replace_first s old new)"

definition handleCardanoSecretName :: "string \<Rightarrow> string \<times> string" where
  "handleCardanoSecretName name =
     (if has_prefix name CardanoKeyLocalPrefix
      then (CardanoKeyLocalPrefix, replace_first (trim_prefix name CardanoKeyLocalPrefix) ''_key'' ''.key'')
      else if has_prefix name OtherKeyLocalPrefix
      then (OtherKeyLocalPrefix, replace_first (trim_prefix name OtherKeyLocalPrefix) ''_key'' ''.key'')
      else (name, ''''))"

definition local_GetSecret :: "machine \<Rightarrow> LocalSecretsManager \<Rightarrow> disk \<Rightarrow> string \<Rightarrow> bytes result" where
  "local_GetSecret M l d name =
     (let (name, fileName) = handleCardanoSecretName name in
      case lm_secretPathMap l name of
        None \<Rightarrow> Inl ErrSecretNotFound
      | Some secretPath \<Rightarrow>
          let secretPath = filepath_Join [secretPath, fileName] in
          (case os_ReadFile M d secretPath of
             Inl err \<Rightarrow> Inl (ErrWrap (''unable to read secret from disk ('' @ secretPath @ ''), '') err '''')
           | Inr secret \<Rightarrow> Inr secret))"

definition local_SetSecret :: "machine \<Rightarrow> LocalSecretsManager \<Rightarrow> disk \<Rightarrow> string \<Rightarrow> bytes \<Rightarrow> goerror option \<times> disk" where
  "local_SetSecret M l d name val =
     (if lm_path l = '''' then (None, d)
      else let (name, fileName) = handleCardanoSecretName name in
      case lm_secretPathMap l name of
        None \<Rightarrow> (Some ErrSecretNotFound, d)
      | Some secretPath \<Rightarrow>
          let secretPath = filepath_Join [secretPath, fileName] in
          if FileExists M d secretPath then (Some (ErrMsg (secretPath @ '' already initialized'')), d)
          else (case SaveFileSafe M secretPath val 0x120 d of
             (Some err, d) \<Rightarrow> (Some (ErrWrap (''unable to write secret to disk ('' @ secretPath @ ''), '') err ''''), d)
           | (None, d) \<Rightarrow> (None, d)))"

definition local_HasSecret :: "machine \<Rightarrow> LocalSecretsManager \<Rightarrow> disk \<Rightarrow> string \<Rightarrow> bool" where
  "local_HasSecret M l d name \<longleftrightarrow> (case local_GetSecret M l d name of Inl _ \<Rightarrow> False | Inr _ \<Rightarrow> True)"

definition local_RemoveSecret :: "machine \<Rightarrow> LocalSecretsManager \<Rightarrow> disk \<Rightarrow> string \<Rightarrow> goerror option \<times> disk" where
  "local_RemoveSecret M l d name =
     (let (name, fileName) = handleCardanoSecretName name in
      case lm_secretPathMap l name of
        None \<Rightarrow> (Some ErrSecretNotFound, d)
      | Some secretPath \<Rightarrow>
          (case os_Remove M (filepath_Join [secretPath, fileName]) d of
             (Some removeErr, d) \<Rightarrow> (Some (ErrWrap ''unable to remove secret, '' removeErr ''''), d)
           | (None, d) \<Rightarrow> (None, d)))"

section \<open>Places\<close>

text \<open>The file of a name, and the names that stay in their directory: a file name is one plain component.\<close>

definition secret_file :: "LocalSecretsManager \<Rightarrow> string \<Rightarrow> string option" where
  "secret_file l name = (case handleCardanoSecretName name of (name, fileName) \<Rightarrow>
     map_option (\<lambda>secretPath. filepath_Join [secretPath, fileName]) (lm_secretPathMap l name))"

definition local_place :: "LocalSecretsManager \<Rightarrow> string \<Rightarrow> clean_path option" where
  "local_place l name = (case handleCardanoSecretName name of (k, fileName) \<Rightarrow>
     if plain_comp fileName \<or> k \<in> {ValidatorKey, ValidatorBLSKey, NetworkKey} then map_option clean (secret_file l name) else None)"

definition set_up :: "string \<Rightarrow> LocalSecretsManager" where
  "set_up base = \<lparr>lm_path = base, lm_secretPathMap = [
     ValidatorKey \<mapsto> filepath_Join [base, ConsensusFolderLocal, ValidatorKeyLocal],
     ValidatorBLSKey \<mapsto> filepath_Join [base, ConsensusFolderLocal, ValidatorBLSKeyLocal],
     NetworkKey \<mapsto> filepath_Join [base, NetworkFolderLocal, NetworkKeyLocal],
     CardanoKeyLocalPrefix \<mapsto> filepath_Join [base, CardanoFolderLocal],
     OtherKeyLocalPrefix \<mapsto> filepath_Join [base, OtherFolderLocal]]\<rparr>"

lemma Factory_set_up: "local_Factory M config d = (Inr l, d') \<Longrightarrow> l = set_up (cf_Path config) \<and> cf_Path config \<noteq> ''''"
  by (auto simp: local_Factory_def local_Setup_def set_up_def split: if_splits prod.splits option.splits)

lemmas name_defs = ValidatorKey_def ValidatorBLSKey_def NetworkKey_def CardanoKeyLocalPrefix_def OtherKeyLocalPrefix_def
  ValidatorKeyLocal_def ValidatorBLSKeyLocal_def NetworkKeyLocal_def ConsensusFolderLocal_def NetworkFolderLocal_def
  CardanoFolderLocal_def OtherFolderLocal_def

lemma Join3: "base \<noteq> '''' \<Longrightarrow> plain_comp a \<Longrightarrow> plain_comp b \<Longrightarrow>
    clean (filepath_Join [base, a, b]) = (fst (clean base), snd (clean base) @ [a, b])"
proof -
  assume "base \<noteq> ''''" "plain_comp a" "plain_comp b"
  moreover have "split_on (CHR ''/'') (a @ ''/'' @ b) = [a, b]"
    using \<open>plain_comp a\<close> \<open>plain_comp b\<close> by (simp add: plain_comp_def split_on_append split_on_none)
  ultimately show ?thesis
    using clean_Join [of base "a @ ''/'' @ b"] by (simp add: filepath_Join_def clean_step_def plain_comp_def)
qed

text \<open>A place is a plain name below the directory the manager was given.\<close>

lemma place_below:
  assumes "base \<noteq> ''''" "local_place (set_up base) n = Some p"
  shows "\<exists>dir f. plain_comp dir \<and> plain_comp f \<and> p = (fst (clean base), snd (clean base) @ [dir, f]) \<and>
    secret_file (set_up base) n \<noteq> None \<and> secret_file (set_up base) n \<noteq> Some '''' \<and> map_option clean (secret_file (set_up base) n) = Some p"
proof -
  obtain k f where h: "handleCardanoSecretName n = (k, f)" by (cases "handleCardanoSecretName n")
  obtain sp where sp: "lm_secretPathMap (set_up base) k = Some sp" "p = clean (filepath_Join [sp, f])"
      "plain_comp f \<or> k \<in> {ValidatorKey, ValidatorBLSKey, NetworkKey}"
    using assms(2) by (auto simp: local_place_def h secret_file_def split: if_splits)
  have fl: "secret_file (set_up base) n = Some (filepath_Join [sp, f])" by (simp add: secret_file_def h sp(1))
  have ne: "sp \<noteq> ''''" using sp(1) assms(1) Join_nonempty by (auto simp: set_up_def split: if_splits)
  have f: "f = ''''" if "k \<in> {ValidatorKey, ValidatorBLSKey, NetworkKey}"
    using that h by (auto simp: handleCardanoSecretName_def name_defs split: if_splits)
  have pl: "plain_comp ''consensus''" "plain_comp ''libp2p''" "plain_comp ''cardano''" "plain_comp ''other''" "plain_comp ''validator.key''"
    "plain_comp ''validator-bls.key''" "plain_comp ''libp2p.key''" by (simp_all add: plain_comp_def)
  show ?thesis
  proof (cases "k \<in> {ValidatorKey, ValidatorBLSKey, NetworkKey}")
    case True
    then obtain a b where "sp = filepath_Join [base, a, b]" "plain_comp a" "plain_comp b"
      using sp(1) pl by (auto simp: set_up_def name_defs split: if_splits)
    then have "p = (fst (clean base), snd (clean base) @ [a, b])"
      using sp(2) f [OF True] clean_Join_empty [OF ne] Join3 [OF assms(1)] by simp
    then show ?thesis using \<open>plain_comp a\<close> \<open>plain_comp b\<close> fl sp(2) Join_nonempty [OF ne] by auto
  next
    case False
    then obtain a where a: "sp = filepath_Join [base, a]" "plain_comp a" and pf: "plain_comp f"
      using sp(1,3) pl by (auto simp: set_up_def name_defs split: if_splits)
    then have "p = (fst (clean base), snd (clean base) @ [a, f])"
      using sp(2) clean_Join_name [OF ne] clean_Join_name [OF assms(1)] by simp
    then show ?thesis using a pf fl sp(2) Join_nonempty [OF ne] by auto
  qed
qed

section \<open>The laws\<close>

definition value_at :: "disk \<Rightarrow> clean_path \<Rightarrow> bytes option" where
  "value_at d p = (case map_of d p of None \<Rightarrow> None | Some e \<Rightarrow> if IsDir e then None else Some (fe_data e))"

definition readable :: "machine \<Rightarrow> bool" where
  "readable M \<longleftrightarrow> (\<forall>p. sy_fault M ''read'' p = None)"

lemma place_not_there: "base \<noteq> '''' \<Longrightarrow> local_place (set_up base) n = Some p \<Longrightarrow> \<not> always_there p"
  using place_below [of base n p] by (auto simp: always_there_def plain_comp_def)

lemma get_file:
  "local_GetSecret M l d n = (case secret_file l n of None \<Rightarrow> Inl ErrSecretNotFound
     | Some f \<Rightarrow> (case os_ReadFile M d f of Inl err \<Rightarrow> Inl (ErrWrap (''unable to read secret from disk ('' @ f @ ''), '') err '''') | Inr v \<Rightarrow> Inr v))"
  by (simp add: local_GetSecret_def secret_file_def Let_def split: prod.splits option.splits)

lemma peek_place:
  assumes "readable M" "base \<noteq> ''''" "local_place (set_up base) n = Some p"
  shows "peek (local_GetSecret M (set_up base)) d n = value_at d p"
proof -
  obtain f where f: "secret_file (set_up base) n = Some f" "f \<noteq> ''''" "clean f = p" using place_below [OF assms(2,3)] by auto
  have "dir_at d p \<longleftrightarrow> (case map_of d p of None \<Rightarrow> False | Some e \<Rightarrow> IsDir e)"
    using place_not_there [OF assms(2,3)] by (simp add: dir_at_def)
  then show ?thesis
    using f assms(1) [unfolded readable_def, rule_format, of p]
    by (simp add: peek_def get_file os_ReadFile_def Let_def value_at_def split: option.splits)
qed

lemma set_file:
  "base \<noteq> '''' \<Longrightarrow> local_SetSecret M (set_up base) d n v = (case secret_file (set_up base) n of None \<Rightarrow> (Some ErrSecretNotFound, d)
     | Some f \<Rightarrow> if FileExists M d f then (Some (ErrMsg (f @ '' already initialized'')), d)
       else (case SaveFileSafe M f v 0x120 d of
             (Some err, d) \<Rightarrow> (Some (ErrWrap (''unable to write secret to disk ('' @ f @ ''), '') err ''''), d)
           | (None, d) \<Rightarrow> (None, d)))"
  by (simp add: local_SetSecret_def secret_file_def Let_def set_up_def split: prod.splits option.splits)

lemma remove_file:
  "local_RemoveSecret M l d n = (case secret_file l n of None \<Rightarrow> (Some ErrSecretNotFound, d)
     | Some f \<Rightarrow> (case os_Remove M f d of
             (Some removeErr, d) \<Rightarrow> (Some (ErrWrap ''unable to remove secret, '' removeErr ''''), d)
           | (None, d) \<Rightarrow> (None, d)))"
  by (simp add: local_RemoveSecret_def secret_file_def Let_def split: prod.splits option.splits)

lemma not_dir_0x120: "\<not> IsDir (owned M (masked M 0x120) data)"
proof -
  have "and (masked M 0x120) ModeDir = and (and 0x120 ModeDir) (not (sy_umask M))"
    by (simp add: masked_def and.assoc and.commute and.left_commute)
  then show ?thesis by (simp add: IsDir_def owned_def ModeDir_def)
qed

text \<open>A write without an error, and any write: only the file of the path changes.\<close>

lemma WriteFile_new:
  assumes "os_WriteFile M f v perms d = (None, d')" "map_of d (clean f) = None"
  shows "map_of d' = (map_of d)(clean f \<mapsto> (owned M (masked M perms) [])\<lparr>fe_data := v\<rparr>)"
  using assms by (auto simp: os_WriteFile_def Let_def update_conv' split: if_splits option.splits prod.splits)

lemma WriteFile_frame: "q \<noteq> clean f \<Longrightarrow> map_of (snd (os_WriteFile M f v perms d)) q = map_of d q"
  by (auto simp: os_WriteFile_def Let_def update_conv' split: option.splits)

lemma SaveFile_frame: "q \<noteq> clean f \<Longrightarrow> map_of (snd (SaveFileSafe M f v perms d)) q = map_of d q"
  using WriteFile_frame by (auto simp: SaveFileSafe_def split: stat_result.splits option.splits if_splits)

text \<open>A path that is no file and no directory has nothing, unless something on the way is a file.\<close>

lemma save_new:
  assumes "SaveFileSafe M f v 0x120 d = (None, d')" "\<not> FileExists M d f" "\<not> always_there (clean f)" "f \<noteq> ''''"
  shows "value_at d' (clean f) = Some v"
proof -
  have "os_WriteFile M f v 0x120 d = (None, d')"
    using assms(1,2) by (auto simp: SaveFileSafe_def split: stat_result.splits option.splits if_splits)
  moreover have "map_of d (clean f) = None"
  proof (rule ccontr)
    assume "map_of d (clean f) \<noteq> None"
    then obtain e where e: "map_of d (clean f) = Some e" by auto
    have "\<not> dir_at d (clean f)" using \<open>os_WriteFile M f v 0x120 d = (None, d')\<close>
      by (auto simp: os_WriteFile_def Let_def split: if_splits)
    then have "\<not> IsDir e" using e by (simp add: dir_at_def)
    then have "FileExists M d f"
      using assms(3,4) e
      by (auto simp: FileExists_def os_Stat_def Let_def IsDir_def FileInfo.truncate_def split: option.splits)
    then show False using assms(2) by simp
  qed
  ultimately have "map_of d' = (map_of d)(clean f \<mapsto> (owned M (masked M 0x120) [])\<lparr>fe_data := v\<rparr>)" by (rule WriteFile_new)
  moreover have "(owned M (masked M 0x120) [])\<lparr>fe_data := v\<rparr> = owned M (masked M 0x120) v" by (simp add: owned_def)
  ultimately show ?thesis using not_dir_0x120 [of M v] by (simp add: value_at_def) (simp add: owned_def)
qed

lemma Remove_effect: "os_Remove M f d = (None, d') \<Longrightarrow> map_of d' = (map_of d)(clean f := None)"
  by (auto simp: os_Remove_def Let_def delete_conv' split: if_splits option.splits)

lemma Remove_frame: "q \<noteq> clean f \<Longrightarrow> map_of (snd (os_Remove M f d)) q = map_of d q"
  by (auto simp: os_Remove_def Let_def delete_conv' split: option.splits)

definition local_ok :: "machine \<Rightarrow> string \<Rightarrow> disk \<Rightarrow> bool" where
  "local_ok M base d \<longleftrightarrow> readable M \<and> base \<noteq> ''''"

lemma exists_value:
  assumes "local_ok M base d" "local_place (set_up base) n = Some p" "value_at d p = Some v0" "secret_file (set_up base) n = Some f"
  shows "FileExists M d f"
proof -
  have f: "f \<noteq> ''''" "clean f = p" using place_below [OF _ assms(2)] assms(1,4) by (auto simp: local_ok_def)
  obtain e where "map_of d p = Some e" "\<not> IsDir e" using assms(3) by (auto simp: value_at_def split: option.splits if_splits)
  then show ?thesis
    using f place_not_there [OF _ assms(2)] assms(1)
    by (auto simp: FileExists_def os_Stat_def Let_def IsDir_def FileInfo.truncate_def local_ok_def split: option.splits)
qed

interpretation local: once_store "local_GetSecret M (set_up base)" "peek (local_GetSecret M (set_up base))" "local_SetSecret M (set_up base)" "local_RemoveSecret M (set_up base)"
  "local_place (set_up base)" "\<lambda>v. True" "local_ok M base" for M base
proof
  fix s n p v
  assume "local_GetSecret M (set_up base) s n = Inr v"
  then show "peek (local_GetSecret M (set_up base)) s n = Some v" by (simp add: peek_def)
next
  fix s n m p
  assume a: "local_ok M base s" "local_place (set_up base) n = Some p" "local_place (set_up base) m = Some p"
  then show "peek (local_GetSecret M (set_up base)) s m = peek (local_GetSecret M (set_up base)) s n"
    by (simp add: local_ok_def peek_place)
next
  fix s n p v
  assume "local_ok M base s"
  then show "local_ok M base (snd (local_SetSecret M (set_up base) s n v))" by (simp add: local_ok_def)
next
  fix s n p v s'
  assume a: "local_ok M base s" "local_place (set_up base) n = Some p" "local_SetSecret M (set_up base) s n v = (None, s')"
  then obtain f where f: "secret_file (set_up base) n = Some f" "f \<noteq> ''''" "clean f = p"
    using place_below [OF _ a(2)] by (auto simp: local_ok_def)
  then have "value_at s' p = Some v"
    using a(1,3) save_new [of M f v s s'] place_not_there [OF _ a(2)]
    by (auto simp: set_file local_ok_def split: if_splits prod.splits option.splits)
  then show "peek (local_GetSecret M (set_up base)) s' n = Some v" using a by (simp add: local_ok_def peek_place)
next
  fix s n p m q v
  assume a: "local_ok M base s" "local_place (set_up base) n = Some p" "local_place (set_up base) m = Some q" "p \<noteq> q"
  then obtain f where f: "secret_file (set_up base) n = Some f" "clean f = p" using place_below [OF _ a(2)] by (auto simp: local_ok_def)
  have "map_of (snd (local_SetSecret M (set_up base) s n v)) q = map_of s q"
    using a(1,4) f SaveFile_frame [of q f M v "0x120" s] by (auto simp: set_file local_ok_def split: prod.splits option.splits)
  then show "peek (local_GetSecret M (set_up base)) (snd (local_SetSecret M (set_up base) s n v)) m = peek (local_GetSecret M (set_up base)) s m"
    using a by (simp add: local_ok_def peek_place value_at_def)
next
  fix s n p
  assume "local_ok M base s"
  then show "local_ok M base (snd (local_RemoveSecret M (set_up base) s n))" by (simp add: local_ok_def)
next
  fix s n p s'
  assume a: "local_ok M base s" "local_place (set_up base) n = Some p" "local_RemoveSecret M (set_up base) s n = (None, s')"
  then obtain f where f: "secret_file (set_up base) n = Some f" "clean f = p" using place_below [OF _ a(2)] by (auto simp: local_ok_def)
  then have "value_at s' p = None"
    using a(3) Remove_effect [of M f s s'] by (auto simp: remove_file value_at_def split: prod.splits option.splits)
  then show "peek (local_GetSecret M (set_up base)) s' n = None" using a by (simp add: local_ok_def peek_place)
next
  fix s n p m q
  assume a: "local_ok M base s" "local_place (set_up base) n = Some p" "local_place (set_up base) m = Some q" "p \<noteq> q"
  then obtain f where f: "secret_file (set_up base) n = Some f" "clean f = p" using place_below [OF _ a(2)] by (auto simp: local_ok_def)
  have "map_of (snd (local_RemoveSecret M (set_up base) s n)) q = map_of s q"
    using a(4) f Remove_frame [of q f M s] by (auto simp: remove_file split: prod.splits option.splits)
  then show "peek (local_GetSecret M (set_up base)) (snd (local_RemoveSecret M (set_up base) s n)) m = peek (local_GetSecret M (set_up base)) s m"
    using a by (simp add: local_ok_def peek_place value_at_def)
next
  fix s n p v0 v
  assume a: "local_ok M base s" "local_place (set_up base) n = Some p" "peek (local_GetSecret M (set_up base)) s n = Some v0"
  then obtain f where f: "secret_file (set_up base) n = Some f" using place_below [OF _ a(2)] by (auto simp: local_ok_def)
  have "value_at s p = Some v0" using a by (simp add: local_ok_def peek_place)
  from exists_value [OF a(1,2) this f] have "local_SetSecret M (set_up base) s n v = (Some (ErrMsg (f @ '' already initialized'')), s)"
    using a(1) f by (simp add: set_file local_ok_def)
  then show "fst (local_SetSecret M (set_up base) s n v) \<noteq> None \<and>
      peek (local_GetSecret M (set_up base)) (snd (local_SetSecret M (set_up base) s n v)) n = Some v0" using a(3) by simp
qed

section \<open>What holds\<close>

text \<open>
  C12. The local manager is a map from places to values: after any series of operations on names that stay in
  their directories, of which none failed, what one reads under a name is what a map would hold, started from
  the files and updated by the same operations.
\<close>

theorem local_secrets_refine_map:
  assumes "local_Factory M config d0 = (Inr l, d)" "readable M" "\<forall>op \<in> set ops. local_place l (op_name op) \<noteq> None"
    "do_ok (local_SetSecret M l) (local_RemoveSecret M l) ops d = Some d'" "local_place l n = Some p"
  shows "peek (local_GetSecret M l) d' n = fold (spec_op (local_place l)) ops (value_at d) p"
proof -
  have l: "l = set_up (cf_Path config)" "cf_Path config \<noteq> ''''" using Factory_set_up [OF assms(1)] by simp_all
  have "local.keeps M (cf_Path config) d (value_at d)"
    unfolding local.keeps_def using assms(2) l peek_place by (simp add: local_ok_def)
  moreover have "\<forall>op \<in> set ops. local_place (set_up (cf_Path config)) (op_name op) \<noteq> None \<and> op_fits (\<lambda>v. True) op"
  proof
    fix op assume "op \<in> set ops"
    moreover have "op_fits (\<lambda>v. True) op" by (cases op) simp_all
    ultimately show "local_place (set_up (cf_Path config)) (op_name op) \<noteq> None \<and> op_fits (\<lambda>v. True) op"
      using assms(3) l by blast
  qed
  ultimately have "local.keeps M (cf_Path config) d' (fold (spec_op (local_place (set_up (cf_Path config)))) ops (value_at d))"
    using local.ops_refine assms(4) l(1) by blast
  then show ?thesis using assms(5) unfolding local.keeps_def l(1) by blast
qed

text \<open>
  C21. A secret is never overwritten or lost: whatever operations follow on names that stay in their
  directories, failing or not, a value that was read is read again, unless an operation removes its place.
\<close>

theorem local_secret_stays:
  assumes "local_Factory M config d0 = (Inr l, d)" "readable M" "\<forall>op \<in> set ops. local_place l (op_name op) \<noteq> None"
    "local_place l n = Some p" "\<forall>m. RemoveOp m \<in> set ops \<longrightarrow> local_place l m \<noteq> Some p" "local_GetSecret M l d n = Inr v"
  shows "local_GetSecret M l (do_all (local_SetSecret M l) (local_RemoveSecret M l) ops d) n = Inr v"
proof -
  have l: "l = set_up (cf_Path config)" "cf_Path config \<noteq> ''''" using Factory_set_up [OF assms(1)] by simp_all
  have "local_ok M (cf_Path config) d" using assms(2) l(2) by (simp add: local_ok_def)
  moreover have "peek (local_GetSecret M (set_up (cf_Path config))) d n = Some v" using assms(6) l(1) by (simp add: peek_def)
  ultimately have "peek (local_GetSecret M l) (do_all (local_SetSecret M l) (local_RemoveSecret M l) ops d) n = Some v"
    using local.ops_keep [of M "cf_Path config" d ops n p v] assms(3-5) l(1) by simp
  then show ?thesis by (simp add: peek_def split: sum.splits)
qed

lemma escape_file:
  assumes "base \<noteq> ''''"
  shows "\<exists>f g h. secret_file (set_up base) ''cardano_../consensus/validator.key'' = Some f \<and> secret_file (set_up base) ValidatorKey = Some g \<and>
    secret_file (set_up base) ''other_../consensus/validator.key'' = Some h \<and> f \<noteq> '''' \<and> g \<noteq> '''' \<and> h \<noteq> '''' \<and> clean f = clean g \<and> clean h = clean g"
proof -
  define up where "up = ''../consensus/validator.key''"
  have h: "handleCardanoSecretName ''cardano_../consensus/validator.key'' = (CardanoKeyLocalPrefix, up)"
    "handleCardanoSecretName ''other_../consensus/validator.key'' = (OtherKeyLocalPrefix, up)"
    "handleCardanoSecretName ValidatorKey = (ValidatorKey, '''')"
    by (simp_all add: handleCardanoSecretName_def name_defs has_prefix_def trim_prefix_def up_def)
  have pl: "plain_comp ''cardano''" "plain_comp ''other''" "plain_comp ''consensus''" "plain_comp ''validator.key''" by (simp_all add: plain_comp_def)
  have sub: "clean (filepath_Join [filepath_Join [base, dir], up]) = (fst (clean base), snd (clean base) @ [''consensus'', ''validator.key''])"
    if "plain_comp dir" for dir
    using clean_Join [OF Join_nonempty [OF assms], of "[dir]" up] clean_Join_name [OF assms that] that
    by (simp add: up_def clean_step_def plain_comp_def)
  have "clean (filepath_Join [filepath_Join [base, ''consensus'', ''validator.key''], '''']) =
      (fst (clean base), snd (clean base) @ [''consensus'', ''validator.key''])"
    using clean_Join_empty [OF Join_nonempty [OF assms]] Join3 [OF assms pl(3,4)] by simp
  then show ?thesis
    using sub [OF pl(1)] sub [OF pl(2)] Join_nonempty [OF Join_nonempty [OF assms]]
    by (simp add: secret_file_def h) (simp add: set_up_def name_defs)
qed

text \<open>
  A name can lead out of its directory: the name of a Cardano secret that starts with \<open>..\<close> reads the key of
  the validator, and the same name of another secret removes it.
\<close>

theorem local_name_escapes:
  assumes "local_Factory M config d0 = (Inr l, d)"
  shows "peek (local_GetSecret M l) d ''cardano_../consensus/validator.key'' = peek (local_GetSecret M l) d ValidatorKey \<and>
    snd (local_RemoveSecret M l d ''other_../consensus/validator.key'') = snd (local_RemoveSecret M l d ValidatorKey)"
proof -
  have l: "l = set_up (cf_Path config)" "cf_Path config \<noteq> ''''" using Factory_set_up [OF assms] by simp_all
  obtain f g h where f: "secret_file l ''cardano_../consensus/validator.key'' = Some f" "secret_file l ValidatorKey = Some g"
    "secret_file l ''other_../consensus/validator.key'' = Some h" "f \<noteq> ''''" "g \<noteq> ''''" "h \<noteq> ''''" "clean f = clean g" "clean h = clean g"
    using escape_file [OF l(2)] l(1) by auto
  have "peek (local_GetSecret M l) d ''cardano_../consensus/validator.key'' = peek (local_GetSecret M l) d ValidatorKey"
    using f by (simp add: peek_def get_file os_ReadFile_def Let_def split: option.splits)
  moreover have "snd (os_Remove M h d) = snd (os_Remove M g d)" using f by (auto simp: os_Remove_def Let_def split: option.splits)
  then have "snd (local_RemoveSecret M l d ''other_../consensus/validator.key'') = snd (local_RemoveSecret M l d ValidatorKey)"
    using f by (auto simp: remove_file split: prod.splits option.splits)
  ultimately show ?thesis by simp
qed

text \<open>
  A directory of another user is always refused, even with the same group and exactly the expected
  permissions: the mode of a directory has the bit \<open>ModeDir\<close>, the expected permissions do not.
\<close>

theorem directory_of_other_user_refused:
  assumes "os_Stat M d path = Found info" "IsDir info" "sy_user M = Inr (uid, gid)" "uid \<noteq> itoa64 (ucast (fi_uid info))"
    "and perms ModeDir = 0"
  shows "\<exists>err. CreateDirSafe M path perms d = (Some err, d)"
proof -
  have "path \<noteq> ''''" using assms(1) by (auto simp: os_Stat_def Let_def)
  then have "DirectoryExists M d path" using assms(1,2) by (simp add: DirectoryExists_def)
  moreover have "fi_mode info \<noteq> perms" using assms(2,5) by (auto simp: IsDir_def)
  ultimately show ?thesis using assms(1,3,4) by (auto simp: CreateDirSafe_def verifyFileOwnerAndPermissions_def)
qed

text \<open>
  The configuration comes back: a configuration of UTF-8 texts that was written without an error is read
  from the same path, as long as documents are parsed back from their text.
\<close>

theorem config_roundtrip:
  assumes "WriteConfig M J c path d = (None, d')" "readable M" "jt_parse J (jt_print J (enc_config c)) = Some (enc_config c)"
    "list_all valid_utf8 [cf_Token c, cf_ServerURL c, cf_Type c, cf_Name c, cf_Namespace c, cf_Path c]"
  shows "ReadConfig M J d' path = Inr (Some c)"
proof -
  have "os_WriteFile M path (jt_print J (enc_config c)) 0x1B0 d = (None, d')"
    using assms(1) by (auto simp: WriteConfig_def SaveFileSafe_def split: stat_result.splits option.splits if_splits)
  then have w: "path \<noteq> ''''" "\<not> dir_at d (clean path)"
    "d' = AList.update (clean path) ((case map_of d (clean path) of Some e \<Rightarrow> e | None \<Rightarrow> owned M (masked M 0x1B0) [])
      \<lparr>fe_data := jt_print J (enc_config c)\<rparr>) d"
    by (auto simp: os_WriteFile_def Let_def split: if_splits option.splits prod.splits)
  have "and (masked M 0x1B0) ModeDir = and (and 0x1B0 ModeDir) (not (sy_umask M))"
    by (simp add: masked_def and.assoc and.commute and.left_commute)
  then have "\<not> dir_at d' (clean path)"
    using w(2) by (auto simp: w(3) dir_at_def update_conv' IsDir_def owned_def ModeDir_def split: option.splits)
  then have "os_ReadFile M d' path = Inr (jt_print J (enc_config c))"
    using w(1) assms(2) [unfolded readable_def, rule_format, of "clean path"] by (simp add: os_ReadFile_def Let_def w(3) update_conv')
  moreover have "dec_config (enc_config c) = Inr c"
    using assms(4) by (cases "cf_Extra c") (simp_all add: dec_config_def enc_config_def json_member_def valid_utf8_def)
  moreover have "enc_config c \<noteq> JNull" by (simp add: enc_config_def)
  ultimately show ?thesis using assms(3) by (simp add: ReadConfig_def)
qed

section \<open>Witnesses\<close>

definition demo_machine :: machine where
  "demo_machine = \<lparr>sy_uid = 1000, sy_gid = 1000, sy_umask = 0x12, sy_user = Inr (''1000'', ''1000''),
     sy_fault = (\<lambda>operation p. None), sy_write = (\<lambda>p. None)\<rparr>"

definition demo_config :: SecretsManagerConfig where
  "demo_config = \<lparr>cf_Token = '''', cf_ServerURL = '''', cf_Type = Local, cf_Name = ''node'', cf_Namespace = '''', cf_Path = ''data'',
     cf_Extra = None\<rparr>"

definition demo_disk :: disk where
  "demo_disk = snd (local_Factory demo_machine demo_config [])"

definition demo_ops :: "secret_op list" where
  "demo_ops = [SetOp ''cardano_prime_key'' [3], SetOp ''validator-key'' [1, 2], RemoveOp ''cardano_prime_key'', SetOp ''cardano_prime_key'' [4]]"

lemma demo_factory: "local_Factory demo_machine demo_config [] = (Inr (set_up ''data''), demo_disk)"
proof -
  have "isl (fst (local_Factory demo_machine demo_config [])) = False" by code_simp
  then obtain l where "local_Factory demo_machine demo_config [] = (Inr l, demo_disk)"
    unfolding demo_disk_def by (cases "local_Factory demo_machine demo_config []"; cases "fst (local_Factory demo_machine demo_config [])") auto
  then show ?thesis using Factory_set_up [of demo_machine demo_config "[]" l] by (simp add: demo_config_def)
qed

lemma demo_readable: "readable demo_machine"
  by (simp add: readable_def demo_machine_def)

lemma demo_places:
  "local_place (set_up ''data'') ''cardano_prime_key'' = Some (False, [''data'', ''cardano'', ''prime.key''])"
  "local_place (set_up ''data'') ''validator-key'' = Some (False, [''data'', ''consensus'', ''validator.key''])"
  by code_simp+

definition demo_run :: "disk option" where
  "demo_run = do_ok (local_SetSecret demo_machine (set_up ''data'')) (local_RemoveSecret demo_machine (set_up ''data'')) demo_ops demo_disk"

lemma demo_run_ok: "\<exists>d'. demo_run = Some d'"
proof -
  have "(demo_run = None) = False" by code_simp
  then show ?thesis by (cases demo_run) simp_all
qed

theorem local_secrets_refine_map_witness:
  "\<exists>d'. demo_run = Some d' \<and> peek (local_GetSecret demo_machine (set_up ''data'')) d' ''cardano_prime_key'' = Some [4] \<and>
    peek (local_GetSecret demo_machine (set_up ''data'')) d' ''validator-key'' = Some [1, 2]"
proof -
  obtain d' where d': "demo_run = Some d'" using demo_run_ok by blast
  have ops: "\<forall>op \<in> set demo_ops. local_place (set_up ''data'') (op_name op) \<noteq> None" by (auto simp: demo_ops_def demo_places)
  note refines = local_secrets_refine_map [OF demo_factory demo_readable ops d' [unfolded demo_run_def]]
  have "peek (local_GetSecret demo_machine (set_up ''data'')) d' ''cardano_prime_key'' = Some [4]"
    using refines [OF demo_places(1)] by (simp add: demo_ops_def demo_places)
  moreover have "peek (local_GetSecret demo_machine (set_up ''data'')) d' ''validator-key'' = Some [1, 2]"
    using refines [OF demo_places(2)] by (simp add: demo_ops_def demo_places)
  ultimately show ?thesis using d' by blast
qed

text \<open>The disk with the key of the validator.\<close>

definition demo_keyed :: disk where
  "demo_keyed = AList.update (False, [''data'', ''consensus'', ''validator.key'']) (owned demo_machine 0x120 [7]) demo_disk"

definition demo_full :: disk where
  "demo_full = snd (local_Factory demo_machine demo_config demo_keyed)"

lemma demo_again: "local_Factory demo_machine demo_config demo_keyed = (Inr (set_up ''data''), demo_full)"
proof -
  have "isl (fst (local_Factory demo_machine demo_config demo_keyed)) = False" by code_simp
  then obtain l where "local_Factory demo_machine demo_config demo_keyed = (Inr l, demo_full)"
    unfolding demo_full_def by (cases "local_Factory demo_machine demo_config demo_keyed"; cases "fst (local_Factory demo_machine demo_config demo_keyed)") auto
  then show ?thesis using Factory_set_up [of demo_machine demo_config demo_keyed l] by (simp add: demo_config_def)
qed

lemma demo_key: "local_GetSecret demo_machine (set_up ''data'') demo_full ''validator-key'' = Inr [7]"
  by code_simp

theorem local_secret_stays_witness:
  "local_GetSecret demo_machine (set_up ''data'') (do_all (local_SetSecret demo_machine (set_up ''data''))
     (local_RemoveSecret demo_machine (set_up ''data'')) demo_ops demo_full) ''validator-key'' = Inr [7]"
  by (rule local_secret_stays [OF demo_again demo_readable _ demo_places(2) _ demo_key]) (auto simp: demo_ops_def demo_places)

theorem local_name_escapes_witness:
  "peek (local_GetSecret demo_machine (set_up ''data'')) demo_full ''cardano_../consensus/validator.key'' = Some [7]"
  using local_name_escapes [OF demo_again] demo_key by (simp add: peek_def ValidatorKey_def)

theorem directory_of_other_user_refused_witness:
  "\<exists>err. CreateDirSafe demo_machine ''data'' 0x1E8
    [((False, [''data'']), \<lparr>fi_mode = or ModeDir 0x1E8, fi_uid = 1001, fi_gid = 1000, fe_data = []\<rparr>)] = (Some err, [((False, [''data'']),
      \<lparr>fi_mode = or ModeDir 0x1E8, fi_uid = 1001, fi_gid = 1000, fe_data = []\<rparr>)])"
proof (rule directory_of_other_user_refused)
  show "os_Stat demo_machine [((False, [''data'']), \<lparr>fi_mode = or ModeDir 0x1E8, fi_uid = 1001, fi_gid = 1000, fe_data = []\<rparr>)] ''data'' =
      Found \<lparr>fi_mode = or ModeDir 0x1E8, fi_uid = 1001, fi_gid = 1000\<rparr>" by code_simp
  show "IsDir \<lparr>fi_mode = or ModeDir 0x1E8, fi_uid = 1001, fi_gid = 1000\<rparr>" by (simp add: IsDir_def ModeDir_def)
  show "sy_user demo_machine = Inr (''1000'', ''1000'')" by (simp add: demo_machine_def)
  show "''1000'' \<noteq> itoa64 (ucast (fi_uid \<lparr>fi_mode = or ModeDir 0x1E8, fi_uid = 1001, fi_gid = 1000\<rparr>))" by code_simp
  show "and 0x1E8 ModeDir = 0" by (simp add: ModeDir_def)
qed

theorem config_roundtrip_witness:
  "\<exists>d'. ReadConfig demo_machine \<lparr>jt_print = (\<lambda>j. [1]), jt_parse = (\<lambda>t. Some (enc_config demo_config))\<rparr> d' ''config.json'' = Inr (Some demo_config)"
proof -
  have "(fst (SaveFileSafe demo_machine ''config.json'' [1] 0x1B0 []) = None) = True" by code_simp
  then obtain d' where "SaveFileSafe demo_machine ''config.json'' [1] 0x1B0 [] = (None, d')"
    by (cases "SaveFileSafe demo_machine ''config.json'' [1] 0x1B0 []") simp
  then have "WriteConfig demo_machine \<lparr>jt_print = (\<lambda>j. [1]), jt_parse = (\<lambda>t. Some (enc_config demo_config))\<rparr> demo_config ''config.json'' [] = (None, d')"
    by (simp add: WriteConfig_def)
  moreover have "list_all valid_utf8 [cf_Token demo_config, cf_ServerURL demo_config, cf_Type demo_config, cf_Name demo_config,
      cf_Namespace demo_config, cf_Path demo_config]" by code_simp
  ultimately have "ReadConfig demo_machine \<lparr>jt_print = (\<lambda>j. [1]), jt_parse = (\<lambda>t. Some (enc_config demo_config))\<rparr> d' ''config.json'' = Inr (Some demo_config)"
    by (intro config_roundtrip [OF _ demo_readable]) simp_all
  then show ?thesis by blast
qed

end
