(* ===== verification/Secrets_Cloud.thy ===== *)
theory Secrets_Cloud
  imports Secrets_Local
begin

text \<open>
  The secrets managers of the services: Vault (\<open>secrets/hashicorpvault/hashicorp_vault.go\<close>), the parameter
  store of AWS (\<open>secrets/awsssm/aws_ssm.go\<close>) and the secret manager of Google Cloud
  (\<open>secrets/gcpssm/gcp_ssm.go\<close>). A client is a record of operations on the world \<open>'w\<close> of the service; what its
  documentation says is a law about the record.
\<close>

section \<open>Vault\<close>

text \<open>A client has its address, token and namespace; a secret that is read is nil or has a map.\<close>

type_synonym vault_client = "string \<times> string \<times> string"

record 'w vault_api =
  va_NewClient :: "string \<Rightarrow> goerror option"
  va_Read :: "vault_client \<Rightarrow> string \<Rightarrow> 'w \<Rightarrow> (string \<times> json) list option result"
  va_Write :: "vault_client \<Rightarrow> string \<Rightarrow> (string \<times> json) list \<Rightarrow> 'w \<Rightarrow> goerror option \<times> 'w"
  va_Delete :: "vault_client \<Rightarrow> string \<Rightarrow> 'w \<Rightarrow> goerror option \<times> 'w"

record VaultSecretsManager =
  vm_token :: string
  vm_serverURL :: string
  vm_name :: string
  vm_basePath :: string
  vm_client :: "vault_client option"
  vm_namespace :: string

definition vault_Setup :: "'w vault_api \<Rightarrow> VaultSecretsManager \<Rightarrow> goerror option \<times> VaultSecretsManager" where
  "vault_Setup A v =
     (case va_NewClient A (vm_serverURL v) of
        Some err \<Rightarrow> (Some (ErrWrap ''unable to initialize Vault client: '' err ''''), v)
      | None \<Rightarrow> (None, v\<lparr>vm_client := Some (vm_serverURL v, vm_token v, vm_namespace v)\<rparr>))"

text \<open>The error of the setup is dropped.\<close>

definition vault_Factory :: "'w vault_api \<Rightarrow> SecretsManagerConfig \<Rightarrow> VaultSecretsManager result" where
  "vault_Factory A config =
     (if cf_Token config = '''' then Inl (ErrMsg ''no token specified for Vault secrets manager'')
      else if cf_ServerURL config = '''' then Inl (ErrMsg ''no server URL specified for Vault secrets manager'')
      else if cf_Name config = '''' then Inl (ErrMsg ''no node name specified for Vault secrets manager'')
      else Inr (snd (vault_Setup A \<lparr>vm_token = cf_Token config, vm_serverURL = cf_ServerURL config, vm_name = cf_Name config,
        vm_basePath = ''secret/data/'' @ cf_Name config, vm_client = None, vm_namespace = cf_Namespace config\<rparr>)))"

definition vault_path :: "VaultSecretsManager \<Rightarrow> string \<Rightarrow> string" where
  "vault_path v name = vm_basePath v @ ''/'' @ name"

text \<open>Calls on a nil client panic (\<open>None\<close>).\<close>

definition vault_GetSecret :: "'w vault_api \<Rightarrow> VaultSecretsManager \<Rightarrow> 'w \<Rightarrow> string \<Rightarrow> bytes result option" where
  "vault_GetSecret A v w name = map_option (\<lambda>client.
     case va_Read A client (vault_path v name) w of
       Inl err \<Rightarrow> Inl (ErrWrap ''unable to read secret from Vault, '' err '''')
     | Inr None \<Rightarrow> Inl ErrSecretNotFound
     | Inr (Some Data) \<Rightarrow>
         (case map_of Data ''data'' of
            None \<Rightarrow> Inl (ErrMsg ''unable to assert type for secret from Vault, <nil> <nil>'')
          | Some (JObj secretsMap) \<Rightarrow>
              (case map_of secretsMap name of
                 None \<Rightarrow> Inl ErrSecretNotFound
               | Some (JStr stringVal) \<Rightarrow> Inr (str_bytes stringVal)
               | Some _ \<Rightarrow> Inl (ErrMsg ''invalid type assertion for secret value''))
          | Some _ \<Rightarrow> Inl ErrSecretNotFound)) (vm_client v)"

definition vault_SetSecret :: "'w vault_api \<Rightarrow> VaultSecretsManager \<Rightarrow> 'w \<Rightarrow> string \<Rightarrow> bytes \<Rightarrow> (goerror option \<times> 'w) option" where
  "vault_SetSecret A v w name val = map_option (\<lambda>client.
     case va_Write A client (vault_path v name) [(''data'', JObj [(name, JStr (bytes_str val))])] w of
       (Some err, w) \<Rightarrow> (Some (ErrWrap (''unable to store secret ('' @ name @ ''), '') err ''''), w)
     | (None, w) \<Rightarrow> (None, w)) (vm_client v)"

definition vault_HasSecret :: "'w vault_api \<Rightarrow> VaultSecretsManager \<Rightarrow> 'w \<Rightarrow> string \<Rightarrow> bool option" where
  "vault_HasSecret A v w name = map_option (\<lambda>r. case r of Inl _ \<Rightarrow> False | Inr _ \<Rightarrow> True) (vault_GetSecret A v w name)"

definition vault_RemoveSecret :: "'w vault_api \<Rightarrow> VaultSecretsManager \<Rightarrow> 'w \<Rightarrow> string \<Rightarrow> (goerror option \<times> 'w) option" where
  "vault_RemoveSecret A v w name =
     (case vault_GetSecret A v w name of
        None \<Rightarrow> None
      | Some (Inl err) \<Rightarrow> Some (Some err, w)
      | Some (Inr _) \<Rightarrow> map_option (\<lambda>client.
          case va_Delete A client (vault_path v name) w of
            (Some err, w) \<Rightarrow> (Some (ErrWrap (''unable to delete secret ('' @ name @ ''), '') err ''''), w)
          | (None, w) \<Rightarrow> (None, w)) (vm_client v))"

text \<open>
  The key-value store of Vault: a secret has the data \<open>view\<close>, of which a read returns all or fails; what was
  written is there, as far as its strings are UTF-8; a deleted secret is nil or has nil data; other paths do
  not change.
\<close>

type_synonym 'w vault_view = "vault_client \<Rightarrow> string \<Rightarrow> 'w \<Rightarrow> (string \<times> json) list option"

definition vault_lawful :: "'w vault_api \<Rightarrow> 'w vault_view \<Rightarrow> bool" where
  "vault_lawful A view \<longleftrightarrow>
     (\<forall>c path w x. va_Read A c path w = Inr x \<longrightarrow> x = view c path w) \<and>
     (\<forall>c path name s w w'. va_Write A c path [(''data'', JObj [(name, JStr s)])] w = (None, w') \<longrightarrow>
        (\<exists>Data. view c path w' = Some Data \<and> map_of Data ''data'' = Some (JObj [(utf8_sanitize name, JStr (utf8_sanitize s))]))) \<and>
     (\<forall>c path w w'. va_Delete A c path w = (None, w') \<longrightarrow>
        view c path w' = None \<or> (\<exists>Data. view c path w' = Some Data \<and> map_of Data ''data'' = Some JNull)) \<and>
     (\<forall>c path path' Data w. path \<noteq> path' \<longrightarrow> view c path' (snd (va_Write A c path Data w)) = view c path' w) \<and>
     (\<forall>c path path' w. path \<noteq> path' \<longrightarrow> view c path' (snd (va_Delete A c path w)) = view c path' w)"

definition vault_place :: "VaultSecretsManager \<Rightarrow> string \<Rightarrow> string option" where
  "vault_place v n = (if valid_utf8 n then Some (vault_path v n) else None)"

definition vault_ok :: "'w vault_api \<Rightarrow> 'w vault_view \<Rightarrow> VaultSecretsManager \<Rightarrow> 'w \<Rightarrow> bool" where
  "vault_ok A view v w \<longleftrightarrow> vault_lawful A view \<and> vm_client v \<noteq> None"

text \<open>The value that the store keeps for a name.\<close>

definition vault_held :: "'w vault_view \<Rightarrow> VaultSecretsManager \<Rightarrow> 'w \<Rightarrow> string \<Rightarrow> bytes option" where
  "vault_held view v w n =
     (case Option.bind (view (the (vm_client v)) (vault_path v n) w) (\<lambda>Data. map_of Data ''data'') of
        Some (JObj secretsMap) \<Rightarrow> (case map_of secretsMap n of Some (JStr s) \<Rightarrow> Some (str_bytes s) | _ \<Rightarrow> None)
      | _ \<Rightarrow> None)"

lemma vault_path_inj [simp]: "vault_path v n = vault_path v m \<longleftrightarrow> n = m"
  by (simp add: vault_path_def)

lemma vault_laws:
  assumes "vault_lawful A view"
  shows "va_Read A c path w = Inr x \<Longrightarrow> x = view c path w"
    "va_Write A c path [(''data'', JObj [(name, JStr s)])] w = (None, w') \<Longrightarrow>
      (\<exists>Data. view c path w' = Some Data \<and> map_of Data ''data'' = Some (JObj [(utf8_sanitize name, JStr (utf8_sanitize s))]))"
    "va_Delete A c path w = (None, w') \<Longrightarrow>
      view c path w' = None \<or> (\<exists>Data. view c path w' = Some Data \<and> map_of Data ''data'' = Some JNull)"
    "path \<noteq> path' \<Longrightarrow> view c path' (snd (va_Write A c path Data w)) = view c path' w"
    "path \<noteq> path' \<Longrightarrow> view c path' (snd (va_Delete A c path w)) = view c path' w"
proof -
  note L = assms [unfolded vault_lawful_def]
  show "va_Read A c path w = Inr x \<Longrightarrow> x = view c path w" by (rule L [THEN conjunct1, rule_format])
  show "va_Write A c path [(''data'', JObj [(name, JStr s)])] w = (None, w') \<Longrightarrow>
      (\<exists>Data. view c path w' = Some Data \<and> map_of Data ''data'' = Some (JObj [(utf8_sanitize name, JStr (utf8_sanitize s))]))" by (rule L [THEN conjunct2, THEN conjunct1, rule_format])
  show "va_Delete A c path w = (None, w') \<Longrightarrow>
      view c path w' = None \<or> (\<exists>Data. view c path w' = Some Data \<and> map_of Data ''data'' = Some JNull)" by (rule L [THEN conjunct2, THEN conjunct2, THEN conjunct1, rule_format])
  show "path \<noteq> path' \<Longrightarrow> view c path' (snd (va_Write A c path Data w)) = view c path' w" by (rule L [THEN conjunct2, THEN conjunct2, THEN conjunct2, THEN conjunct1, rule_format])
  show "path \<noteq> path' \<Longrightarrow> view c path' (snd (va_Delete A c path w)) = view c path' w" by (rule L [THEN conjunct2, THEN conjunct2, THEN conjunct2, THEN conjunct2, rule_format])
qed

text \<open>A read that does not fail gives the value that is kept, and one that fails an error.\<close>

lemma vault_get_held:
  assumes "vault_lawful A view" "vm_client v = Some c"
  shows "(\<exists>err. va_Read A c (vault_path v n) w = Inl err \<and> vault_GetSecret A v w n = Some (Inl (ErrWrap ''unable to read secret from Vault, '' err ''''))) \<or>
    (\<exists>r. vault_GetSecret A v w n = Some r \<and> vault_held view v w n = (case r of Inr x \<Rightarrow> Some x | Inl _ \<Rightarrow> None))"
proof (cases "va_Read A c (vault_path v n) w")
  case (Inr x)
  have "x = view c (vault_path v n) w" by (rule vault_laws(1) [OF assms(1) Inr])
  then show ?thesis using Inr by (auto simp: vault_GetSecret_def vault_held_def assms(2) split: option.splits json.splits)
qed (simp add: vault_GetSecret_def assms(2))

text \<open>The effects of the calls when there is a client.\<close>

lemma vault_set_effect:
  assumes "vm_client v = Some c"
  shows "snd (the (vault_SetSecret A v w n x)) = snd (va_Write A c (vault_path v n) [(''data'', JObj [(n, JStr (bytes_str x))])] w)"
    "fst (the (vault_SetSecret A v w n x)) = None \<longleftrightarrow> fst (va_Write A c (vault_path v n) [(''data'', JObj [(n, JStr (bytes_str x))])] w) = None"
  using assms
  by (cases "va_Write A c (vault_path v n) [(''data'', JObj [(n, JStr (bytes_str x))])] w"; simp add: vault_SetSecret_def split: option.splits)+

lemma vault_remove_effect:
  assumes "vm_client v = Some c"
  shows "the (vault_RemoveSecret A v w n) = (case the (vault_GetSecret A v w n) of Inl err \<Rightarrow> (Some err, w)
    | Inr _ \<Rightarrow> (map_option (\<lambda>err. ErrWrap (''unable to delete secret ('' @ n @ ''), '') err '''') (fst (va_Delete A c (vault_path v n) w)),
        snd (va_Delete A c (vault_path v n) w)))"
proof -
  obtain r where r: "vault_GetSecret A v w n = Some r" by (simp add: vault_GetSecret_def assms)
  obtain e w' where d: "va_Delete A c (vault_path v n) w = (e, w')" by (cases "va_Delete A c (vault_path v n) w")
  show ?thesis by (cases r; cases e) (simp_all add: vault_RemoveSecret_def r d assms)
qed

interpretation vault: secret_store "\<lambda>w n. the (vault_GetSecret A v w n)" "vault_held view v" "\<lambda>w n x. the (vault_SetSecret A v w n x)"
  "\<lambda>w n. the (vault_RemoveSecret A v w n)" "vault_place v" "\<lambda>x. valid_utf8 (bytes_str x)" "vault_ok A view v" for A view v
proof
  fix s n p x
  assume a: "vault_ok A view v s" "the (vault_GetSecret A v s n) = Inr x"
  then obtain c where c: "vm_client v = Some c" and L: "vault_lawful A view" by (auto simp: vault_ok_def)
  from vault_get_held [OF L c, of n s] a(2) show "vault_held view v s n = Some x" by auto
next
  fix s n m p
  assume "vault_place v n = Some p" "vault_place v m = Some p"
  then have "n = m" by (auto simp: vault_place_def split: if_splits)
  then show "vault_held view v s m = vault_held view v s n" by simp
next
  fix s n p x s'
  assume a: "vault_ok A view v s" "vault_place v n = Some p" "valid_utf8 (bytes_str x)" "the (vault_SetSecret A v s n x) = (None, s')"
  then obtain c where c: "vm_client v = Some c" and L: "vault_lawful A view" by (auto simp: vault_ok_def)
  have "va_Write A c (vault_path v n) [(''data'', JObj [(n, JStr (bytes_str x))])] s = (None, s')"
    using vault_set_effect [OF c, of A s n x] a(4) by (simp add: prod_eq_iff)
  from vault_laws(2) [OF L this]
  obtain Data where "view c (vault_path v n) s' = Some Data" "map_of Data ''data'' = Some (JObj [(n, JStr (bytes_str x))])"
    using a(2,3) by (auto simp: vault_place_def valid_utf8_def split: if_splits)
  then show "vault_held view v s' n = Some x" by (simp add: vault_held_def c)
next
  fix s n p m q x
  assume a: "vault_ok A view v s" "vault_place v n = Some p" "vault_place v m = Some q" "p \<noteq> q"
  then obtain c where c: "vm_client v = Some c" and L: "vault_lawful A view" by (auto simp: vault_ok_def)
  have "vault_path v n \<noteq> vault_path v m" using a by (auto simp: vault_place_def split: if_splits)
  from vault_laws(4) [OF L this]
  show "vault_held view v (snd (the (vault_SetSecret A v s n x))) m = vault_held view v s m"
    by (simp only: vault_held_def c option.sel vault_set_effect(1) [OF c])
next
  fix s n p s'
  assume a: "vault_ok A view v s" "vault_place v n = Some p" "the (vault_RemoveSecret A v s n) = (None, s')"
  then obtain c where c: "vm_client v = Some c" and L: "vault_lawful A view" by (auto simp: vault_ok_def)
  have "va_Delete A c (vault_path v n) s = (None, s')"
    using a(3) vault_remove_effect [OF c, of A s n] by (simp add: prod_eq_iff split: sum.splits)
  from vault_laws(3) [OF L this] show "vault_held view v s' n = None" by (auto simp: vault_held_def c)
next
  fix s n p m q
  assume a: "vault_ok A view v s" "vault_place v n = Some p" "vault_place v m = Some q" "p \<noteq> q"
  then obtain c where c: "vm_client v = Some c" and L: "vault_lawful A view" by (auto simp: vault_ok_def)
  have "vault_path v n \<noteq> vault_path v m" using a by (auto simp: vault_place_def split: if_splits)
  note other = vault_laws(5) [OF L this]
  have "snd (the (vault_RemoveSecret A v s n)) = s \<or> snd (the (vault_RemoveSecret A v s n)) = snd (va_Delete A c (vault_path v n) s)"
    unfolding vault_remove_effect [OF c] by (simp split: sum.splits)
  then show "vault_held view v (snd (the (vault_RemoveSecret A v s n))) m = vault_held view v s m"
    by (elim disjE) (simp_all only: vault_held_def c option.sel other)
qed (simp_all add: vault_ok_def)

section \<open>AWS\<close>

text \<open>A client has its region and endpoint; a format verb prints a text as it is and other values by \<open>aw_fmt\<close>.\<close>

type_synonym aws_client = "string \<times> string"

record 'w aws_api =
  aw_fmt :: "string \<Rightarrow> json \<Rightarrow> string"
  aw_NewSession :: "aws_client \<Rightarrow> goerror option"
  aw_GetParameter :: "aws_client \<Rightarrow> string \<Rightarrow> bool \<Rightarrow> 'w \<Rightarrow> string option result"
  aw_PutParameter :: "aws_client \<Rightarrow> string \<Rightarrow> string \<Rightarrow> string \<Rightarrow> bool \<Rightarrow> 'w \<Rightarrow> goerror option \<times> 'w"
  aw_DeleteParameter :: "aws_client \<Rightarrow> string \<Rightarrow> 'w \<Rightarrow> goerror option \<times> 'w"

record AwsSsmManager =
  am_region :: string
  am_endpoint :: string
  am_basePath :: string

definition fmt_value :: "(json \<Rightarrow> string) \<Rightarrow> json \<Rightarrow> string" where
  "fmt_value fmt j = (case j of JStr s \<Rightarrow> s | _ \<Rightarrow> fmt j)"

definition extra :: "SecretsManagerConfig \<Rightarrow> string \<Rightarrow> json option" where
  "extra config n = (case cf_Extra config of None \<Rightarrow> None | Some fs \<Rightarrow> map_of fs n)"

definition aws_client_of :: "AwsSsmManager \<Rightarrow> aws_client" where
  "aws_client_of a = (am_region a, am_endpoint a)"

definition aws_Setup :: "'w aws_api \<Rightarrow> AwsSsmManager \<Rightarrow> goerror option" where
  "aws_Setup A a = map_option (\<lambda>err. ErrWrap ''unable to initialize AWS SSM client: '' err '''') (aw_NewSession A (aws_client_of a))"

definition aws_Factory :: "'w aws_api \<Rightarrow> SecretsManagerConfig \<Rightarrow> AwsSsmManager result" where
  "aws_Factory A config =
     (let path = extra config ''ssm-parameter-path''; region = extra config ''region'' in
      if cf_Name config = '''' then Inl (ErrMsg ''no node name specified for AWS SSM secrets manager'')
      else if region \<in> {None, Some JNull} \<or> path \<in> {None, Some JNull}
      then Inl (ErrMsg (''required extra map containing '' @ [CHR 0x27] @ ''region'' @ [CHR 0x27] @ '' and '' @
        [CHR 0x27] @ ''ssm-parameter-path'' @ [CHR 0x27] @ '' not found for aws-ssm''))
      else let a = \<lparr>am_region = fmt_value (aw_fmt A ''%v'') (the region), am_endpoint = cf_ServerURL config,
             am_basePath = fmt_value (aw_fmt A ''%s'') (the path) @ ''/'' @ cf_Name config\<rparr> in
           (case aws_Setup A a of Some err \<Rightarrow> Inl err | None \<Rightarrow> Inr a))"

definition aws_path :: "AwsSsmManager \<Rightarrow> string \<Rightarrow> string" where
  "aws_path a name = am_basePath a @ ''/'' @ name"

definition aws_GetSecret :: "'w aws_api \<Rightarrow> AwsSsmManager \<Rightarrow> 'w \<Rightarrow> string \<Rightarrow> bytes result" where
  "aws_GetSecret A a w name =
     (case aw_GetParameter A (aws_client_of a) (aws_path a name) True w of
        Inr (Some param) \<Rightarrow> Inr (str_bytes param)
      | _ \<Rightarrow> Inl ErrSecretNotFound)"

definition aws_SetSecret :: "'w aws_api \<Rightarrow> AwsSsmManager \<Rightarrow> 'w \<Rightarrow> string \<Rightarrow> bytes \<Rightarrow> goerror option \<times> 'w" where
  "aws_SetSecret A a w name val =
     (case aw_PutParameter A (aws_client_of a) (aws_path a name) (bytes_str val) ''SecureString'' False w of
        (Some err, w) \<Rightarrow> (Some (ErrWrap (''unable to store secret ('' @ name @ ''), '') err ''''), w)
      | (None, w) \<Rightarrow> (None, w))"

definition aws_HasSecret :: "'w aws_api \<Rightarrow> AwsSsmManager \<Rightarrow> 'w \<Rightarrow> string \<Rightarrow> bool" where
  "aws_HasSecret A a w name \<longleftrightarrow> (case aws_GetSecret A a w name of Inl _ \<Rightarrow> False | Inr _ \<Rightarrow> True)"

definition aws_RemoveSecret :: "'w aws_api \<Rightarrow> AwsSsmManager \<Rightarrow> 'w \<Rightarrow> string \<Rightarrow> goerror option \<times> 'w" where
  "aws_RemoveSecret A a w name =
     (case aws_GetSecret A a w name of
        Inl err \<Rightarrow> (Some err, w)
      | Inr _ \<Rightarrow>
          (case aw_DeleteParameter A (aws_client_of a) (aws_path a name) w of
             (Some err, w) \<Rightarrow> (Some (ErrWrap (''unable to delete secret ('' @ name @ ''), '') err ''''), w)
           | (None, w) \<Rightarrow> (None, w)))"

text \<open>
  The parameter store: a parameter has the value \<open>view\<close>, which a read returns unless it fails; a put without
  overwriting fails on a parameter that is there; texts are UTF-8.
\<close>

type_synonym 'w aws_view = "aws_client \<Rightarrow> 'w \<Rightarrow> string \<Rightarrow> string option"

definition aws_lawful :: "'w aws_api \<Rightarrow> 'w aws_view \<Rightarrow> bool" where
  "aws_lawful A view \<longleftrightarrow>
     (\<forall>c n w x. aw_GetParameter A c n True w = Inr x \<longrightarrow> x = view c w n) \<and>
     (\<forall>c n v t w. fst (aw_PutParameter A c n v t False w) = None \<longrightarrow>
        view c w n = None \<and> (valid_utf8 v \<longrightarrow> view c (snd (aw_PutParameter A c n v t False w)) n = Some v)) \<and>
     (\<forall>c n v t w v0. view c w n = Some v0 \<longrightarrow> view c (snd (aw_PutParameter A c n v t False w)) n = Some v0) \<and>
     (\<forall>c n w. fst (aw_DeleteParameter A c n w) = None \<longrightarrow> view c (snd (aw_DeleteParameter A c n w)) n = None) \<and>
     (\<forall>c n m v t w. n \<noteq> m \<longrightarrow> view c (snd (aw_PutParameter A c n v t False w)) m = view c w m \<and>
        view c (snd (aw_DeleteParameter A c n w)) m = view c w m)"

lemma aws_laws:
  assumes "aws_lawful A view"
  shows "aw_GetParameter A c n True w = Inr x \<Longrightarrow> x = view c w n"
    "fst (aw_PutParameter A c n v t False w) = None \<Longrightarrow> view c w n = None"
    "fst (aw_PutParameter A c n v t False w) = None \<Longrightarrow> valid_utf8 v \<Longrightarrow> view c (snd (aw_PutParameter A c n v t False w)) n = Some v"
    "view c w n = Some v0 \<Longrightarrow> view c (snd (aw_PutParameter A c n v t False w)) n = Some v0"
    "fst (aw_DeleteParameter A c n w) = None \<Longrightarrow> view c (snd (aw_DeleteParameter A c n w)) n = None"
    "n \<noteq> m \<Longrightarrow> view c (snd (aw_PutParameter A c n v t False w)) m = view c w m"
    "n \<noteq> m \<Longrightarrow> view c (snd (aw_DeleteParameter A c n w)) m = view c w m"
proof -
  note L = assms [unfolded aws_lawful_def]
  show "aw_GetParameter A c n True w = Inr x \<Longrightarrow> x = view c w n" by (rule L [THEN conjunct1, rule_format])
  show "fst (aw_PutParameter A c n v t False w) = None \<Longrightarrow> view c w n = None" by (rule L [THEN conjunct2, THEN conjunct1, rule_format, THEN conjunct1])
  show "fst (aw_PutParameter A c n v t False w) = None \<Longrightarrow> valid_utf8 v \<Longrightarrow> view c (snd (aw_PutParameter A c n v t False w)) n = Some v" by (rule L [THEN conjunct2, THEN conjunct1, rule_format, THEN conjunct2, rule_format])
  show "view c w n = Some v0 \<Longrightarrow> view c (snd (aw_PutParameter A c n v t False w)) n = Some v0" by (rule L [THEN conjunct2, THEN conjunct2, THEN conjunct1, rule_format])
  show "fst (aw_DeleteParameter A c n w) = None \<Longrightarrow> view c (snd (aw_DeleteParameter A c n w)) n = None" by (rule L [THEN conjunct2, THEN conjunct2, THEN conjunct2, THEN conjunct1, rule_format])
  show "n \<noteq> m \<Longrightarrow> view c (snd (aw_PutParameter A c n v t False w)) m = view c w m" by (rule L [THEN conjunct2, THEN conjunct2, THEN conjunct2, THEN conjunct2, rule_format, THEN conjunct1])
  show "n \<noteq> m \<Longrightarrow> view c (snd (aw_DeleteParameter A c n w)) m = view c w m" by (rule L [THEN conjunct2, THEN conjunct2, THEN conjunct2, THEN conjunct2, rule_format, THEN conjunct2])
qed

definition aws_held :: "'w aws_view \<Rightarrow> AwsSsmManager \<Rightarrow> 'w \<Rightarrow> string \<Rightarrow> bytes option" where
  "aws_held view a w n = map_option str_bytes (view (aws_client_of a) w (aws_path a n))"

lemma aws_get_held:
  assumes "aws_lawful A view"
  shows "(\<exists>err. aw_GetParameter A (aws_client_of a) (aws_path a n) True w = Inl err \<and> aws_GetSecret A a w n = Inl ErrSecretNotFound) \<or>
    aws_held view a w n = (case aws_GetSecret A a w n of Inr x \<Rightarrow> Some x | Inl _ \<Rightarrow> None)"
  using aws_laws(1) [OF assms, of "aws_client_of a" "aws_path a n" w]
  by (auto simp: aws_GetSecret_def aws_held_def split: sum.splits option.splits)

lemma aws_set_effect:
  "snd (aws_SetSecret A a w n x) = snd (aw_PutParameter A (aws_client_of a) (aws_path a n) (bytes_str x) ''SecureString'' False w)"
  "fst (aws_SetSecret A a w n x) = None \<longleftrightarrow> fst (aw_PutParameter A (aws_client_of a) (aws_path a n) (bytes_str x) ''SecureString'' False w) = None"
  by (simp_all add: aws_SetSecret_def split: prod.splits option.splits)

lemma aws_remove_effect:
  "aws_RemoveSecret A a w n = (Some ErrSecretNotFound, w) \<or>
    snd (aws_RemoveSecret A a w n) = snd (aw_DeleteParameter A (aws_client_of a) (aws_path a n) w) \<and>
    (fst (aws_RemoveSecret A a w n) = None \<longleftrightarrow> fst (aw_DeleteParameter A (aws_client_of a) (aws_path a n) w) = None)"
  by (auto simp: aws_RemoveSecret_def aws_GetSecret_def split: prod.splits option.splits sum.splits)

lemma aws_path_inj [simp]: "aws_path a n = aws_path a m \<longleftrightarrow> n = m"
  by (simp add: aws_path_def)

interpretation aws: once_store "aws_GetSecret A a" "aws_held view a" "aws_SetSecret A a" "aws_RemoveSecret A a" "\<lambda>n. Some (aws_path a n)"
  "\<lambda>x. valid_utf8 (bytes_str x)" "\<lambda>w. aws_lawful A view" for A a view
proof
  fix s n p x
  assume "aws_lawful A view" "aws_GetSecret A a s n = Inr x"
  then show "aws_held view a s n = Some x" using aws_get_held [of A view a n s] by auto
next
  fix s n p x s'
  assume a: "aws_lawful A view" "valid_utf8 (bytes_str x)" "aws_SetSecret A a s n x = (None, s')"
  from aws_laws(3) [OF a(1) _ a(2), of "aws_client_of a" "aws_path a n" "''SecureString''" s]
  show "aws_held view a s' n = Some x" using aws_set_effect [of A a s n x] a(3) by (simp add: aws_held_def)
next
  fix s n p m q x
  assume a: "aws_lawful A view" "Some (aws_path a n) = Some p" "Some (aws_path a m) = Some q" "p \<noteq> q"
  then have "aws_path a n \<noteq> aws_path a m" by simp
  from aws_laws(6) [OF a(1) this] show "aws_held view a (snd (aws_SetSecret A a s n x)) m = aws_held view a s m"
    by (simp only: aws_held_def aws_set_effect)
next
  fix s n p s'
  assume a: "aws_lawful A view" "aws_RemoveSecret A a s n = (None, s')"
  then show "aws_held view a s' n = None"
    using aws_remove_effect [of A a s n] aws_laws(5) [OF a(1), of "aws_client_of a" "aws_path a n" s] by (auto simp: aws_held_def)
next
  fix s n p m q
  assume a: "aws_lawful A view" "Some (aws_path a n) = Some p" "Some (aws_path a m) = Some q" "p \<noteq> q"
  then have "aws_path a n \<noteq> aws_path a m" by simp
  from aws_laws(7) [OF a(1) this, of "aws_client_of a" s] show "aws_held view a (snd (aws_RemoveSecret A a s n)) m = aws_held view a s m"
    using aws_remove_effect [of A a s n] by (auto simp: aws_held_def)
next
  fix s n p v0 x
  assume a: "aws_lawful A view" "aws_held view a s n = Some v0"
  then obtain y where y: "view (aws_client_of a) s (aws_path a n) = Some y" "v0 = str_bytes y" by (auto simp: aws_held_def)
  show "fst (aws_SetSecret A a s n x) \<noteq> None \<and> aws_held view a (snd (aws_SetSecret A a s n x)) n = Some v0"
    using aws_laws(4) [OF a(1) y(1)] aws_laws(2) [OF a(1), of "aws_client_of a" "aws_path a n" "bytes_str x" "''SecureString''" s] y
    by (auto simp: aws_held_def aws_set_effect)
qed auto

section \<open>Google Cloud\<close>

record 'w gcp_api =
  gc_fmt :: "json \<Rightarrow> string"
  gc_Setenv :: "string \<Rightarrow> string \<Rightarrow> goerror option"
  gc_NewClient :: "goerror option"
  gc_AccessSecretVersion :: "string \<Rightarrow> 'w \<Rightarrow> bytes result"
  gc_CreateSecret :: "string \<Rightarrow> string \<Rightarrow> 'w \<Rightarrow> string result \<times> 'w"
  gc_AddSecretVersion :: "string \<Rightarrow> bytes \<Rightarrow> 'w \<Rightarrow> goerror option \<times> 'w"
  gc_DeleteSecret :: "string \<Rightarrow> 'w \<Rightarrow> goerror option \<times> 'w"

record GCPSecretsManager =
  gm_projectID :: string
  gm_credFilePath :: string
  gm_nodeName :: string

definition gcp_Setup :: "'w gcp_api \<Rightarrow> GCPSecretsManager \<Rightarrow> goerror option" where
  "gcp_Setup G gm =
     (case gc_Setenv G ''GOOGLE_APPLICATION_CREDENTIALS'' (gm_credFilePath gm) of
        Some _ \<Rightarrow> Some (ErrMsg ''could not set GOOGLE_APPLICATION_CREDENTIALS environment variable'')
      | None \<Rightarrow> map_option (\<lambda>clientErr. ErrWrap ''could not initialize new GCP secrets manager client '' clientErr '''') (gc_NewClient G))"

definition gcp_Factory :: "'w gcp_api \<Rightarrow> SecretsManagerConfig \<Rightarrow> GCPSecretsManager result" where
  "gcp_Factory G config =
     (case (extra config ''project-id'', extra config ''gcp-ssm-cred'') of
        (None, _) \<Rightarrow> Inl (ErrMsg ''no project-id variable specified'')
      | (Some _, None) \<Rightarrow> Inl (ErrMsg ''no gcp-ssm-cred variable specified'')
      | (Some projectID, Some cred) \<Rightarrow>
          if cf_Name config = '''' \<or> projectID = JStr '''' \<or> cred = JStr ''''
          then Inl (ErrMsg ''name, project-id or gcp-ssm-cred, can not be an empty string'')
          else let gm = \<lparr>gm_projectID = fmt_value (gc_fmt G) projectID, gm_credFilePath = fmt_value (gc_fmt G) cred,
                 gm_nodeName = cf_Name config\<rparr> in
               (case gcp_Setup G gm of Some err \<Rightarrow> Inl err | None \<Rightarrow> Inr gm))"

definition getSecretID :: "GCPSecretsManager \<Rightarrow> string \<Rightarrow> string" where
  "getSecretID gm secretName = gm_nodeName gm @ ''_'' @ secretName"

definition getFullyQualifiedSecretName :: "GCPSecretsManager \<Rightarrow> string \<Rightarrow> string" where
  "getFullyQualifiedSecretName gm secretName =
     ''projects/'' @ gm_projectID gm @ ''/secrets/'' @ getSecretID gm secretName @ ''/versions/1''"

definition gcp_GetSecret :: "'w gcp_api \<Rightarrow> GCPSecretsManager \<Rightarrow> 'w \<Rightarrow> string \<Rightarrow> bytes result" where
  "gcp_GetSecret G gm w name =
     (case gc_AccessSecretVersion G (getFullyQualifiedSecretName gm name) w of
        Inl err \<Rightarrow> Inl (ErrWrap ''could not fetch secret from GCP secret manager: '' err '''')
      | Inr payload \<Rightarrow> Inr payload)"

definition gcp_SetSecret :: "'w gcp_api \<Rightarrow> GCPSecretsManager \<Rightarrow> 'w \<Rightarrow> string \<Rightarrow> bytes \<Rightarrow> goerror option \<times> 'w" where
  "gcp_SetSecret G gm w name val =
     (case gc_CreateSecret G (''projects/'' @ gm_projectID gm) (getSecretID gm name) w of
        (Inl err, w) \<Rightarrow> (Some (ErrWrap ''could not set secret, '' err ''''), w)
      | (Inr secret, w) \<Rightarrow>
          (case gc_AddSecretVersion G secret val w of
             (Some err, w) \<Rightarrow> (Some (ErrWrap ''could not store secret, '' err ''''), w)
           | (None, w) \<Rightarrow> (None, w)))"

definition gcp_HasSecret :: "'w gcp_api \<Rightarrow> GCPSecretsManager \<Rightarrow> 'w \<Rightarrow> string \<Rightarrow> bool" where
  "gcp_HasSecret G gm w name \<longleftrightarrow> (case gcp_GetSecret G gm w name of Inl _ \<Rightarrow> False | Inr _ \<Rightarrow> True)"

definition gcp_RemoveSecret :: "'w gcp_api \<Rightarrow> GCPSecretsManager \<Rightarrow> 'w \<Rightarrow> string \<Rightarrow> goerror option \<times> 'w" where
  "gcp_RemoveSecret G gm w name =
     (case gc_DeleteSecret G (getFullyQualifiedSecretName gm name) w of
        (Some err, w) \<Rightarrow> (Some (ErrWrap (''could not delete secret '' @ getFullyQualifiedSecretName gm name @ '' from GCP secret manager: '') err ''''), w)
      | (None, w) \<Rightarrow> (None, w))"

text \<open>
  The secret manager: a secret is a list of versions, and \<open>view\<close> has the secrets of a world. The project in
  the name of a secret may be its identifier or its number, and \<open>canon\<close> is the name with the number, of as
  many parts; the name of a secret has four. Creating a secret that is there fails, and so do adding to and
  deleting what is no secret. A read may fail, and otherwise returns the version asked for. A creation that
  failed may have made the secret; the other calls that fail change nothing.
\<close>

definition slashes :: "string \<Rightarrow> nat" where
  "slashes n = length (filter (\<lambda>c. c = CHR ''/'') n)"

type_synonym 'w gcp_view = "'w \<Rightarrow> string \<Rightarrow> bytes list option"

definition gcp_lawful :: "'w gcp_api \<Rightarrow> (string \<Rightarrow> string) \<Rightarrow> 'w gcp_view \<Rightarrow> bool" where
  "gcp_lawful G canon view \<longleftrightarrow>
     (\<forall>n. slashes (canon n) = slashes n) \<and>
     (\<forall>parent x y. canon (parent @ ''/secrets/'' @ x) = canon (parent @ ''/secrets/'' @ y) \<longrightarrow> x = y) \<and>
     (\<forall>w n. view w n \<noteq> None \<longrightarrow> slashes n = 3) \<and>
     (\<forall>w n v. gc_AccessSecretVersion G (n @ ''/versions/1'') w = Inr v \<longrightarrow> (\<exists>vs. view w (canon n) = Some (v # vs))) \<and>
     (\<forall>parent ident w. let n = canon (parent @ ''/secrets/'' @ ident) in
        case gc_CreateSecret G parent ident w of
          (Inl e, w') \<Rightarrow> view w' = view w \<or> view w n = None \<and> view w' = (view w)(n \<mapsto> [])
        | (Inr made, w') \<Rightarrow> canon made = n \<and> view w n = None \<and> view w' = (view w)(n \<mapsto> [])) \<and>
     (\<forall>n v w. case gc_AddSecretVersion G n v w of
        (Some e, w') \<Rightarrow> view w' = view w
      | (None, w') \<Rightarrow> view w (canon n) \<noteq> None \<and> view w' = (view w)(canon n \<mapsto> the (view w (canon n)) @ [v])) \<and>
     (\<forall>n w. case gc_DeleteSecret G n w of
        (Some e, w') \<Rightarrow> view w' = view w
      | (None, w') \<Rightarrow> view w (canon n) \<noteq> None \<and> view w' = (view w)(canon n := None))"

definition gcp_name :: "(string \<Rightarrow> string) \<Rightarrow> GCPSecretsManager \<Rightarrow> string \<Rightarrow> string" where
  "gcp_name canon gm n = canon (''projects/'' @ gm_projectID gm @ ''/secrets/'' @ getSecretID gm n)"

definition gcp_held :: "(string \<Rightarrow> string) \<Rightarrow> 'w gcp_view \<Rightarrow> GCPSecretsManager \<Rightarrow> 'w \<Rightarrow> string \<Rightarrow> bytes option" where
  "gcp_held canon view gm w n = (case view w (gcp_name canon gm n) of Some (v # _) \<Rightarrow> Some v | _ \<Rightarrow> None)"

lemma gcp_qualified:
  "getFullyQualifiedSecretName gm n = (''projects/'' @ gm_projectID gm @ ''/secrets/'' @ getSecretID gm n) @ ''/versions/1''"
  by (simp add: getFullyQualifiedSecretName_def)

lemma gcp_laws:
  assumes "gcp_lawful G canon view"
  shows "slashes (canon n) = slashes n"
    "canon (parent @ ''/secrets/'' @ x) = canon (parent @ ''/secrets/'' @ y) \<Longrightarrow> x = y"
    "view w n \<noteq> None \<Longrightarrow> slashes n = 3"
    "gc_AccessSecretVersion G (n @ ''/versions/1'') w = Inr v \<Longrightarrow> \<exists>vs. view w (canon n) = Some (v # vs)"
    "case gc_CreateSecret G parent ident w of
          (Inl e, w') \<Rightarrow> view w' = view w \<or> view w (canon (parent @ ''/secrets/'' @ ident)) = None \<and>
            view w' = (view w)(canon (parent @ ''/secrets/'' @ ident) \<mapsto> [])
        | (Inr made, w') \<Rightarrow> canon made = canon (parent @ ''/secrets/'' @ ident) \<and> view w (canon (parent @ ''/secrets/'' @ ident)) = None \<and>
            view w' = (view w)(canon (parent @ ''/secrets/'' @ ident) \<mapsto> [])"
    "case gc_AddSecretVersion G n v w of
        (Some e, w') \<Rightarrow> view w' = view w
      | (None, w') \<Rightarrow> view w (canon n) \<noteq> None \<and> view w' = (view w)(canon n \<mapsto> the (view w (canon n)) @ [v])"
    "case gc_DeleteSecret G n w of
        (Some e, w') \<Rightarrow> view w' = view w
      | (None, w') \<Rightarrow> view w (canon n) \<noteq> None \<and> view w' = (view w)(canon n := None)"
proof -
  note L = assms [unfolded gcp_lawful_def Let_def]
  show "slashes (canon n) = slashes n" by (rule L [THEN conjunct1, rule_format])
  show "canon (parent @ ''/secrets/'' @ x) = canon (parent @ ''/secrets/'' @ y) \<Longrightarrow> x = y" by (rule L [THEN conjunct2, THEN conjunct1, rule_format])
  show "view w n \<noteq> None \<Longrightarrow> slashes n = 3" by (rule L [THEN conjunct2, THEN conjunct2, THEN conjunct1, rule_format])
  show "gc_AccessSecretVersion G (n @ ''/versions/1'') w = Inr v \<Longrightarrow> \<exists>vs. view w (canon n) = Some (v # vs)" by (rule L [THEN conjunct2, THEN conjunct2, THEN conjunct2, THEN conjunct1, rule_format])
  show "case gc_CreateSecret G parent ident w of
          (Inl e, w') \<Rightarrow> view w' = view w \<or> view w (canon (parent @ ''/secrets/'' @ ident)) = None \<and>
            view w' = (view w)(canon (parent @ ''/secrets/'' @ ident) \<mapsto> [])
        | (Inr made, w') \<Rightarrow> canon made = canon (parent @ ''/secrets/'' @ ident) \<and> view w (canon (parent @ ''/secrets/'' @ ident)) = None \<and>
            view w' = (view w)(canon (parent @ ''/secrets/'' @ ident) \<mapsto> [])" by (rule L [THEN conjunct2, THEN conjunct2, THEN conjunct2, THEN conjunct2, THEN conjunct1, rule_format])
  show "case gc_AddSecretVersion G n v w of
        (Some e, w') \<Rightarrow> view w' = view w
      | (None, w') \<Rightarrow> view w (canon n) \<noteq> None \<and> view w' = (view w)(canon n \<mapsto> the (view w (canon n)) @ [v])" by (rule L [THEN conjunct2, THEN conjunct2, THEN conjunct2, THEN conjunct2, THEN conjunct2, THEN conjunct1, rule_format])
  show "case gc_DeleteSecret G n w of
        (Some e, w') \<Rightarrow> view w' = view w
      | (None, w') \<Rightarrow> view w (canon n) \<noteq> None \<and> view w' = (view w)(canon n := None)" by (rule L [THEN conjunct2, THEN conjunct2, THEN conjunct2, THEN conjunct2, THEN conjunct2, THEN conjunct2, rule_format])
qed

lemma gcp_name_inj:
  assumes "gcp_lawful G canon view" "gcp_name canon gm n = gcp_name canon gm m"
  shows "n = m"
  using gcp_laws(2) [OF assms(1), of "''projects/'' @ gm_projectID gm" "getSecretID gm n" "getSecretID gm m"] assms(2)
  by (simp add: gcp_name_def getSecretID_def)

lemma gcp_get_held:
  assumes "gcp_lawful G canon view"
  shows "(\<exists>err. gc_AccessSecretVersion G (getFullyQualifiedSecretName gm n) w = Inl err \<and>
      gcp_GetSecret G gm w n = Inl (ErrWrap ''could not fetch secret from GCP secret manager: '' err '''')) \<or>
    (\<exists>v. gcp_GetSecret G gm w n = Inr v \<and> gcp_held canon view gm w n = Some v)"
proof (cases "gc_AccessSecretVersion G (getFullyQualifiedSecretName gm n) w")
  case (Inr v)
  from gcp_laws(4) [OF assms Inr [unfolded gcp_qualified]] obtain vs where "view w (gcp_name canon gm n) = Some (v # vs)"
    by (auto simp: gcp_name_def)
  then show ?thesis using Inr by (simp add: gcp_GetSecret_def gcp_held_def)
qed (simp add: gcp_GetSecret_def)

lemma gcp_set_cases:
  assumes "gcp_lawful G canon view"
  obtains (refused) e where "fst (gcp_SetSecret G gm w n x) = Some e" "view (snd (gcp_SetSecret G gm w n x)) = view w"
  | (half) e where "view w (gcp_name canon gm n) = None" "fst (gcp_SetSecret G gm w n x) = Some e"
      "view (snd (gcp_SetSecret G gm w n x)) = (view w)(gcp_name canon gm n \<mapsto> [])"
  | (stored) "view w (gcp_name canon gm n) = None" "fst (gcp_SetSecret G gm w n x) = None"
      "view (snd (gcp_SetSecret G gm w n x)) = (view w)(gcp_name canon gm n \<mapsto> [x])"
proof -
  let ?name = "canon ((''projects/'' @ gm_projectID gm) @ ''/secrets/'' @ getSecretID gm n)"
  obtain r w1 where c: "gc_CreateSecret G (''projects/'' @ gm_projectID gm) (getSecretID gm n) w = (r, w1)"
    by (cases "gc_CreateSecret G (''projects/'' @ gm_projectID gm) (getSecretID gm n) w")
  have set_eq: "gcp_SetSecret G gm w n x =
      (case r of Inl err \<Rightarrow> (Some (ErrWrap ''could not set secret, '' err ''''), w1)
       | Inr secret \<Rightarrow> (case gc_AddSecretVersion G secret x w1 of
           (Some err, w) \<Rightarrow> (Some (ErrWrap ''could not store secret, '' err ''''), w)
         | (None, w) \<Rightarrow> (None, w)))"
    unfolding gcp_SetSecret_def c by (cases r) simp_all
  have name: "gcp_name canon gm n = ?name" by (simp only: gcp_name_def append_assoc)
  note C = gcp_laws(5) [OF assms, where parent = "''projects/'' @ gm_projectID gm" and ident = "getSecretID gm n" and w = w, unfolded c prod.case]
  show ?thesis
  proof (cases r)
    case (Inl e)
    with C have "view w1 = view w \<or> view w ?name = None \<and> view w1 = (view w)(?name \<mapsto> [])" by (simp only: sum.case)
    then show ?thesis using refused half by (auto simp: set_eq Inl name)
  next
    case (Inr m)
    have C': "canon m = ?name \<and> view w ?name = None \<and> view w1 = (view w)(?name \<mapsto> [])" using C unfolding Inr sum.case .
    have m: "canon m = gcp_name canon gm n" using C' by (simp only: name)
    have v: "view w (gcp_name canon gm n) = None" "view w1 = (view w)(gcp_name canon gm n \<mapsto> [])" using C' by (simp_all only: name)
    obtain e w2 where a: "gc_AddSecretVersion G m x w1 = (e, w2)" by (cases "gc_AddSecretVersion G m x w1")
    show ?thesis
      using gcp_laws(6) [OF assms, where n = m and v = x and w = w1, unfolded a prod.case] m v half stored
      by (cases e) (simp_all add: set_eq Inr a)
  qed
qed

text \<open>The name of a version is no name of a secret.\<close>

lemma gcp_remove_refused:
  assumes "gcp_lawful G canon view"
  shows "\<exists>e. fst (gcp_RemoveSecret G gm w n) = Some e \<and> view (snd (gcp_RemoveSecret G gm w n)) = view w"
proof -
  let ?name = "getFullyQualifiedSecretName gm n"
  obtain r w' where d: "gc_DeleteSecret G ?name w = (r, w')" by (cases "gc_DeleteSecret G ?name w")
  have "slashes (canon ?name) \<noteq> 3"
    unfolding gcp_laws(1) [OF assms] by (simp add: slashes_def getFullyQualifiedSecretName_def)
  then have "view w (canon ?name) = None" using gcp_laws(3) [OF assms] by blast
  then show ?thesis
    using gcp_laws(7) [OF assms, where n = ?name and w = w, unfolded d prod.case]
    by (cases r) (simp_all add: gcp_RemoveSecret_def d)
qed

interpretation gcp: once_store "gcp_GetSecret G gm" "gcp_held canon view gm" "gcp_SetSecret G gm" "gcp_RemoveSecret G gm"
  "\<lambda>n. Some (gcp_name canon gm n)" "\<lambda>x. True" "\<lambda>w. gcp_lawful G canon view" for G gm canon view
proof
  fix s n p x
  assume "gcp_lawful G canon view" "gcp_GetSecret G gm s n = Inr x"
  then show "gcp_held canon view gm s n = Some x" using gcp_get_held [of G canon view gm n s] by auto
next
  fix s n p x s'
  assume a: "gcp_lawful G canon view" "gcp_SetSecret G gm s n x = (None, s')"
  show "gcp_held canon view gm s' n = Some x"
    by (rule gcp_set_cases [OF a(1), of gm s n x]) (use a in \<open>simp_all add: gcp_held_def\<close>)
next
  fix s n p m q x
  assume a: "gcp_lawful G canon view" "Some (gcp_name canon gm n) = Some p" "Some (gcp_name canon gm m) = Some q" "p \<noteq> q"
  show "gcp_held canon view gm (snd (gcp_SetSecret G gm s n x)) m = gcp_held canon view gm s m"
    by (rule gcp_set_cases [OF a(1), of gm s n x]) (use a in \<open>auto simp: gcp_held_def\<close>)
next
  fix s n p s'
  assume "gcp_lawful G canon view" "gcp_RemoveSecret G gm s n = (None, s')"
  then show "gcp_held canon view gm s' n = None" using gcp_remove_refused [of G canon view gm s n] by simp
next
  fix s n p m q
  assume a: "gcp_lawful G canon view"
  show "gcp_held canon view gm (snd (gcp_RemoveSecret G gm s n)) m = gcp_held canon view gm s m"
    using gcp_remove_refused [OF a, of gm s n] by (auto simp: gcp_held_def)
next
  fix s n p v0 x
  assume a: "gcp_lawful G canon view" "gcp_held canon view gm s n = Some v0"
  show "fst (gcp_SetSecret G gm s n x) \<noteq> None \<and> gcp_held canon view gm (snd (gcp_SetSecret G gm s n x)) n = Some v0"
    by (rule gcp_set_cases [OF a(1), of gm s n x]) (use a in \<open>simp_all add: gcp_held_def\<close>)
next
  fix s n m p
  assume "gcp_lawful G canon view" "Some (gcp_name canon gm n) = Some p" "Some (gcp_name canon gm m) = Some p"
  then show "gcp_held canon view gm s m = gcp_held canon view gm s n" using gcp_name_inj by (metis option.inject)
qed auto

end
