(* ===== verification/Secrets_Helper.thy ===== *)
theory Secrets_Helper
  imports Secrets_Cloud
begin

text \<open>
  The choice of a secrets manager by the configuration (\<open>secrets/helper/helper.go\<close>), and what holds of the
  managers of the services: the key of the validator is found whatever the service, and the manager of Google
  Cloud cannot remove and does not recover from a half-done write.
\<close>

section \<open>The choice\<close>

record 'w services =
  sv_vault :: "'w vault_api"
  sv_aws :: "'w aws_api"
  sv_gcp :: "'w gcp_api"

datatype manager =
    LocalManager LocalSecretsManager
  | VaultManager VaultSecretsManager
  | AwsManager AwsSsmManager
  | GcpManager GCPSecretsManager

definition CreateSecretsManager :: "machine \<Rightarrow> 'w services \<Rightarrow> SecretsManagerConfig \<Rightarrow> disk \<Rightarrow> manager result \<times> disk" where
  "CreateSecretsManager M S config d =
     (if cf_Type config = HashicorpVault then (rbind (vault_Factory (sv_vault S) config) (\<lambda>m. Inr (VaultManager m)), d)
      else if cf_Type config = AWSSSM then (rbind (aws_Factory (sv_aws S) config) (\<lambda>m. Inr (AwsManager m)), d)
      else if cf_Type config = GCPSSM then (rbind (gcp_Factory (sv_gcp S) config) (\<lambda>m. Inr (GcpManager m)), d)
      else if cf_Type config = Local
      then (case local_Factory M config d of (r, d) \<Rightarrow> (rbind r (\<lambda>m. Inr (LocalManager m)), d))
      else (Inl (ErrMsg ''unsupported secrets manager''), d))"

text \<open>The calls through the interface.\<close>

primrec manager_GetSecret :: "machine \<Rightarrow> 'w services \<Rightarrow> disk \<Rightarrow> 'w \<Rightarrow> string \<Rightarrow> manager \<Rightarrow> bytes result option" where
  "manager_GetSecret M S d w name (LocalManager m) = Some (local_GetSecret M m d name)"
| "manager_GetSecret M S d w name (VaultManager m) = vault_GetSecret (sv_vault S) m w name"
| "manager_GetSecret M S d w name (AwsManager m) = Some (aws_GetSecret (sv_aws S) m w name)"
| "manager_GetSecret M S d w name (GcpManager m) = Some (gcp_GetSecret (sv_gcp S) m w name)"

primrec manager_SetSecret :: "machine \<Rightarrow> 'w services \<Rightarrow> disk \<Rightarrow> 'w \<Rightarrow> string \<Rightarrow> bytes \<Rightarrow> manager \<Rightarrow> (goerror option \<times> disk \<times> 'w) option" where
  "manager_SetSecret M S d w name val (LocalManager m) = (case local_SetSecret M m d name val of (e, d) \<Rightarrow> Some (e, d, w))"
| "manager_SetSecret M S d w name val (VaultManager m) = map_option (\<lambda>(e, w). (e, d, w)) (vault_SetSecret (sv_vault S) m w name val)"
| "manager_SetSecret M S d w name val (AwsManager m) = (case aws_SetSecret (sv_aws S) m w name val of (e, w) \<Rightarrow> Some (e, d, w))"
| "manager_SetSecret M S d w name val (GcpManager m) = (case gcp_SetSecret (sv_gcp S) m w name val of (e, w) \<Rightarrow> Some (e, d, w))"

definition GetValidatorKey :: "machine \<Rightarrow> 'w services \<Rightarrow> SecretsManagerConfig \<Rightarrow> disk \<Rightarrow> 'w \<Rightarrow> bytes result option \<times> disk" where
  "GetValidatorKey M S config d w =
     (case CreateSecretsManager M S config d of
        (Inl err, d) \<Rightarrow> (Some (Inl err), d)
      | (Inr mngr, d) \<Rightarrow> (manager_GetSecret M S d w ValidatorKey mngr, d))"

section \<open>The key of the validator\<close>

text \<open>A setup adds directories and changes nothing that is there.\<close>

lemma make_dirs_keeps: "map_of d q = Some e \<Longrightarrow> map_of (snd (make_dirs M perms ps d)) q = Some e"
proof (induction ps arbitrary: d)
  case (Cons p ps)
  have "p \<noteq> q" if "\<not> dir_at d p" "\<not> file_at d p" using that Cons.prems by (auto simp: dir_at_def file_at_def)
  then have "\<not> dir_at d p \<Longrightarrow> \<not> file_at d p \<Longrightarrow> map_of (AList.update p x d) q = Some e" for x
    using Cons.prems by (simp add: update_conv')
  then show ?case using Cons by (auto split: option.splits)
qed simp

lemma CreateDir_keeps: "map_of d q = Some e \<Longrightarrow> map_of (snd (CreateDirSafe M path perms d)) q = Some e"
  using make_dirs_keeps by (auto simp: CreateDirSafe_def os_MkdirAll_def split: stat_result.splits)

lemma setup_paths_keeps: "map_of d q = Some e \<Longrightarrow> map_of (snd (setup_paths M dataDir paths perms d)) q = Some e"
proof (induction paths arbitrary: d)
  case (Cons path paths)
  obtain r d1 where c: "CreateDirSafe M (filepath_Join [dataDir, path]) perms d = (r, d1)" by fastforce
  then have "map_of d1 q = Some e" using CreateDir_keeps [OF Cons.prems, of M "filepath_Join [dataDir, path]" perms] by simp
  then show ?case using Cons.IH by (cases r) (simp_all add: c)
qed simp

lemma Factory_keeps:
  assumes "local_Factory M config d = (r, d')" "map_of d q = Some e"
  shows "map_of d' q = Some e"
proof -
  obtain r1 d1 where c: "CreateDirSafe M (cf_Path config) 0x1E8 d = (r1, d1)" by fastforce
  then have d1: "map_of d1 q = Some e" using CreateDir_keeps [OF assms(2), of M "cf_Path config" "0x1E8"] by simp
  then have "map_of (snd (SetupDataDir M (cf_Path config) [ConsensusFolderLocal, NetworkFolderLocal, CardanoFolderLocal, OtherFolderLocal] 0x1E8 d)) q = Some e"
    using setup_paths_keeps [OF d1] by (cases r1) (simp_all add: SetupDataDir_def c del: setup_paths.simps)
  then show ?thesis using assms
    by (auto simp: local_Factory_def local_Setup_def split: if_splits prod.splits option.splits)
qed

lemma validator_place: "\<exists>p. local_place (set_up base) ValidatorKey = Some p"
proof -
  have "handleCardanoSecretName ValidatorKey = (ValidatorKey, '''')" by (simp add: handleCardanoSecretName_def name_defs has_prefix_def)
  then have "local_place (set_up base) ValidatorKey = Some (clean (filepath_Join [filepath_Join [base, ConsensusFolderLocal, ValidatorKeyLocal], '''']))"
    by (simp add: local_place_def secret_file_def set_up_def name_defs)
  then show ?thesis by blast
qed

lemma local_validator_key:
  assumes "local_Factory M config d0 = (Inr m, d)" "local_SetSecret M m d ValidatorKey v = (None, d1)"
    "local_Factory M config d1 = (Inr m', d2)" "readable M"
  shows "local_GetSecret M m' d2 ValidatorKey = Inr v"
proof -
  note m = Factory_set_up [OF assms(1)] Factory_set_up [OF assms(3)]
  have ok: "local_ok M (cf_Path config) s" for s using assms(4) m by (simp add: local_ok_def)
  obtain p where p: "local_place (set_up (cf_Path config)) ValidatorKey = Some p" using validator_place by blast
  have "peek (local_GetSecret M (set_up (cf_Path config))) d1 ValidatorKey = Some v"
    using local.set_reads [OF ok p, where v = v and s = d and s' = d1] assms(2) m by simp
  then obtain e where "map_of d1 p = Some e" "\<not> IsDir e" "fe_data e = v"
    using m peek_place [OF assms(4) _ p, of d1] by (auto simp: value_at_def split: option.splits if_splits)
  then have "value_at d2 p = Some v" using Factory_keeps [OF assms(3)] by (simp add: value_at_def)
  then have "peek (local_GetSecret M m') d2 ValidatorKey = Some v" using m peek_place [OF assms(4) _ p, of d2] by simp
  then show ?thesis by (simp add: peek_def split: sum.splits)
qed

lemma ascii_name: "valid_utf8 ValidatorKey"
  by code_simp

text \<open>The call with which a manager asks its service for a secret, when it fails.\<close>

primrec manager_unread :: "'w services \<Rightarrow> 'w \<Rightarrow> string \<Rightarrow> manager \<Rightarrow> bool" where
  "manager_unread S w name (LocalManager m) = False"
| "manager_unread S w name (VaultManager m) = (\<exists>err. va_Read (sv_vault S) (the (vm_client m)) (vault_path m name) w = Inl err)"
| "manager_unread S w name (AwsManager m) = (\<exists>err. aw_GetParameter (sv_aws S) (aws_client_of m) (aws_path m name) True w = Inl err)"
| "manager_unread S w name (GcpManager m) = (\<exists>err. gc_AccessSecretVersion (sv_gcp S) (getFullyQualifiedSecretName m name) w = Inl err)"

definition found :: "'w services \<Rightarrow> 'w \<Rightarrow> manager \<Rightarrow> bytes \<Rightarrow> bytes result option \<Rightarrow> bool" where
  "found S w m v r \<longleftrightarrow> r = Some (Inr v) \<or> manager_unread S w ValidatorKey m \<and> (\<exists>err. r = Some (Inl err))"

lemma vault_key_found:
  assumes laws: "vault_lawful (sv_vault S) view" and v: "valid_utf8 (bytes_str v)"
    and stored: "vault_SetSecret (sv_vault S) vm w ValidatorKey v = Some (None, w1)"
  shows "found S w1 (VaultManager vm) v (vault_GetSecret (sv_vault S) vm w1 ValidatorKey)"
proof -
  obtain c where c: "vm_client vm = Some c" using stored by (auto simp: vault_SetSecret_def)
  have "vault_held view vm w1 ValidatorKey = Some v"
    using vault.set_reads [of "sv_vault S" view vm w ValidatorKey "vault_path vm ValidatorKey" v w1] laws v stored ascii_name c
    by (simp add: vault_ok_def vault_place_def)
  moreover have "x = Inr v" if "Some v = (case x of Inr y \<Rightarrow> Some y | Inl _ \<Rightarrow> None)" for x :: "bytes result"
    using that by (cases x) simp_all
  ultimately show ?thesis using vault_get_held [OF laws c, of ValidatorKey w1] by (auto simp: found_def c)
qed

lemma aws_key_found:
  assumes laws: "aws_lawful (sv_aws S) view" and v: "valid_utf8 (bytes_str v)"
    and stored: "aws_SetSecret (sv_aws S) a w ValidatorKey v = (None, w1)"
  shows "found S w1 (AwsManager a) v (Some (aws_GetSecret (sv_aws S) a w1 ValidatorKey))"
  using aws_get_held [OF laws, of a ValidatorKey w1] aws.set_reads [OF laws refl v stored] by (auto simp: found_def split: sum.splits)

lemma gcp_key_found:
  assumes laws: "gcp_lawful (sv_gcp S) canon view" and stored: "gcp_SetSecret (sv_gcp S) g w ValidatorKey v = (None, w1)"
  shows "found S w1 (GcpManager g) v (Some (gcp_GetSecret (sv_gcp S) g w1 ValidatorKey))"
  using gcp_get_held [OF laws, of g ValidatorKey w1] gcp.set_reads [OF laws refl TrueI stored] by (auto simp: found_def)

text \<open>
  C30. The key of the validator is found again: whatever manager the configuration chooses, when a key was
  stored without an error and the manager can be made again for the same configuration, \<open>GetValidatorKey\<close>
  returns exactly the key, and an error only when the service fails the call that reads it; with the local
  manager it never does. The services follow their documentation; a key for Vault or AWS is UTF-8 text, as
  they keep nothing else.
\<close>

theorem validator_key_found:
  assumes "CreateSecretsManager M S config d0 = (Inr m, d)" "manager_SetSecret M S d w ValidatorKey v m = Some (None, d1, w1)"
    "CreateSecretsManager M S config d1 = (Inr m', d2)" "readable M"
    "cf_Type config \<in> {HashicorpVault, AWSSSM} \<longrightarrow> valid_utf8 (bytes_str v)"
    "vault_lawful (sv_vault S) vview" "aws_lawful (sv_aws S) aview" "gcp_lawful (sv_gcp S) canon gview"
  shows "GetValidatorKey M S config d1 w1 = (Some (Inr v), d2) \<or>
    manager_unread S w1 ValidatorKey m' \<and> (\<exists>err. GetValidatorKey M S config d1 w1 = (Some (Inl err), d2))"
proof -
  consider "cf_Type config = HashicorpVault" | "cf_Type config = AWSSSM" | "cf_Type config = GCPSSM" | "cf_Type config = Local"
    using assms(1) by (auto simp: CreateSecretsManager_def split: if_splits)
  then have "found S w1 m' v (manager_GetSecret M S d2 w1 ValidatorKey m')"
  proof cases
    case 1
    then obtain vm where vm: "m = VaultManager vm" "m' = VaultManager vm"
      using assms(1,3) by (auto simp: CreateSecretsManager_def rbind_eq_Inr)
    from assms(2) have "vault_SetSecret (sv_vault S) vm w ValidatorKey v = Some (None, w1)" by (auto simp: vm(1))
    with 1 vault_key_found [OF assms(6)] assms(5) show ?thesis by (simp add: vm(2))
  next
    case 2
    then have t: "cf_Type config \<noteq> HashicorpVault" by (simp add: AWSSSM_def HashicorpVault_def)
    with 2 obtain a where a: "m = AwsManager a" "m' = AwsManager a" using assms(1,3) by (auto simp: CreateSecretsManager_def rbind_eq_Inr)
    from assms(2) have "aws_SetSecret (sv_aws S) a w ValidatorKey v = (None, w1)" by (auto simp: a(1) split: prod.splits)
    with 2 aws_key_found [OF assms(7)] assms(5) show ?thesis by (simp add: a(2))
  next
    case 3
    then have t: "cf_Type config \<noteq> HashicorpVault" "cf_Type config \<noteq> AWSSSM" by (simp_all add: GCPSSM_def AWSSSM_def HashicorpVault_def)
    with 3 obtain g where g: "m = GcpManager g" "m' = GcpManager g" using assms(1,3) by (auto simp: CreateSecretsManager_def rbind_eq_Inr)
    from assms(2) have "gcp_SetSecret (sv_gcp S) g w ValidatorKey v = (None, w1)" by (auto simp: g(1) split: prod.splits)
    with gcp_key_found [OF assms(8)] show ?thesis by (simp add: g(2))
  next
    case 4
    then have t: "cf_Type config \<noteq> HashicorpVault" "cf_Type config \<noteq> AWSSSM" "cf_Type config \<noteq> GCPSSM"
      by (simp_all add: GCPSSM_def AWSSSM_def HashicorpVault_def Local_def)
    with 4 obtain l l' where l: "local_Factory M config d0 = (Inr l, d)" "m = LocalManager l" "local_Factory M config d1 = (Inr l', d2)" "m' = LocalManager l'"
      using assms(1,3) by (auto simp: CreateSecretsManager_def rbind_eq_Inr split: prod.splits)
    from assms(2) have "local_SetSecret M l d ValidatorKey v = (None, d1)" by (auto simp: l(2) split: prod.splits)
    from local_validator_key [OF l(1) this l(3) assms(4)] show ?thesis by (simp add: l(4) found_def)
  qed
  then show ?thesis by (simp add: GetValidatorKey_def assms(3) found_def)
qed

section \<open>Google Cloud\<close>

text \<open>
  The manager of Google Cloud never removes a secret: it asks to delete the name of a version, which is no
  name of a secret, so the call fails and every secret is still there.
\<close>

theorem gcp_never_removes:
  assumes "gcp_lawful G canon view"
  shows "\<exists>err w'. gcp_RemoveSecret G gm w n = (Some err, w') \<and> view w' = view w"
  using gcp_remove_refused [OF assms, of gm w n] by (cases "gcp_RemoveSecret G gm w n") auto

lemma placeholder_stays:
  assumes "gcp_lawful G canon view" "view w (gcp_name canon gm n) = Some []"
  shows "view (do_all (gcp_SetSecret G gm) (gcp_RemoveSecret G gm) ops w) (gcp_name canon gm n) = Some []"
  using assms(2)
proof (induction ops arbitrary: w)
  case (Cons op ops)
  have "view (snd (do_op (gcp_SetSecret G gm) (gcp_RemoveSecret G gm) op w)) (gcp_name canon gm n) = Some []"
  proof (cases op)
    case (SetOp m x)
    then show ?thesis
      by (cases rule: gcp_set_cases [OF assms(1), of gm w m x]) (use Cons.prems in auto)
  next
    case (RemoveOp m)
    then show ?thesis using gcp_remove_refused [OF assms(1), of gm w m] Cons.prems by auto
  qed
  from Cons.IH [OF this] show ?case by (simp add: do_all_def)
qed (simp add: do_all_def)

text \<open>
  A write that failed half way takes the name for ever: the placeholder it made is never filled and never
  removed, so whatever the manager does afterwards, the secret is not read and every attempt to store it fails.
\<close>

theorem gcp_half_write_blocks:
  assumes "gcp_lawful G canon view" "gcp_SetSecret G gm w n x = (Some err, w1)" "view w1 \<noteq> view w"
    "w2 = do_all (gcp_SetSecret G gm) (gcp_RemoveSecret G gm) ops w1"
  shows "peek (gcp_GetSecret G gm) w2 n = None \<and> fst (gcp_SetSecret G gm w2 n y) \<noteq> None"
proof -
  have "view w1 (gcp_name canon gm n) = Some []"
    by (cases rule: gcp_set_cases [OF assms(1), of gm w n x]) (use assms(2,3) in auto)
  from placeholder_stays [OF assms(1) this, of ops] have w2: "view w2 (gcp_name canon gm n) = Some []" by (simp add: assms(4))
  then have "gcp_held canon view gm w2 n = None" by (simp add: gcp_held_def)
  with gcp_get_held [OF assms(1), of gm n w2] have "peek (gcp_GetSecret G gm) w2 n = None" by (auto simp: peek_def)
  moreover have "fst (gcp_SetSecret G gm w2 n y) \<noteq> None"
    by (cases rule: gcp_set_cases [OF assms(1), of gm w2 n y]) (use w2 in auto)
  ultimately show ?thesis by simp
qed

section \<open>Instances\<close>

text \<open>
  Services that follow the laws: a Vault that keeps its texts as UTF-8, a parameter store out of reach, and a
  secret manager that refuses an empty payload.
\<close>

type_synonym demo_world = "(string \<Rightarrow> (string \<times> json) list option) \<times> (string \<Rightarrow> bytes list option)"

fun json_clean :: "json \<Rightarrow> json" where
  "json_clean (JStr s) = JStr (utf8_sanitize s)"
| "json_clean (JObj fs) = JObj (map (\<lambda>(n, j). (utf8_sanitize n, case j of JStr s \<Rightarrow> JStr (utf8_sanitize s) | _ \<Rightarrow> j)) fs)"
| "json_clean j = j"

definition demo_vault :: "demo_world vault_api" where
  "demo_vault = \<lparr>va_NewClient = \<lambda>url. None, va_Read = \<lambda>c p w. Inr (fst w p),
     va_Write = \<lambda>c p Data w. (None, (fst w)(p \<mapsto> map (apsnd json_clean) Data), snd w),
     va_Delete = \<lambda>c p w. (None, (fst w)(p := None), snd w)\<rparr>"

definition demo_aws :: "demo_world aws_api" where
  "demo_aws = \<lparr>aw_fmt = \<lambda>verb j. '''', aw_NewSession = \<lambda>c. None, aw_GetParameter = \<lambda>c n dec w. Inl (ErrMsg ''unreachable''),
     aw_PutParameter = \<lambda>c n v t over w. (Some (ErrMsg ''unreachable''), w), aw_DeleteParameter = \<lambda>c n w. (Some (ErrMsg ''unreachable''), w)\<rparr>"

definition demo_view :: "demo_world \<Rightarrow> string \<Rightarrow> bytes list option" where
  "demo_view w n = (if slashes n = 3 then snd w n else None)"

definition demo_gcp :: "demo_world gcp_api" where
  "demo_gcp = \<lparr>gc_fmt = \<lambda>j. '''', gc_Setenv = \<lambda>k v. None, gc_NewClient = None,
     gc_AccessSecretVersion = \<lambda>n w. (case demo_view w (take (length n - 11) n) of
       Some (v # _) \<Rightarrow> Inr v | _ \<Rightarrow> Inl (ErrMsg ''not found'')),
     gc_CreateSecret = \<lambda>parent ident w. let n = parent @ ''/secrets/'' @ ident in
       if slashes n = 3 \<and> snd w n = None then (Inr n, fst w, (snd w)(n \<mapsto> [])) else (Inl (ErrMsg ''exists''), w),
     gc_AddSecretVersion = \<lambda>n v w. (case demo_view w n of
       Some vs \<Rightarrow> if v = [] then (Some (ErrMsg ''empty payload''), w) else (None, fst w, (snd w)(n \<mapsto> vs @ [v]))
     | None \<Rightarrow> (Some (ErrMsg ''not found''), w)),
     gc_DeleteSecret = \<lambda>n w. if demo_view w n = None then (Some (ErrMsg ''not found''), w) else (None, fst w, (snd w)(n := None))\<rparr>"

definition demo_services :: "demo_world services" where
  "demo_services = \<lparr>sv_vault = demo_vault, sv_aws = demo_aws, sv_gcp = demo_gcp\<rparr>"

lemma demo_services_sel [simp]: "sv_vault demo_services = demo_vault" "sv_aws demo_services = demo_aws" "sv_gcp demo_services = demo_gcp"
  by (simp_all add: demo_services_def)

definition demo_vault_view :: "demo_world vault_view" where
  "demo_vault_view c path w = fst w path"

lemma demo_vault_lawful: "vault_lawful demo_vault demo_vault_view"
  by (simp add: vault_lawful_def demo_vault_def demo_vault_view_def)

lemma demo_aws_lawful: "aws_lawful demo_aws (\<lambda>c w n. None)"
  by (simp add: aws_lawful_def demo_aws_def)

lemma demo_gcp_lawful: "gcp_lawful demo_gcp (\<lambda>n. n) demo_view"
proof -
  have access: "gc_AccessSecretVersion demo_gcp (n @ ''/versions/1'') w = Inr v \<longrightarrow> (\<exists>vs. demo_view w n = Some (v # vs))" for w n v
    by (simp add: demo_gcp_def split: option.splits list.splits)
  have create: "let n = parent @ ''/secrets/'' @ ident in case gc_CreateSecret demo_gcp parent ident w of
        (Inl e, w') \<Rightarrow> demo_view w' = demo_view w \<or> demo_view w n = None \<and> demo_view w' = (demo_view w)(n \<mapsto> [])
      | (Inr made, w') \<Rightarrow> made = n \<and> demo_view w n = None \<and> demo_view w' = (demo_view w)(n \<mapsto> [])" for parent ident w
    by (simp add: demo_gcp_def Let_def demo_view_def fun_eq_iff)
  have add: "case gc_AddSecretVersion demo_gcp n v w of (Some e, w') \<Rightarrow> demo_view w' = demo_view w
      | (None, w') \<Rightarrow> demo_view w n \<noteq> None \<and> demo_view w' = (demo_view w)(n \<mapsto> the (demo_view w n) @ [v])" for n v w
    by (simp add: demo_gcp_def demo_view_def fun_eq_iff split: option.splits)
  have delete: "case gc_DeleteSecret demo_gcp n w of (Some e, w') \<Rightarrow> demo_view w' = demo_view w
      | (None, w') \<Rightarrow> demo_view w n \<noteq> None \<and> demo_view w' = (demo_view w)(n := None)" for n w
    by (simp add: demo_gcp_def demo_view_def fun_eq_iff)
  have parts: "demo_view w n \<noteq> None \<longrightarrow> slashes n = 3" for w n by (simp add: demo_view_def)
  have inj: "parent @ ''/secrets/'' @ x = parent @ ''/secrets/'' @ y \<longrightarrow> x = y" for parent x y :: string by simp
  show ?thesis unfolding gcp_lawful_def
    by (intro conjI allI) (rule refl, rule inj, rule parts, rule access, rule create, rule add, rule delete)
qed

definition vault_config :: SecretsManagerConfig where
  "vault_config = \<lparr>cf_Token = ''t'', cf_ServerURL = ''u'', cf_Type = HashicorpVault, cf_Name = ''n'', cf_Namespace = '''', cf_Path = '''',
     cf_Extra = None\<rparr>"

definition vault_demo :: VaultSecretsManager where
  "vault_demo = \<lparr>vm_token = ''t'', vm_serverURL = ''u'', vm_name = ''n'', vm_basePath = ''secret/data/n'',
     vm_client = Some (''u'', ''t'', ''''), vm_namespace = ''''\<rparr>"

definition demo_stored :: demo_world where
  "demo_stored = ((\<lambda>n. None)(vault_path vault_demo ValidatorKey \<mapsto> [(''data'', JObj [(utf8_sanitize ValidatorKey, JStr (utf8_sanitize ''k''))])]), \<lambda>n. None)"

lemma vault_demo_made: "CreateSecretsManager demo_machine demo_services vault_config d = (Inr (VaultManager vault_demo), d)"
  by (simp add: CreateSecretsManager_def vault_config_def vault_Factory_def vault_Setup_def demo_vault_def vault_demo_def)

lemma vault_demo_sets: "manager_SetSecret demo_machine demo_services d (\<lambda>n. None, \<lambda>n. None) ValidatorKey (str_bytes ''k'') (VaultManager vault_demo) =
  Some (None, d, demo_stored)"
  by (simp add: vault_SetSecret_def demo_vault_def demo_stored_def vault_demo_def)

theorem validator_key_found_witness:
  "GetValidatorKey demo_machine demo_services vault_config [] demo_stored = (Some (Inr (str_bytes ''k'')), [])"
proof -
  have "cf_Type vault_config \<in> {HashicorpVault, AWSSSM} \<longrightarrow> valid_utf8 (bytes_str (str_bytes ''k''))" by code_simp
  moreover have "vault_lawful (sv_vault demo_services) demo_vault_view" "aws_lawful (sv_aws demo_services) (\<lambda>c w n. None)"
    "gcp_lawful (sv_gcp demo_services) (\<lambda>n. n) demo_view"
    by (simp_all add: demo_vault_lawful demo_aws_lawful demo_gcp_lawful)
  moreover have "\<not> manager_unread demo_services demo_stored ValidatorKey (VaultManager vault_demo)" by (simp add: demo_vault_def)
  ultimately show ?thesis
    using validator_key_found [OF vault_demo_made vault_demo_sets vault_demo_made demo_readable] by blast
qed

definition demo_gm :: GCPSecretsManager where
  "demo_gm = \<lparr>gm_projectID = ''p'', gm_credFilePath = ''c'', gm_nodeName = ''n''\<rparr>"

theorem gcp_never_removes_witness:
  "\<exists>err w'. gcp_RemoveSecret demo_gcp demo_gm (\<lambda>n. None, (\<lambda>n. None)(''projects/p/secrets/n_k'' \<mapsto> [[1]])) ''k'' = (Some err, w') \<and>
     demo_view w' ''projects/p/secrets/n_k'' = Some [[1]]"
proof -
  let ?w = "(\<lambda>n. None, (\<lambda>n. None)(''projects/p/secrets/n_k'' \<mapsto> [[1]])) :: demo_world"
  have "demo_view ?w ''projects/p/secrets/n_k'' = Some [[1]]" by (simp add: demo_view_def slashes_def)
  then show ?thesis using gcp_never_removes [OF demo_gcp_lawful, of demo_gm ?w "''k''"] by auto
qed

theorem gcp_half_write_blocks_witness:
  "\<exists>err w1. gcp_SetSecret demo_gcp demo_gm (\<lambda>n. None, \<lambda>n. None) ''k'' [] = (Some err, w1) \<and>
     fst (gcp_SetSecret demo_gcp demo_gm (do_all (gcp_SetSecret demo_gcp demo_gm) (gcp_RemoveSecret demo_gcp demo_gm) [RemoveOp ''k''] w1) ''k'' [1]) \<noteq> None"
proof -
  define w1 :: demo_world where "w1 = (\<lambda>n. None, (\<lambda>n. None)(''projects/p/secrets/n_k'' \<mapsto> []))"
  have set_fails: "\<exists>err. gcp_SetSecret demo_gcp demo_gm (\<lambda>n. None, \<lambda>n. None) ''k'' [] = (Some err, w1)"
    by (simp add: gcp_SetSecret_def demo_gcp_def demo_gm_def Let_def demo_view_def getSecretID_def slashes_def w1_def)
  then obtain err where e: "gcp_SetSecret demo_gcp demo_gm (\<lambda>n. None, \<lambda>n. None) ''k'' [] = (Some err, w1)" by blast
  have "demo_view w1 ''projects/p/secrets/n_k'' \<noteq> demo_view (\<lambda>n. None, \<lambda>n. None) ''projects/p/secrets/n_k''"
    by (simp add: demo_view_def w1_def slashes_def)
  then have "demo_view w1 \<noteq> demo_view (\<lambda>n. None, \<lambda>n. None)" by metis
  from gcp_half_write_blocks [OF demo_gcp_lawful e this refl, of "[RemoveOp ''k'']" "[1]"] e show ?thesis by blast
qed

end
