(* ===== verification/Logger.thy ===== *)
theory Logger
  imports Safe_Files
begin

text \<open>
  Where the loggers write (\<open>logger/logger.go\<close>, \<open>logger/logger_container.go\<close>): the directory and the name of
  the file of a logger, and the container that makes one logger per name. The logging library is left out: a
  logger is the options it is made with.
\<close>

section \<open>Files\<close>

text \<open>\<open>filepath.Dir\<close> and \<open>filepath.Base\<close>.\<close>

definition filepath_Dir :: "string \<Rightarrow> string" where
  "filepath_Dir path = filepath_Clean (rev (dropWhile (\<lambda>c. c \<noteq> CHR ''/'') (rev path)))"

definition filepath_Base :: "string \<Rightarrow> string" where
  "filepath_Base path =
     (if path = '''' then ''.''
      else let path = rev (dropWhile (\<lambda>c. c = CHR ''/'') (rev path));
               base = rev (takeWhile (\<lambda>c. c \<noteq> CHR ''/'') (rev path))
           in if base = '''' then ''/'' else base)"

text \<open>Opening to append; the file that is opened is its name.\<close>

definition os_OpenAppend :: "machine \<Rightarrow> string \<Rightarrow> u32 \<Rightarrow> disk \<Rightarrow> string result \<times> disk" where
  "os_OpenAppend M path perms d =
     (let p = clean path in
      if path = '''' \<or> \<not> list_all (dir_at d) (parents p)
      then (Inl (path_error ''open'' path ''no such file or directory''), d)
      else if dir_at d p then (Inl (path_error ''open'' path ''is a directory''), d)
      else case sy_fault M ''open'' p of
        Some err \<Rightarrow> (Inl err, d)
      | None \<Rightarrow> (Inr path, if map_of d p = None then AList.update p (owned M (masked M perms) []) d else d))"

section \<open>Loggers\<close>

record RotatingLoggerConfig =
  rl_MaxSizeInMB :: int
  rl_MaxBackups :: int
  rl_MaxAgeInDays :: int
  rl_Compress :: bool

record LoggerConfig =
  lg_RotatingLogsEnabled :: bool
  lg_RotatingLogerConfig :: RotatingLoggerConfig
  lg_LogLevel :: int
  lg_JSONLogFormat :: bool
  lg_AppendFile :: bool
  lg_LogFilePath :: string
  lg_Name :: string

text \<open>
  What a logger writes to: a file, which may be the nil pointer, or the rotating writer. An interface that
  holds the nil pointer is not nil, so the library does not fall back to its default output.
\<close>

datatype log_output = OsFile "string option" | Rotating string RotatingLoggerConfig

record LoggerOptions =
  lo_Name :: string
  lo_Level :: int
  lo_Output :: log_output
  lo_JSONFormat :: bool

text \<open>
  The time of a new file is a text \<open>now\<close> in the format of RFC 3339; \<open>SplitN\<close> with two parts cuts at the first
  dot.
\<close>

definition time_suffix :: "string \<Rightarrow> string" where
  "time_suffix now = map (\<lambda>c. if c = CHR '':'' \<or> c = CHR ''-'' then CHR ''_'' else c) now"

definition stamped_name :: "string \<Rightarrow> string \<Rightarrow> string" where
  "stamped_name logFileName suffix =
     (case index_byte logFileName (CHR ''.'') of
        None \<Rightarrow> logFileName @ ''_'' @ suffix
      | Some i \<Rightarrow> take i logFileName @ ''_'' @ suffix @ ''.'' @ drop (Suc i) logFileName)"

definition getLogFileWriter :: "machine \<Rightarrow> string \<Rightarrow> LoggerConfig \<Rightarrow> disk \<Rightarrow> string option result \<times> disk" where
  "getLogFileWriter M now config d =
     (let logFilePath = trim_chars (\<lambda>c. c = CHR '' '') (lg_LogFilePath config) in
      if logFilePath = '''' then (Inr None, d)
      else let logFileDirectory = filepath_Dir logFilePath in
      case CreateDirSafe M logFileDirectory 0x1F8 d of
        (Some err, d) \<Rightarrow> (Inl err, d)
      | (None, d) \<Rightarrow>
          let logFilePath = (if lg_AppendFile config then logFilePath
            else filepath_Join [logFileDirectory, stamped_name (filepath_Base logFilePath) (time_suffix now)]) in
          (case os_OpenAppend M logFilePath 0x1B0 d of (r, d) \<Rightarrow> (rbind r (\<lambda>f. Inr (Some f)), d)))"

definition newRotatingLogger :: "machine \<Rightarrow> LoggerConfig \<Rightarrow> disk \<Rightarrow> LoggerOptions result \<times> disk" where
  "newRotatingLogger M config d =
     (let logFilePath = trim_chars (\<lambda>c. c = CHR '' '') (lg_LogFilePath config) in
      if logFilePath = '''' then (Inl (ErrMsg ''log file path not specified''), d)
      else case CreateDirSafe M (filepath_Dir logFilePath) 0x1F8 d of
        (Some err, d) \<Rightarrow> (Inl err, d)
      | (None, d) \<Rightarrow> (Inr \<lparr>lo_Name = lg_Name config, lo_Level = lg_LogLevel config,
          lo_Output = Rotating logFilePath (lg_RotatingLogerConfig config), lo_JSONFormat = lg_JSONLogFormat config\<rparr>, d))"

definition NewLogger :: "machine \<Rightarrow> string \<Rightarrow> LoggerConfig \<Rightarrow> disk \<Rightarrow> LoggerOptions result \<times> disk" where
  "NewLogger M now config d =
     (if lg_RotatingLogsEnabled config then newRotatingLogger M config d
      else case getLogFileWriter M now config d of
        (Inl err, d) \<Rightarrow> (Inl (ErrWrap ''could not create or open log file: '' err ''''), d)
      | (Inr f, d) \<Rightarrow> (Inr \<lparr>lo_Name = lg_Name config, lo_Level = lg_LogLevel config, lo_Output = OsFile f,
          lo_JSONFormat = lg_JSONLogFormat config\<rparr>, d))"

section \<open>The container\<close>

record LoggerContainerImpl =
  lc_loggers :: "string \<Rightarrow> LoggerOptions option"
  lc_config :: LoggerConfig

definition NewLoggerContainer :: "LoggerConfig \<Rightarrow> LoggerContainerImpl" where
  "NewLoggerContainer config = \<lparr>lc_loggers = Map.empty, lc_config = config\<rparr>"

definition named_config :: "LoggerConfig \<Rightarrow> string \<Rightarrow> LoggerConfig" where
  "named_config nc s = (if lg_LogFilePath nc \<noteq> ''''
     then nc\<lparr>lg_LogFilePath := filepath_Join [lg_LogFilePath nc, s @ ''.log'']\<rparr> else nc)"

definition GetLogger :: "machine \<Rightarrow> string \<Rightarrow> LoggerContainerImpl \<Rightarrow> string \<Rightarrow> disk \<Rightarrow> LoggerOptions result \<times> LoggerContainerImpl \<times> disk" where
  "GetLogger M now l s d =
     (case lc_loggers l s of
        Some logger \<Rightarrow> (Inr logger, l, d)
      | None \<Rightarrow>
          (case NewLogger M now (named_config (lc_config l) s) d of
             (Inl err, d) \<Rightarrow> (Inl err, l, d)
           | (Inr newLogger, d) \<Rightarrow> (Inr newLogger, l\<lparr>lc_loggers := (lc_loggers l)(s \<mapsto> newLogger)\<rparr>, d)))"

text \<open>The container without loggers; its logger drops everything.\<close>

datatype null_logger = NullLogger

definition null_GetLogger :: "string \<Rightarrow> null_logger result" where
  "null_GetLogger s = Inr NullLogger"

text \<open>A series of calls, each at its time.\<close>

fun get_loggers :: "machine \<Rightarrow> (string \<times> string) list \<Rightarrow> LoggerContainerImpl \<Rightarrow> disk \<Rightarrow> LoggerContainerImpl \<times> disk" where
  "get_loggers M [] l d = (l, d)"
| "get_loggers M ((now, s) # calls) l d = (case GetLogger M now l s d of (_, l, d) \<Rightarrow> get_loggers M calls l d)"

section \<open>Names of files\<close>

text \<open>The directory and the name of a rooted path.\<close>

lemma join_comps_snoc: "join_comps (cs @ [n]) = (if cs = [] then n else join_comps cs @ ''/'' @ n)"
  by (induction cs rule: join_comps.induct) simp_all

lemma rooted_text: "path_text (True, cs @ [n]) = (if cs = [] then ''/'' else path_text (True, cs) @ ''/'') @ n"
  by (simp add: join_comps_snoc)

lemma after_slash:
  assumes "CHR ''/'' \<notin> set n"
  shows "dropWhile (\<lambda>c. c \<noteq> CHR ''/'') (rev n @ CHR ''/'' # y) = CHR ''/'' # y"
    "takeWhile (\<lambda>c. c \<noteq> CHR ''/'') (rev n @ CHR ''/'' # y) = rev n"
  using assms by (induction n rule: rev_induct) auto

lemma file_of_path:
  assumes "normal (True, cs @ [n])" "plain_comp n"
  shows "clean (filepath_Dir (path_text (True, cs @ [n]))) = (True, cs) \<and> filepath_Base (path_text (True, cs @ [n])) = n \<and>
    filepath_Dir (path_text (True, cs @ [n])) \<noteq> ''''"
proof -
  have n: "CHR ''/'' \<notin> set n" "n \<noteq> ''''" using assms(2) by (simp_all add: plain_comp_def)
  define t where "t = (if cs = [] then '''' else path_text (True, cs))"
  have path: "path_text (True, cs @ [n]) = (t @ ''/'') @ n" by (simp only: rooted_text t_def) simp
  have cs: "normal (True, cs)"
    using assms(1) unfolding normal_def by (auto simp: append_eq_append_conv2 intro: exI [of _ 0])
  then have "clean (t @ ''/'') = (True, cs)"
    using clean_below [of "(True, cs)" "''''"] by (auto simp: t_def clean_def Let_def has_prefix_def clean_step_def)
  moreover have "dropWhile (\<lambda>c. c = CHR ''/'') (rev ((t @ ''/'') @ n)) = rev ((t @ ''/'') @ n)"
    using n by (cases n rule: rev_cases) auto
  ultimately show ?thesis
    using after_slash [OF n(1), of "rev t"] n(2) clean_path_text [OF cs] path_text_nonempty [OF cs]
    unfolding path filepath_Dir_def filepath_Base_def by (simp add: filepath_Clean_def del: path_text.simps)
qed

text \<open>A stamped name tells the name it was made from, as the stamps have one length and no dots.\<close>

lemma index_byte_split:
  "c \<in> set s \<Longrightarrow> \<exists>a b. s = a @ c # b \<and> c \<notin> set a \<and> index_byte s c = Some (length a)"
proof (induction s)
  case (Cons x s)
  show ?case
  proof (cases "x = c")
    case True
    then have "x # s = [] @ c # s" "index_byte (x # s) c = Some (length [])" by simp_all
    then show ?thesis by (metis empty_iff empty_set)
  next
    case False
    with Cons obtain a b where "s = a @ c # b" "c \<notin> set a" "index_byte s c = Some (length a)" by auto
    with False have "x # s = (x # a) @ c # b" "c \<notin> set (x # a)" "index_byte (x # s) c = Some (length (x # a))" by simp_all
    then show ?thesis by blast
  qed
qed simp

lemma stamped_name_inject:
  assumes "stamped_name n u = stamped_name m v" "length u = length v" "CHR ''.'' \<in> set n" "CHR ''.'' \<in> set m"
    "CHR ''.'' \<notin> set u" "CHR ''.'' \<notin> set v"
  shows "n = m"
proof -
  obtain a b where n: "n = a @ CHR ''.'' # b" "CHR ''.'' \<notin> set a" "index_byte n (CHR ''.'') = Some (length a)"
    using index_byte_split [OF assms(3)] by blast
  obtain a' b' where m: "m = a' @ CHR ''.'' # b'" "CHR ''.'' \<notin> set a'" "index_byte m (CHR ''.'') = Some (length a')"
    using index_byte_split [OF assms(4)] by blast
  have eq: "(a @ CHR ''_'' # u) @ CHR ''.'' # b = (a' @ CHR ''_'' # v) @ CHR ''.'' # b'"
    using assms(1) n(3) m(3) by (simp add: stamped_name_def) (simp add: n(1) m(1))
  have first: "takeWhile (\<lambda>c. c \<noteq> CHR ''.'') (x @ CHR ''.'' # y) = x" if "CHR ''.'' \<notin> set x" for x y
    using that by (subst takeWhile_append2) auto
  have "CHR ''.'' \<notin> set (a @ CHR ''_'' # u)" "CHR ''.'' \<notin> set (a' @ CHR ''_'' # v)" using n(2) m(2) assms(5,6) by simp_all
  from first [OF this(1), of b] first [OF this(2), of b'] have "a @ CHR ''_'' # u = a' @ CHR ''_'' # v" unfolding eq by (rule trans [OF sym])
  with eq assms(2) show ?thesis by (simp add: n(1) m(1))
qed

section \<open>Every logger has its own file\<close>

definition log_file :: "LoggerOptions \<Rightarrow> clean_path option" where
  "log_file a = map_option clean (case lo_Output a of OsFile f \<Rightarrow> f | Rotating f _ \<Rightarrow> Some f)"

definition log_name :: "LoggerConfig \<Rightarrow> string \<Rightarrow> string \<Rightarrow> string" where
  "log_name config now s = (if lg_RotatingLogsEnabled config \<or> lg_AppendFile config then s @ ''.log''
     else stamped_name (s @ ''.log'') (time_suffix now))"

lemma trim_path: "trim_chars (\<lambda>c. c = CHR '' '') (CHR ''/'' # t @ s @ ''.log'') = CHR ''/'' # t @ s @ ''.log''"
  by (simp add: trim_chars_def)

lemma plain_log: "CHR ''/'' \<notin> set s \<Longrightarrow> plain_comp (s @ ''.log'')"
  by (cases s) (auto simp: plain_comp_def)

lemma plain_stamped:
  assumes "CHR ''/'' \<notin> set s" "CHR ''/'' \<notin> set now"
  shows "plain_comp (stamped_name (s @ ''.log'') (time_suffix now))"
proof -
  obtain a b where s: "s @ ''.log'' = a @ CHR ''.'' # b" "index_byte (s @ ''.log'') (CHR ''.'') = Some (length a)"
    using index_byte_split [of "CHR ''.''" "s @ ''.log''"] by auto
  have "CHR ''/'' \<notin> set (a @ CHR ''.'' # b)" unfolding s(1) [symmetric] using assms(1) by simp
  moreover have "CHR ''/'' \<notin> set (time_suffix now)" using assms(2) by (auto simp: time_suffix_def)
  moreover have "CHR ''_'' \<in> set (a @ ''_'' @ u)" for u by simp
  moreover have "stamped_name (s @ ''.log'') u = a @ ''_'' @ u @ ''.'' @ b" for u
    unfolding stamped_name_def s(2) by (simp add: s(1))
  ultimately show ?thesis by (cases a) (auto simp: plain_comp_def)
qed

lemma Join_text: "filepath_Join [base, n] = path_text (clean (filepath_Join [base, n]))" if "base \<noteq> ''''"
proof -
  have "filepath_Join [base, n] = filepath_Clean (base @ ''/'' @ n)" using that by (simp add: filepath_Join_def)
  then show ?thesis by (metis clean_Clean filepath_Clean_def)
qed

lemma NewLogger_file:
  assumes "has_prefix (lg_LogFilePath config) ''/''" "CHR ''/'' \<notin> set s" "CHR ''/'' \<notin> set now"
    "NewLogger M now (named_config config s) d = (Inr a, d')"
  shows "log_file a = Some (True, snd (clean (lg_LogFilePath config)) @ [log_name config now s])"
proof -
  let ?base = "lg_LogFilePath config" and ?n = "s @ ''.log''"
  have base: "?base \<noteq> ''''" "fst (clean ?base) = True" using assms(1) by (auto simp: has_prefix_def clean_def Let_def)
  obtain cs where cs: "clean ?base = (True, cs)" using base(2) by (cases "clean ?base") simp
  define P where "P = filepath_Join [?base, ?n]"
  have cl: "clean P = (True, cs @ [?n])" using clean_Join_name [OF base(1) plain_log [OF assms(2)]] by (simp add: P_def cs)
  then have P: "P = path_text (True, cs @ [?n])" using Join_text [OF base(1), of ?n] by (simp add: P_def)
  have nm: "normal (True, cs @ [?n])" using clean_normal [of P] by (simp only: cl)
  note parts = file_of_path [OF nm plain_log [OF assms(2)], folded P]
  have "\<exists>t. P = CHR ''/'' # t @ ?n" unfolding P rooted_text by auto
  then have trim: "trim_chars (\<lambda>c. c = CHR '' '') P = P" "P \<noteq> ''''" using trim_path by auto
  have nc: "named_config config s = config\<lparr>lg_LogFilePath := P\<rparr>" using base(1) by (simp add: named_config_def P_def)
  have new: "clean (filepath_Join [filepath_Dir P, stamped_name ?n (time_suffix now)]) = (True, cs @ [stamped_name ?n (time_suffix now)])"
    using clean_Join_name [OF _ plain_stamped [OF assms(2,3)]] parts by simp
  show ?thesis
    using assms(4) trim parts new cl
    by (auto simp: NewLogger_def newRotatingLogger_def getLogFileWriter_def nc log_file_def log_name_def Let_def os_OpenAppend_def cs
      rbind_eq_Inr split: prod.splits option.splits if_splits sum.splits)
qed

text \<open>What holds of a container whose names and times have been good.\<close>

definition good_call :: "nat \<Rightarrow> string \<times> string \<Rightarrow> bool" where
  "good_call k = (\<lambda>(now, s). length now = k \<and> CHR ''.'' \<notin> set now \<and> CHR ''/'' \<notin> set now \<and> CHR ''/'' \<notin> set s)"

definition apart :: "nat \<Rightarrow> LoggerConfig \<Rightarrow> LoggerContainerImpl \<Rightarrow> bool" where
  "apart k config l \<longleftrightarrow> lc_config l = config \<and> (\<forall>s a. lc_loggers l s = Some a \<longrightarrow> (\<exists>now. good_call k (now, s) \<and>
     log_file a = Some (True, snd (clean (lg_LogFilePath config)) @ [log_name config now s])))"

lemma GetLogger_apart:
  assumes "has_prefix (lg_LogFilePath config) ''/''" "apart k config l" "good_call k (now, s)" "GetLogger M now l s d = (r, l', d')"
  shows "apart k config l' \<and> (\<forall>t a. lc_loggers l t = Some a \<longrightarrow> lc_loggers l' t = Some a)"
proof (cases "lc_loggers l s")
  case None
  obtain r1 d1 where n: "NewLogger M now (named_config (lc_config l) s) d = (r1, d1)" by fastforce
  have c: "lc_config l = config" using assms(2) by (simp add: apart_def)
  show ?thesis
  proof (cases r1)
    case (Inr a)
    then have "log_file a = Some (True, snd (clean (lg_LogFilePath config)) @ [log_name config now s])"
      using NewLogger_file [OF assms(1) _ _ n [unfolded c Inr]] assms(3) by (simp add: good_call_def)
    then show ?thesis using assms(2-4) None n Inr by (auto simp: GetLogger_def apart_def split: if_splits)
  qed (use assms None n in \<open>auto simp: GetLogger_def\<close>)
qed (use assms in \<open>auto simp: GetLogger_def\<close>)

lemma get_loggers_apart:
  assumes "has_prefix (lg_LogFilePath config) ''/''" "apart k config l" "\<forall>c \<in> set calls. good_call k c" "get_loggers M calls l d = (l', d')"
  shows "apart k config l' \<and> (\<forall>t a. lc_loggers l t = Some a \<longrightarrow> lc_loggers l' t = Some a)"
  using assms(2-4)
proof (induction calls arbitrary: l d)
  case (Cons c calls)
  obtain now s where c: "c = (now, s)" by (cases c)
  obtain r l1 d1 where g: "GetLogger M now l s d = (r, l1, d1)" by (metis surj_pair)
  have "good_call k (now, s)" using Cons.prems(2) c by simp
  note one = GetLogger_apart [OF assms(1) Cons.prems(1) this g]
  have "get_loggers M calls l1 d1 = (l', d')" using Cons.prems(3) by (simp add: c g)
  from Cons.IH [OF one [THEN conjunct1] _ this] Cons.prems(2) one show ?case by simp
qed simp

lemma log_name_inject:
  assumes "log_name config now s = log_name config now' t" "good_call k (now, s)" "good_call k (now', t)"
  shows "s = t"
proof (cases "lg_RotatingLogsEnabled config \<or> lg_AppendFile config")
  case True
  then have "s @ ''.log'' = t @ ''.log''" using assms(1) by (simp only: log_name_def if_True)
  then show ?thesis by simp
next
  case False
  then have eq: "stamped_name (s @ ''.log'') (time_suffix now) = stamped_name (t @ ''.log'') (time_suffix now')"
    using assms(1) by (simp only: log_name_def if_False)
  have dot: "CHR ''.'' \<in> set (x @ ''.log'')" for x by simp
  have no_dot: "CHR ''.'' \<notin> set (time_suffix x)" if "CHR ''.'' \<notin> set x" for x using that by (auto simp: time_suffix_def)
  have "length (time_suffix now) = length (time_suffix now')" "CHR ''.'' \<notin> set now" "CHR ''.'' \<notin> set now'"
    using assms(2,3) by (simp_all add: good_call_def time_suffix_def)
  from stamped_name_inject [OF eq this(1) dot dot no_dot [OF this(2)] no_dot [OF this(3)]] show ?thesis by simp
qed

text \<open>
  C36. The loggers of a container write apart: below a rooted directory, for names without slashes and stamps
  of one length, two loggers of different names write to different files of that directory, whatever the mode
  and the order of the calls, and a name keeps its logger once it has one.
\<close>

theorem loggers_write_apart:
  assumes "has_prefix (lg_LogFilePath config) ''/''" "\<forall>c \<in> set calls \<union> set later. good_call k c"
    "get_loggers M calls (NewLoggerContainer config) d = (l, d1)" "get_loggers M later l d1 = (l', d2)"
    "lc_loggers l s = Some a" "lc_loggers l' t = Some b" "s \<noteq> t"
  shows "lc_loggers l' s = Some a \<and> (\<exists>f g. log_file a = Some (True, snd (clean (lg_LogFilePath config)) @ [f]) \<and>
    log_file b = Some (True, snd (clean (lg_LogFilePath config)) @ [g]) \<and> f \<noteq> g)"
proof -
  have "apart k config (NewLoggerContainer config)" by (simp add: apart_def NewLoggerContainer_def)
  from get_loggers_apart [OF assms(1) this _ assms(3)] assms(2) have l: "apart k config l" by simp
  from get_loggers_apart [OF assms(1) l _ assms(4)] assms(2,5) have l': "apart k config l'" "lc_loggers l' s = Some a" by auto
  from l'(1) assms(6) l'(2) obtain now now' where "good_call k (now, s)" "good_call k (now', t)"
    "log_file a = Some (True, snd (clean (lg_LogFilePath config)) @ [log_name config now s])"
    "log_file b = Some (True, snd (clean (lg_LogFilePath config)) @ [log_name config now' t])" unfolding apart_def by blast
  then show ?thesis using l'(2) log_name_inject assms(7) by blast
qed

definition log_machine :: machine where
  "log_machine = \<lparr>sy_uid = 1000, sy_gid = 1000, sy_umask = 0x12, sy_user = Inr (''1000'', ''1000''),
     sy_fault = (\<lambda>operation p. None), sy_write = (\<lambda>p. None)\<rparr>"

definition log_config :: LoggerConfig where
  "log_config = \<lparr>lg_RotatingLogsEnabled = False, lg_RotatingLogerConfig = \<lparr>rl_MaxSizeInMB = 0, rl_MaxBackups = 0, rl_MaxAgeInDays = 0,
     rl_Compress = False\<rparr>, lg_LogLevel = 2, lg_JSONLogFormat = False, lg_AppendFile = False, lg_LogFilePath = ''/logs'', lg_Name = ''''\<rparr>"

definition log_first :: "LoggerContainerImpl \<times> disk" where
  "log_first = get_loggers log_machine [(''2024-01-02T03:04:05Z'', ''tx'')] (NewLoggerContainer log_config) []"

definition log_second :: "LoggerContainerImpl \<times> disk" where
  "log_second = get_loggers log_machine [(''2024-01-02T03:04:06Z'', ''db'')] (fst log_first) (snd log_first)"

lemma log_calls_good: "\<forall>c \<in> set [(''2024-01-02T03:04:05Z'', ''tx'')] \<union> set [(''2024-01-02T03:04:06Z'', ''db'')]. good_call 20 c"
  by (simp add: good_call_def)

theorem loggers_write_apart_witness:
  "\<exists>a b. lc_loggers (fst log_second) ''tx'' = Some a \<and> lc_loggers (fst log_second) ''db'' = Some b \<and> log_file a \<noteq> log_file b"
proof -
  have "(lc_loggers (fst log_first) ''tx'' = None) = False" "(lc_loggers (fst log_second) ''db'' = None) = False" by code_simp+
  then obtain a b where ab: "lc_loggers (fst log_first) ''tx'' = Some a" "lc_loggers (fst log_second) ''db'' = Some b" by auto
  have base: "has_prefix (lg_LogFilePath log_config) ''/''" by (simp add: log_config_def has_prefix_def)
  have runs: "get_loggers log_machine [(''2024-01-02T03:04:05Z'', ''tx'')] (NewLoggerContainer log_config) [] = (fst log_first, snd log_first)"
    "get_loggers log_machine [(''2024-01-02T03:04:06Z'', ''db'')] (fst log_first) (snd log_first) = (fst log_second, snd log_second)"
    by (simp_all only: log_first_def log_second_def prod.collapse)
  have "''tx'' \<noteq> ''db''" by simp
  from loggers_write_apart [OF base log_calls_good runs ab this] ab(2) show ?thesis by auto
qed

end
