(* ===== verification/Main_Program.thy ===== *)
theory Main_Program
  imports Block_Syncer_Props Logger
begin

text \<open>
  The program that puts the indexer together (\<open>main.go\<close>, \<open>indexer/db/db.go\<close>): the networks it knows, the
  configurations, and its handler of confirmed blocks, which marks every unprocessed transaction as processed.
  With them the parts fit: what the runner does to the indexer on the database, started by this program, leaves
  the confirmed chain in the database with all its transactions processed.
\<close>

section \<open>The program\<close>

definition NewDatabaseInit :: "'b kv_ops \<Rightarrow> (string \<Rightarrow> (string \<Rightarrow> 'b option) result) \<Rightarrow> string \<Rightarrow> string \<Rightarrow> 'b BBoltDatabase result" where
  "NewDatabaseInit K opened name filePath =
     (case bolt_Init K (opened filePath) of Inl err \<Rightarrow> Inl err | Inr db \<Rightarrow> Inr db)"

text \<open>Address, network magic and addresses of interest of a chain type; the nil slice is the empty list.\<close>

definition chain_params :: "int \<Rightarrow> string \<times> u32 \<times> string list" where
  "chain_params chainType =
     (if chainType = 0 then (''localhost:5200'', 1127, [])
      else if chainType = 1 then (''localhost:5100'', 3311, [])
      else if chainType = 2 then (''backbone.cardano-mainnet.iohk.io:3001'', 764824073, [])
      else if chainType = 3 then (''preprod-node.play.dev.cardano.org:3001'', 1, [])
      else ('''', 0, []))"

definition confirmedBlockHandler :: "'b BBoltDatabase NewConfirmedBlockHandler" where
  "confirmedBlockHandler dbs confirmedBlock txs =
     (case bolt_GetUnprocessedConfirmedTxs dbs 0 of
        Inl err \<Rightarrow> (dbs, Some err)
      | Inr unprocessedTxs \<Rightarrow> bolt_MarkConfirmedTxsProcessed dbs unprocessedTxs)"

definition indexerConfig :: "string list \<Rightarrow> BlockIndexerConfig" where
  "indexerConfig addressesOfInterest = \<lparr>cfg_StartingBlockPoint = Some zero_BlockPoint, cfg_ConfirmationBlockCount = 10,
     cfg_AddressesOfInterest = addressesOfInterest, cfg_KeepAllTxOutputsInDB = False, cfg_AddressCheck = AddressCheckAll,
     cfg_SoftDeleteUtxo = False, cfg_KeepAllTxsHashesInBlock = True\<rparr>"

definition syncerConfig :: "string \<Rightarrow> u32 \<Rightarrow> BlockSyncerConfig" where
  "syncerConfig address networkMagic = \<lparr>sc_NetworkMagic = networkMagic, sc_NodeAddress = address, sc_RestartOnError = True,
     sc_RestartDelay = 2000000000, sc_SyncStartTries = 0, sc_KeepAlive = True\<rparr>"

definition runnerQueueChannelSize :: nat where
  "runnerQueueChannelSize = 100"

definition logger_config :: "string \<Rightarrow> int \<Rightarrow> LoggerConfig" where
  "logger_config baseDirectory i = \<lparr>lg_RotatingLogsEnabled = False, lg_RotatingLogerConfig = \<lparr>rl_MaxSizeInMB = 0, rl_MaxBackups = 0,
     rl_MaxAgeInDays = 0, rl_Compress = False\<rparr>, lg_LogLevel = 2, lg_JSONLogFormat = False, lg_AppendFile = True,
     lg_LogFilePath = filepath_Join [baseDirectory, ''logs-'' @ itoa_int i @ ''.log''], lg_Name = ''''\<rparr>"

text \<open>
  \<open>startSyncer\<close> up to the call of \<open>Sync\<close>: the runner around the indexer, and the configuration of the syncer.
  \<open>None\<close> is a panic of the constructor.
\<close>

definition startSyncer ::
  "machine \<Rightarrow> string \<Rightarrow> 'b kv_ops \<Rightarrow> (string \<Rightarrow> (string \<Rightarrow> 'b option) result) \<Rightarrow> int \<Rightarrow> int \<Rightarrow> string \<Rightarrow> disk \<Rightarrow>
     ('b BBoltDatabase BlockIndexer BlockIndexerRunner \<times> BlockSyncerConfig) result option \<times> disk"
where
  "startSyncer M now K opened chainType i baseDirectory d =
     (let (address, networkMagic, addressesOfInterest) = chain_params chainType in
      case NewLogger M now (logger_config baseDirectory i) d of
        (Inl err, d) \<Rightarrow> (Some (Inl err), d)
      | (Inr logger, d) \<Rightarrow>
          (case NewDatabaseInit K opened '''' (filepath_Join [baseDirectory, ''burek-'' @ itoa_int i @ ''.db'']) of
             Inl err \<Rightarrow> (Some (Inl err), d)
           | Inr dbs \<Rightarrow>
               (map_option (\<lambda>indexerObj. Inr (NewBlockIndexerRunner indexerObj runnerQueueChannelSize, syncerConfig address networkMagic))
                  (NewBlockIndexer (indexerConfig addressesOfInterest) confirmedBlockHandler dbs), d)))"

text \<open>
  The goroutine beside \<open>Sync\<close>: when the context is done it closes the syncer, the runner and the database;
  when the syncer reports a fatal error it closes the database alone. Here the effect on the runner.
\<close>

datatype stop_event = ContextDone | SyncerError goerror

definition close_database :: "'b BBoltDatabase BlockIndexer BlockIndexerRunner \<Rightarrow> 'b BBoltDatabase BlockIndexer BlockIndexerRunner" where
  "close_database r = r\<lparr>ru_handler := (ru_handler r)\<lparr>bi_db := bolt_Close (bi_db (ru_handler r))\<rparr>\<rparr>"

primrec stop_program :: "stop_event \<Rightarrow> 'b BBoltDatabase BlockIndexer BlockIndexerRunner \<Rightarrow> 'b BBoltDatabase BlockIndexer BlockIndexerRunner" where
  "stop_program ContextDone r = close_database (r\<lparr>ru_closeCh := True\<rparr>)"
| "stop_program (SyncerError err) r = close_database r"

section \<open>The handler\<close>

lemma foreign_wrap [simp]: "foreign_error (ErrWrap p e q) \<longleftrightarrow> foreign_error e"
  by (simp add: foreign_error_def)

lemma foreign_closed [simp]: "foreign_error ErrDatabaseNotOpen"
  by (simp add: foreign_error_def ErrDatabaseNotOpen_def)

lemma unprocessed_listed:
  assumes "bolt_inv bd" "bd_open bd"
  shows "\<exists>ts. bolt_GetUnprocessedConfirmedTxs bd 0 = Inr ts \<and> tx_list (cs_unprocessed (bolt_store bd)) ts"
proof -
  let ?K = "bd_ops bd" and ?b = "unprocessedTxsBucket (bd_buckets bd)"
  have K: "kv_laws ?K" "txs.bucket_ok (kv_get ?K ?b)" using assms(1) by (simp_all add: bolt_inv_def buckets_ok_def)
  obtain ts where ts: "list_all2 (\<lambda>e x. non_null dec_tx (snd e) = Inr x) (kv_first ?K ?b) ts"
    "tx_list (txs.bucket_map (kv_get ?K ?b)) ts" using tx_listing [OF K] by blast
  have "bolt_GetUnprocessedConfirmedTxs bd 0 = Inr ts"
    using cursor_loop_ok [OF ts(1), of 0 "[]"] assms(2) by (simp add: bolt_GetUnprocessedConfirmedTxs_def bolt_View_def limit_def)
  then show ?thesis using ts(2) by (simp add: bolt_views)
qed

text \<open>A transaction is stored under its own key.\<close>

lemma unprocessed_key:
  assumes "bolt_inv bd" "cs_unprocessed (bolt_store bd) k = Some t"
  shows "tx_id t = k"
proof -
  let ?m = "kv_get (bd_ops bd) (unprocessedTxsBucket (bd_buckets bd))"
  have ok: "txs.bucket_ok ?m" using assms(1) by (simp add: bolt_inv_def buckets_ok_def)
  have m: "txs.bucket_map ?m k = Some t" using assms(2) by (simp add: bolt_views)
  then have "?m (tx_id_key k) \<noteq> None" using txs.bucket_map_None [OF ok, of k] by simp
  then obtain j where "?m (tx_id_key k) = Some j" by blast
  from txs.bucket_get [OF ok this] m show ?thesis by auto
qed

lemma put_txs_dom: "put_txs m ts k = None \<longleftrightarrow> m k = None \<and> k \<notin> tx_id ` set ts"
  by (induction ts arbitrary: m) auto

lemma handler_moves:
  assumes "bolt_inv d" "confirmedBlockHandler d b rel = (d', None)"
  shows "bolt_inv d' \<and> cs_unprocessed (bolt_store d') = Map.empty \<and>
    (\<forall>k. cs_unprocessed (bolt_store d) k \<noteq> None \<or> cs_processed (bolt_store d) k \<noteq> None \<longrightarrow> cs_processed (bolt_store d') k \<noteq> None)"
proof -
  obtain ts where ts: "bolt_GetUnprocessedConfirmedTxs d 0 = Inr ts" "bolt_MarkConfirmedTxsProcessed d ts = (d', None)"
    using assms(2) by (auto simp: confirmedBlockHandler_def split: sum.splits)
  have "bd_open d" using ts(1) by (auto simp: bolt_GetUnprocessedConfirmedTxs_def bolt_View_def split: if_splits)
  from unprocessed_listed [OF assms(1) this] ts(1) have l: "tx_list (cs_unprocessed (bolt_store d)) ts" by simp
  obtain bk where bk: "mark_loop (bd_ops d) ts (bd_buckets d) = Inr bk" "d' = d\<lparr>bd_buckets := bk\<rparr>"
    using bolt_Update_cases [OF ts(2) [unfolded bolt_MarkConfirmedTxsProcessed_def]] by auto
  have inv: "buckets_ok (bd_ops d) bk" "bolt_store d' = foldl mark_store (bolt_store d) ts"
    using mark_loop_ok [OF _ _ bk(1)] assms(1) bk(2) by (simp_all add: bolt_inv_def bolt_store_buckets)
  have listed: "k \<in> tx_id ` set ts" if "cs_unprocessed (bolt_store d) k \<noteq> None" for k
  proof -
    from that obtain t where t: "cs_unprocessed (bolt_store d) k = Some t" by blast
    with unprocessed_key [OF assms(1) t] l show ?thesis by (auto simp: tx_list_def)
  qed
  have "bolt_inv d'" using inv(1) bk(2) assms(1) by (simp add: bolt_inv_def)
  moreover have "cs_unprocessed (bolt_store d') = Map.empty"
  proof
    fix k
    show "cs_unprocessed (bolt_store d') k = None"
      using listed [of k] by (cases "cs_unprocessed (bolt_store d) k") (auto simp: inv(2) mark_store_effect)
  qed
  moreover have "cs_processed (bolt_store d') k \<noteq> None"
    if "cs_unprocessed (bolt_store d) k \<noteq> None \<or> cs_processed (bolt_store d) k \<noteq> None" for k
    using that listed [of k] by (simp only: inv(2) mark_store_effect put_txs_dom) blast
  ultimately show ?thesis by blast
qed

text \<open>The handler leaves the chain alone, and its errors are the database's.\<close>

lemma handler_keeps_chain: "keeps_chain bolt_inv bolt_store confirmedBlockHandler"
proof -
  have "bolt_inv d' \<and> cs_point (bolt_store d') = cs_point (bolt_store d) \<and> cs_blocks (bolt_store d') = cs_blocks (bolt_store d) \<and>
      cs_outputs (bolt_store d') = cs_outputs (bolt_store d)"
    if "bolt_inv d" "confirmedBlockHandler d b rel = (d', r)" for d d' :: "'b BBoltDatabase" and b rel r
  proof (cases "bolt_GetUnprocessedConfirmedTxs d 0")
    case (Inl e)
    then show ?thesis using that by (simp add: confirmedBlockHandler_def)
  next
    case (Inr ts)
    then have m: "bolt_MarkConfirmedTxsProcessed d ts = (d', r)" using that(2) by (simp add: confirmedBlockHandler_def)
    show ?thesis
    proof (cases r)
      case None
      obtain bk where bk: "mark_loop (bd_ops d) ts (bd_buckets d) = Inr bk" "d' = d\<lparr>bd_buckets := bk\<rparr>"
        using bolt_Update_cases [OF m [unfolded bolt_MarkConfirmedTxsProcessed_def]] None by auto
      have "buckets_ok (bd_ops d) bk" "bolt_store d' = foldl mark_store (bolt_store d) ts"
        using mark_loop_ok [OF _ _ bk(1)] that(1) bk(2) by (simp_all add: bolt_inv_def bolt_store_buckets)
      then show ?thesis using bk(2) that(1) by (simp add: bolt_inv_def mark_store_effect)
    next
      case (Some e)
      then have "d' = d" using bolt_Update_cases [OF m [unfolded bolt_MarkConfirmedTxsProcessed_def]] by auto
      then show ?thesis using that(1) by simp
    qed
  qed
  then show ?thesis unfolding keeps_chain_def by blast
qed

lemma mark_loop_error: "kv_laws K \<Longrightarrow> mark_loop K ts tx = Inl e \<Longrightarrow> foreign_error e"
proof (induction ts arbitrary: tx)
  case (Cons t ts)
  then show ?case
    by (auto simp: rbind_eq_Inl wrap_err_def dest: kv_error_laws split: sum.splits)
qed simp

lemma handler_plain: "plain_handler bolt_inv confirmedBlockHandler"
proof -
  have "foreign_error e" if d: "bolt_inv d" "confirmedBlockHandler d b rel = (d', Some e)" for d d' :: "'b BBoltDatabase" and b rel e
  proof (cases "bd_open d")
    case True
    obtain ts where ts: "bolt_GetUnprocessedConfirmedTxs d 0 = Inr ts" using unprocessed_listed [OF d(1) True] by blast
    have K: "kv_laws (bd_ops d)" using d(1) by (simp add: bolt_inv_def)
    have "bolt_Update d (mark_loop (bd_ops d) ts) = (d', Some e)"
      using d(2) ts by (simp add: confirmedBlockHandler_def bolt_MarkConfirmedTxsProcessed_def)
    then show ?thesis using True mark_loop_error [OF K] kv_error_laws(3) [OF K]
      by (auto simp: bolt_Update_def split: sum.splits option.splits)
  next
    case False
    then show ?thesis using d(2) by (auto simp: confirmedBlockHandler_def bolt_GetUnprocessedConfirmedTxs_def bolt_View_def)
  qed
  moreover have "bolt_inv d'" if "bolt_inv d" "confirmedBlockHandler d b rel = (d', r)" for d d' :: "'b BBoltDatabase" and b rel r
    using keeps_chainD(1) [OF handler_keeps_chain that] .
  ultimately show ?thesis unfolding plain_handler_def foreign_error_def by blast
qed

section \<open>The chain and its transactions\<close>

text \<open>
  The transactions of the confirmed headers, as \<open>txs_of\<close> tells them, are in the database, processed or waiting;
  or they are processed and nothing waits.
\<close>

definition txs_kept :: "(BlockHeader \<Rightarrow> Tx list) \<Rightarrow> BlockHeader list \<Rightarrow> chain_store \<Rightarrow> bool" where
  "txs_kept txs_of conf s \<longleftrightarrow>
     (\<forall>h \<in> set conf. \<forall>t \<in> set (txs_of h). cs_processed s (tx_id t) \<noteq> None \<or> cs_unprocessed s (tx_id t) \<noteq> None)"

definition all_processed :: "(BlockHeader \<Rightarrow> Tx list) \<Rightarrow> BlockHeader list \<Rightarrow> chain_store \<Rightarrow> bool" where
  "all_processed txs_of conf s \<longleftrightarrow> (conf \<noteq> [] \<longrightarrow> cs_unprocessed s = Map.empty) \<and>
     (\<forall>h \<in> set conf. \<forall>t \<in> set (txs_of h). cs_processed s (tx_id t) \<noteq> None)"

text \<open>Retrievers that return what the blocks hold.\<close>

definition serves :: "(BlockHeader \<Rightarrow> Tx list) \<Rightarrow> sync_event \<Rightarrow> bool" where
  "serves txs_of ev = (case ev of Forward h getTxs \<Rightarrow> (\<forall>f txs. getTxs f = Inr txs \<longrightarrow> txs = txs_of f) | Backward p \<Rightarrow> True)"

text \<open>The indexer the program made, in whatever state its calls have left it.\<close>

definition program_indexer :: "'b BBoltDatabase BlockIndexer \<Rightarrow> bool" where
  "program_indexer bi \<longleftrightarrow> bi_wf bi \<and> bi_capacity bi = 10 \<and> bolt_inv (bi_db bi) \<and>
     bi_confirmedBlockHandler bi = confirmedBlockHandler \<and> bi_addressesOfInterest bi = {}"

lemma program_indexer_forward:
  assumes "program_indexer bi" "RollForward bolt_dict bi h getTxs = Some (bi', e)"
  shows "program_indexer bi'"
proof -
  have wf: "bi_wf bi" "bolt_inv (bi_db bi)" using assms(1) by (simp_all add: program_indexer_def)
  have "bolt_inv (bi_db bi')"
    using bolt.RollForward_step [OF wf, of h getTxs] assms keeps_chainD(1) [OF handler_keeps_chain]
    by (auto simp: forward_waits_def forward_fails_def forward_confirms_def program_indexer_def)
  then show ?thesis using bolt.RollForward_step [OF wf, of h getTxs] assms by (auto simp: program_indexer_def)
qed

lemma program_indexer_backward:
  assumes "program_indexer bi" "RollBackward bi p = Some (bi', e)"
  shows "program_indexer bi'"
proof -
  let ?q = "bi_unconfirmedBlocks bi"
  have q: "cq_inv ?q" using assms(1) by (simp add: program_indexer_def bi_wf_def)
  obtain i where i: "Find (header_at p) ?q = Some i" using assms(2) by (auto simp: RollBackward_def bind_eq_Some_conv)
  have "bi' = bi\<lparr>bi_unconfirmedBlocks := SetCount ?q (i + 1)\<rparr> \<and> i \<noteq> -1 \<or> bi' = bi\<lparr>bi_unconfirmedBlocks := SetCount ?q 0\<rparr> \<or> bi' = bi"
    using assms(2) by (auto simp: RollBackward_def i split: if_splits option.splits)
  moreover have "i \<noteq> -1 \<Longrightarrow> cq_inv (SetCount ?q (i + 1)) \<and> cq_capacity (SetCount ?q (i + 1)) = cq_capacity ?q"
    using cq.truncate_found(1,3) [OF q i] by simp
  ultimately show ?thesis using assms(1) cq.truncate_all [OF q] by (auto simp: program_indexer_def bi_wf_def bi_capacity_def)
qed

lemma program_indexer_Reset:
  assumes "program_indexer bi" "Reset bolt_dict bi = (bi', q)"
  shows "program_indexer bi'"
proof (cases q)
  case (Inl e)
  then show ?thesis using assms by (auto simp: Reset_def Let_def split: sum.splits)
next
  case (Inr p)
  have "bi_addressesOfInterest bi' = bi_addressesOfInterest bi" using assms(2) by (auto simp: Reset_def Let_def split: sum.splits)
  then show ?thesis using bolt.Reset_ok [of bi bi' p] assms Inr by (simp add: program_indexer_def)
qed

lemma program_indexer_step:
  assumes "runner_step (indexer_dict bolt_dict) r l r'" "program_indexer (ru_handler r)"
  shows "program_indexer (ru_handler r')"
  using assms
proof cases
  case (run it h' e)
  then show ?thesis using assms(2) program_indexer_forward program_indexer_backward
    by (auto simp: handler_call_def indexer_dict_def split: sync_event.splits)
qed (auto simp: indexer_dict_def dest: program_indexer_Reset)

abbreviation runner_moves :: "'h BlockSyncerHandler \<Rightarrow> 'h BlockIndexerRunner \<Rightarrow> 'h BlockIndexerRunner \<Rightarrow> bool" where
  "runner_moves H \<equiv> (\<lambda>r r'. \<exists>l. runner_step H r l r')\<^sup>*\<^sup>*"

lemma program_indexer_moves:
  "runner_moves (indexer_dict bolt_dict) r r' \<Longrightarrow> program_indexer (ru_handler r) \<Longrightarrow> program_indexer (ru_handler r')"
  by (induction rule: rtranclp_induct) (auto dest: program_indexer_step)

text \<open>What holds while the program follows the chain; \<open>quiet\<close> when no handler has reported an error.\<close>

definition program_state ::
  "chain_store \<Rightarrow> BlockPoint \<Rightarrow> (BlockHeader \<Rightarrow> Tx list) \<Rightarrow> BlockHeader list \<Rightarrow> bool \<Rightarrow> 'b BBoltDatabase BlockIndexer \<Rightarrow> bool"
where
  "program_state s0 base txs_of conf quiet bi \<longleftrightarrow> follows bolt_inv bolt_store s0 base conf bi \<and> program_indexer bi \<and>
     txs_kept txs_of conf (bolt_store (bi_db bi)) \<and> (quiet \<longrightarrow> all_processed txs_of conf (bolt_store (bi_db bi)))"

lemma program_state_good: "program_state s0 base txs_of conf quiet bi \<Longrightarrow> indexer_good bi"
  using handler_plain by (simp add: program_state_def program_indexer_def follows_def indexer_good_def indexer_ready_def)

lemma populated_ids: "tx_id ` set (populated s txs) = tx_id ` set txs"
  by (simp add: populated_def image_image tx_id_def)

lemma handler_failed: "confirmedBlockHandler d b rel = (d', Some e) \<Longrightarrow> d' = d"
  by (auto simp: confirmedBlockHandler_def bolt_MarkConfirmedTxsProcessed_def split: sum.splits dest: bolt_Update_cases)

lemma program_forward:
  assumes P: "program_state s0 base txs_of conf quiet bi" and c: "chain_step base (conf @ bi_window bi) (Forward h getTxs) = Some c'"
    and s: "RollForward bolt_dict bi h getTxs = Some (bi', r)" and r: "\<not> forward_fails bi bi' r"
    and serves: "serves txs_of (Forward h getTxs)"
  shows "\<exists>fs. c' = (conf @ fs) @ bi_window bi' \<and> program_state s0 base txs_of (conf @ fs) (quiet \<and> r = None) bi'"
proof -
  let ?s = "bolt_store (bi_db bi)" and ?s' = "bolt_store (bi_db bi')"
  have f: "follows bolt_inv bolt_store s0 base conf bi" and hd: "bi_confirmedBlockHandler bi = confirmedBlockHandler"
    and ad: "bi_addressesOfInterest bi = {}" and tk: "txs_kept txs_of conf ?s" and ap: "quiet \<longrightarrow> all_processed txs_of conf ?s"
    and pi: "program_indexer bi" using P by (simp_all add: program_state_def program_indexer_def)
  have wf: "bi_wf bi" "bolt_inv (bi_db bi)" using f by (simp_all add: follows_def)
  obtain fs where fs: "c' = (conf @ fs) @ bi_window bi'" "follows bolt_inv bolt_store s0 base (conf @ fs) bi'"
    using bolt.follows_forward_any [OF f c s r] by blast
  have w: "fs @ bi_window bi' = bi_window bi @ [h]" using fs(1) c by (simp split: if_splits)
  have "forward_waits bi h bi' r \<or> forward_confirms bolt_inv bolt_store bi h getTxs bi' r"
    using bolt.RollForward_step [OF wf, of h getTxs] s r by auto
  then have "txs_kept txs_of (conf @ fs) ?s' \<and> (quiet \<and> r = None \<longrightarrow> all_processed txs_of (conf @ fs) ?s')"
  proof
    assume "forward_waits bi h bi' r"
    then have "fs = []" "bi_db bi' = bi_db bi" using w by (simp_all add: forward_waits_def)
    then show ?thesis using tk ap by simp
  next
    assume fc: "forward_confirms bolt_inv bolt_store bi h getTxs bi' r"
    let ?f = "hd (bi_window bi)" and ?p = "populated ?s"
    obtain txs d b where d: "getTxs ?f = Inr txs" "bolt_inv d" "bolt_store d = confirm_store (bi_config bi) {} ?f txs ?s"
      "confirmedBlockHandler d b (?p txs) = (bi_db bi', r)"
      using fc by (auto simp: forward_confirms_def hd ad relevant_txs_def)
    have "bi_window bi \<noteq> []" using fc wf by (auto simp: forward_confirms_def bi_wf_def)
    then have fs': "fs = [?f]" using fc w by (cases "bi_window bi") (auto simp: forward_confirms_def)
    have tx: "txs = txs_of ?f" using serves d(1) by (simp add: serves_def)
    have pr: "cs_processed (bolt_store d) = cs_processed ?s" by (simp add: d(3) confirm_store_effect)
    have un: "cs_unprocessed (bolt_store d) k \<noteq> None" if "k \<in> tx_id ` set txs \<or> cs_unprocessed ?s k \<noteq> None" for k
      using that by (auto simp: d(3) confirm_store_effect filterTxsOfInterest_def put_txs_dom populated_ids)
    have kept: "cs_processed (bolt_store d) (tx_id t) \<noteq> None \<or> cs_unprocessed (bolt_store d) (tx_id t) \<noteq> None"
      if g: "g \<in> set (conf @ [?f])" "t \<in> set (txs_of g)" for g t
    proof (cases "g = ?f")
      case True
      then show ?thesis using un [of "tx_id t"] g(2) tx by blast
    next
      case False
      then have "cs_processed ?s (tx_id t) \<noteq> None \<or> cs_unprocessed ?s (tx_id t) \<noteq> None" using g tk by (simp add: txs_kept_def)
      then show ?thesis using un [of "tx_id t"] pr by metis
    qed
    show ?thesis
    proof (cases r)
      case None
      note moved = handler_moves [OF d(2) d(4) [unfolded None]]
      then have "all_processed txs_of (conf @ fs) ?s'" using kept unfolding all_processed_def fs' by blast
      then show ?thesis by (auto simp: all_processed_def txs_kept_def)
    next
      case (Some e)
      then have "bi_db bi' = d" using handler_failed d(4) by blast
      then show ?thesis using kept Some by (simp add: txs_kept_def fs')
    qed
  qed
  then show ?thesis using fs program_indexer_forward [OF pi s] by (auto simp: program_state_def)
qed

lemma program_backward:
  assumes P: "program_state s0 base txs_of conf quiet bi" and c: "chain_step base (conf @ bi_window bi) (Backward p) = Some c'"
    and s: "RollBackward bi p = Some (bi', None)"
  shows "c' = conf @ bi_window bi' \<and> program_state s0 base txs_of conf quiet bi'"
proof -
  have f: "follows bolt_inv bolt_store s0 base conf bi" and i: "program_indexer bi" using P by (simp_all add: program_state_def)
  have "bi_db bi' = bi_db bi" using s by (auto simp: RollBackward_def bind_eq_Some_conv split: if_splits option.splits)
  then show ?thesis using bolt.follows_backward [OF f c s] program_indexer_backward [OF i s] P by (simp add: program_state_def)
qed

lemma chain_run_snoc: "chain_run base c (evs @ [ev]) = Option.bind (chain_run base c evs) (\<lambda>c'. chain_step base c' ev)"
  by (induction evs arbitrary: c) (simp_all add: Option.bind_assoc)

text \<open>A settled call has not failed, and a settled rollback has succeeded.\<close>

lemma settled_forward: "settled (classify e) \<Longrightarrow> \<not> forward_fails bi bi' e"
  by (auto simp: forward_fails_def classify_def settled_def split: if_splits)

lemma settled_backward:
  assumes "program_state s0 base txs_of conf quiet bi" "RollBackward bi p = Some (bi', e)" "settled (classify e)"
  shows "e = None"
proof -
  have "bi_wf bi" "bi_latestBlockPoint bi = Some (tip base conf)" using assms(1) by (simp_all add: program_state_def follows_def)
  from RollBackward_step [OF this, of p] assms(2,3) show ?thesis
    by (cases e) (auto simp: classify_def settled_def split: if_splits)
qed

lemma classify_processed: "settled (classify e) \<Longrightarrow> (\<forall>x. classify e \<noteq> Skipped x) \<longleftrightarrow> e = None"
  by (auto simp: classify_def settled_def split: option.splits if_splits)

lemma program_run:
  assumes "runner_run (indexer_dict bolt_dict) r0 acc tried r" "program_state s0 base txs_of [] True (ru_handler r0)"
    "bi_window (ru_handler r0) = []" "chain_run base [] (done_items tried) = Some c" "\<forall>ev \<in> set (done_items tried). serves txs_of ev"
  shows "\<exists>conf. c = conf @ bi_window (ru_handler r) \<and>
    program_state s0 base txs_of conf (\<forall>x \<in> set tried. \<forall>e. snd x \<noteq> Skipped e) (ru_handler r)"
  using assms
proof (induction arbitrary: c rule: runner_run.induct)
  case start
  then show ?case by (intro exI [of _ "[]"]) (simp add: done_items_def)
next
  case (step acc tried r l r')
  let ?quiet = "\<lambda>tried. \<forall>x \<in> set tried. \<forall>e. snd x \<noteq> Skipped e"
  from step.hyps(2) show ?case
  proof cases
    case (run it h' e)
    have tb: "tried_by l = [(it, classify e)]" using run by (simp add: tried_by_def)
    obtain c0 where c0: "chain_run base [] (done_items tried) = Some c0"
      using step.prems(3) by (cases "settled (classify e)") (auto simp: tb done_items_def chain_run_snoc bind_eq_Some_conv)
    obtain conf where conf: "c0 = conf @ bi_window (ru_handler r)" "program_state s0 base txs_of conf (?quiet tried) (ru_handler r)"
      using step.IH [OF step.prems(1,2) c0] step.prems(4) by (auto simp: done_items_append)
    have call: "sync_step bolt_dict (ru_handler r) it = Some (h', e)" using run(4) by (simp add: handler_call_indexer)
    show ?thesis
    proof (cases "settled (classify e)")
      case False
      have "h' = ru_handler r" using indexer_runner.call_ok [OF program_state_good [OF conf(2)], of it] run(4) False by auto
      moreover have "?quiet (tried @ tried_by l) = ?quiet tried" using False by (auto simp: tb settled_def)
      moreover have "c = c0" using step.prems(3) c0 False by (simp add: tb done_items_def)
      ultimately show ?thesis using conf run by auto
    next
      case True
      have cs: "chain_step base (conf @ bi_window (ru_handler r)) it = Some c" "serves txs_of it"
        using step.prems(3,4) c0 conf(1) True by (simp_all add: tb done_items_def chain_run_snoc)
      have cl: "?quiet (tried @ tried_by l) = (?quiet tried \<and> e = None)" using classify_processed [OF True] by (auto simp: tb)
      have "\<exists>conf'. c = conf' @ bi_window h' \<and> program_state s0 base txs_of conf' (?quiet tried \<and> e = None) h'"
      proof (cases it)
        case (Forward h getTxs)
        have "chain_step base (conf @ bi_window (ru_handler r)) (Forward h getTxs) = Some c"
          "RollForward bolt_dict (ru_handler r) h getTxs = Some (h', e)" "serves txs_of (Forward h getTxs)"
          using cs call Forward by simp_all
        from program_forward [OF conf(2) this(1,2) settled_forward [OF True] this(3)] show ?thesis by blast
      next
        case (Backward p)
        then have b: "RollBackward (ru_handler r) p = Some (h', e)" using call by simp
        with settled_backward [OF conf(2) b True] program_backward [OF conf(2), of p c h'] cs(1) Backward show ?thesis by auto
      qed
      then show ?thesis unfolding cl run(2) by simp
    qed
  qed (use step in \<open>auto simp: done_items_def tried_by_def is_reset_def\<close>)
qed

section \<open>The program as a whole\<close>

lemma startSyncer_indexer:
  assumes "startSyncer M now K opened chainType i baseDirectory d = (Some (Inr (r0, sc)), d')"
  shows "\<exists>bi. r0 = NewBlockIndexerRunner bi 100 \<and> bi_wf bi \<and> bi_capacity bi = 10 \<and> bi_confirmedBlockHandler bi = confirmedBlockHandler \<and>
    bi_addressesOfInterest bi = {} \<and> sc = syncerConfig (fst (chain_params chainType)) (fst (snd (chain_params chainType)))"
proof -
  have "snd (snd (chain_params chainType)) = []" by (simp add: chain_params_def)
  then obtain address networkMagic where p: "chain_params chainType = (address, networkMagic, [])"
    by (metis prod.collapse)
  obtain dbs bi where bi: "NewBlockIndexer (indexerConfig []) confirmedBlockHandler dbs = Some bi"
    "r0 = NewBlockIndexerRunner bi 100" "sc = syncerConfig address networkMagic"
    using assms by (auto simp: startSyncer_def p runnerQueueChannelSize_def split: prod.splits sum.splits)
  have "AddressCheckAll AND AddressCheckAll \<noteq> 0" by (simp add: AddressCheckAll_def AddressCheckInputs_def AddressCheckOutputs_def)
  then obtain q where q: "NewCircularQueue zero_BlockHeader 10 = Some q" "bi_unconfirmedBlocks bi = q" "bi_addressesOfInterest bi = {}"
    "bi_confirmedBlockHandler bi = confirmedBlockHandler"
    using bi(1) by (auto simp: NewBlockIndexer_def indexerConfig_def bind_eq_Some_conv)
  then have "bi_wf bi \<and> bi_capacity bi = 10" using new_inv [of 10 zero_BlockHeader] by (auto simp: bi_wf_def bi_capacity_def cq_capacity_def)
  then show ?thesis using bi q p by auto
qed

text \<open>
  C4. The program as a whole. Take the program in whatever state earlier calls, failures and resets have left it,
  and a reset that succeeds at the point \<open>base\<close>. Until the next reset, whatever the interleaving of the client with
  the loop, however often attempts are repeated, and even when the handler of confirmed blocks reports errors: the
  headers confirmed since, followed by at most ten that wait, are the node's chain above \<open>base\<close>; the database holds
  the confirmed blocks on top of what it held; and every transaction of every confirmed block is in the database,
  processed or waiting. When the handler has reported no error since the reset, every one of them is processed
  and, once a block has been confirmed, nothing waits.
\<close>

theorem program_processes_the_chain:
  assumes "startSyncer M now K opened chainType i baseDirectory d = (Some (Inr (r0, sc)), d')" "bolt_inv (bi_db (ru_handler r0))"
    "runner_moves (indexer_dict bolt_dict) r0 r1" "runner_step (indexer_dict bolt_dict) r1 (ResetDone base) r2"
    "runner_run (indexer_dict bolt_dict) r2 acc tried r"
    "chain_run base [] (done_items tried) = Some c" "\<forall>ev \<in> set (done_items tried). serves txs_of ev"
  shows "\<exists>conf. c = conf @ bi_window (ru_handler r) \<and> length (bi_window (ru_handler r)) \<le> 10 \<and>
    chain_stored (bolt_store (bi_db (ru_handler r1))) conf (bolt_store (bi_db (ru_handler r))) \<and>
    txs_kept txs_of conf (bolt_store (bi_db (ru_handler r))) \<and>
    ((\<forall>x \<in> set tried. \<forall>e. snd x \<noteq> Skipped e) \<longrightarrow> all_processed txs_of conf (bolt_store (bi_db (ru_handler r))))"
proof -
  obtain bi where bi: "r0 = NewBlockIndexerRunner bi 100" "bi_wf bi" "bi_confirmedBlockHandler bi = confirmedBlockHandler"
    "bi_addressesOfInterest bi = {}" "bi_capacity bi = 10" using startSyncer_indexer [OF assms(1)] by blast
  then have "program_indexer (ru_handler r0)" using assms(2) by (simp add: program_indexer_def NewBlockIndexerRunner_def)
  then have i1: "program_indexer (ru_handler r1)" by (rule program_indexer_moves [OF assms(3)])
  have reset: "Reset bolt_dict (ru_handler r1) = (ru_handler r2, Inr base)" using assms(4) by cases (simp add: indexer_dict_def)
  have wf: "bi_wf (ru_handler r1)" "bolt_inv (bi_db (ru_handler r1))" using i1 by (simp_all add: program_indexer_def)
  note ok = bolt.Reset_ok [OF wf reset]
  have "follows bolt_inv bolt_store (bolt_store (bi_db (ru_handler r1))) base [] (ru_handler r2)"
    using bolt.follows_Reset [OF wf reset] handler_keeps_chain i1 by (simp add: program_indexer_def)
  then have "program_state (bolt_store (bi_db (ru_handler r1))) base txs_of [] True (ru_handler r2)"
    using program_indexer_Reset [OF i1 reset]
    by (auto simp: program_state_def txs_kept_def all_processed_def)
  from program_run [OF assms(5) this ok(3) assms(6,7)] obtain conf where conf: "c = conf @ bi_window (ru_handler r)"
    "program_state (bolt_store (bi_db (ru_handler r1))) base txs_of conf (\<forall>x \<in> set tried. \<forall>e. snd x \<noteq> Skipped e) (ru_handler r)" by blast
  then have "length (bi_window (ru_handler r)) \<le> 10"
    using cq.len_le by (fastforce simp: program_state_def program_indexer_def bi_wf_def bi_window_def bi_capacity_def)
  then show ?thesis using conf by (auto simp: program_state_def follows_def)
qed

section \<open>After the database is closed\<close>

lemma stop_program_parts:
  "ru_handler (stop_program ev r) = (ru_handler r)\<lparr>bi_db := bolt_Close (bi_db (ru_handler r))\<rparr>"
  "ru_phase (stop_program ev r) = ru_phase r" "ru_closeCh (stop_program (SyncerError err) r) = ru_closeCh r"
  by (cases ev; simp add: close_database_def)+

lemma stop_program_indexer:
  "bi_wf (ru_handler (stop_program ev r)) = bi_wf (ru_handler r)" "\<not> bd_open (bi_db (ru_handler (stop_program ev r)))"
  "bi_window (ru_handler (stop_program ev r)) = bi_window (ru_handler r)"
  "bi_capacity (ru_handler (stop_program ev r)) = bi_capacity (ru_handler r)"
  by (simp_all only: stop_program_parts) (simp_all add: bi_wf_def bi_window_def bi_capacity_def bolt_Close_def)

lemma closed_populate:
  assumes "\<not> bd_open d" "populateOutputsForEachInput (bolt_GetTxOutput d) txs = Inl e"
  shows "e = ErrDatabaseNotOpen"
proof -
  have look: "populate_input (bolt_GetTxOutput d) i = Inl e' \<Longrightarrow> e' = ErrDatabaseNotOpen" for i e'
    using assms(1) by (auto simp: populate_input_def rbind_eq_Inl bolt_GetTxOutput_def bolt_View_def split: if_splits)
  have each: "result_map f xs = Inl e' \<Longrightarrow> \<exists>x \<in> set xs. f x = Inl e'" for f :: "'x \<Rightarrow> 'y result" and xs e'
    by (induction xs) (auto simp: rbind_eq_Inl)
  from each [OF assms(2) [unfolded populateOutputsForEachInput_def]] obtain t :: Tx where
    "result_map (populate_input (bolt_GetTxOutput d)) (tx_Inputs t) = Inl e" by (auto simp: rbind_eq_Inl)
  from each [OF this] look show ?thesis by blast
qed

lemma closed_forward:
  assumes "bi_wf bi" "\<not> bd_open (bi_db bi)" "length (bi_window bi) = bi_capacity bi"
    "\<forall>f e. getTxs f = Inl e \<longrightarrow> \<not> err_is e ErrBlockIndexerFatal"
  shows "\<exists>e. RollForward bolt_dict bi h getTxs = Some (bi, Some (ErrProcessConfirmedBlock e)) \<and> \<not> err_is e ErrBlockIndexerFatal"
proof -
  have q: "cq_inv (bi_unconfirmedBlocks bi)" "0 < bi_capacity bi" using assms(1) by (simp_all add: bi_wf_def)
  have full: "IsFull (bi_unconfirmedBlocks bi)"
    using assms(3) cq.full_iff [OF q(1)] by (simp add: bi_window_def bi_capacity_def)
  obtain first where peek: "Peek zero_BlockHeader (bi_unconfirmedBlocks bi) = Some first"
    using cq.peek_some [OF q(1)] assms(3) q(2) by (cases "cq_contents (bi_unconfirmedBlocks bi)") (auto simp: bi_window_def)
  show ?thesis
  proof (cases "getTxs first")
    case (Inl e)
    then show ?thesis using full peek assms(4) by (auto simp: RollForward_def)
  next
    case (Inr txs)
    have "fst (processConfirmedBlock bolt_dict bi first txs) = bi_db bi \<and> snd (processConfirmedBlock bolt_dict bi first txs) = Inl ErrDatabaseNotOpen"
      using closed_populate [OF assms(2)] assms(2)
      by (auto simp: processConfirmedBlock_def Let_def bolt_dict_def bolt_Execute_def bolt_Update_def split: sum.splits)
    then have "processConfirmedBlock bolt_dict bi first txs = (bi_db bi, Inl ErrDatabaseNotOpen)" by (simp add: prod_eq_iff)
    moreover have "\<not> err_is ErrDatabaseNotOpen ErrBlockIndexerFatal" using foreign_closed by (simp add: foreign_error_def)
    ultimately show ?thesis using full peek Inr by (simp add: RollForward_def)
  qed
qed

text \<open>
  C27. Once the program has closed its database, be it because the context is done or because of a fatal error of
  the syncer, a runner in the middle of a block that must be confirmed never gets past it: the indexer and its
  database stay as they are, no item is settled, and unless someone closes or resets the runner, which the program
  does not do after a fatal error, the loop neither ends nor turns to another item.
\<close>

theorem closed_database_blocks_runner:
  assumes "bi_wf (ru_handler r)" "length (bi_window (ru_handler r)) = bi_capacity (ru_handler r)"
    "in_hand (ru_phase r) = [Forward h getTxs]" "\<forall>f e. getTxs f = Inl e \<longrightarrow> \<not> err_is e ErrBlockIndexerFatal"
    "runner_run (indexer_dict bolt_dict) (stop_program ev r) acc tried r'"
  shows "ru_handler r' = ru_handler (stop_program ev r) \<and> done_items tried = [] \<and>
    (in_hand (ru_phase r') = [Forward h getTxs] \<or> ru_phase r' = Finished \<and> (ru_closeCh r' \<or> ru_stopLoopCh r'))"
  using assms(5)
proof (induction rule: runner_run.induct)
  case start
  then show ?case using assms(3) by (simp add: stop_program_parts done_items_def)
next
  case (step acc tried r1 l r2)
  let ?bi = "ru_handler (stop_program ev r)"
  have bi: "bi_wf ?bi" "\<not> bd_open (bi_db ?bi)" "length (bi_window ?bi) = bi_capacity ?bi"
    using assms(1,2) by (simp_all only: stop_program_indexer simp_thms)
  from closed_forward [OF bi assms(4)] obtain e where
    e: "RollForward bolt_dict ?bi h getTxs = Some (?bi, Some (ErrProcessConfirmedBlock e))" "\<not> err_is e ErrBlockIndexerFatal" by blast
  have c: "classify (Some (ErrProcessConfirmedBlock e)) = Retried (ErrProcessConfirmedBlock e)"
    using e(2) by (simp add: classify_def)
  note defs = tried_by_def done_items_def in_hand_def is_reset_def handler_call_def indexer_dict_def after_attempt_def settled_def
  from step.hyps(2) show ?case
  proof cases
    case (run it h' e')
    then have "it = Forward h getTxs" using step.IH by (auto simp: in_hand_def)
    then have "h' = ?bi" "classify e' = Retried (ErrProcessConfirmedBlock e)" using run(4) step.IH e(1) c by (auto simp: handler_call_def indexer_dict_def)
    then show ?thesis using run step.IH \<open>it = _\<close> by (simp add: defs)
  qed (use step in \<open>auto simp: defs split: phase.splits\<close>)
qed

section \<open>A run of the program\<close>

text \<open>On an empty database, eleven blocks with one transaction each.\<close>

lemma handler_total: "alist_total confirmedBlockHandler"
proof -
  have mark: "\<exists>tx'. mark_loop alist_kv ts tx = Inr tx'" for ts tx
    by (induction ts arbitrary: tx) (simp_all add: wrap_err_def alist_kv_def)
  have "\<exists>d'. confirmedBlockHandler d b txs = (d', None) \<and> alist_db d'" if d: "alist_db d" for d b txs
  proof -
    have o: "bolt_inv d" "bd_open d" "bd_ops d = alist_kv" using d by (simp_all add: alist_db_def)
    obtain ts where ts: "bolt_GetUnprocessedConfirmedTxs d 0 = Inr ts" using unprocessed_listed [OF o(1,2)] by blast
    obtain bk where bk: "mark_loop alist_kv ts (bd_buckets d) = Inr bk" using mark by blast
    have "confirmedBlockHandler d b txs = (d\<lparr>bd_buckets := bk\<rparr>, None)"
      using ts bk o(2,3) by (simp add: confirmedBlockHandler_def bolt_MarkConfirmedTxsProcessed_def bolt_Update_def alist_kv_def)
    then show ?thesis using keeps_chainD(1) [OF handler_keeps_chain o(1)] o by (auto simp: alist_db_def)
  qed
  then show ?thesis unfolding alist_total_def by blast
qed

definition demo_start :: "(((bytes \<times> json) list BBoltDatabase BlockIndexer BlockIndexerRunner \<times> BlockSyncerConfig) result option \<times> disk)" where
  "demo_start = startSyncer log_machine ''2024-01-02T03:04:05Z'' alist_kv (\<lambda>f. Inr Map.empty) 3 1 ''/data'' []"

lemma demo_started:
  "\<exists>bi sc d'. demo_start = (Some (Inr (NewBlockIndexerRunner bi 100, sc)), d') \<and> bi_wf bi \<and> bi_db bi = empty_bolt \<and>
    bi_confirmedBlockHandler bi = confirmedBlockHandler \<and> bi_config bi = indexerConfig []"
proof -
  have "isl (fst (NewLogger log_machine ''2024-01-02T03:04:05Z'' (logger_config ''/data'' 1) [])) = False" by code_simp
  then obtain lg d' where lg: "NewLogger log_machine ''2024-01-02T03:04:05Z'' (logger_config ''/data'' 1) [] = (Inr lg, d')"
    by (cases "NewLogger log_machine ''2024-01-02T03:04:05Z'' (logger_config ''/data'' 1) []";
        cases "fst (NewLogger log_machine ''2024-01-02T03:04:05Z'' (logger_config ''/data'' 1) [])") auto
  have "AddressCheckAll AND AddressCheckAll \<noteq> 0" by (simp add: AddressCheckAll_def AddressCheckInputs_def AddressCheckOutputs_def)
  then obtain bi where bi: "NewBlockIndexer (indexerConfig []) confirmedBlockHandler empty_bolt = Some bi" "bi_db bi = empty_bolt"
    "bi_config bi = indexerConfig []" "bi_confirmedBlockHandler bi = confirmedBlockHandler"
    using new_inv [of 10 zero_BlockHeader] by (auto simp: NewBlockIndexer_def indexerConfig_def)
  have st: "demo_start = (Some (Inr (NewBlockIndexerRunner bi 100, syncerConfig ''preprod-node.play.dev.cardano.org:3001'' 1)), d')"
    by (simp add: demo_start_def startSyncer_def chain_params_def lg NewDatabaseInit_def empty_bolt_Init bi(1) runnerQueueChannelSize_def)
  from startSyncer_indexer [OF st [unfolded demo_start_def]] have "bi_wf bi" by (auto simp: NewBlockIndexerRunner_def)
  with st bi(2-4) show ?thesis by blast
qed

definition demo_chain :: "BlockHeader list" where
  "demo_chain = map demo_header [1, 2, 3, 4, 5, 6, 7, 8, 9, 10, 11]"

definition demo_feed :: "sync_event list" where
  "demo_feed = map (\<lambda>h. Forward h (\<lambda>_. Inr [demo_spend])) demo_chain"

theorem program_processes_the_chain_witness:
  "\<exists>r0 sc d' r1 r2 r. demo_start = (Some (Inr (r0, sc)), d') \<and>
     runner_step (indexer_dict bolt_dict) r0 ResetStopsLoop r1 \<and> runner_step (indexer_dict bolt_dict) r1 (ResetDone zero_BlockPoint) r2 \<and>
     runner_run (indexer_dict bolt_dict) r2 demo_feed (map (\<lambda>ev. (ev, Processed)) demo_feed) r \<and>
     cs_processed (bolt_store (bi_db (ru_handler r))) (tx_id demo_spend) \<noteq> None"
proof -
  let ?H = "indexer_dict bolt_dict"
  obtain bi sc d' where st: "demo_start = (Some (Inr (NewBlockIndexerRunner bi 100, sc)), d')" and bi: "bi_wf bi" "bi_db bi = empty_bolt"
    "bi_confirmedBlockHandler bi = confirmedBlockHandler" "bi_config bi = indexerConfig []" using demo_started by blast
  let ?r0 = "NewBlockIndexerRunner bi 100"
  let ?r1 = "?r0\<lparr>ru_stopLoopCh := True, ru_resetting := True\<rparr>"
  have s1: "runner_step ?H ?r0 ResetStopsLoop ?r1" by (rule runner_step.reset_stop) (simp_all add: NewBlockIndexerRunner_def)
  have gp: "db_GetLatestBlockPoint bolt_dict (bi_db bi) = Inr None"
    by (simp add: bolt_dict_def bi(2) bolt_GetLatestBlockPoint_eq empty_bolt_inv empty_bolt_open empty_bolt_store)
  obtain bi0 where reset: "Reset bolt_dict bi = (bi0, Inr zero_BlockPoint)"
    using gp bi(4) by (simp add: Reset_def Let_def indexerConfig_def)
  note rok = bolt.Reset_ok [OF bi(1) _ reset, unfolded bi(2), OF empty_bolt_inv]
  define r2 where "r2 = ?r1\<lparr>ru_handler := bi0, ru_resetting := False, ru_queueCh := [], ru_loopFinishedCh := False,
    ru_stopLoopCh := False, ru_phase := Idle\<rparr>"
  have s2: "runner_step ?H ?r1 (ResetDone zero_BlockPoint) r2"
    unfolding r2_def by (rule runner_step.reset_done) (simp_all add: NewBlockIndexerRunner_def indexer_dict_def reset)
  have r2: "ru_handler r2 = bi0" "ru_queueCh r2 = []" "ru_phase r2 = Idle" by (simp_all add: r2_def)
  have "alist_db (bi_db bi0)" using rok(5) by (simp add: alist_db_def empty_bolt_inv empty_bolt_open) (simp add: empty_bolt_def)
  moreover have "alist_total (bi_confirmedBlockHandler bi0)" using rok(8) handler_total bi(3) by simp
  ultimately obtain b where "sync_run bolt_dict bi0 demo_feed = Some (b, None)"
    using alist_forward_run [OF rok(2), of "[demo_spend]" demo_chain] by (auto simp: demo_feed_def)
  then have run: "runner_run ?H r2 demo_feed (map (\<lambda>ev. (ev, Processed)) demo_feed) (r2\<lparr>ru_handler := b\<rparr>)"
    using runner_works_off [OF runner_run.start r2(2,3), of demo_feed b] by (simp add: r2(1))
  have ch: "chain_run zero_BlockPoint [] (done_items (map (\<lambda>ev. (ev, Processed)) demo_feed)) = Some demo_chain"
    by (simp only: done_items_processed) (simp add: demo_feed_def demo_chain_def demo_header_def zero_BlockPoint_def)
  have moves: "runner_moves ?H ?r0 ?r1" using s1 by blast
  have serve: "\<forall>ev \<in> set (done_items (map (\<lambda>ev. (ev, Processed)) demo_feed)). serves (\<lambda>h. [demo_spend]) ev"
    by (simp only: done_items_processed) (auto simp: demo_feed_def serves_def)
  have inv: "bolt_inv (bi_db (ru_handler ?r0))" by (simp add: NewBlockIndexerRunner_def bi(2) empty_bolt_inv)
  obtain conf where conf: "demo_chain = conf @ bi_window b" "length (bi_window b) \<le> 10" "all_processed (\<lambda>h. [demo_spend]) conf (bolt_store (bi_db b))"
    using program_processes_the_chain [OF st [unfolded demo_start_def] inv moves s2 run ch serve] by auto
  have "length demo_chain = 11" by (simp add: demo_chain_def)
  then have "conf \<noteq> []" using conf(1,2) by auto
  then have "cs_processed (bolt_store (bi_db b)) (tx_id demo_spend) \<noteq> None" using conf(3) by (cases conf) (auto simp: all_processed_def)
  then show ?thesis using st s1 s2 run by fastforce
qed

text \<open>A full window, a fatal error of the syncer and one attempt.\<close>

definition stuck_runner :: "(bytes \<times> json) list BBoltDatabase BlockIndexer BlockIndexerRunner" where
  "stuck_runner = demo_runner\<lparr>ru_handler := demo_ready_indexer\<lparr>bi_unconfirmedBlocks :=
     \<lparr>cq_items = [demo_header 5], cq_count = 1, cq_size = 1, cq_pos = 0\<rparr>\<rparr>, ru_phase := Executing (Forward (demo_header 9) (\<lambda>_. Inr [demo_spend]))\<rparr>"

theorem closed_database_blocks_runner_witness:
  "\<exists>a r'. runner_run (indexer_dict bolt_dict) (stop_program (SyncerError ErrDatabaseNotOpen) stuck_runner) []
      [(Forward (demo_header 9) (\<lambda>_. Inr [demo_spend]), a)] r' \<and> \<not> ru_closeCh r' \<and> \<not> ru_stopLoopCh r' \<and>
     in_hand (ru_phase r') = [Forward (demo_header 9) (\<lambda>_. Inr [demo_spend])]"
proof -
  let ?it = "Forward (demo_header 9) (\<lambda>_. Inr [demo_spend])" and ?r = "stop_program (SyncerError ErrDatabaseNotOpen) stuck_runner"
  have w: "bi_wf (ru_handler stuck_runner)" "length (bi_window (ru_handler stuck_runner)) = bi_capacity (ru_handler stuck_runner)"
    "in_hand (ru_phase stuck_runner) = [?it]"
    by (simp_all add: stuck_runner_def bi_wf_def bi_window_def bi_capacity_def cq_contents_def cq_capacity_def cq_inv_def in_hand_def)
  have "bi_wf (ru_handler ?r)" "\<not> bd_open (bi_db (ru_handler ?r))" "length (bi_window (ru_handler ?r)) = bi_capacity (ru_handler ?r)"
    using w by (simp_all only: stop_program_indexer simp_thms)
  from closed_forward [OF this, of "\<lambda>_. Inr [demo_spend]" "demo_header 9"] obtain e where
    e: "RollForward bolt_dict (ru_handler ?r) (demo_header 9) (\<lambda>_. Inr [demo_spend]) = Some (ru_handler ?r, Some e)" by auto
  let ?r' = "?r\<lparr>ru_handler := ru_handler ?r, ru_phase := after_attempt ?it (classify (Some e))\<rparr>"
  have "ru_phase ?r = Executing ?it" by (simp only: stop_program_parts) (simp add: stuck_runner_def)
  then have "runner_step (indexer_dict bolt_dict) ?r (Ran ?it (classify (Some e))) ?r'"
    by (rule runner_step.run) (use e in \<open>simp add: handler_call_def indexer_dict_def\<close>)
  from runner_run.step [OF runner_run.start this] have
    run: "runner_run (indexer_dict bolt_dict) ?r [] [(?it, classify (Some e))] ?r'"
    by (simp add: is_reset_def accepted_by_def tried_by_def)
  have unstopped: "\<not> ru_closeCh ?r'" "\<not> ru_stopLoopCh ?r'"
    by (simp_all add: close_database_def stuck_runner_def demo_runner_def)
  from closed_database_blocks_runner [OF w _ run] unstopped have "in_hand (ru_phase ?r') = [?it]" by simp
  with run unstopped show ?thesis by blast
qed

end
