(* ===== verification/Ledger_Indexed.thy ===== *)
theory Ledger_Indexed
  imports Ledger_Txs Indexer_Props
begin

text \<open>
  From a block of the ledger to the database: what the indexer keeps of the transactions it fetched
  (\<open>indexer/gouroboros/txs_retriever.go\<close>, \<open>indexer/block_indexer.go\<close>), and what parsing one of them from its
  bytes reports (\<open>indexer/gouroboros/tx_info_parser.go\<close>).
\<close>

section \<open>What the ledger says\<close>

definition ledger_ref :: "LedgerTx \<Rightarrow> nat \<Rightarrow> TxInput" where
  "ledger_ref ltx j = \<lparr>ti_Hash = NewHashFromHexString (lt_Hash ltx), ti_Index = word_of_nat j\<rparr>"

definition ledger_spends :: "LedgerTx list \<Rightarrow> TxInput \<Rightarrow> bool" where
  "ledger_spends ltxs i \<longleftrightarrow> (\<exists>l \<in> set ltxs. \<exists>inp \<in> set (lt_Inputs l). i = \<lparr>ti_Hash = li_Id inp, ti_Index = li_Index inp\<rparr>)"

text \<open>Transactions of a block have different hashes, and an index of an output fits into 32 bits.\<close>

definition ledger_block_ok :: "LedgerTx list \<Rightarrow> bool" where
  "ledger_block_ok ltxs \<longleftrightarrow> distinct (map (\<lambda>l. NewHashFromHexString (lt_Hash l)) ltxs) \<and> (\<forall>l \<in> set ltxs. length (lt_Outputs l) \<le> 2 ^ 32)"

text \<open>An output with its address, amount and datum, and with every asset of every policy once.\<close>

definition ledger_assets :: "MultiAsset option \<Rightarrow> (string \<times> string \<times> u64) multiset" where
  "ledger_assets assets =
     (case assets of
        None \<Rightarrow> {#}
      | Some a \<Rightarrow> \<Sum>p \<in># mset (ma_Policies a).
          image_mset (\<lambda>n. (ma_PolicyString a p, bytes_str n, ma_Asset a p n)) (mset (ma_Assets a p)))"

definition output_holds :: "u64 \<Rightarrow> LedgerOutput \<Rightarrow> TxOutput \<Rightarrow> bool" where
  "output_holds slot lo out \<longleftrightarrow>
     to_Address out = lo_Address lo \<and> to_Amount out = lo_Amount lo \<and> to_Slot out = slot \<and> \<not> to_IsUsed out \<and>
     (case lo_Datum lo of Some d \<Rightarrow> to_Datum out = d | None \<Rightarrow> to_Datum out = []) \<and>
     (case lo_DatumHash lo of Some h \<Rightarrow> to_DatumHash out = h | None \<Rightarrow> to_DatumHash out = zero_hash) \<and>
     image_mset (\<lambda>t. (ta_PolicyID t, ta_Name t, ta_Amount t)) (mset (to_Tokens out)) = ledger_assets (lo_Assets lo)"

lemma ledger_tokens_assets:
  "image_mset (\<lambda>t. (ta_PolicyID t, ta_Name t, ta_Amount t)) (mset (ledger_tokens assets)) = ledger_assets assets"
proof (cases assets)
  case (Some a)
  have "image_mset (\<lambda>t. (ta_PolicyID t, ta_Name t, ta_Amount t)) (mset (concat (map (\<lambda>p. map (\<lambda>n. \<lparr>ta_PolicyID = ma_PolicyString a p,
      ta_Name = bytes_str n, ta_Amount = ma_Asset a p n\<rparr>) (ma_Assets a p)) ps))) =
    (\<Sum>p \<in># mset ps. image_mset (\<lambda>n. (ma_PolicyString a p, bytes_str n, ma_Asset a p n)) (mset (ma_Assets a p)))" for ps
    by (induction ps) (simp_all add: image_mset.compositionality comp_def)
  then show ?thesis by (simp add: Some ledger_tokens_def ledger_assets_def)
qed (simp add: ledger_tokens_def ledger_assets_def)

lemma createTxOutput_holds: "output_holds slot lo (createTxOutput slot lo)"
  by (simp add: output_holds_def createTxOutput_def ledger_tokens_assets split: option.splits)

section \<open>The fetched transactions\<close>

definition tx_of :: "BlockHeader \<Rightarrow> LedgerTx \<Rightarrow> Tx \<Rightarrow> bool" where
  "tx_of h l t \<longleftrightarrow> tx_Hash t = NewHashFromHexString (lt_Hash l) \<and> tx_Outputs t = map (createTxOutput (bh_Slot h)) (lt_Outputs l) \<and>
     map tio_Input (tx_Inputs t) = map (\<lambda>inp. \<lparr>ti_Hash = li_Id inp, ti_Index = li_Index inp\<rparr>) (lt_Inputs l)"

lemma create_txs_of: "create_txs h i ltxs = Inr txs \<Longrightarrow> list_all2 (tx_of h) ltxs txs"
  by (induction ltxs arbitrary: i txs) (auto simp: createTx_def tx_of_def comp_def split: sum.splits)

lemma fetched_spends:
  assumes "list_all2 (tx_of h) ltxs txs"
  shows "spends txs i \<longleftrightarrow> ledger_spends ltxs i"
  using assms
proof (induction ltxs txs rule: list_all2_induct)
  case (Cons l ls t ts)
  have "i \<in> set (map tio_Input (tx_Inputs t)) \<longleftrightarrow> i \<in> set (map (\<lambda>inp. \<lparr>ti_Hash = li_Id inp, ti_Index = li_Index inp\<rparr>) (lt_Inputs l))"
    using Cons.hyps(1) by (simp only: tx_of_def)
  with Cons.IH show ?case by (auto simp: spends_def ledger_spends_def)
qed (simp add: spends_def ledger_spends_def)

lemma fetched_ok:
  assumes "list_all2 (tx_of h) ltxs txs" "ledger_block_ok ltxs"
  shows "block_txs_ok txs"
proof -
  have "map tx_Hash txs = map (\<lambda>l. NewHashFromHexString (lt_Hash l)) ltxs"
    using assms(1) by (induction ltxs txs rule: list_all2_induct) (simp_all add: tx_of_def)
  moreover have "\<forall>t \<in> set txs. \<exists>l \<in> set ltxs. tx_of h l t" using assms(1) by (auto simp: list_all2_conv_all_nth in_set_conv_nth) (metis nth_mem)
  ultimately show ?thesis using assms(2) by (fastforce simp: block_txs_ok_def ledger_block_ok_def tx_of_def)
qed

lemma fetched_created:
  assumes "list_all2 (tx_of h) ltxs txs" "k < length ltxs" "j < length (lt_Outputs (ltxs ! k))"
  shows "created_at txs (ledger_ref (ltxs ! k) j) (createTxOutput (bh_Slot h) (lt_Outputs (ltxs ! k) ! j))"
proof -
  have "tx_of h (ltxs ! k) (txs ! k)" "txs ! k \<in> set txs" using assms(1,2) by (auto simp: list_all2_conv_all_nth)
  then show ?thesis using assms(3)
    unfolding created_at_def ledger_ref_def tx_of_def by (intro bexI [of _ "txs ! k"] exI [of _ j]) simp_all
qed

section \<open>From the ledger to the store\<close>

text \<open>The transaction that the newest era reads from the bytes, of those eras that can read them.\<close>

definition newest_era :: "era_parsers \<Rightarrow> bytes \<Rightarrow> LedgerTx \<Rightarrow> bool" where
  "newest_era E raw ltx \<longleftrightarrow>
     ep_Conway E raw = Inr ltx \<or> isl (ep_Conway E raw) \<and> (
     ep_Babbage E raw = Inr ltx \<or> isl (ep_Babbage E raw) \<and> (
     ep_Alonzo E raw = Inr ltx \<or> isl (ep_Alonzo E raw) \<and> (
     ep_Mary E raw = Inr ltx \<or> isl (ep_Mary E raw) \<and> (
     ep_Allegra E raw = Inr ltx \<or> isl (ep_Allegra E raw) \<and>
     ep_Shelley E raw = Inr ltx))))"

lemma newest_era_parsed: "newest_era E raw ltx \<Longrightarrow> tryParseTxRaw E raw = Inr ltx"
  by (auto simp: newest_era_def tryParseTxRaw_def isl_def)

lemma parsed_info:
  assumes "newest_era E raw ltx"
  shows "\<exists>info. ParseTxInfo E raw True = Inr info \<and> tinf_Hash info = lt_Hash ltx \<and>
    tinf_Inputs info = map (\<lambda>inp. \<lparr>ti_Hash = li_Id inp, ti_Index = li_Index inp\<rparr>) (lt_Inputs ltx) \<and>
    tinf_Outputs info = map (createTxOutput 0) (lt_Outputs ltx)"
  by (simp add: ParseTxInfo_def newest_era_parsed [OF assms])

text \<open>
  C37. What parsing a transaction from its bytes reports is what the indexer keeps of it. A block was fetched
  and confirmed with \<open>KeepAllTxOutputsInDB\<close>, its transactions have different hashes, and the newest era that
  can read some bytes reads transaction \<open>k\<close> of the block. Then parsing the bytes reports, in order, each
  output of the ledger transaction with its address, amount and datum and with every asset of every policy
  once, and each input. Under the reported hash and the number of the output the database has exactly the
  reported output (texts as UTF-8), with the slot of the block, unless a transaction of the block spends it; and no reported
  input is left unspent.
\<close>

theorem parsed_transaction_in_store:
  assumes "bolt_inv (bi_db bi)" "cfg_KeepAllTxOutputsInDB (bi_config bi)"
    "GetBlock (bh_Slot h) (hash_bytes (bh_Hash h)) = Inr ltxs" "ledger_block_ok ltxs" "GetBlockTransactions GetBlock h = Inr txs"
    "processConfirmedBlock bolt_dict bi h txs = (d, Inr res)" "k < length ltxs" "newest_era E raw (ltxs ! k)"
  shows "\<exists>info. ParseTxInfo E raw True = Inr info \<and>
    list_all2 (output_holds 0) (lt_Outputs (ltxs ! k)) (tinf_Outputs info) \<and>
    list_all2 (\<lambda>inp i. ti_Hash i = li_Id inp \<and> ti_Index i = li_Index inp) (lt_Inputs (ltxs ! k)) (tinf_Inputs info) \<and>
    (\<forall>j < length (tinf_Outputs info). let i = \<lparr>ti_Hash = NewHashFromHexString (tinf_Hash info), ti_Index = word_of_nat j\<rparr> in
       cs_outputs (bolt_store d) i = spend_mark (cfg_SoftDeleteUtxo (bi_config bi)) (ledger_spends ltxs i)
         (Some (norm_output ((tinf_Outputs info ! j)\<lparr>to_Slot := bh_Slot h\<rparr>)))) \<and>
    (\<forall>i \<in> set (tinf_Inputs info). case cs_outputs (bolt_store d) i of None \<Rightarrow> True
       | Some out \<Rightarrow> cfg_SoftDeleteUtxo (bi_config bi) \<and> to_IsUsed out)"
proof -
  let ?l = "ltxs ! k" and ?soft = "cfg_SoftDeleteUtxo (bi_config bi)"
  have txs: "list_all2 (tx_of h) ltxs txs"
    using assms(3,5) by (intro create_txs_of) (simp add: GetBlockTransactions_def)
  note step = keep_all_step [OF assms(1,2) fetched_ok [OF txs assms(4)] assms(6), unfolded utxo_step_def, rule_format]
  obtain info where info: "ParseTxInfo E raw True = Inr info" "tinf_Hash info = lt_Hash ?l"
    "tinf_Inputs info = map (\<lambda>inp. \<lparr>ti_Hash = li_Id inp, ti_Index = li_Index inp\<rparr>) (lt_Inputs ?l)"
    "tinf_Outputs info = map (createTxOutput 0) (lt_Outputs ?l)" using parsed_info [OF assms(8)] by blast
  have out: "cs_outputs (bolt_store d) (ledger_ref ?l j) = spend_mark ?soft (ledger_spends ltxs (ledger_ref ?l j))
      (Some (norm_output ((tinf_Outputs info ! j)\<lparr>to_Slot := bh_Slot h\<rparr>)))" if "j < length (lt_Outputs ?l)" for j
  proof -
    have "(tinf_Outputs info ! j)\<lparr>to_Slot := bh_Slot h\<rparr> = createTxOutput (bh_Slot h) (lt_Outputs ?l ! j)"
      using that by (simp add: info(4) createTxOutput_def)
    with step [THEN conjunct1, rule_format, OF fetched_created [OF txs assms(7) that]] show ?thesis
      by (simp add: fetched_spends [OF txs])
  qed
  have inp: "case cs_outputs (bolt_store d) i of None \<Rightarrow> True | Some out \<Rightarrow> ?soft \<and> to_IsUsed out" if "i \<in> set (tinf_Inputs info)" for i
  proof -
    have "spends txs i" using that assms(7) by (auto simp: fetched_spends [OF txs] ledger_spends_def info(3) dest: nth_mem)
    then obtain x where "cs_outputs (bolt_store d) i = spend_mark ?soft True x" using step [of i] by metis
    then show ?thesis by (auto simp: spend_mark_def split: option.splits)
  qed
  have "list_all2 (output_holds 0) (lt_Outputs ?l) (tinf_Outputs info)"
    by (simp add: info(4) list_all2_map2 list.rel_refl_strong createTxOutput_holds list_all2_same)
  moreover have "list_all2 (\<lambda>inp i. ti_Hash i = li_Id inp \<and> ti_Index i = li_Index inp) (lt_Inputs ?l) (tinf_Inputs info)"
    by (simp add: info(3) list_all2_map2 list_all2_same)
  ultimately show ?thesis using info(1,2,4) out inp by (intro exI [of _ info]) (simp add: ledger_ref_def Let_def)
qed

theorem parsed_transaction_in_store_witness:
  "\<exists>txs d res info. GetBlockTransactions (\<lambda>_ _. Inr [demo_ltx]) (demo_header 9) = Inr txs \<and>
     processConfirmedBlock bolt_dict (demo_indexer True) (demo_header 9) txs = (d, Inr res) \<and>
     ParseTxInfo demo_parsers [1] True = Inr info \<and>
     (\<exists>out. cs_outputs (bolt_store d) (ledger_ref demo_ltx 0) = Some out \<and> to_Amount out = 7 \<and> to_Slot out = 9)"
proof -
  obtain txs where txs: "GetBlockTransactions (\<lambda>_ _. Inr [demo_ltx]) (demo_header 9) = Inr txs"
    by (auto simp: GetBlockTransactions_def createTx_def)
  obtain d res where p: "processConfirmedBlock bolt_dict (demo_indexer True) (demo_header 9) txs = (d, Inr res)"
    using alist_process_total [OF demo_indexer_db] by blast
  have h: "cfg_KeepAllTxOutputsInDB (bi_config (demo_indexer True))" "ledger_block_ok [demo_ltx]" "0 < length [demo_ltx]"
    "newest_era demo_parsers [1] ([demo_ltx] ! 0)"
    by (simp_all add: demo_indexer_def ledger_block_ok_def newest_era_def demo_parsers_def demo_ltx_def)
  from parsed_transaction_in_store [OF demo_indexer_inv h(1) refl h(2) txs p h(3,4)]
  obtain info where info: "ParseTxInfo demo_parsers [1] True = Inr info"
    "list_all2 (output_holds 0) (lt_Outputs demo_ltx) (tinf_Outputs info)"
    "\<forall>j < length (tinf_Outputs info). let i = \<lparr>ti_Hash = NewHashFromHexString (tinf_Hash info), ti_Index = word_of_nat j\<rparr> in
       cs_outputs (bolt_store d) i = spend_mark False (ledger_spends [demo_ltx] i)
         (Some (norm_output ((tinf_Outputs info ! j)\<lparr>to_Slot := 9\<rparr>)))"
    by (auto simp: demo_indexer_def demo_header_def)
  have "tinf_Hash info = lt_Hash demo_ltx"
    using info(1) by (auto simp: ParseTxInfo_def tryParseTxRaw_def demo_parsers_def)
  moreover obtain out where "tinf_Outputs info = [out]" "to_Amount out = 7"
    using info(2) by (auto simp: demo_ltx_def output_holds_def list_all2_Cons1)
  moreover have "\<not> ledger_spends [demo_ltx] (ledger_ref demo_ltx 0)" by (simp add: ledger_spends_def ledger_ref_def demo_ltx_def)
  ultimately have "cs_outputs (bolt_store d) (ledger_ref demo_ltx 0) = Some (norm_output (out\<lparr>to_Slot := 9\<rparr>))"
    using info(3) by (simp add: ledger_ref_def Let_def spend_mark_def)
  with \<open>to_Amount out = 7\<close>
  have "\<exists>out. cs_outputs (bolt_store d) (ledger_ref demo_ltx 0) = Some out \<and> to_Amount out = 7 \<and> to_Slot out = 9" by simp
  with txs p info(1) show ?thesis by blast
qed

end
