(* ===== verification/Spec2Isabelle.thy ===== *)
theory Spec2Isabelle
  imports Block_Syncer_Props Address_Props Tx_Sender_Props Provider_Cli_Props Provider_Gouroboros_Props Secrets_Helper Main_Program Ledger_Indexed
begin

text \<open>
  Verification of cardano-infrastructure, a Go library for Cardano bridges: an indexer that follows the chain of
  a node into a database, a wallet that makes addresses, keys, witnesses and transactions, a sender of bridging
  transactions on top of the wallet, and managers of secrets. All file names below are relative to \<open>src/\<close>.

  \<^bold>\<open>How the program fits together.\<close> \<open>main.go\<close> builds the indexer: a database (\<open>indexer/db/bbolt\<close>), a block indexer
  on it (\<open>indexer/block_indexer.go\<close>), a runner with a queue around the indexer
  (\<open>indexer/block_indexer_runner.go\<close>) and a syncer that connects to the node and feeds the runner
  (\<open>indexer/gouroboros/block_syncer.go\<close>). The node rolls the chain forward and backward; the indexer keeps the
  last \<open>ConfirmationBlockCount\<close> headers in a ring buffer (\<open>common/circular_queue.go\<close>) and, when it is full,
  writes the block of the oldest header to the database in one transaction and calls the handler of confirmed
  blocks. The sender (\<open>sendtx\<close>) asks a provider (\<open>wallet/txprovider_*.go\<close>) for unspent outputs and parameters,
  selects outputs, and drives the transaction builder (\<open>wallet/transaction.go\<close>), which runs \<open>cardano-cli\<close> on files
  of a temporary directory. Addresses and keys are written in bech32 (\<open>wallet/bech32\<close>). A secrets manager
  (\<open>secrets\<close>) keeps the keys in files or with a cloud service.

  \<^bold>\<open>Conventions.\<close> A struct is a \<open>record\<close>, an enumeration or a sum of error types a \<open>datatype\<close>. Go's \<open>uint64\<close>,
  \<open>uint32\<close> and \<open>byte\<close> are words (\<open>u64\<close>, \<open>u32\<close>, \<open>byte\<close>) whose arithmetic wraps; \<open>int\<close> is \<open>int\<close>, as its values in
  this code are counts and indices. Strings are lists of characters, one per byte. A call with an error result
  returns \<open>goerror + 'a\<close> (type \<open>result\<close>), where \<open>goerror\<close> keeps the wrapping that \<open>errors.Is\<close> and \<open>errors.As\<close> look
  through; a call that may panic returns an option, where \<open>None\<close> is the panic. A method that changes its receiver
  returns it changed. The order in which a map is visited is an argument wherever the result may depend on it.
  Mutexes make methods atomic; goroutines and channels are step relations whose labels are what can be observed.

  \<^bold>\<open>The theories and the code they model.\<close>

  Foundations. \<open>Prelude\<close>: machine types, errors, panics, big-endian integers, decimal and hexadecimal text.
  \<open>Go_Lib\<close>: what is used of the packages \<open>strings\<close>, \<open>sort\<close>, \<open>encoding/hex\<close> and \<open>encoding/binary\<close>.
  \<open>Json_Doc\<close>: \<open>encoding/json\<close> as documents (not text), with the locale \<open>json_codec\<close> of a type whose values are read
  back as they were written up to a normal form. \<open>Safe_Files\<close>: \<open>path/filepath\<close>, a disk with modes, owners, faults
  and partial writes, and \<open>common/common.go\<close>. \<open>Common_Retry\<close>: \<open>common/retry.go\<close>, \<open>common/utils.go\<close>.

  Indexer. \<open>Circular_Queue\<close>: \<open>common/circular_queue.go\<close> with the locale \<open>bounded_queue\<close> its clients use.
  \<open>Chain_Data\<close>: \<open>indexer/data.go\<close>, \<open>indexer/utils.go\<close>; \<open>Json_Codec\<close>: their documents. \<open>Indexer_DB\<close>:
  \<open>indexer/database.go\<close>, the abstract store \<open>chain_store\<close> and the contract \<open>indexer_db\<close>; \<open>Bbolt_DB\<close> and
  \<open>Bbolt_Props\<close>: \<open>indexer/db/bbolt\<close>, which meets it. \<open>Block_Indexer\<close>, \<open>Indexer_Correct\<close> (over the contract) and
  \<open>Indexer_Props\<close> (on bbolt): \<open>indexer/block_indexer.go\<close>. \<open>Runner\<close>, \<open>Runner_Props\<close>:
  \<open>indexer/block_indexer_runner.go\<close>, with the locale \<open>sync_handler\<close> of what it needs of its handler. \<open>Ledger_Txs\<close>:
  \<open>indexer/gouroboros/utils.go\<close>, \<open>txs_retriever.go\<close>, \<open>tx_info_parser.go\<close>; \<open>Ledger_Indexed\<close>: from there to the
  database. \<open>Block_Syncer\<close>, \<open>Block_Syncer_Props\<close>:
  \<open>indexer/gouroboros/block_syncer.go\<close>, with \<open>restartable_handler\<close>, which extends \<open>sync_handler\<close>. \<open>Logger\<close>:
  \<open>logger\<close>. \<open>Main_Program\<close>: \<open>main.go\<close>, \<open>indexer/db/db.go\<close>.

  Wallet. \<open>Bech32\<close>, \<open>Bech32_Props\<close>: \<open>wallet/bech32\<close>. \<open>Wallet_Keys\<close>, \<open>Wallet_Keys_Props\<close>: \<open>wallet/wallet.go\<close>,
  \<open>wallet_utils.go\<close>, \<open>txwitness.go\<close>. \<open>Address\<close>, \<open>Address_Props\<close>: \<open>wallet/address.go\<close>, \<open>address_types.go\<close>,
  \<open>network_type.go\<close>. \<open>Wallet_Data\<close>, \<open>Wallet_Data_Props\<close>: \<open>wallet/data.go\<close>, \<open>utils.go\<close>, the sums of
  \<open>transaction_extended.go\<close>. \<open>Policy_Script\<close>, \<open>Cli_Utils\<close>: \<open>wallet/policy_script.go\<close>, \<open>cli_utils.go\<close>,
  \<open>command_helper.go\<close>. \<open>Tx_Builder\<close>, \<open>Tx_Builder_Props\<close>, \<open>Tx_Signing\<close>: \<open>wallet/transaction.go\<close> and
  \<open>transaction_extended.go\<close>.

  Sender. \<open>Utxo_Selection\<close>, \<open>Utxo_Selection_Props\<close>: the selections of \<open>wallet/transaction_extended.go\<close> and of
  \<open>sendtx/utxo_helper.go\<close>. \<open>Tx_Sender\<close>, \<open>Tx_Sender_Props\<close>: the rest of \<open>sendtx\<close>.

  Providers. \<open>Provider_Data\<close>, \<open>Protocol_Parameters\<close>: what they share and \<open>wallet/protocol_parameters.go\<close>.
  \<open>Provider_Cli\<close> (with \<open>_Props\<close>), \<open>Provider_Blockfrost\<close> (also Demeter), \<open>Provider_Ogmios\<close> (also Cats) and
  \<open>Provider_Gouroboros\<close> (with \<open>_Props\<close>): \<open>wallet/txprovider_*.go\<close>. \<open>Provider_Http_Props\<close>, \<open>Provider_Params_Props\<close>:
  that they agree with each other.

  Secrets. \<open>Secrets\<close>: \<open>secrets/secrets.go\<close>, \<open>config.go\<close> and the locales \<open>secret_store\<close> and \<open>once_store\<close> of a
  manager. \<open>Secrets_Local\<close>: \<open>secrets/local\<close>. \<open>Secrets_Cloud\<close>: \<open>secrets/hashicorpvault\<close>, \<open>awsssm\<close>, \<open>gcpssm\<close>.
  \<open>Secrets_Helper\<close>: \<open>secrets/helper\<close>.
\<close>

text \<open>
  \<^bold>\<open>What the theorems show.\<close>

  The chain. The ring buffer refines a bounded list. A write transaction of the database is all or nothing and
  refines the abstract store; its queries list what is stored, in the order of the chain. The indexer keeps
  \<open>confirmed headers @ waiting headers = chain of the node\<close> through every roll forward and backward, and the set of
  unspent outputs with it. The runner works items off in order and exactly once whatever the interleaving, so
  that, end to end, the program of \<open>main.go\<close> leaves every confirmed block in the database with all its transactions,
  processed as long as the handler of \<open>main.go\<close> reports no error. What is stored of a transaction is what parsing it
  from its bytes reports. The syncer has no more connections open than one and those it failed to close, calls the
  indexer only in sound states, stays closed, and comes to rest when its calls return. After \<open>main.go\<close> has closed the
  database, a runner at work retries without end.

  The wallet. Decoding inverts bech32 encoding and the checksum finds every single wrong symbol; information,
  bytes and text of addresses determine each other; a witness of a wallet verifies. The files and arguments of the
  one \<open>build-raw\<close> command are the transaction the builder holds; signing assembles one witness per signer. The two
  selections of outputs stay within their limits with exact sums, and the first finds a selection when one exists.
  Created transactions conserve lovelace, and every token unless there is no change; the first output of a bridging
  transaction is what its metadata lists. Both are exact as long as the sums fit into 64 bits.

  The providers give the same outputs and parameters for the same state of the chain in the documents of their
  services, except that Blockfrost's gives the first hundred outputs only, no parameters of Conway, and zeros for
  cost models by the names of operations; the table of the cli is read back. The node provider replaces a broken connection if its loop got to
  the channel in time, and never otherwise. Secrets stored are read back unless the service fails the read, and those
  in files are never overwritten and never lost, unless removed. Repeated calls are bounded and decided by the first conclusive one.

  \<^bold>\<open>Parameters and their laws.\<close> Code outside of the repository is an argument: the buckets of bbolt (\<open>kv_ops\<close> with
  \<open>kv_laws\<close>: put, get, delete, iteration in the order of keys, errors of its own), ed25519, blake2b and cbor
  (\<open>ed25519_laws\<close>, \<open>cbor_laws\<close>), \<open>cardano-cli\<close> with the file system around it (\<open>os_env\<close>; what a command does is assumed
  only for the files it is told to write), the answers of HTTP services (\<open>http_env\<close>), the client of a node, the clients
  of Vault, AWS and Google Cloud, 64-bit floats (\<open>float_ops\<close>), the reader and the printer of the text of JSON, base58.
  Every law is met by a concrete instance in the witnesses: association lists for buckets and services, toy signature
  schemes, a scripted executable.

  \<^bold>\<open>Termination.\<close> Loops over data are structural or have a measure (the digits of a variable-length integer, the
  remaining bits of a byte, the rest of a string). The one loop that may not end, \<open>SplitString\<close>, is a
  \<open>partial_function\<close> whose \<open>None\<close> is that it does not return. No definition uses fuel: the loops of goroutines are the
  step relations, and that they stop is a property of their runs (a number of steps computed from the state).

  \<^bold>\<open>Not modelled.\<close> The contents of log messages and the logging libraries (a logger is the options and the file it is
  made with); real time (a delay may end at any moment, a context is done when the environment says so); data races on
  variables read without a lock, except where a step relation makes the read a step of its own; symbolic links, the
  working directory and file names in other cases; the text of JSON, including members in other cases than the tag's;
  aliasing of slices between the caller and the builder. Of \<open>main.go\<close> the function \<open>main\<close>, which calls \<open>startSyncer\<close>
  ten times between signals and timeouts. \<open>gorules\<close> (patterns for a linter and its test data) and
  \<open>indexer/test_mocks.go\<close> (doubles for tests) are no part of the running program. Interfaces of Go without a body
  appear as the locales and parameter records above, or not at all where nothing depends on them.
\<close>

end
